(* ===== verification/Prelude.thy ===== *)
theory Prelude
  imports Main
begin

text \<open>
  Shared vocabulary of the PureBoot development.

  \<^item> Python values the components exchange: optional strings with their truth value, ASCII
    case folding, string prefix and suffix tests, datetimes.
  \<^item> SQL tables. A table is the list of its rows in rowid order; \<open>sql_insert\<close>,
    \<open>sql_upsert\<close>, \<open>sql_update\<close>, \<open>sql_delete\<close> and \<open>sql_get\<close> are the
    statements the sources issue (INSERT, INSERT OR REPLACE, UPDATE, DELETE, SELECT by key).
    \<open>ORDER BY\<close> is the library's stable \<open>sort_key\<close>, so rows with equal keys keep
    their rowid order.
  \<^item> The locale \<open>keyed_store\<close>: the contract of a table with a primary key, with the facts
    its clients use. The node cache and the sync queue of the site agent interpret it.
\<close>

section \<open>Collections of rewrite rules\<close>

named_theorems tab_simps \<open>rewrite rules for the SQL table operations\<close>

section \<open>Values\<close>

text \<open>A datetime is the number of microseconds since the epoch, in UTC.\<close>

type_synonym datetime = int

abbreviation hours :: "int \<Rightarrow> int" where
  "hours h \<equiv> h * 3600000000"

abbreviation seconds :: "int \<Rightarrow> int" where
  "seconds s \<equiv> s * 1000000"

text \<open>The truth value of a \<open>str | None\<close>: both \<open>None\<close> and the empty string are false.\<close>

definition truthy :: "string option \<Rightarrow> bool" where
  "truthy x = (case x of None \<Rightarrow> False | Some s \<Rightarrow> s \<noteq> [])"

lemma truthy_simps [simp]:
  "\<not> truthy None"
  "truthy (Some s) \<longleftrightarrow> s \<noteq> []"
  by (simp_all add: truthy_def)

text \<open>Python's \<open>a or b\<close> on optional strings.\<close>

definition or_str :: "string option \<Rightarrow> string option \<Rightarrow> string option" where
  "or_str a b = (if truthy a then a else b)"

text \<open>
  A JSON value, as \<open>json.loads\<close> gives it and \<open>json.dumps\<close> takes it. Columns that hold
  the text of \<open>json.dumps(v)\<close> hold \<open>v\<close> in the model.
\<close>

datatype json =
    JNull
  | JBool bool
  | JInt int
  | JStr string
  | JList "json list"
  | JObj "(string \<times> json) list"

text \<open>\<open>d.get(key)\<close> of a dict in insertion order, \<open>None\<close> being JSON's null.\<close>

definition jget :: "(string \<times> json) list \<Rightarrow> string \<Rightarrow> json" where
  "jget d k = (case map_of d k of None \<Rightarrow> JNull | Some v \<Rightarrow> v)"

fun jtruthy :: "json \<Rightarrow> bool" where
  "jtruthy JNull = False"
| "jtruthy (JBool b) = b"
| "jtruthy (JInt n) = (n \<noteq> 0)"
| "jtruthy (JStr s) = (s \<noteq> [])"
| "jtruthy (JList xs) = (xs \<noteq> [])"
| "jtruthy (JObj d) = (d \<noteq> [])"

text \<open>
  A dict in insertion order: assigning an existing key keeps its place, \<open>del\<close> removes it.
\<close>

fun dict_put :: "'k \<Rightarrow> 'v \<Rightarrow> ('k \<times> 'v) list \<Rightarrow> ('k \<times> 'v) list" where
  "dict_put k v [] = [(k, v)]"
| "dict_put k v ((k', v') # d) = (if k = k' then (k, v) # d else (k', v') # dict_put k v d)"

definition dict_del :: "'k \<Rightarrow> ('k \<times> 'v) list \<Rightarrow> ('k \<times> 'v) list" where
  "dict_del k d = filter (\<lambda>(k', v). k' \<noteq> k) d"

lemma map_of_dict_put [simp]: "map_of (dict_put k v d) = (map_of d)(k \<mapsto> v)"
  by (induction d) auto

lemma set_keys_dict_put [simp]: "fst ` set (dict_put k v d) = insert k (fst ` set d)"
  by (induction k v d rule: dict_put.induct) (simp_all add: insert_commute)

lemma distinct_dict_put [simp]: "distinct (map fst d) \<Longrightarrow> distinct (map fst (dict_put k v d))"
proof (induction d)
  case (Cons p d)
  have "fst p \<notin> fst ` set (dict_put k v d)" if "k \<noteq> fst p"
    using that Cons.prems by simp
  with Cons show ?case by (cases p) auto
qed simp

lemma map_of_dict_del [simp]: "map_of (dict_del k d) j = (if j = k then None else map_of d j)"
  by (induction d) (auto simp: dict_del_def)

lemma distinct_dict_del [simp]: "distinct (map fst d) \<Longrightarrow> distinct (map fst (dict_del k d))"
  by (simp add: dict_del_def distinct_map_filter)

section \<open>ASCII strings\<close>

text \<open>\<open>str.lower()\<close> on ASCII text.\<close>

definition lower_char :: "char \<Rightarrow> char" where
  "lower_char c =
     (if 65 \<le> (of_char c :: nat) \<and> (of_char c :: nat) \<le> 90
      then char_of ((of_char c :: nat) + 32) else c)"

definition lower :: "string \<Rightarrow> string" where
  "lower s = map lower_char s"

text \<open>\<open>str.replace(a, b)\<close> for single characters.\<close>

definition replace_char :: "char \<Rightarrow> char \<Rightarrow> string \<Rightarrow> string" where
  "replace_char a b s = map (\<lambda>c. if c = a then b else c) s"

definition startswith :: "string \<Rightarrow> string \<Rightarrow> bool" where
  "startswith s p = (take (length p) s = p)"

definition endswith :: "string \<Rightarrow> string \<Rightarrow> bool" where
  "endswith s p = (length p \<le> length s \<and> drop (length s - length p) s = p)"

lemma startswith_iff: "startswith s p \<longleftrightarrow> (\<exists>r. s = p @ r)"
  by (metis append_eq_conv_conj append_take_drop_id startswith_def)

text \<open>
  Lines that each end in a newline, \<open>sep.join(parts)\<close>, and \<open>s.strip()\<close> on ASCII text.
\<close>

definition unlines :: "string list \<Rightarrow> string" where
  "unlines ls = concat (map (\<lambda>l. l @ [CHR 0x0A]) ls)"

fun join_with :: "string \<Rightarrow> string list \<Rightarrow> string" where
  "join_with sep [] = []"
| "join_with sep [p] = p"
| "join_with sep (p # ps) = p @ sep @ join_with sep ps"

definition is_space :: "char \<Rightarrow> bool" where
  "is_space c \<longleftrightarrow> c \<in> set [CHR 0x20, CHR 0x09, CHR 0x0A, CHR 0x0B, CHR 0x0C, CHR 0x0D, CHR 0x1C, CHR 0x1D, CHR 0x1E, CHR 0x1F]"

definition strip :: "string \<Rightarrow> string" where
  "strip s = rev (dropWhile is_space (rev (dropWhile is_space s)))"

text \<open>
  A pattern that ends in \<open>$\<close> also matches before a final newline.
\<close>

definition strip_newline :: "string \<Rightarrow> string" where
  "strip_newline s = (if s \<noteq> [] \<and> last s = CHR 0x0A then butlast s else s)"

text \<open>\<open>p in s\<close> and \<open>s.split(sep)\<close> for a one-character separator.\<close>

fun contains :: "string \<Rightarrow> string \<Rightarrow> bool" where
  "contains p [] \<longleftrightarrow> p = []"
| "contains p (c # cs) \<longleftrightarrow> startswith (c # cs) p \<or> contains p cs"

fun split_on :: "char \<Rightarrow> string \<Rightarrow> string list" where
  "split_on sep [] = [[]]"
| "split_on sep (c # cs) =
     (if c = sep then [] # split_on sep cs
      else case split_on sep cs of [] \<Rightarrow> [[c]] | p # ps \<Rightarrow> (c # p) # ps)"

lemma split_on_nonempty [simp]: "split_on sep s \<noteq> []"
  by (cases s) (auto split: list.splits)

lemma split_on_no_sep: "x \<in> set (split_on sep s) \<Longrightarrow> sep \<notin> set x"
proof (induction s arbitrary: x)
  case (Cons c cs)
  then show ?case by (cases "split_on sep cs") (auto split: if_splits)
qed simp

lemma split_on_single: "sep \<notin> set s \<Longrightarrow> split_on sep s = [s]"
  by (induction s) auto

lemma split_on_append: "sep \<notin> set p \<Longrightarrow> split_on sep (p @ sep # s) = p # split_on sep s"
  by (induction p) auto

lemma contains_iff: "contains p s \<longleftrightarrow> (\<exists>a b. s = a @ p @ b)"
proof (induction s)
  case (Cons c cs)
  have "(\<exists>a b. c # cs = a @ p @ b) \<longleftrightarrow> (\<exists>b. c # cs = p @ b) \<or> (\<exists>a b. cs = a @ p @ b)"
    by (metis Cons_eq_append_conv append_Cons append_Nil)
  with Cons show ?case by (simp add: startswith_iff)
qed auto

lemma endswith_iff: "endswith s p \<longleftrightarrow> (\<exists>r. s = r @ p)"
proof
  assume e: "endswith s p"
  then have "take (length s - length p) s @ p = s"
    unfolding endswith_def by (metis append_take_drop_id)
  then show "\<exists>r. s = r @ p" by metis
next
  assume "\<exists>r. s = r @ p"
  then show "endswith s p" by (auto simp: endswith_def)
qed

lemma lower_char_idem [simp]: "lower_char (lower_char c) = lower_char c"
proof (cases "65 \<le> (of_char c :: nat) \<and> (of_char c :: nat) \<le> 90")
  case True
  then have "of_char (char_of ((of_char c :: nat) + 32)) = (of_char c :: nat) + 32"
    by simp
  with True show ?thesis
    by (simp add: lower_char_def)
qed (auto simp: lower_char_def)

lemma lower_idem [simp]: "lower (lower s) = lower s"
  by (simp add: lower_def)

lemma replace_char_idem [simp]: "a \<noteq> b \<Longrightarrow> replace_char a b (replace_char a b s) = replace_char a b s"
  by (simp add: replace_char_def)

text \<open>The normal form of a MAC address: \<open>mac.lower().replace("-", ":")\<close>.\<close>

definition norm_mac :: "string \<Rightarrow> string" where
  "norm_mac m = replace_char (CHR ''-'') (CHR '':'') (lower m)"

lemma lower_char_dash: "lower_char c = CHR ''-'' \<longleftrightarrow> c = CHR ''-''"
proof (cases "65 \<le> (of_char c :: nat) \<and> (of_char c :: nat) \<le> 90")
  case True
  then have v: "of_char (lower_char c) = (of_char c :: nat) + 32"
    by (simp add: lower_char_def)
  have "of_char (CHR ''-'') = (45 :: nat)" by simp
  with v True show ?thesis by auto
qed (auto simp: lower_char_def)

lemma lower_char_newline: "lower_char c = CHR 0x0A \<longleftrightarrow> c = CHR 0x0A"
proof (cases "65 \<le> (of_char c :: nat) \<and> (of_char c :: nat) \<le> 90")
  case True
  then have "of_char (lower_char c) = (of_char c :: nat) + 32" by (simp add: lower_char_def)
  with True have "of_char (lower_char c) \<noteq> (10 :: nat)" "of_char c \<noteq> (10 :: nat)" by simp_all
  then show ?thesis by auto
qed (auto simp: lower_char_def)

lemma strip_newline_lower: "strip_newline (lower s) = lower (strip_newline s)"
  by (cases s rule: rev_cases) (auto simp: strip_newline_def lower_def lower_char_newline)

lemma length_lower [simp]: "length (lower s) = length s"
  by (simp add: lower_def)

lemma norm_mac_no_dash: "CHR ''-'' \<notin> set (norm_mac m)"
  by (auto simp: norm_mac_def replace_char_def split: if_splits)

lemma lower_norm_mac [simp]: "lower (norm_mac m) = norm_mac m"
  by (auto simp: norm_mac_def lower_def replace_char_def) (simp add: lower_char_def)

lemma norm_mac_idem [simp]: "norm_mac (norm_mac m) = norm_mac m"
proof -
  have "replace_char (CHR ''-'') (CHR '':'') (norm_mac m) = norm_mac m"
    using norm_mac_no_dash [of m] by (auto simp: replace_char_def intro!: map_idI)
  then show ?thesis
    unfolding norm_mac_def [of "norm_mac m"] by simp
qed

section \<open>Decimal numerals\<close>

text \<open>\<open>str(n)\<close> of an integer.\<close>

definition digit_char :: "nat \<Rightarrow> char" where
  "digit_char d = char_of (48 + d)"

fun show_nat :: "nat \<Rightarrow> string" where
  "show_nat n = (if n < 10 then [digit_char n] else show_nat (n div 10) @ [digit_char (n mod 10)])"

declare show_nat.simps [simp del]

definition show_int :: "int \<Rightarrow> string" where
  "show_int i = (if i < 0 then CHR ''-'' # show_nat (nat (- i)) else show_nat (nat i))"

text \<open>Reading decimal digits from the left; \<open>None\<close> on any other character.\<close>

definition digit_val :: "char \<Rightarrow> nat option" where
  "digit_val c =
     (let v = (of_char c :: nat) in if 48 \<le> v \<and> v \<le> 57 then Some (v - 48) else None)"

fun read_digits :: "nat \<Rightarrow> string \<Rightarrow> nat option" where
  "read_digits acc [] = Some acc"
| "read_digits acc (c # cs) =
     (case digit_val c of None \<Rightarrow> None | Some d \<Rightarrow> read_digits (10 * acc + d) cs)"

lemma digit_val_char [simp]: "d < 10 \<Longrightarrow> digit_val (digit_char d) = Some d"
  by (simp add: digit_val_def digit_char_def)

lemma read_digits_append:
  "read_digits acc (xs @ ys) =
     (case read_digits acc xs of None \<Rightarrow> None | Some a \<Rightarrow> read_digits a ys)"
  by (induction acc xs rule: read_digits.induct) (auto split: option.splits)

lemma show_nat_nonempty [simp]: "show_nat n \<noteq> []"
  by (subst show_nat.simps) simp

lemma read_digits_show_nat: "read_digits 0 (show_nat n) = Some n"
proof (induction n rule: show_nat.induct)
  case (1 n)
  show ?case
  proof (cases "n < 10")
    case True
    then show ?thesis by (subst show_nat.simps) simp
  next
    case False
    with 1 have ih: "read_digits 0 (show_nat (n div 10)) = Some (n div 10)" by simp
    have "show_nat n = show_nat (n div 10) @ [digit_char (n mod 10)]"
      using False by (subst show_nat.simps) simp
    with ih show ?thesis by (simp add: read_digits_append)
  qed
qed

lemma show_nat_digits: "c \<in> set (show_nat n) \<Longrightarrow> digit_val c \<noteq> None"
proof (induction n rule: show_nat.induct)
  case (1 n)
  then show ?case
    by (cases "n < 10") (auto simp: show_nat.simps [of n])
qed

section \<open>Sequencing computations that may raise\<close>

definition ebind :: "'e + 'a \<Rightarrow> ('a \<Rightarrow> 'e + 'b) \<Rightarrow> 'e + 'b" where
  "ebind m f = (case m of Inl e \<Rightarrow> Inl e | Inr x \<Rightarrow> f x)"

lemma ebind_simps [simp]: "ebind (Inl e) f = Inl e" "ebind (Inr x) f = f x"
  by (simp_all add: ebind_def)

lemma ebind_Inr_iff: "ebind m f = Inr y \<longleftrightarrow> (\<exists>x. m = Inr x \<and> f x = Inr y)"
  by (cases m) auto

lemma ebind_Inl_iff: "ebind m f = Inl e \<longleftrightarrow> m = Inl e \<or> (\<exists>x. m = Inr x \<and> f x = Inl e)"
  by (cases m) auto

section \<open>SQL tables\<close>

datatype sql_error = IntegrityError

definition sql_get :: "('r \<Rightarrow> 'k) \<Rightarrow> 'k \<Rightarrow> 'r list \<Rightarrow> 'r option" where
  "sql_get key k t = find (\<lambda>r. key r = k) t"

definition sql_insert :: "('r \<Rightarrow> 'k) \<Rightarrow> 'r \<Rightarrow> 'r list \<Rightarrow> sql_error + 'r list" where
  "sql_insert key r t =
     (if key r \<in> key ` set t then Inl IntegrityError else Inr (t @ [r]))"

definition sql_upsert :: "('r \<Rightarrow> 'k) \<Rightarrow> 'r \<Rightarrow> 'r list \<Rightarrow> 'r list" where
  "sql_upsert key r t = filter (\<lambda>x. key x \<noteq> key r) t @ [r]"

text \<open>UPDATE and DELETE return the changed table and the cursor's \<open>rowcount\<close>.\<close>

definition sql_update :: "('r \<Rightarrow> bool) \<Rightarrow> ('r \<Rightarrow> 'r) \<Rightarrow> 'r list \<Rightarrow> 'r list \<times> nat" where
  "sql_update p f t = (map (\<lambda>r. if p r then f r else r) t, length (filter p t))"

definition sql_delete :: "('r \<Rightarrow> bool) \<Rightarrow> 'r list \<Rightarrow> 'r list \<times> nat" where
  "sql_delete p t = (filter (\<lambda>r. \<not> p r) t, length (filter p t))"

text \<open>The primary-key constraint.\<close>

definition keys_unique :: "('r \<Rightarrow> 'k) \<Rightarrow> 'r list \<Rightarrow> bool" where
  "keys_unique key t = distinct (map key t)"

lemma not_in_imageD: "k \<notin> f ` A \<Longrightarrow> x \<in> A \<Longrightarrow> f x \<noteq> k"
  by auto

lemma find_append: "find p (xs @ ys) = (case find p xs of None \<Rightarrow> find p ys | Some x \<Rightarrow> Some x)"
  by (induction xs) auto

lemma sql_get_None_iff: "sql_get key k t = None \<longleftrightarrow> k \<notin> key ` set t"
  by (auto simp: sql_get_def find_None_iff)

lemma sql_get_SomeD: "sql_get key k t = Some r \<Longrightarrow> r \<in> set t \<and> key r = k"
  by (auto simp: sql_get_def find_Some_iff)

lemma sql_get_in_set:
  assumes "keys_unique key t" and "r \<in> set t"
  shows "sql_get key (key r) t = Some r"
proof -
  from assms(2) have "sql_get key (key r) t \<noteq> None"
    by (simp add: sql_get_None_iff)
  then obtain r' where r': "sql_get key (key r) t = Some r'" by blast
  then have "r' \<in> set t" "key r' = key r"
    by (auto dest: sql_get_SomeD)
  with assms have "r' = r"
    by (auto simp: keys_unique_def distinct_map inj_on_def)
  with r' show ?thesis by simp
qed

lemma sql_get_upsert [tab_simps]:
  "sql_get key k (sql_upsert key r t) = (if k = key r then Some r else sql_get key k t)"
  by (induction t) (auto simp: sql_get_def sql_upsert_def)

lemma sql_get_append [tab_simps]:
  "key r \<notin> key ` set t \<Longrightarrow>
   sql_get key k (t @ [r]) = (if k = key r then Some r else sql_get key k t)"
  by (induction t) (auto simp: sql_get_def)

lemma sql_get_update [tab_simps]:
  assumes "\<And>r. key (f r) = key r" and "\<And>r. p r \<longleftrightarrow> p' (key r)"
  shows "sql_get key k (fst (sql_update p f t)) =
    (if p' k then map_option f (sql_get key k t) else sql_get key k t)"
  by (induction t) (auto simp: sql_get_def sql_update_def assms)

lemma sql_get_delete_key [tab_simps]:
  "sql_get key k (fst (sql_delete (\<lambda>r. key r = k') t)) =
    (if k = k' then None else sql_get key k t)"
  by (induction t) (auto simp: sql_get_def sql_delete_def)

lemma sql_update_count_0 [tab_simps]:
  "snd (sql_update (\<lambda>r. key r = k) f t) = 0 \<longleftrightarrow> sql_get key k t = None"
  by (auto simp: sql_update_def sql_get_None_iff filter_empty_conv)

lemma sql_delete_count_0 [tab_simps]:
  "snd (sql_delete (\<lambda>r. key r = k) t) = 0 \<longleftrightarrow> sql_get key k t = None"
  by (auto simp: sql_delete_def sql_get_None_iff filter_empty_conv)

lemma keys_unique_update [tab_simps]:
  "(\<And>r. key (f r) = key r) \<Longrightarrow> keys_unique key (fst (sql_update p f t)) = keys_unique key t"
  by (simp add: keys_unique_def sql_update_def comp_def if_distrib cong: if_cong)

lemma keys_unique_filter: "keys_unique key t \<Longrightarrow> keys_unique key (filter p t)"
  by (simp add: keys_unique_def distinct_map_filter)

lemma keys_unique_delete [tab_simps]: "keys_unique key t \<Longrightarrow> keys_unique key (fst (sql_delete p t))"
  by (simp add: sql_delete_def keys_unique_filter)

lemma keys_unique_upsert [tab_simps]: "keys_unique key t \<Longrightarrow> keys_unique key (sql_upsert key r t)"
  by (auto simp: sql_upsert_def keys_unique_def distinct_map_filter)

lemma keys_unique_insert [tab_simps]:
  "keys_unique key t \<Longrightarrow> sql_insert key r t = Inr t' \<Longrightarrow> keys_unique key t'"
  by (auto simp: sql_insert_def keys_unique_def split: if_splits)

lemma filter_key_unique:
  assumes "keys_unique key t" and "r \<in> set t"
  shows "filter (\<lambda>x. key x = key r) t = [r]"
  using assms
proof (induction t)
  case (Cons x t)
  have "filter (\<lambda>y. key y = key x) t = []"
    using Cons.prems(1) by (auto simp: keys_unique_def filter_empty_conv dest: not_in_imageD)
  moreover have "key x \<noteq> key r" if "r \<in> set t"
    using Cons.prems(1) that by (auto simp: keys_unique_def dest: not_in_imageD)
  ultimately show ?case using Cons by (auto simp: keys_unique_def)
qed simp

section \<open>The contract of a table with a primary key\<close>

locale keyed_store =
  fixes lookup :: "'s \<Rightarrow> 'k \<Rightarrow> 'r option"
    and put :: "'r \<Rightarrow> 's \<Rightarrow> 's"
    and remove :: "'k \<Rightarrow> 's \<Rightarrow> 's"
    and keyof :: "'r \<Rightarrow> 'k"
    and ok :: "'r \<Rightarrow> 's \<Rightarrow> bool"
    and inv :: "'s \<Rightarrow> bool"
  assumes lookup_put: "inv s \<Longrightarrow> ok r s \<Longrightarrow> lookup (put r s) = (lookup s)(keyof r \<mapsto> r)"
    and lookup_remove: "inv s \<Longrightarrow> lookup (remove k s) = (lookup s)(k := None)"
    and inv_put: "inv s \<Longrightarrow> ok r s \<Longrightarrow> inv (put r s)"
    and inv_remove: "inv s \<Longrightarrow> inv (remove k s)"
begin

lemma lookup_put_same: "inv s \<Longrightarrow> ok r s \<Longrightarrow> lookup (put r s) (keyof r) = Some r"
  by (simp add: lookup_put)

lemma lookup_put_other: "inv s \<Longrightarrow> ok r s \<Longrightarrow> k \<noteq> keyof r \<Longrightarrow> lookup (put r s) k = lookup s k"
  by (simp add: lookup_put)

lemma remove_put_fresh:
  assumes "inv s" "ok r s" "lookup s (keyof r) = None"
  shows "lookup (remove (keyof r) (put r s)) = lookup s"
  using assms by (auto simp: lookup_remove lookup_put inv_put)

text \<open>Removing a list of keys leaves exactly the rows with other keys.\<close>

lemma lookup_fold_remove:
  "inv s \<Longrightarrow>
   inv (fold remove ks s) \<and> lookup (fold remove ks s) = (lookup s) |` (- set ks)"
proof (induction ks arbitrary: s)
  case (Cons k ks)
  have "lookup (remove k s) |` (- set ks) = lookup s |` (- set (k # ks))"
    using lookup_remove [OF Cons.prems] by (auto simp: fun_eq_iff restrict_map_def)
  with Cons show ?case by (simp add: inv_remove)
qed (simp add: restrict_map_def)

end

end
