(* ===== verification/Session.thy ===== *)
theory Session
  imports Prelude
begin

text \<open>
  The request boundary of the controller: \<open>get_db\<close> (src/src/db/database.py) opens a
  session per request, commits it when the handler returns and rolls it back when the handler
  raises. A handler is a function \<open>'q \<Rightarrow> 's \<Rightarrow> 'e + 's\<close> from the request and the stored
  state to the exception that left it or the new state.

  The locale \<open>transactional\<close> is the contract between this boundary and a set of handlers:
  a handler that returns keeps the invariant. Its facts, an invariant of every served sequence
  of requests and the absence of effects of a failed one, are proved once here; the node routes
  and the approval routes interpret it.
\<close>

definition get_db :: "('q \<Rightarrow> 's \<Rightarrow> 'e + 's) \<Rightarrow> 'q \<Rightarrow> 's \<Rightarrow> 's" where
  "get_db h q s = (case h q s of Inl e \<Rightarrow> s | Inr s' \<Rightarrow> s')"

fun serve :: "('q \<Rightarrow> 's \<Rightarrow> 'e + 's) \<Rightarrow> 'q list \<Rightarrow> 's \<Rightarrow> 's" where
  "serve h [] s = s"
| "serve h (q # qs) s = serve h qs (get_db h q s)"

lemma get_db_raise [simp]: "h q s = Inl e \<Longrightarrow> get_db h q s = s"
  by (simp add: get_db_def)

lemma serve_append: "serve h (qs @ rs) s = serve h rs (serve h qs s)"
  by (induction qs arbitrary: s) simp_all

locale transactional =
  fixes handle :: "'q \<Rightarrow> 's \<Rightarrow> 'e + 's"
    and inv :: "'s \<Rightarrow> bool"
  assumes handle_inv: "inv s \<Longrightarrow> handle q s = Inr s' \<Longrightarrow> inv s'"
begin

lemma get_db_inv: "inv s \<Longrightarrow> inv (get_db handle q s)"
  by (cases "handle q s") (auto simp: get_db_def dest: handle_inv)

lemma serve_inv: "inv s \<Longrightarrow> inv (serve handle qs s)"
  by (induction qs arbitrary: s) (auto intro: get_db_inv)

text \<open>A property that every returning handler keeps under the invariant holds after any run.\<close>

lemma serve_preserves:
  assumes "inv s" and "P s"
    and "\<And>q s s'. q \<in> set qs \<Longrightarrow> inv s \<Longrightarrow> P s \<Longrightarrow> handle q s = Inr s' \<Longrightarrow> P s'"
  shows "P (serve handle qs s)"
  using assms
proof (induction qs arbitrary: s)
  case (Cons q qs)
  have "P (get_db handle q s)"
    using Cons.prems by (cases "handle q s") (auto simp: get_db_def)
  moreover have "inv (get_db handle q s)" using Cons.prems(1) by (rule get_db_inv)
  moreover have "P s'" if "r \<in> set qs" "inv s" "P s" "handle r s = Inr s'" for r s s'
    using that(2-) by (rule Cons.prems(3) [of r, rotated]) (simp add: that(1))
  ultimately show ?case using Cons.IH by simp
qed simp

end

end
