(* ===== verification/Lifecycle.thy ===== *)
theory Lifecycle
  imports Prelude
begin

text \<open>
  The node lifecycle: \<open>NodeStateMachine\<close> (src/src/core/state_machine.py),
  \<open>StateTransitionService\<close> (src/src/core/state_service.py) and \<open>EventService\<close>
  (src/src/core/event_service.py), with the rows they write (src/src/db/models.py).

  States are the strings of the code, so an unknown state is a value of the model too. A
  service call takes the clock reading and the node and returns the changed node with the
  audit row it adds to the session, or the exception it raises. The surrogate keys of audit
  and event rows and the columns the database fills by itself (\<open>created_at\<close>,
  \<open>updated_at\<close>) are left out.
\<close>

section \<open>The state machine\<close>

definition STATES :: "string list" where
  "STATES = [''discovered'', ''pending'', ''installing'', ''install_failed'', ''installed'',
     ''active'', ''reprovision'', ''deprovisioning'', ''migrating'', ''serving_source'',
     ''cloning_target'', ''retired'']"

definition TRANSITIONS :: "(string \<times> string list) list" where
  "TRANSITIONS =
    [(''discovered'', [''pending'', ''cloning_target'']),
     (''pending'', [''installing'']),
     (''installing'', [''installed'', ''install_failed'']),
     (''install_failed'', [''pending'']),
     (''installed'', [''active'', ''reprovision'', ''retired'']),
     (''active'', [''reprovision'', ''deprovisioning'', ''migrating'', ''serving_source'',
        ''cloning_target'']),
     (''reprovision'', [''pending'']),
     (''deprovisioning'', [''retired'']),
     (''migrating'', [''active'']),
     (''serving_source'', [''active'']),
     (''cloning_target'', [''installed'']),
     (''retired'', [])]"

definition transitions_get :: "string \<Rightarrow> string list" where
  "transitions_get s = (case map_of TRANSITIONS s of None \<Rightarrow> [] | Some ts \<Rightarrow> ts)"

definition can_transition :: "string \<Rightarrow> string \<Rightarrow> bool" where
  "can_transition from_state to_state =
     (if to_state = ''retired'' then from_state \<noteq> ''retired''
      else to_state \<in> set (transitions_get from_state))"

text \<open>The exceptions of the service; the code's messages are their printed forms.\<close>

datatype svc_error =
    InvalidStateTransition string string
  | MaxInstallAttempts

definition transition :: "string \<Rightarrow> string \<Rightarrow> svc_error + string" where
  "transition from_state to_state =
     (if \<not> can_transition from_state to_state
      then Inl (InvalidStateTransition from_state to_state)
      else Inr to_state)"

definition get_valid_transitions :: "string \<Rightarrow> string list" where
  "get_valid_transitions from_state =
     (let valid = transitions_get from_state
      in if from_state \<noteq> ''retired'' \<and> ''retired'' \<notin> set valid
         then valid @ [''retired''] else valid)"

section \<open>Rows\<close>

record node =
  n_id :: string
  n_mac_address :: string
  n_hostname :: "string option"
  n_ip_address :: "string option"
  n_state :: string
  n_workflow_id :: "string option"
  n_vendor :: "string option"
  n_model :: "string option"
  n_serial_number :: "string option"
  n_system_uuid :: "string option"
  n_arch :: string
  n_boot_mode :: string
  n_health_status :: string
  n_health_score :: int
  n_boot_count :: int
  n_last_boot_at :: "datetime option"
  n_last_ip_change_at :: "datetime option"
  n_previous_ip_address :: "string option"
  n_pi_model :: "string option"
  n_group_id :: "string option"
  n_home_site_id :: "string option"
  n_last_seen_at :: "datetime option"
  n_install_attempts :: int
  n_last_install_error :: "string option"
  n_state_changed_at :: "datetime option"
  n_disk_scan_requested_at :: "datetime option"
  n_pending_command :: "string option"

text \<open>A node as \<open>Node(...)\<close> creates it: the column defaults.\<close>

definition new_node :: "string \<Rightarrow> string \<Rightarrow> node" where
  "new_node i mac =
     \<lparr>n_id = i, n_mac_address = mac, n_hostname = None, n_ip_address = None,
      n_state = ''discovered'', n_workflow_id = None, n_vendor = None, n_model = None,
      n_serial_number = None, n_system_uuid = None, n_arch = ''x86_64'', n_boot_mode = ''bios'',
      n_health_status = ''unknown'', n_health_score = 100, n_boot_count = 0,
      n_last_boot_at = None, n_last_ip_change_at = None, n_previous_ip_address = None,
      n_pi_model = None, n_group_id = None, n_home_site_id = None, n_last_seen_at = None,
      n_install_attempts = 0, n_last_install_error = None, n_state_changed_at = None,
      n_disk_scan_requested_at = None, n_pending_command = None\<rparr>"

record state_log =
  l_node_id :: string
  l_from_state :: string
  l_to_state :: string
  l_triggered_by :: string
  l_user_id :: "string option"
  l_comment :: "string option"
  l_metadata :: "(string \<times> json) list option"

record node_event =
  e_node_id :: string
  e_event_type :: string
  e_status :: string
  e_message :: "string option"
  e_progress :: "int option"
  e_metadata :: "(string \<times> json) list option"
  e_ip_address :: "string option"

text \<open>\<open>json.dumps(metadata) if metadata else None\<close>: an empty dict is stored as NULL.\<close>

definition dumps_if :: "(string \<times> json) list option \<Rightarrow> (string \<times> json) list option" where
  "dumps_if md = (case md of None \<Rightarrow> None | Some [] \<Rightarrow> None | Some d \<Rightarrow> Some d)"

section \<open>The transition service\<close>

definition MAX_INSTALL_ATTEMPTS :: int where
  "MAX_INSTALL_ATTEMPTS = 3"

definition svc_transition ::
    "datetime \<Rightarrow> node \<Rightarrow> string \<Rightarrow> string \<Rightarrow> string option \<Rightarrow> string option \<Rightarrow>
     (string \<times> json) list option \<Rightarrow> bool \<Rightarrow> svc_error + node \<times> state_log" where
  "svc_transition now n to_state triggered_by user_id comment metadata force =
     (let from_state = n_state n in
      if from_state = ''install_failed'' \<and> to_state = ''pending'' \<and> \<not> force
         \<and> n_install_attempts n \<ge> MAX_INSTALL_ATTEMPTS
      then Inl MaxInstallAttempts
      else if \<not> force \<and> \<not> can_transition from_state to_state
      then Inl (InvalidStateTransition from_state to_state)
      else
        (let n1 = n\<lparr>n_state := to_state, n_state_changed_at := Some now\<rparr>;
             n2 = (if force \<or> to_state = ''installed''
                   then n1\<lparr>n_install_attempts := 0, n_last_install_error := None\<rparr> else n1);
             entry = \<lparr>l_node_id = n_id n, l_from_state = from_state, l_to_state = to_state,
                      l_triggered_by = triggered_by, l_user_id = user_id,
                      l_comment = comment, l_metadata = dumps_if metadata\<rparr>
         in Inr (n2, entry)))"

text \<open>
  \<open>handle_install_failure\<close> counts the attempt on the node before it can raise, so the
  node is part of the result on both paths.
\<close>

definition jopt :: "string option \<Rightarrow> json" where
  "jopt x = (case x of None \<Rightarrow> JNull | Some s \<Rightarrow> JStr s)"

definition handle_install_failure ::
    "datetime \<Rightarrow> node \<Rightarrow> string option \<Rightarrow> node \<times> (svc_error + state_log list)" where
  "handle_install_failure now n error =
     (let n1 = n\<lparr>n_install_attempts := n_install_attempts n + 1, n_last_install_error := error\<rparr>
      in if n_install_attempts n1 \<ge> MAX_INSTALL_ATTEMPTS
         then (case svc_transition now n1 ''install_failed'' ''node_report'' None None
                 (Some [(''error'', jopt error), (''attempt'', JInt (n_install_attempts n1))])
                 False of
                 Inl e \<Rightarrow> (n1, Inl e)
               | Inr (n2, entry) \<Rightarrow> (n2, Inr [entry]))
         else (n1, Inr []))"

section \<open>The event service\<close>

definition log_event ::
    "node \<Rightarrow> string \<Rightarrow> string \<Rightarrow> string option \<Rightarrow> int option \<Rightarrow> (string \<times> json) list option \<Rightarrow>
     string option \<Rightarrow> node_event" where
  "log_event n event_type status message progress metadata ip_address =
     \<lparr>e_node_id = n_id n, e_event_type = event_type, e_status = status, e_message = message,
      e_progress = progress, e_metadata = dumps_if metadata, e_ip_address = ip_address\<rparr>"

section \<open>Facts about the state machine\<close>

lemmas machine_defs = STATES_def TRANSITIONS_def transitions_get_def can_transition_def

lemma transitions_get_retired [simp]: "transitions_get ''retired'' = []"
  by (simp add: machine_defs)

lemma can_transition_retired [simp]: "\<not> can_transition ''retired'' t"
  by (simp add: can_transition_def)

lemma can_retire [simp]: "can_transition s ''retired'' \<longleftrightarrow> s \<noteq> ''retired''"
  by (simp add: can_transition_def)

lemma transitions_get_in_STATES: "t \<in> set (transitions_get s) \<Longrightarrow> t \<in> set STATES"
  by (auto simp: machine_defs split: if_splits)

lemma can_transition_in_STATES: "can_transition s t \<Longrightarrow> t \<in> set STATES"
  by (auto simp: can_transition_def STATES_def dest: transitions_get_in_STATES split: if_splits)

lemma can_transition_installing [simp]:
  "can_transition ''installing'' ''install_failed''" "can_transition ''installing'' ''installed''"
  "can_transition ''pending'' ''installing''" "can_transition ''installed'' ''active''"
  "\<not> can_transition ''pending'' ''installed''" "\<not> can_transition ''pending'' ''install_failed''"
  by (simp_all add: machine_defs)

text \<open>The unforced moves of a node, as a step relation.\<close>

inductive lifecycle_step :: "string \<Rightarrow> string \<Rightarrow> bool" where
  move: "can_transition s t \<Longrightarrow> lifecycle_step s t"

inductive_cases lifecycle_stepE: "lifecycle_step s t"

inductive reachable_from :: "string \<Rightarrow> string \<Rightarrow> bool" for s where
  start: "reachable_from s s"
| step: "reachable_from s t \<Longrightarrow> lifecycle_step t u \<Longrightarrow> reachable_from s u"

lemma reachable_one: "can_transition s t \<Longrightarrow> reachable_from s t"
  by (rule reachable_from.step [OF reachable_from.start]) (rule move)

lemma reachable_step: "reachable_from s t \<Longrightarrow> can_transition t u \<Longrightarrow> reachable_from s u"
  by (rule reachable_from.step) (auto intro: move)

lemma reachable_in_STATES: "reachable_from s t \<Longrightarrow> s \<in> set STATES \<Longrightarrow> t \<in> set STATES"
  by (induction rule: reachable_from.induct)
    (auto elim: lifecycle_stepE dest: can_transition_in_STATES)

lemma reachable_from_retired: "reachable_from ''retired'' t \<Longrightarrow> t = ''retired''"
  by (induction rule: reachable_from.induct) (auto elim: lifecycle_stepE)

lemma discovered_reaches_states:
  "reachable_from ''discovered'' ''pending''"
  "reachable_from ''discovered'' ''installing''"
  "reachable_from ''discovered'' ''install_failed''"
  "reachable_from ''discovered'' ''installed''"
  "reachable_from ''discovered'' ''active''"
  "reachable_from ''discovered'' ''cloning_target''"
proof -
  show 1: "reachable_from ''discovered'' ''pending''"
    by (rule reachable_one) (simp add: machine_defs)
  show 2: "reachable_from ''discovered'' ''installing''"
    by (rule reachable_step [OF 1]) simp
  show 3: "reachable_from ''discovered'' ''install_failed''"
    by (rule reachable_step [OF 2]) simp
  show 4: "reachable_from ''discovered'' ''installed''"
    by (rule reachable_step [OF 2]) simp
  show "reachable_from ''discovered'' ''active''"
    by (rule reachable_step [OF 4]) simp
  show "reachable_from ''discovered'' ''cloning_target''"
    by (rule reachable_one) (simp add: machine_defs)
qed

text \<open>
  the transition check and the list of valid transitions agree. For all states, known or
  not, \<open>can_transition\<close> allows exactly the targets \<open>get_valid_transitions\<close> lists, the
  list has no duplicates, and every target is a known state.
\<close>

theorem valid_transitions_exact:
  "(t \<in> set (get_valid_transitions s) \<longleftrightarrow> can_transition s t)
   \<and> distinct (get_valid_transitions s) \<and> set (get_valid_transitions s) \<subseteq> set STATES"
proof -
  have 1: "t \<in> set (get_valid_transitions s) \<longleftrightarrow> can_transition s t" for t
    by (auto simp: get_valid_transitions_def can_transition_def Let_def)
  moreover have "distinct (transitions_get s)"
  proof -
    have "list_all (\<lambda>p. distinct (snd p)) TRANSITIONS"
      by (simp add: TRANSITIONS_def)
    then show ?thesis
      by (fastforce simp: transitions_get_def list_all_iff split: option.split dest: map_of_SomeD)
  qed
  then have "distinct (get_valid_transitions s)"
    by (simp add: get_valid_transitions_def Let_def)
  moreover have "set (get_valid_transitions s) \<subseteq> set STATES"
    using 1 can_transition_in_STATES by blast
  ultimately show ?thesis by blast
qed

text \<open>
  the shape of the lifecycle. Unforced transitions lead a discovered node to exactly the
  twelve known states; every node that is not retired can be retired; a retired node never
  leaves that state.
\<close>

theorem lifecycle_reachability:
  "(reachable_from ''discovered'' s \<longleftrightarrow> s \<in> set STATES)
   \<and> reachable_from s ''retired''
   \<and> (reachable_from ''retired'' s \<longleftrightarrow> s = ''retired'')"
proof (intro conjI)
  have act: "reachable_from ''discovered'' ''active''" by (rule discovered_reaches_states)
  have more: "reachable_from ''discovered'' ''reprovision''" "reachable_from ''discovered'' ''deprovisioning''"
    "reachable_from ''discovered'' ''migrating''" "reachable_from ''discovered'' ''serving_source''"
    "reachable_from ''discovered'' ''retired''"
    by (rule reachable_step [OF act], simp add: machine_defs)+
  have "list_all (reachable_from ''discovered'') STATES"
    by (simp add: STATES_def discovered_reaches_states more reachable_from.start)
  then have "s \<in> set STATES \<Longrightarrow> reachable_from ''discovered'' s"
    by (simp add: list_all_iff)
  moreover have "''discovered'' \<in> set STATES" by (simp add: STATES_def)
  ultimately show "reachable_from ''discovered'' s \<longleftrightarrow> s \<in> set STATES"
    using reachable_in_STATES by blast
  show "reachable_from s ''retired''"
    by (cases "s = ''retired''") (auto intro: reachable_from.start reachable_one)
  show "reachable_from ''retired'' s \<longleftrightarrow> s = ''retired''"
    using reachable_from_retired by (auto intro: reachable_from.start)
qed

text \<open>
  what a state change does. Without \<open>force\<close> it succeeds exactly when the state machine
  allows the move and the node is not out of install attempts on its way from
  \<open>install_failed\<close> to \<open>pending\<close>; with \<open>force\<close> it always succeeds. On success the
  node is in the target state at the current time, its failure counter and error are cleared
  exactly for a forced move or a finished installation, and one audit row joins the old state
  to the new one.
\<close>

theorem svc_transition_exact:
  "(case svc_transition now n to_state by uid cm md force of
      Inl e \<Rightarrow>
        \<not> force \<and>
        e = (if n_state n = ''install_failed'' \<and> to_state = ''pending''
               \<and> n_install_attempts n \<ge> MAX_INSTALL_ATTEMPTS
             then MaxInstallAttempts else InvalidStateTransition (n_state n) to_state)
        \<and> (can_transition (n_state n) to_state \<longleftrightarrow> e = MaxInstallAttempts)
    | Inr (n', l) \<Rightarrow>
        (force \<or> can_transition (n_state n) to_state)
        \<and> n' = (if force \<or> to_state = ''installed''
                then n\<lparr>n_state := to_state, n_state_changed_at := Some now,
                       n_install_attempts := 0, n_last_install_error := None\<rparr>
                else n\<lparr>n_state := to_state, n_state_changed_at := Some now\<rparr>)
        \<and> l_node_id l = n_id n \<and> l_from_state l = n_state n \<and> l_to_state l = to_state
        \<and> l_triggered_by l = by)"
proof -
  have "can_transition ''install_failed'' ''pending''" by (simp add: machine_defs)
  then show ?thesis by (auto simp: svc_transition_def Let_def)
qed

end
