(* ===== verification/Health.thy ===== *)
theory Health
  imports Complex_Main Lifecycle
begin

text \<open>
  Node health: \<open>HealthService\<close> (src/src/core/health_service.py) and the alert
  acknowledgement of src/src/api/routes/health.py.

  Python's floats enter through one parameter, \<open>rnd\<close>, the rounding of an exact rational
  to the nearest double that every division and product applies. What the code relies on is
  \<open>float_rounding rnd\<close>: rounding is monotone and exact on the integers of magnitude up to
  \<open>2 ^ 53\<close>.
\<close>

section \<open>Settings and rows\<close>

record health_settings =
  stale_threshold_minutes :: int
  offline_threshold_minutes :: int
  score_staleness_weight :: int
  score_install_failures_weight :: int
  score_boot_stability_weight :: int
  alert_on_stale :: bool
  alert_on_offline :: bool
  alert_on_score_below :: int

definition default_health_settings :: health_settings where
  "default_health_settings =
     \<lparr>stale_threshold_minutes = 15, offline_threshold_minutes = 60,
      score_staleness_weight = 40, score_install_failures_weight = 30,
      score_boot_stability_weight = 30, alert_on_stale = True, alert_on_offline = True,
      alert_on_score_below = 50\<rparr>"

record health_alert =
  a_id :: string
  a_node_id :: string
  a_alert_type :: string
  a_severity :: string
  a_status :: string
  a_message :: string
  a_resolved_at :: "datetime option"
  a_acknowledged_at :: "datetime option"

record health_snapshot =
  h_node_id :: string
  h_health_status :: string
  h_health_score :: int
  h_last_seen_seconds_ago :: int
  h_boot_count :: int
  h_install_attempts :: int
  h_ip_address :: "string option"

datatype health_error = ZeroDivisionError | MultipleResultsFound

type_synonym rounding = "rat \<Rightarrow> rat"

definition float_rounding :: "rounding \<Rightarrow> bool" where
  "float_rounding rnd \<longleftrightarrow>
     mono rnd \<and> (\<forall>i :: int. \<bar>i\<bar> \<le> 2 ^ 53 \<longrightarrow> rnd (of_int i) = of_int i)"

section \<open>Status and score\<close>

text \<open>\<open>timedelta.total_seconds()\<close>, and \<open>int()\<close> of a float, which truncates.\<close>

definition total_seconds :: "rounding \<Rightarrow> int \<Rightarrow> rat" where
  "total_seconds rnd us = rnd (of_int us / 1000000)"

definition py_int :: "rat \<Rightarrow> int" where
  "py_int x = (if x < 0 then \<lceil>x\<rceil> else \<lfloor>x\<rfloor>)"

definition determine_health_status ::
    "health_settings \<Rightarrow> rounding \<Rightarrow> datetime \<Rightarrow> node \<Rightarrow> string" where
  "determine_health_status cfg rnd now n =
     (case n_last_seen_at n of
        None \<Rightarrow> ''unknown''
      | Some last_seen \<Rightarrow>
          (let minutes = rnd (total_seconds rnd (now - last_seen) / 60)
           in if minutes \<le> of_int (stale_threshold_minutes cfg) then ''healthy''
              else if minutes \<le> of_int (offline_threshold_minutes cfg) then ''stale''
              else ''offline''))"

definition staleness_penalty ::
    "health_settings \<Rightarrow> rounding \<Rightarrow> datetime \<Rightarrow> node \<Rightarrow> health_error + int" where
  "staleness_penalty cfg rnd now n =
     (case n_last_seen_at n of
        None \<Rightarrow> Inr (- score_staleness_weight cfg)
      | Some last_seen \<Rightarrow>
          (let minutes_ago = rnd (total_seconds rnd (now - last_seen) / 60) in
           if offline_threshold_minutes cfg = 0 then Inl ZeroDivisionError
           else
             (let ratio = min (rnd (minutes_ago / of_int (offline_threshold_minutes cfg))) 1
              in Inr (- py_int (rnd (ratio * of_int (score_staleness_weight cfg)))))))"

definition install_penalty :: "health_settings \<Rightarrow> rounding \<Rightarrow> node \<Rightarrow> int" where
  "install_penalty cfg rnd n =
     (if n_install_attempts n > 0
      then - py_int (rnd (min (rnd (of_int (n_install_attempts n) / 5)) 1
                          * of_int (score_install_failures_weight cfg)))
      else 0)"

definition boot_penalty :: "health_settings \<Rightarrow> rounding \<Rightarrow> node \<Rightarrow> int" where
  "boot_penalty cfg rnd n =
     (if n_boot_count n > 10
      then - py_int (rnd (min (rnd (of_int (n_boot_count n - 10) / 20)) 1
                          * of_int (score_boot_stability_weight cfg)))
      else 0)"

definition calculate_health_score ::
    "health_settings \<Rightarrow> rounding \<Rightarrow> datetime \<Rightarrow> node \<Rightarrow> health_error + int \<times> (string \<times> int) list" where
  "calculate_health_score cfg rnd now n =
     (case staleness_penalty cfg rnd now n of
        Inl e \<Rightarrow> Inl e
      | Inr staleness \<Rightarrow>
          (let installs = install_penalty cfg rnd n; boots = boot_penalty cfg rnd n;
               score = 100 + (staleness + installs + boots)
           in Inr (max 0 (min 100 score),
                [(''staleness'', staleness), (''install_failures'', installs),
                 (''boot_stability'', boots)])))"

definition update_node_health ::
    "health_settings \<Rightarrow> rounding \<Rightarrow> datetime \<Rightarrow> node \<Rightarrow> health_error + node \<times> string \<times> int" where
  "update_node_health cfg rnd now n =
     (let new_status = determine_health_status cfg rnd now n in
      case calculate_health_score cfg rnd now n of
        Inl e \<Rightarrow> Inl e
      | Inr (new_score, _) \<Rightarrow>
          Inr (n\<lparr>n_health_status := new_status, n_health_score := new_score\<rparr>,
               new_status, new_score))"

section \<open>Alerts\<close>

definition ALERT_SEVERITY :: "(string \<times> string) list" where
  "ALERT_SEVERITY =
     [(''node_stale'', ''warning''), (''node_offline'', ''critical''),
      (''low_health_score'', ''warning''), (''install_timeout'', ''critical'')]"

text \<open>\<open>scalar_one_or_none()\<close> raises when the query gives more than one row.\<close>

definition scalar_one_or_none :: "'a list \<Rightarrow> health_error + 'a option" where
  "scalar_one_or_none rows =
     (case rows of [] \<Rightarrow> Inr None | [r] \<Rightarrow> Inr (Some r) | _ \<Rightarrow> Inl MultipleResultsFound)"

definition active_alert :: "string \<Rightarrow> string \<Rightarrow> health_alert \<Rightarrow> bool" where
  "active_alert nid ty a \<longleftrightarrow>
     a_node_id a = nid \<and> a_alert_type a = ty \<and> a_status a = ''active''"

text \<open>The new row's key is the next value drawn from the identifier supply.\<close>

definition create_alert_if_new ::
    "(nat \<Rightarrow> string) \<Rightarrow> node \<Rightarrow> string \<Rightarrow> string \<Rightarrow> health_alert list \<Rightarrow>
     health_error + health_alert list \<times> health_alert option" where
  "create_alert_if_new uuid n ty msg alerts =
     (case scalar_one_or_none (filter (active_alert (n_id n) ty) alerts) of
        Inl e \<Rightarrow> Inl e
      | Inr (Some _) \<Rightarrow> Inr (alerts, None)
      | Inr None \<Rightarrow>
          (let a = \<lparr>a_id = uuid (length alerts), a_node_id = n_id n, a_alert_type = ty,
                    a_severity = (case map_of ALERT_SEVERITY ty of
                                    None \<Rightarrow> ''warning'' | Some v \<Rightarrow> v),
                    a_status = ''active'', a_message = msg, a_resolved_at = None,
                    a_acknowledged_at = None\<rparr>
           in Inr (alerts @ [a], Some a)))"

definition resolve_alert ::
    "datetime \<Rightarrow> string \<Rightarrow> string \<Rightarrow> health_alert list \<Rightarrow> health_error + health_alert list \<times> bool" where
  "resolve_alert now nid ty alerts =
     (case scalar_one_or_none (filter (active_alert nid ty) alerts) of
        Inl e \<Rightarrow> Inl e
      | Inr None \<Rightarrow> Inr (alerts, False)
      | Inr (Some _) \<Rightarrow>
          Inr (map (\<lambda>a. if active_alert nid ty a
                        then a\<lparr>a_status := ''resolved'', a_resolved_at := Some now\<rparr> else a) alerts,
               True))"

datatype ack_error = AlertNotFound | CannotAcknowledge string

definition acknowledge_alert ::
    "datetime \<Rightarrow> string \<Rightarrow> health_alert list \<Rightarrow> ack_error + health_alert list" where
  "acknowledge_alert now aid alerts =
     (case sql_get a_id aid alerts of
        None \<Rightarrow> Inl AlertNotFound
      | Some a \<Rightarrow>
          if a_status a \<noteq> ''active'' then Inl (CannotAcknowledge (a_status a))
          else Inr (map (\<lambda>x. if a_id x = aid
                             then x\<lparr>a_status := ''acknowledged'', a_acknowledged_at := Some now\<rparr>
                             else x) alerts))"

section \<open>The periodic check\<close>

definition node_label :: "node \<Rightarrow> string" where
  "node_label n = (if truthy (n_hostname n) then the (n_hostname n) else n_mac_address n)"

text \<open>The status alerts of one node: the first conditional of the loop body.\<close>

definition status_alerts ::
    "health_settings \<Rightarrow> (nat \<Rightarrow> string) \<Rightarrow> datetime \<Rightarrow> node \<Rightarrow> string \<Rightarrow> health_alert list \<Rightarrow>
     health_error + health_alert list \<times> health_alert list" where
  "status_alerts cfg uuid now n new_status alerts =
     (if new_status = ''stale'' \<and> alert_on_stale cfg then
        ebind (create_alert_if_new uuid n ''node_stale''
                 (''Node '' @ node_label n @ '' is stale (no heartbeat for >''
                  @ show_int (stale_threshold_minutes cfg) @ ''m)'') alerts)
          (\<lambda>(alerts1, new). Inr (alerts1, case new of None \<Rightarrow> [] | Some a \<Rightarrow> [a]))
      else if new_status = ''offline'' \<and> alert_on_offline cfg then
        ebind (create_alert_if_new uuid n ''node_offline''
                 (''Node '' @ node_label n @ '' is offline (no heartbeat for >''
                  @ show_int (offline_threshold_minutes cfg) @ ''m)'') alerts)
          (\<lambda>(alerts1, new).
             ebind (resolve_alert now (n_id n) ''node_stale'' alerts1)
               (\<lambda>(alerts2, _). Inr (alerts2, case new of None \<Rightarrow> [] | Some a \<Rightarrow> [a])))
      else if new_status = ''healthy'' then
        ebind (resolve_alert now (n_id n) ''node_stale'' alerts)
          (\<lambda>(alerts1, _).
             ebind (resolve_alert now (n_id n) ''node_offline'' alerts1)
               (\<lambda>(alerts2, _). Inr (alerts2, [])))
      else Inr (alerts, []))"

text \<open>The low-score alert: the second conditional.\<close>

definition score_alerts ::
    "health_settings \<Rightarrow> (nat \<Rightarrow> string) \<Rightarrow> datetime \<Rightarrow> node \<Rightarrow> int \<Rightarrow> health_alert list \<Rightarrow>
     health_error + health_alert list \<times> health_alert list" where
  "score_alerts cfg uuid now n new_score alerts =
     (let threshold = alert_on_score_below cfg in
      if threshold > 0 \<and> new_score < threshold then
        ebind (create_alert_if_new uuid n ''low_health_score''
                 (''Node '' @ node_label n @ '' health score is '' @ show_int new_score
                  @ '' (below threshold '' @ show_int threshold @ '')'') alerts)
          (\<lambda>(alerts1, new). Inr (alerts1, case new of None \<Rightarrow> [] | Some a \<Rightarrow> [a]))
      else if threshold > 0 \<and> new_score \<ge> threshold then
        ebind (resolve_alert now (n_id n) ''low_health_score'' alerts)
          (\<lambda>(alerts1, _). Inr (alerts1, []))
      else Inr (alerts, []))"

definition check_node ::
    "health_settings \<Rightarrow> rounding \<Rightarrow> (nat \<Rightarrow> string) \<Rightarrow> datetime \<Rightarrow> node \<Rightarrow> health_alert list \<Rightarrow>
     health_error + node \<times> health_alert list \<times> health_alert list" where
  "check_node cfg rnd uuid now n alerts =
     ebind (update_node_health cfg rnd now n) (\<lambda>(n1, new_status, new_score).
     ebind (status_alerts cfg uuid now n1 new_status alerts) (\<lambda>(alerts1, new1).
     ebind (score_alerts cfg uuid now n1 new_score alerts1) (\<lambda>(alerts2, new2).
     Inr (n1, alerts2, new1 @ new2))))"

fun check_all_nodes ::
    "health_settings \<Rightarrow> rounding \<Rightarrow> (nat \<Rightarrow> string) \<Rightarrow> datetime \<Rightarrow> node list \<Rightarrow> health_alert list \<Rightarrow>
     health_error + node list \<times> health_alert list \<times> health_alert list" where
  "check_all_nodes cfg rnd uuid now [] alerts = Inr ([], alerts, [])"
| "check_all_nodes cfg rnd uuid now (n # ns) alerts =
     (if n_state n = ''retired'' then
        ebind (check_all_nodes cfg rnd uuid now ns alerts)
          (\<lambda>(ns1, alerts1, new1). Inr (n # ns1, alerts1, new1))
      else
        ebind (check_node cfg rnd uuid now n alerts) (\<lambda>(n1, alerts1, new1).
        ebind (check_all_nodes cfg rnd uuid now ns alerts1) (\<lambda>(ns1, alerts2, new2).
        Inr (n1 # ns1, alerts2, new1 @ new2))))"

definition create_snapshot :: "rounding \<Rightarrow> datetime \<Rightarrow> node \<Rightarrow> health_snapshot" where
  "create_snapshot rnd now n =
     \<lparr>h_node_id = n_id n,
      h_health_status = (if n_health_status n = [] then ''unknown'' else n_health_status n),
      h_health_score = (if n_health_score n = 0 then 100 else n_health_score n),
      h_last_seen_seconds_ago =
        (case n_last_seen_at n of
           None \<Rightarrow> 0
         | Some last_seen \<Rightarrow> py_int (total_seconds rnd (now - last_seen))),
      h_boot_count = n_boot_count n, h_install_attempts = n_install_attempts n,
      h_ip_address = n_ip_address n\<rparr>"

section \<open>At most one active alert per node and type\<close>

definition alerts_inv :: "health_alert list \<Rightarrow> bool" where
  "alerts_inv alerts \<longleftrightarrow> (\<forall>nid ty. length (filter (active_alert nid ty) alerts) \<le> 1)"

lemma scalar_one_cases:
  assumes "length rows \<le> 1"
  shows "scalar_one_or_none rows = Inr (case rows of [] \<Rightarrow> None | r # _ \<Rightarrow> Some r)"
  using assms by (auto simp: scalar_one_or_none_def split: list.splits)

lemma active_alert_resolved [simp]:
  "\<not> active_alert nid ty (a\<lparr>a_status := ''resolved'', a_resolved_at := r\<rparr>)"
  by (simp add: active_alert_def)

lemma active_alert_same:
  "active_alert nid ty a \<Longrightarrow> active_alert nid' ty' a \<Longrightarrow> nid = nid' \<and> ty = ty'"
  by (auto simp: active_alert_def)

lemma filter_resolve:
  "filter (active_alert nid ty)
     (map (\<lambda>a. if active_alert nid' ty' a
                then a\<lparr>a_status := ''resolved'', a_resolved_at := Some now\<rparr> else a) alerts)
   = (if nid = nid' \<and> ty = ty' then [] else filter (active_alert nid ty) alerts)"
  by (induction alerts) (auto dest: active_alert_same)

lemma resolve_alert_total:
  assumes "alerts_inv alerts"
  obtains alerts' b where "resolve_alert now nid ty alerts = Inr (alerts', b)"
    and "alerts_inv alerts'"
    and "\<And>nid' ty'. filter (active_alert nid' ty') alerts' =
           (if nid' = nid \<and> ty' = ty then [] else filter (active_alert nid' ty') alerts)"
proof -
  from assms have le: "length (filter (active_alert nid ty) alerts) \<le> 1"
    by (simp add: alerts_inv_def)
  show thesis
  proof (cases "filter (active_alert nid ty) alerts")
    case Nil
    with scalar_one_cases [OF le] have "resolve_alert now nid ty alerts = Inr (alerts, False)"
      by (simp add: resolve_alert_def)
    then show thesis using that [of alerts False] assms Nil by auto
  next
    case (Cons a as)
    let ?new = "map (\<lambda>a. if active_alert nid ty a
                then a\<lparr>a_status := ''resolved'', a_resolved_at := Some now\<rparr> else a) alerts"
    from Cons scalar_one_cases [OF le] have "resolve_alert now nid ty alerts = Inr (?new, True)"
      by (simp add: resolve_alert_def)
    moreover have "alerts_inv ?new"
      using assms by (auto simp: alerts_inv_def filter_resolve)
    ultimately show thesis using that [of ?new True] by (simp add: filter_resolve)
  qed
qed

lemma create_alert_total:
  assumes "alerts_inv alerts"
  obtains alerts' new where "create_alert_if_new uuid n ty msg alerts = Inr (alerts', new)"
    and "alerts_inv alerts'"
    and "\<And>nid' ty'. (nid', ty') \<noteq> (n_id n, ty) \<Longrightarrow>
           filter (active_alert nid' ty') alerts' = filter (active_alert nid' ty') alerts"
    and "filter (active_alert (n_id n) ty) alerts' \<noteq> []"
proof -
  from assms have le: "length (filter (active_alert (n_id n) ty) alerts) \<le> 1"
    by (simp add: alerts_inv_def)
  show thesis
  proof (cases "filter (active_alert (n_id n) ty) alerts")
    case Nil
    with scalar_one_cases [OF le] obtain a
      where c: "create_alert_if_new uuid n ty msg alerts = Inr (alerts @ [a], Some a)"
        and a: "a_node_id a = n_id n" "a_alert_type a = ty" "a_status a = ''active''"
      by (simp add: create_alert_if_new_def Let_def)
    have act: "active_alert nid' ty' a \<longleftrightarrow> nid' = n_id n \<and> ty' = ty" for nid' ty'
      using a by (auto simp: active_alert_def)
    have "alerts_inv (alerts @ [a])"
      using assms Nil by (auto simp: alerts_inv_def act)
    with c act show thesis using that [of "alerts @ [a]" "Some a"] by auto
  next
    case (Cons b bs)
    with scalar_one_cases [OF le]
    have "create_alert_if_new uuid n ty msg alerts = Inr (alerts, None)"
      by (simp add: create_alert_if_new_def)
    with Cons assms show thesis using that [of alerts None] by auto
  qed
qed

lemma acknowledge_alert_inv:
  assumes "alerts_inv alerts" and "acknowledge_alert now aid alerts = Inr alerts'"
  shows "alerts_inv alerts'"
proof -
  let ?ack = "map (\<lambda>x. if a_id x = aid
      then x\<lparr>a_status := ''acknowledged'', a_acknowledged_at := Some now\<rparr> else x) alerts"
  have le: "length (filter (active_alert nid ty) ?ack) \<le> length (filter (active_alert nid ty) alerts)"
    for nid ty by (induction alerts) (auto simp: active_alert_def)
  from assms(2) have "alerts' = ?ack"
    by (simp add: acknowledge_alert_def split: option.splits if_splits)
  with assms(1) le show ?thesis
    unfolding alerts_inv_def by (meson le_trans)
qed

text \<open>
  What the alerts of a node say after the node was checked: the status alerts match its
  status (where alerting on that status is on).
\<close>

definition no_active :: "string \<Rightarrow> string \<Rightarrow> health_alert list \<Rightarrow> bool" where
  "no_active nid ty alerts \<longleftrightarrow> filter (active_alert nid ty) alerts = []"

definition alerts_match :: "health_settings \<Rightarrow> string \<Rightarrow> string \<Rightarrow> health_alert list \<Rightarrow> bool" where
  "alerts_match cfg nid status alerts \<longleftrightarrow>
     (status = ''healthy'' \<longrightarrow> no_active nid ''node_stale'' alerts \<and> no_active nid ''node_offline'' alerts)
   \<and> (status = ''stale'' \<and> alert_on_stale cfg \<longrightarrow> \<not> no_active nid ''node_stale'' alerts)
   \<and> (status = ''offline'' \<and> alert_on_offline cfg \<longrightarrow>
        \<not> no_active nid ''node_offline'' alerts \<and> no_active nid ''node_stale'' alerts)"

definition only_node :: "string \<Rightarrow> health_alert list \<Rightarrow> health_alert list \<Rightarrow> bool" where
  "only_node nid alerts alerts' \<longleftrightarrow>
     (\<forall>nid' ty. nid' \<noteq> nid \<longrightarrow>
        filter (active_alert nid' ty) alerts' = filter (active_alert nid' ty) alerts)"

lemma alerts_match_frame:
  "only_node nid alerts alerts' \<Longrightarrow> nid' \<noteq> nid \<Longrightarrow>
   alerts_match cfg nid' st alerts' = alerts_match cfg nid' st alerts"
  by (simp add: alerts_match_def no_active_def only_node_def)

lemma status_alerts_spec:
  assumes inv: "alerts_inv alerts"
  obtains alerts' new where "status_alerts cfg uuid now n st alerts = Inr (alerts', new)"
    and "alerts_inv alerts'" and "alerts_match cfg (n_id n) st alerts'"
    and "only_node (n_id n) alerts alerts'"
proof -
  consider (stale) "st = ''stale'' \<and> alert_on_stale cfg"
    | (offline) "st = ''offline'' \<and> alert_on_offline cfg"
    | (healthy) "st = ''healthy''"
    | (quiet) "\<not> (st = ''stale'' \<and> alert_on_stale cfg)" "\<not> (st = ''offline'' \<and> alert_on_offline cfg)"
        "st \<noteq> ''healthy''"
    by blast
  then show thesis
  proof cases
    case stale
    show thesis
      by (rule create_alert_total [OF inv, of uuid n "''node_stale''"
            "''Node '' @ node_label n @ '' is stale (no heartbeat for >''
             @ show_int (stale_threshold_minutes cfg) @ ''m)''"])
        (use stale in \<open>auto intro!: that simp: status_alerts_def alerts_match_def no_active_def
           only_node_def\<close>)
  next
    case offline
    obtain alerts1 new where 1: "create_alert_if_new uuid n ''node_offline''
            (''Node '' @ node_label n @ '' is offline (no heartbeat for >''
             @ show_int (offline_threshold_minutes cfg) @ ''m)'') alerts = Inr (alerts1, new)"
      "alerts_inv alerts1"
      and f1: "\<And>nid' ty'. (nid', ty') \<noteq> (n_id n, ''node_offline'') \<Longrightarrow>
           filter (active_alert nid' ty') alerts1 = filter (active_alert nid' ty') alerts"
      and a1: "filter (active_alert (n_id n) ''node_offline'') alerts1 \<noteq> []"
      by (rule create_alert_total [OF inv, of uuid n "''node_offline''"
            "''Node '' @ node_label n @ '' is offline (no heartbeat for >''
             @ show_int (offline_threshold_minutes cfg) @ ''m)''"]) blast
    obtain alerts2 b where 2: "resolve_alert now (n_id n) ''node_stale'' alerts1 = Inr (alerts2, b)"
      "alerts_inv alerts2"
      and f2: "\<And>nid' ty'. filter (active_alert nid' ty') alerts2 =
           (if nid' = n_id n \<and> ty' = ''node_stale'' then []
            else filter (active_alert nid' ty') alerts1)"
      by (rule resolve_alert_total [OF 1(2)]) auto
    show thesis
      by (rule that [of alerts2 "case new of None \<Rightarrow> [] | Some a \<Rightarrow> [a]"])
        (use offline 1(1) 2 a1 f1 f2 in \<open>simp_all add: status_alerts_def alerts_match_def
           no_active_def only_node_def\<close>)
  next
    case healthy
    obtain alerts1 b1 where 1: "resolve_alert now (n_id n) ''node_stale'' alerts = Inr (alerts1, b1)"
      "alerts_inv alerts1"
      and f1: "\<And>nid' ty'. filter (active_alert nid' ty') alerts1 =
           (if nid' = n_id n \<and> ty' = ''node_stale'' then []
            else filter (active_alert nid' ty') alerts)"
      by (rule resolve_alert_total [OF inv]) auto
    obtain alerts2 b2 where 2: "resolve_alert now (n_id n) ''node_offline'' alerts1 = Inr (alerts2, b2)"
      "alerts_inv alerts2"
      and f2: "\<And>nid' ty'. filter (active_alert nid' ty') alerts2 =
           (if nid' = n_id n \<and> ty' = ''node_offline'' then []
            else filter (active_alert nid' ty') alerts1)"
      by (rule resolve_alert_total [OF 1(2)]) auto
    show thesis
      by (rule that [of alerts2 "[]"])
        (use healthy 1(1) 2 f1 f2 in \<open>simp_all add: status_alerts_def alerts_match_def
           no_active_def only_node_def\<close>)
  next
    case quiet
    show thesis
      by (rule that [of alerts "[]"])
        (use quiet inv in \<open>auto simp: status_alerts_def alerts_match_def only_node_def\<close>)
  qed
qed

lemma score_alerts_spec:
  assumes inv: "alerts_inv alerts"
  obtains alerts' new where "score_alerts cfg uuid now n sc alerts = Inr (alerts', new)"
    and "alerts_inv alerts'" and "only_node (n_id n) alerts alerts'"
    and "\<And>ty. ty \<noteq> ''low_health_score'' \<Longrightarrow>
           filter (active_alert (n_id n) ty) alerts' = filter (active_alert (n_id n) ty) alerts"
proof (cases "alert_on_score_below cfg > 0")
  case False
  then show thesis using that [of alerts "[]"] inv by (simp add: score_alerts_def only_node_def)
next
  case pos: True
  show thesis
  proof (cases "sc < alert_on_score_below cfg")
    case True
    show thesis
      by (rule create_alert_total [OF inv, of uuid n "''low_health_score''"
            "''Node '' @ node_label n @ '' health score is '' @ show_int sc
             @ '' (below threshold '' @ show_int (alert_on_score_below cfg) @ '')''"])
        (use True pos in \<open>auto intro!: that simp: score_alerts_def only_node_def\<close>)
  next
    case False
    show thesis
      by (rule resolve_alert_total [OF inv, of now "n_id n" "''low_health_score''"])
        (use False pos in \<open>auto intro!: that simp: score_alerts_def only_node_def\<close>)
  qed
qed

lemma staleness_penalty_total:
  assumes "offline_threshold_minutes cfg \<noteq> 0"
  obtains p where "staleness_penalty cfg rnd now n = Inr p"
  using assms by (cases "n_last_seen_at n") (auto simp: staleness_penalty_def Let_def)

lemma update_node_health_total:
  assumes "offline_threshold_minutes cfg \<noteq> 0"
  obtains sc where "update_node_health cfg rnd now n =
    Inr (n\<lparr>n_health_status := determine_health_status cfg rnd now n, n_health_score := sc\<rparr>,
         determine_health_status cfg rnd now n, sc)"
proof -
  obtain p where "staleness_penalty cfg rnd now n = Inr p"
    by (rule staleness_penalty_total [OF assms])
  then show thesis
    using that by (simp add: update_node_health_def calculate_health_score_def Let_def)
qed

lemma check_node_spec:
  assumes inv: "alerts_inv alerts" and cfg: "offline_threshold_minutes cfg \<noteq> 0"
  obtains n' alerts' new where "check_node cfg rnd uuid now n alerts = Inr (n', alerts', new)"
    and "alerts_inv alerts'" and "only_node (n_id n) alerts alerts'"
    and "alerts_match cfg (n_id n) (determine_health_status cfg rnd now n) alerts'"
    and "\<exists>sc. n' = n\<lparr>n_health_status := determine_health_status cfg rnd now n, n_health_score := sc\<rparr>"
proof -
  let ?st = "determine_health_status cfg rnd now n"
  obtain sc where u: "update_node_health cfg rnd now n =
      Inr (n\<lparr>n_health_status := ?st, n_health_score := sc\<rparr>, ?st, sc)"
    by (rule update_node_health_total [OF cfg]) blast
  let ?n1 = "n\<lparr>n_health_status := ?st, n_health_score := sc\<rparr>"
  obtain alerts1 new1 where 1: "status_alerts cfg uuid now ?n1 ?st alerts = Inr (alerts1, new1)"
    "alerts_inv alerts1" "alerts_match cfg (n_id ?n1) ?st alerts1" "only_node (n_id ?n1) alerts alerts1"
    by (rule status_alerts_spec [OF inv])
  obtain alerts2 new2 where 2: "score_alerts cfg uuid now ?n1 sc alerts1 = Inr (alerts2, new2)"
    "alerts_inv alerts2" "only_node (n_id ?n1) alerts1 alerts2"
    and f: "\<And>ty. ty \<noteq> ''low_health_score'' \<Longrightarrow>
       filter (active_alert (n_id ?n1) ty) alerts2 = filter (active_alert (n_id ?n1) ty) alerts1"
    by (rule score_alerts_spec [OF 1(2), of cfg uuid now ?n1 sc]) blast
  show thesis
  proof (rule that)
    show "check_node cfg rnd uuid now n alerts = Inr (?n1, alerts2, new1 @ new2)"
      using u 1(1) 2(1) by (simp add: check_node_def)
    show "only_node (n_id n) alerts alerts2"
      using 1(4) 2(3) by (simp add: only_node_def)
    show "alerts_match cfg (n_id n) ?st alerts2"
      using 1(3) f by (simp add: alerts_match_def no_active_def)
  qed (use 2(2) in auto)
qed

section \<open>The score falls as a node stays silent\<close>

lemma py_int_mono: "x \<le> y \<Longrightarrow> py_int x \<le> py_int y"
  unfolding py_int_def
  by (auto intro: ceiling_mono floor_mono)
    (metis ceiling_le_zero le_less_trans less_le not_less order.trans zero_le_floor)

lemma staleness_penalty_antimono:
  assumes m: "mono rnd" and t: "now \<le> now'" and w: "0 \<le> score_staleness_weight cfg"
    and o: "0 < offline_threshold_minutes cfg"
    and p: "staleness_penalty cfg rnd now n = Inr p" and p': "staleness_penalty cfg rnd now' n = Inr p'"
  shows "p' \<le> p"
proof (cases "n_last_seen_at n")
  case None
  with p p' show ?thesis by (simp add: staleness_penalty_def)
next
  case (Some last)
  let ?ratio = "\<lambda>t. min (rnd (rnd (total_seconds rnd (t - last) / 60)
      / of_int (offline_threshold_minutes cfg))) 1"
  have 1: "total_seconds rnd (now - last) \<le> total_seconds rnd (now' - last)"
    unfolding total_seconds_def by (rule monoD [OF m]) (use t in \<open>simp add: divide_right_mono\<close>)
  have 2: "rnd (total_seconds rnd (now - last) / 60) \<le> rnd (total_seconds rnd (now' - last) / 60)"
    by (rule monoD [OF m]) (use 1 in \<open>simp add: divide_right_mono\<close>)
  have "?ratio now \<le> ?ratio now'"
    by (rule min.mono, rule monoD [OF m]) (use 2 o in \<open>simp_all add: divide_right_mono\<close>)
  then have "rnd (?ratio now * of_int (score_staleness_weight cfg))
      \<le> rnd (?ratio now' * of_int (score_staleness_weight cfg))"
    by (intro monoD [OF m] mult_right_mono) (use w in simp_all)
  from py_int_mono [OF this] Some o p p' show ?thesis
    by (simp add: staleness_penalty_def Let_def)
qed

text \<open>
  C4: the periodic health check never raises and leaves the alerts in order. From an alert
  table with at most one active alert per node and type, and a non-zero offline threshold,
  \<open>check_all_nodes\<close> succeeds, keeps at most one active alert per node and type, changes
  no node's identity or lifecycle state and no alert of another node, and leaves every
  non-retired node with the status alerts its health status calls for: none for a healthy
  node, a stale alert for a stale one, and an offline alert but no stale alert for an
  offline one.
\<close>

theorem check_all_nodes_correct:
  assumes "alerts_inv alerts" and cfg: "offline_threshold_minutes cfg \<noteq> 0"
    and "distinct (map n_id ns)"
  shows "\<exists>ns' alerts' new. check_all_nodes cfg rnd uuid now ns alerts = Inr (ns', alerts', new)
    \<and> alerts_inv alerts'
    \<and> map n_id ns' = map n_id ns \<and> map n_state ns' = map n_state ns
    \<and> (\<forall>nid. nid \<notin> n_id ` set ns \<longrightarrow>
         (\<forall>ty. filter (active_alert nid ty) alerts' = filter (active_alert nid ty) alerts))
    \<and> (\<forall>n \<in> set ns. n_state n \<noteq> ''retired'' \<longrightarrow>
         alerts_match cfg (n_id n) (determine_health_status cfg rnd now n) alerts')"
  using assms(1,3)
proof (induction ns arbitrary: alerts)
  case Nil
  then show ?case by simp
next
  case (Cons n ns)
  show ?case
  proof (cases "n_state n = ''retired''")
    case True
    from Cons.IH [of alerts] Cons.prems obtain ns' alerts' new where
      "check_all_nodes cfg rnd uuid now ns alerts = Inr (ns', alerts', new)" "alerts_inv alerts'"
      "map n_id ns' = map n_id ns \<and> map n_state ns' = map n_state ns"
      "\<forall>nid. nid \<notin> n_id ` set ns \<longrightarrow>
         (\<forall>ty. filter (active_alert nid ty) alerts' = filter (active_alert nid ty) alerts)"
      "\<forall>m \<in> set ns. n_state m \<noteq> ''retired'' \<longrightarrow>
         alerts_match cfg (n_id m) (determine_health_status cfg rnd now m) alerts'"
      by auto
    with True show ?thesis by auto
  next
    case False
    obtain n1 alerts1 new1 where c: "check_node cfg rnd uuid now n alerts = Inr (n1, alerts1, new1)"
      and inv1: "alerts_inv alerts1" and o: "only_node (n_id n) alerts alerts1"
      and m: "alerts_match cfg (n_id n) (determine_health_status cfg rnd now n) alerts1"
      and n1: "\<exists>sc. n1 = n\<lparr>n_health_status := determine_health_status cfg rnd now n, n_health_score := sc\<rparr>"
      by (rule check_node_spec [OF Cons.prems(1) cfg])
    from Cons.IH [OF inv1] Cons.prems obtain ns' alerts' new where
      r: "check_all_nodes cfg rnd uuid now ns alerts1 = Inr (ns', alerts', new)" "alerts_inv alerts'"
      "map n_id ns' = map n_id ns \<and> map n_state ns' = map n_state ns"
      and fr: "\<And>nid ty. nid \<notin> n_id ` set ns \<Longrightarrow>
         filter (active_alert nid ty) alerts' = filter (active_alert nid ty) alerts1"
      and ms: "\<forall>m \<in> set ns. n_state m \<noteq> ''retired'' \<longrightarrow>
         alerts_match cfg (n_id m) (determine_health_status cfg rnd now m) alerts'"
      by auto
    have "alerts_match cfg (n_id n) (determine_health_status cfg rnd now n) alerts'"
      using m fr [of "n_id n"] Cons.prems(2) by (simp add: alerts_match_def no_active_def)
    moreover have "\<forall>nid. nid \<notin> n_id ` set (n # ns) \<longrightarrow>
         (\<forall>ty. filter (active_alert nid ty) alerts' = filter (active_alert nid ty) alerts)"
      using fr o by (simp add: only_node_def)
    ultimately show ?thesis
      using False c r ms n1 by auto
  qed
qed

text \<open>Witness: one node last seen two hours ago, no alerts yet.\<close>

theorem check_all_nodes_correct_witness:
  "\<exists>ns' alerts' new.
     check_all_nodes default_health_settings id (\<lambda>k. ''a1'') (hours 2)
       [(new_node ''n1'' ''00:11:22:33:44:55'')\<lparr>n_last_seen_at := Some 0\<rparr>] [] = Inr (ns', alerts', new)
     \<and> \<not> no_active ''n1'' ''node_offline'' alerts' \<and> no_active ''n1'' ''node_stale'' alerts'"
proof -
  let ?n = "(new_node ''n1'' ''00:11:22:33:44:55'')\<lparr>n_last_seen_at := Some 0\<rparr>"
  have st: "determine_health_status default_health_settings id (hours 2) ?n = ''offline''"
    by (simp add: determine_health_status_def total_seconds_def default_health_settings_def new_node_def)
  show ?thesis
    using check_all_nodes_correct [of "[]" default_health_settings "[?n]" id "\<lambda>k. ''a1''" "hours 2"] st
    by (auto simp: alerts_inv_def alerts_match_def default_health_settings_def new_node_def)
qed

text \<open>
  the health score is between 0 and 100 and never rises while a node stays silent: for a
  monotone rounding, a positive offline threshold and a non-negative staleness weight, a later
  clock reading gives a score that is no higher.
\<close>

theorem health_score_antimono:
  assumes "mono rnd" and "now \<le> now'" and "0 \<le> score_staleness_weight cfg"
    and "0 < offline_threshold_minutes cfg"
  shows "\<exists>s b s' b'. calculate_health_score cfg rnd now n = Inr (s, b)
    \<and> calculate_health_score cfg rnd now' n = Inr (s', b') \<and> 0 \<le> s' \<and> s' \<le> s \<and> s \<le> 100"
proof -
  from assms(4) have nz: "offline_threshold_minutes cfg \<noteq> 0" by simp
  obtain p where p: "staleness_penalty cfg rnd now n = Inr p"
    by (rule staleness_penalty_total [OF nz])
  obtain p' where p': "staleness_penalty cfg rnd now' n = Inr p'"
    by (rule staleness_penalty_total [OF nz])
  from staleness_penalty_antimono [OF assms p p'] have "p' \<le> p" .
  with p p' show ?thesis
    by (simp add: calculate_health_score_def Let_def)
qed

text \<open>Witness: exact arithmetic, the default settings, one hour of silence.\<close>

theorem health_score_antimono_witness:
  "\<exists>s b s' b'. calculate_health_score default_health_settings id 0
       ((new_node ''n1'' ''m'')\<lparr>n_last_seen_at := Some 0\<rparr>) = Inr (s, b)
    \<and> calculate_health_score default_health_settings id (hours 1)
       ((new_node ''n1'' ''m'')\<lparr>n_last_seen_at := Some 0\<rparr>) = Inr (s', b') \<and> 0 \<le> s' \<and> s' \<le> s \<and> s \<le> 100"
  by (rule health_score_antimono) (simp_all add: default_health_settings_def mono_def)

end
