(* ===== verification/Inventory.thy ===== *)
theory Inventory
  imports Lifecycle
begin

text \<open>
  The rows of the tables that hang on a node, from src/src/db/models.py: its tags, its scanned
  disks, the partition operations queued for it and the clone sessions it takes part in. Together
  with the rows of \<open>Lifecycle\<close> and \<open>Health\<close> they make up the controller's database.

  Generated primary keys are kept where a request names a row by them; tags and disks are named
  by their unique pairs. A column of JSON text holds the value itself.
\<close>

record node_tag =
  tg_node_id :: string
  tg_tag :: string

section \<open>Disks and partition operations\<close>

text \<open>
  The stored description of a partition: the entries of the scanned dict that later code reads
  are the number, the size, the file system, the least size and whether it can shrink; the other
  entries are kept as they came.
\<close>

record partition_info =
  pt_number :: int
  pt_size_bytes :: int
  pt_filesystem :: "string option"
  pt_min_size_bytes :: "int option"
  pt_can_shrink :: bool
  pt_other :: "(string \<times> json) list"

record disk_info =
  dk_node_id :: string
  dk_device :: string
  dk_size_bytes :: int
  dk_model :: "string option"
  dk_serial :: "string option"
  dk_partition_table :: "string option"
  dk_partitions :: "partition_info list option"
  dk_scanned_at :: datetime

record partition_operation =
  po_id :: string
  po_node_id :: string
  po_device :: string
  po_operation :: string
  po_params :: "(string \<times> json) list"
  po_sequence :: int
  po_status :: string
  po_error_message :: "string option"
  po_executed_at :: "datetime option"

section \<open>Clone sessions\<close>

record plan_item =
  pp_partition :: int
  pp_current_size_bytes :: int
  pp_new_size_bytes :: int
  pp_filesystem :: "string option"
  pp_action :: string
  pp_min_size_bytes :: "int option"
  pp_can_resize :: bool

record resize_plan =
  rp_source_disk_bytes :: int
  rp_target_disk_bytes :: int
  rp_resize_mode :: string
  rp_partitions :: "plan_item list"
  rp_feasible :: bool
  rp_error_message :: "string option"

text \<open>A certificate with its key.\<close>

type_synonym cert = "string \<times> string"

record clone_session =
  cs_id :: string
  cs_name :: "string option"
  cs_status :: string
  cs_clone_mode :: string
  cs_source_node_id :: string
  cs_target_node_id :: "string option"
  cs_source_device :: string
  cs_target_device :: string
  cs_source_ip :: "string option"
  cs_source_port :: int
  cs_source_cert :: "cert option"
  cs_target_cert :: "cert option"
  cs_staging_backend_id :: "string option"
  cs_staging_size_bytes :: "int option"
  cs_staging_status :: "string option"
  cs_resize_mode :: string
  cs_partition_plan :: "resize_plan option"
  cs_bytes_total :: "int option"
  cs_bytes_transferred :: int
  cs_transfer_rate_bps :: "int option"
  cs_error_message :: "string option"
  cs_started_at :: "datetime option"
  cs_completed_at :: "datetime option"

record storage_backend =
  sb_id :: string
  sb_type :: string
  sb_config :: "(string \<times> json) list"

end
