(* ===== verification/NodeRoutes.thy ===== *)
theory NodeRoutes
  imports Session Health Inventory
begin

text \<open>
  The handlers of src/src/api/routes/nodes.py that change a node: registration, state changes
  (single and bulk), retirement, group and workflow assignment, node reports (event based and
  legacy) and the deployment callbacks, over the tables they write.

  A handler returns the new database, or the error that ends the request and rolls the session
  back. \<open>HTTP c\<close> is an \<open>HTTPException\<close> the handler raises itself (422 stands for the
  request model's validator); \<open>Unhandled\<close> is an exception of a service that reaches the
  framework. Tags, metadata updates and the listings are in \<open>NodeAdmin\<close>; response bodies and the Raspberry Pi directory cleanup of
  \<open>retire_node\<close> are left out.
\<close>

section \<open>The database and the requests\<close>

record db =
  db_nodes :: "node list"
  db_logs :: "state_log list"
  db_events :: "node_event list"
  db_alerts :: "health_alert list"
  db_group_ids :: "string list"
  db_tags :: "node_tag list"
  db_disks :: "disk_info list"
  db_operations :: "partition_operation list"
  db_sessions :: "clone_session list"
  db_backends :: "storage_backend list"

datatype http_error =
    HTTP nat
  | Unhandled svc_error
  | HealthFailure health_error
  | DbFailure sql_error

record node_create =
  c_mac_address :: string
  c_hostname :: "string option"
  c_arch :: string
  c_boot_mode :: string
  c_group_id :: "string option"
  c_vendor :: "string option"
  c_model :: "string option"
  c_serial_number :: "string option"
  c_system_uuid :: "string option"
  c_pi_model :: "string option"

record node_report =
  r_mac_address :: string
  r_event :: "string option"
  r_status :: string
  r_message :: "string option"
  r_event_metadata :: "(string \<times> json) list option"
  r_ip_address :: "string option"
  r_hostname :: "string option"
  r_vendor :: "string option"
  r_model :: "string option"
  r_serial_number :: "string option"
  r_system_uuid :: "string option"
  r_installation_status :: "string option"
  r_installation_progress :: "int option"
  r_installation_error :: "string option"

definition save_node :: "node \<Rightarrow> db \<Rightarrow> db" where
  "save_node n d = d\<lparr>db_nodes := map (\<lambda>m. if n_id m = n_id n then n else m) (db_nodes d)\<rparr>"

definition add_logs :: "state_log list \<Rightarrow> db \<Rightarrow> db" where
  "add_logs ls d = d\<lparr>db_logs := db_logs d @ ls\<rparr>"

definition add_events :: "node_event list \<Rightarrow> db \<Rightarrow> db" where
  "add_events es d = d\<lparr>db_events := db_events d @ es\<rparr>"

section \<open>State changes by an administrator\<close>

definition node_of_create :: "string \<Rightarrow> node_create \<Rightarrow> node" where
  "node_of_create uuid c =
     (new_node uuid (c_mac_address c))
       \<lparr>n_hostname := c_hostname c, n_arch := c_arch c, n_boot_mode := c_boot_mode c,
        n_group_id := c_group_id c, n_vendor := c_vendor c, n_model := c_model c,
        n_serial_number := c_serial_number c, n_system_uuid := c_system_uuid c,
        n_pi_model := c_pi_model c\<rparr>"

definition create_node :: "string \<Rightarrow> node_create \<Rightarrow> db \<Rightarrow> http_error + db" where
  "create_node uuid c d =
     (if sql_get n_mac_address (c_mac_address c) (db_nodes d) \<noteq> None then Inl (HTTP 409)
      else case sql_insert n_id (node_of_create uuid c) (db_nodes d) of
             Inl e \<Rightarrow> Inl (DbFailure e)
           | Inr nodes \<Rightarrow> Inr (d\<lparr>db_nodes := nodes\<rparr>))"

definition transition_node_state ::
    "datetime \<Rightarrow> string \<Rightarrow> string \<Rightarrow> string option \<Rightarrow> bool \<Rightarrow> db \<Rightarrow> http_error + db" where
  "transition_node_state now node_id state comment force d =
     (if state \<notin> set STATES then Inl (HTTP 422)
      else case sql_get n_id node_id (db_nodes d) of
        None \<Rightarrow> Inl (HTTP 404)
      | Some n \<Rightarrow>
          (case svc_transition now n state ''admin'' None comment None force of
             Inl _ \<Rightarrow> Inl (HTTP 400)
           | Inr (n', entry) \<Rightarrow> Inr (add_logs [entry] (save_node n' d))))"

definition retire_node :: "datetime \<Rightarrow> string \<Rightarrow> db \<Rightarrow> http_error + db" where
  "retire_node now node_id d =
     (case sql_get n_id node_id (db_nodes d) of
        None \<Rightarrow> Inl (HTTP 404)
      | Some n \<Rightarrow>
          (case svc_transition now n ''retired'' ''admin'' None None None False of
             Inl (InvalidStateTransition _ _) \<Rightarrow> Inl (HTTP 400)
           | Inl e \<Rightarrow> Inl (Unhandled e)
           | Inr (n', entry) \<Rightarrow> Inr (add_logs [entry] (save_node n' d))))"

text \<open>The loop of the bulk change: one service call per selected node, errors collected.\<close>

fun bulk_loop ::
    "datetime \<Rightarrow> string list \<Rightarrow> string \<Rightarrow> node list \<Rightarrow>
     node list \<times> state_log list \<times> nat \<times> (string \<times> svc_error) list" where
  "bulk_loop now ids new_state [] = ([], [], 0, [])"
| "bulk_loop now ids new_state (n # ns) =
     (let (ns', logs, updated, errors) = bulk_loop now ids new_state ns in
      if n_id n \<notin> set ids then (n # ns', logs, updated, errors)
      else case svc_transition now n new_state ''bulk_operation'' None None None False of
             Inl e \<Rightarrow> (n # ns', logs, updated, (n_id n, e) # errors)
           | Inr (n', entry) \<Rightarrow> (n' # ns', entry # logs, updated + 1, errors))"

definition bulk_change_state ::
    "datetime \<Rightarrow> string list \<Rightarrow> string \<Rightarrow> db \<Rightarrow> http_error + db \<times> nat \<times> (string \<times> svc_error) list" where
  "bulk_change_state now ids new_state d =
     (if new_state \<notin> set STATES then Inl (HTTP 422)
      else let (ns, logs, updated, errors) = bulk_loop now ids new_state (db_nodes d)
           in Inr (add_logs logs (d\<lparr>db_nodes := ns\<rparr>), updated, errors))"

definition bulk_assign_group ::
    "string list \<Rightarrow> string option \<Rightarrow> db \<Rightarrow> http_error + db \<times> nat" where
  "bulk_assign_group ids gid d =
     (if truthy gid \<and> the gid \<notin> set (db_group_ids d) then Inl (HTTP 404)
      else let (ns, rowcount) = sql_update (\<lambda>n. n_id n \<in> set ids) (\<lambda>n. n\<lparr>n_group_id := gid\<rparr>) (db_nodes d)
           in Inr (d\<lparr>db_nodes := ns\<rparr>, rowcount))"

definition bulk_assign_workflow ::
    "string list \<Rightarrow> string option \<Rightarrow> db \<Rightarrow> http_error + db \<times> nat" where
  "bulk_assign_workflow ids wid d =
     (let (ns, rowcount) = sql_update (\<lambda>n. n_id n \<in> set ids) (\<lambda>n. n\<lparr>n_workflow_id := wid\<rparr>) (db_nodes d)
      in Inr (d\<lparr>db_nodes := ns\<rparr>, rowcount))"

section \<open>Reports by a node\<close>

definition failure_message :: "node \<Rightarrow> string" where
  "failure_message n =
     (if n_state n = ''install_failed''
      then ''Installation failed after '' @ show_int (n_install_attempts n) @ '' attempts''
      else ''Installation failed (attempt '' @ show_int (n_install_attempts n) @ ''), will retry'')"

text \<open>\<open>_handle_event\<close>: the event row is added first, then the event's effect.\<close>

definition handle_event ::
    "datetime \<Rightarrow> node \<Rightarrow> node_report \<Rightarrow> string option \<Rightarrow>
     svc_error + node \<times> state_log list \<times> node_event \<times> string" where
  "handle_event now n r client_ip =
     (let event_type = the (r_event r);
          event = log_event n event_type (r_status r) (r_message r) (r_installation_progress r)
                    (r_event_metadata r) client_ip
      in
      if event_type = ''boot_started'' then
        Inr (n\<lparr>n_boot_count := n_boot_count n + 1, n_last_boot_at := Some now\<rparr>, [], event,
             ''Boot started event logged'')
      else if event_type = ''install_started'' then
        (if n_state n = ''pending'' then
           ebind (svc_transition now n ''installing'' ''node_report'' None None None False)
             (\<lambda>(n', entry). Inr (n'\<lparr>n_install_attempts := 0\<rparr>, [entry], event, ''Installation started''))
         else Inr (n, [], event, ''Event logged''))
      else if event_type = ''install_progress'' then
        Inr (n, [], event,
             ''Installation progress: '' @
             show_int (case r_installation_progress r of None \<Rightarrow> 0 | Some p \<Rightarrow> p) @ ''%'')
      else if event_type = ''install_complete'' then
        (if n_state n = ''installing'' then
           ebind (svc_transition now n ''installed'' ''node_report'' None None None False)
             (\<lambda>(n', entry). Inr (n', [entry], event, ''Installation completed''))
         else Inr (n, [], event, ''Event logged''))
      else if event_type = ''install_failed'' then
        (if n_state n = ''installing'' then
           (case handle_install_failure now n (or_str (r_message r) (r_installation_error r)) of
              (n', Inl e) \<Rightarrow> Inl e
            | (n', Inr logs) \<Rightarrow> Inr (n', logs, event, failure_message n'))
         else Inr (n, [], event, ''Event logged''))
      else if event_type = ''first_boot'' then
        (if n_state n = ''installed'' then
           ebind (svc_transition now n ''active'' ''node_report'' None None (r_event_metadata r) False)
             (\<lambda>(n', entry). Inr (n', [entry], event, ''First boot - node now active''))
         else Inr (n, [], event, ''Event logged''))
      else if event_type = ''heartbeat'' then Inr (n, [], event, ''Heartbeat received'')
      else Inr (n, [], event, ''Event logged''))"

definition legacy_event_type :: "string \<Rightarrow> string" where
  "legacy_event_type st =
     (case map_of [(''started'', ''install_started''), (''progress'', ''install_progress''),
        (''complete'', ''install_complete''), (''failed'', ''install_failed'')] st of
        None \<Rightarrow> ''unknown'' | Some e \<Rightarrow> e)"

definition handle_legacy_installation_status ::
    "datetime \<Rightarrow> node \<Rightarrow> node_report \<Rightarrow> string option \<Rightarrow>
     svc_error + node \<times> state_log list \<times> node_event \<times> string" where
  "handle_legacy_installation_status now n r client_ip =
     (let st = the (r_installation_status r);
          event = log_event n (legacy_event_type st)
                    (if st \<noteq> ''failed'' then ''success'' else ''failed'')
                    (r_installation_error r) (r_installation_progress r) None client_ip
      in
      if st = ''started'' \<and> n_state n = ''pending'' then
        ebind (svc_transition now n ''installing'' ''node_report'' None None None False)
          (\<lambda>(n', entry). Inr (n'\<lparr>n_install_attempts := 0\<rparr>, [entry], event, ''Installation started''))
      else if st = ''complete'' \<and> n_state n = ''installing'' then
        ebind (svc_transition now n ''installed'' ''node_report'' None None None False)
          (\<lambda>(n', entry). Inr (n', [entry], event, ''Installation completed''))
      else if st = ''failed'' \<and> n_state n = ''installing'' then
        (case handle_install_failure now n (r_installation_error r) of
           (n', Inl e) \<Rightarrow> Inl e
         | (n', Inr logs) \<Rightarrow> Inr (n', logs, event, failure_message n'))
      else Inr (n, [], event, ''Status reported successfully''))"

text \<open>The fields a report refreshes before any event is handled.\<close>

definition refresh_node :: "datetime \<Rightarrow> node_report \<Rightarrow> node \<Rightarrow> node" where
  "refresh_node now r n =
     (let n1 = n\<lparr>n_last_seen_at := Some now\<rparr>;
          n2 = (if truthy (r_ip_address r) \<and> n_ip_address n1 \<noteq> r_ip_address r
                then n1\<lparr>n_previous_ip_address := n_ip_address n1, n_last_ip_change_at := Some now\<rparr>
                else n1)
      in n2\<lparr>n_ip_address := or_str (r_ip_address r) (n_ip_address n2),
            n_hostname := or_str (r_hostname r) (n_hostname n2),
            n_vendor := or_str (r_vendor r) (n_vendor n2),
            n_model := or_str (r_model r) (n_model n2),
            n_serial_number := or_str (r_serial_number r) (n_serial_number n2),
            n_system_uuid := or_str (r_system_uuid r) (n_system_uuid n2)\<rparr>)"

text \<open>The report's effect: by event, by legacy status, or none.\<close>

definition report_outcome ::
    "datetime \<Rightarrow> node \<Rightarrow> node_report \<Rightarrow> string option \<Rightarrow>
     svc_error + node \<times> state_log list \<times> node_event list \<times> string" where
  "report_outcome now n r client_ip =
     (if truthy (r_event r) then
        ebind (handle_event now n r client_ip) (\<lambda>(n', logs, e, m). Inr (n', logs, [e], m))
      else if truthy (r_installation_status r) then
        ebind (handle_legacy_installation_status now n r client_ip)
          (\<lambda>(n', logs, e, m). Inr (n', logs, [e], m))
      else Inr (n, [], [], ''Status reported successfully''))"

text \<open>Auto-resolution of the status alerts of a node that is healthy again.\<close>

definition resolve_if_healthy ::
    "datetime \<Rightarrow> string \<Rightarrow> string \<Rightarrow> health_alert list \<Rightarrow> health_error + health_alert list" where
  "resolve_if_healthy now nid new_status alerts =
     (if new_status = ''healthy'' then
        ebind (resolve_alert now nid ''node_stale'' alerts)
          (\<lambda>(as1, _). ebind (resolve_alert now nid ''node_offline'' as1) (\<lambda>(as2, _). Inr as2))
      else Inr alerts)"

definition report_node_status ::
    "health_settings \<Rightarrow> rounding \<Rightarrow> datetime \<Rightarrow> string option \<Rightarrow> node_report \<Rightarrow> db \<Rightarrow>
     http_error + db \<times> string \<times> (string \<times> string \<times> int) list" where
  "report_node_status cfg rnd now client r d =
     (case sql_get n_mac_address (r_mac_address r) (db_nodes d) of
        None \<Rightarrow> Inl (HTTP 404)
      | Some n \<Rightarrow>
          (let client_ip = (if client \<noteq> None then client else r_ip_address r) in
           case report_outcome now (refresh_node now r n) r client_ip of
             Inl e \<Rightarrow> Inl (Unhandled e)
           | Inr (n2, logs, events, message) \<Rightarrow>
               (case update_node_health cfg rnd now n2 of
                  Inl e \<Rightarrow> Inl (HealthFailure e)
                | Inr (n3, new_status, new_score) \<Rightarrow>
                    (case resolve_if_healthy now (n_id n3) new_status (db_alerts d) of
                       Inl e \<Rightarrow> Inl (HealthFailure e)
                     | Inr alerts \<Rightarrow>
                         Inr (add_events events (add_logs logs (save_node n3 d))\<lparr>db_alerts := alerts\<rparr>,
                              message,
                              if n_health_status n2 \<noteq> new_status
                              then [(n_health_status n2, new_status, new_score)] else [])))))"

section \<open>Deployment callbacks\<close>

definition node_installed_callback ::
    "datetime \<Rightarrow> string \<Rightarrow> bool \<Rightarrow> string option \<Rightarrow> db \<Rightarrow> http_error + db" where
  "node_installed_callback now node_id success client d =
     (case sql_get n_id node_id (db_nodes d) of
        None \<Rightarrow> Inl (HTTP 404)
      | Some n \<Rightarrow>
          if success \<and> n_state n \<in> {''pending'', ''installing''} then
            (case svc_transition now n ''installed'' ''deploy_callback'' None None None False of
               Inl e \<Rightarrow> Inl (Unhandled e)
             | Inr (n', entry) \<Rightarrow>
                 Inr (add_events [log_event n' ''deploy_complete'' ''success''
                        (Some ''Image deployment completed'') None None client]
                      (add_logs [entry] (save_node n' d))))
          else Inr d)"

definition node_install_failed_callback ::
    "datetime \<Rightarrow> string \<Rightarrow> string \<Rightarrow> db \<Rightarrow> http_error + db" where
  "node_install_failed_callback now node_id error d =
     (case sql_get n_id node_id (db_nodes d) of
        None \<Rightarrow> Inl (HTTP 404)
      | Some n \<Rightarrow>
          if n_state n \<in> {''pending'', ''installing''} then
            (case handle_install_failure now n (Some error) of
               (n', Inl e) \<Rightarrow> Inl (Unhandled e)
             | (n', Inr logs) \<Rightarrow> Inr (add_logs logs (save_node n' d)))
          else Inr d)"

section \<open>The router\<close>

datatype node_request =
    CreateNode string node_create
  | TransitionNodeState string string "string option" bool
  | RetireNode string
  | BulkChangeState "string list" string
  | BulkAssignGroup "string list" "string option"
  | BulkAssignWorkflow "string list" "string option"
  | ReportNodeStatus "string option" node_report
  | NodeInstalled string bool "string option"
  | NodeInstallFailed string string

text \<open>A request arrives at a clock reading.\<close>

fun route :: "health_settings \<Rightarrow> rounding \<Rightarrow> datetime \<times> node_request \<Rightarrow> db \<Rightarrow> http_error + db" where
  "route cfg rnd (now, CreateNode uuid c) d = create_node uuid c d"
| "route cfg rnd (now, TransitionNodeState i s cm f) d = transition_node_state now i s cm f d"
| "route cfg rnd (now, RetireNode i) d = retire_node now i d"
| "route cfg rnd (now, BulkChangeState ids s) d = map_sum id fst (bulk_change_state now ids s d)"
| "route cfg rnd (now, BulkAssignGroup ids g) d = map_sum id fst (bulk_assign_group ids g d)"
| "route cfg rnd (now, BulkAssignWorkflow ids w) d = map_sum id fst (bulk_assign_workflow ids w d)"
| "route cfg rnd (now, ReportNodeStatus client r) d = map_sum id fst (report_node_status cfg rnd now client r d)"
| "route cfg rnd (now, NodeInstalled i ok client) d = node_installed_callback now i ok client d"
| "route cfg rnd (now, NodeInstallFailed i err) d = node_install_failed_callback now i err d"

section \<open>How one handler moves one node\<close>

text \<open>
  The retry counter: at most three, and three only in a node that has failed for good (or was
  retired after that).
\<close>

definition lifecycle_inv :: "node \<Rightarrow> bool" where
  "lifecycle_inv n \<longleftrightarrow> n_state n \<in> set STATES \<and> 0 \<le> n_install_attempts n
     \<and> n_install_attempts n \<le> MAX_INSTALL_ATTEMPTS
     \<and> (n_install_attempts n = MAX_INSTALL_ATTEMPTS \<longrightarrow> n_state n \<in> {''install_failed'', ''retired''})"

text \<open>The state an audit trail leads to; \<open>None\<close> when two of its rows do not join.\<close>

fun log_end :: "string \<Rightarrow> state_log list \<Rightarrow> string option" where
  "log_end s [] = Some s"
| "log_end s (l # ls) = (if l_from_state l = s then log_end (l_to_state l) ls else None)"

lemma log_end_append:
  "log_end s (ls @ ms) = (case log_end s ls of None \<Rightarrow> None | Some t \<Rightarrow> log_end t ms)"
  by (induction s ls rule: log_end.induct) auto

text \<open>A row is explained by the state machine unless an administrator wrote it.\<close>

definition log_ok :: "state_log \<Rightarrow> bool" where
  "log_ok l \<longleftrightarrow> l_to_state l \<in> set STATES
     \<and> (can_transition (l_from_state l) (l_to_state l) \<or> l_triggered_by l = ''admin'')"

definition evolves :: "node \<Rightarrow> node \<Rightarrow> state_log list \<Rightarrow> bool" where
  "evolves n n' logs \<longleftrightarrow>
     n_id n' = n_id n \<and> n_mac_address n' = n_mac_address n
   \<and> log_end (n_state n) logs = Some (n_state n')
   \<and> (\<forall>l \<in> set logs. l_node_id l = n_id n \<and> log_ok l)
   \<and> (lifecycle_inv n \<longrightarrow> lifecycle_inv n')"

lemma evolves_quiet:
  "n_id n' = n_id n \<Longrightarrow> n_mac_address n' = n_mac_address n \<Longrightarrow> n_state n' = n_state n \<Longrightarrow>
   n_install_attempts n' = n_install_attempts n \<Longrightarrow> evolves n n' []"
  by (simp add: evolves_def lifecycle_inv_def)

lemma evolves_trans:
  "evolves n n' ls \<Longrightarrow> evolves n' n'' ms \<Longrightarrow> evolves n n'' (ls @ ms)"
  by (auto simp: evolves_def log_end_append)

lemma svc_transition_InrD:
  assumes "svc_transition now n to_state by uid cm md force = Inr (n', l)"
  shows "n_state n' = to_state" "n_id n' = n_id n" "n_mac_address n' = n_mac_address n"
    "l_node_id l = n_id n" "l_from_state l = n_state n" "l_to_state l = to_state"
    "l_triggered_by l = by" "force \<or> can_transition (n_state n) to_state"
    "n_install_attempts n' = (if force \<or> to_state = ''installed'' then 0 else n_install_attempts n)"
    "\<not> (n_state n = ''install_failed'' \<and> to_state = ''pending'' \<and> \<not> force
        \<and> n_install_attempts n \<ge> MAX_INSTALL_ATTEMPTS)"
  using assms by (auto simp: svc_transition_def Let_def split: if_splits)

lemma can_transition_install_failed: "can_transition ''install_failed'' t \<Longrightarrow> t \<in> {''pending'', ''retired''}"
  by (auto simp: machine_defs split: if_splits)

lemma svc_transition_evolves:
  assumes t: "svc_transition now n to_state by uid cm md force = Inr (n', l)"
    and f: "force \<Longrightarrow> by = ''admin'' \<and> to_state \<in> set STATES"
  shows "evolves n n' [l]"
proof -
  note d = svc_transition_InrD [OF t]
  have st: "to_state \<in> set STATES"
    using d(8) f by (auto dest: can_transition_in_STATES)
  have "lifecycle_inv n'" if "lifecycle_inv n"
    using that st d(1,8,9,10) can_transition_install_failed [of to_state]
    by (auto simp: lifecycle_inv_def MAX_INSTALL_ATTEMPTS_def split: if_splits)
  with d st f show ?thesis
    by (auto simp: evolves_def log_ok_def)
qed

lemma unforced_transition_evolves:
  "svc_transition now n to_state by uid cm md False = Inr (n', l) \<Longrightarrow> evolves n n' [l]"
  by (erule svc_transition_evolves) simp

lemma handle_install_failure_evolves:
  assumes h: "handle_install_failure now n err = (n', Inr logs)"
    and s: "n_state n \<in> {''pending'', ''installing''}"
  shows "evolves n n' logs"
proof -
  let ?n1 = "n\<lparr>n_install_attempts := n_install_attempts n + 1, n_last_install_error := err\<rparr>"
  show ?thesis
  proof (cases "n_install_attempts n + 1 \<ge> MAX_INSTALL_ATTEMPTS")
    case True
    with h obtain l where t: "svc_transition now ?n1 ''install_failed'' ''node_report'' None None
        (Some [(''error'', jopt err), (''attempt'', JInt (n_install_attempts n + 1))]) False = Inr (n', l)"
      and logs: "logs = [l]"
      by (auto simp: handle_install_failure_def Let_def split: sum.splits)
    note d = svc_transition_InrD [OF t]
    have "lifecycle_inv n'" if "lifecycle_inv n"
      using that d(1,9) s by (auto simp: lifecycle_inv_def MAX_INSTALL_ATTEMPTS_def STATES_def)
    with d logs show ?thesis
      by (auto simp: evolves_def log_ok_def STATES_def)
  next
    case False
    with h have "n' = ?n1" "logs = []"
      by (auto simp: handle_install_failure_def Let_def)
    with False show ?thesis
      by (auto simp: evolves_def lifecycle_inv_def)
  qed
qed

lemma evolves_reset_attempts:
  "evolves n n' ls \<Longrightarrow> evolves n (n'\<lparr>n_install_attempts := 0\<rparr>) ls"
  by (auto simp: evolves_def lifecycle_inv_def MAX_INSTALL_ATTEMPTS_def)

lemma handle_event_evolves:
  "handle_event now n r ip = Inr (n', logs, ev, msg) \<Longrightarrow> evolves n n' logs"
  unfolding handle_event_def Let_def
  by (auto simp: ebind_Inr_iff intro: evolves_quiet evolves_reset_attempts unforced_transition_evolves
        handle_install_failure_evolves split: if_splits prod.splits sum.splits)

lemma handle_legacy_evolves:
  "handle_legacy_installation_status now n r ip = Inr (n', logs, ev, msg) \<Longrightarrow> evolves n n' logs"
  unfolding handle_legacy_installation_status_def Let_def
  by (auto simp: ebind_Inr_iff intro: evolves_quiet evolves_reset_attempts unforced_transition_evolves
        handle_install_failure_evolves split: if_splits prod.splits sum.splits)

lemma refresh_node_evolves: "evolves n (refresh_node now r n) []"
  by (rule evolves_quiet) (simp_all add: refresh_node_def Let_def)

section \<open>The invariant of the node tables\<close>

definition node_logs :: "db \<Rightarrow> string \<Rightarrow> state_log list" where
  "node_logs d i = filter (\<lambda>l. l_node_id l = i) (db_logs d)"

definition db_inv :: "db \<Rightarrow> bool" where
  "db_inv d \<longleftrightarrow>
     keys_unique n_id (db_nodes d) \<and> keys_unique n_mac_address (db_nodes d)
   \<and> (\<forall>n \<in> set (db_nodes d). lifecycle_inv n
        \<and> log_end ''discovered'' (node_logs d (n_id n)) = Some (n_state n))
   \<and> (\<forall>l \<in> set (db_logs d). log_ok l \<and> l_node_id l \<in> n_id ` set (db_nodes d))
   \<and> alerts_inv (db_alerts d)"

lemma save_node_map:
  "keys_unique n_id ns \<Longrightarrow> n \<in> set ns \<Longrightarrow> n_id n' = n_id n \<Longrightarrow>
   m \<in> set (map (\<lambda>m. if n_id m = n_id n' then n' else m) ns) \<Longrightarrow>
   m = n' \<or> (m \<in> set ns \<and> n_id m \<noteq> n_id n)"
  by auto

lemma db_inv_save:
  assumes inv: "db_inv d" and n: "n \<in> set (db_nodes d)" and e: "evolves n n' logs"
  shows "db_inv (add_logs logs (save_node n' d))"
proof -
  let ?d = "add_logs logs (save_node n' d)"
  let ?upd = "\<lambda>m. if n_id m = n_id n' then n' else m"
  from e have ids: "n_id n' = n_id n" "n_mac_address n' = n_mac_address n"
    and own: "\<And>l. l \<in> set logs \<Longrightarrow> l_node_id l = n_id n \<and> log_ok l"
    by (auto simp: evolves_def)
  from inv have u: "keys_unique n_id (db_nodes d)" "keys_unique n_mac_address (db_nodes d)"
    by (simp_all add: db_inv_def)
  have same: "m = n" if "m \<in> set (db_nodes d)" "n_id m = n_id n" for m
    using u(1) n that by (auto simp: keys_unique_def distinct_map inj_on_def)
  have nodes: "db_nodes ?d = map ?upd (db_nodes d)" and logs: "db_logs ?d = db_logs d @ logs"
    by (simp_all add: add_logs_def save_node_def)
  have k1: "map n_id (db_nodes ?d) = map n_id (db_nodes d)"
    unfolding nodes by (auto simp: ids)
  have k2: "map n_mac_address (db_nodes ?d) = map n_mac_address (db_nodes d)"
    unfolding nodes using same ids by (auto simp: comp_def)
  have "lifecycle_inv m \<and> log_end ''discovered'' (node_logs ?d (n_id m)) = Some (n_state m)"
    if m: "m \<in> set (db_nodes ?d)" for m
  proof (cases "m = n'")
    case True
    have "filter (\<lambda>l. l_node_id l = n_id n) logs = logs"
      using own by (simp add: filter_id_conv)
    then have "node_logs ?d (n_id m) = node_logs d (n_id n) @ logs"
      by (simp add: True node_logs_def logs ids)
    with True inv n e show ?thesis
      by (auto simp: db_inv_def log_end_append evolves_def)
  next
    case False
    with m have o: "m \<in> set (db_nodes d)" "n_id m \<noteq> n_id n"
      unfolding nodes by (auto simp: ids split: if_splits)
    then have "node_logs ?d (n_id m) = node_logs d (n_id m)"
      using own by (auto simp: node_logs_def logs filter_empty_conv)
    with o inv show ?thesis by (simp add: db_inv_def)
  qed
  moreover have "n_id ` set (db_nodes ?d) = n_id ` set (db_nodes d)"
    using k1 by (metis set_map)
  moreover have "db_alerts ?d = db_alerts d"
    by (simp add: add_logs_def save_node_def)
  ultimately show ?thesis
    using inv own n by (auto simp: db_inv_def keys_unique_def k1 k2 logs)
qed

text \<open>Changes of a node that leave its identity and its lifecycle alone.\<close>

definition quiet :: "node \<Rightarrow> node \<Rightarrow> bool" where
  "quiet n n' \<longleftrightarrow> n_id n' = n_id n \<and> n_mac_address n' = n_mac_address n \<and> n_state n' = n_state n
     \<and> n_install_attempts n' = n_install_attempts n"

lemma quiet_evolves: "quiet n n' \<Longrightarrow> evolves n n' []"
  by (simp add: quiet_def evolves_def lifecycle_inv_def)

lemma save_quiet_inv:
  assumes "db_inv d" and "n \<in> set (db_nodes d)" and "quiet n n'"
  shows "db_inv (save_node n' d)"
  using db_inv_save [OF assms(1,2) quiet_evolves [OF assms(3)]] by (simp add: add_logs_def)

lemma db_inv_events [simp]: "db_inv (add_events es d) = db_inv d"
  by (simp add: db_inv_def add_events_def node_logs_def)

lemma db_inv_alerts: "db_inv d \<Longrightarrow> alerts_inv as \<Longrightarrow> db_inv (d\<lparr>db_alerts := as\<rparr>)"
  by (simp add: db_inv_def node_logs_def)

lemma create_node_inv:
  assumes inv: "db_inv d" and h: "create_node uuid c d = Inr d'"
  shows "db_inv d'"
proof -
  define n where "n = node_of_create uuid c"
  then have n: "n_state n = ''discovered''" "n_install_attempts n = 0" "n_mac_address n = c_mac_address c"
    by (simp_all add: node_of_create_def new_node_def)
  from h have fresh: "n_mac_address n \<notin> n_mac_address ` set (db_nodes d)"
    "n_id n \<notin> n_id ` set (db_nodes d)"
    and d': "d' = d\<lparr>db_nodes := db_nodes d @ [n]\<rparr>"
    unfolding n(3) create_node_def n_def [symmetric]
    by (auto simp: sql_insert_def sql_get_None_iff split: if_splits)
  have "node_logs d (n_id n) = []"
    using inv fresh(2) unfolding db_inv_def node_logs_def filter_empty_conv by metis
  moreover have "node_logs d' i = node_logs d i" for i
    by (simp add: d' node_logs_def)
  ultimately show ?thesis
    using inv fresh n
    by (auto simp: db_inv_def d' keys_unique_def lifecycle_inv_def STATES_def MAX_INSTALL_ATTEMPTS_def)
qed

lemma transition_node_state_inv:
  assumes inv: "db_inv d" and h: "transition_node_state now i st cm force d = Inr d'"
  shows "db_inv d'"
proof -
  from h obtain n n' l where st: "st \<in> set STATES" and n: "sql_get n_id i (db_nodes d) = Some n"
    and t: "svc_transition now n st ''admin'' None cm None force = Inr (n', l)"
    and d': "d' = add_logs [l] (save_node n' d)"
    by (auto simp: transition_node_state_def split: if_splits option.splits sum.splits)
  have "evolves n n' [l]"
    by (rule svc_transition_evolves [OF t]) (use st in simp)
  with inv n show ?thesis
    unfolding d' by (auto intro: db_inv_save dest: sql_get_SomeD)
qed

lemma retire_node_inv: "db_inv d \<Longrightarrow> retire_node now i d = Inr d' \<Longrightarrow> db_inv d'"
  by (auto simp: retire_node_def intro!: db_inv_save unforced_transition_evolves dest: sql_get_SomeD
      split: option.splits sum.splits svc_error.splits)

text \<open>The bulk loop moves every node at most once.\<close>

lemma bulk_loop_spec:
  assumes "bulk_loop now ids st ns = (ns', logs, updated, errors)"
  shows "list_all2 (\<lambda>n n'. evolves n n' (filter (\<lambda>l. l_node_id l = n_id n) logs) \<or> \<not> distinct (map n_id ns)) ns ns'
    \<and> (\<forall>l \<in> set logs. l_node_id l \<in> n_id ` set ns \<and> log_ok l)
    \<and> map n_id ns' = map n_id ns \<and> map n_mac_address ns' = map n_mac_address ns"
  using assms
proof (induction ns arbitrary: ns' logs updated errors)
  case (Cons n ns)
  obtain ns1 logs1 u1 e1 where r: "bulk_loop now ids st ns = (ns1, logs1, u1, e1)"
    by (metis prod_cases4)
  note ih = Cons.IH [OF r]
  have frame: "filter (\<lambda>l. l_node_id l = n_id m) (logs1) = filter (\<lambda>l. l_node_id l = n_id m) logs"
    if "m \<in> set ns" "distinct (map n_id (n # ns))" for m
    using Cons.prems r that
    by (auto simp: Let_def dest!: svc_transition_InrD(4) split: if_splits sum.splits)
  have none: "filter (\<lambda>l. l_node_id l = n_id n) logs1 = []" if "distinct (map n_id (n # ns))"
    using ih that unfolding filter_empty_conv by (metis distinct.simps(2) list.simps(9) set_map)
  have l2: "list_all2 (\<lambda>m m'. evolves m m' (filter (\<lambda>l. l_node_id l = n_id m) logs)
      \<or> \<not> distinct (map n_id (n # ns))) ns ns1"
    using ih frame by (auto simp: list_all2_conv_all_nth)
  consider (skip) "ns' = n # ns1" "logs = logs1" | (move) n' l where
      "svc_transition now n st ''bulk_operation'' None None None False = Inr (n', l)"
      "ns' = n' # ns1" "logs = l # logs1"
    using Cons.prems r by (auto simp: Let_def split: if_splits sum.splits)
  then show ?case
  proof cases
    case skip
    with ih l2 none show ?thesis by (auto intro: evolves_quiet)
  next
    case move
    note ev = unforced_transition_evolves [OF move(1)]
    from ev have "n_id n' = n_id n" "n_mac_address n' = n_mac_address n" "l_node_id l = n_id n" "log_ok l"
      by (auto simp: evolves_def)
    with move ih l2 none ev show ?thesis by auto
  qed
qed simp

lemma bulk_change_state_inv:
  assumes inv: "db_inv d" and h: "bulk_change_state now ids st d = Inr (d', k, es)"
  shows "db_inv d'"
proof -
  obtain ns' logs updated errors where
    b: "bulk_loop now ids st (db_nodes d) = (ns', logs, updated, errors)"
    by (metis prod_cases4)
  from h b have d': "d' = add_logs logs (d\<lparr>db_nodes := ns'\<rparr>)"
    by (auto simp: bulk_change_state_def split: if_splits)
  from inv have u: "distinct (map n_id (db_nodes d))" by (simp add: db_inv_def keys_unique_def)
  note spec = bulk_loop_spec [OF b]
  from spec have ids: "map n_id ns' = map n_id (db_nodes d)" and macs:
    "map n_mac_address ns' = map n_mac_address (db_nodes d)" by auto
  have "lifecycle_inv m \<and> log_end ''discovered'' (node_logs d' (n_id m)) = Some (n_state m)"
    if "m \<in> set ns'" for m
  proof -
    from that obtain k where "k < length ns'" "m = ns' ! k"
      by (auto simp: in_set_conv_nth)
    with spec u obtain n where n: "n \<in> set (db_nodes d)"
      and e: "evolves n m (filter (\<lambda>l. l_node_id l = n_id n) logs)"
      by (metis (mono_tags, lifting) list_all2_lengthD list_all2_nthD2 nth_mem)
    then have "n_id m = n_id n" by (simp add: evolves_def)
    with inv n e show ?thesis
      by (auto simp: db_inv_def d' add_logs_def node_logs_def evolves_def log_end_append)
  qed
  moreover have "n_id ` set ns' = n_id ` set (db_nodes d)"
    using ids by (metis set_map)
  ultimately show ?thesis
    using inv spec ids macs by (auto simp: db_inv_def d' add_logs_def keys_unique_def)
qed

lemma quiet_update_inv:
  assumes inv: "db_inv d"
    and q: "\<And>n. n_id (f n) = n_id n \<and> n_mac_address (f n) = n_mac_address n
       \<and> n_state (f n) = n_state n \<and> n_install_attempts (f n) = n_install_attempts n"
  shows "db_inv (d\<lparr>db_nodes := fst (sql_update p f (db_nodes d))\<rparr>)"
proof -
  have "map n_id (fst (sql_update p f (db_nodes d))) = map n_id (db_nodes d)"
    using q by (simp add: sql_update_def)
  then have "n_id ` set (fst (sql_update p f (db_nodes d))) = n_id ` set (db_nodes d)"
    by (metis set_map)
  with inv show ?thesis
    by (auto simp: db_inv_def node_logs_def tab_simps q)
      (auto simp: sql_update_def lifecycle_inv_def q split: if_splits)
qed

lemma report_outcome_evolves:
  "report_outcome now n r ip = Inr (n', logs, es, m) \<Longrightarrow> evolves n n' logs"
  unfolding report_outcome_def
  by (auto simp: ebind_Inr_iff intro: evolves_quiet dest: handle_event_evolves handle_legacy_evolves
      split: if_splits)

lemma report_node_status_InrD:
  assumes "report_node_status cfg rnd now client r d = Inr (d', out)"
  obtains n ip n2 logs events msg n3 st sc alerts where
    "sql_get n_mac_address (r_mac_address r) (db_nodes d) = Some n"
    "report_outcome now (refresh_node now r n) r ip = Inr (n2, logs, events, msg)"
    "update_node_health cfg rnd now n2 = Inr (n3, st, sc)"
    "resolve_if_healthy now (n_id n3) st (db_alerts d) = Inr alerts"
    "d' = add_events events (add_logs logs (save_node n3 d))\<lparr>db_alerts := alerts\<rparr>"
  using assms unfolding report_node_status_def Let_def
  by (auto split: option.splits sum.splits prod.splits)

lemma resolve_if_healthy_total:
  assumes "alerts_inv alerts"
  obtains alerts' where "resolve_if_healthy now nid st alerts = Inr alerts'" "alerts_inv alerts'"
    "st = ''healthy'' \<Longrightarrow> no_active nid ''node_stale'' alerts' \<and> no_active nid ''node_offline'' alerts'"
proof (cases "st = ''healthy''")
  case True
  obtain as1 b1 where 1: "resolve_alert now nid ''node_stale'' alerts = Inr (as1, b1)" "alerts_inv as1"
    and f1: "\<And>nid' ty'. filter (active_alert nid' ty') as1 =
           (if nid' = nid \<and> ty' = ''node_stale'' then [] else filter (active_alert nid' ty') alerts)"
    by (rule resolve_alert_total [OF assms, of now nid "''node_stale''"]) blast
  obtain as2 b2 where 2: "resolve_alert now nid ''node_offline'' as1 = Inr (as2, b2)" "alerts_inv as2"
    and f2: "\<And>nid' ty'. filter (active_alert nid' ty') as2 =
           (if nid' = nid \<and> ty' = ''node_offline'' then [] else filter (active_alert nid' ty') as1)"
    by (rule resolve_alert_total [OF 1(2), of now nid "''node_offline''"]) blast
  show thesis
    by (rule that [of as2]) (use True 1(1) 2 f1 f2 in \<open>simp_all add: resolve_if_healthy_def no_active_def\<close>)
qed (use that assms in \<open>simp add: resolve_if_healthy_def\<close>)

lemma update_node_health_evolves:
  "update_node_health cfg rnd now n = Inr (n', st, sc) \<Longrightarrow> evolves n n' []"
  by (rule evolves_quiet) (auto simp: update_node_health_def Let_def split: sum.splits)

lemma report_node_status_inv:
  assumes inv: "db_inv d" and h: "report_node_status cfg rnd now client r d = Inr (d', out)"
  shows "db_inv d'"
  using h
proof (rule report_node_status_InrD)
  fix n ip n2 logs events msg n3 st sc alerts
  assume n: "sql_get n_mac_address (r_mac_address r) (db_nodes d) = Some n"
    and o: "report_outcome now (refresh_node now r n) r ip = Inr (n2, logs, events, msg)"
    and u: "update_node_health cfg rnd now n2 = Inr (n3, st, sc)"
    and as: "resolve_if_healthy now (n_id n3) st (db_alerts d) = Inr alerts"
    and d': "d' = add_events events (add_logs logs (save_node n3 d))\<lparr>db_alerts := alerts\<rparr>"
  from inv have "alerts_inv (db_alerts d)" by (simp add: db_inv_def)
  then have "alerts_inv alerts"
    by (rule resolve_if_healthy_total [of _ now "n_id n3" st]) (use as in simp)
  moreover have "evolves n n3 logs"
    using evolves_trans [OF evolves_trans [OF refresh_node_evolves report_outcome_evolves [OF o]]
        update_node_health_evolves [OF u]] by simp
  ultimately show ?thesis
    unfolding d' using inv n by (auto intro!: db_inv_alerts db_inv_save dest: sql_get_SomeD)
qed

lemma node_installed_callback_inv:
  "db_inv d \<Longrightarrow> node_installed_callback now i ok client d = Inr d' \<Longrightarrow> db_inv d'"
  by (auto simp: node_installed_callback_def intro!: db_inv_save unforced_transition_evolves
      dest: sql_get_SomeD split: option.splits if_splits sum.splits)

lemma node_install_failed_callback_inv:
  "db_inv d \<Longrightarrow> node_install_failed_callback now i err d = Inr d' \<Longrightarrow> db_inv d'"
  by (auto simp: node_install_failed_callback_def intro!: db_inv_save handle_install_failure_evolves
      dest: sql_get_SomeD split: option.splits if_splits sum.splits prod.splits)

lemma map_sum_fst_InrD: "map_sum id fst m = Inr x \<Longrightarrow> \<exists>y. m = Inr (x, y)"
  by (cases m) auto

lemma route_inv:
  assumes "db_inv d" and "route cfg rnd q d = Inr d'"
  shows "db_inv d'"
proof (cases q)
  case (Pair now req)
  note h = assms(2) [unfolded Pair]
  show ?thesis
  proof (cases req)
    case (CreateNode u c)
    with h show ?thesis by (auto intro: create_node_inv [OF assms(1)])
  next
    case (TransitionNodeState i s cm f)
    with h show ?thesis by (auto intro: transition_node_state_inv [OF assms(1)])
  next
    case (RetireNode i)
    with h show ?thesis by (auto intro: retire_node_inv [OF assms(1)])
  next
    case (BulkChangeState ids st)
    with h show ?thesis
      by (auto dest!: map_sum_fst_InrD intro: bulk_change_state_inv [OF assms(1)])
  next
    case (BulkAssignGroup ids g)
    with h quiet_update_inv [OF assms(1), of "\<lambda>n. n\<lparr>n_group_id := g\<rparr>" "\<lambda>n. n_id n \<in> set ids"]
    show ?thesis
      by (auto simp: bulk_assign_group_def dest!: map_sum_fst_InrD split: if_splits prod.splits)
  next
    case (BulkAssignWorkflow ids w)
    with h quiet_update_inv [OF assms(1), of "\<lambda>n. n\<lparr>n_workflow_id := w\<rparr>" "\<lambda>n. n_id n \<in> set ids"]
    show ?thesis
      by (auto simp: bulk_assign_workflow_def dest!: map_sum_fst_InrD split: prod.splits)
  next
    case (ReportNodeStatus client r)
    with h show ?thesis
      by (auto dest!: map_sum_fst_InrD intro: report_node_status_inv [OF assms(1)])
  next
    case (NodeInstalled i ok client)
    with h show ?thesis by (auto intro: node_installed_callback_inv [OF assms(1)])
  next
    case (NodeInstallFailed i err)
    with h show ?thesis by (auto intro: node_install_failed_callback_inv [OF assms(1)])
  qed
qed

interpretation node_api: transactional "route cfg rnd" db_inv
  by unfold_locales (rule route_inv)

section \<open>Properties of the node API\<close>

definition empty_db :: "string list \<Rightarrow> db" where
  "empty_db gs = \<lparr>db_nodes = [], db_logs = [], db_events = [], db_alerts = [], db_group_ids = gs,
     db_tags = [], db_disks = [], db_operations = [], db_sessions = [], db_backends = []\<rparr>"

lemma empty_db_inv: "db_inv (empty_db gs)"
  by (simp add: db_inv_def empty_db_def keys_unique_def alerts_inv_def)

abbreviation served :: "health_settings \<Rightarrow> rounding \<Rightarrow> (datetime \<times> node_request) list \<Rightarrow> string list \<Rightarrow> db" where
  "served cfg rnd qs gs \<equiv> serve (route cfg rnd) qs (empty_db gs)"

lemma served_inv: "db_inv (served cfg rnd qs gs)"
  by (rule node_api.serve_inv [OF empty_db_inv])

text \<open>Requests and rows for the witnesses.\<close>

definition sample_create :: node_create where
  "sample_create = \<lparr>c_mac_address = ''00:11:22:33:44:55'', c_hostname = None, c_arch = ''x86_64'',
     c_boot_mode = ''uefi'', c_group_id = None, c_vendor = None, c_model = None,
     c_serial_number = None, c_system_uuid = None, c_pi_model = None\<rparr>"

definition sample_report :: "string \<Rightarrow> node_report" where
  "sample_report ev = \<lparr>r_mac_address = ''00:11:22:33:44:55'', r_event = Some ev, r_status = ''success'',
     r_message = None, r_event_metadata = None, r_ip_address = Some ''10.0.0.9'', r_hostname = None,
     r_vendor = None, r_model = None, r_serial_number = None, r_system_uuid = None,
     r_installation_status = None, r_installation_progress = None, r_installation_error = None\<rparr>"

definition sample_db :: "string \<Rightarrow> int \<Rightarrow> db" where
  "sample_db st k = (empty_db [])\<lparr>db_nodes :=
     [(new_node ''n1'' ''00:11:22:33:44:55'')\<lparr>n_state := st, n_install_attempts := k\<rparr>]\<rparr>"

lemmas sample_defs = sample_create_def sample_report_def sample_db_def empty_db_def new_node_def
  node_of_create_def




section \<open>Installation retries\<close>

fun fail_repeatedly :: "datetime \<Rightarrow> string option list \<Rightarrow> node \<Rightarrow> svc_error + node" where
  "fail_repeatedly now [] n = Inr n"
| "fail_repeatedly now (e # es) n =
     (case handle_install_failure now n e of
        (n', Inl err) \<Rightarrow> Inl err
      | (n', Inr logs) \<Rightarrow> fail_repeatedly now es n')"

lemma fail_repeatedly_installing:
  assumes "n_state n = ''installing''"
    and "n_install_attempts n + int (length es) \<le> MAX_INSTALL_ATTEMPTS"
  shows "\<exists>n'. fail_repeatedly now es n = Inr n'
    \<and> n_install_attempts n' = n_install_attempts n + int (length es)
    \<and> n_state n' = (if es \<noteq> [] \<and> n_install_attempts n + int (length es) = MAX_INSTALL_ATTEMPTS
                    then ''install_failed'' else ''installing'')"
  using assms
proof (induction es arbitrary: n)
  case (Cons e es)
  show ?case
  proof (cases "es = []")
    case True
    with Cons.prems show ?thesis
      by (auto simp: handle_install_failure_def svc_transition_def Let_def)
  next
    case False
    with Cons.prems(2) have "n_install_attempts n + 1 < MAX_INSTALL_ATTEMPTS"
      by (cases es) auto
    with Cons.IH [of "n\<lparr>n_install_attempts := n_install_attempts n + 1, n_last_install_error := e\<rparr>"]
      Cons.prems False show ?thesis
      by (auto simp: handle_install_failure_def Let_def)
  qed
qed simp

text \<open>
  C3: an installation is retried a fixed number of times. A node that is installing with \<open>k\<close>
  failures so far stays installing for every further failure below the maximum and becomes
  \<open>install_failed\<close> exactly at the failure that brings the counter to
  \<open>MAX_INSTALL_ATTEMPTS\<close>; none of these failures raises.
\<close>

theorem install_retries_exact:
  assumes "n_state n = ''installing''" and "n_install_attempts n < MAX_INSTALL_ATTEMPTS"
    and "n_install_attempts n + int (length es) \<le> MAX_INSTALL_ATTEMPTS"
  shows "\<exists>n'. fail_repeatedly now es n = Inr n'
    \<and> n_install_attempts n' = n_install_attempts n + int (length es)
    \<and> (n_state n' = ''install_failed'' \<longleftrightarrow> n_install_attempts n' = MAX_INSTALL_ATTEMPTS)
    \<and> (n_state n' = ''installing'' \<longleftrightarrow> n_install_attempts n' < MAX_INSTALL_ATTEMPTS)"
  using fail_repeatedly_installing [OF assms(1,3), of now] assms(2,3)
  by (auto split: if_splits)

text \<open>Witness: three failures of a fresh installation.\<close>

theorem install_retries_exact_witness:
  "\<exists>n'. fail_repeatedly 0 [None, Some ''disk'', None]
       ((new_node ''n1'' ''m'')\<lparr>n_state := ''installing''\<rparr>) = Inr n'
     \<and> n_state n' = ''install_failed''"
  using install_retries_exact [of "(new_node ''n1'' ''m'')\<lparr>n_state := ''installing''\<rparr>"
      "[None, Some ''disk'', None]" 0]
  by (auto simp: new_node_def MAX_INSTALL_ATTEMPTS_def)

text \<open>
  the success callback cannot complete a pending node. Although
  \<open>node_installed_callback\<close> accepts nodes in \<open>pending\<close>, the state machine has no move
  from \<open>pending\<close> to \<open>installed\<close>: the callback of a pending node always ends in an
  unhandled \<open>InvalidStateTransition\<close> and the session is rolled back, leaving the node
  pending.
\<close>

theorem pending_installed_callback_raises:
  assumes "sql_get n_id i (db_nodes d) = Some n" and "n_state n = ''pending''"
  shows "node_installed_callback now i True client d
      = Inl (Unhandled (InvalidStateTransition ''pending'' ''installed''))
    \<and> get_db (route cfg rnd) (now, NodeInstalled i True client) d = d"
  using assms by (simp add: node_installed_callback_def svc_transition_def get_db_def)

text \<open>Witness: the only node of the table is pending.\<close>

theorem pending_installed_callback_raises_witness:
  "get_db (route default_health_settings id) (5, NodeInstalled ''n1'' True None) (sample_db ''pending'' 0)
     = sample_db ''pending'' 0"
  using pending_installed_callback_raises [of "''n1''" "sample_db ''pending'' 0"
      "(new_node ''n1'' ''00:11:22:33:44:55'')\<lparr>n_state := ''pending'', n_install_attempts := 0\<rparr>" 5 None
      default_health_settings id]
  by (simp add: sample_defs sql_get_def)

text \<open>
  the failure callback is stuck on a pending node. Once a pending node has two recorded
  failures, every further failure callback raises (there is no move from \<open>pending\<close> to
  \<open>install_failed\<close>) and is rolled back, so no number of callbacks changes the database: the
  counter stays at two and the node never becomes \<open>install_failed\<close>.
\<close>

theorem pending_failure_callback_stuck:
  assumes "sql_get n_id i (db_nodes d) = Some n" and "n_state n = ''pending''"
    and "n_install_attempts n = MAX_INSTALL_ATTEMPTS - 1"
  shows "serve (route cfg rnd) (map (\<lambda>(now, err). (now, NodeInstallFailed i err)) reports) d = d"
proof (induction reports)
  case (Cons r reports)
  obtain now err where r: "r = (now, err)" by (cases r)
  have "node_install_failed_callback now i err d
      = Inl (Unhandled (InvalidStateTransition ''pending'' ''install_failed''))"
    using assms
    by (simp add: node_install_failed_callback_def handle_install_failure_def svc_transition_def Let_def)
  with Cons r show ?case by simp
qed simp

text \<open>Witness: two callbacks on a pending node that failed twice.\<close>

theorem pending_failure_callback_stuck_witness:
  "serve (route default_health_settings id)
     [(7, NodeInstallFailed ''n1'' ''no disk''), (8, NodeInstallFailed ''n1'' ''no disk'')]
     (sample_db ''pending'' 2) = sample_db ''pending'' 2"
  using pending_failure_callback_stuck [of "''n1''" "sample_db ''pending'' 2"
      "(new_node ''n1'' ''00:11:22:33:44:55'')\<lparr>n_state := ''pending'', n_install_attempts := 2\<rparr>"
      default_health_settings id "[(7, ''no disk''), (8, ''no disk'')]"]
  by (simp add: sample_defs sql_get_def MAX_INSTALL_ATTEMPTS_def)

section \<open>A report always succeeds\<close>

lemma svc_transition_allowed:
  "can_transition (n_state n) st \<Longrightarrow> n_state n \<noteq> ''install_failed'' \<Longrightarrow>
   \<exists>n' l. svc_transition now n st by uid cm md False = Inr (n', l) \<and> n_last_seen_at n' = n_last_seen_at n"
  by (simp add: svc_transition_def Let_def)

lemma handle_install_failure_installing:
  "n_state n = ''installing'' \<Longrightarrow>
   \<exists>n' logs. handle_install_failure now n err = (n', Inr logs) \<and> n_last_seen_at n' = n_last_seen_at n"
  by (simp add: handle_install_failure_def svc_transition_def Let_def)

lemma handle_event_total:
  "\<exists>n' logs e m. handle_event now n r ip = Inr (n', logs, e, m) \<and> n_last_seen_at n' = n_last_seen_at n"
proof -
  have t1: "n_state n = ''pending'' \<Longrightarrow> \<exists>n' l. svc_transition now n ''installing'' ''node_report'' None None None False
      = Inr (n', l) \<and> n_last_seen_at n' = n_last_seen_at n"
    by (rule svc_transition_allowed) simp_all
  have t2: "n_state n = ''installing'' \<Longrightarrow> \<exists>n' l. svc_transition now n ''installed'' ''node_report'' None None None False
      = Inr (n', l) \<and> n_last_seen_at n' = n_last_seen_at n"
    by (rule svc_transition_allowed) simp_all
  have t3: "n_state n = ''installed'' \<Longrightarrow> \<exists>n' l. svc_transition now n ''active'' ''node_report'' None None
      (r_event_metadata r) False = Inr (n', l) \<and> n_last_seen_at n' = n_last_seen_at n"
    by (rule svc_transition_allowed) simp_all
  note t4 = handle_install_failure_installing [of n now "or_str (r_message r) (r_installation_error r)"]
  show ?thesis
    unfolding handle_event_def Let_def using t1 t2 t3 t4 by (simp, force)
qed

lemma handle_legacy_total:
  "\<exists>n' logs e m. handle_legacy_installation_status now n r ip = Inr (n', logs, e, m)
     \<and> n_last_seen_at n' = n_last_seen_at n"
proof -
  have t1: "n_state n = ''pending'' \<Longrightarrow> \<exists>n' l. svc_transition now n ''installing'' ''node_report'' None None None False
      = Inr (n', l) \<and> n_last_seen_at n' = n_last_seen_at n"
    by (rule svc_transition_allowed) simp_all
  have t2: "n_state n = ''installing'' \<Longrightarrow> \<exists>n' l. svc_transition now n ''installed'' ''node_report'' None None None False
      = Inr (n', l) \<and> n_last_seen_at n' = n_last_seen_at n"
    by (rule svc_transition_allowed) simp_all
  note t3 = handle_install_failure_installing [of n now "r_installation_error r"]
  show ?thesis
    unfolding handle_legacy_installation_status_def Let_def using t1 t2 t3 by (simp, force)
qed

lemma report_outcome_total:
  obtains n' logs es m where "report_outcome now n r ip = Inr (n', logs, es, m)"
    and "n_last_seen_at n' = n_last_seen_at n"
proof -
  obtain n1 l1 e1 m1 where 1: "handle_event now n r ip = Inr (n1, l1, e1, m1)"
    "n_last_seen_at n1 = n_last_seen_at n"
    using handle_event_total [of now n r ip] by blast
  obtain n2 l2 e2 m2 where 2: "handle_legacy_installation_status now n r ip = Inr (n2, l2, e2, m2)"
    "n_last_seen_at n2 = n_last_seen_at n"
    using handle_legacy_total [of now n r ip] by blast
  consider "truthy (r_event r)" | "\<not> truthy (r_event r)" "truthy (r_installation_status r)"
    | "\<not> truthy (r_event r)" "\<not> truthy (r_installation_status r)" by blast
  then show thesis
    by cases (use 1 2 in \<open>auto intro!: that simp: report_outcome_def\<close>)
qed

lemma healthy_when_just_seen:
  assumes "float_rounding rnd" and "0 \<le> stale_threshold_minutes cfg" and "n_last_seen_at n = Some now"
  shows "determine_health_status cfg rnd now n = ''healthy''"
proof -
  from assms(1) have "rnd (of_int 0) = of_int 0"
    unfolding float_rounding_def by (metis abs_zero zero_le_numeral zero_le_power)
  with assms(2,3) show ?thesis
    by (simp add: determine_health_status_def total_seconds_def)
qed

text \<open>
  a node that reports is healthy. For any report of a registered node the request
  succeeds, whatever event it carries and whatever state the node is in: no event makes the
  transition service raise. Afterwards the node is stored as healthy and last seen now, and no
  stale or offline alert of it is active.
\<close>

theorem report_makes_healthy:
  assumes "db_inv d" and "sql_get n_mac_address (r_mac_address r) (db_nodes d) = Some n"
    and "float_rounding rnd" and "0 \<le> stale_threshold_minutes cfg"
    and "offline_threshold_minutes cfg \<noteq> 0"
  shows "\<exists>d' out n'. report_node_status cfg rnd now client r d = Inr (d', out)
    \<and> sql_get n_id (n_id n) (db_nodes d') = Some n'
    \<and> n_health_status n' = ''healthy'' \<and> n_last_seen_at n' = Some now
    \<and> no_active (n_id n) ''node_stale'' (db_alerts d') \<and> no_active (n_id n) ''node_offline'' (db_alerts d')"
proof -
  let ?ip = "if client \<noteq> None then client else r_ip_address r"
  obtain n2 logs es m where o: "report_outcome now (refresh_node now r n) r ?ip = Inr (n2, logs, es, m)"
    and "n_last_seen_at n2 = n_last_seen_at (refresh_node now r n)"
    by (rule report_outcome_total)
  then have seen: "n_last_seen_at n2 = Some now"
    by (simp add: refresh_node_def Let_def)
  have st: "determine_health_status cfg rnd now n2 = ''healthy''"
    by (rule healthy_when_just_seen [OF assms(3,4) seen])
  obtain sc where u: "update_node_health cfg rnd now n2 =
      Inr (n2\<lparr>n_health_status := ''healthy'', n_health_score := sc\<rparr>, ''healthy'', sc)"
    using update_node_health_total [OF assms(5), of rnd now n2 thesis] st by auto
  let ?n3 = "n2\<lparr>n_health_status := ''healthy'', n_health_score := sc\<rparr>"
  have id3: "n_id ?n3 = n_id n"
    using report_outcome_evolves [OF o] refresh_node_evolves [of n now r] by (simp add: evolves_def)
  obtain alerts where a: "resolve_if_healthy now (n_id n) ''healthy'' (db_alerts d) = Inr alerts"
    "no_active (n_id n) ''node_stale'' alerts" "no_active (n_id n) ''node_offline'' alerts"
    using resolve_if_healthy_total [of "db_alerts d" now "n_id n" "''healthy''" thesis] assms(1)
    by (auto simp: db_inv_def)
  let ?d' = "add_events es (add_logs logs (save_node ?n3 d))\<lparr>db_alerts := alerts\<rparr>"
  have "report_node_status cfg rnd now client r d = Inr (?d', m,
      if n_health_status n2 \<noteq> ''healthy'' then [(n_health_status n2, ''healthy'', sc)] else [])"
    using assms(2) o u a(1) id3 by (simp add: report_node_status_def Let_def)
  moreover have "sql_get n_id (n_id n) (db_nodes ?d') = Some ?n3"
  proof -
    have "n \<in> set (db_nodes d)" using assms(2) by (auto dest: sql_get_SomeD)
    moreover have "sql_get n_id (n_id n) (map (\<lambda>m. if n_id m = n_id n then ?n3 else m) ns) = Some ?n3"
      if "n \<in> set ns" for ns
      using that id3 by (induction ns) (auto simp: sql_get_def)
    ultimately show ?thesis using id3 by (simp add: add_events_def add_logs_def save_node_def)
  qed
  ultimately show ?thesis using a(2,3) seen by auto
qed

text \<open>Witness: the registered node of the sample database sends a heartbeat.\<close>

theorem report_makes_healthy_witness:
  "\<exists>d' out n'. report_node_status default_health_settings id 90 None (sample_report ''heartbeat'')
       (serve (route default_health_settings id) [(0, CreateNode ''n1'' sample_create)] (empty_db [])) = Inr (d', out)
    \<and> sql_get n_id ''n1'' (db_nodes d') = Some n' \<and> n_health_status n' = ''healthy''"
proof -
  let ?d = "serve (route default_health_settings id) [(0, CreateNode ''n1'' sample_create)] (empty_db [])"
  have "db_inv ?d" by (rule served_inv)
  moreover have "sql_get n_mac_address (r_mac_address (sample_report ''heartbeat'')) (db_nodes ?d)
      = Some (node_of_create ''n1'' sample_create)"
    by (simp add: get_db_def create_node_def sql_get_def sql_insert_def sample_defs)
  moreover have "float_rounding id" by (simp add: float_rounding_def mono_def)
  moreover have "n_id (node_of_create ''n1'' sample_create) = ''n1''" by (simp add: sample_defs)
  ultimately show ?thesis
    using report_makes_healthy [of ?d "sample_report ''heartbeat''" "node_of_create ''n1'' sample_create" id
        default_health_settings 90 None]
    by (auto simp: default_health_settings_def)
qed

section \<open>Bulk state changes\<close>

definition bulk_result :: "datetime \<Rightarrow> string list \<Rightarrow> string \<Rightarrow> node \<Rightarrow> svc_error + node" where
  "bulk_result now ids st n =
     (if n_id n \<in> set ids
      then map_sum id fst (svc_transition now n st ''bulk_operation'' None None None False) else Inr n)"

definition keep_on_error :: "'e + 'a \<Rightarrow> 'a \<Rightarrow> 'a" where
  "keep_on_error r x = (case r of Inl _ \<Rightarrow> x | Inr y \<Rightarrow> y)"

definition bulk_errors :: "datetime \<Rightarrow> string list \<Rightarrow> string \<Rightarrow> node list \<Rightarrow> (string \<times> svc_error) list" where
  "bulk_errors now ids st ns =
     concat (map (\<lambda>n. case bulk_result now ids st n of Inl e \<Rightarrow> [(n_id n, e)] | Inr _ \<Rightarrow> []) ns)"

lemma bulk_loop_eq:
  "\<exists>logs updated. bulk_loop now ids st ns =
     (map (\<lambda>n. keep_on_error (bulk_result now ids st n) n) ns, logs, updated, bulk_errors now ids st ns)
   \<and> updated = length logs
   \<and> updated + length (bulk_errors now ids st ns) = length (filter (\<lambda>n. n_id n \<in> set ids) ns)"
proof (induction ns)
  case (Cons n ns)
  then show ?case
    by (cases "svc_transition now n st ''bulk_operation'' None None None False")
      (auto simp: bulk_errors_def keep_on_error_def bulk_result_def)
qed (simp add: bulk_errors_def)

text \<open>
  a bulk change treats every node on its own. For a known target state the request
  succeeds; each selected node is moved by the transition service or, where the service
  refuses, left as it was and reported as an error; nodes that were not selected are
  unchanged. The count of updated nodes is the number of audit rows written, and updated and
  failed nodes together are the selected ones.
\<close>

theorem bulk_change_state_pointwise:
  assumes "st \<in> set STATES"
  shows "\<exists>d' updated. bulk_change_state now ids st d = Inr (d', updated, bulk_errors now ids st (db_nodes d))
    \<and> db_nodes d' = map (\<lambda>n. keep_on_error (bulk_result now ids st n) n) (db_nodes d)
    \<and> length (db_logs d') = length (db_logs d) + updated
    \<and> updated + length (bulk_errors now ids st (db_nodes d))
        = length (filter (\<lambda>n. n_id n \<in> set ids) (db_nodes d))"
  using bulk_loop_eq [of now ids st "db_nodes d"] assms
  by (auto simp: bulk_change_state_def add_logs_def)

text \<open>Witness: a pending node cannot be activated in bulk.\<close>

theorem bulk_change_state_pointwise_witness:
  "\<exists>d' updated. bulk_change_state 3 [''n1''] ''active'' (sample_db ''pending'' 0)
       = Inr (d', updated, [(''n1'', InvalidStateTransition ''pending'' ''active'')])
     \<and> db_nodes d' = db_nodes (sample_db ''pending'' 0)"
proof -
  have "''active'' \<in> set STATES" by (simp add: STATES_def)
  from bulk_change_state_pointwise [OF this, of 3 "[''n1'']" "sample_db ''pending'' 0"] show ?thesis
    by (auto simp: sample_defs bulk_errors_def bulk_result_def keep_on_error_def svc_transition_def
        machine_defs)
qed

end
