(* ===== verification/Approvals.thy ===== *)
theory Approvals
  imports Session Lifecycle
begin

text \<open>
  The four-eye approval workflow: the service src/src/services/approvals.py, the routes of
  src/src/api/routes/approvals.py that create, vote on, cancel and list requests, and the
  escalation job src/src/core/escalation_job.py.

  An approval row carries its votes (the ORM relationship), oldest first. Statuses and vote
  kinds are the strings of the code. A service function that writes before it raises returns
  the table on both paths; the routes then roll the session back (\<open>get_db\<close>). Audit-log rows
  and response bodies are left out.
\<close>

section \<open>Rows\<close>

record approval_vote =
  v_user_id :: "string option"
  v_user_name :: string
  v_vote :: string
  v_comment :: "string option"
  v_is_escalation_vote :: bool

record approval =
  ap_id :: string
  ap_rule_id :: "string option"
  ap_operation_type :: string
  ap_action_type :: string
  ap_action_data :: "(string \<times> json) list"
  ap_requester_id :: "string option"
  ap_requester_name :: string
  ap_status :: string
  ap_required_approvers :: int
  ap_escalated_at :: "datetime option"
  ap_escalation_count :: int
  ap_expires_at :: datetime
  ap_resolved_at :: "datetime option"
  ap_metadata :: "(string \<times> json) list option"
  ap_created_at :: datetime
  ap_votes :: "approval_vote list"

text \<open>\<open>operations_json\<close> is the decoded list, or \<open>None\<close> for text that is not JSON.\<close>

record approval_rule =
  ru_id :: string
  ru_name :: string
  ru_scope_type :: string
  ru_scope_id :: "string option"
  ru_operations :: "string list option"
  ru_required_approvers :: int
  ru_escalation_timeout_hours :: int
  ru_is_active :: bool
  ru_priority :: int

datatype approval_error =
    ApprovalNotFoundError string
  | UserCannotVoteError string
  | VoteValueError string

section \<open>Matching rules\<close>

definition operation_matches_pattern :: "string \<Rightarrow> string \<Rightarrow> bool" where
  "operation_matches_pattern operation_type pattern =
     (if pattern = ''*'' then True
      else if pattern = operation_type then True
      else endswith pattern ''.*''
           \<and> startswith operation_type (take (length pattern - 2) pattern @ ''.''))"

fun operation_matches :: "string \<Rightarrow> string list \<Rightarrow> bool" where
  "operation_matches operation_type [] = False"
| "operation_matches operation_type (pattern # ps) =
     (if operation_matches_pattern operation_type pattern then True
      else operation_matches operation_type ps)"

definition scope_matches :: "string list \<Rightarrow> string option \<Rightarrow> approval_rule \<Rightarrow> bool" where
  "scope_matches user_group_ids device_group_id rule =
     (if ru_scope_type rule = ''device_group''
      then truthy device_group_id \<and> ru_scope_id rule = device_group_id
      else if ru_scope_type rule = ''user_group''
      then ru_scope_id rule \<in> Some ` set user_group_ids
      else ru_scope_type rule = ''global'')"

definition rule_applies :: "string \<Rightarrow> string list \<Rightarrow> string option \<Rightarrow> approval_rule \<Rightarrow> bool" where
  "rule_applies operation_type user_group_ids device_group_id rule =
     (case ru_operations rule of
        None \<Rightarrow> False
      | Some operations \<Rightarrow>
          operation_matches operation_type operations
          \<and> scope_matches user_group_ids device_group_id rule)"

text \<open>\<open>UserGroupMember\<close> rows are pairs of a user and a group.\<close>

definition find_matching_rule ::
    "(string \<times> string) list \<Rightarrow> approval_rule list \<Rightarrow> string \<Rightarrow> string \<Rightarrow> string option \<Rightarrow>
     approval_rule option" where
  "find_matching_rule members rules operation_type user_id device_group_id =
     (let user_group_ids = map snd (filter (\<lambda>m. fst m = user_id) members);
          ordered = sort_key (\<lambda>r. - ru_priority r) (filter ru_is_active rules)
      in find (rule_applies operation_type user_group_ids device_group_id) ordered)"

section \<open>Creating requests\<close>

definition create_approval_request ::
    "datetime \<Rightarrow> string \<Rightarrow> approval_rule \<Rightarrow> string \<Rightarrow> string \<Rightarrow> string \<Rightarrow> string \<Rightarrow> string \<Rightarrow> string \<Rightarrow>
     (string \<times> json) list option \<Rightarrow> (string \<times> json) list option \<Rightarrow> approval list \<Rightarrow>
     sql_error + approval list" where
  "create_approval_request now uuid rule operation_type requester_id requester_name
      target_type target_id description action_data metadata approvals =
     (let data0 = (case action_data of None \<Rightarrow> [] | Some d \<Rightarrow> d);
          data = dict_put ''description'' (JStr description)
                   (dict_put ''target_id'' (JStr target_id)
                     (dict_put ''target_type'' (JStr target_type) data0))
      in sql_insert ap_id
           \<lparr>ap_id = uuid, ap_rule_id = Some (ru_id rule), ap_operation_type = operation_type,
            ap_action_type = operation_type, ap_action_data = data,
            ap_requester_id = Some requester_id, ap_requester_name = requester_name,
            ap_status = ''pending'', ap_required_approvers = ru_required_approvers rule,
            ap_escalated_at = None, ap_escalation_count = 0,
            ap_expires_at = now + hours (ru_escalation_timeout_hours rule),
            ap_resolved_at = None, ap_metadata = dumps_if metadata, ap_created_at = now,
            ap_votes = []\<rparr> approvals)"

section \<open>Voting\<close>

definition put_approval :: "approval \<Rightarrow> approval list \<Rightarrow> approval list" where
  "put_approval a as = map (\<lambda>x. if ap_id x = ap_id a then a else x) as"

definition count_votes :: "string \<Rightarrow> approval_vote list \<Rightarrow> int" where
  "count_votes kind vs = int (length (filter (\<lambda>v. v_vote v = kind) vs))"

text \<open>The threshold test after a vote was added: the resolved approval and \<open>is_complete\<close>.\<close>

definition tally :: "datetime \<Rightarrow> approval \<Rightarrow> approval \<times> bool" where
  "tally now a =
     (if count_votes ''approve'' (ap_votes a) \<ge> ap_required_approvers a
      then (a\<lparr>ap_status := ''approved'', ap_resolved_at := Some now\<rparr>, True)
      else if count_votes ''reject'' (ap_votes a) \<ge> ap_required_approvers a
      then (a\<lparr>ap_status := ''rejected'', ap_resolved_at := Some now\<rparr>, True)
      else (a, False))"

definition cast_vote ::
    "datetime \<Rightarrow> string \<Rightarrow> string \<Rightarrow> string \<Rightarrow> string \<Rightarrow> string option \<Rightarrow> bool \<Rightarrow> approval list \<Rightarrow>
     approval list \<times> (approval_error + approval_vote \<times> bool)" where
  "cast_vote now approval_id user_id user_name vote comment is_escalation_vote as =
     (if vote \<notin> {''approve'', ''reject''} then (as, Inl (VoteValueError vote))
      else case sql_get ap_id approval_id as of
        None \<Rightarrow> (as, Inl (ApprovalNotFoundError approval_id))
      | Some a \<Rightarrow>
          if ap_status a \<noteq> ''pending''
          then (as, Inl (UserCannotVoteError (''Approval is not pending (status: '' @ ap_status a @ '')'')))
          else if now > ap_expires_at a
          then (put_approval (a\<lparr>ap_status := ''expired'', ap_resolved_at := Some now\<rparr>) as,
                Inl (UserCannotVoteError ''Approval has expired''))
          else if user_id \<noteq> [] \<and> ap_requester_id a = Some user_id
          then (as, Inl (UserCannotVoteError
                 ''You cannot vote on your own request (four-eye principle)''))
          else if user_name = ap_requester_name a
          then (as, Inl (UserCannotVoteError
                 ''You cannot vote on your own request (four-eye principle)''))
          else if \<exists>v \<in> set (ap_votes a). v_user_id v = Some user_id \<or> v_user_name v = user_name
          then (as, Inl (UserCannotVoteError ''You have already voted on this request''))
          else
            (let approval_vote = \<lparr>v_user_id = Some user_id, v_user_name = user_name, v_vote = vote,
                    v_comment = comment, v_is_escalation_vote = is_escalation_vote\<rparr>;
                 (a', is_complete) = tally now (a\<lparr>ap_votes := ap_votes a @ [approval_vote]\<rparr>)
             in (put_approval a' as, Inr (approval_vote, is_complete))))"

definition check_user_can_approve ::
    "datetime \<Rightarrow> string \<Rightarrow> string \<Rightarrow> approval list \<Rightarrow> bool \<times> string" where
  "check_user_can_approve now approval_id user_id as =
     (case sql_get ap_id approval_id as of
        None \<Rightarrow> (False, ''Approval not found'')
      | Some a \<Rightarrow>
          if ap_status a \<noteq> ''pending''
          then (False, ''Approval is not pending (status: '' @ ap_status a @ '')'')
          else if now > ap_expires_at a then (False, ''Approval has expired'')
          else if ap_requester_id a = Some user_id then (False, ''You cannot vote on your own request'')
          else if \<exists>v \<in> set (ap_votes a). v_user_id v = Some user_id
          then (False, ''You have already voted on this request'')
          else (True, ''User can vote''))"

definition get_pending_approvals_for_user ::
    "datetime \<Rightarrow> string \<Rightarrow> approval list \<Rightarrow> approval list" where
  "get_pending_approvals_for_user now user_id as =
     filter (\<lambda>a. ap_requester_id a \<noteq> Some user_id \<and> \<not> now > ap_expires_at a
                 \<and> \<not> (\<exists>v \<in> set (ap_votes a). v_user_id v = Some user_id))
       (sort_key (\<lambda>a. - ap_created_at a) (filter (\<lambda>a. ap_status a = ''pending'') as))"

section \<open>Escalation and expiry\<close>

definition escalate_approval :: "datetime \<Rightarrow> approval_rule list \<Rightarrow> approval \<Rightarrow> approval" where
  "escalate_approval now rules a =
     (let a1 = a\<lparr>ap_escalated_at := Some now, ap_escalation_count := ap_escalation_count a + 1\<rparr> in
      if truthy (ap_rule_id a1)
      then (case sql_get ru_id (the (ap_rule_id a1)) rules of
              None \<Rightarrow> a1
            | Some rule \<Rightarrow> a1\<lparr>ap_expires_at := now + hours (ru_escalation_timeout_hours rule)\<rparr>)
      else a1)"

definition is_expired :: "datetime \<Rightarrow> approval \<Rightarrow> bool" where
  "is_expired now a \<longleftrightarrow> ap_status a = ''pending'' \<and> ap_expires_at a < now"

definition get_expired_approvals :: "datetime \<Rightarrow> approval list \<Rightarrow> approval list" where
  "get_expired_approvals now as = filter (is_expired now) as"

text \<open>The loop body: escalate, or give up after the last escalation.\<close>

definition process_expired :: "datetime \<Rightarrow> int \<Rightarrow> approval_rule list \<Rightarrow> approval \<Rightarrow> approval" where
  "process_expired now max_escalations rules a =
     (if ap_escalation_count a < max_escalations then escalate_approval now rules a
      else a\<lparr>ap_status := ''expired'', ap_resolved_at := Some now\<rparr>)"

text \<open>Every expired row is one object of the session; the loop changes each of them in place.\<close>

definition process_expired_approvals ::
    "datetime \<Rightarrow> int \<Rightarrow> approval_rule list \<Rightarrow> approval list \<Rightarrow> approval list \<times> nat \<times> nat" where
  "process_expired_approvals now max_escalations rules as =
     (map (\<lambda>a. if is_expired now a then process_expired now max_escalations rules a else a) as,
      length (filter (\<lambda>a. ap_escalation_count a < max_escalations) (get_expired_approvals now as)),
      length (filter (\<lambda>a. \<not> ap_escalation_count a < max_escalations) (get_expired_approvals now as)))"

definition MAX_ESCALATIONS :: int where
  "MAX_ESCALATIONS = 3"

definition process_escalations :: "datetime \<Rightarrow> approval_rule list \<Rightarrow> approval list \<Rightarrow> approval list" where
  "process_escalations now rules as = fst (process_expired_approvals now MAX_ESCALATIONS rules as)"

text \<open>Reading the list or the statistics expires old requests without escalation.\<close>

definition expire_old_approvals :: "datetime \<Rightarrow> approval list \<Rightarrow> approval list" where
  "expire_old_approvals now as =
     map (\<lambda>a. if is_expired now a then a\<lparr>ap_status := ''expired'', ap_resolved_at := Some now\<rparr> else a) as"

definition cancel_approval ::
    "datetime \<Rightarrow> string \<Rightarrow> string \<Rightarrow> approval list \<Rightarrow> approval_error + approval list" where
  "cancel_approval now approval_id user_id as =
     (case sql_get ap_id approval_id as of
        None \<Rightarrow> Inl (ApprovalNotFoundError approval_id)
      | Some a \<Rightarrow>
          if ap_status a \<noteq> ''pending''
          then Inl (UserCannotVoteError
                 (''Only pending approvals can be cancelled (status: '' @ ap_status a @ '')''))
          else if ap_requester_id a \<noteq> Some user_id
          then Inl (UserCannotVoteError ''Only the requester can cancel an approval'')
          else Inr (put_approval (a\<lparr>ap_status := ''cancelled'', ap_resolved_at := Some now\<rparr>) as))"

section \<open>Routes\<close>

datatype route_error = ApHTTP nat | ApDbFailure sql_error

definition VALID_ACTION_TYPES :: "string list" where
  "VALID_ACTION_TYPES = [''bulk_wipe'', ''bulk_retire'', ''delete_template'', ''production_state_change'']"

definition APPROVAL_EXPIRY_HOURS :: int where
  "APPROVAL_EXPIRY_HOURS = 24"

definition create_approval ::
    "datetime \<Rightarrow> string \<Rightarrow> string \<Rightarrow> (string \<times> json) list \<Rightarrow> string \<Rightarrow> string option \<Rightarrow> int \<Rightarrow> approval list \<Rightarrow>
     route_error + approval list" where
  "create_approval now uuid action_type action_data requester_name requester_id required_approvers as =
     (if action_type \<notin> set VALID_ACTION_TYPES then Inl (ApHTTP 400)
      else if required_approvers < 1 \<or> required_approvers > 5 then Inl (ApHTTP 400)
      else
        (case sql_insert ap_id
           \<lparr>ap_id = uuid, ap_rule_id = None, ap_operation_type = action_type,
            ap_action_type = action_type, ap_action_data = action_data,
            ap_requester_id = requester_id, ap_requester_name = requester_name,
            ap_status = ''pending'', ap_required_approvers = required_approvers,
            ap_escalated_at = None, ap_escalation_count = 0,
            ap_expires_at = now + hours APPROVAL_EXPIRY_HOURS, ap_resolved_at = None,
            ap_metadata = None, ap_created_at = now, ap_votes = []\<rparr> as of
           Inl e \<Rightarrow> Inl (ApDbFailure e)
         | Inr as' \<Rightarrow> Inr as'))"

text \<open>The authenticated user of the request, if any: \<open>request.state\<close>.\<close>

definition vote_on_approval ::
    "datetime \<Rightarrow> string \<Rightarrow> string option \<Rightarrow> string option \<Rightarrow> string \<Rightarrow> string option \<Rightarrow> approval list \<Rightarrow>
     route_error + approval list" where
  "vote_on_approval now approval_id user_id user_name vote comment as =
     (if vote \<notin> {''approve'', ''reject''} then Inl (ApHTTP 400)
      else if \<not> truthy user_id \<or> \<not> truthy user_name then Inl (ApHTTP 401)
      else case cast_vote now approval_id (the user_id) (the user_name) vote comment False as of
        (as', Inr _) \<Rightarrow> Inr as'
      | (_, Inl (ApprovalNotFoundError _)) \<Rightarrow> Inl (ApHTTP 404)
      | (_, Inl _) \<Rightarrow> Inl (ApHTTP 400))"

text \<open>
  The legacy vote. Its expiry branch also marks the row before it raises; the rollback of the
  request undoes the mark, so the error alone is left.
\<close>

definition legacy_cast_vote ::
    "datetime \<Rightarrow> string \<Rightarrow> string \<Rightarrow> string option \<Rightarrow> string option \<Rightarrow> string \<Rightarrow> approval list \<Rightarrow>
     route_error + approval list" where
  "legacy_cast_vote now approval_id user_name user_id comment vote_type as =
     (case sql_get ap_id approval_id as of
        None \<Rightarrow> Inl (ApHTTP 404)
      | Some a \<Rightarrow>
          if ap_status a \<noteq> ''pending'' then Inl (ApHTTP 400)
          else if \<exists>v \<in> set (ap_votes a). v_user_name v = user_name then Inl (ApHTTP 400)
          else if user_name = ap_requester_name a then Inl (ApHTTP 400)
          else if now > ap_expires_at a then Inl (ApHTTP 400)
          else
            (let vote = \<lparr>v_user_id = user_id, v_user_name = user_name, v_vote = vote_type,
                         v_comment = comment, v_is_escalation_vote = False\<rparr>
             in Inr (put_approval (fst (tally now (a\<lparr>ap_votes := ap_votes a @ [vote]\<rparr>))) as)))"

definition cancel_approval_post ::
    "datetime \<Rightarrow> string \<Rightarrow> string option \<Rightarrow> approval list \<Rightarrow> route_error + approval list" where
  "cancel_approval_post now approval_id user_id as =
     (if \<not> truthy user_id then Inl (ApHTTP 401)
      else case cancel_approval now approval_id (the user_id) as of
        Inl (ApprovalNotFoundError _) \<Rightarrow> Inl (ApHTTP 404)
      | Inl _ \<Rightarrow> Inl (ApHTTP 403)
      | Inr as' \<Rightarrow> Inr as')"

definition cancel_approval_delete ::
    "datetime \<Rightarrow> string \<Rightarrow> string \<Rightarrow> approval list \<Rightarrow> route_error + approval list" where
  "cancel_approval_delete now approval_id requester_name as =
     (case sql_get ap_id approval_id as of
        None \<Rightarrow> Inl (ApHTTP 404)
      | Some a \<Rightarrow>
          if ap_status a \<noteq> ''pending'' then Inl (ApHTTP 400)
          else if ap_requester_name a \<noteq> requester_name then Inl (ApHTTP 403)
          else Inr (put_approval (a\<lparr>ap_status := ''cancelled'', ap_resolved_at := Some now\<rparr>) as))"

definition get_approval_stats :: "datetime \<Rightarrow> approval list \<Rightarrow> approval list \<times> nat" where
  "get_approval_stats now as =
     (let as' = expire_old_approvals now as
      in (as', length (filter (\<lambda>a. ap_status a = ''pending'') as')))"

text \<open>
  \<open>limit\<close> and \<open>offset\<close> are within the bounds the framework enforces; the result is the table
  after the expiry pass, the page and the total.
\<close>

definition list_approvals ::
    "datetime \<Rightarrow> string option \<Rightarrow> string option \<Rightarrow> bool \<Rightarrow> nat \<Rightarrow> nat \<Rightarrow> string option \<Rightarrow> approval list \<Rightarrow>
     route_error + approval list \<times> approval list \<times> nat" where
  "list_approvals now status requester_name my_pending limit offset user_id as0 =
     (let as = expire_old_approvals now as0 in
      if my_pending
      then (if \<not> truthy user_id then Inl (ApHTTP 401)
            else let pending_approvals = get_pending_approvals_for_user now (the user_id) as
                 in Inr (as, take limit (drop offset pending_approvals), length pending_approvals))
      else let selected = filter (\<lambda>a. (truthy status \<longrightarrow> Some (ap_status a) = status)
                               \<and> (truthy requester_name \<longrightarrow> Some (ap_requester_name a) = requester_name)) as
           in Inr (as, take limit (drop offset (sort_key (\<lambda>a. - ap_created_at a) selected)),
                   length selected))"

text \<open>The requests and the job.\<close>

datatype approval_request =
    CreateApproval string string "(string \<times> json) list" string "string option" int
  | CreateFromRule string approval_rule string string string string string string
      "(string \<times> json) list option" "(string \<times> json) list option"
  | VoteOnApproval string "string option" "string option" string "string option"
  | ApproveLegacy string string "string option" "string option"
  | RejectLegacy string string "string option" "string option"
  | CancelApprovalPost string "string option"
  | CancelApprovalDelete string string
  | ApprovalStats
  | ListApprovals "string option" "string option" bool nat nat "string option"
  | EscalationJob "approval_rule list"

fun approval_route :: "datetime \<times> approval_request \<Rightarrow> approval list \<Rightarrow> route_error + approval list" where
  "approval_route (now, CreateApproval u t d rn ri k) as = create_approval now u t d rn ri k as"
| "approval_route (now, CreateFromRule u rule op ri rn tt ti ds ad md) as =
     map_sum ApDbFailure id (create_approval_request now u rule op ri rn tt ti ds ad md as)"
| "approval_route (now, VoteOnApproval i uid un v c) as = vote_on_approval now i uid un v c as"
| "approval_route (now, ApproveLegacy i un uid c) as = legacy_cast_vote now i un uid c ''approve'' as"
| "approval_route (now, RejectLegacy i un uid c) as = legacy_cast_vote now i un uid c ''reject'' as"
| "approval_route (now, CancelApprovalPost i uid) as = cancel_approval_post now i uid as"
| "approval_route (now, CancelApprovalDelete i rn) as = cancel_approval_delete now i rn as"
| "approval_route (now, ApprovalStats) as = Inr (fst (get_approval_stats now as))"
| "approval_route (now, ListApprovals st rn mp l off uid) as =
     map_sum id fst (list_approvals now st rn mp l off uid as)"
| "approval_route (now, EscalationJob rules) as = Inr (process_escalations now rules as)"

section \<open>The invariant of the approval table\<close>

definition STATUSES :: "string list" where
  "STATUSES = [''pending'', ''approved'', ''rejected'', ''expired'', ''cancelled'']"

text \<open>
  No requester votes and no user votes twice: by name on every endpoint, by id when the vote
  was not cast through the legacy endpoints.
\<close>

definition four_eyes :: "approval \<Rightarrow> bool" where
  "four_eyes a \<longleftrightarrow>
     distinct (map v_user_name (ap_votes a)) \<and> ap_requester_name a \<notin> v_user_name ` set (ap_votes a)"

definition four_eyes_ids :: "approval \<Rightarrow> bool" where
  "four_eyes_ids a \<longleftrightarrow>
     distinct (map v_user_id (ap_votes a))
   \<and> (\<forall>v \<in> set (ap_votes a). v_user_id v \<noteq> None \<and> v_user_id v \<noteq> ap_requester_id a)"

fun legacy :: "approval_request \<Rightarrow> bool" where
  "legacy (ApproveLegacy i un uid c) = True"
| "legacy (RejectLegacy i un uid c) = True"
| "legacy _ = False"

definition approval_ok :: "approval \<Rightarrow> bool" where
  "approval_ok a \<longleftrightarrow>
     four_eyes a \<and> ap_status a \<in> set STATUSES
   \<and> (ap_status a = ''pending'' \<longleftrightarrow> ap_resolved_at a = None)
   \<and> (ap_status a = ''approved'' \<longrightarrow> count_votes ''approve'' (ap_votes a) \<ge> ap_required_approvers a)
   \<and> (ap_status a = ''rejected'' \<longrightarrow> count_votes ''reject'' (ap_votes a) \<ge> ap_required_approvers a)
   \<and> 0 \<le> ap_escalation_count a \<and> ap_escalation_count a \<le> MAX_ESCALATIONS"

definition approvals_inv :: "approval list \<Rightarrow> bool" where
  "approvals_inv as \<longleftrightarrow> keys_unique ap_id as \<and> (\<forall>a \<in> set as. approval_ok a)"

lemma approvals_inv_map:
  assumes "approvals_inv as" and "\<And>a. a \<in> set as \<Longrightarrow> ap_id (f a) = ap_id a \<and> approval_ok (f a)"
  shows "approvals_inv (map f as)"
proof -
  have "map ap_id (map f as) = map ap_id as" using assms(2) by simp
  with assms(1) have "keys_unique ap_id (map f as)"
    unfolding keys_unique_def approvals_inv_def by metis
  with assms(2) show ?thesis by (auto simp: approvals_inv_def)
qed

lemma approvals_inv_put:
  "approvals_inv as \<Longrightarrow> approval_ok a \<Longrightarrow> approvals_inv (put_approval a as)"
  unfolding put_approval_def by (rule approvals_inv_map) (auto simp: approvals_inv_def)

lemma approvals_inv_insert:
  "approvals_inv as \<Longrightarrow> approval_ok a \<Longrightarrow> sql_insert ap_id a as = Inr as' \<Longrightarrow> approvals_inv as'"
  by (auto simp: approvals_inv_def sql_insert_def keys_unique_def split: if_splits)

lemma sql_get_ok: "approvals_inv as \<Longrightarrow> sql_get ap_id i as = Some a \<Longrightarrow> approval_ok a"
  by (auto simp: approvals_inv_def dest: sql_get_SomeD)

lemma status_simps [simp]:
  "''pending'' \<in> set STATUSES" "''approved'' \<in> set STATUSES" "''rejected'' \<in> set STATUSES"
  "''expired'' \<in> set STATUSES" "''cancelled'' \<in> set STATUSES"
  by (simp_all add: STATUSES_def)

lemma tally_ok:
  assumes "approval_ok a" and "ap_status a = ''pending''" and "four_eyes (a\<lparr>ap_votes := vs\<rparr>)"
  shows "approval_ok (fst (tally now (a\<lparr>ap_votes := vs\<rparr>)))"
  using assms by (auto simp: tally_def approval_ok_def four_eyes_def)

lemma approval_ok_resolve:
  "approval_ok a \<Longrightarrow> st \<in> {''expired'', ''cancelled''} \<Longrightarrow>
   approval_ok (a\<lparr>ap_status := st, ap_resolved_at := Some now\<rparr>)"
  by (auto simp: approval_ok_def four_eyes_def)

text \<open>What an accepted vote did, on either path.\<close>

lemma vote_on_approval_accepted:
  assumes "vote_on_approval now i uid un v c as = Inr as'"
  obtains a u n nv where "uid = Some u" "un = Some n" "sql_get ap_id i as = Some a"
    "ap_status a = ''pending''" "ap_requester_id a \<noteq> Some u" "n \<noteq> ap_requester_name a"
    "Some u \<notin> v_user_id ` set (ap_votes a)" "n \<notin> v_user_name ` set (ap_votes a)"
    "v_user_id nv = Some u" "v_user_name nv = n"
    "as' = put_approval (fst (tally now (a\<lparr>ap_votes := ap_votes a @ [nv]\<rparr>))) as"
proof -
  from assms obtain u n vt b where t: "uid = Some u" "un = Some n" "u \<noteq> []"
    and r: "cast_vote now i u n v c False as = (as', Inr (vt, b))"
    by (cases uid; cases un)
      (auto simp: vote_on_approval_def split: if_splits prod.splits sum.splits approval_error.splits)
  then obtain a where a: "sql_get ap_id i as = Some a"
    by (auto simp: cast_vote_def split: if_splits option.splits)
  with r have "as' = put_approval (fst (tally now (a\<lparr>ap_votes := ap_votes a @ [vt]\<rparr>))) as"
    "v_user_id vt = Some u" "v_user_name vt = n"
    by (auto simp: cast_vote_def Let_def split: if_splits prod.splits)
  with a r t show thesis
    by (intro that [of u n a vt]) (auto simp: cast_vote_def split: if_splits)
qed

lemma legacy_vote_accepted:
  assumes "legacy_cast_vote now i un uid c vt as = Inr as'"
  obtains a nv where "sql_get ap_id i as = Some a" "ap_status a = ''pending''"
    "un \<noteq> ap_requester_name a" "un \<notin> v_user_name ` set (ap_votes a)" "v_user_name nv = un"
    "as' = put_approval (fst (tally now (a\<lparr>ap_votes := ap_votes a @ [nv]\<rparr>))) as"
proof -
  from assms obtain a where "sql_get ap_id i as = Some a"
    by (auto simp: legacy_cast_vote_def split: option.splits)
  with assms show thesis
    by (intro that [of a "\<lparr>v_user_id = uid, v_user_name = un, v_vote = vt, v_comment = c,
          v_is_escalation_vote = False\<rparr>"])
      (auto simp: legacy_cast_vote_def Let_def split: if_splits)
qed

lemma put_vote_inv:
  assumes inv: "approvals_inv as" and g: "sql_get ap_id i as = Some a" "ap_status a = ''pending''"
    and n: "v_user_name nv \<noteq> ap_requester_name a" "v_user_name nv \<notin> v_user_name ` set (ap_votes a)"
  shows "approvals_inv (put_approval (fst (tally now (a\<lparr>ap_votes := ap_votes a @ [nv]\<rparr>))) as)"
proof -
  from n sql_get_ok [OF inv g(1)] have "four_eyes (a\<lparr>ap_votes := ap_votes a @ [nv]\<rparr>)"
    by (auto simp: approval_ok_def four_eyes_def)
  from tally_ok [OF sql_get_ok [OF inv g(1)] g(2) this] show ?thesis
    by (rule approvals_inv_put [OF inv])
qed

lemma vote_on_approval_inv:
  "approvals_inv as \<Longrightarrow> vote_on_approval now i uid un v c as = Inr as' \<Longrightarrow> approvals_inv as'"
  by (erule vote_on_approval_accepted) (auto intro: put_vote_inv)

lemma legacy_cast_vote_inv:
  "approvals_inv as \<Longrightarrow> legacy_cast_vote now i un uid c vt as = Inr as' \<Longrightarrow> approvals_inv as'"
  by (erule legacy_vote_accepted) (auto intro: put_vote_inv)

lemma cancel_inv:
  "approvals_inv as \<Longrightarrow> sql_get ap_id i as = Some a \<Longrightarrow>
   approvals_inv (put_approval (a\<lparr>ap_status := ''cancelled'', ap_resolved_at := Some now\<rparr>) as)"
  by (rule approvals_inv_put) (auto intro: approval_ok_resolve dest: sql_get_ok)

lemma process_expired_ok:
  assumes ok: "approval_ok a" and e: "is_expired now a"
  shows "approval_ok (process_expired now MAX_ESCALATIONS rules a)"
proof -
  have "approval_ok (escalate_approval now rules a)" if "ap_escalation_count a < MAX_ESCALATIONS"
    using ok that
    by (auto simp: escalate_approval_def Let_def approval_ok_def four_eyes_def split: option.splits)
  with ok show ?thesis
    by (auto simp: process_expired_def intro: approval_ok_resolve)
qed

lemma escalate_id [simp]: "ap_id (escalate_approval now rules a) = ap_id a"
  by (simp add: escalate_approval_def Let_def split: option.splits)

lemma process_expired_id [simp]: "ap_id (process_expired now m rules a) = ap_id a"
  by (simp add: process_expired_def)

lemma process_escalations_inv: "approvals_inv as \<Longrightarrow> approvals_inv (process_escalations now rules as)"
  unfolding process_escalations_def process_expired_approvals_def fst_conv
  by (rule approvals_inv_map) (auto simp: approvals_inv_def intro: process_expired_ok)

lemma expire_old_inv: "approvals_inv as \<Longrightarrow> approvals_inv (expire_old_approvals now as)"
  unfolding expire_old_approvals_def
  by (rule approvals_inv_map) (auto simp: approvals_inv_def intro: approval_ok_resolve)

lemma create_approval_inv:
  "approvals_inv as \<Longrightarrow> create_approval now u t d rn ri k as = Inr as' \<Longrightarrow> approvals_inv as'"
  by (auto simp: create_approval_def approval_ok_def four_eyes_def MAX_ESCALATIONS_def
      elim!: approvals_inv_insert [rotated 2] split: if_splits sum.splits)

lemma create_from_rule_inv:
  "approvals_inv as \<Longrightarrow> create_approval_request now u rule op ri rn tt ti ds ad md as = Inr as' \<Longrightarrow>
   approvals_inv as'"
  by (auto simp: create_approval_request_def Let_def approval_ok_def four_eyes_def MAX_ESCALATIONS_def
      elim!: approvals_inv_insert [rotated 2])

lemma approval_route_inv:
  assumes "approvals_inv as" and "approval_route q as = Inr as'"
  shows "approvals_inv as'"
proof (cases q)
  case (Pair now req)
  note h = assms(2) [unfolded Pair]
  show ?thesis
  proof (cases req)
    case (CreateApproval u t d rn ri k)
    with h show ?thesis by (auto intro: create_approval_inv [OF assms(1)])
  next
    case (CreateFromRule u rule op ri rn tt ti ds ad md)
    with h show ?thesis
      by (cases "create_approval_request now u rule op ri rn tt ti ds ad md as")
        (auto intro: create_from_rule_inv [OF assms(1)])
  next
    case (VoteOnApproval i uid un v c)
    with h show ?thesis by (auto intro: vote_on_approval_inv [OF assms(1)])
  next
    case (ApproveLegacy i un uid c)
    with h show ?thesis by (auto intro: legacy_cast_vote_inv [OF assms(1)])
  next
    case (RejectLegacy i un uid c)
    with h show ?thesis by (auto intro: legacy_cast_vote_inv [OF assms(1)])
  next
    case (CancelApprovalPost i uid)
    with h show ?thesis
      by (auto simp: cancel_approval_post_def cancel_approval_def intro: cancel_inv [OF assms(1)]
          split: if_splits option.splits)
  next
    case (CancelApprovalDelete i rn)
    with h show ?thesis
      by (auto simp: cancel_approval_delete_def intro: cancel_inv [OF assms(1)]
          split: if_splits option.splits)
  next
    case ApprovalStats
    with h show ?thesis
      by (auto simp: get_approval_stats_def Let_def intro: expire_old_inv [OF assms(1)])
  next
    case (ListApprovals st rn mp l off uid)
    with h show ?thesis
      by (auto simp: list_approvals_def Let_def intro: expire_old_inv [OF assms(1)] split: if_splits)
  next
    case (EscalationJob rules)
    with h show ?thesis by (auto intro: process_escalations_inv [OF assms(1)])
  qed
qed

interpretation approval_api: transactional approval_route approvals_inv
  by unfold_locales (rule approval_route_inv)

section \<open>Four eyes\<close>

definition approver_names :: "approval \<Rightarrow> string set" where
  "approver_names a = set (map v_user_name (filter (\<lambda>v. v_vote v = ''approve'') (ap_votes a)))"

definition approver_ids :: "approval \<Rightarrow> string option set" where
  "approver_ids a = set (map v_user_id (filter (\<lambda>v. v_vote v = ''approve'') (ap_votes a)))"

lemma card_approvers:
  "distinct (map f (ap_votes a)) \<Longrightarrow>
   int (card (set (map f (filter (\<lambda>v. v_vote v = ''approve'') (ap_votes a)))))
     = count_votes ''approve'' (ap_votes a)"
  by (subst distinct_card) (simp_all add: count_votes_def distinct_map_filter)

text \<open>The requests other than the legacy votes also keep the votes apart by user id.\<close>

lemma four_eyes_ids_upd [simp]:
  "four_eyes_ids (a\<lparr>ap_status := st\<rparr>) = four_eyes_ids a"
  "four_eyes_ids (a\<lparr>ap_resolved_at := r\<rparr>) = four_eyes_ids a"
  "four_eyes_ids (escalate_approval now rules a) = four_eyes_ids a"
  by (auto simp: four_eyes_ids_def escalate_approval_def Let_def split: option.splits)

lemma four_eyes_ids_new [simp]: "ap_votes a = [] \<Longrightarrow> four_eyes_ids a"
  by (simp add: four_eyes_ids_def)

lemma four_eyes_ids_tally [simp]: "four_eyes_ids (fst (tally now a)) = four_eyes_ids a"
  by (simp add: tally_def)

lemma four_eyes_ids_put:
  "\<forall>a \<in> set as. four_eyes_ids a \<Longrightarrow> four_eyes_ids a \<Longrightarrow> \<forall>a \<in> set (put_approval a as). four_eyes_ids a"
  by (auto simp: put_approval_def)

lemma four_eyes_ids_cancel:
  "\<forall>a \<in> set as. four_eyes_ids a \<Longrightarrow> sql_get ap_id i as = Some a \<Longrightarrow>
   \<forall>a \<in> set (put_approval (a\<lparr>ap_status := st, ap_resolved_at := r\<rparr>) as). four_eyes_ids a"
  by (rule four_eyes_ids_put) (auto dest: sql_get_SomeD)

lemma four_eyes_ids_vote:
  assumes "\<forall>a \<in> set as. four_eyes_ids a" and "vote_on_approval now i uid un v c as = Inr as'"
  shows "\<forall>a \<in> set as'. four_eyes_ids a"
  using assms(2)
proof (rule vote_on_approval_accepted)
  fix a u n nv
  assume g: "sql_get ap_id i as = Some a" "ap_requester_id a \<noteq> Some u"
    "Some u \<notin> v_user_id ` set (ap_votes a)" "v_user_id nv = Some u"
    and as': "as' = put_approval (fst (tally now (a\<lparr>ap_votes := ap_votes a @ [nv]\<rparr>))) as"
  from assms(1) g have "four_eyes_ids (a\<lparr>ap_votes := ap_votes a @ [nv]\<rparr>)"
    by (auto simp: four_eyes_ids_def dest!: sql_get_SomeD)
  then show ?thesis unfolding as' using assms(1) by (intro four_eyes_ids_put) simp_all
qed

lemma approval_route_ids:
  assumes "\<forall>a \<in> set as. four_eyes_ids a" and "approval_route q as = Inr as'" and "\<not> legacy (snd q)"
  shows "\<forall>a \<in> set as'. four_eyes_ids a"
proof (cases q)
  case (Pair now req)
  note h = assms(2) [unfolded Pair]
  show ?thesis
  proof (cases req)
    case (VoteOnApproval i uid un v c)
    with h show ?thesis by (auto dest: four_eyes_ids_vote [OF assms(1)])
  next
    case (CancelApprovalPost i uid)
    with h show ?thesis
      using four_eyes_ids_cancel [OF assms(1)]
      by (auto simp: cancel_approval_post_def cancel_approval_def split: if_splits option.splits)
  next
    case (CancelApprovalDelete i rn)
    with h show ?thesis
      using four_eyes_ids_cancel [OF assms(1)]
      by (auto simp: cancel_approval_delete_def split: if_splits option.splits)
  qed (use h assms Pair in \<open>auto simp: create_approval_def create_approval_request_def Let_def
      sql_insert_def get_approval_stats_def expire_old_approvals_def list_approvals_def
      process_escalations_def process_expired_approvals_def process_expired_def
      split: if_splits sum.splits\<close>)
qed

text \<open>
  C5: The four-eye principle. Whatever requests are served and whenever the escalation job runs,
  an approved request carries approving votes of at least \<open>required_approvers\<close> different user
  names, none of them the requester's; and when no vote came through the legacy endpoints,
  approving votes of at least as many different authenticated user ids, none of them the
  requester's.
\<close>

theorem four_eye_principle:
  assumes "a \<in> set (serve approval_route reqs [])" and "ap_status a = ''approved''"
  shows "ap_required_approvers a \<le> int (card (approver_names a))
       \<and> ap_requester_name a \<notin> approver_names a
       \<and> ((\<forall>q \<in> set reqs. \<not> legacy (snd q)) \<longrightarrow>
            ap_required_approvers a \<le> int (card (approver_ids a))
          \<and> None \<notin> approver_ids a \<and> ap_requester_id a \<notin> approver_ids a)"
proof -
  have start: "approvals_inv []" by (simp add: approvals_inv_def keys_unique_def)
  from approval_api.serve_inv [OF start, of reqs] assms(1) have ok: "approval_ok a"
    by (simp add: approvals_inv_def)
  have ids: "four_eyes_ids a" if nl: "\<forall>q \<in> set reqs. \<not> legacy (snd q)"
  proof -
    have "\<forall>a \<in> set (serve approval_route reqs []). four_eyes_ids a"
      by (rule approval_api.serve_preserves [OF start]) (use nl in \<open>auto dest: approval_route_ids\<close>)
    with assms(1) show ?thesis by simp
  qed
  have "distinct (map v_user_name (ap_votes a))" "ap_requester_name a \<notin> approver_names a"
    using ok by (auto simp: approval_ok_def four_eyes_def approver_names_def)
  moreover have "distinct (map v_user_id (ap_votes a)) \<and> None \<notin> approver_ids a
      \<and> ap_requester_id a \<notin> approver_ids a" if "\<forall>q \<in> set reqs. \<not> legacy (snd q)"
    using ids [OF that] by (auto simp: four_eyes_ids_def approver_ids_def)
  moreover have "ap_required_approvers a \<le> count_votes ''approve'' (ap_votes a)"
    using ok assms(2) by (simp add: approval_ok_def)
  ultimately show ?thesis
    using card_approvers [of v_user_name a] card_approvers [of v_user_id a]
    by (auto simp: approver_names_def approver_ids_def)
qed

theorem four_eye_principle_witness:
  "let reqs = [(0, CreateApproval ''a1'' ''bulk_wipe'' [] ''alice'' (Some ''u1'') 2),
               (1, VoteOnApproval ''a1'' (Some ''u1'') (Some ''alice2'') ''approve'' None),
               (2, VoteOnApproval ''a1'' (Some ''u2'') (Some ''bob'') ''approve'' None),
               (3, VoteOnApproval ''a1'' (Some ''u2'') (Some ''bobby'') ''approve'' None),
               (4, VoteOnApproval ''a1'' (Some ''u3'') (Some ''carol'') ''approve'' None)];
       a = hd (serve approval_route reqs [])
   in length (serve approval_route reqs []) = 1 \<and> ap_status a = ''approved''
      \<and> approver_ids a = {Some ''u2'', Some ''u3''}
      \<and> ap_required_approvers a \<le> int (card (approver_ids a))"
  using four_eye_principle
    [where reqs = "[(0, CreateApproval ''a1'' ''bulk_wipe'' [] ''alice'' (Some ''u1'') 2),
               (1, VoteOnApproval ''a1'' (Some ''u1'') (Some ''alice2'') ''approve'' None),
               (2, VoteOnApproval ''a1'' (Some ''u2'') (Some ''bob'') ''approve'' None),
               (3, VoteOnApproval ''a1'' (Some ''u2'') (Some ''bobby'') ''approve'' None),
               (4, VoteOnApproval ''a1'' (Some ''u3'') (Some ''carol'') ''approve'' None)]"]
  by (simp add: Let_def get_db_def create_approval_def VALID_ACTION_TYPES_def sql_insert_def
      vote_on_approval_def cast_vote_def sql_get_def tally_def count_votes_def put_approval_def
      APPROVAL_EXPIRY_HOURS_def approver_ids_def del: set_map set_filter)

section \<open>Resolved requests are final\<close>

lemma sql_get_map:
  "(\<And>x. x \<in> set t \<Longrightarrow> key (f x) = key x) \<Longrightarrow> sql_get key k (map f t) = map_option f (sql_get key k t)"
  by (induction t) (auto simp: sql_get_def)

lemma sql_get_put_approval:
  "sql_get ap_id i (put_approval b as) =
     map_option (\<lambda>x. if ap_id x = ap_id b then b else x) (sql_get ap_id i as)"
  unfolding put_approval_def by (rule sql_get_map) simp

text \<open>A write that replaces a pending row leaves every resolved row alone.\<close>

lemma put_keeps_resolved:
  assumes "sql_get ap_id i as = Some a" and "ap_status a \<noteq> ''pending''"
    and "sql_get ap_id j as = Some b" and "ap_status b = ''pending''" and "ap_id b' = ap_id b"
  shows "sql_get ap_id i (put_approval b' as) = Some a"
proof -
  from assms(1,3) have "ap_id a = i" "ap_id b = j" by (auto dest: sql_get_SomeD)
  moreover from assms have "i \<noteq> j" by auto
  ultimately show ?thesis using assms by (simp add: sql_get_put_approval)
qed

lemma insert_keeps: "sql_insert ap_id r as = Inr as' \<Longrightarrow> sql_get ap_id i as = Some a \<Longrightarrow> sql_get ap_id i as' = Some a"
  by (auto simp: sql_insert_def sql_get_def find_append split: if_splits)

lemma tally_id [simp]: "ap_id (fst (tally now a)) = ap_id a"
  by (simp add: tally_def)

lemma expiry_keeps_resolved:
  assumes "sql_get ap_id i as = Some a" and "ap_status a \<noteq> ''pending''"
  shows "sql_get ap_id i (expire_old_approvals now as) = Some a"
    and "sql_get ap_id i (process_escalations now rules as) = Some a"
  using assms
  by (simp_all add: expire_old_approvals_def process_escalations_def process_expired_approvals_def
      sql_get_map is_expired_def)

lemma approval_route_keeps_resolved:
  assumes a: "sql_get ap_id i as = Some a" "ap_status a \<noteq> ''pending''"
    and h: "approval_route q as = Inr as'"
  shows "sql_get ap_id i as' = Some a"
proof (cases q)
  case (Pair now req)
  note h = h [unfolded Pair]
  note keep = put_keeps_resolved [OF a]
  show ?thesis
  proof (cases req)
    case (CreateFromRule u rule op ri rn tt ti ds ad md)
    with h show ?thesis
      by (cases "create_approval_request now u rule op ri rn tt ti ds ad md as")
        (auto simp: create_approval_request_def Let_def intro: insert_keeps [OF _ a(1)])
  next
    case (VoteOnApproval j uid un v c)
    with h have "vote_on_approval now j uid un v c as = Inr as'" by simp
    then show ?thesis by (rule vote_on_approval_accepted) (auto intro: keep)
  next
    case (ApproveLegacy j un uid c)
    with h have "legacy_cast_vote now j un uid c ''approve'' as = Inr as'" by simp
    then show ?thesis by (rule legacy_vote_accepted) (auto intro: keep)
  next
    case (RejectLegacy j un uid c)
    with h have "legacy_cast_vote now j un uid c ''reject'' as = Inr as'" by simp
    then show ?thesis by (rule legacy_vote_accepted) (auto intro: keep)
  next
    case (CancelApprovalPost j uid)
    with h show ?thesis
      by (auto simp: cancel_approval_post_def cancel_approval_def intro: keep split: if_splits option.splits)
  next
    case (CancelApprovalDelete j rn)
    with h show ?thesis
      by (auto simp: cancel_approval_delete_def intro: keep split: if_splits option.splits)
  qed (use h expiry_keeps_resolved [OF a] in \<open>auto simp: create_approval_def get_approval_stats_def
      list_approvals_def Let_def intro: insert_keeps [OF _ a(1)] split: if_splits sum.splits\<close>)
qed

lemma serve_keeps_resolved:
  assumes "approvals_inv as" "sql_get ap_id i as = Some a" "ap_status a \<noteq> ''pending''"
  shows "sql_get ap_id i (serve approval_route qs as) = Some a"
  by (rule approval_api.serve_preserves [of _ "\<lambda>t. sql_get ap_id i t = Some a", OF assms(1,2)])
    (use assms(3) in \<open>auto intro: approval_route_keeps_resolved\<close>)

lemma approvals_reachable_inv: "approvals_inv (serve approval_route rs [])"
  by (rule approval_api.serve_inv) (simp add: approvals_inv_def keys_unique_def)



section \<open>The legacy endpoints\<close>

text \<open>
  The legacy endpoint checks names only: a requester who gives another name, with his own
  user id in the body, approves his own request.
\<close>

theorem legacy_vote_self_approval:
  assumes "sql_get ap_id i as = Some a" and "ap_status a = ''pending''"
    and "ap_requester_id a = Some u" and "ap_required_approvers a = 1"
    and "n \<noteq> ap_requester_name a" and "n \<notin> v_user_name ` set (ap_votes a)"
    and "now \<le> ap_expires_at a"
  shows "\<exists>b. sql_get ap_id i (get_db approval_route (now, ApproveLegacy i n (Some u) c) as) = Some b
       \<and> ap_status b = ''approved'' \<and> ap_requester_id b = Some u \<and> Some u \<in> approver_ids b"
proof -
  from assms have "\<not> (\<exists>v \<in> set (ap_votes a). v_user_name v = n)" by auto
  with assms show ?thesis
    by (auto simp: get_db_def legacy_cast_vote_def sql_get_put_approval tally_def count_votes_def
        approver_ids_def Let_def image_iff)
qed

theorem legacy_vote_self_approval_witness:
  "let a = the (sql_get ap_id ''a1'' (get_db approval_route (1, ApproveLegacy ''a1'' ''mallory'' (Some ''u1'') None)
             (serve approval_route [(0, CreateApproval ''a1'' ''bulk_wipe'' [] ''alice'' (Some ''u1'') 1)] [])))
   in ap_status a = ''approved'' \<and> ap_requester_id a = Some ''u1'' \<and> Some ''u1'' \<in> approver_ids a"
  using legacy_vote_self_approval [where i = "''a1''" and u = "''u1''" and n = "''mallory''" and now = 1 and c = None
      and as = "serve approval_route [(0, CreateApproval ''a1'' ''bulk_wipe'' [] ''alice'' (Some ''u1'') 1)] []"]
  by (auto simp: get_db_def create_approval_def VALID_ACTION_TYPES_def sql_insert_def sql_get_def
      APPROVAL_EXPIRY_HOURS_def)


section \<open>Expiry and escalation\<close>

text \<open>
  A vote on an expired request is refused and leaves no trace: the row is marked expired
  before the exception, and the rollback of the request takes the mark back, so the request
  stays pending in the database.
\<close>

theorem expired_vote_rolled_back:
  assumes "sql_get ap_id i as = Some a" and "is_expired now a"
    and "v \<in> {''approve'', ''reject''}"
  shows "sql_get ap_id i (fst (cast_vote now i u n v c False as))
           = Some (a\<lparr>ap_status := ''expired'', ap_resolved_at := Some now\<rparr>)
       \<and> (u \<noteq> [] \<longrightarrow> n \<noteq> [] \<longrightarrow>
            approval_route (now, VoteOnApproval i (Some u) (Some n) v c) as = Inl (ApHTTP 400))
       \<and> get_db approval_route (now, VoteOnApproval i (Some u) (Some n) v c) as = as"
proof -
  have "ap_id a = i" using assms(1) by (auto dest: sql_get_SomeD)
  with assms show ?thesis
    by (auto simp: is_expired_def cast_vote_def vote_on_approval_def sql_get_put_approval get_db_def)
qed

theorem expired_vote_rolled_back_witness:
  "let as = serve approval_route [(0, CreateApproval ''a1'' ''bulk_wipe'' [] ''alice'' (Some ''u1'') 1)] []
   in get_db approval_route (hours 25, VoteOnApproval ''a1'' (Some ''u2'') (Some ''bob'') ''approve'' None) as = as"
  using expired_vote_rolled_back [where i = "''a1''" and now = "hours 25" and u = "''u2''" and n = "''bob''"
      and v = "''approve''" and c = None
      and as = "serve approval_route [(0, CreateApproval ''a1'' ''bulk_wipe'' [] ''alice'' (Some ''u1'') 1)] []"]
  by (simp add: get_db_def create_approval_def VALID_ACTION_TYPES_def sql_insert_def sql_get_def
      APPROVAL_EXPIRY_HOURS_def is_expired_def)

text \<open>
  Reading the statistics takes escalation away. A request whose time is over when the
  statistics (or the list) are read is expired for good with the escalation count it had, even
  if no escalation had taken place and whatever is served afterwards.
\<close>

theorem stats_preempt_escalation:
  assumes "sql_get ap_id i (serve approval_route rs []) = Some a" and "is_expired now a"
  shows "sql_get ap_id i (serve approval_route (rs @ (now, ApprovalStats) # qs) [])
       = Some (a\<lparr>ap_status := ''expired'', ap_resolved_at := Some now\<rparr>)"
proof -
  let ?as = "serve approval_route (rs @ [(now, ApprovalStats)]) []"
  have "sql_get ap_id i ?as = Some (a\<lparr>ap_status := ''expired'', ap_resolved_at := Some now\<rparr>)"
    using assms
    by (simp add: serve_append get_db_def get_approval_stats_def Let_def expire_old_approvals_def sql_get_map)
  from serve_keeps_resolved [OF approvals_reachable_inv this, of qs] show ?thesis
    by (simp add: serve_append)
qed

theorem stats_preempt_escalation_witness:
  "map_option (\<lambda>a. (ap_status a, ap_escalation_count a)) (sql_get ap_id ''a1''
     (serve approval_route ([(0, CreateApproval ''a1'' ''bulk_wipe'' [] ''alice'' (Some ''u1'') 1)]
        @ (hours 25, ApprovalStats) # [(hours 26, EscalationJob [])]) [])) = Some (''expired'', 0)"
  using stats_preempt_escalation [where i = "''a1''" and now = "hours 25"
      and rs = "[(0, CreateApproval ''a1'' ''bulk_wipe'' [] ''alice'' (Some ''u1'') 1)]"
      and qs = "[(hours 26, EscalationJob [])]"]
  by (simp add: get_db_def create_approval_def VALID_ACTION_TYPES_def sql_insert_def sql_get_def
      APPROVAL_EXPIRY_HOURS_def is_expired_def)










section \<open>Choosing the rule\<close>

lemma find_sort_key_Some:
  assumes "find P (sort_key k xs) = Some x"
  shows "x \<in> set xs \<and> P x \<and> (\<forall>y \<in> set xs. P y \<longrightarrow> k x \<le> k y)"
proof -
  let ?ys = "sort_key k xs"
  obtain n where n: "n < length ?ys" "P (?ys ! n)" "x = ?ys ! n" "\<forall>j < n. \<not> P (?ys ! j)"
    using assms by (auto simp: find_Some_iff)
  have "k x \<le> k y" if y: "y \<in> set xs" "P y" for y
  proof -
    from y(1) obtain m where m: "m < length ?ys" "?ys ! m = y"
      by (metis in_set_conv_nth set_sort)
    with n(4) y(2) have "n \<le> m" using not_less by blast
    have "sorted (map k ?ys)" by simp
    from sorted_nth_mono [OF this \<open>n \<le> m\<close>] m(1) have "map k ?ys ! n \<le> map k ?ys ! m"
      by simp
    with m n(1,3) show ?thesis by simp
  qed
  moreover have "x \<in> set xs" using nth_mem [OF n(1)] n(3) by simp
  ultimately show ?thesis using n(2,3) by simp
qed

lemma operation_matches_pattern_iff:
  "operation_matches_pattern op p \<longleftrightarrow>
     p = ''*'' \<or> p = op \<or> (\<exists>q r. p = q @ ''.*'' \<and> op = q @ ''.'' @ r)"
  by (auto simp: operation_matches_pattern_def endswith_iff startswith_iff)

lemma operation_matches_ex: "operation_matches op ps \<longleftrightarrow> (\<exists>p \<in> set ps. operation_matches_pattern op p)"
  by (induction ps) auto

lemma operation_matches_iff:
  "operation_matches op ps \<longleftrightarrow>
     (\<exists>p \<in> set ps. p = ''*'' \<or> p = op \<or> (\<exists>q r. p = q @ ''.*'' \<and> op = q @ ''.'' @ r))"
  unfolding operation_matches_ex operation_matches_pattern_iff ..

text \<open>
  \<open>find_matching_rule\<close> returns an active rule whose operations name the operation (itself,
  the wildcard, or a prefix \<open>p.*\<close> of it) and whose scope fits the request, of the highest
  priority among all such rules, whatever their scopes; it returns none exactly when there is no
  such rule.
\<close>

theorem find_matching_rule_correct:
  "case find_matching_rule members rules op u dg of
     None \<Rightarrow> \<not> (\<exists>r \<in> set rules. ru_is_active r
               \<and> rule_applies op (map snd (filter (\<lambda>m. fst m = u) members)) dg r)
   | Some r \<Rightarrow> r \<in> set rules \<and> ru_is_active r
       \<and> (\<exists>ps. ru_operations r = Some ps
            \<and> (\<exists>p \<in> set ps. p = ''*'' \<or> p = op \<or> (\<exists>q t. p = q @ ''.*'' \<and> op = q @ ''.'' @ t)))
       \<and> (ru_scope_type r = ''global''
          \<or> ru_scope_type r = ''device_group'' \<and> truthy dg \<and> ru_scope_id r = dg
          \<or> ru_scope_type r = ''user_group'' \<and> (\<exists>g. ru_scope_id r = Some g \<and> (u, g) \<in> set members))
       \<and> (\<forall>r' \<in> set rules. ru_is_active r'
            \<and> rule_applies op (map snd (filter (\<lambda>m. fst m = u) members)) dg r'
            \<longrightarrow> ru_priority r' \<le> ru_priority r)"
proof (cases "find_matching_rule members rules op u dg")
  case None
  then have "\<not> (\<exists>r \<in> set rules. ru_is_active r
      \<and> rule_applies op (map snd (filter (\<lambda>m. fst m = u) members)) dg r)"
    by (auto simp: find_matching_rule_def find_None_iff)
  with None show ?thesis by simp
next
  case (Some r)
  let ?gs = "map snd (filter (\<lambda>m. fst m = u) members)"
  from find_sort_key_Some [OF Some [unfolded find_matching_rule_def Let_def]]
  have r: "r \<in> set rules" "ru_is_active r" "rule_applies op ?gs dg r"
    and best: "\<forall>r' \<in> set rules. ru_is_active r' \<and> rule_applies op ?gs dg r' \<longrightarrow> ru_priority r' \<le> ru_priority r"
    by auto
  from r(3) obtain ps where ps: "ru_operations r = Some ps" "operation_matches op ps" "scope_matches ?gs dg r"
    by (auto simp: rule_applies_def split: option.splits)
  from ps(3) have "ru_scope_type r = ''global''
      \<or> ru_scope_type r = ''device_group'' \<and> truthy dg \<and> ru_scope_id r = dg
      \<or> ru_scope_type r = ''user_group'' \<and> (\<exists>g. ru_scope_id r = Some g \<and> (u, g) \<in> set members)"
    by (auto simp: scope_matches_def split: if_splits)
  with r best ps(1,2) Some show ?thesis by (simp add: operation_matches_iff)
qed

theorem find_matching_rule_correct_witness:
  "let g = \<lparr>ru_id = ''g'', ru_name = ''all'', ru_scope_type = ''global'', ru_scope_id = None,
           ru_operations = Some [''*''], ru_required_approvers = 1, ru_escalation_timeout_hours = 24,
           ru_is_active = True, ru_priority = 5\<rparr>;
       d = g\<lparr>ru_id := ''d'', ru_scope_type := ''device_group'', ru_scope_id := Some ''prod'', ru_priority := 1\<rparr>
   in find_matching_rule [] [d, g] ''node.wipe'' ''u1'' (Some ''prod'') = Some g
      \<and> rule_applies ''node.wipe'' [] (Some ''prod'') d \<and> ru_priority d \<le> ru_priority g"
  using find_matching_rule_correct [where members = "[]" and op = "''node.wipe''" and u = "''u1''"
      and dg = "Some ''prod''"
      and rules = "let g = \<lparr>ru_id = ''g'', ru_name = ''all'', ru_scope_type = ''global'', ru_scope_id = None,
           ru_operations = Some [''*''], ru_required_approvers = 1, ru_escalation_timeout_hours = 24,
           ru_is_active = True, ru_priority = 5\<rparr>
         in [g\<lparr>ru_id := ''d'', ru_scope_type := ''device_group'', ru_scope_id := Some ''prod'', ru_priority := 1\<rparr>, g]"]
  by (simp add: Let_def find_matching_rule_def sort_key_def rule_applies_def scope_matches_def
      operation_matches_pattern_def)

section \<open>What a user is offered to vote on\<close>

text \<open>
  The list of requests awaiting a user's vote is exact: a request is listed if and only if
  \<open>check_user_can_approve\<close> lets the user vote on it; every vote that the vote endpoint accepts
  was on a listed request; and a vote on a listed request is accepted unless the user's name is
  the requester's or already voted.
\<close>

theorem pending_list_exact:
  assumes "a \<in> set (serve approval_route rs [])" and "u \<noteq> []" and "n \<noteq> []"
  shows "(a \<in> set (get_pending_approvals_for_user now u (serve approval_route rs []))
           \<longleftrightarrow> fst (check_user_can_approve now (ap_id a) u (serve approval_route rs [])))
       \<and> ((\<exists>as'. vote_on_approval now (ap_id a) (Some u) (Some n) ''approve'' c (serve approval_route rs []) = Inr as')
           \<longleftrightarrow> a \<in> set (get_pending_approvals_for_user now u (serve approval_route rs []))
             \<and> n \<noteq> ap_requester_name a \<and> n \<notin> v_user_name ` set (ap_votes a))"
proof -
  let ?as = "serve approval_route rs []"
  have "keys_unique ap_id ?as"
    using approvals_reachable_inv [of rs] by (simp add: approvals_inv_def)
  then have g: "sql_get ap_id (ap_id a) ?as = Some a"
    using assms(1) by (rule sql_get_in_set)
  show ?thesis
    using assms g
    by (auto simp: get_pending_approvals_for_user_def check_user_can_approve_def vote_on_approval_def
        cast_vote_def Let_def split: prod.splits)
qed

theorem pending_list_exact_witness:
  "let as = serve approval_route [(0, CreateApproval ''a1'' ''bulk_wipe'' [] ''alice'' (Some ''u1'') 1)] []
   in hd as \<in> set (get_pending_approvals_for_user 1 ''u2'' as)
      \<and> fst (check_user_can_approve 1 ''a1'' ''u2'' as)
      \<and> \<not> fst (check_user_can_approve 1 ''a1'' ''u1'' as)"
  using pending_list_exact [where u = "''u2''" and n = "''bob''" and now = 1 and c = None
      and rs = "[(0, CreateApproval ''a1'' ''bulk_wipe'' [] ''alice'' (Some ''u1'') 1)]"]
  by (simp add: get_db_def create_approval_def VALID_ACTION_TYPES_def sql_insert_def sql_get_def
      APPROVAL_EXPIRY_HOURS_def check_user_can_approve_def)


end
