(* ===== verification/Connectivity.thy ===== *)
theory Connectivity
  imports Prelude
begin

text \<open>
  The site agent's connectivity monitor, src/src/agent/connectivity.py. The HTTP check itself is
  an input: a run is the sequence of check results with their times. \<open>update_state\<close> returns the
  new state and the values the listeners were called with.
\<close>

record monitor =
  m_is_online :: bool
  m_last_online_at :: "datetime option"
  m_offline_since :: "datetime option"
  m_consecutive_failures :: nat
  m_consecutive_successes :: nat

definition init_monitor :: monitor where
  "init_monitor = \<lparr>m_is_online = True, m_last_online_at = None, m_offline_since = None,
     m_consecutive_failures = 0, m_consecutive_successes = 0\<rparr>"

definition offline_duration :: "datetime \<Rightarrow> monitor \<Rightarrow> int option" where
  "offline_duration now m =
     (if m_is_online m then None
      else case m_offline_since m of None \<Rightarrow> None | Some t \<Rightarrow> Some (now - t))"

definition offline_duration_seconds :: "datetime \<Rightarrow> monitor \<Rightarrow> int" where
  "offline_duration_seconds now m =
     (case offline_duration now m of None \<Rightarrow> 0
      | Some d \<Rightarrow> (if d \<ge> 0 then d div seconds 1 else - ((- d) div seconds 1)))"

section \<open>Listeners\<close>

definition add_listener :: "'l \<Rightarrow> 'l list \<Rightarrow> 'l list" where
  "add_listener cb ls = ls @ [cb]"

definition remove_listener :: "'l \<Rightarrow> 'l list \<Rightarrow> 'l list" where
  "remove_listener cb ls = (if cb \<in> set ls then remove1 cb ls else ls)"

text \<open>
  Every listener is called in turn; one that raises is logged and does not stop the others. The
  result is the sequence of calls.
\<close>

definition notify_listeners :: "bool \<Rightarrow> 'l list \<Rightarrow> ('l \<times> bool) list" where
  "notify_listeners b ls = map (\<lambda>l. (l, b)) ls"

section \<open>State updates\<close>

definition update_state ::
    "int \<Rightarrow> 'l list \<Rightarrow> datetime \<Rightarrow> bool \<Rightarrow> monitor \<Rightarrow> monitor \<times> ('l \<times> bool) list" where
  "update_state failure_threshold ls now check_result m =
     (if check_result
      then let m1 = m\<lparr>m_consecutive_failures := 0,
                      m_consecutive_successes := m_consecutive_successes m + 1,
                      m_last_online_at := Some now\<rparr>
           in (if \<not> m_is_online m1
               then (m1\<lparr>m_is_online := True, m_offline_since := None\<rparr>, notify_listeners True ls)
               else (m1, []))
      else let m1 = m\<lparr>m_consecutive_successes := 0,
                      m_consecutive_failures := m_consecutive_failures m + 1\<rparr>
           in (if m_is_online m1 \<and> int (m_consecutive_failures m1) \<ge> failure_threshold
               then (m1\<lparr>m_is_online := False, m_offline_since := Some now\<rparr>, notify_listeners False ls)
               else (m1, [])))"

text \<open>\<open>start\<close> before its first check, and the loop: one update per check.\<close>

definition monitor_start :: "datetime \<Rightarrow> monitor \<Rightarrow> monitor" where
  "monitor_start now m = m\<lparr>m_last_online_at := Some now\<rparr>"

fun run_loop ::
    "int \<Rightarrow> 'l list \<Rightarrow> (datetime \<times> bool) list \<Rightarrow> monitor \<Rightarrow> monitor \<times> ('l \<times> bool) list" where
  "run_loop th ls [] m = (m, [])"
| "run_loop th ls ((now, r) # cs) m =
     (case update_state th ls now r m of (m1, calls) \<Rightarrow>
        case run_loop th ls cs m1 of (m2, calls') \<Rightarrow> (m2, calls @ calls'))"

definition force_check :: "int \<Rightarrow> 'l list \<Rightarrow> datetime \<Rightarrow> bool \<Rightarrow> monitor \<Rightarrow> monitor \<times> bool" where
  "force_check th ls now result m = (let m' = fst (update_state th ls now result m) in (m', m_is_online m'))"

section \<open>Behaviour\<close>

text \<open>The failures since the last success, and the threshold the code applies in effect.\<close>

definition trailing_failures :: "bool list \<Rightarrow> nat" where
  "trailing_failures rs = length (takeWhile Not (rev rs))"

abbreviation eff_threshold :: "int \<Rightarrow> nat" where
  "eff_threshold th \<equiv> max 1 (nat th)"

lemma trailing_snoc [simp]:
  "trailing_failures (rs @ [True]) = 0"
  "trailing_failures (rs @ [False]) = Suc (trailing_failures rs)"
  "trailing_failures [] = 0"
  by (simp_all add: trailing_failures_def)

lemma run_loop_append:
  "run_loop th ls (cs @ ds) m =
     (case run_loop th ls cs m of (m1, c1) \<Rightarrow> case run_loop th ls ds m1 of (m2, c2) \<Rightarrow> (m2, c1 @ c2))"
  by (induction cs arbitrary: m) (auto split: prod.splits)

text \<open>The invariant of a run: the counters and the status as functions of the results so far.\<close>

definition monitor_inv :: "int \<Rightarrow> bool list \<Rightarrow> monitor \<Rightarrow> bool" where
  "monitor_inv th rs m \<longleftrightarrow>
     m_consecutive_failures m = trailing_failures rs
   \<and> (m_is_online m \<longleftrightarrow> trailing_failures rs < eff_threshold th)
   \<and> (m_is_online m \<longleftrightarrow> m_offline_since m = None)"

lemma update_state_inv:
  assumes "monitor_inv th rs m"
  shows "monitor_inv th (rs @ [r]) (fst (update_state th ls now r m))"
  using assms by (cases r) (auto simp: update_state_def monitor_inv_def Let_def max_def)

lemma run_loop_inv:
  assumes "monitor_inv th [] m"
  shows "monitor_inv th (map snd cs) (fst (run_loop th ls cs m))"
proof (induction cs rule: rev_induct)
  case (snoc c cs)
  obtain now r where c: "c = (now, r)" by (cases c)
  show ?case
    using update_state_inv [OF snoc, of r ls now]
    by (simp add: run_loop_append c split: prod.splits) (metis fst_conv)
qed (use assms in simp)

lemma init_monitor_inv: "monitor_inv th [] (monitor_start t0 init_monitor)"
  by (auto simp: monitor_inv_def monitor_start_def init_monitor_def)

text \<open>Alternating notifications: each is the opposite of the one before, the first is \<open>False\<close>.\<close>

fun alternating :: "bool \<Rightarrow> bool list \<Rightarrow> bool" where
  "alternating b [] = True"
| "alternating b (x # xs) \<longleftrightarrow> x = (\<not> b) \<and> alternating x xs"

lemma alternating_append:
  "alternating b (xs @ ys) \<longleftrightarrow> alternating b xs \<and> alternating (last (b # xs)) ys"
  by (induction xs arbitrary: b) auto

lemma run_loop_notifications:
  "alternating (m_is_online m) (map snd (snd (run_loop th [l] cs m)))
   \<and> last (m_is_online m # map snd (snd (run_loop th [l] cs m))) = m_is_online (fst (run_loop th [l] cs m))"
proof (induction th "[l]" cs m rule: run_loop.induct)
  case (2 th now r cs m)
  then show ?case
    by (cases r) (auto simp: update_state_def Let_def notify_listeners_def split: prod.splits)
qed simp

lemma run_loop_calls:
  "snd (run_loop th ls cs m) = concat (map (\<lambda>b. notify_listeners b ls) (map snd (snd (run_loop th [()] cs m))))
   \<and> fst (run_loop th ls cs m) = fst (run_loop th [()] cs m)"
proof (induction cs arbitrary: m)
  case (Cons c cs)
  obtain now r where "c = (now, r)" by (cases c)
  with Cons show ?case
    by (cases r) (simp_all add: update_state_def Let_def notify_listeners_def [of _ "[()]"] case_prod_beta)
qed simp

text \<open>
  The monitor reports the agent offline exactly while the checks since the last success have
  all failed and their number has reached the threshold (at least one): one success restores the
  connection at once. \<open>offline_since\<close> is set exactly while offline.
\<close>

theorem online_iff_recent_success:
  "(m_is_online (fst (run_loop th ls cs (monitor_start t0 init_monitor)))
      \<longleftrightarrow> trailing_failures (map snd cs) < max 1 (nat th))
   \<and> (m_offline_since (fst (run_loop th ls cs (monitor_start t0 init_monitor))) = None
      \<longleftrightarrow> trailing_failures (map snd cs) < max 1 (nat th))"
  using run_loop_inv [OF init_monitor_inv, of th cs ls t0] by (auto simp: monitor_inv_def)

text \<open>
  Listeners see every change and nothing else: in any run the changes announced alternate,
  starting with offline, the last one is the current status, and every listener is called for
  each of them in the order of registration.
\<close>

theorem listeners_see_changes:
  "\<exists>changes. alternating True changes
     \<and> last (True # changes) = m_is_online (fst (run_loop th ls cs (monitor_start t0 init_monitor)))
     \<and> snd (run_loop th ls cs (monitor_start t0 init_monitor)) = concat (map (\<lambda>b. map (\<lambda>l. (l, b)) ls) changes)"
proof -
  let ?m = "monitor_start t0 init_monitor"
  have "m_is_online ?m" by (simp add: monitor_start_def init_monitor_def)
  with run_loop_notifications [of ?m th "()" cs] run_loop_calls [of th ls cs ?m] show ?thesis
    by (intro exI [of _ "map snd (snd (run_loop th [()] cs ?m))"]) (auto simp: notify_listeners_def)
qed

end
