(* ===== verification/StateCache.thy ===== *)
theory StateCache
  imports Prelude
begin

text \<open>
  The site agent's cache of node states, src/src/agent/cache/state_cache.py: one SQLite table
  keyed by MAC address. Values that arrive from the central controller as JSON are checked by
  the \<open>CachedNode\<close> model (pydantic), so \<open>set_node\<close> takes them as JSON and raises what the code
  raises. Timestamps are ISO texts in UTC in the database; their text order is the order of the
  instants, so they are instants here.
\<close>

section \<open>Rows and errors\<close>

record cached_node =
  cn_mac_address :: string
  cn_node_id :: "string option"
  cn_state :: string
  cn_workflow_id :: "string option"
  cn_group_id :: "string option"
  cn_ip_address :: "string option"
  cn_vendor :: "string option"
  cn_model :: "string option"
  cn_cached_at :: datetime
  cn_expires_at :: datetime
  cn_raw_data :: "(string \<times> json) list"

datatype agent_error =
    PyValueError
  | ValidationError
  | AttributeError
  | TransportError string
  | QueueDbError sql_error

definition cn_is_expired :: "datetime \<Rightarrow> cached_node \<Rightarrow> bool" where
  "cn_is_expired now n \<longleftrightarrow> now > cn_expires_at n"


text \<open>\<open>int()\<close> truncates towards zero, and a negative remainder is cut off at zero anyway.\<close>

definition ttl_seconds :: "datetime \<Rightarrow> cached_node \<Rightarrow> int" where
  "ttl_seconds now n = max 0 ((cn_expires_at n - now) div seconds 1)"

text \<open>The validation of a \<open>str | None\<close> and of a \<open>str\<close> field.\<close>

fun opt_str :: "json \<Rightarrow> agent_error + string option" where
  "opt_str JNull = Inr None"
| "opt_str (JStr s) = Inr (Some s)"
| "opt_str _ = Inl ValidationError"

fun req_str :: "json \<Rightarrow> agent_error + string" where
  "req_str (JStr s) = Inr s"
| "req_str _ = Inl ValidationError"

section \<open>Operations\<close>

text \<open>The statements: the inner functions \<open>_get\<close>, \<open>_set\<close> and \<open>_delete\<close>.\<close>

definition fetch_node :: "cached_node list \<Rightarrow> string \<Rightarrow> cached_node option" where
  "fetch_node c mac = sql_get cn_mac_address mac c"

definition store_node :: "cached_node \<Rightarrow> cached_node list \<Rightarrow> cached_node list" where
  "store_node n c = sql_upsert cn_mac_address n c"

definition delete_node :: "string \<Rightarrow> cached_node list \<Rightarrow> cached_node list \<times> bool" where
  "delete_node mac c =
     (case sql_delete (\<lambda>n. cn_mac_address n = mac) c of (c', rowcount) \<Rightarrow> (c', rowcount > 0))"

text \<open>\<open>get_node\<close> returns expired entries too; the caller decides.\<close>

definition get_node :: "string \<Rightarrow> cached_node list \<Rightarrow> cached_node option" where
  "get_node mac c = fetch_node c (norm_mac mac)"

definition set_node ::
    "datetime \<Rightarrow> int \<Rightarrow> json \<Rightarrow> json \<Rightarrow> json \<Rightarrow> json \<Rightarrow> json \<Rightarrow> json \<Rightarrow> json \<Rightarrow> json \<Rightarrow>
     (string \<times> json) list \<Rightarrow> int option \<Rightarrow> cached_node list \<Rightarrow>
     agent_error + cached_node list \<times> cached_node" where
  "set_node now default_ttl mac_address node_id state workflow_id group_id ip_address vendor model
      raw_data ttl c =
     (if mac_address = JNull \<or> state = JNull then Inl PyValueError
      else case mac_address of
        JStr mac \<Rightarrow>
          ebind (opt_str node_id) (\<lambda>nid.
          ebind (req_str state) (\<lambda>st.
          ebind (opt_str workflow_id) (\<lambda>wid.
          ebind (opt_str group_id) (\<lambda>gid.
          ebind (opt_str ip_address) (\<lambda>ip.
          ebind (opt_str vendor) (\<lambda>ve.
          ebind (opt_str model) (\<lambda>mo.
            let ttl_secs = (case ttl of Some t \<Rightarrow> t | None \<Rightarrow> default_ttl);
                node = \<lparr>cn_mac_address = norm_mac mac, cn_node_id = nid, cn_state = st,
                        cn_workflow_id = wid, cn_group_id = gid, cn_ip_address = ip,
                        cn_vendor = ve, cn_model = mo, cn_cached_at = now,
                        cn_expires_at = now + seconds ttl_secs, cn_raw_data = raw_data\<rparr>
            in Inr (store_node node c, node))))))))
      | _ \<Rightarrow> Inl AttributeError)"

definition get_nodes_by_group :: "string \<Rightarrow> cached_node list \<Rightarrow> cached_node list" where
  "get_nodes_by_group group_id c = filter (\<lambda>n. cn_group_id n = Some group_id) c"

definition get_all_nodes :: "cached_node list \<Rightarrow> cached_node list" where
  "get_all_nodes c = c"

definition invalidate :: "string \<Rightarrow> cached_node list \<Rightarrow> cached_node list \<times> bool" where
  "invalidate mac c = delete_node (norm_mac mac) c"

definition invalidate_expired :: "datetime \<Rightarrow> cached_node list \<Rightarrow> cached_node list \<times> nat" where
  "invalidate_expired now c = sql_delete (\<lambda>n. cn_expires_at n < now) c"

record cache_stats =
  total_entries :: nat
  expired_entries :: nat
  valid_entries :: int
  oldest_entry :: "datetime option"

definition cache_get_stats :: "datetime \<Rightarrow> cached_node list \<Rightarrow> cache_stats" where
  "cache_get_stats now c =
     (let total = length c;
          expired = length (filter (\<lambda>n. cn_expires_at n < now) c)
      in \<lparr>total_entries = total, expired_entries = expired,
          valid_entries = int total - int expired,
          oldest_entry = (if c = [] then None else Some (Min (cn_cached_at ` set c)))\<rparr>)"

definition cache_clear :: "cached_node list \<Rightarrow> cached_node list \<times> nat" where
  "cache_clear c = ([], length c)"

section \<open>The cache as a keyed store\<close>

text \<open>Rows are unique by address and their addresses are in normal form.\<close>

definition cache_inv :: "cached_node list \<Rightarrow> bool" where
  "cache_inv c \<longleftrightarrow> keys_unique cn_mac_address c \<and> (\<forall>n \<in> set c. norm_mac (cn_mac_address n) = cn_mac_address n)"

lemma fetch_delete_node [tab_simps]:
  "fetch_node (fst (delete_node mac c)) k = (if k = mac then None else fetch_node c k)"
  using sql_get_delete_key [of cn_mac_address k mac c]
  by (simp add: fetch_node_def delete_node_def case_prod_beta)

lemma delete_node_flag: "snd (delete_node mac c) \<longleftrightarrow> fetch_node c mac \<noteq> None"
  using sql_delete_count_0 [of cn_mac_address mac c]
  by (auto simp: delete_node_def fetch_node_def case_prod_beta)

interpretation nc: keyed_store fetch_node store_node "\<lambda>k c. fst (delete_node k c)" cn_mac_address
  "\<lambda>n c. norm_mac (cn_mac_address n) = cn_mac_address n" cache_inv
proof unfold_locales
  fix s k and r :: cached_node
  assume i: "cache_inv s"
  show "fetch_node (fst (delete_node k s)) = (fetch_node s)(k := None)"
    by (simp add: fun_eq_iff fetch_delete_node)
  from i show "cache_inv (fst (delete_node k s))"
    by (auto simp: cache_inv_def delete_node_def sql_delete_def keys_unique_filter)
  show "fetch_node (store_node r s) = (fetch_node s)(cn_mac_address r \<mapsto> r)"
    by (simp add: fun_eq_iff fetch_node_def store_node_def sql_get_upsert)
next
  fix s and r :: cached_node
  assume "cache_inv s" "norm_mac (cn_mac_address r) = cn_mac_address r"
  then show "cache_inv (store_node r s)"
    by (auto simp: cache_inv_def store_node_def keys_unique_upsert) (auto simp: sql_upsert_def)
qed

text \<open>What a successful \<open>set_node\<close> stored.\<close>

lemma set_node_Inr:
  assumes "set_node now dttl mac nid st wid gid ip ve mo raw ttl c = Inr (c', n)"
  obtains m s where "mac = JStr m" "st = JStr s" "c' = store_node n c" "cn_mac_address n = norm_mac m"
    "cn_state n = s" "cn_cached_at n = now" "cn_raw_data n = raw"
    "cn_expires_at n = now + seconds (case ttl of Some t \<Rightarrow> t | None \<Rightarrow> dttl)"
proof -
  from assms obtain m where m: "mac = JStr m"
    by (auto simp: set_node_def split: if_splits json.splits)
  from assms obtain s where "st = JStr s"
    unfolding m by (cases st) (auto simp: set_node_def ebind_Inr_iff)
  with assms m that show thesis
    by (auto simp: set_node_def ebind_Inr_iff Let_def)
qed

lemma set_node_inv:
  assumes "cache_inv c" and "set_node now dttl mac nid st wid gid ip ve mo raw ttl c = Inr (c', n)"
  shows "cache_inv c'"
  using assms(2) by (rule set_node_Inr) (auto intro: nc.inv_put [OF assms(1)])

lemma set_node_ok:
  "set_node now dttl (JStr m) (JStr i) (JStr s) wid gid ip ve mo raw ttl c = Inr (c', n) \<Longrightarrow> cn_node_id n = Some i"
  by (auto simp: set_node_def ebind_Inr_iff Let_def)

text \<open>
  A cached entry is found again under every spelling of its MAC address (upper or lower case,
  dashes or colons) and is fresh for exactly its time to live; entries of other addresses stay
  as they are; and invalidating any spelling removes it.
\<close>

theorem cache_roundtrip:
  assumes "cache_inv c" and "set_node now dttl (JStr m) nid st wid gid ip ve mo raw ttl c = Inr (c', n)"
  shows "(norm_mac m' = norm_mac m \<longrightarrow> get_node m' c' = Some n
            \<and> (cn_is_expired t n \<longleftrightarrow> t > now + seconds (case ttl of Some t \<Rightarrow> t | None \<Rightarrow> dttl))
            \<and> snd (invalidate m' c') \<and> get_node m (fst (invalidate m' c')) = None)
       \<and> (norm_mac m' \<noteq> norm_mac m \<longrightarrow> get_node m' c' = get_node m' c
            \<and> get_node m' (fst (invalidate m c')) = get_node m' c)
       \<and> cache_inv c'"
proof -
  from assms(2) obtain s where n: "c' = store_node n c" "cn_mac_address n = norm_mac m"
    "cn_expires_at n = now + seconds (case ttl of Some t \<Rightarrow> t | None \<Rightarrow> dttl)"
    by (rule set_node_Inr) auto
  then have ok: "norm_mac (cn_mac_address n) = cn_mac_address n" by simp
  note put = nc.lookup_put [OF assms(1) ok]
  show ?thesis
    using set_node_inv [OF assms] n put
    by (auto simp: get_node_def invalidate_def fetch_delete_node delete_node_flag cn_is_expired_def)
qed

theorem cache_roundtrip_witness:
  "let r = set_node 0 300 (JStr ''AA-BB'') (JStr ''n1'') (JStr ''active'') JNull JNull JNull JNull JNull [] None []
   in (case r of Inl e \<Rightarrow> False
       | Inr (c', n) \<Rightarrow> get_node ''aa:BB'' c' = Some n \<and> \<not> cn_is_expired (seconds 300) n
           \<and> get_node ''AA-BB'' (fst (invalidate ''aa:bb'' c')) = None)"
proof -
  have n: "norm_mac ''aa:BB'' = norm_mac ''AA-BB''" "norm_mac ''aa:bb'' = norm_mac ''AA-BB''"
    by code_simp+
  obtain c' nn where r: "set_node 0 300 (JStr ''AA-BB'') (JStr ''n1'') (JStr ''active'') JNull JNull JNull JNull JNull [] None []
      = Inr (c', nn)"
    by (simp add: set_node_def Let_def)
  have "cache_inv []" by (simp add: cache_inv_def keys_unique_def)
  note th = cache_roundtrip [OF this r, THEN conjunct1, rule_format]
  from th [OF n(1), of "seconds 300"] th [OF n(2)] r show ?thesis by simp
qed

text \<open>
  \<open>invalidate_expired\<close> removes exactly the entries that \<open>is_expired\<close> reports: it returns
  their number, which is what the statistics call expired, and leaves every other entry in place.
\<close>

theorem invalidate_expired_exact:
  "fst (invalidate_expired now c) = filter (\<lambda>n. \<not> cn_is_expired now n) c
   \<and> snd (invalidate_expired now c) = expired_entries (cache_get_stats now c)
   \<and> valid_entries (cache_get_stats now c) = int (length (fst (invalidate_expired now c)))
   \<and> expired_entries (cache_get_stats now (fst (invalidate_expired now c))) = 0
   \<and> (cache_inv c \<longrightarrow> cache_inv (fst (invalidate_expired now c)))"
proof -
  have "length (filter (\<lambda>n. \<not> cn_expires_at n < now) c) + length (filter (\<lambda>n. cn_expires_at n < now) c) = length c"
    using sum_length_filter_compl [of "\<lambda>n. cn_expires_at n < now" c] by simp
  then show ?thesis
    by (auto simp: invalidate_expired_def sql_delete_def cn_is_expired_def cache_get_stats_def Let_def
        cache_inv_def keys_unique_filter simp flip: of_nat_diff)
qed

theorem invalidate_expired_exact_witness:
  "let n = \<lparr>cn_mac_address = ''aa'', cn_node_id = None, cn_state = ''active'', cn_workflow_id = None,
            cn_group_id = None, cn_ip_address = None, cn_vendor = None, cn_model = None,
            cn_cached_at = 0, cn_expires_at = 5, cn_raw_data = []\<rparr>
   in cache_inv [n] \<and> fst (invalidate_expired 5 [n]) = [n] \<and> fst (invalidate_expired 6 [n]) = []
      \<and> cache_inv (fst (invalidate_expired 5 [n]))"
  using invalidate_expired_exact
  by (simp add: cn_is_expired_def cache_inv_def keys_unique_def norm_mac_def lower_def lower_char_def
      replace_char_def)


end
