(* ===== verification/Conflicts.thy ===== *)
theory Conflicts
  imports StateCache
begin

text \<open>
  Conflict detection after a reconnect, src/src/agent/conflicts.py: the comparison of the cached
  node states with the controller's, and the table of conflicts with its resolution. The
  controller's node entries are decoded: a missing \<open>mac_address\<close> is the empty string, a missing
  state or time is \<open>None\<close>. \<open>uuid i\<close> is the identifier drawn for the i-th conflict of a check.
\<close>

section \<open>Rows\<close>

record central_node =
  ce_mac_address :: string
  ce_id :: "string option"
  ce_state :: "string option"
  ce_updated_at :: "datetime option"

record conflict =
  cf_id :: string
  cf_node_mac :: string
  cf_node_id :: "string option"
  cf_local_state :: string
  cf_central_state :: string
  cf_local_updated_at :: datetime
  cf_central_updated_at :: datetime
  cf_conflict_type :: string
  cf_detected_at :: datetime
  cf_resolved :: bool
  cf_resolution :: "string option"
  cf_resolved_at :: "datetime option"
  cf_resolved_by :: "string option"

section \<open>Detection\<close>

definition central_by_mac :: "central_node list \<Rightarrow> (string \<times> central_node) list" where
  "central_by_mac central_nodes =
     fold (\<lambda>n d. let mac = lower (ce_mac_address n) in if mac \<noteq> [] then dict_put mac n d else d)
       central_nodes []"

definition opt_default :: "'a \<Rightarrow> 'a option \<Rightarrow> 'a" where
  "opt_default d x = (case x of None \<Rightarrow> d | Some v \<Rightarrow> v)"

text \<open>A new, unresolved conflict; its identifier is drawn by \<open>number\<close>, in the order of detection.\<close>

definition new_conflict ::
    "string \<Rightarrow> string option \<Rightarrow> string \<Rightarrow> string \<Rightarrow> datetime \<Rightarrow> datetime \<Rightarrow> string \<Rightarrow> datetime \<Rightarrow> conflict" where
  "new_conflict mac nid ls cs lu cu ty now =
     \<lparr>cf_id = [], cf_node_mac = mac, cf_node_id = nid, cf_local_state = ls, cf_central_state = cs,
      cf_local_updated_at = lu, cf_central_updated_at = cu, cf_conflict_type = ty,
      cf_detected_at = now, cf_resolved = False, cf_resolution = None, cf_resolved_at = None,
      cf_resolved_by = None\<rparr>"

text \<open>The conflict of one cached node, given the controller's entry for its address.\<close>

definition cached_conflict :: "datetime \<Rightarrow> cached_node \<Rightarrow> central_node option \<Rightarrow> conflict option" where
  "cached_conflict now cached central =
     (let mac = lower (cn_mac_address cached) in
      case central of
        None \<Rightarrow> Some (new_conflict mac (cn_node_id cached) (cn_state cached) ''missing''
                 (cn_cached_at cached) now ''missing_central'' now)
      | Some ce \<Rightarrow>
          if Some (cn_state cached) \<noteq> ce_state ce
          then Some (new_conflict mac (or_str (cn_node_id cached) (ce_id ce)) (cn_state cached)
                 (opt_default ''unknown'' (ce_state ce)) (cn_cached_at cached)
                 (opt_default now (ce_updated_at ce)) ''state_mismatch'' now)
          else None)"

text \<open>The loop over the cached nodes: what is left of the lookup, and the conflicts.\<close>

fun check_cached ::
    "datetime \<Rightarrow> cached_node list \<Rightarrow> (string \<times> central_node) list \<Rightarrow>
     (string \<times> central_node) list \<times> conflict list" where
  "check_cached now [] d = (d, [])"
| "check_cached now (cached # rest) d =
     (let mac = lower (cn_mac_address cached);
          here = (case cached_conflict now cached (map_of d mac) of None \<Rightarrow> [] | Some c \<Rightarrow> [c]);
          (d', cs) = check_cached now rest (dict_del mac d)
      in (d', here @ cs))"

definition missing_local :: "datetime \<Rightarrow> string \<times> central_node \<Rightarrow> conflict" where
  "missing_local now p =
     new_conflict (fst p) (ce_id (snd p)) ''missing'' (opt_default ''unknown'' (ce_state (snd p)))
       now (opt_default now (ce_updated_at (snd p))) ''missing_local'' now"

fun number :: "(nat \<Rightarrow> string) \<Rightarrow> nat \<Rightarrow> conflict list \<Rightarrow> conflict list" where
  "number uuid n [] = []"
| "number uuid n (c # cs) = c\<lparr>cf_id := uuid n\<rparr> # number uuid (Suc n) cs"

definition mark_conflict :: "conflict \<Rightarrow> conflict list \<Rightarrow> conflict list" where
  "mark_conflict c t = sql_upsert cf_id c t"

definition check_conflicts ::
    "datetime \<Rightarrow> (nat \<Rightarrow> string) \<Rightarrow> central_node list \<Rightarrow> cached_node list \<Rightarrow> conflict list \<Rightarrow>
     conflict list \<times> conflict list" where
  "check_conflicts now uuid central_nodes cache t =
     (let (rest, cs) = check_cached now (get_all_nodes cache) (central_by_mac central_nodes);
          conflicts = number uuid 0 (cs @ map (missing_local now) rest)
      in (fold mark_conflict conflicts t, conflicts))"

section \<open>The table\<close>

definition get_pending_conflicts :: "conflict list \<Rightarrow> conflict list" where
  "get_pending_conflicts t = sort_key (\<lambda>c. - cf_detected_at c) (filter (\<lambda>c. \<not> cf_resolved c) t)"

definition get_conflict :: "string \<Rightarrow> conflict list \<Rightarrow> conflict option" where
  "get_conflict conflict_id t = sql_get cf_id conflict_id t"

definition resolve_conflict ::
    "datetime \<Rightarrow> string \<Rightarrow> string \<Rightarrow> string \<Rightarrow> conflict list \<Rightarrow> conflict list \<times> bool" where
  "resolve_conflict now conflict_id resolution resolved_by t =
     (case sql_update (\<lambda>c. cf_id c = conflict_id)
        (\<lambda>c. c\<lparr>cf_resolved := True, cf_resolution := Some resolution, cf_resolved_at := Some now,
               cf_resolved_by := Some resolved_by\<rparr>) t of
        (t', rowcount) \<Rightarrow> (t', rowcount > 0))"

definition get_conflict_count :: "conflict list \<Rightarrow> nat" where
  "get_conflict_count t = length (filter (\<lambda>c. \<not> cf_resolved c) t)"

definition get_conflicts_for_node :: "string \<Rightarrow> conflict list \<Rightarrow> conflict list" where
  "get_conflicts_for_node mac t =
     sort_key (\<lambda>c. - cf_detected_at c) (filter (\<lambda>c. cf_node_mac c = lower mac) t)"

text \<open>Ages compare as exact times; a row without a resolution time is NULL and never matches.\<close>

definition clear_resolved :: "datetime \<Rightarrow> int \<Rightarrow> conflict list \<Rightarrow> conflict list \<times> nat" where
  "clear_resolved now older_than_days t =
     sql_delete (\<lambda>c. cf_resolved c \<and>
       (case cf_resolved_at c of None \<Rightarrow> False | Some r \<Rightarrow> now - r > hours (24 * older_than_days))) t"

section \<open>Exactness of the detection\<close>

text \<open>The controller's entry for an address: the last one that names it.\<close>

definition central_of :: "central_node list \<Rightarrow> string \<Rightarrow> central_node option" where
  "central_of ns mac = (if mac = [] then None else find (\<lambda>n. lower (ce_mac_address n) = mac) (rev ns))"

lemma central_by_mac_snoc:
  "central_by_mac (ns @ [n]) =
     (if lower (ce_mac_address n) \<noteq> [] then dict_put (lower (ce_mac_address n)) n (central_by_mac ns)
      else central_by_mac ns)"
  by (simp add: central_by_mac_def Let_def)

lemma central_by_mac_correct:
  "map_of (central_by_mac ns) = central_of ns \<and> distinct (map fst (central_by_mac ns))"
proof (induction ns rule: rev_induct)
  case Nil
  show ?case by (simp add: central_by_mac_def central_of_def fun_eq_iff)
next
  case (snoc n ns)
  then show ?case
    by (auto simp: central_by_mac_snoc central_of_def fun_eq_iff)
qed

text \<open>What a check reports about one address: the kind, the local and the central state.\<close>

definition verdict :: "string option \<Rightarrow> central_node option \<Rightarrow> (string \<times> string \<times> string) list" where
  "verdict l c =
     (case (l, c) of
        (None, None) \<Rightarrow> []
      | (Some s, None) \<Rightarrow> [(''missing_central'', s, ''missing'')]
      | (None, Some ce) \<Rightarrow> [(''missing_local'', ''missing'', opt_default ''unknown'' (ce_state ce))]
      | (Some s, Some ce) \<Rightarrow>
          (if Some s = ce_state ce then []
           else [(''state_mismatch'', s, opt_default ''unknown'' (ce_state ce))]))"

definition report :: "conflict \<Rightarrow> string \<times> string \<times> string" where
  "report c = (cf_conflict_type c, cf_local_state c, cf_central_state c)"

definition local_of :: "cached_node list \<Rightarrow> string \<Rightarrow> string option" where
  "local_of cache mac = map_option cn_state (find (\<lambda>n. lower (cn_mac_address n) = mac) cache)"

lemma new_conflict_simps [simp]:
  "cf_node_mac (new_conflict mac nid ls cs lu cu ty now) = mac"
  "cf_resolved (new_conflict mac nid ls cs lu cu ty now) = False"
  "report (new_conflict mac nid ls cs lu cu ty now) = (ty, ls, cs)"
  "report (c\<lparr>cf_id := u\<rparr>) = report c"
  by (simp_all add: new_conflict_def report_def)

abbreviation about :: "string \<Rightarrow> conflict list \<Rightarrow> (string \<times> string \<times> string) list" where
  "about mac cs \<equiv> map report (filter (\<lambda>c. cf_node_mac c = mac) cs)"

lemma about_number [simp]: "about mac (number uuid n cs) = about mac cs"
  by (induction cs arbitrary: n) auto

lemma missing_local_simps [simp]:
  "cf_node_mac (missing_local now p) = fst p"
  "report (missing_local now p) = (''missing_local'', ''missing'', opt_default ''unknown'' (ce_state (snd p)))"
  by (simp_all add: missing_local_def)

lemma about_missing_local:
  "distinct (map fst rest) \<Longrightarrow>
   about mac (map (missing_local now) rest) = verdict None (map_of rest mac)"
proof (induction rest)
  case (Cons p rest)
  have "about mac (map (missing_local now) rest) = []" if "mac \<notin> fst ` set rest"
    using that by (auto simp: filter_empty_conv)
  with Cons show ?case
    by (cases p) (auto simp: verdict_def)
qed (simp add: verdict_def)

lemma about_cached_conflict:
  "about mac (case cached_conflict now n c of None \<Rightarrow> [] | Some c \<Rightarrow> [c])
   = (if mac = lower (cn_mac_address n) then verdict (Some (cn_state n)) c else [])"
  by (auto simp: cached_conflict_def verdict_def Let_def split: option.splits)

lemma check_cached_correct:
  assumes "distinct (map (\<lambda>n. lower (cn_mac_address n)) cache)" and "distinct (map fst d)"
  shows "map_of (fst (check_cached now cache d)) mac =
           (case local_of cache mac of None \<Rightarrow> map_of d mac | Some s \<Rightarrow> None)
       \<and> distinct (map fst (fst (check_cached now cache d)))
       \<and> about mac (snd (check_cached now cache d)) =
           (case local_of cache mac of None \<Rightarrow> [] | Some s \<Rightarrow> verdict (Some s) (map_of d mac))"
  using assms
proof (induction cache arbitrary: d)
  case (Cons n cache)
  let ?k = "lower (cn_mac_address n)"
  have "lower (cn_mac_address x) \<noteq> ?k" if "x \<in> set cache" for x
    using that Cons.prems(1) by (auto dest: not_in_imageD)
  then have "local_of cache ?k = None" by (auto simp: local_of_def find_None_iff)
  then show ?case
    using Cons.IH [of "dict_del ?k d"] Cons.prems about_cached_conflict [of mac now n "map_of d ?k"]
    by (auto simp: Let_def case_prod_beta local_of_def split: option.splits)
qed (simp add: local_of_def)

lemma cache_inv_lower: "cache_inv c \<Longrightarrow> distinct (map (\<lambda>n. lower (cn_mac_address n)) c)"
proof -
  assume i: "cache_inv c"
  then have "map (\<lambda>n. lower (cn_mac_address n)) c = map cn_mac_address c"
    by (auto simp: cache_inv_def) (metis lower_norm_mac)
  moreover from i have "distinct (map cn_mac_address c)" by (simp add: cache_inv_def keys_unique_def)
  ultimately show ?thesis by metis
qed

text \<open>
  C9: The check reports every disagreement between the cache and the controller once and nothing
  else: for every address it yields exactly the conflict that the cached state and the
  controller's last entry for that address call for (none when both agree or both are absent, a
  missing entry on either side, or the two different states).
\<close>

theorem check_conflicts_exact:
  assumes "cache_inv cache"
  shows "map (\<lambda>c. (cf_conflict_type c, cf_local_state c, cf_central_state c))
           (filter (\<lambda>c. cf_node_mac c = mac) (snd (check_conflicts now uuid central cache t)))
         = verdict (local_of cache mac) (central_of central mac)"
proof -
  note d = central_by_mac_correct [of central]
  note cc = check_cached_correct [OF cache_inv_lower [OF assms] conjunct2 [OF d], of now mac]
  have "about mac (snd (check_conflicts now uuid central cache t)) = verdict (local_of cache mac) (central_of central mac)"
    using cc d about_missing_local [OF conjunct1 [OF conjunct2 [OF cc]], of mac now]
    by (auto simp: check_conflicts_def get_all_nodes_def Let_def case_prod_beta verdict_def
        split: option.splits)
  then show ?thesis unfolding report_def .
qed

theorem check_conflicts_exact_witness:
  "let n = \<lparr>cn_mac_address = ''aa'', cn_node_id = None, cn_state = ''active'', cn_workflow_id = None,
            cn_group_id = None, cn_ip_address = None, cn_vendor = None, cn_model = None,
            cn_cached_at = 0, cn_expires_at = 5, cn_raw_data = []\<rparr>;
       ce = \<lparr>ce_mac_address = ''AA'', ce_id = None, ce_state = Some ''retired'', ce_updated_at = None\<rparr>
   in map (\<lambda>c. (cf_conflict_type c, cf_local_state c, cf_central_state c))
        (filter (\<lambda>c. cf_node_mac c = ''aa'') (snd (check_conflicts 7 show_nat [ce] [n] [])))
      = [(''state_mismatch'', ''active'', ''retired'')]"
proof -
  have l: "norm_mac ''aa'' = ''aa''" "lower ''aa'' = ''aa''" "lower ''AA'' = ''aa''" by code_simp+
  show ?thesis
    unfolding Let_def
    by (subst check_conflicts_exact)
      (simp_all add: cache_inv_def keys_unique_def verdict_def local_of_def central_of_def opt_default_def l)
qed

section \<open>Recording and resolving\<close>

lemma upsert_fresh: "key r \<notin> key ` set t \<Longrightarrow> sql_upsert key r t = t @ [r]"
  by (auto simp: sql_upsert_def filter_id_conv dest: not_in_imageD)

lemma number_ids: "map cf_id (number uuid n cs) = map uuid [n..<n + length cs]"
  by (induction cs arbitrary: n) (simp_all add: upt_rec)

lemma number_unresolved: "\<forall>c \<in> set cs. \<not> cf_resolved c \<Longrightarrow> \<forall>c \<in> set (number uuid n cs). \<not> cf_resolved c"
  by (induction cs arbitrary: n) auto

lemma fold_mark_conflict:
  "distinct (map cf_id cs) \<Longrightarrow> cf_id ` set cs \<inter> cf_id ` set t = {} \<Longrightarrow> fold mark_conflict cs t = t @ cs"
proof (induction cs arbitrary: t)
  case (Cons c cs)
  have "mark_conflict c t = t @ [c]"
    using Cons.prems(2) by (auto simp: mark_conflict_def intro: upsert_fresh)
  with Cons show ?case by auto
qed simp

lemma check_cached_unresolved: "c \<in> set (snd (check_cached now cache d)) \<Longrightarrow> \<not> cf_resolved c"
  by (induction now cache d rule: check_cached.induct)
    (auto simp: Let_def cached_conflict_def split: prod.splits option.splits if_splits)

lemma check_conflicts_appends:
  assumes "inj uuid" and "\<forall>i. uuid i \<notin> cf_id ` set t"
  shows "fst (check_conflicts now uuid central cache t) = t @ snd (check_conflicts now uuid central cache t)
       \<and> distinct (map cf_id (snd (check_conflicts now uuid central cache t)))
       \<and> (\<forall>c \<in> set (snd (check_conflicts now uuid central cache t)). \<not> cf_resolved c)"
proof -
  obtain rest cs where r: "check_cached now (get_all_nodes cache) (central_by_mac central) = (rest, cs)"
    by (cases "check_cached now (get_all_nodes cache) (central_by_mac central)")
  define new where "new = number uuid 0 (cs @ map (missing_local now) rest)"
  have ids: "map cf_id new = map uuid [0..<length (cs @ map (missing_local now) rest)]"
    unfolding new_def number_ids by simp
  have d: "distinct (map cf_id new)"
    unfolding ids using assms(1) by (auto simp: distinct_map inj_on_def dest: injD)
  have "cf_id ` set new = uuid ` {0..<length (cs @ map (missing_local now) rest)}"
    using arg_cong [OF ids, of set] by simp
  with assms(2) have "cf_id ` set new \<inter> cf_id ` set t = {}" by auto
  note f = fold_mark_conflict [OF d this]
  have "\<forall>c \<in> set new. \<not> cf_resolved c"
    unfolding new_def
    by (rule number_unresolved)
      (use check_cached_unresolved [of _ now "get_all_nodes cache" "central_by_mac central"] r
        in \<open>auto simp: missing_local_def\<close>)
  with f d r show ?thesis by (simp add: check_conflicts_def new_def Let_def)
qed

text \<open>
  A check records what it finds and touches nothing else: each reported conflict is stored
  unresolved under its own identifier, earlier rows are unchanged, and the count of pending
  conflicts grows by the number reported. A second check of an unchanged situation therefore
  records every conflict once more: detection does not look at what is already pending.
\<close>

theorem check_conflicts_records:
  assumes "inj uuid" and "\<forall>i. uuid i \<notin> cf_id ` set t"
  shows "get_conflict_count (fst (check_conflicts now uuid central cache t))
           = get_conflict_count t + length (snd (check_conflicts now uuid central cache t))
       \<and> (\<forall>c \<in> set (snd (check_conflicts now uuid central cache t)).
            get_conflict (cf_id c) (fst (check_conflicts now uuid central cache t)) = Some c)
       \<and> (\<forall>k \<in> cf_id ` set t.
            get_conflict k (fst (check_conflicts now uuid central cache t)) = get_conflict k t)"
proof -
  define new where "new = snd (check_conflicts now uuid central cache t)"
  from check_conflicts_appends [OF assms, of now central cache]
  have a: "fst (check_conflicts now uuid central cache t) = t @ new" "distinct (map cf_id new)"
    "\<forall>c \<in> set new. \<not> cf_resolved c" by (auto simp: new_def)
  have ids: "cf_id c \<in> range uuid" if "c \<in> set new" for c
  proof -
    have "cf_id c \<in> set (map cf_id new)" using that by simp
    then show ?thesis
      unfolding new_def check_conflicts_def Let_def case_prod_beta snd_conv number_ids by auto
  qed
  have "get_conflict (cf_id c) (t @ new) = Some c" if "c \<in> set new" for c
  proof -
    obtain n where "cf_id c = uuid n" using ids [OF \<open>c \<in> set new\<close>] by auto
    with assms(2) have "sql_get cf_id (cf_id c) t = None" by (simp add: sql_get_None_iff)
    moreover have "sql_get cf_id (cf_id c) new = Some c"
      using a(2) that by (intro sql_get_in_set) (simp_all add: keys_unique_def)
    ultimately show ?thesis by (simp add: get_conflict_def sql_get_def find_append)
  qed
  moreover have "get_conflict k (t @ new) = get_conflict k t" if "k \<in> cf_id ` set t" for k
    using that sql_get_None_iff [of cf_id k t]
    by (auto simp: get_conflict_def sql_get_def find_append split: option.splits)
  moreover have "get_conflict_count (t @ new) = get_conflict_count t + length new"
    using a(3) by (simp add: get_conflict_count_def filter_id_conv)
  ultimately show ?thesis unfolding a(1) new_def [symmetric] by blast
qed

lemma show_nat_inj: "inj show_nat"
  by (rule injI) (metis option.inject read_digits_show_nat)

theorem check_conflicts_records_witness:
  "let ce = \<lparr>ce_mac_address = ''AA'', ce_id = None, ce_state = Some ''retired'', ce_updated_at = None\<rparr>;
       t1 = fst (check_conflicts 7 show_nat [ce] [] []);
       t2 = fst (check_conflicts 8 (\<lambda>i. CHR ''x'' # show_nat i) [ce] [] t1)
   in get_conflict_count t1 = 1 \<and> get_conflict_count t2 = 2"
proof -
  let ?ce = "\<lparr>ce_mac_address = ''AA'', ce_id = None, ce_state = Some ''retired'', ce_updated_at = None\<rparr>"
  have l: "lower ''AA'' = ''aa''" by code_simp
  have t1: "length (snd (check_conflicts now u [?ce] [] t)) = 1" for now u t
    by (simp add: check_conflicts_def get_all_nodes_def central_by_mac_def l Let_def)
  let ?t1 = "fst (check_conflicts 7 show_nat [?ce] [] [])"
  have s0: "show_nat 0 = ''0''" by code_simp
  have fresh: "\<forall>i. CHR ''x'' # show_nat i \<notin> cf_id ` set ?t1"
    by (simp add: check_conflicts_def get_all_nodes_def central_by_mac_def l Let_def mark_conflict_def
        sql_upsert_def s0)
  have "inj (\<lambda>i. CHR ''x'' # show_nat i)" using show_nat_inj by (simp add: inj_def)
  note r2 = check_conflicts_records [OF this fresh, of 8 "[?ce]" "[]"]
  have r1: "get_conflict_count ?t1 = 1"
    using check_conflicts_records [OF show_nat_inj, of "[]" 7 "[?ce]" "[]"] t1 [of 7 show_nat "[]"]
    by (simp add: get_conflict_count_def)
  with r2 t1 [of 8 "\<lambda>i. CHR ''x'' # show_nat i" ?t1] show ?thesis by simp
qed

text \<open>
  Resolving a conflict reports whether it exists, stamps exactly that row and lowers the
  pending count by one if the conflict was pending; clearing old conflicts never removes a
  pending one.
\<close>

theorem resolve_conflict_exact:
  assumes "keys_unique cf_id t"
  shows "(snd (resolve_conflict now i res by_user t) \<longleftrightarrow> get_conflict i t \<noteq> None)
       \<and> get_conflict k (fst (resolve_conflict now i res by_user t)) =
           (if k = i then map_option (\<lambda>c. c\<lparr>cf_resolved := True, cf_resolution := Some res,
              cf_resolved_at := Some now, cf_resolved_by := Some by_user\<rparr>) (get_conflict i t)
            else get_conflict k t)
       \<and> get_conflict_count (fst (resolve_conflict now i res by_user t)) =
           get_conflict_count t - (if \<exists>c. get_conflict i t = Some c \<and> \<not> cf_resolved c then 1 else 0)
       \<and> get_pending_conflicts (fst (clear_resolved now days t)) = get_pending_conflicts t"
proof -
  let ?f = "\<lambda>c. c\<lparr>cf_resolved := True, cf_resolution := Some res, cf_resolved_at := Some now, cf_resolved_by := Some by_user\<rparr>"
  have up: "fst (resolve_conflict now i res by_user t) = fst (sql_update (\<lambda>c. cf_id c = i) ?f t)"
    "snd (resolve_conflict now i res by_user t) \<longleftrightarrow> snd (sql_update (\<lambda>c. cf_id c = i) ?f t) \<noteq> 0"
    by (simp_all add: resolve_conflict_def case_prod_beta)
  have get: "get_conflict k (fst (resolve_conflict now i res by_user t)) =
      (if k = i then map_option ?f (get_conflict i t) else get_conflict k t)"
    unfolding up get_conflict_def
    by (subst sql_get_update [where p' = "\<lambda>x. x = i"]) simp_all
  have count: "get_conflict_count (fst (sql_update (\<lambda>c. cf_id c = i) ?f t)) =
      get_conflict_count t - (if \<exists>c. get_conflict i t = Some c \<and> \<not> cf_resolved c then 1 else 0)"
    using assms
  proof (induction t)
    case (Cons c t)
    have "sql_get cf_id (cf_id c) t = None"
      using Cons.prems by (auto simp: keys_unique_def sql_get_None_iff)
    moreover have "get_conflict_count t > 0" if "get_conflict i t = Some d" "\<not> cf_resolved d" for d
      using that by (auto simp: get_conflict_def get_conflict_count_def filter_empty_conv dest: sql_get_SomeD)
    moreover have "map (\<lambda>r. if cf_id r = cf_id c then ?f r else r) t = t"
      using Cons.prems by (auto simp: keys_unique_def intro!: map_idI dest: not_in_imageD)
    ultimately show ?case
      using Cons
      by (auto simp: sql_update_def get_conflict_count_def get_conflict_def sql_get_def keys_unique_def Suc_diff_Suc)
  qed (simp add: sql_update_def get_conflict_count_def)
  have "filter (\<lambda>c. \<not> cf_resolved c) (fst (clear_resolved now days t)) = filter (\<lambda>c. \<not> cf_resolved c) t"
    by (auto simp: clear_resolved_def sql_delete_def intro: filter_cong)
  with get count up sql_update_count_0 [of cf_id i ?f t] show ?thesis
    by (auto simp: get_pending_conflicts_def get_conflict_def)
qed

theorem resolve_conflict_exact_witness:
  "let c = (new_conflict ''aa'' None ''active'' ''retired'' 0 0 ''state_mismatch'' 0)\<lparr>cf_id := ''1''\<rparr>
   in snd (resolve_conflict 5 ''1'' ''keep_local'' ''bob'' [c])
      \<and> get_conflict_count (fst (resolve_conflict 5 ''1'' ''keep_local'' ''bob'' [c])) = 0"
  using resolve_conflict_exact [where i = "''1''" and now = 5 and res = "''keep_local''" and by_user = "''bob''"
      and t = "[(new_conflict ''aa'' None ''active'' ''retired'' 0 0 ''state_mismatch'' 0)\<lparr>cf_id := ''1''\<rparr>]"]
  by (simp add: keys_unique_def get_conflict_def sql_get_def get_conflict_count_def)


end
