(* ===== verification/SyncQueue.thy ===== *)
theory SyncQueue
  imports Prelude "HOL-Library.Multiset"
begin

text \<open>
  The site agent's durable queue of operations to replay on the central controller,
  src/src/agent/queue.py: one SQLite table keyed by item id. Each operation runs under the
  queue's lock and commits, so it is one step on the table. An UPDATE or DELETE returns the table
  and whether a row was hit.

  The section on refinement relates the table to what the queue is for: a first-in first-out
  sequence of pending items.
\<close>

section \<open>Rows\<close>

record queue_item =
  qi_id :: string
  qi_item_type :: string
  qi_payload :: "(string \<times> json) list"
  qi_created_at :: datetime
  qi_attempts :: int
  qi_last_attempt_at :: "datetime option"
  qi_last_error :: "string option"
  qi_status :: string

abbreviation is_pending :: "queue_item \<Rightarrow> bool" where
  "is_pending i \<equiv> qi_status i = ''pending''"

section \<open>Operations\<close>

definition enqueue :: "string \<Rightarrow> queue_item \<Rightarrow> queue_item list \<Rightarrow> sql_error + queue_item list \<times> string" where
  "enqueue uuid item0 q =
     (let item = (if qi_id item0 = [] then item0\<lparr>qi_id := uuid\<rparr> else item0)
      in case sql_insert qi_id item q of
           Inl e \<Rightarrow> Inl e
         | Inr q' \<Rightarrow> Inr (q', qi_id item))"

definition peek :: "nat \<Rightarrow> queue_item list \<Rightarrow> queue_item list" where
  "peek limit q = take limit (sort_key qi_created_at (filter is_pending q))"

definition get_item :: "queue_item list \<Rightarrow> string \<Rightarrow> queue_item option" where
  "get_item q queue_id = sql_get qi_id queue_id q"

definition dequeue :: "string \<Rightarrow> queue_item list \<Rightarrow> queue_item list \<times> bool" where
  "dequeue queue_id q =
     (case sql_delete (\<lambda>i. qi_id i = queue_id) q of (q', rowcount) \<Rightarrow> (q', rowcount > 0))"

definition update_item :: "string \<Rightarrow> (queue_item \<Rightarrow> queue_item) \<Rightarrow> queue_item list \<Rightarrow> queue_item list \<times> bool" where
  "update_item queue_id f q =
     (case sql_update (\<lambda>i. qi_id i = queue_id) f q of (q', rowcount) \<Rightarrow> (q', rowcount > 0))"

definition mark_processing :: "datetime \<Rightarrow> string \<Rightarrow> queue_item list \<Rightarrow> queue_item list \<times> bool" where
  "mark_processing now queue_id q =
     update_item queue_id (\<lambda>i. i\<lparr>qi_status := ''processing'', qi_last_attempt_at := Some now,
        qi_attempts := qi_attempts i + 1\<rparr>) q"

definition mark_pending :: "string \<Rightarrow> queue_item list \<Rightarrow> queue_item list \<times> bool" where
  "mark_pending queue_id q = update_item queue_id (\<lambda>i. i\<lparr>qi_status := ''pending''\<rparr>) q"

definition mark_failed :: "string \<Rightarrow> string \<Rightarrow> queue_item list \<Rightarrow> queue_item list \<times> bool" where
  "mark_failed queue_id error q =
     update_item queue_id (\<lambda>i. i\<lparr>qi_status := ''failed'', qi_last_error := Some error\<rparr>) q"

definition get_pending_count :: "queue_item list \<Rightarrow> nat" where
  "get_pending_count q = length (filter (\<lambda>i. qi_status i = ''pending'') q)"

definition get_failed_count :: "queue_item list \<Rightarrow> nat" where
  "get_failed_count q = length (filter (\<lambda>i. qi_status i = ''failed'') q)"

definition get_failed_items :: "queue_item list \<Rightarrow> queue_item list" where
  "get_failed_items q = sort_key qi_created_at (filter (\<lambda>i. qi_status i = ''failed'') q)"

definition clear_failed :: "queue_item list \<Rightarrow> queue_item list \<times> nat" where
  "clear_failed q = sql_delete (\<lambda>i. qi_status i = ''failed'') q"

definition retry_failed :: "queue_item list \<Rightarrow> queue_item list \<times> nat" where
  "retry_failed q =
     sql_update (\<lambda>i. qi_status i = ''failed'') (\<lambda>i. i\<lparr>qi_status := ''pending'', qi_last_error := None\<rparr>) q"

record queue_stats =
  st_pending :: nat
  st_processing :: nat
  st_failed :: nat
  st_total :: nat

text \<open>\<open>GROUP BY status\<close> as a dict from a status to its count.\<close>

fun group_count :: "(queue_item \<Rightarrow> string) \<Rightarrow> queue_item list \<Rightarrow> (string \<times> nat) list" where
  "group_count f [] = []"
| "group_count f (i # q) =
     (let d = group_count f q in
      case map_of d (f i) of
        None \<Rightarrow> (f i, 1) # d
      | Some n \<Rightarrow> map (\<lambda>(k, m). if k = f i then (k, m + 1) else (k, m)) d)"

definition dict_get0 :: "(string \<times> nat) list \<Rightarrow> string \<Rightarrow> nat" where
  "dict_get0 d k = (case map_of d k of None \<Rightarrow> 0 | Some n \<Rightarrow> n)"

definition queue_get_stats :: "queue_item list \<Rightarrow> queue_stats" where
  "queue_get_stats q =
     (let status_counts = group_count qi_status q
      in \<lparr>st_pending = dict_get0 status_counts ''pending'',
          st_processing = dict_get0 status_counts ''processing'',
          st_failed = dict_get0 status_counts ''failed'',
          st_total = sum_list (map snd status_counts)\<rparr>)"

section \<open>The table as a keyed store\<close>

definition insert_item :: "queue_item \<Rightarrow> queue_item list \<Rightarrow> queue_item list" where
  "insert_item i q = (case enqueue [] i q of Inl e \<Rightarrow> q | Inr (q', _) \<Rightarrow> q')"

lemma enqueue_fresh:
  "qi_id i \<noteq> [] \<Longrightarrow> get_item q (qi_id i) = None \<Longrightarrow> enqueue u i q = Inr (q @ [i], qi_id i)"
  by (simp add: enqueue_def Let_def sql_insert_def get_item_def sql_get_None_iff)

lemma get_item_dequeue [tab_simps]:
  "get_item (fst (dequeue k q)) j = (if j = k then None else get_item q j)"
  using sql_get_delete_key [of qi_id j k q] by (simp add: get_item_def dequeue_def case_prod_beta)

lemma dequeue_flag: "snd (dequeue k q) \<longleftrightarrow> get_item q k \<noteq> None"
  using sql_delete_count_0 [of qi_id k q] by (auto simp: dequeue_def get_item_def case_prod_beta)

lemma get_item_update [tab_simps]:
  assumes "\<And>i. qi_id (f i) = qi_id i"
  shows "get_item (fst (update_item k f q)) j = (if j = k then map_option f (get_item q j) else get_item q j)"
  using sql_get_update [where key = qi_id and f = f and p = "\<lambda>i. qi_id i = k" and p' = "\<lambda>x. x = k", OF assms]
  by (simp add: get_item_def update_item_def case_prod_beta)

lemma keys_unique_update_item [tab_simps]:
  "(\<And>i. qi_id (f i) = qi_id i) \<Longrightarrow> keys_unique qi_id (fst (update_item k f q)) = keys_unique qi_id q"
  by (simp add: update_item_def case_prod_beta keys_unique_update)

lemma keys_unique_dequeue [tab_simps]: "keys_unique qi_id q \<Longrightarrow> keys_unique qi_id (fst (dequeue k q))"
  by (simp add: dequeue_def case_prod_beta keys_unique_delete)

interpretation sq: keyed_store get_item insert_item "\<lambda>k q. fst (dequeue k q)" qi_id
  "\<lambda>i q. qi_id i \<noteq> [] \<and> get_item q (qi_id i) = None" "keys_unique qi_id"
proof unfold_locales
  fix s :: "queue_item list" and k and r :: queue_item
  assume i: "keys_unique qi_id s"
  show "get_item (fst (dequeue k s)) = (get_item s)(k := None)"
    by (simp add: fun_eq_iff get_item_dequeue)
  from i show "keys_unique qi_id (fst (dequeue k s))" by (rule keys_unique_dequeue)
  assume r: "qi_id r \<noteq> [] \<and> get_item s (qi_id r) = None"
  then have ins: "insert_item r s = s @ [r]" by (simp add: insert_item_def enqueue_fresh)
  from r have "qi_id r \<notin> qi_id ` set s" by (simp add: get_item_def sql_get_None_iff)
  with i show "get_item (insert_item r s) = (get_item s)(qi_id r \<mapsto> r)"
    and "keys_unique qi_id (insert_item r s)"
    unfolding ins by (auto simp: get_item_def sql_get_append fun_eq_iff keys_unique_def)
qed

section \<open>Refinement of a first-in first-out sequence\<close>

text \<open>The abstract queue: the pending items, oldest first.\<close>

definition pending_seq :: "queue_item list \<Rightarrow> queue_item list" where
  "pending_seq q = sort_key qi_created_at (filter is_pending q)"

lemma set_pending_seq [simp]: "set (pending_seq q) = {i \<in> set q. is_pending i}"
  by (simp add: pending_seq_def)

lemma pending_seq_filter: "pending_seq (filter p q) = filter p (pending_seq q)"
  unfolding pending_seq_def filter_sort [symmetric] by (simp add: filter_filter conj_commute)

lemma pending_seq_snoc:
  assumes "\<forall>j \<in> set q. is_pending j \<longrightarrow> qi_created_at j \<le> qi_created_at i" and "is_pending i"
  shows "pending_seq (q @ [i]) = pending_seq q @ [i]"
  unfolding pending_seq_def
proof (rule properties_for_sort_key)
  show "sorted (map qi_created_at (sort_key qi_created_at (filter is_pending q) @ [i]))"
    using assms by (auto simp: sorted_append)
  show "filter (\<lambda>x. qi_created_at k = qi_created_at x) (sort_key qi_created_at (filter is_pending q) @ [i])
      = filter (\<lambda>x. qi_created_at k = qi_created_at x) (filter is_pending (q @ [i]))" for k
    using assms(2) sort_key_stable [of qi_created_at "qi_created_at k" "filter is_pending q"]
    by (simp add: eq_commute [of "qi_created_at k"])
qed (use assms in simp)

lemma dequeue_filter: "fst (dequeue k q) = filter (\<lambda>i. qi_id i \<noteq> k) q"
  by (simp add: dequeue_def sql_delete_def)

lemma update_drops_pending:
  assumes "\<And>i. \<not> is_pending (f i)"
  shows "pending_seq (fst (update_item k f q)) = filter (\<lambda>i. qi_id i \<noteq> k) (pending_seq q)"
proof -
  have "filter is_pending (fst (update_item k f q)) = filter is_pending (filter (\<lambda>i. qi_id i \<noteq> k) q)"
    using assms by (induction q) (auto simp: update_item_def sql_update_def)
  then have "pending_seq (fst (update_item k f q)) = pending_seq (filter (\<lambda>i. qi_id i \<noteq> k) q)"
    by (simp add: pending_seq_def)
  then show ?thesis by (simp add: pending_seq_filter)
qed

text \<open>
  C8: The table implements a first-in first-out queue of pending items. \<open>peek\<close> returns the oldest
  items in order; a new item, created no earlier than the pending ones, goes to the end; an item
  that is dequeued, taken up for processing or marked failed leaves the sequence and the order of
  the others is kept.
\<close>

theorem queue_refines_fifo:
  assumes "qi_id i \<noteq> []" and "get_item q (qi_id i) = None" and "is_pending i"
    and "\<forall>j \<in> set (pending_seq q). qi_created_at j \<le> qi_created_at i"
  shows "peek n q = take n (pending_seq q)
       \<and> (\<exists>q'. enqueue u i q = Inr (q', qi_id i) \<and> pending_seq q' = pending_seq q @ [i])
       \<and> pending_seq (fst (dequeue k q)) = filter (\<lambda>j. qi_id j \<noteq> k) (pending_seq q)
       \<and> pending_seq (fst (mark_processing now k q)) = filter (\<lambda>j. qi_id j \<noteq> k) (pending_seq q)
       \<and> pending_seq (fst (mark_failed k e q)) = filter (\<lambda>j. qi_id j \<noteq> k) (pending_seq q)"
  using assms enqueue_fresh [OF assms(1,2)] pending_seq_snoc [of q i]
  by (auto simp: peek_def pending_seq_def [symmetric] dequeue_filter pending_seq_filter
      mark_processing_def mark_failed_def update_drops_pending)

definition demo_item :: "string \<Rightarrow> datetime \<Rightarrow> queue_item" where
  "demo_item k t = \<lparr>qi_id = k, qi_item_type = ''event'', qi_payload = [], qi_created_at = t,
     qi_attempts = 0, qi_last_attempt_at = None, qi_last_error = None, qi_status = ''pending''\<rparr>"

theorem queue_refines_fifo_witness:
  "\<exists>q'. enqueue ''u'' (demo_item ''b'' 2) [demo_item ''a'' 1] = Inr (q', ''b'')
      \<and> pending_seq q' = pending_seq [demo_item ''a'' 1] @ [demo_item ''b'' 2]
      \<and> peek 1 [demo_item ''a'' 1] = [demo_item ''a'' 1]"
  using queue_refines_fifo [where i = "demo_item ''b'' 2" and q = "[demo_item ''a'' 1]" and u = "''u''" and n = 1]
  by (simp add: demo_item_def get_item_def sql_get_def peek_def)

section \<open>Statistics\<close>

lemma group_count_get: "dict_get0 (group_count f q) k = length (filter (\<lambda>i. f i = k) q)"
proof (induction q)
  case (Cons i q)
  let ?d = "group_count f q"
  have m: "map_of (map (\<lambda>(k, m). if k = f i then (k, m + 1) else (k, m)) ds) k
      = (if k = f i then map_option Suc (map_of ds k) else map_of ds k)" for ds :: "(string \<times> nat) list"
    by (induction ds) auto
  show ?case
    using Cons m [of ?d] by (cases "map_of ?d (f i)") (auto simp: dict_get0_def Let_def split: option.splits)
qed (simp add: dict_get0_def)

lemma sum_bump:
  "distinct (map fst d) \<Longrightarrow> map_of d x = Some n \<Longrightarrow>
   sum_list (map snd (map (\<lambda>(k, m). if k = x then (k, m + 1) else (k, m)) d)) = Suc (sum_list (map snd d))"
proof (induction d)
  case (Cons p d)
  have "map (\<lambda>(k, m). if k = x then (k, m + 1) else (k, m)) d = d" if "x \<notin> fst ` set d"
    using that by (force intro!: map_idI)
  with Cons show ?case by (cases p) (auto split: if_splits simp del: map_map)
qed simp

lemma group_count_total:
  "distinct (map fst (group_count f q)) \<and> sum_list (map snd (group_count f q)) = length q"
proof (induction q)
  case (Cons i q)
  let ?d = "group_count f q"
  have "map fst (map (\<lambda>(k, m). if k = f i then (k, m + 1) else (k, m)) ?d) = map fst ?d"
    by (induction ?d) auto
  with Cons sum_bump [of ?d "f i"] show ?case
    by (cases "map_of ?d (f i)")
      (simp_all add: Let_def map_of_eq_None_iff [THEN iffD1] del: map_map)
qed simp

text \<open>
  The statistics count each status, agree with the pending and failed counts, and the total
  is the number of rows; when every row has one of the three statuses they add up to it.
\<close>

theorem queue_stats_exact:
  "st_pending (queue_get_stats q) = get_pending_count q
   \<and> st_failed (queue_get_stats q) = get_failed_count q
   \<and> get_failed_count q = length (get_failed_items q)
   \<and> st_total (queue_get_stats q) = length q
   \<and> ((\<forall>i \<in> set q. qi_status i \<in> {''pending'', ''processing'', ''failed''}) \<longrightarrow>
      st_pending (queue_get_stats q) + st_processing (queue_get_stats q) + st_failed (queue_get_stats q) = length q)"
proof -
  have "length (filter (\<lambda>i. qi_status i = ''pending'') q) + length (filter (\<lambda>i. qi_status i = ''processing'') q)
      + length (filter (\<lambda>i. qi_status i = ''failed'') q) = length q"
    if "\<forall>i \<in> set q. qi_status i \<in> {''pending'', ''processing'', ''failed''}"
    using that by (induction q) auto
  then show ?thesis
    by (simp add: queue_get_stats_def Let_def group_count_get group_count_total get_pending_count_def
        get_failed_count_def get_failed_items_def)
qed

theorem queue_stats_exact_witness:
  "st_pending (queue_get_stats [demo_item ''a'' 1, (demo_item ''b'' 2)\<lparr>qi_status := ''failed''\<rparr>])
   + st_processing (queue_get_stats [demo_item ''a'' 1, (demo_item ''b'' 2)\<lparr>qi_status := ''failed''\<rparr>])
   + st_failed (queue_get_stats [demo_item ''a'' 1, (demo_item ''b'' 2)\<lparr>qi_status := ''failed''\<rparr>]) = 2"
  using queue_stats_exact [of "[demo_item ''a'' 1, (demo_item ''b'' 2)\<lparr>qi_status := ''failed''\<rparr>]"]
  by (simp add: demo_item_def)


end
