(* ===== verification/Proxy.thy ===== *)
theory Proxy
  imports StateCache SyncQueue
begin

text \<open>
  The site agent's proxy to the central controller, src/src/agent/proxy.py: it answers from the
  node cache, forwards requests, and queues writes while offline.

  The controller and the network are an input: a \<open>world\<close> holds the time, the next UUID, the
  connectivity status and the outcome of an HTTP request. An operation maps the agent's state
  (cache, queue, metrics) to the new state and either its result or the exception that leaves
  it; what was written before an exception stays. Results that are Python dicts are association
  lists of JSON values.
\<close>

section \<open>The controller seen from the agent\<close>

record http_request =
  rq_method :: string
  rq_path :: string
  rq_params :: "(string \<times> string) list"
  rq_body :: "(string \<times> json) list option"

text \<open>
  A response with its decoded body (\<open>JNull\<close> when it is not JSON), an \<open>aiohttp.ClientError\<close>, or any
  other exception such as a timeout.
\<close>

datatype http_outcome = HttpResponse int json | HttpClientError string | HttpOtherError string

record world =
  w_now :: datetime
  w_uuid :: string
  w_online :: bool
  w_request :: "http_request \<Rightarrow> http_outcome"

record proxy_metrics =
  requests_total :: nat
  requests_proxied :: nat
  requests_from_cache :: nat
  requests_queued :: nat
  requests_failed :: nat
  central_errors :: nat

record agent =
  ag_cache :: "cached_node list"
  ag_queue :: "queue_item list"
  ag_metrics :: proxy_metrics

text \<open>\<open>cfg_queue\<close>: whether \<open>set_offline_components\<close> gave the proxy a queue.\<close>

record proxy_config =
  cfg_site_id :: string
  cfg_default_ttl :: int
  cfg_queue :: bool

type_synonym 'a outcome = "agent \<times> (agent_error + 'a)"

type_synonym dict = "(string \<times> json) list"

section \<open>Metrics\<close>

definition record_request :: "bool \<Rightarrow> bool \<Rightarrow> bool \<Rightarrow> proxy_metrics \<Rightarrow> proxy_metrics" where
  "record_request from_cache queued failed m0 =
     (let m = m0\<lparr>requests_total := requests_total m0 + 1\<rparr> in
      if failed then m\<lparr>requests_failed := requests_failed m + 1\<rparr>
      else if queued then m\<lparr>requests_queued := requests_queued m + 1\<rparr>
      else if from_cache then m\<lparr>requests_from_cache := requests_from_cache m + 1\<rparr>
      else m\<lparr>requests_proxied := requests_proxied m + 1\<rparr>)"

definition record_central_error :: "proxy_metrics \<Rightarrow> proxy_metrics" where
  "record_central_error m = m\<lparr>central_errors := central_errors m + 1\<rparr>"

abbreviation proxied :: "agent \<Rightarrow> agent" where
  "proxied a \<equiv> a\<lparr>ag_metrics := record_request False False False (ag_metrics a)\<rparr>"

abbreviation from_cache :: "agent \<Rightarrow> agent" where
  "from_cache a \<equiv> a\<lparr>ag_metrics := record_request True False False (ag_metrics a)\<rparr>"

abbreviation queued :: "agent \<Rightarrow> agent" where
  "queued a \<equiv> a\<lparr>ag_metrics := record_request False True False (ag_metrics a)\<rparr>"

abbreviation failed :: "agent \<Rightarrow> agent" where
  "failed a \<equiv> a\<lparr>ag_metrics := record_request False False True (ag_metrics a)\<rparr>"

section \<open>Requests\<close>

datatype request_result = Unavailable string | Response int json | Raised agent_error

definition request :: "world \<Rightarrow> http_request \<Rightarrow> agent \<Rightarrow> agent \<times> request_result" where
  "request w rq a =
     (case w_request w rq of
        HttpResponse st d \<Rightarrow> (a, Response st d)
      | HttpClientError e \<Rightarrow>
          (a\<lparr>ag_metrics := record_central_error (ag_metrics a)\<rparr>, Unavailable (''Central unavailable: '' @ e))
      | HttpOtherError e \<Rightarrow> (a, Raised (TransportError e)))"

record proxy_response =
  pr_status_code :: int
  pr_data :: json
  pr_error :: "string option"

text \<open>\<open>data: dict | list | None\<close>; any other JSON value fails validation.\<close>

fun response_data_ok :: "json \<Rightarrow> bool" where
  "response_data_ok JNull = True"
| "response_data_ok (JObj d) = True"
| "response_data_ok (JList xs) = True"
| "response_data_ok _ = False"

definition proxy_request ::
    "world \<Rightarrow> string \<Rightarrow> string \<Rightarrow> (string \<times> string) list \<Rightarrow> dict option \<Rightarrow> agent \<Rightarrow> proxy_response outcome" where
  "proxy_request w meth path params body a =
     (case request w \<lparr>rq_method = meth, rq_path = path, rq_params = params, rq_body = body\<rparr> a of
        (a', Response st d) \<Rightarrow>
          (proxied a', if response_data_ok d
                       then Inr \<lparr>pr_status_code = st, pr_data = d, pr_error = None\<rparr>
                       else Inl ValidationError)
      | (a', Unavailable e) \<Rightarrow>
          (failed a', Inr \<lparr>pr_status_code = 503, pr_data = JNull, pr_error = Some e\<rparr>)
      | (a', Raised e) \<Rightarrow> (a', Inl e))"

text \<open>\<open>d.get(k, default)\<close>.\<close>

definition jget_default :: "dict \<Rightarrow> string \<Rightarrow> json \<Rightarrow> json" where
  "jget_default d k v = (case map_of d k of None \<Rightarrow> v | Some x \<Rightarrow> x)"

text \<open>\<open>self.state_cache.set_node(...)\<close> with the cache of the agent.\<close>

definition cache_node ::
    "proxy_config \<Rightarrow> world \<Rightarrow> json \<Rightarrow> json \<Rightarrow> json \<Rightarrow> json \<Rightarrow> json \<Rightarrow> json \<Rightarrow> json \<Rightarrow> json \<Rightarrow> dict \<Rightarrow>
     agent \<Rightarrow> cached_node outcome" where
  "cache_node cfg w mac nid st wid gid ip ve mo raw a =
     (case set_node (w_now w) (cfg_default_ttl cfg) mac nid st wid gid ip ve mo raw None (ag_cache a) of
        Inl e \<Rightarrow> (a, Inl e)
      | Inr (c, n) \<Rightarrow> (a\<lparr>ag_cache := c\<rparr>, Inr n))"

text \<open>The entry to use of a search result: the first of a non-empty list, or a dict itself.\<close>

fun node_data :: "json \<Rightarrow> json option" where
  "node_data (JList (x # xs)) = Some x"
| "node_data (JObj d) = Some (JObj d)"
| "node_data _ = None"

definition get_node_by_mac :: "proxy_config \<Rightarrow> world \<Rightarrow> string \<Rightarrow> agent \<Rightarrow> cached_node option outcome" where
  "get_node_by_mac cfg w mac0 a =
     (let mac = norm_mac mac0; cached = get_node mac (ag_cache a) in
      if cached \<noteq> None \<and> \<not> cn_is_expired (w_now w) (the cached) then (from_cache a, Inr cached)
      else case request w \<lparr>rq_method = ''GET'', rq_path = ''/api/v1/nodes'', rq_params = [(''mac'', mac)], rq_body = None\<rparr> a of
        (a', Response st d) \<Rightarrow>
          (if st = 200 \<and> jtruthy d
           then case node_data d of
                  None \<Rightarrow> (proxied a', Inr None)
                | Some (JObj nd) \<Rightarrow>
                    (case cache_node cfg w (JStr mac) (jget nd ''id'') (jget_default nd ''state'' (JStr ''discovered''))
                            (jget nd ''workflow_id'') (jget nd ''group_id'') (jget nd ''ip_address'')
                            (jget nd ''vendor'') (jget nd ''model'') nd a' of
                       (a2, Inl e) \<Rightarrow> (a2, Inl e)
                     | (a2, Inr n) \<Rightarrow> (proxied a2, Inr (Some n)))
                | Some _ \<Rightarrow> (a', Inl AttributeError)
           else (proxied a', Inr None))
      | (a', Unavailable e) \<Rightarrow>
          (if cached \<noteq> None then (from_cache a', Inr cached) else (failed a', Inr None))
      | (a', Raised e) \<Rightarrow> (a', Inl e))"

section \<open>Writes\<close>

text \<open>Queueing a write while offline: the item, its row, the metrics and the reply.\<close>

definition queue_write :: "world \<Rightarrow> string \<Rightarrow> dict \<Rightarrow> agent \<Rightarrow> dict outcome" where
  "queue_write w item_type payload a =
     (let item = \<lparr>qi_id = w_uuid w, qi_item_type = item_type, qi_payload = payload, qi_created_at = w_now w,
                  qi_attempts = 0, qi_last_attempt_at = None, qi_last_error = None, qi_status = ''pending''\<rparr>
      in case enqueue (w_uuid w) item (ag_queue a) of
           Inl e \<Rightarrow> (a, Inl (QueueDbError e))
         | Inr (q, i) \<Rightarrow>
             (queued (a\<lparr>ag_queue := q\<rparr>),
              Inr [(''status'', JStr ''queued''), (''offline'', JBool True), (''queue_id'', JStr (w_uuid w))]))"

definition must_queue :: "proxy_config \<Rightarrow> world \<Rightarrow> bool \<Rightarrow> bool" where
  "must_queue cfg w offline_sync \<longleftrightarrow> \<not> w_online w \<and> cfg_queue cfg \<and> \<not> offline_sync"

definition failure_reply :: "proxy_response \<Rightarrow> dict" where
  "failure_reply r =
     [(''success'', JBool False), (''status_code'', JInt (pr_status_code r)),
      (''error'', case pr_error r of None \<Rightarrow> JNull | Some e \<Rightarrow> JStr e)]"

text \<open>\<open>{**a, **b}\<close>\<close>

definition dict_update :: "dict \<Rightarrow> dict \<Rightarrow> dict" where
  "dict_update a b = fold (\<lambda>(k, v). dict_put k v) b a"

fun opt_json :: "string option \<Rightarrow> json" where
  "opt_json None = JNull"
| "opt_json (Some s) = JStr s"

text \<open>The registration built from the arguments, without the missing ones.\<close>

definition build_registration ::
    "proxy_config \<Rightarrow> string option \<Rightarrow> string option \<Rightarrow> string option \<Rightarrow> string option \<Rightarrow> string option \<Rightarrow> string option \<Rightarrow> dict" where
  "build_registration cfg mac_address ip_address vendor model serial_number system_uuid =
     filter (\<lambda>(k, v). v \<noteq> JNull)
       [(''mac_address'', opt_json mac_address), (''ip_address'', opt_json ip_address),
        (''vendor'', opt_json vendor), (''model'', opt_json model),
        (''serial_number'', opt_json serial_number), (''system_uuid'', opt_json system_uuid),
        (''site_id'', JStr (cfg_site_id cfg))]"

definition register_node :: "proxy_config \<Rightarrow> world \<Rightarrow> dict \<Rightarrow> bool \<Rightarrow> agent \<Rightarrow> dict outcome" where
  "register_node cfg w registration offline_sync a =
     (if must_queue cfg w offline_sync then queue_write w ''registration'' registration a
      else case proxy_request w ''POST'' ''/api/v1/nodes/register'' [] (Some registration) a of
        (a', Inl e) \<Rightarrow> (a', Inl e)
      | (a', Inr r) \<Rightarrow>
          (if pr_status_code r \<in> {200, 201} \<and> jtruthy (pr_data r)
           then case pr_data r of
                  JObj d \<Rightarrow>
                    (case cache_node cfg w (jget registration ''mac_address'') (jget d ''id'')
                            (jget_default d ''state'' (JStr ''discovered'')) (jget d ''workflow_id'')
                            (jget d ''group_id'') (jget registration ''ip_address'')
                            (jget registration ''vendor'') (jget registration ''model'') d a' of
                       (a2, Inl e) \<Rightarrow> (a2, Inl e)
                     | (a2, Inr n) \<Rightarrow> (a2, Inr (dict_update [(''success'', JBool True)] d)))
                | _ \<Rightarrow> (a', Inl AttributeError)
           else (a', Inr (failure_reply r))))"

text \<open>The cached entry of a node whose state was changed, if there is one.\<close>

definition refresh_cached :: "proxy_config \<Rightarrow> world \<Rightarrow> string \<Rightarrow> string \<Rightarrow> string option \<Rightarrow> agent \<Rightarrow> agent" where
  "refresh_cached cfg w node_id new_state mac_address a =
     (if truthy mac_address
      then case get_node (the mac_address) (ag_cache a) of
             None \<Rightarrow> a
           | Some c \<Rightarrow> fst (cache_node cfg w (opt_json mac_address) (JStr node_id) (JStr new_state)
                          (opt_json (cn_workflow_id c)) (opt_json (cn_group_id c)) (opt_json (cn_ip_address c))
                          (opt_json (cn_vendor c)) (opt_json (cn_model c)) (cn_raw_data c) a)
      else a)"

definition update_node_state ::
    "proxy_config \<Rightarrow> world \<Rightarrow> string \<Rightarrow> string \<Rightarrow> string option \<Rightarrow> bool \<Rightarrow> agent \<Rightarrow> dict outcome" where
  "update_node_state cfg w node_id new_state mac_address offline_sync a =
     (if must_queue cfg w offline_sync
      then case queue_write w ''state_update'' [(''node_id'', JStr node_id), (''new_state'', JStr new_state),
                  (''mac_address'', opt_json mac_address)] a of
             (a', Inl e) \<Rightarrow> (a', Inl e)
           | (a', Inr r) \<Rightarrow> (refresh_cached cfg w node_id new_state mac_address a', Inr r)
      else case proxy_request w ''PATCH'' (''/api/v1/nodes/'' @ node_id @ ''/state'') []
                  (Some [(''state'', JStr new_state)]) a of
        (a', Inl e) \<Rightarrow> (a', Inl e)
      | (a', Inr r) \<Rightarrow>
          (if pr_status_code r = 200
           then (refresh_cached cfg w node_id new_state mac_address a', Inr [(''success'', JBool True)])
           else (a', Inr (failure_reply r))))"

text \<open>\<open>event\<close> is the full event of a queued item, or it is built from its type and data.\<close>

definition build_event :: "proxy_config \<Rightarrow> dict option \<Rightarrow> string option \<Rightarrow> dict \<Rightarrow> dict" where
  "build_event cfg event0 event_type event_data =
     (let event = (case event0 of
            Some e \<Rightarrow> e
          | None \<Rightarrow> [(''event_type'', opt_json event_type), (''event_data'', JObj event_data),
                     (''site_id'', JStr (cfg_site_id cfg))])
      in if ''site_id'' \<notin> fst ` set event then dict_put ''site_id'' (JStr (cfg_site_id cfg)) event else event)"

definition report_node_event ::
    "proxy_config \<Rightarrow> world \<Rightarrow> string \<Rightarrow> dict option \<Rightarrow> string option \<Rightarrow> dict \<Rightarrow> bool \<Rightarrow> agent \<Rightarrow> dict outcome" where
  "report_node_event cfg w node_id event0 event_type event_data offline_sync a =
     (let event = build_event cfg event0 event_type event_data in
      if must_queue cfg w offline_sync
      then queue_write w ''event'' [(''node_id'', JStr node_id), (''event'', JObj event)] a
      else case proxy_request w ''POST'' (''/api/v1/nodes/'' @ node_id @ ''/event'') [] (Some event) a of
        (a', Inl e) \<Rightarrow> (a', Inl e)
      | (a', Inr r) \<Rightarrow>
          (if pr_status_code r \<in> {200, 201} then (a', Inr [(''success'', JBool True)])
           else (a', Inr (failure_reply r))))"

definition get_workflow :: "world \<Rightarrow> string \<Rightarrow> agent \<Rightarrow> json outcome" where
  "get_workflow w workflow_id a =
     (case proxy_request w ''GET'' (''/api/v1/workflows/'' @ workflow_id) [] None a of
        (a', Inl e) \<Rightarrow> (a', Inl e)
      | (a', Inr r) \<Rightarrow> (a', Inr (if pr_status_code r = 200 then pr_data r else JNull)))"

definition invalidate_node_cache :: "string \<Rightarrow> agent \<Rightarrow> agent" where
  "invalidate_node_cache mac a = a\<lparr>ag_cache := fst (invalidate mac (ag_cache a))\<rparr>"

section \<open>The agent's invariant\<close>

text \<open>The calls the agent's HTTP server and its jobs make.\<close>

datatype proxy_call =
    GetNodeByMac string
  | RegisterNode dict bool
  | UpdateNodeState string string "string option" bool
  | ReportNodeEvent string "dict option" "string option" dict bool
  | GetWorkflow string
  | ProxyRequest string string "(string \<times> string) list" "dict option"
  | InvalidateNodeCache string

fun proxy_step :: "proxy_config \<Rightarrow> world \<times> proxy_call \<Rightarrow> agent \<Rightarrow> agent" where
  "proxy_step cfg (w, GetNodeByMac mac) a = fst (get_node_by_mac cfg w mac a)"
| "proxy_step cfg (w, RegisterNode r s) a = fst (register_node cfg w r s a)"
| "proxy_step cfg (w, UpdateNodeState i st m s) a = fst (update_node_state cfg w i st m s a)"
| "proxy_step cfg (w, ReportNodeEvent i e t d s) a = fst (report_node_event cfg w i e t d s a)"
| "proxy_step cfg (w, GetWorkflow i) a = fst (get_workflow w i a)"
| "proxy_step cfg (w, ProxyRequest m p ps b) a = fst (proxy_request w m p ps b a)"
| "proxy_step cfg (w, InvalidateNodeCache m) a = invalidate_node_cache m a"

definition metrics_ok :: "proxy_metrics \<Rightarrow> bool" where
  "metrics_ok m \<longleftrightarrow>
     requests_total m = requests_proxied m + requests_from_cache m + requests_queued m + requests_failed m"

definition agent_inv :: "agent \<Rightarrow> bool" where
  "agent_inv a \<longleftrightarrow> cache_inv (ag_cache a) \<and> keys_unique qi_id (ag_queue a) \<and> metrics_ok (ag_metrics a)"

lemma metrics_ok_record [simp]:
  "metrics_ok m \<Longrightarrow> metrics_ok (record_request c q f m)"
  "metrics_ok m \<Longrightarrow> metrics_ok (record_central_error m)"
  by (auto simp: metrics_ok_def record_request_def record_central_error_def Let_def)

lemma request_inv: "agent_inv a \<Longrightarrow> agent_inv (fst (request w rq a))"
  by (auto simp: request_def agent_inv_def split: http_outcome.splits)

lemma proxy_request_inv: "agent_inv a \<Longrightarrow> agent_inv (fst (proxy_request w m p ps b a))"
  using request_inv [of a w "\<lparr>rq_method = m, rq_path = p, rq_params = ps, rq_body = b\<rparr>"]
  by (auto simp: proxy_request_def agent_inv_def split: prod.splits request_result.splits)

lemma cache_node_inv: "agent_inv a \<Longrightarrow> agent_inv (fst (cache_node cfg w mac nid st wid gid ip ve mo raw a))"
  by (auto simp: cache_node_def agent_inv_def intro: set_node_inv split: sum.splits prod.splits)

lemma get_node_by_mac_inv:
  assumes "agent_inv a"
  shows "agent_inv (fst (get_node_by_mac cfg w mac a))"
proof -
  let ?rq = "\<lparr>rq_method = ''GET'', rq_path = ''/api/v1/nodes'', rq_params = [(''mac'', norm_mac mac)], rq_body = None\<rparr>"
  obtain a' r where r: "request w ?rq a = (a', r)" by fastforce
  with assms request_inv [of a w ?rq] have i: "agent_inv a'" by simp
  then have p: "agent_inv (proxied a')" "agent_inv (from_cache a')" "agent_inv (failed a')" "agent_inv (from_cache a)"
    using assms by (auto simp: agent_inv_def)
  have c: "agent_inv a2 \<and> agent_inv (proxied a2)"
    if "cache_node cfg w m nid st wid gid ip ve mo raw a' = (a2, x)" for m nid st wid gid ip ve mo raw a2 x
    using cache_node_inv [OF i, of cfg w m nid st wid gid ip ve mo raw] that by (simp add: agent_inv_def)
  show ?thesis
    using r i p by (auto simp: get_node_by_mac_def Let_def dest: c
        split: request_result.splits option.splits json.splits prod.splits sum.splits)
qed

lemma queue_write_inv: "agent_inv a \<Longrightarrow> agent_inv (fst (queue_write w t p a))"
  by (auto simp: queue_write_def Let_def agent_inv_def enqueue_def
      intro: keys_unique_insert split: sum.splits prod.splits if_splits)

lemma refresh_cached_inv: "agent_inv a \<Longrightarrow> agent_inv (refresh_cached cfg w i st m a)"
  by (auto simp: refresh_cached_def intro: cache_node_inv split: option.splits)

lemma register_node_inv:
  assumes "agent_inv a"
  shows "agent_inv (fst (register_node cfg w r s a))"
proof (cases "must_queue cfg w s")
  case True
  with assms show ?thesis by (simp add: register_node_def queue_write_inv)
next
  case False
  obtain a' x where p: "proxy_request w ''POST'' ''/api/v1/nodes/register'' [] (Some r) a = (a', x)" by fastforce
  with proxy_request_inv [OF assms] have i: "agent_inv a'" by (metis fst_conv)
  have c: "agent_inv a2" if "cache_node cfg w m nid st wid gid ip ve mo raw a' = (a2, y)"
    for m nid st wid gid ip ve mo raw a2 y
    using cache_node_inv [OF i, of cfg w m nid st wid gid ip ve mo raw] that by simp
  show ?thesis
    using False p i
    by (auto simp: register_node_def dest: c split: sum.splits json.splits prod.splits)
qed

lemma update_node_state_inv:
  assumes "agent_inv a"
  shows "agent_inv (fst (update_node_state cfg w i st m s a))"
  using queue_write_inv [OF assms, of w "''state_update''"] proxy_request_inv [OF assms, of w "''PATCH''"]
  by (auto simp: update_node_state_def intro: refresh_cached_inv split: prod.splits sum.splits)
    (metis fst_conv refresh_cached_inv)+

lemma report_node_event_inv:
  assumes "agent_inv a"
  shows "agent_inv (fst (report_node_event cfg w i e t d s a))"
  using proxy_request_inv [OF assms, of w "''POST''"]
  by (auto simp: report_node_event_def Let_def queue_write_inv [OF assms] split: prod.splits sum.splits)
    (metis fst_conv)+

lemma proxy_step_inv: "agent_inv a \<Longrightarrow> agent_inv (proxy_step cfg wc a)"
proof (induction cfg wc a rule: proxy_step.induct)
  case (5 cfg w i a)
  then show ?case
    using proxy_request_inv [of a w "''GET''" "''/api/v1/workflows/'' @ i" "[]" None]
    by (auto simp: get_workflow_def split: prod.splits sum.splits)
next
  case (7 cfg w m a)
  then show ?case
    by (auto simp: invalidate_node_cache_def agent_inv_def invalidate_def nc.inv_remove)
qed (simp_all add: get_node_by_mac_inv register_node_inv update_node_state_inv report_node_event_inv proxy_request_inv)

definition empty_agent :: agent where
  "empty_agent = \<lparr>ag_cache = [], ag_queue = [], ag_metrics = \<lparr>requests_total = 0, requests_proxied = 0,
     requests_from_cache = 0, requests_queued = 0, requests_failed = 0, central_errors = 0\<rparr>\<rparr>"

lemma empty_agent_inv: "agent_inv empty_agent"
  by (simp add: agent_inv_def empty_agent_def cache_inv_def keys_unique_def metrics_ok_def)

lemma fold_proxy_inv: "agent_inv a \<Longrightarrow> agent_inv (fold (proxy_step cfg) calls a)"
  by (induction calls arbitrary: a) (simp_all add: proxy_step_inv)

text \<open>
  Whatever calls are made, whatever the controller answers and whichever of them raise, the
  agent's cache holds one entry per normalised MAC address, its queue one row per identifier, and
  the request counters add up: every counted request was proxied, served from the cache, queued or
  failed.
\<close>

theorem proxy_keeps_agent_sound:
  "let a = fold (proxy_step cfg) calls empty_agent in
     distinct (map cn_mac_address (ag_cache a))
   \<and> (\<forall>n \<in> set (ag_cache a). norm_mac (cn_mac_address n) = cn_mac_address n)
   \<and> distinct (map qi_id (ag_queue a))
   \<and> requests_total (ag_metrics a) = requests_proxied (ag_metrics a) + requests_from_cache (ag_metrics a)
       + requests_queued (ag_metrics a) + requests_failed (ag_metrics a)"
  using fold_proxy_inv [OF empty_agent_inv, of cfg calls]
  by (simp add: Let_def agent_inv_def cache_inv_def keys_unique_def metrics_ok_def)

definition demo_world :: "bool \<Rightarrow> http_outcome \<Rightarrow> world" where
  "demo_world on r = \<lparr>w_now = 0, w_uuid = ''q1'', w_online = on, w_request = (\<lambda>rq. r)\<rparr>"

definition demo_config :: proxy_config where
  "demo_config = \<lparr>cfg_site_id = ''s1'', cfg_default_ttl = 300, cfg_queue = True\<rparr>"

theorem proxy_keeps_agent_sound_witness:
  "let a = fold (proxy_step demo_config) [(demo_world True (HttpClientError ''down''), GetNodeByMac ''AA''),
             (demo_world False (HttpClientError ''down''), RegisterNode [] False)] empty_agent
   in requests_total (ag_metrics a) = 2 \<and> requests_queued (ag_metrics a) = 1 \<and> requests_failed (ag_metrics a) = 1
    \<and> distinct (map qi_id (ag_queue a))"
  using proxy_keeps_agent_sound [of demo_config "[(demo_world True (HttpClientError ''down''), GetNodeByMac ''AA''),
             (demo_world False (HttpClientError ''down''), RegisterNode [] False)]"]
  by (simp add: Let_def demo_world_def demo_config_def empty_agent_def get_node_by_mac_def get_node_def
      fetch_node_def sql_get_def request_def register_node_def must_queue_def queue_write_def enqueue_def
      sql_insert_def record_request_def record_central_error_def)

section \<open>Offline writes\<close>

definition queued_item :: "world \<Rightarrow> string \<Rightarrow> dict \<Rightarrow> queue_item" where
  "queued_item w t payload =
     \<lparr>qi_id = w_uuid w, qi_item_type = t, qi_payload = payload, qi_created_at = w_now w,
      qi_attempts = 0, qi_last_attempt_at = None, qi_last_error = None, qi_status = ''pending''\<rparr>"

definition queued_reply :: "world \<Rightarrow> dict" where
  "queued_reply w = [(''status'', JStr ''queued''), (''offline'', JBool True), (''queue_id'', JStr (w_uuid w))]"

lemma queue_write_fresh:
  assumes "w_uuid w \<noteq> []" and "get_item (ag_queue a) (w_uuid w) = None"
  shows "queue_write w t p a =
    (queued (a\<lparr>ag_queue := ag_queue a @ [queued_item w t p]\<rparr>), Inr (queued_reply w))"
proof -
  have "enqueue (w_uuid w) (queued_item w t p) (ag_queue a) = Inr (ag_queue a @ [queued_item w t p], w_uuid w)"
    using assms enqueue_fresh [of "queued_item w t p" "ag_queue a" "w_uuid w"] by (simp add: queued_item_def)
  then show ?thesis by (simp add: queue_write_def queued_item_def queued_reply_def Let_def)
qed

lemma cache_node_queue [simp]: "ag_queue (fst (cache_node cfg w m nid st wid gid ip ve mo raw a)) = ag_queue a"
  by (auto simp: cache_node_def split: sum.splits)

lemma refresh_cached_queue [simp]: "ag_queue (refresh_cached cfg w i st m a) = ag_queue a"
  by (auto simp: refresh_cached_def split: option.splits)

lemma opt_str_json [simp]: "opt_str (opt_json x) = Inr x"
  by (cases x) simp_all

lemma refresh_cached_found:
  assumes "cache_inv (ag_cache a)" and "get_node m (ag_cache a) = Some c" and "m \<noteq> []"
  shows "\<exists>n. get_node m (ag_cache (refresh_cached cfg w i st (Some m) a)) = Some n \<and> cn_state n = st"
proof -
  have "\<exists>c' n. set_node (w_now w) (cfg_default_ttl cfg) (JStr m) (JStr i) (JStr st)
      (opt_json (cn_workflow_id c)) (opt_json (cn_group_id c)) (opt_json (cn_ip_address c))
      (opt_json (cn_vendor c)) (opt_json (cn_model c)) (cn_raw_data c) None (ag_cache a) = Inr (c', n) \<and> cn_state n = st"
    by (simp add: set_node_def Let_def)
  then obtain c' n where s: "set_node (w_now w) (cfg_default_ttl cfg) (JStr m) (JStr i) (JStr st)
      (opt_json (cn_workflow_id c)) (opt_json (cn_group_id c)) (opt_json (cn_ip_address c))
      (opt_json (cn_vendor c)) (opt_json (cn_model c)) (cn_raw_data c) None (ag_cache a) = Inr (c', n)" "cn_state n = st"
    by blast
  from s(1) have "get_node m c' = Some n"
    by (rule set_node_Inr) (use nc.lookup_put_same [OF assms(1)] in \<open>auto simp: get_node_def\<close>, metis norm_mac_idem)
  with s assms(2,3) show ?thesis by (simp add: refresh_cached_def cache_node_def)
qed

text \<open>
  No write is lost while the agent is offline: a registration, a state change or an event is
  appended to the queue as one pending item with its full payload, the caller is told so, and
  nothing is asked of the controller. A state change is also visible at once in the cache if the
  node is cached.
\<close>

theorem offline_writes_are_queued:
  assumes "\<not> w_online w" and "cfg_queue cfg" and "w_uuid w \<noteq> []" and "get_item (ag_queue a) (w_uuid w) = None"
  shows "snd (register_node cfg w reg False a) = Inr (queued_reply w)
       \<and> ag_queue (fst (register_node cfg w reg False a)) = ag_queue a @ [queued_item w ''registration'' reg]
       \<and> snd (update_node_state cfg w i st m False a) = Inr (queued_reply w)
       \<and> ag_queue (fst (update_node_state cfg w i st m False a)) = ag_queue a @ [queued_item w ''state_update''
            [(''node_id'', JStr i), (''new_state'', JStr st), (''mac_address'', opt_json m)]]
       \<and> snd (report_node_event cfg w i e t d False a) = Inr (queued_reply w)
       \<and> ag_queue (fst (report_node_event cfg w i e t d False a)) = ag_queue a @ [queued_item w ''event''
            [(''node_id'', JStr i), (''event'', JObj (build_event cfg e t d))]]
       \<and> register_node cfg (w\<lparr>w_request := f\<rparr>) reg False a = register_node cfg w reg False a
       \<and> update_node_state cfg (w\<lparr>w_request := f\<rparr>) i st m False a = update_node_state cfg w i st m False a
       \<and> report_node_event cfg (w\<lparr>w_request := f\<rparr>) i e t d False a = report_node_event cfg w i e t d False a
       \<and> (cache_inv (ag_cache a) \<and> truthy m \<and> get_node (the m) (ag_cache a) \<noteq> None \<longrightarrow>
            (\<exists>n. get_node (the m) (ag_cache (fst (update_node_state cfg w i st m False a))) = Some n \<and> cn_state n = st))"
proof -
  have mq: "must_queue cfg w False" "must_queue cfg (w\<lparr>w_request := f\<rparr>) False"
    using assms by (simp_all add: must_queue_def)
  note qw = queue_write_fresh [OF assms(3,4)]
  have qf: "queue_write (w\<lparr>w_request := f\<rparr>) ty p b = queue_write w ty p b" for ty p b
    by (simp add: queue_write_def Let_def split: sum.split prod.split)
  have rf: "refresh_cached cfg (w\<lparr>w_request := f\<rparr>) i st m b = refresh_cached cfg w i st m b" for b
    by (simp add: refresh_cached_def cache_node_def split: option.split)
  have "\<exists>n. get_node (the m) (ag_cache (fst (update_node_state cfg w i st m False a))) = Some n \<and> cn_state n = st"
    if h: "cache_inv (ag_cache a)" "truthy m" "get_node (the m) (ag_cache a) \<noteq> None"
  proof -
    from h(2,3) obtain mm c where m: "m = Some mm" "mm \<noteq> []" "get_node mm (ag_cache a) = Some c"
      by (cases m) auto
    let ?b = "queued (a\<lparr>ag_queue := ag_queue a @ [queued_item w ''state_update''
        [(''node_id'', JStr i), (''new_state'', JStr st), (''mac_address'', opt_json m)]]\<rparr>)"
    have "cache_inv (ag_cache ?b)" "get_node mm (ag_cache ?b) = Some c" using h(1) m by simp_all
    from refresh_cached_found [OF this m(2), of cfg w i st] show ?thesis
      using m(1) by (simp add: update_node_state_def mq qw)
  qed
  then show ?thesis
    by (simp add: register_node_def update_node_state_def report_node_event_def mq qw Let_def qf rf)
qed

theorem offline_writes_are_queued_witness:
  "ag_queue (fst (register_node demo_config (demo_world False (HttpResponse 200 JNull)) [(''mac_address'', JStr ''aa'')] False empty_agent))
   = [queued_item (demo_world False (HttpResponse 200 JNull)) ''registration'' [(''mac_address'', JStr ''aa'')]]"
  using offline_writes_are_queued [where w = "demo_world False (HttpResponse 200 JNull)" and cfg = demo_config
      and a = empty_agent and reg = "[(''mac_address'', JStr ''aa'')]"]
  by (simp add: demo_world_def demo_config_def empty_agent_def get_item_def sql_get_def)


section \<open>Reads\<close>

lemma cache_node_found:
  assumes "cache_inv (ag_cache a)" and "cache_node cfg w (JStr m) nid st wid gid ip ve mo raw a = (a', Inr n)"
  shows "get_node m (ag_cache a') = Some n"
proof -
  from assms(2) obtain c where a': "a' = a\<lparr>ag_cache := c\<rparr>"
    and s: "set_node (w_now w) (cfg_default_ttl cfg) (JStr m) nid st wid gid ip ve mo raw None (ag_cache a) = Inr (c, n)"
    by (auto simp: cache_node_def split: sum.splits)
  from s have "get_node m c = Some n"
    by (rule set_node_Inr) (use nc.lookup_put_same [OF assms(1)] in \<open>auto simp: get_node_def\<close>, metis norm_mac_idem)
  with a' show ?thesis by simp
qed

lemma request_cache: "request w rq a = (a', r) \<Longrightarrow> ag_cache a' = ag_cache a \<and> ag_queue a' = ag_queue a"
  by (auto simp: request_def split: http_outcome.splits)

text \<open>
  The read policy. An entry that is cached and fresh is answered from the cache whatever the
  controller would say; when the controller cannot be reached, the answer is the cached entry
  however old, and the cache is kept; and every node that is answered is the entry the cache
  holds afterwards.
\<close>

theorem read_policy:
  assumes "cache_inv (ag_cache a)"
  shows "(get_node mac (ag_cache a) = Some n \<and> \<not> cn_is_expired (w_now w) n \<longrightarrow>
            get_node_by_mac cfg w mac a = (from_cache a, Inr (Some n)))
       \<and> ((\<forall>rq. \<exists>e. w_request w rq = HttpClientError e) \<longrightarrow>
            snd (get_node_by_mac cfg w mac a) = Inr (get_node mac (ag_cache a))
          \<and> ag_cache (fst (get_node_by_mac cfg w mac a)) = ag_cache a)
       \<and> (snd (get_node_by_mac cfg w mac a) = Inr (Some k) \<longrightarrow>
            get_node mac (ag_cache (fst (get_node_by_mac cfg w mac a))) = Some k)"
proof -
  let ?rq = "\<lparr>rq_method = ''GET'', rq_path = ''/api/v1/nodes'', rq_params = [(''mac'', norm_mac mac)], rq_body = None\<rparr>"
  obtain a' r where r: "request w ?rq a = (a', r)" by fastforce
  note c = request_cache [OF r]
  have g: "get_node (norm_mac mac) cc = get_node mac cc" for cc by (simp add: get_node_def)
  have fresh: "get_node mac (ag_cache a) = Some n \<and> \<not> cn_is_expired (w_now w) n \<Longrightarrow>
      get_node_by_mac cfg w mac a = (from_cache a, Inr (Some n))"
    by (simp add: get_node_by_mac_def Let_def g)
  have down: "snd (get_node_by_mac cfg w mac a) = Inr (get_node mac (ag_cache a))
      \<and> ag_cache (fst (get_node_by_mac cfg w mac a)) = ag_cache a"
    if "\<forall>rq. \<exists>e. w_request w rq = HttpClientError e"
  proof -
    from that obtain e where "w_request w ?rq = HttpClientError e" by blast
    then show ?thesis by (auto simp: get_node_by_mac_def Let_def request_def g)
  qed
  have inv': "cache_inv (ag_cache a')" using assms c by simp
  have found: "get_node mac (ag_cache (fst (get_node_by_mac cfg w mac a))) = Some k"
    if "snd (get_node_by_mac cfg w mac a) = Inr (Some k)"
    using that r c cache_node_found [OF inv', of cfg w "norm_mac mac"]
    by (auto simp: get_node_by_mac_def Let_def g
        split: if_splits request_result.splits option.splits json.splits prod.splits sum.splits)
  from fresh down found show ?thesis by blast
qed

theorem read_policy_witness:
  "let n = \<lparr>cn_mac_address = ''aa'', cn_node_id = None, cn_state = ''active'', cn_workflow_id = None,
            cn_group_id = None, cn_ip_address = None, cn_vendor = None, cn_model = None,
            cn_cached_at = 0, cn_expires_at = -5, cn_raw_data = []\<rparr>
   in snd (get_node_by_mac demo_config (demo_world True (HttpClientError ''down'')) ''aa'' (empty_agent\<lparr>ag_cache := [n]\<rparr>))
      = Inr (Some n)"
proof -
  let ?n = "\<lparr>cn_mac_address = ''aa'', cn_node_id = None, cn_state = ''active'', cn_workflow_id = None,
            cn_group_id = None, cn_ip_address = None, cn_vendor = None, cn_model = None,
            cn_cached_at = 0, cn_expires_at = -5, cn_raw_data = []\<rparr>"
  have l: "norm_mac ''aa'' = ''aa''" by code_simp
  have "cache_inv (ag_cache (empty_agent\<lparr>ag_cache := [?n]\<rparr>))"
    by (simp add: cache_inv_def keys_unique_def l)
  from read_policy [OF this, of "''aa''" _ "demo_world True (HttpClientError ''down'')" demo_config]
  show ?thesis by (simp add: demo_world_def get_node_def fetch_node_def sql_get_def l)
qed


end
