(* ===== verification/QueueProcessor.thy ===== *)
theory QueueProcessor
  imports Proxy
begin

text \<open>
  Replaying the queue when the connection is back, src/src/agent/queue_processor.py. Time, UUIDs,
  connectivity and the controller's answers are inputs that change from step to step: \<open>ws k\<close> is
  the world at the k-th test of the loop conditions and \<open>running k\<close> the processor's flag there.
  The loop of \<open>process_queue\<close> is a partial function, and that it returns is a theorem. Payloads
  of queued items are the ones the proxy writes, whose node ids and states are strings. Delays
  between attempts and the duration of a run are left out; the database calls do not fail.
\<close>

section \<open>One item\<close>

record processor_config =
  pc_batch_size :: nat
  pc_max_retries :: int

text \<open>\<open>result.get("status") == "queued"\<close> means the proxy did not send it.\<close>

definition sent :: "dict \<Rightarrow> bool" where
  "sent r \<longleftrightarrow> jget r ''status'' \<noteq> JStr ''queued''"

definition process_registration :: "proxy_config \<Rightarrow> world \<Rightarrow> dict \<Rightarrow> agent \<Rightarrow> agent \<times> bool" where
  "process_registration cfg w payload a =
     (case register_node cfg w payload True a of
        (a', Inl e) \<Rightarrow> (a', False)
      | (a', Inr r) \<Rightarrow>
          (a', sent r \<and> (jtruthy (jget_default r ''success'' (JBool False)) \<or> ''id'' \<in> fst ` set r)))"

fun str_value :: "json \<Rightarrow> string" where
  "str_value (JStr s) = s"
| "str_value _ = []"

definition process_state_update :: "proxy_config \<Rightarrow> world \<Rightarrow> dict \<Rightarrow> agent \<Rightarrow> agent \<times> bool" where
  "process_state_update cfg w payload a =
     (let node_id = str_value (jget payload ''node_id''); new_state = str_value (jget payload ''new_state'') in
      if node_id = [] \<or> new_state = [] then (a, False)
      else case update_node_state cfg w node_id new_state None True a of
        (a', Inl e) \<Rightarrow> (a', False)
      | (a', Inr r) \<Rightarrow> (a', sent r \<and> jtruthy (jget_default r ''success'' (JBool False))))"

definition process_event :: "proxy_config \<Rightarrow> world \<Rightarrow> dict \<Rightarrow> agent \<Rightarrow> agent \<times> bool" where
  "process_event cfg w payload a =
     (let node_id = str_value (jget payload ''node_id'') in
      if node_id = [] then (a, False)
      else case jget_default payload ''event'' (JObj []) of
        JObj e \<Rightarrow>
          (case report_node_event cfg w node_id (Some e) None [] True a of
             (a', Inl _) \<Rightarrow> (a', False)
           | (a', Inr r) \<Rightarrow> (a', sent r \<and> jtruthy (jget_default r ''success'' (JBool False))))
      | _ \<Rightarrow> (a, False))"

definition process_payload :: "proxy_config \<Rightarrow> world \<Rightarrow> queue_item \<Rightarrow> agent \<Rightarrow> agent \<times> bool" where
  "process_payload cfg w item a =
     (if qi_item_type item = ''registration'' then process_registration cfg w (qi_payload item) a
      else if qi_item_type item = ''state_update'' then process_state_update cfg w (qi_payload item) a
      else if qi_item_type item = ''event'' then process_event cfg w (qi_payload item) a
      else (a, False))"

definition process_item ::
    "proxy_config \<Rightarrow> processor_config \<Rightarrow> world \<Rightarrow> queue_item \<Rightarrow> agent \<Rightarrow> agent \<times> bool" where
  "process_item cfg pc w item a =
     (let a1 = a\<lparr>ag_queue := fst (mark_processing (w_now w) (qi_id item) (ag_queue a))\<rparr>;
          (a2, success) = process_payload cfg w item a1
      in if success then (a2\<lparr>ag_queue := fst (dequeue (qi_id item) (ag_queue a2))\<rparr>, True)
         else if qi_attempts item \<ge> pc_max_retries pc
         then (a2\<lparr>ag_queue := fst (mark_failed (qi_id item)
                 (''Max retries ('' @ show_int (pc_max_retries pc) @ '') exceeded'') (ag_queue a2))\<rparr>, False)
         else (a2\<lparr>ag_queue := fst (mark_pending (qi_id item) (ag_queue a2))\<rparr>, False))"

section \<open>The loop\<close>

text \<open>The \<open>for\<close> loop over a batch: the next test index, the agent, and the two counters.\<close>

fun process_batch ::
    "proxy_config \<Rightarrow> processor_config \<Rightarrow> (nat \<Rightarrow> bool) \<Rightarrow> (nat \<Rightarrow> world) \<Rightarrow> queue_item list \<Rightarrow>
     nat \<Rightarrow> agent \<Rightarrow> nat \<Rightarrow> nat \<Rightarrow> nat \<times> agent \<times> nat \<times> nat" where
  "process_batch cfg pc running ws [] k a p f = (k, a, p, f)"
| "process_batch cfg pc running ws (item # items) k a p f =
     (if \<not> running k \<or> \<not> w_online (ws k) then (Suc k, a, p, f)
      else case process_item cfg pc (ws k) item a of
        (a', True) \<Rightarrow> process_batch cfg pc running ws items (Suc k) a' (Suc p) f
      | (a', False) \<Rightarrow> process_batch cfg pc running ws items (Suc k) a' p (Suc f))"

partial_function (option) process_loop ::
    "proxy_config \<Rightarrow> processor_config \<Rightarrow> (nat \<Rightarrow> bool) \<Rightarrow> (nat \<Rightarrow> world) \<Rightarrow>
     nat \<Rightarrow> agent \<Rightarrow> nat \<Rightarrow> nat \<Rightarrow> (agent \<times> nat \<times> nat) option" where
  "process_loop cfg pc running ws k a p f =
     (if \<not> (running k \<and> w_online (ws k)) then Some (a, p, f)
      else let items = peek (pc_batch_size pc) (ag_queue a) in
        if items = [] then Some (a, p, f)
        else case process_batch cfg pc running ws items (Suc k) a p f of
          (k', a', p', f') \<Rightarrow> process_loop cfg pc running ws k' a' p' f')"

record process_result =
  res_processed :: nat
  res_failed :: nat
  res_remaining :: nat
  res_status :: string

definition result_status :: "nat \<Rightarrow> nat \<Rightarrow> string" where
  "result_status p f =
     (if p = 0 \<and> f = 0 then ''empty'' else if f = 0 then ''success''
      else if p > 0 then ''partial'' else ''failed'')"

text \<open>\<open>_processing\<close> is set while a run is under way; a second call returns at once.\<close>

definition process_queue ::
    "proxy_config \<Rightarrow> processor_config \<Rightarrow> (nat \<Rightarrow> bool) \<Rightarrow> (nat \<Rightarrow> world) \<Rightarrow> bool \<Rightarrow> agent \<Rightarrow>
     (agent \<times> process_result) option" where
  "process_queue cfg pc running ws processing a =
     (if processing
      then Some (a, \<lparr>res_processed = 0, res_failed = 0, res_remaining = 0, res_status = ''empty''\<rparr>)
      else case process_loop cfg pc running ws 0 a 0 0 of
        None \<Rightarrow> None
      | Some (a', p, f) \<Rightarrow>
          Some (a', \<lparr>res_processed = p, res_failed = f, res_remaining = get_pending_count (ag_queue a'),
                     res_status = result_status p f\<rparr>))"

section \<open>What one item does to the queue\<close>

lemma proxy_request_queue: "proxy_request w m p ps b a = (a', r) \<Longrightarrow> ag_queue a' = ag_queue a"
  by (auto simp: proxy_request_def dest!: request_cache split: prod.splits request_result.splits)

lemma cache_node_queue_eq: "cache_node cfg w m nid st wid gid ip ve mo raw a = (a', r) \<Longrightarrow> ag_queue a' = ag_queue a"
  using cache_node_queue [of cfg w m nid st wid gid ip ve mo raw a] by simp

text \<open>A replayed operation is sent to the controller and never queued again.\<close>

lemma register_node_sync_queue: "register_node cfg w r True a = (a', x) \<Longrightarrow> ag_queue a' = ag_queue a"
  by (auto simp: register_node_def must_queue_def dest!: proxy_request_queue cache_node_queue_eq
      split: prod.splits sum.splits json.splits if_splits)

lemma update_node_state_sync_queue: "update_node_state cfg w i st m True a = (a', x) \<Longrightarrow> ag_queue a' = ag_queue a"
  by (auto simp: update_node_state_def must_queue_def dest!: proxy_request_queue
      split: prod.splits sum.splits if_splits)

lemma report_node_event_sync_queue: "report_node_event cfg w i e t d True a = (a', x) \<Longrightarrow> ag_queue a' = ag_queue a"
  by (auto simp: report_node_event_def Let_def must_queue_def dest!: proxy_request_queue
      split: prod.splits sum.splits if_splits)

lemma process_payload_queue: "ag_queue (fst (process_payload cfg w item a)) = ag_queue a"
proof -
  have "ag_queue (fst (process_registration cfg w p a)) = ag_queue a" for p
    by (auto simp: process_registration_def dest: register_node_sync_queue split: prod.splits sum.splits)
  moreover have "ag_queue (fst (process_state_update cfg w p a)) = ag_queue a" for p
    by (auto simp: process_state_update_def Let_def dest: update_node_state_sync_queue split: prod.splits sum.splits)
  moreover have "ag_queue (fst (process_event cfg w p a)) = ag_queue a" for p
    by (auto simp: process_event_def Let_def dest: report_node_event_sync_queue
        split: prod.splits sum.splits json.splits)
  ultimately show ?thesis by (simp add: process_payload_def)
qed

text \<open>A failed attempt, on the row.\<close>

definition after_failure :: "processor_config \<Rightarrow> world \<Rightarrow> queue_item \<Rightarrow> queue_item \<Rightarrow> queue_item" where
  "after_failure pc w item i =
     (let i1 = i\<lparr>qi_last_attempt_at := Some (w_now w), qi_attempts := qi_attempts i + 1\<rparr> in
      if qi_attempts item \<ge> pc_max_retries pc
      then i1\<lparr>qi_status := ''failed'',
              qi_last_error := Some (''Max retries ('' @ show_int (pc_max_retries pc) @ '') exceeded'')\<rparr>
      else i1\<lparr>qi_status := ''pending''\<rparr>)"

lemma after_failure_id [simp]: "qi_id (after_failure pc w item i) = qi_id i"
  by (simp add: after_failure_def Let_def)

lemma process_item_queue:
  "ag_queue (fst (process_item cfg pc w item a)) =
     (if snd (process_item cfg pc w item a) then filter (\<lambda>i. qi_id i \<noteq> qi_id item) (ag_queue a)
      else map (\<lambda>i. if qi_id i = qi_id item then after_failure pc w item i else i) (ag_queue a))"
proof -
  obtain a2 ok where p: "process_payload cfg w item
      (a\<lparr>ag_queue := fst (mark_processing (w_now w) (qi_id item) (ag_queue a))\<rparr>) = (a2, ok)" by fastforce
  have q2: "ag_queue a2 = fst (mark_processing (w_now w) (qi_id item) (ag_queue a))"
    using process_payload_queue [of cfg w item] p by (metis agent.select_convs(2) agent.surjective agent.update_convs(2) fst_conv)
  show ?thesis
    using p q2
    by (auto simp: process_item_def Let_def dequeue_filter mark_processing_def mark_failed_def mark_pending_def
        update_item_def sql_update_def after_failure_def filter_map comp_def intro: map_idI)
qed

section \<open>Progress\<close>

text \<open>The attempts an item may still take: the measure of the loop.\<close>

definition item_weight :: "processor_config \<Rightarrow> queue_item \<Rightarrow> nat" where
  "item_weight pc i = (if is_pending i then Suc (nat (pc_max_retries pc - qi_attempts i)) else 0)"

definition weight :: "processor_config \<Rightarrow> queue_item list \<Rightarrow> nat" where
  "weight pc q = sum_list (map (item_weight pc) q)"

lemma after_failure_weight:
  "is_pending i \<Longrightarrow> item_weight pc (after_failure pc w i i) < item_weight pc i"
  by (auto simp: item_weight_def after_failure_def Let_def)

lemma weight_filter_unique:
  assumes "keys_unique qi_id q" and "item \<in> set q"
  shows "weight pc (filter (\<lambda>i. qi_id i \<noteq> qi_id item) q) + item_weight pc item = weight pc q"
  using assms
proof (induction q)
  case (Cons j q)
  show ?case
  proof (cases "qi_id j = qi_id item")
    case True
    with Cons.prems have "j = item" by (auto simp: keys_unique_def dest: not_in_imageD)
    moreover have "filter (\<lambda>i. qi_id i \<noteq> qi_id item) q = q"
      using Cons.prems True by (auto simp: keys_unique_def filter_id_conv dest: not_in_imageD)
    ultimately show ?thesis by (simp add: weight_def)
  next
    case False
    with Cons show ?thesis by (auto simp: weight_def keys_unique_def)
  qed
qed simp

lemma weight_map_unique:
  assumes "keys_unique qi_id q" and "item \<in> set q"
  shows "weight pc (map (\<lambda>i. if qi_id i = qi_id item then g i else i) q) + item_weight pc item
       = weight pc q + item_weight pc (g item)"
  using assms
proof (induction q)
  case (Cons j q)
  show ?case
  proof (cases "qi_id j = qi_id item")
    case True
    with Cons.prems have "j = item" by (auto simp: keys_unique_def dest: not_in_imageD)
    moreover have "map (\<lambda>i. if qi_id i = qi_id item then g i else i) q = q"
      using Cons.prems True by (auto simp: keys_unique_def intro!: map_idI dest: not_in_imageD)
    ultimately show ?thesis by (simp add: weight_def)
  next
    case False
    with Cons show ?thesis by (auto simp: weight_def keys_unique_def)
  qed
qed simp

text \<open>The items of a batch are rows of the queue, pending, one per id.\<close>

definition batch_of :: "queue_item list \<Rightarrow> queue_item list \<Rightarrow> bool" where
  "batch_of items q \<longleftrightarrow> distinct (map qi_id items) \<and> (\<forall>i \<in> set items. i \<in> set q \<and> is_pending i)"

lemma peek_batch_of:
  assumes "keys_unique qi_id q"
  shows "batch_of (peek n q) q"
proof -
  have "distinct (map qi_id (pending_seq q))"
    using keys_unique_filter [OF assms, of is_pending]
    by (simp add: keys_unique_def pending_seq_def distinct_map)
  then have "distinct (map qi_id (peek n q))"
    by (simp add: peek_def pending_seq_def take_map [symmetric] distinct_take del: take_map)
  moreover have "\<forall>i \<in> set (peek n q). i \<in> set q \<and> is_pending i"
    using set_pending_seq [of q] set_take_subset [of n "pending_seq q"]
    by (auto simp: peek_def pending_seq_def [symmetric])
  ultimately show ?thesis by (simp add: batch_of_def)
qed

text \<open>
  Processing one item of a batch: the queue stays a table, rows of other ids are unchanged, the
  measure drops, and a row leaves exactly when the item was delivered.
\<close>

lemma process_item_progress:
  assumes u: "keys_unique qi_id (ag_queue a)" and i: "item \<in> set (ag_queue a)" "is_pending item"
    and r: "process_item cfg pc w item a = (a', ok)"
  shows "keys_unique qi_id (ag_queue a')"
    and "\<And>j. qi_id j \<noteq> qi_id item \<Longrightarrow> j \<in> set (ag_queue a') \<longleftrightarrow> j \<in> set (ag_queue a)"
    and "weight pc (ag_queue a') < weight pc (ag_queue a)"
    and "length (ag_queue a') + (if ok then 1 else 0) = length (ag_queue a)"
    and "\<not> ok \<Longrightarrow> after_failure pc w item item \<in> set (ag_queue a')"
proof -
  have q: "ag_queue a' = (if ok then filter (\<lambda>i. qi_id i \<noteq> qi_id item) (ag_queue a)
      else map (\<lambda>i. if qi_id i = qi_id item then after_failure pc w item i else i) (ag_queue a))"
    using process_item_queue [of cfg pc w item a] r by simp
  show "keys_unique qi_id (ag_queue a')"
  proof (cases ok)
    case False
    have "map qi_id (ag_queue a') = map qi_id (ag_queue a)" using False q by simp
    with u show ?thesis unfolding keys_unique_def by simp
  qed (use u q in \<open>simp add: keys_unique_filter\<close>)
  show "j \<in> set (ag_queue a') \<longleftrightarrow> j \<in> set (ag_queue a)" if "qi_id j \<noteq> qi_id item" for j
    using that q by (auto simp: image_iff)
  show "weight pc (ag_queue a') < weight pc (ag_queue a)"
    using weight_filter_unique [OF u i(1), of pc]
      weight_map_unique [OF u i(1), of pc "after_failure pc w item"]
      after_failure_weight [OF i(2), of pc w] i(2) q
    by (auto simp: item_weight_def [of pc item])
  show "length (ag_queue a') + (if ok then 1 else 0) = length (ag_queue a)"
  proof (cases ok)
    case True
    then show ?thesis
      using q filter_key_unique [OF u i(1)]
        sum_length_filter_compl [of "\<lambda>i. qi_id i = qi_id item" "ag_queue a"] by simp
  qed (use q in simp)
  show "after_failure pc w item item \<in> set (ag_queue a')" if "\<not> ok"
    using that q i(1) by force
qed


lemma batch_of_rest:
  assumes "keys_unique qi_id (ag_queue a)" and "batch_of (item # items) (ag_queue a)"
    and "process_item cfg pc w item a = (a', ok)"
  shows "batch_of items (ag_queue a')"
proof -
  have i: "item \<in> set (ag_queue a)" "is_pending item" using assms(2) by (auto simp: batch_of_def)
  note pr = process_item_progress(2) [OF assms(1) i assms(3)]
  have "j \<in> set (ag_queue a')" if "j \<in> set items" for j
    using that assms(2) by (subst pr) (auto simp: batch_of_def dest: not_in_imageD)
  with assms(2) show ?thesis by (auto simp: batch_of_def)
qed

lemma process_batch_progress:
  assumes "keys_unique qi_id (ag_queue a)" and "batch_of items (ag_queue a)"
    and "process_batch cfg pc running ws items k a p f = (k', a', p', f')"
  shows "keys_unique qi_id (ag_queue a') \<and> weight pc (ag_queue a') \<le> weight pc (ag_queue a)
       \<and> (items \<noteq> [] \<and> running k \<and> w_online (ws k) \<longrightarrow> weight pc (ag_queue a') < weight pc (ag_queue a))
       \<and> length (ag_queue a') + p' = length (ag_queue a) + p
       \<and> (\<forall>j \<in> set (ag_queue a). \<not> is_pending j \<longrightarrow> j \<in> set (ag_queue a'))"
  using assms
proof (induction items arbitrary: k a p f)
  case (Cons item items)
  show ?case
  proof (cases "running k \<and> w_online (ws k)")
    case True
    have i: "item \<in> set (ag_queue a)" "is_pending item" using Cons.prems(2) by (auto simp: batch_of_def)
    obtain a1 ok where r: "process_item cfg pc (ws k) item a = (a1, ok)" by fastforce
    note pr = process_item_progress [OF Cons.prems(1) i r]
    have keep: "j \<in> set (ag_queue a1)" if "j \<in> set (ag_queue a)" "\<not> is_pending j" for j
    proof -
      have "qi_id j \<noteq> qi_id item"
      proof
        assume "qi_id j = qi_id item"
        then have "j = item"
          using sql_get_in_set [OF Cons.prems(1) that(1)] sql_get_in_set [OF Cons.prems(1) i(1)]
          by (metis option.inject)
        with that(2) i(2) show False by simp
      qed
      with pr(2) that show ?thesis by blast
    qed
    have "process_batch cfg pc running ws items (Suc k) a1 (p + (if ok then 1 else 0)) (f + (if ok then 0 else 1)) = (k', a', p', f')"
      using Cons.prems(3) True r by (cases ok) auto
    note ih = Cons.IH [OF pr(1) batch_of_rest [OF Cons.prems(1,2) r] this]
    have "weight pc (ag_queue a') < weight pc (ag_queue a)" using ih pr(3) by linarith
    moreover have "length (ag_queue a') + p' = length (ag_queue a) + p" using ih pr(4) by linarith
    moreover have "\<forall>j \<in> set (ag_queue a). \<not> is_pending j \<longrightarrow> j \<in> set (ag_queue a')" using ih keep by blast
    ultimately show ?thesis using ih by simp
  qed (use Cons.prems in auto)
qed simp

lemma peek_empty: "0 < n \<Longrightarrow> peek n q = [] \<longleftrightarrow> pending_seq q = []"
  by (simp add: peek_def pending_seq_def)

lemma process_loop_drains:
  assumes "keys_unique qi_id (ag_queue a)" and "0 < pc_batch_size pc" and "\<forall>k. running k \<and> w_online (ws k)"
  shows "\<exists>a' p' f'. process_loop cfg pc running ws k a p f = Some (a', p', f')
       \<and> pending_seq (ag_queue a') = [] \<and> keys_unique qi_id (ag_queue a')
       \<and> length (ag_queue a') + p' = length (ag_queue a) + p
       \<and> (\<forall>j \<in> set (ag_queue a). \<not> is_pending j \<longrightarrow> j \<in> set (ag_queue a'))"
  using assms(1)
proof (induction "weight pc (ag_queue a)" arbitrary: k a p f rule: less_induct)
  case less
  show ?case
  proof (cases "peek (pc_batch_size pc) (ag_queue a) = []")
    case True
    then have "process_loop cfg pc running ws k a p f = Some (a, p, f)"
      by (subst process_loop.simps) simp
    with True less.prems peek_empty [OF assms(2)] show ?thesis by simp
  next
    case False
    let ?items = "peek (pc_batch_size pc) (ag_queue a)"
    obtain k1 a1 p1 f1 where b: "process_batch cfg pc running ws ?items (Suc k) a p f = (k1, a1, p1, f1)"
      by (metis prod_cases4)
    note pr = process_batch_progress [OF less.prems peek_batch_of [OF less.prems] b]
    have "process_loop cfg pc running ws k a p f = process_loop cfg pc running ws k1 a1 p1 f1"
      using False assms(3) b by (subst process_loop.simps) (simp add: Let_def)
    moreover have "weight pc (ag_queue a1) < weight pc (ag_queue a)"
      using pr False assms(3) by blast
    ultimately show ?thesis
      using less.hyps [of a1 k1 p1 f1] pr by fastforce
  qed
qed



section \<open>An unreachable controller\<close>

abbreviation unreachable :: "world \<Rightarrow> bool" where
  "unreachable w \<equiv> \<forall>rq. \<exists>e. w_request w rq = HttpClientError e"

lemma proxy_request_unreachable:
  assumes "unreachable w"
  shows "\<exists>a' e. proxy_request w m p ps b a = (a', Inr \<lparr>pr_status_code = 503, pr_data = JNull, pr_error = Some e\<rparr>)"
proof -
  obtain e where "w_request w \<lparr>rq_method = m, rq_path = p, rq_params = ps, rq_body = b\<rparr> = HttpClientError e"
    using assms by blast
  then show ?thesis by (simp add: proxy_request_def request_def)
qed

lemma failure_reply_false [simp]:
  "\<not> jtruthy (jget_default (failure_reply r) ''success'' (JBool False))"
  "''id'' \<notin> fst ` set (failure_reply r)"
  by (simp_all add: failure_reply_def jget_default_def)

lemma process_payload_unreachable:
  assumes "unreachable w"
  shows "\<not> snd (process_payload cfg w item a)"
proof -
  note pr = proxy_request_unreachable [OF assms]
  have "\<not> snd (process_registration cfg w p a)" for p
    using pr [of "''POST''" "''/api/v1/nodes/register''" "[]" "Some p" a]
    by (auto simp: process_registration_def register_node_def must_queue_def)
  moreover have "\<not> snd (process_state_update cfg w p a)" for p
    using pr [of "''PATCH''" "''/api/v1/nodes/'' @ str_value (jget p ''node_id'') @ ''/state''" "[]"
        "Some [(''state'', JStr (str_value (jget p ''new_state'')))]" a]
    by (auto simp: process_state_update_def Let_def update_node_state_def must_queue_def)
  moreover have "\<not> snd (process_event cfg w p a)" for p
  proof -
    have "\<exists>a' r. report_node_event cfg w i (Some e) None [] True a = (a', Inr (failure_reply r))" for i e
      using pr [of "''POST''" "''/api/v1/nodes/'' @ i @ ''/event''" "[]" "Some (build_event cfg (Some e) None [])" a]
      by (auto simp: report_node_event_def must_queue_def Let_def)
    then show ?thesis
      by (cases "jget_default p ''event'' (JObj [])")
        (auto simp: process_event_def Let_def split: prod.splits sum.splits,
          metis Pair_inject failure_reply_false(1) sum.inject(2))
  qed
  ultimately show ?thesis by (simp add: process_payload_def)
qed

text \<open>
  What repeated failures make of a row: a pending item ends failed after one attempt more than
  \<open>max_retries\<close> (one attempt if it already had that many); other rows stay.
\<close>

definition exhausted :: "processor_config \<Rightarrow> queue_item \<Rightarrow> string \<times> string \<times> dict \<times> datetime \<times> string \<times> int" where
  "exhausted pc i =
     (qi_id i, qi_item_type i, qi_payload i, qi_created_at i,
      (if is_pending i then ''failed'' else qi_status i),
      (if is_pending i then max (qi_attempts i) (pc_max_retries pc) + 1 else qi_attempts i))"

lemma exhausted_after_failure: "is_pending i \<Longrightarrow> exhausted pc (after_failure pc w i i) = exhausted pc i"
  by (auto simp: exhausted_def after_failure_def Let_def)

lemma process_item_exhausted:
  assumes "keys_unique qi_id (ag_queue a)" and "item \<in> set (ag_queue a)" and "is_pending item" and "unreachable w"
  shows "map (exhausted pc) (ag_queue (fst (process_item cfg pc w item a))) = map (exhausted pc) (ag_queue a)"
proof -
  have n: "\<not> snd (process_item cfg pc w item a)"
    using process_payload_unreachable [OF assms(4)]
    by (auto simp: process_item_def Let_def split: prod.splits) (metis snd_conv)
  have "i = item" if "i \<in> set (ag_queue a)" "qi_id i = qi_id item" for i
    using that assms(1,2) by (auto simp: keys_unique_def distinct_map inj_on_def)
  then have "exhausted pc (after_failure pc w item i) = exhausted pc i"
    if "i \<in> set (ag_queue a)" "qi_id i = qi_id item" for i
    using that assms(3) exhausted_after_failure by metis
  with n show ?thesis by (auto simp: process_item_queue)
qed

lemma process_batch_exhausted:
  assumes "keys_unique qi_id (ag_queue a)" and "batch_of items (ag_queue a)" and "\<forall>k. unreachable (ws k)"
    and "process_batch cfg pc running ws items k a p f = (k', a', p', f')"
  shows "map (exhausted pc) (ag_queue a') = map (exhausted pc) (ag_queue a) \<and> p' = p"
  using assms(1,2,4)
proof (induction items arbitrary: k a p f)
  case (Cons item items)
  have i: "item \<in> set (ag_queue a)" "is_pending item" using Cons.prems(2) by (auto simp: batch_of_def)
  obtain a1 ok where r: "process_item cfg pc (ws k) item a = (a1, ok)" by fastforce
  have no: "\<not> ok"
    using process_payload_unreachable [of "ws k"] assms(3) r
    by (auto simp: process_item_def Let_def split: prod.splits if_splits) (metis snd_conv)
  have ex: "map (exhausted pc) (ag_queue a1) = map (exhausted pc) (ag_queue a)"
    using process_item_exhausted [OF Cons.prems(1) i, of "ws k" pc cfg] assms(3) r by auto
  show ?case
  proof (cases "running k \<and> w_online (ws k)")
    case True
    with Cons.prems(3) r no have "process_batch cfg pc running ws items (Suc k) a1 p (Suc f) = (k', a', p', f')" by auto
    from Cons.IH [OF process_item_progress(1) [OF Cons.prems(1) i r] batch_of_rest [OF Cons.prems(1,2) r] this] ex
    show ?thesis by simp
  qed (use Cons.prems in auto)
qed simp

text \<open>The rule for the loop: what every batch keeps holds when the loop returns.\<close>

lemma process_loop_invariant:
  assumes "process_loop cfg pc running ws k a p f = Some (a', p', f')" and "I a p f"
    and "\<And>k a p f k' a' p' f'. I a p f \<Longrightarrow>
      process_batch cfg pc running ws (peek (pc_batch_size pc) (ag_queue a)) k a p f = (k', a', p', f') \<Longrightarrow> I a' p' f'"
  shows "I a' p' f'"
proof -
  let ?P = "\<lambda>cfg pc running ws (k :: nat) a p f r. I a p f \<longrightarrow>
      (\<forall>k a p f k' a' p' f'. I a p f \<longrightarrow>
        process_batch cfg pc running ws (peek (pc_batch_size pc) (ag_queue a)) k a p f = (k', a', p', f') \<longrightarrow> I a' p' f')
      \<longrightarrow> I (fst r) (fst (snd r)) (snd (snd r))"
  have "?P cfg pc running ws k a p f (a', p', f')"
  proof (rule process_loop.raw_induct [where P = ?P, OF _ assms(1)])
    fix loop cfg pc running ws and k :: nat and a p f r
    assume ih: "\<And>cfg pc running ws k a p f r. loop cfg pc running ws k a p f = Some r \<Longrightarrow> ?P cfg pc running ws k a p f r"
      and body: "(if \<not> (running k \<and> w_online (ws k)) then Some (a, p, f)
        else let items = peek (pc_batch_size pc) (ag_queue a) in
          if items = [] then Some (a, p, f)
          else case process_batch cfg pc running ws items (Suc k) a p f of
            (k', a', p', f') \<Rightarrow> loop cfg pc running ws k' a' p' f') = Some r"
    show "?P cfg pc running ws k a p f r"
    proof (cases "running k \<and> w_online (ws k) \<and> peek (pc_batch_size pc) (ag_queue a) \<noteq> []")
      case True
      obtain k1 a1 p1 f1 where b:
        "process_batch cfg pc running ws (peek (pc_batch_size pc) (ag_queue a)) (Suc k) a p f = (k1, a1, p1, f1)"
        by (metis prod_cases4)
      from True b body have "loop cfg pc running ws k1 a1 p1 f1 = Some r" by (simp add: Let_def)
      from ih [OF this] b show ?thesis by blast
    qed (use body in \<open>auto simp: Let_def split: if_splits\<close>)
  qed
  with assms(2,3) show ?thesis by auto
qed

text \<open>
  C7: Against a controller that cannot be reached nothing is lost: the run delivers no item, every
  pending item is kept with its payload and is failed with its attempts counted, one more than
  \<open>max_retries\<close> for an item that had not used them up, and the other rows are as before.
\<close>

theorem unreachable_controller_keeps_items:
  assumes "distinct (map qi_id (ag_queue a))" and "0 < pc_batch_size pc"
    and "\<forall>k. running k \<and> w_online (ws k)" and "\<forall>k rq. \<exists>e. w_request (ws k) rq = HttpClientError e"
  shows "\<exists>a' r. process_queue cfg pc running ws False a = Some (a', r) \<and> res_processed r = 0
       \<and> map (\<lambda>i. (qi_id i, qi_item_type i, qi_payload i, qi_created_at i, qi_status i, qi_attempts i)) (ag_queue a')
         = map (\<lambda>i. (qi_id i, qi_item_type i, qi_payload i, qi_created_at i,
             if qi_status i = ''pending'' then ''failed'' else qi_status i,
             if qi_status i = ''pending'' then max (qi_attempts i) (pc_max_retries pc) + 1 else qi_attempts i)) (ag_queue a)"
proof -
  from assms(1) have u: "keys_unique qi_id (ag_queue a)" by (simp add: keys_unique_def)
  from process_loop_drains [OF u assms(2,3), of cfg 0 0 0]
  obtain a' p f where l: "process_loop cfg pc running ws 0 a 0 0 = Some (a', p, f)"
    and d: "pending_seq (ag_queue a') = []" by auto
  let ?I = "\<lambda>b p f. keys_unique qi_id (ag_queue b) \<and> p = 0 \<and>
      map (exhausted pc) (ag_queue b) = map (exhausted pc) (ag_queue a)"
  have "?I a' p f"
  proof (rule process_loop_invariant [OF l, where I = ?I])
    fix k b p f k' b' p' f'
    assume i: "?I b p f"
      and b: "process_batch cfg pc running ws (peek (pc_batch_size pc) (ag_queue b)) k b p f = (k', b', p', f')"
    then have ub: "keys_unique qi_id (ag_queue b)" by simp
    from process_batch_progress [OF ub peek_batch_of [OF ub] b]
      process_batch_exhausted [OF ub peek_batch_of [OF ub] assms(4) b] i
    show "?I b' p' f'" by simp
  qed (use u in simp)
  moreover have "map (exhausted pc) (ag_queue a') =
      map (\<lambda>i. (qi_id i, qi_item_type i, qi_payload i, qi_created_at i, qi_status i, qi_attempts i)) (ag_queue a')"
  proof -
    have "\<not> is_pending i" if "i \<in> set (ag_queue a')" for i
      using d that set_pending_seq [of "ag_queue a'"] by auto
    then show ?thesis by (simp add: exhausted_def)
  qed
  ultimately show ?thesis
    using l by (simp add: process_queue_def exhausted_def)
qed

theorem unreachable_controller_keeps_items_witness:
  "\<exists>a' r. process_queue demo_config \<lparr>pc_batch_size = 10, pc_max_retries = 3\<rparr> (\<lambda>k. True)
       (\<lambda>k. demo_world True (HttpClientError ''down'')) False (empty_agent\<lparr>ag_queue := [demo_item ''q1'' 0]\<rparr>) = Some (a', r)
     \<and> map (\<lambda>i. (qi_id i, qi_status i, qi_attempts i)) (ag_queue a') = [(''q1'', ''failed'', 4)]"
proof -
  let ?a = "empty_agent\<lparr>ag_queue := [demo_item ''q1'' 0]\<rparr>"
  have "distinct (map qi_id (ag_queue ?a))" "\<forall>k. True \<and> w_online (demo_world True (HttpClientError ''down''))"
    "\<forall>k rq. \<exists>e. w_request (demo_world True (HttpClientError ''down'')) rq = HttpClientError e"
    by (simp_all add: demo_world_def)
  from unreachable_controller_keeps_items [where pc = "\<lparr>pc_batch_size = 10, pc_max_retries = 3\<rparr>", OF this(1) _ this(2,3),
      of demo_config]
  show ?thesis by (fastforce simp: demo_item_def)
qed

section \<open>Interrupted items\<close>

text \<open>
  An item that is marked as being processed when the agent stops stays in that state: the next
  run does not pick it up, and neither retrying nor clearing failed items touches it. The queue
  has no operation that returns such an item to the pending ones without naming it.
\<close>

theorem interrupted_items_stay:
  assumes "distinct (map qi_id (ag_queue a))" and "i \<in> set (ag_queue a)" and "qi_status i = ''processing''"
  shows "i \<notin> set (peek n (ag_queue a))
       \<and> i \<in> set (fst (retry_failed (ag_queue a))) \<and> i \<in> set (fst (clear_failed (ag_queue a)))
       \<and> (\<forall>a' r. process_queue cfg pc running ws processing a = Some (a', r) \<longrightarrow> i \<in> set (ag_queue a'))"
proof -
  let ?I = "\<lambda>b p f. keys_unique qi_id (ag_queue b) \<and> i \<in> set (ag_queue b)"
  have "?I a' p f" if l: "process_loop cfg pc running ws 0 a 0 0 = Some (a', p, f)" for a' p f
  proof (rule process_loop_invariant [OF l, where I = ?I])
    fix k b p f k' b' p' f'
    assume i: "?I b p f"
      and b: "process_batch cfg pc running ws (peek (pc_batch_size pc) (ag_queue b)) k b p f = (k', b', p', f')"
    then have ub: "keys_unique qi_id (ag_queue b)" by simp
    from process_batch_progress [OF ub peek_batch_of [OF ub] b] i assms(3)
    show "?I b' p' f'" by simp
  qed (use assms in \<open>simp add: keys_unique_def\<close>)
  moreover have "i \<notin> set (peek n (ag_queue a))"
    using assms(3) set_pending_seq [of "ag_queue a"] set_take_subset [of n "pending_seq (ag_queue a)"]
    by (auto simp: peek_def pending_seq_def [symmetric])
  ultimately show ?thesis
    using assms(2,3)
    by (auto simp: process_queue_def retry_failed_def clear_failed_def sql_update_def sql_delete_def image_iff
        split: option.splits if_splits)
qed

theorem interrupted_items_stay_witness:
  "let i = (demo_item ''q1'' 0)\<lparr>qi_status := ''processing''\<rparr> in
   i \<notin> set (peek 10 [i]) \<and> i \<in> set (fst (retry_failed [i]))"
  using interrupted_items_stay [where a = "empty_agent\<lparr>ag_queue := [(demo_item ''q1'' 0)\<lparr>qi_status := ''processing''\<rparr>]\<rparr>"
      and i = "(demo_item ''q1'' 0)\<lparr>qi_status := ''processing''\<rparr>" and n = 10]
  by (simp add: Let_def)

end
