(* ===== verification/Wire.thy ===== *)
theory Wire
  imports Prelude "HOL-Library.Word"
begin

text \<open>
  Bytes on the wire, shared by the boot protocols: Python's \<open>bytes\<close> as lists of 8-bit words,
  \<open>struct.pack("!H", n)\<close> and \<open>struct.unpack\<close>, the ASCII codec, and \<open>bytes.split(b"\x00")\<close>.
  Each conversion has the error its Python counterpart raises.
\<close>

type_synonym bytes = "8 word list"

datatype wire_error = PacketValueError | StructError | UnicodeError | IndexError

section \<open>Big-endian 16-bit numbers\<close>

definition pack_H :: "int \<Rightarrow> wire_error + bytes" where
  "pack_H n = (if 0 \<le> n \<and> n \<le> 65535 then Inr [word_of_int (n div 256), word_of_int n] else Inl StructError)"

definition unpack_H :: "bytes \<Rightarrow> wire_error + int" where
  "unpack_H bs = (case bs of [a, b] \<Rightarrow> Inr (256 * uint a + uint b) | _ \<Rightarrow> Inl StructError)"

lemma unpack_pack_H: "pack_H n = Inr bs \<Longrightarrow> unpack_H bs = Inr n"
proof -
  assume "pack_H n = Inr bs"
  then have n: "0 \<le> n" "n \<le> 65535" and bs: "bs = [word_of_int (n div 256), word_of_int n]"
    by (auto simp: pack_H_def split: if_splits)
  from n have "n div 256 mod 256 = n div 256" by (intro mod_pos_pos_trivial) auto
  then show ?thesis by (simp add: bs unpack_H_def uint_word_of_int)
qed

lemma pack_H_length: "pack_H n = Inr bs \<Longrightarrow> length bs = 2"
  by (auto simp: pack_H_def split: if_splits)

lemma pack_unpack_H: "unpack_H bs = Inr n \<Longrightarrow> pack_H n = Inr bs"
proof -
  assume "unpack_H bs = Inr n"
  then obtain a b where bs: "bs = [a, b]" and n: "n = 256 * uint a + uint b"
    by (auto simp: unpack_H_def split: list.splits)
  have r: "0 \<le> uint a" "uint a < 256" "0 \<le> uint b" "uint b < 256"
    using unsigned_less [of a, where ?'a = int] unsigned_less [of b, where ?'a = int] by simp_all
  then have "n div 256 = uint a" unfolding n by simp
  moreover have "word_of_int n = b"
  proof -
    have "n mod 256 = uint b" unfolding n using r by simp
    then have "uint (word_of_int n :: 8 word) = uint b" by (simp add: uint_word_of_int)
    then show ?thesis by (simp add: word_uint_eq_iff)
  qed
  ultimately show ?thesis using r by (auto simp: pack_H_def bs n)
qed

section \<open>ASCII\<close>

definition byte_of_char :: "char \<Rightarrow> 8 word" where
  "byte_of_char c = word_of_nat (of_char c)"

definition char_of_byte :: "8 word \<Rightarrow> char" where
  "char_of_byte b = char_of (unat b)"

definition is_ascii :: "char \<Rightarrow> bool" where
  "is_ascii c \<longleftrightarrow> (of_char c :: nat) < 128"

definition encode_ascii :: "string \<Rightarrow> wire_error + bytes" where
  "encode_ascii s = (if list_all is_ascii s then Inr (map byte_of_char s) else Inl UnicodeError)"

definition decode_ascii :: "bytes \<Rightarrow> wire_error + string" where
  "decode_ascii bs = (if list_all (\<lambda>b. unat b < 128) bs then Inr (map char_of_byte bs) else Inl UnicodeError)"

lemma of_char_less: "(of_char c :: nat) < 256"
  by (metis of_char_mod_256 mod_less_divisor zero_less_numeral)

lemma unat_byte_of_char [simp]: "unat (byte_of_char c) = of_char c"
  using of_char_less [of c] by (simp add: byte_of_char_def unat_of_nat)

lemma char_of_byte_of_char [simp]: "char_of_byte (byte_of_char c) = c"
  by (simp add: char_of_byte_def)

lemma byte_of_char_of_byte [simp]: "byte_of_char (char_of_byte b) = b"
proof -
  have "unat b < 256" using unsigned_less [of b, where ?'a = nat] by simp
  then have "unat (byte_of_char (char_of_byte b)) = unat b" by (simp add: char_of_byte_def)
  then show ?thesis by (simp add: word_unat_eq_iff)
qed

lemma decode_encode: "encode_ascii s = Inr bs \<Longrightarrow> decode_ascii bs = Inr s"
  by (auto simp: encode_ascii_def decode_ascii_def list_all_iff is_ascii_def comp_def split: if_splits)

lemma encode_decode: "decode_ascii bs = Inr s \<Longrightarrow> encode_ascii s = Inr bs"
proof -
  assume "decode_ascii bs = Inr s"
  then have s: "s = map char_of_byte bs" and a: "\<forall>b \<in> set bs. unat b < 128"
    by (auto simp: decode_ascii_def list_all_iff split: if_splits)
  have "is_ascii (char_of_byte b)" if "b \<in> set bs" for b
  proof -
    have "unat (byte_of_char (char_of_byte b)) < 128" using a that by simp
    then show ?thesis unfolding unat_byte_of_char is_ascii_def .
  qed
  then show ?thesis by (simp add: encode_ascii_def s list_all_iff comp_def)
qed

text \<open>NUL is the only character that encodes to the byte zero.\<close>

lemma byte_zero_iff: "byte_of_char c = 0 \<longleftrightarrow> c = CHR 0x00"
proof
  assume "byte_of_char c = 0"
  then have "char_of_byte (byte_of_char c) = char_of_byte 0" by simp
  moreover have "char_of (0 :: nat) = CHR 0x00" by (simp add: char_of_def)
  ultimately show "c = CHR 0x00" by (simp add: char_of_byte_def)
qed (simp add: byte_of_char_def)

section \<open>Numbers as text\<close>

text \<open>\<open>int(s)\<close> for a text of digits with an optional sign.\<close>

definition parse_int :: "string \<Rightarrow> wire_error + int" where
  "parse_int s =
     (let (neg, ds) = (case s of [] \<Rightarrow> (False, [])
                       | c # cs \<Rightarrow> if c = CHR ''-'' then (True, cs) else if c = CHR ''+'' then (False, cs) else (False, s))
      in if ds = [] then Inl PacketValueError
         else case read_digits 0 ds of
                None \<Rightarrow> Inl PacketValueError
              | Some n \<Rightarrow> Inr (if neg then - int n else int n))"

section \<open>Fields ended by zero bytes\<close>

fun split0 :: "bytes \<Rightarrow> bytes list" where
  "split0 [] = [[]]"
| "split0 (b # bs) =
     (if b = 0 then [] # split0 bs else (b # hd (split0 bs)) # tl (split0 bs))"

lemma split0_nonempty [simp]: "split0 bs \<noteq> []"
  by (cases bs) auto

lemma split0_append: "0 \<notin> set p \<Longrightarrow> split0 (p @ 0 # bs) = p # split0 bs"
  by (induction p) auto

lemma split0_single: "0 \<notin> set p \<Longrightarrow> split0 p = [p]"
  by (induction p) auto

text \<open>A text without NUL has no zero byte.\<close>

lemma encode_no_zero: "encode_ascii s = Inr bs \<Longrightarrow> CHR 0x00 \<notin> set s \<Longrightarrow> 0 \<notin> set bs"
  by (auto simp: encode_ascii_def byte_zero_iff split: if_splits)

end
