(* ===== verification/Tftp.thy ===== *)
theory Tftp
  imports Wire
begin

text \<open>
  The TFTP server, src/src/pxe/tftp_server.py: the packet codec, the resolution of request paths
  and the transfer of a file with its acknowledgements, retransmissions and options.

  A transfer is a function of the file and of what each wait for an acknowledgement sees
  (\<open>wait_event\<close>): nothing within the timeout, an ACK, or the end of the connection; when the
  list of events is used up only timeouts follow. Its result is the list of packets sent and the
  value \<open>send_file\<close> returns. The texts of Python's own exceptions are the parameter \<open>text\<close>.
\<close>

section \<open>Packets\<close>

datatype opcode = RRQ | WRQ | DATA | ACK | ERROR | OACK

fun opcode_num :: "opcode \<Rightarrow> int" where
  "opcode_num RRQ = 1"
| "opcode_num WRQ = 2"
| "opcode_num DATA = 3"
| "opcode_num ACK = 4"
| "opcode_num ERROR = 5"
| "opcode_num OACK = 6"

definition opcode_of :: "int \<Rightarrow> wire_error + opcode" where
  "opcode_of n =
     (case find (\<lambda>c. opcode_num c = n) [RRQ, WRQ, DATA, ACK, ERROR, OACK] of
        None \<Rightarrow> Inl PacketValueError | Some c \<Rightarrow> Inr c)"

record tftp_packet =
  pk_opcode :: opcode
  pk_filename :: string
  pk_mode :: string
  pk_block_num :: int
  pk_data :: bytes
  pk_error_code :: int
  pk_error_message :: string
  pk_options :: "(string \<times> string) list"

definition new_packet :: "opcode \<Rightarrow> tftp_packet" where
  "new_packet op =
     \<lparr>pk_opcode = op, pk_filename = [], pk_mode = ''octet'', pk_block_num = 0, pk_data = [],
      pk_error_code = 0, pk_error_message = [], pk_options = []\<rparr>"

text \<open>The option loop, on the fields after the mode.\<close>

fun parse_options :: "bytes list \<Rightarrow> (string \<times> string) list \<Rightarrow> wire_error + (string \<times> string) list" where
  "parse_options (k # v # rest) options =
     (if k = [] then Inr options
      else ebind (decode_ascii k) (\<lambda>key.
           ebind (decode_ascii v) (\<lambda>value.
           parse_options rest (dict_put (lower key) value options))))"
| "parse_options _ options = Inr options"

definition parse_request :: "opcode \<Rightarrow> bytes \<Rightarrow> wire_error + tftp_packet" where
  "parse_request op data =
     (let parts = split0 data in
      ebind (decode_ascii (hd parts)) (\<lambda>filename.
      ebind (if length parts > 1 then ebind (decode_ascii (parts ! 1)) (\<lambda>m. Inr (lower m)) else Inr ''octet'') (\<lambda>mode.
      ebind (parse_options (drop 2 parts) []) (\<lambda>options.
      Inr ((new_packet op)\<lparr>pk_filename := filename, pk_mode := mode, pk_options := options\<rparr>)))))"

definition parse_data :: "bytes \<Rightarrow> wire_error + tftp_packet" where
  "parse_data data =
     ebind (unpack_H (take 2 data)) (\<lambda>n.
     Inr ((new_packet DATA)\<lparr>pk_block_num := n, pk_data := drop 2 data\<rparr>))"

definition parse_ack :: "bytes \<Rightarrow> wire_error + tftp_packet" where
  "parse_ack data = ebind (unpack_H (take 2 data)) (\<lambda>n. Inr ((new_packet ACK)\<lparr>pk_block_num := n\<rparr>))"

definition parse_error :: "bytes \<Rightarrow> wire_error + tftp_packet" where
  "parse_error data =
     ebind (unpack_H (take 2 data)) (\<lambda>n.
     ebind (decode_ascii (hd (split0 (drop 2 data)))) (\<lambda>m.
     Inr ((new_packet ERROR)\<lparr>pk_error_code := n, pk_error_message := m\<rparr>)))"

definition parse :: "bytes \<Rightarrow> wire_error + tftp_packet" where
  "parse data =
     (if length data < 2 then Inl PacketValueError
      else ebind (unpack_H (take 2 data)) (\<lambda>n.
           ebind (opcode_of n) (\<lambda>op.
             case op of
               RRQ \<Rightarrow> parse_request op (drop 2 data)
             | WRQ \<Rightarrow> parse_request op (drop 2 data)
             | DATA \<Rightarrow> parse_data (drop 2 data)
             | ACK \<Rightarrow> parse_ack (drop 2 data)
             | ERROR \<Rightarrow> parse_error (drop 2 data)
             | OACK \<Rightarrow> Inl PacketValueError)))"

definition pack_HH :: "int \<Rightarrow> int \<Rightarrow> wire_error + bytes" where
  "pack_HH a b = ebind (pack_H a) (\<lambda>x. ebind (pack_H b) (\<lambda>y. Inr (x @ y)))"

definition build_data :: "int \<Rightarrow> bytes \<Rightarrow> wire_error + bytes" where
  "build_data block_num data = ebind (pack_HH (opcode_num DATA) block_num) (\<lambda>h. Inr (h @ data))"

definition build_ack :: "int \<Rightarrow> wire_error + bytes" where
  "build_ack block_num = pack_HH (opcode_num ACK) block_num"

definition build_error :: "int \<Rightarrow> string \<Rightarrow> wire_error + bytes" where
  "build_error error_code message =
     ebind (pack_HH (opcode_num ERROR) error_code) (\<lambda>h.
     ebind (encode_ascii message) (\<lambda>m. Inr (h @ m @ [0])))"

fun build_options :: "(string \<times> string) list \<Rightarrow> wire_error + bytes" where
  "build_options [] = Inr []"
| "build_options ((key, value) # options) =
     ebind (encode_ascii key) (\<lambda>k. ebind (encode_ascii value) (\<lambda>v.
     ebind (build_options options) (\<lambda>rest. Inr (k @ [0] @ v @ [0] @ rest))))"

definition build_oack :: "(string \<times> string) list \<Rightarrow> wire_error + bytes" where
  "build_oack options =
     ebind (pack_H (opcode_num OACK)) (\<lambda>h. ebind (build_options options) (\<lambda>rest. Inr (h @ rest)))"

section \<open>Round trips\<close>

lemma opcode_of_num [simp]: "opcode_of (opcode_num c) = Inr c"
  by (cases c) (simp_all add: opcode_of_def)

lemma pack_HH_Inr:
  "pack_HH a b = Inr h \<Longrightarrow> length h = 4 \<and> unpack_H (take 2 h) = Inr a \<and> unpack_H (drop 2 h) = Inr b"
  by (auto simp: pack_HH_def ebind_Inr_iff pack_H_length dest: unpack_pack_H)

lemma parse_header:
  assumes "pack_HH (opcode_num c) n = Inr h"
  shows "parse (h @ rest) = (case c of
      RRQ \<Rightarrow> parse_request c (drop 2 h @ rest) | WRQ \<Rightarrow> parse_request c (drop 2 h @ rest)
    | DATA \<Rightarrow> Inr ((new_packet DATA)\<lparr>pk_block_num := n, pk_data := rest\<rparr>)
    | ACK \<Rightarrow> Inr ((new_packet ACK)\<lparr>pk_block_num := n\<rparr>)
    | ERROR \<Rightarrow> ebind (decode_ascii (hd (split0 rest))) (\<lambda>m.
        Inr ((new_packet ERROR)\<lparr>pk_error_code := n, pk_error_message := m\<rparr>))
    | OACK \<Rightarrow> Inl PacketValueError)"
proof -
  note h = pack_HH_Inr [OF assms]
  have "parse (h @ rest) = (case c of
      RRQ \<Rightarrow> parse_request c (drop 2 h @ rest) | WRQ \<Rightarrow> parse_request c (drop 2 h @ rest)
    | DATA \<Rightarrow> parse_data (drop 2 h @ rest) | ACK \<Rightarrow> parse_ack (drop 2 h @ rest)
    | ERROR \<Rightarrow> parse_error (drop 2 h @ rest) | OACK \<Rightarrow> Inl PacketValueError)"
    using h by (simp add: parse_def split: opcode.split)
  with h show ?thesis
    by (cases c) (simp_all add: parse_data_def parse_ack_def parse_error_def)
qed

text \<open>
  What the server builds parses back: DATA, ACK and ERROR packets (ASCII message without NUL)
  return their block number, payload, code and message, for exactly the numbers that fit in
  sixteen bits; other numbers are refused.
\<close>

theorem packet_roundtrip:
  "(0 \<le> n \<and> n \<le> 65535 \<longrightarrow>
      (\<exists>bs. build_data n d = Inr bs \<and> parse bs = Inr ((new_packet DATA)\<lparr>pk_block_num := n, pk_data := d\<rparr>))
    \<and> (\<exists>bs. build_ack n = Inr bs \<and> parse bs = Inr ((new_packet ACK)\<lparr>pk_block_num := n\<rparr>))
    \<and> (list_all is_ascii m \<and> CHR 0x00 \<notin> set m \<longrightarrow>
        (\<exists>bs. build_error n m = Inr bs
           \<and> parse bs = Inr ((new_packet ERROR)\<lparr>pk_error_code := n, pk_error_message := m\<rparr>))))
   \<and> (\<not> (0 \<le> n \<and> n \<le> 65535) \<longrightarrow> build_data n d = Inl StructError \<and> build_ack n = Inl StructError)"
proof -
  have fits: "\<exists>h. pack_HH (opcode_num c) n = Inr h" if "0 \<le> n \<and> n \<le> 65535" for c
    using that by (cases c) (simp_all add: pack_HH_def pack_H_def)
  have "\<exists>bs. build_error n m = Inr bs
      \<and> parse bs = Inr ((new_packet ERROR)\<lparr>pk_error_code := n, pk_error_message := m\<rparr>)"
    if n: "0 \<le> n \<and> n \<le> 65535" and m: "list_all is_ascii m" "CHR 0x00 \<notin> set m"
  proof -
    obtain h where h: "pack_HH (opcode_num ERROR) n = Inr h" using fits [OF n] by blast
    have e: "encode_ascii m = Inr (map byte_of_char m)" using m(1) by (simp add: encode_ascii_def)
    have "split0 (map byte_of_char m @ [0]) = map byte_of_char m # [[]]"
      using split0_append [OF encode_no_zero [OF e m(2)], of "[]"] by simp
    with h e parse_header [OF h, of "map byte_of_char m @ [0]"] decode_encode [OF e] show ?thesis
      by (simp add: build_error_def)
  qed
  moreover have "build_data n d = Inl StructError \<and> build_ack n = Inl StructError"
    if "\<not> (0 \<le> n \<and> n \<le> 65535)"
    using that by (auto simp: build_data_def build_ack_def pack_HH_def pack_H_def)
  ultimately show ?thesis
    using fits [of DATA] fits [of ACK] parse_header [of DATA n _ d] parse_header [of ACK n _ "[]"]
    by (fastforce simp: build_data_def build_ack_def)
qed

theorem packet_roundtrip_witness:
  "(\<exists>bs. build_data 65535 [7] = Inr bs \<and> parse bs = Inr ((new_packet DATA)\<lparr>pk_block_num := 65535, pk_data := [7]\<rparr>))
   \<and> build_data 65536 [7] = Inl StructError"
  using packet_roundtrip [of 65535 "[7]" "[]"] packet_roundtrip [of 65536 "[7]" "[]"] by simp

section \<open>Requests as clients send them\<close>

text \<open>The format of a request (RFC 1350 and 2347), as a reference for the parser.\<close>

definition field :: "string \<Rightarrow> bytes" where
  "field s = map byte_of_char s @ [0]"

definition request_bytes :: "opcode \<Rightarrow> string \<Rightarrow> string \<Rightarrow> (string \<times> string) list \<Rightarrow> bytes" where
  "request_bytes op filename mode options =
     [0, word_of_int (opcode_num op)] @ field filename @ field mode
       @ concat (map (\<lambda>(k, v). field k @ field v) options)"

definition wire_text :: "string \<Rightarrow> bool" where
  "wire_text s \<longleftrightarrow> list_all is_ascii s \<and> CHR 0x00 \<notin> set s"

lemma wire_text_bytes:
  assumes "wire_text s"
  shows "decode_ascii (map byte_of_char s) = Inr s" and "split0 (field s @ bs) = map byte_of_char s # split0 bs"
proof -
  have e: "encode_ascii s = Inr (map byte_of_char s)" using assms by (simp add: wire_text_def encode_ascii_def)
  show "decode_ascii (map byte_of_char s) = Inr s" using decode_encode [OF e] .
  have "0 \<notin> set (map byte_of_char s)" using encode_no_zero [OF e] assms by (simp add: wire_text_def)
  from split0_append [OF this, of bs] show "split0 (field s @ bs) = map byte_of_char s # split0 bs"
    by (simp add: field_def)
qed

lemma split0_options:
  "\<forall>(k, v) \<in> set options. wire_text k \<and> wire_text v \<Longrightarrow>
   split0 (concat (map (\<lambda>(k, v). field k @ field v) options))
     = concat (map (\<lambda>(k, v). [map byte_of_char k, map byte_of_char v]) options) @ [[]]"
  by (induction options) (auto simp: wire_text_bytes)

lemma parse_options_fields:
  "\<forall>(k, v) \<in> set options. wire_text k \<and> wire_text v \<and> k \<noteq> [] \<Longrightarrow>
   parse_options (concat (map (\<lambda>(k, v). [map byte_of_char k, map byte_of_char v]) options) @ [[]]) acc
     = Inr (fold (\<lambda>(k, v). dict_put (lower k) v) options acc)"
  by (induction options arbitrary: acc) (auto simp: wire_text_bytes)

text \<open>
  C13: A well-formed read or write request parses to exactly what the client asked for: the file
  name, the mode in lower case, and its options by lower-case name, a later option of the same
  name replacing an earlier one.
\<close>

theorem request_parsed:
  assumes "op \<in> {RRQ, WRQ}" and "wire_text filename" and "wire_text mode"
    and "\<forall>(k, v) \<in> set options. wire_text k \<and> wire_text v \<and> k \<noteq> []"
  shows "parse (request_bytes op filename mode options) =
    Inr ((new_packet op)\<lparr>pk_filename := filename, pk_mode := lower mode,
           pk_options := fold (\<lambda>(k, v). dict_put (lower k) v) options []\<rparr>)"
proof -
  let ?body = "field filename @ field mode @ concat (map (\<lambda>(k, v). field k @ field v) options)"
  have opt: "\<forall>(k, v) \<in> set options. wire_text k \<and> wire_text v" using assms(4) by auto
  have s: "split0 ?body = map byte_of_char filename # map byte_of_char mode #
      concat (map (\<lambda>(k, v). [map byte_of_char k, map byte_of_char v]) options) @ [[]]"
    by (simp add: wire_text_bytes(2) [OF assms(2)] wire_text_bytes(2) [OF assms(3)] split0_options [OF opt])
  have "parse_request op ?body = Inr ((new_packet op)\<lparr>pk_filename := filename, pk_mode := lower mode,
      pk_options := fold (\<lambda>(k, v). dict_put (lower k) v) options []\<rparr>)"
    unfolding parse_request_def s
    by (simp add: wire_text_bytes(1) [OF assms(2)] wire_text_bytes(1) [OF assms(3)] parse_options_fields [OF assms(4)])
  moreover have "unpack_H [0, word_of_int (opcode_num op)] = Inr (opcode_num op)"
    using assms(1) by (auto simp: unpack_H_def)
  ultimately show ?thesis
    using assms(1) by (auto simp: parse_def request_bytes_def)
qed

theorem request_parsed_witness:
  "parse (request_bytes RRQ ''a/b.efi'' ''OCTET'' [(''BLKSIZE'', ''1468'')]) =
     Inr ((new_packet RRQ)\<lparr>pk_filename := ''a/b.efi'', pk_mode := ''octet'', pk_options := [(''blksize'', ''1468'')]\<rparr>)"
proof -
  have l: "lower ''OCTET'' = ''octet''" "lower ''BLKSIZE'' = ''blksize''" by code_simp+
  have "wire_text ''a/b.efi''" "wire_text ''OCTET''" "wire_text ''BLKSIZE''" "wire_text ''1468''"
    by (simp_all add: wire_text_def is_ascii_def)
  from request_parsed [of RRQ, OF _ this(1,2), of "[(''BLKSIZE'', ''1468'')]"] this(3,4) l show ?thesis by simp
qed


section \<open>Transfers\<close>

definition DEFAULT_BLKSIZE :: int where "DEFAULT_BLKSIZE = 512"

definition MAX_BLKSIZE :: int where "MAX_BLKSIZE = 65464"

definition MAX_RETRIES :: nat where "MAX_RETRIES = 3"

text \<open>
  What the handler finds at the resolved path: a file, nothing, something else (with its
  \<open>st_size\<close>), or a path outside the root; the last two with the text of the \<open>PermissionError\<close>.
\<close>

datatype file_result = FileContent bytes | FileMissing | NotAFile nat string | Denied string

text \<open>Successive reads of \<open>n\<close> bytes until the end of the file.\<close>

function chunks :: "nat \<Rightarrow> bytes \<Rightarrow> bytes list" where
  "chunks n bs = (if n = 0 \<or> bs = [] then [] else take n bs # chunks n (drop n bs))"
  by pat_completeness auto
termination by (relation "measure (\<lambda>(n, bs). length bs)") auto

declare chunks.simps [simp del]

text \<open>A read of zero bytes is the end of the file; a negative size reads all of it.\<close>

definition read_file :: "bytes \<Rightarrow> int \<Rightarrow> bytes list" where
  "read_file content blksize0 =
     (let blksize = min blksize0 MAX_BLKSIZE in
      if blksize < 0 then (if content = [] then [] else [content]) else chunks (nat blksize) content)"

datatype wait_event = WTimeout | WAck int | WDone

fun wait_loop :: "nat \<Rightarrow> int \<Rightarrow> wait_event list \<Rightarrow> bool \<times> wait_event list" where
  "wait_loop 0 expected_block evs = (False, evs)"
| "wait_loop (Suc r) expected_block [] = (False, [])"
| "wait_loop (Suc r) expected_block (WDone # evs) = (False, evs)"
| "wait_loop (Suc r) expected_block (WAck b # evs) =
     (if b = expected_block then (True, evs) else wait_loop r expected_block evs)"
| "wait_loop (Suc r) expected_block (WTimeout # evs) = wait_loop r expected_block evs"

definition wait_for_ack :: "int \<Rightarrow> wait_event list \<Rightarrow> bool \<times> wait_event list" where
  "wait_for_ack expected_block evs = wait_loop MAX_RETRIES expected_block evs"

text \<open>One block: sent again until acknowledged, at most \<open>MAX_RETRIES\<close> times.\<close>

fun send_block :: "nat \<Rightarrow> bytes \<Rightarrow> int \<Rightarrow> wait_event list \<Rightarrow> bytes list \<times> bool \<times> wait_event list" where
  "send_block 0 data_packet block_num evs = ([], False, evs)"
| "send_block (Suc r) data_packet block_num evs =
     (case wait_for_ack block_num evs of
        (True, evs') \<Rightarrow> ([data_packet], True, evs')
      | (False, evs') \<Rightarrow>
          (case send_block r data_packet block_num evs' of (sent, ok, evs2) \<Rightarrow> (data_packet # sent, ok, evs2)))"

fun send_chunks ::
    "bytes list \<Rightarrow> int \<Rightarrow> wait_event list \<Rightarrow> bytes list \<times> (wire_error + bool \<times> int \<times> wait_event list)" where
  "send_chunks [] block_num evs = ([], Inr (True, block_num, evs))"
| "send_chunks (chunk # rest) block_num evs =
     (case build_data block_num chunk of
        Inl e \<Rightarrow> ([], Inl e)
      | Inr data_packet \<Rightarrow>
          (case send_block MAX_RETRIES data_packet block_num evs of
             (sent, False, evs') \<Rightarrow> (sent, Inr (False, block_num, evs'))
           | (sent, True, evs') \<Rightarrow>
               (case send_chunks rest (block_num + 1) evs' of (sent2, r) \<Rightarrow> (sent @ sent2, r))))"

datatype send_exc = FileNotFoundError | PermissionError string | OtherException string

text \<open>The error packet of the exception handlers; one that cannot be encoded is not sent.\<close>

definition error_reply :: "send_exc \<Rightarrow> bytes list" where
  "error_reply e =
     (case (case e of FileNotFoundError \<Rightarrow> build_error 1 ''File not found''
                    | PermissionError m \<Rightarrow> build_error 2 m
                    | OtherException m \<Rightarrow> build_error 0 m) of
        Inl _ \<Rightarrow> [] | Inr p \<Rightarrow> [p])"

text \<open>The options: the block size to use and the ones to acknowledge.\<close>

definition negotiate ::
    "(wire_error \<Rightarrow> string) \<Rightarrow> file_result \<Rightarrow> (string \<times> string) list \<Rightarrow> send_exc + int \<times> (string \<times> string) list" where
  "negotiate text file options =
     ebind (if ''tsize'' \<in> fst ` set options
            then (case file of
                    FileContent c \<Rightarrow> Inr [(''tsize'', show_nat (length c))]
                  | NotAFile n m \<Rightarrow> Inr [(''tsize'', show_nat n)]
                  | FileMissing \<Rightarrow> Inr []
                  | Denied m \<Rightarrow> Inl (PermissionError m))
            else Inr []) (\<lambda>oack.
     case map_of options ''blksize'' of
       None \<Rightarrow> Inr (DEFAULT_BLKSIZE, oack)
     | Some v \<Rightarrow>
         (case parse_int v of
            Inl e \<Rightarrow> Inl (OtherException (text e))
          | Inr requested \<Rightarrow>
              (let blksize = min requested MAX_BLKSIZE
               in Inr (blksize, dict_put ''blksize'' (show_int blksize) oack))))"

text \<open>The data phase.\<close>

definition send_data ::
    "(wire_error \<Rightarrow> string) \<Rightarrow> file_result \<Rightarrow> int \<Rightarrow> wait_event list \<Rightarrow> bytes list \<times> bool" where
  "send_data text file blksize evs =
     (case file of
        FileMissing \<Rightarrow> (error_reply FileNotFoundError, False)
      | Denied m \<Rightarrow> (error_reply (PermissionError m), False)
      | NotAFile n m \<Rightarrow> (error_reply (PermissionError m), False)
      | FileContent c \<Rightarrow>
          (let cs = read_file c blksize; chunk = (if cs = [] then [] else last cs) in
           case send_chunks cs 1 evs of
             (sent, Inl e) \<Rightarrow> (sent @ error_reply (OtherException (text e)), False)
           | (sent, Inr (False, n, evs')) \<Rightarrow> (sent, False)
           | (sent, Inr (True, n, evs')) \<Rightarrow>
               (if int (length chunk) = blksize
                then (case build_data n [] of
                        Inr p \<Rightarrow> (sent @ [p], True)
                      | Inl e \<Rightarrow> (sent @ error_reply (OtherException (text e)), False))
                else (sent, True))))"

definition send_file ::
    "(wire_error \<Rightarrow> string) \<Rightarrow> file_result \<Rightarrow> (string \<times> string) list \<Rightarrow> wait_event list \<Rightarrow> bytes list \<times> bool" where
  "send_file text file options evs =
     (if options = [] then send_data text file DEFAULT_BLKSIZE evs
      else case negotiate text file options of
        Inl e \<Rightarrow> (error_reply e, False)
      | Inr (blksize, oack_options) \<Rightarrow>
          (if oack_options = [] then send_data text file blksize evs
           else case build_oack oack_options of
             Inl e \<Rightarrow> (error_reply (OtherException (text e)), False)
           | Inr oack_packet \<Rightarrow>
               (case wait_for_ack 0 evs of
                  (False, evs') \<Rightarrow> ([oack_packet], False)
                | (True, evs') \<Rightarrow>
                    (case send_data text file blksize evs' of (sent, ok) \<Rightarrow> (oack_packet # sent, ok)))))"

section \<open>What a client receives\<close>

text \<open>
  A client in lock-step: it takes the next expected block, ignores every other packet
  (retransmissions), and has the whole file when a block is shorter than the block size.
\<close>

fun receive :: "nat \<Rightarrow> int \<Rightarrow> bytes list \<Rightarrow> bytes option" where
  "receive b n [] = None"
| "receive b n (p # ps) =
     (case parse p of
        Inl e \<Rightarrow> receive b n ps
      | Inr pk \<Rightarrow>
          (if pk_opcode pk = DATA \<and> pk_block_num pk = n
           then (if length (pk_data pk) < b then Some (pk_data pk)
                 else map_option ((@) (pk_data pk)) (receive b (n + 1) ps))
           else receive b n ps))"

lemma chunks_end [simp]: "chunks n [] = []" "chunks 0 bs = []"
  by (subst chunks.simps, simp)+

lemma chunks_step: "n \<noteq> 0 \<Longrightarrow> bs \<noteq> [] \<Longrightarrow> chunks n bs = take n bs # chunks n (drop n bs)"
  by (subst chunks.simps) simp



lemma parse_built_data: "build_data n d = Inr p \<Longrightarrow> parse p = Inr ((new_packet DATA)\<lparr>pk_block_num := n, pk_data := d\<rparr>)"
  unfolding build_data_def ebind_Inr_iff using parse_header [of DATA n _ d] by auto






lemma chunks_size:
  assumes "0 < b" and "bs \<noteq> []"
  shows "chunks b bs \<noteq> [] \<and> 1 \<le> length (last (chunks b bs)) \<and> length (last (chunks b bs)) \<le> b
       \<and> length bs = (length (chunks b bs) - 1) * b + length (last (chunks b bs))"
  using assms
proof (induction b bs rule: chunks.induct)
  case (1 b bs)
  have step: "chunks b bs = take b bs # chunks b (drop b bs)" using "1.prems" by (simp add: chunks_step)
  show ?case
  proof (cases "drop b bs = []")
    case True
    then have "chunks b bs = [bs]" using step by simp
    with True "1.prems" show ?thesis by (auto simp: Suc_le_eq)
  next
    case False
    define D where "D = chunks b (drop b bs)"
    from False 1 have ih: "D \<noteq> []" "1 \<le> length (last D)" "length (last D) \<le> b"
      "length (drop b bs) = (length D - 1) * b + length (last D)"
      unfolding D_def by auto
    obtain m where m: "length D = Suc m" using ih(1) by (cases D) auto
    have "length bs = b + length (drop b bs)" using False by simp
    also have "\<dots> = length D * b + length (last D)" unfolding ih(4) m by simp
    finally have "length bs = length D * b + length (last D)" .
    with ih(1-3) show ?thesis unfolding step D_def [symmetric] by simp
  qed
qed







lemma wait_prompt [simp]: "wait_for_ack n (WAck n # evs) = (True, evs)"
  by (simp add: wait_for_ack_def MAX_RETRIES_def numeral_3_eq_3)


section \<open>The size limit\<close>

lemma send_chunks_bound:
  "send_chunks cs n evs = (sent, Inr (True, n', evs')) \<Longrightarrow>
   n' = n + int (length cs) \<and> (cs \<noteq> [] \<longrightarrow> n + int (length cs) \<le> 65536)"
proof (induction cs arbitrary: n evs sent)
  case (Cons c cs)
  from Cons.prems obtain p where p: "build_data n c = Inr p" by (auto split: sum.splits)
  then have n: "n \<le> 65535" by (auto simp: build_data_def pack_HH_def pack_H_def split: if_splits)
  from Cons.prems p obtain e1 s2 where "send_chunks cs (n + 1) e1 = (s2, Inr (True, n', evs'))"
    by (auto split: prod.splits bool.splits)
  from Cons.IH [OF this] n show ?case by (cases "cs = []") auto
qed simp

lemma send_chunks_prompt:
  "0 \<le> n \<Longrightarrow> n + int (length cs) \<le> 65536 \<Longrightarrow>
   \<exists>sent. send_chunks cs n (map WAck [n..n + int (length cs) - 1] @ evs) = (sent, Inr (True, n + int (length cs), evs))"
proof (induction cs arbitrary: n)
  case (Cons c cs)
  have "\<exists>p. build_data n c = Inr p" using Cons.prems by (simp add: build_data_def pack_HH_def pack_H_def)
  moreover have "[n..n + int (length (c # cs)) - 1] = n # [n + 1..n + 1 + int (length cs) - 1]"
    by (subst upto_rec1) (auto simp: algebra_simps)
  moreover have "\<exists>sent. send_chunks cs (n + 1) (map WAck [n + 1..n + 1 + int (length cs) - 1] @ evs)
      = (sent, Inr (True, n + 1 + int (length cs), evs))"
    using Cons.IH [of "n + 1"] Cons.prems by simp
  ultimately show ?case by (auto simp: MAX_RETRIES_def numeral_3_eq_3 algebra_simps)
qed simp

text \<open>
  The size limit without options. A file can be transferred if and only if it is shorter than
  65535 blocks of 512 bytes: a client that acknowledges every block gets any shorter file, and
  for a longer one no sequence of acknowledgements makes the transfer succeed, because the block
  number does not fit in sixteen bits and is not wrapped around.
\<close>

theorem transfer_size_limit:
  "(\<exists>evs. snd (send_file text (FileContent c) [] evs)) \<longleftrightarrow> length c < 65535 * 512"
proof (cases "c = []")
  case True
  then have "snd (send_file text (FileContent c) [] [])"
    by (simp add: send_file_def send_data_def read_file_def DEFAULT_BLKSIZE_def MAX_BLKSIZE_def Let_def)
  with True show ?thesis by auto
next
  case False
  define cs where "cs = chunks 512 c"
  have rf: "read_file c 512 = cs"
    by (simp add: read_file_def MAX_BLKSIZE_def cs_def Let_def)
  have sz: "cs \<noteq> []" "1 \<le> length (last cs)" "length (last cs) \<le> 512"
    "length c = (length cs - 1) * 512 + length (last cs)"
    using chunks_size [of 512 c] False by (simp_all add: cs_def)
  have sf: "send_file text (FileContent c) [] evs =
    (case send_chunks cs 1 evs of
       (sent, Inl e) \<Rightarrow> (sent @ error_reply (OtherException (text e)), False)
     | (sent, Inr (False, n, evs')) \<Rightarrow> (sent, False)
     | (sent, Inr (True, n, evs')) \<Rightarrow>
         (if int (length (last cs)) = 512
          then (case build_data n [] of Inr p \<Rightarrow> (sent @ [p], True)
                | Inl e \<Rightarrow> (sent @ error_reply (OtherException (text e)), False))
          else (sent, True)))" for evs
    using sz(1) by (simp add: send_file_def send_data_def rf DEFAULT_BLKSIZE_def Let_def)
  have fits: "(\<exists>p. build_data n [] = Inr p) \<longleftrightarrow> 0 \<le> n \<and> n \<le> 65535" for n
    by (auto simp: build_data_def pack_HH_def pack_H_def split: if_splits)
  show ?thesis
  proof
    assume "\<exists>evs. snd (send_file text (FileContent c) [] evs)"
    then obtain evs where ok: "snd (send_file text (FileContent c) [] evs)" ..
    then obtain s n e where s: "send_chunks cs 1 evs = (s, Inr (True, n, e))"
      by (auto simp: sf split: prod.splits sum.splits bool.splits)
    note b = send_chunks_bound [OF s]
    have "n \<le> 65535" if "length (last cs) = 512"
      using ok s that fits [of n] by (auto simp: sf split: sum.splits)
    with b sz show "length c < 65535 * 512" by (cases "length (last cs) = 512") auto
  next
    assume l: "length c < 65535 * 512"
    have "length cs - 1 < 65535" using l sz by linarith
    then have "1 + int (length cs) \<le> 65536" using sz(1) by simp
    from send_chunks_prompt [OF _ this, of "[]"] obtain s where
      s: "send_chunks cs 1 (map WAck [1..1 + int (length cs) - 1] @ []) = (s, Inr (True, 1 + int (length cs), []))" by auto
    have "\<exists>p. build_data (1 + int (length cs)) [] = Inr p" if "length (last cs) = 512"
      using that l sz fits by auto
    with s show "\<exists>evs. snd (send_file text (FileContent c) [] evs)"
      by (intro exI [of _ "map WAck [1..1 + int (length cs) - 1] @ []"]) (auto simp: sf)
  qed
qed

text \<open>
  An empty file is never delivered: the server reports success without sending a packet, and a
  client that waits for the last, short block receives nothing. A block size of zero, which it
  accepts, makes every file look empty.
\<close>

theorem empty_transfers:
  "send_file text (FileContent []) [] evs = ([], True)
   \<and> receive 512 1 (fst (send_file text (FileContent []) [] evs)) = None
   \<and> (\<exists>p. send_data text (FileContent c) 0 evs = ([p], True)
        \<and> parse p = Inr ((new_packet DATA)\<lparr>pk_block_num := 1, pk_data := []\<rparr>))"
proof -
  have "\<exists>p. build_data 1 [] = Inr p" by (simp add: build_data_def pack_HH_def pack_H_def)
  then obtain p where p: "build_data 1 [] = Inr p" ..
  with parse_built_data [OF p] show ?thesis
    by (simp add: send_file_def send_data_def read_file_def DEFAULT_BLKSIZE_def MAX_BLKSIZE_def Let_def)
qed


end
