(* ===== verification/Paths.thy ===== *)
theory Paths
  imports Prelude
begin

text \<open>
  File paths as the services that serve files use them (\<open>pathlib.Path\<close>). An absolute path is the
  list of its components; \<open>path_str\<close> is its text. \<open>resolve()\<close> removes \<open>.\<close> and \<open>..\<close>; symbolic
  links are not followed. The lemmas relate the textual prefix test of the access checks to the
  directory structure.
\<close>

section \<open>Paths\<close>

type_synonym path = "string list"

definition path_str :: "path \<Rightarrow> string" where
  "path_str p = (if p = [] then ''/'' else concat (map (\<lambda>c. CHR ''/'' # c) p))"

definition lstrip_slash :: "string \<Rightarrow> string" where
  "lstrip_slash s = dropWhile (\<lambda>c. c = CHR ''/'') s"

text \<open>\<open>(base / filename).resolve()\<close> for a relative name.\<close>

definition resolve :: "path \<Rightarrow> string \<Rightarrow> path" where
  "resolve base filename =
     fold (\<lambda>c acc. if c = ''..'' then butlast acc else acc @ [c])
       (filter (\<lambda>c. c \<noteq> [] \<and> c \<noteq> ''.'') (split_on (CHR ''/'') filename)) base"

text \<open>\<open>(base / filename).resolve()\<close>: an absolute name replaces the base.\<close>

definition resolve_join :: "path \<Rightarrow> string \<Rightarrow> path" where
  "resolve_join base filename = (if startswith filename ''/'' then resolve [] filename else resolve base filename)"

section \<open>Prefixes of path texts\<close>

definition component :: "string \<Rightarrow> bool" where
  "component c \<longleftrightarrow> c \<noteq> [] \<and> c \<noteq> ''.'' \<and> c \<noteq> ''..'' \<and> CHR ''/'' \<notin> set c"

abbreviation clean :: "path \<Rightarrow> bool" where
  "clean p \<equiv> list_all component p"

lemma clean_butlast: "clean p \<Longrightarrow> clean (butlast p)"
  by (auto simp: list_all_iff dest: in_set_butlastD)

lemma resolve_clean:
  assumes "clean base"
  shows "clean (resolve base filename)"
proof -
  have "clean (fold (\<lambda>c acc. if c = ''..'' then butlast acc else acc @ [c]) cs b)"
    if "\<forall>c \<in> set cs. c = ''..'' \<or> component c" "clean b" for cs b
    using that by (induction cs arbitrary: b) (auto simp: clean_butlast)
  moreover have "\<forall>c \<in> set (filter (\<lambda>c. c \<noteq> [] \<and> c \<noteq> ''.'') (split_on (CHR ''/'') filename)). c = ''..'' \<or> component c"
    using split_on_no_sep by (auto simp: component_def)
  ultimately show ?thesis using assms by (simp add: resolve_def)
qed

text \<open>The text of a path without the special case of the root directory.\<close>

definition enc :: "path \<Rightarrow> string" where
  "enc p = concat (map (\<lambda>c. CHR ''/'' # c) p)"

lemma enc_simps [simp]: "enc [] = []" "enc (c # p) = CHR ''/'' # c @ enc p"
  by (simp_all add: enc_def)

lemma enc_append_iff: "enc q @ t = us @ t' \<Longrightarrow> us \<noteq> [] \<Longrightarrow> q \<noteq> [] \<Longrightarrow> CHR ''/'' \<in> set us"
  by (cases q; cases us) auto

text \<open>The end of a component is visible in the text: the next character is a slash.\<close>

lemma component_split:
  assumes "component c" "component d" and "c @ CHR ''/'' # s = d @ t" and "t = [] \<or> hd t = CHR ''/''"
  shows "c = d \<and> CHR ''/'' # s = t"
proof -
  have n: "\<forall>x \<in> set c. x \<noteq> CHR ''/''" "\<forall>x \<in> set d. x \<noteq> CHR ''/''" using assms(1,2) by (auto simp: component_def)
  have "takeWhile (\<lambda>x. x \<noteq> CHR ''/'') (c @ CHR ''/'' # s) = c" using n(1) by (simp add: takeWhile_append2)
  moreover have "takeWhile (\<lambda>x. x \<noteq> CHR ''/'') (d @ t) = d"
    using n(2) assms(4) by (cases t) (simp_all add: takeWhile_append2)
  ultimately have "c = d" using assms(3) by simp
  with assms(3) show ?thesis by simp
qed

lemma enc_prefix_iff:
  assumes "clean r" and "clean p" and "r \<noteq> []"
  shows "(\<exists>t. enc p = enc r @ t) \<longleftrightarrow>
    (\<exists>rest. p = r @ rest) \<or> (\<exists>ext rest. ext \<noteq> [] \<and> p = butlast r @ (last r @ ext) # rest)"
  using assms
proof (induction r arbitrary: p)
  case (Cons c r)
  show ?case
  proof (cases p)
    case Nil
    then show ?thesis by simp
  next
    case (Cons d q)
    have c: "component c" "component d" "clean r" "clean q" using Cons.prems Cons by simp_all
    show ?thesis
    proof (cases "r = []")
      case True
      have "(\<exists>t. d @ enc q = c @ t) \<longleftrightarrow> (\<exists>ext. d = c @ ext)"
      proof
        assume "\<exists>t. d @ enc q = c @ t"
        then obtain t where "d @ enc q = c @ t" ..
        then obtain us where "d = c @ us \<or> (c = d @ us \<and> enc q = us @ t)"
          by (auto simp: append_eq_append_conv2)
        then show "\<exists>ext. d = c @ ext"
        proof
          assume u: "c = d @ us \<and> enc q = us @ t"
          then have "us = []" using c(1) enc_append_iff [of q "[]" us t] by (cases q) (auto simp: component_def)
          with u show ?thesis by simp
        qed blast
      qed auto
      moreover have "(\<exists>ext. d = c @ ext) \<longleftrightarrow> d = c \<or> (\<exists>ext. ext \<noteq> [] \<and> d = c @ ext)" by (metis append_Nil2)
      ultimately show ?thesis using True Cons by auto
    next
      case False
      then obtain e es where r: "r = e # es" by (cases r) auto
      have "(\<exists>t. d @ enc q = c @ enc r @ t) \<longleftrightarrow> d = c \<and> (\<exists>t. enc q = enc r @ t)"
      proof
        assume "\<exists>t. d @ enc q = c @ enc r @ t"
        then obtain t where t: "c @ CHR ''/'' # (e @ enc es @ t) = d @ enc q" by (auto simp: r)
        have "enc q = [] \<or> hd (enc q) = CHR ''/''" by (cases q) auto
        from component_split [OF c(1,2) t this] show "d = c \<and> (\<exists>t. enc q = enc r @ t)"
          by (auto simp: r intro: sym exI [of _ t])
      qed auto
      with Cons.IH [OF c(3,4) False] False Cons show ?thesis by auto
    qed
  qed
qed simp

text \<open>With a closing slash the prefix test is exact: the path lies strictly inside.\<close>

lemma strictly_inside_iff:
  assumes "clean r" and "clean p" and "r \<noteq> []"
  shows "(\<exists>t. enc p = enc r @ CHR ''/'' # t) \<longleftrightarrow> (\<exists>rest. rest \<noteq> [] \<and> p = r @ rest)"
proof
  assume "\<exists>t. enc p = enc r @ CHR ''/'' # t"
  then obtain t where t: "enc p = enc r @ CHR ''/'' # t" ..
  then consider rest where "p = r @ rest"
    | ext rest where "ext \<noteq> []" "p = butlast r @ (last r @ ext) # rest"
    using enc_prefix_iff [OF assms] by blast
  then show "\<exists>rest. rest \<noteq> [] \<and> p = r @ rest"
  proof cases
    case (1 rest)
    with t show ?thesis by (cases rest) (auto simp: enc_def)
  next
    case (2 ext rest)
    have "enc r = enc (butlast r @ [last r])" using assms(3) by simp
    with t 2 have "ext @ enc rest = CHR ''/'' # t" by (simp add: enc_def del: append_butlast_last_id)
    with 2 assms(2) show ?thesis by (cases ext) (auto simp: component_def)
  qed
next
  assume "\<exists>rest. rest \<noteq> [] \<and> p = r @ rest"
  then obtain c rest where "p = r @ c # rest" by (metis neq_Nil_conv)
  then show "\<exists>t. enc p = enc r @ CHR ''/'' # t" by (simp add: enc_def)
qed

end
