(* ===== verification/TftpPaths.thy ===== *)
theory TftpPaths
  imports Paths
begin

text \<open>
  How the TFTP server maps a requested name to a file: \<open>TFTPHandler._resolve_path\<close> of
  src/src/pxe/tftp_server.py with the detection of Raspberry Pi boot requests of
  src/src/pxe/pi_manager.py. Whether a directory exists is the parameter
  \<open>exists\<close>.
\<close>

section \<open>Raspberry Pi requests\<close>

definition hex_lower :: "char \<Rightarrow> bool" where
  "hex_lower c \<longleftrightarrow> c \<in> set ''0123456789abcdef''"

definition validate_serial :: "string \<Rightarrow> bool" where
  "validate_serial serial =
     (let s = strip_newline (lower serial) in length s = 8 \<and> list_all hex_lower s)"

definition PI_BOOT_FILES :: "string list" where
  "PI_BOOT_FILES =
     [''bootcode.bin'', ''start.elf'', ''start4.elf'', ''start_x.elf'', ''start4x.elf'',
      ''start_db.elf'', ''start4db.elf'', ''start_cd.elf'', ''start4cd.elf'',
      ''fixup.dat'', ''fixup4.dat'', ''fixup_x.dat'', ''fixup4x.dat'',
      ''fixup_db.dat'', ''fixup4db.dat'', ''fixup_cd.dat'', ''fixup4cd.dat'',
      ''config.txt'', ''cmdline.txt'',
      ''kernel.img'', ''kernel7.img'', ''kernel7l.img'', ''kernel8.img'',
      ''initramfs.img'', ''initrd.img'',
      ''bcm2710-rpi-3-b.dtb'', ''bcm2710-rpi-3-b-plus.dtb'',
      ''bcm2710-rpi-cm3.dtb'', ''bcm2711-rpi-4-b.dtb'', ''bcm2712-rpi-5-b.dtb'']"

definition dtb_pattern :: "string \<Rightarrow> bool" where
  "dtb_pattern s0 =
     (let s = strip_newline s0; rest = drop 7 s in
      startswith s ''bcm27'' \<and> length s \<ge> 7 \<and> list_all (\<lambda>c. digit_val c \<noteq> None) (take 2 (drop 5 s))
      \<and> endswith rest ''.dtb'' \<and> CHR 0x0A \<notin> set rest)"

definition is_pi_boot_file :: "string \<Rightarrow> bool" where
  "is_pi_boot_file filename \<longleftrightarrow> lower filename \<in> set PI_BOOT_FILES \<or> dtb_pattern (lower filename)"

definition is_pi_serial_request :: "string \<Rightarrow> bool \<times> string \<times> string" where
  "is_pi_serial_request path =
     (let parts = split_on (CHR ''/'') (lstrip_slash path) in
      if length parts < 2 then (False, [], [])
      else let potential_serial = lower (hd parts); filename = last parts in
        if validate_serial potential_serial \<and> is_pi_boot_file filename
        then (True, potential_serial, filename) else (False, [], []))"

section \<open>Resolving a request\<close>

record tftp_handler =
  th_root :: path
  th_pi_discovery_enabled :: bool
  th_pi_discovery_dir :: "path option"
  th_pi_nodes_dir :: "path option"

text \<open>A path whose text does not start with that of the base raises \<open>PermissionError\<close>.\<close>

definition resolve_within :: "path \<Rightarrow> string \<Rightarrow> string + path" where
  "resolve_within base filename =
     (let requested = resolve base filename in
      if \<not> startswith (path_str requested) (path_str base) then Inl (''Access denied: '' @ filename)
      else Inr requested)"

definition resolve_path :: "tftp_handler \<Rightarrow> (path \<Rightarrow> bool) \<Rightarrow> string \<Rightarrow> string + path" where
  "resolve_path h exists original_filename =
     (let filename = lstrip_slash original_filename in
      case (if th_pi_discovery_enabled h then th_pi_discovery_dir h else None) of
        None \<Rightarrow> resolve_within (th_root h) filename
      | Some discovery_dir \<Rightarrow>
          (case is_pi_serial_request original_filename of
             (False, _) \<Rightarrow> resolve_within (th_root h) filename
           | (True, serial, boot_file) \<Rightarrow>
               (case th_pi_nodes_dir h of
                  Some nodes \<Rightarrow>
                    if exists (nodes @ [serial]) then resolve_within (th_root h) filename
                    else resolve_within discovery_dir boot_file
                | None \<Rightarrow> resolve_within discovery_dir boot_file)))"

section \<open>What the check admits\<close>



section \<open>Discovery of unknown boards\<close>

lemma pi_boot_file_component:
  assumes "is_pi_boot_file f" and "CHR ''/'' \<notin> set f"
  shows "component f"
proof -
  have "\<not> is_pi_boot_file []" "\<not> is_pi_boot_file ''.''" "\<not> is_pi_boot_file ''..''" by code_simp+
  with assms show ?thesis by (auto simp: component_def)
qed

lemma resolve_within_component: "component f \<Longrightarrow> resolve_within d f = Inr (d @ [f])"
  by (auto simp: resolve_within_def resolve_def component_def split_on_single Let_def startswith_iff path_str_def)

text \<open>
  A board that is not registered is served from the discovery directory only: when discovery
  is enabled and a request has the form of a Raspberry Pi boot request whose serial number has no
  directory of its own, it resolves to the boot file of that name directly in the discovery
  directory, whatever path the board asked for.
\<close>

theorem pi_discovery_confined:
  assumes "th_pi_discovery_enabled h" and "th_pi_discovery_dir h = Some d"
    and "is_pi_serial_request filename = (True, serial, boot_file)"
    and "\<forall>nodes. th_pi_nodes_dir h = Some nodes \<longrightarrow> \<not> exists (nodes @ [serial])"
  shows "resolve_path h exists filename = Inr (d @ [boot_file]) \<and> is_pi_boot_file boot_file"
proof -
  have p: "is_pi_boot_file boot_file" "boot_file = last (split_on (CHR ''/'') (lstrip_slash filename))"
    using assms(3) by (auto simp: is_pi_serial_request_def Let_def split: if_splits)
  have "CHR ''/'' \<notin> set boot_file"
    unfolding p(2) by (intro split_on_no_sep [of _ _ "lstrip_slash filename"] last_in_set split_on_nonempty)
  from resolve_within_component [OF pi_boot_file_component [OF p(1) this], of d] p(1) assms show ?thesis
    by (cases "th_pi_nodes_dir h") (simp_all add: resolve_path_def Let_def)
qed

theorem pi_discovery_confined_witness:
  "resolve_path \<lparr>th_root = [''tftp''], th_pi_discovery_enabled = True, th_pi_discovery_dir = Some [''tftp'', ''discovery''],
      th_pi_nodes_dir = Some [''tftp'', ''pi-nodes'']\<rparr> (\<lambda>p. False) ''/0a1b2c3d/../../start4.elf''
   = Inr [''tftp'', ''discovery'', ''start4.elf'']"
proof -
  have "split_on (CHR ''/'') (lstrip_slash ''/0a1b2c3d/../../start4.elf'') = [''0a1b2c3d'', ''..'', ''..'', ''start4.elf'']"
    by (simp add: lstrip_slash_def)
  moreover have "lower ''0a1b2c3d'' = ''0a1b2c3d''" "validate_serial ''0a1b2c3d''" by code_simp+
  moreover have "lower ''start4.elf'' = ''start4.elf''" by code_simp
  then have "is_pi_boot_file ''start4.elf''" by (simp add: is_pi_boot_file_def PI_BOOT_FILES_def)
  ultimately have "is_pi_serial_request ''/0a1b2c3d/../../start4.elf'' = (True, ''0a1b2c3d'', ''start4.elf'')"
    by (simp add: is_pi_serial_request_def)
  from pi_discovery_confined [OF _ _ this, where exists = "\<lambda>p. False" and d = "[''tftp'', ''discovery'']"
      and h = "\<lparr>th_root = [''tftp''], th_pi_discovery_enabled = True, th_pi_discovery_dir = Some [''tftp'', ''discovery''],
      th_pi_nodes_dir = Some [''tftp'', ''pi-nodes'']\<rparr>"]
  show ?thesis by simp
qed


end
