(* ===== verification/Dhcp.thy ===== *)
theory Dhcp
  imports Wire
begin

text \<open>
  The proxy DHCP server, src/src/pxe/dhcp_proxy.py: parsing of requests, detection of iPXE, and
  the offer with the PXE options. A dictionary of options is an association list; a
  \<open>bytearray\<close> is a list of bytes whose slice assignment may change its length, as in Python.
  Dotted numbers are read by \<open>parse_int\<close> (digits with an optional sign).
\<close>

section \<open>Requests\<close>

datatype client_architecture = BIOS | UEFI_X64 | UEFI_X64_ALT

fun arch_num :: "client_architecture \<Rightarrow> int" where
  "arch_num BIOS = 0x00"
| "arch_num UEFI_X64 = 0x07"
| "arch_num UEFI_X64_ALT = 0x09"

definition arch_of :: "int \<Rightarrow> client_architecture option" where
  "arch_of n = find (\<lambda>a. arch_num a = n) [BIOS, UEFI_X64, UEFI_X64_ALT]"

fun BOOT_FILES :: "client_architecture \<Rightarrow> string" where
  "BOOT_FILES BIOS = ''bios/undionly.kpxe''"
| "BOOT_FILES UEFI_X64 = ''uefi/ipxe.efi''"
| "BOOT_FILES UEFI_X64_ALT = ''uefi/ipxe.efi''"

record opt_state =
  os_options :: "(8 word \<times> bytes) list"
  os_client_arch :: "client_architecture option"
  os_is_ipxe :: bool

record dhcp_packet = opt_state +
  dp_op :: "8 word"
  dp_htype :: "8 word"
  dp_hlen :: "8 word"
  dp_xid :: bytes
  dp_client_mac :: bytes

text \<open>\<open>opt_data.decode("ascii", errors="ignore")\<close>\<close>

definition decode_ignore :: "bytes \<Rightarrow> string" where
  "decode_ignore bs = map char_of_byte (filter (\<lambda>b. unat b < 128) bs)"

text \<open>The effect of one option; \<open>opt_len\<close> is its length field, which \<open>opt_data\<close> may fall short of.\<close>

definition note_option :: "8 word \<Rightarrow> nat \<Rightarrow> bytes \<Rightarrow> opt_state \<Rightarrow> wire_error + opt_state" where
  "note_option opt_code opt_len opt_data st0 =
     (let st = st0\<lparr>os_options := dict_put opt_code opt_data (os_options st0)\<rparr> in
      ebind (if opt_code = 93 \<and> opt_len \<ge> 2
             then ebind (unpack_H (take 2 opt_data)) (\<lambda>arch_type. Inr (st\<lparr>os_client_arch := arch_of arch_type\<rparr>))
             else Inr st) (\<lambda>st1.
      let st2 = (if opt_code = 77 \<and> contains ''iPXE'' (decode_ignore opt_data) then st1\<lparr>os_is_ipxe := True\<rparr> else st1)
      in Inr (if opt_code = 175 then st2\<lparr>os_is_ipxe := True\<rparr> else st2)))"

text \<open>The option loop on the bytes from index \<open>i\<close> on.\<close>

function opt_loop :: "bytes \<Rightarrow> opt_state \<Rightarrow> wire_error + opt_state" where
  "opt_loop [] st = Inr st"
| "opt_loop (opt_code # rest) st =
     (if opt_code = 255 then Inr st
      else if opt_code = 0 then opt_loop rest st
      else case rest of
        [] \<Rightarrow> Inl IndexError
      | opt_len # rest' \<Rightarrow>
          (case note_option opt_code (unat opt_len) (take (unat opt_len) rest') st of
             Inl e \<Rightarrow> Inl e
           | Inr st' \<Rightarrow> opt_loop (drop (unat opt_len) rest') st'))"
  by pat_completeness auto
termination by (relation "measure (\<lambda>(bs, st). length bs)") auto

definition magic_cookie :: bytes where
  "magic_cookie = [0x63, 0x82, 0x53, 0x63]"

definition dhcp_parse :: "bytes \<Rightarrow> wire_error + dhcp_packet" where
  "dhcp_parse data =
     (if length data < 240 then Inl PacketValueError
      else
        let op = data ! 0; htype = data ! 1; hlen = data ! 2;
            xid = take 4 (drop 4 data);
            client_mac = take (unat hlen) (drop 28 data);
            st = \<lparr>os_options = [], os_client_arch = None, os_is_ipxe = False\<rparr>
        in ebind (if take 4 (drop 236 data) = magic_cookie then opt_loop (drop 240 data) st else Inr st)
             (\<lambda>s. Inr \<lparr>os_options = os_options s, os_client_arch = os_client_arch s, os_is_ipxe = os_is_ipxe s,
                 dp_op = op, dp_htype = htype, dp_hlen = hlen, dp_xid = xid, dp_client_mac = client_mac\<rparr>))"

section \<open>Offers\<close>

record dhcp_proxy =
  px_tftp_server :: string
  px_http_server :: string

definition get_boot_file :: "client_architecture option \<Rightarrow> string" where
  "get_boot_file arch = BOOT_FILES (case arch of None \<Rightarrow> BIOS | Some a \<Rightarrow> a)"

definition get_ipxe_script_url :: "dhcp_proxy \<Rightarrow> string" where
  "get_ipxe_script_url px = ''http://'' @ px_http_server px @ ''/api/v1/ipxe/boot.ipxe''"

text \<open>\<open>bytes(ns)\<close> of numbers: each must be in \<open>range(0, 256)\<close>.\<close>

fun bytes_of :: "int list \<Rightarrow> wire_error + bytes" where
  "bytes_of [] = Inr []"
| "bytes_of (n # ns) =
     (if 0 \<le> n \<and> n < 256 then ebind (bytes_of ns) (\<lambda>bs. Inr (word_of_int n # bs)) else Inl PacketValueError)"

fun parse_ints :: "string list \<Rightarrow> wire_error + int list" where
  "parse_ints [] = Inr []"
| "parse_ints (x # xs) = ebind (parse_int x) (\<lambda>n. ebind (parse_ints xs) (\<lambda>ns. Inr (n # ns)))"

definition parse_ip :: "string \<Rightarrow> wire_error + bytes" where
  "parse_ip ip_str =
     (let ip = hd (split_on (CHR '':'') ip_str) in ebind (parse_ints (split_on (CHR ''.'') ip)) bytes_of)"

text \<open>\<open>r[a:b] = v\<close>\<close>

definition slice_set :: "nat \<Rightarrow> nat \<Rightarrow> bytes \<Rightarrow> bytes \<Rightarrow> bytes" where
  "slice_set a b v r = take a r @ v @ drop (max a b) r"

text \<open>An option that carries a text with a closing zero byte.\<close>

definition text_option :: "int \<Rightarrow> bytes \<Rightarrow> wire_error + bytes" where
  "text_option code t = ebind (bytes_of [code, int (length t) + 1]) (\<lambda>h. Inr (h @ t @ [0]))"

text \<open>The options from number 66 on, written at index \<open>i\<close>, and the end mark.\<close>

definition boot_options :: "dhcp_proxy \<Rightarrow> bool \<Rightarrow> bytes \<Rightarrow> nat \<Rightarrow> bytes \<Rightarrow> wire_error + bytes" where
  "boot_options px is_ipxe boot_file_bytes i r =
     ebind (if \<not> is_ipxe
            then ebind (encode_ascii (px_tftp_server px)) (\<lambda>tftp_bytes.
                 ebind (text_option 66 tftp_bytes) (\<lambda>opt.
                 Inr (slice_set i (i + 2 + length tftp_bytes + 1) opt r, i + 2 + length tftp_bytes + 1)))
            else Inr (r, i)) (\<lambda>(r, i).
     ebind (text_option 67 boot_file_bytes) (\<lambda>opt.
     let r = slice_set i (i + 2 + length boot_file_bytes + 1) opt r;
         i = i + 2 + length boot_file_bytes + 1
     in if i < length r then Inr (take (i + 1) (r[i := 255])) else Inl IndexError))"

definition build_offer :: "dhcp_proxy \<Rightarrow> dhcp_packet \<Rightarrow> wire_error + bytes" where
  "build_offer px request =
     (let r = replicate 512 0;
          r = r[0 := 2];
          r = r[1 := dp_htype request];
          r = r[2 := dp_hlen request];
          r = slice_set 4 8 (dp_xid request) r;
          r = slice_set 28 (28 + unat (dp_hlen request)) (dp_client_mac request) r;
          boot_file = (if os_is_ipxe request then get_ipxe_script_url px
                       else get_boot_file (os_client_arch request))
      in ebind (encode_ascii boot_file) (\<lambda>boot_file_bytes.
         let sname_bytes = take 63 boot_file_bytes;
             r = (if \<not> os_is_ipxe request then slice_set 108 (108 + length sname_bytes) sname_bytes r else r);
             r = slice_set 236 240 magic_cookie r;
             i = 240;
             r = slice_set i (i + 3) [53, 1, 2] r;
             i = i + 3
         in ebind (parse_ip (px_tftp_server px)) (\<lambda>server_ip.
            let r = slice_set i (i + 6) ([54, 4] @ server_ip) r;
                i = i + 6
            in boot_options px (os_is_ipxe request) boot_file_bytes i r)))"

text \<open>
  One datagram: the reply to send, if any. Every exception is caught and logged.
\<close>

definition dhcp_datagram_received :: "dhcp_proxy \<Rightarrow> bytes \<Rightarrow> bytes option" where
  "dhcp_datagram_received px data =
     (case dhcp_parse data of
        Inl e \<Rightarrow> None
      | Inr packet \<Rightarrow>
          (if dp_op packet = 1
           then case build_offer px packet of Inl e \<Rightarrow> None | Inr response \<Rightarrow> Some response
           else None))"

section \<open>The format of a message\<close>

text \<open>
  A BOOTP message as a reference for parser and offer: the fixed header up to the hardware address
  area, the magic cookie, the options, the end mark and whatever follows it.
\<close>

definition options_bytes :: "(8 word \<times> bytes) list \<Rightarrow> bytes" where
  "options_bytes opts = concat (map (\<lambda>(c, d). c # word_of_nat (length d) # d) opts)"

definition wf_options :: "(8 word \<times> bytes) list \<Rightarrow> bool" where
  "wf_options opts \<longleftrightarrow> (\<forall>(c, d) \<in> set opts. c \<noteq> 0 \<and> c \<noteq> 255 \<and> length d < 256)"

record bootp =
  bp_op :: "8 word"
  bp_htype :: "8 word"
  bp_hlen :: "8 word"
  bp_hops :: "8 word"
  bp_xid :: bytes
  bp_fields :: bytes
  bp_area :: bytes

definition wf_bootp :: "bootp \<Rightarrow> bool" where
  "wf_bootp m \<longleftrightarrow> length (bp_xid m) = 4 \<and> length (bp_fields m) = 20 \<and> length (bp_area m) = 208"

definition message :: "bootp \<Rightarrow> (8 word \<times> bytes) list \<Rightarrow> bytes \<Rightarrow> bytes" where
  "message m opts trailer =
     ([bp_op m, bp_htype m, bp_hlen m, bp_hops m] @ bp_xid m @ bp_fields m @ bp_area m)
       @ magic_cookie @ options_bytes opts @ 255 # trailer"

text \<open>What the options of a request say about the client.\<close>

definition says_ipxe :: "(8 word \<times> bytes) list \<Rightarrow> bool" where
  "says_ipxe opts \<longleftrightarrow> (\<exists>(c, d) \<in> set opts. c = 175 \<or> c = 77 \<and> contains ''iPXE'' (decode_ignore d))"

definition says_arch :: "(8 word \<times> bytes) list \<Rightarrow> client_architecture option" where
  "says_arch opts =
     (case find (\<lambda>(c, d). c = 93 \<and> length d \<ge> 2) (rev opts) of
        None \<Rightarrow> None
      | Some (c, d) \<Rightarrow> arch_of (256 * uint (d ! 0) + uint (d ! 1)))"

definition dict_of :: "(8 word \<times> bytes) list \<Rightarrow> (8 word \<times> bytes) list" where
  "dict_of opts = fold (\<lambda>(c, d). dict_put c d) opts []"

lemma unat_length: "length d < 256 \<Longrightarrow> unat (word_of_nat (length d) :: 8 word) = length d"
  by (simp add: unat_of_nat)

lemma unpack_take2: "length d \<ge> 2 \<Longrightarrow> unpack_H (take 2 d) = Inr (256 * uint (d ! 0) + uint (d ! 1))"
  by (cases d rule: remdups_adj.cases) (auto simp: unpack_H_def)

lemma note_option_full:
  "note_option c (length d) d st = Inr (st
     \<lparr>os_options := dict_put c d (os_options st),
      os_client_arch := (if c = 93 \<and> length d \<ge> 2 then arch_of (256 * uint (d ! 0) + uint (d ! 1)) else os_client_arch st),
      os_is_ipxe := (os_is_ipxe st \<or> c = 175 \<or> c = 77 \<and> contains ''iPXE'' (decode_ignore d))\<rparr>)"
  by (cases st) (auto simp: note_option_def unpack_take2 Let_def)

lemma options_bytes_simps [simp]:
  "options_bytes [] = []" "options_bytes ((c, d) # opts) = c # word_of_nat (length d) # d @ options_bytes opts"
  by (simp_all add: options_bytes_def)

lemma opt_loop_options:
  assumes "wf_options opts"
  shows "opt_loop (options_bytes opts @ 255 # trailer) st = Inr (st
     \<lparr>os_options := fold (\<lambda>(c, d). dict_put c d) opts (os_options st),
      os_client_arch := (if find (\<lambda>(c, d). c = 93 \<and> length d \<ge> 2) (rev opts) = None then os_client_arch st else says_arch opts),
      os_is_ipxe := (os_is_ipxe st \<or> says_ipxe opts)\<rparr>)"
  using assms
proof (induction opts arbitrary: st)
  case Nil
  then show ?case by (simp add: says_ipxe_def)
next
  case (Cons o1 opts)
  obtain c d where o1: "o1 = (c, d)" by fastforce
  have w: "c \<noteq> 0" "c \<noteq> 255" "length d < 256" "wf_options opts" using Cons.prems by (auto simp: wf_options_def o1)
  have "opt_loop (options_bytes (o1 # opts) @ 255 # trailer) st
      = (case note_option c (length d) d st of Inl e \<Rightarrow> Inl e | Inr st' \<Rightarrow> opt_loop (options_bytes opts @ 255 # trailer) st')"
    using w by (simp add: o1 unat_length cong: sum.case_cong)
  also have "\<dots> = opt_loop (options_bytes opts @ 255 # trailer) (st
     \<lparr>os_options := dict_put c d (os_options st),
      os_client_arch := (if c = 93 \<and> length d \<ge> 2 then arch_of (256 * uint (d ! 0) + uint (d ! 1)) else os_client_arch st),
      os_is_ipxe := (os_is_ipxe st \<or> c = 175 \<or> c = 77 \<and> contains ''iPXE'' (decode_ignore d))\<rparr>)"
    by (simp add: note_option_full)
  finally show ?case
    by (auto simp: Cons.IH [OF w(4)] o1 says_ipxe_def says_arch_def find_append split: option.splits)
qed

text \<open>The parser reads every well-formed message.\<close>

lemma dhcp_parse_message:
  assumes "wf_bootp m" and "wf_options opts" and "unat (bp_hlen m) \<le> 208"
  shows "dhcp_parse (message m opts trailer) = Inr
    \<lparr>os_options = dict_of opts, os_client_arch = says_arch opts, os_is_ipxe = says_ipxe opts,
     dp_op = bp_op m, dp_htype = bp_htype m, dp_hlen = bp_hlen m, dp_xid = bp_xid m,
     dp_client_mac = take (unat (bp_hlen m)) (bp_area m)\<rparr>"
proof -
  let ?h = "[bp_op m, bp_htype m, bp_hlen m, bp_hops m] @ bp_xid m @ bp_fields m @ bp_area m"
  let ?d = "message m opts trailer"
  have l: "length ?h = 236" "length magic_cookie = 4" using assms(1) by (simp_all add: wf_bootp_def magic_cookie_def)
  have d: "?d = ?h @ magic_cookie @ options_bytes opts @ 255 # trailer" by (simp add: message_def)
  have "\<not> length ?d < 240" unfolding d using l by simp
  moreover have "take 4 (drop 236 ?d) = magic_cookie" "drop 240 ?d = options_bytes opts @ 255 # trailer"
    unfolding d using l by simp_all
  moreover have "?d ! 0 = bp_op m" "?d ! 1 = bp_htype m" "?d ! 2 = bp_hlen m" by (simp_all add: message_def)
  moreover have "take 4 (drop 4 ?d) = bp_xid m" using assms(1) by (simp add: message_def wf_bootp_def)
  moreover have "take (unat (bp_hlen m)) (drop 28 ?d) = take (unat (bp_hlen m)) (bp_area m)"
    using assms(1,3) by (simp add: message_def wf_bootp_def)
  ultimately show ?thesis
    using opt_loop_options [OF assms(2), of trailer "\<lparr>os_options = [], os_client_arch = None, os_is_ipxe = False\<rparr>"]
    by (auto simp: dhcp_parse_def Let_def dict_of_def says_arch_def)
qed


section \<open>The offer as a message\<close>

text \<open>Writing into the zero bytes at the end of the buffer.\<close>

lemma slice_set_tail:
  assumes "length p \<le> a" and "b = a + length v" and "b \<le> length p + k"
  shows "slice_set a b v (p @ replicate k 0)
    = (p @ replicate (a - length p) 0 @ v) @ replicate (length p + k - b) 0"
  using assms by (simp add: slice_set_def)

lemma bytes_of_small:
  "0 \<le> a \<Longrightarrow> a < 256 \<Longrightarrow> 0 \<le> b \<Longrightarrow> b < 256 \<Longrightarrow> bytes_of [a, b] = Inr [word_of_int a, word_of_int b]"
  by simp

lemma text_option_bytes:
  assumes "length t \<le> 254" and "0 \<le> c" and "c < 256"
  shows "text_option c t = Inr (options_bytes [(word_of_int c, t @ [0])])"
proof -
  have "word_of_int (int (length t) + 1) = (1 + word_of_nat (length t) :: 8 word)"
    by (simp add: add.commute)
  with assms show ?thesis by (simp add: text_option_def)
qed

definition offer_area :: "bytes \<Rightarrow> bytes \<Rightarrow> bytes" where
  "offer_area mac sname = mac @ replicate (80 - length mac) 0 @ sname @ replicate (128 - length sname) 0"

definition offer_head :: "dhcp_packet \<Rightarrow> bytes \<Rightarrow> bootp" where
  "offer_head rq sname =
     \<lparr>bp_op = 2, bp_htype = dp_htype rq, bp_hlen = dp_hlen rq, bp_hops = 0, bp_xid = dp_xid rq,
      bp_fields = replicate 20 0, bp_area = offer_area (dp_client_mac rq) sname\<rparr>"

text \<open>The buffer after the header and the cookie are written.\<close>

lemma offer_header:
  assumes "length (dp_xid rq) = 4" and "length (dp_client_mac rq) = unat (dp_hlen rq)" and "unat (dp_hlen rq) \<le> 80"
    and "length sname \<le> 63"
  defines "r \<equiv> slice_set 28 (28 + unat (dp_hlen rq)) (dp_client_mac rq)
      (slice_set 4 8 (dp_xid rq) ((replicate 512 0)[0 := 2, 1 := dp_htype rq, 2 := dp_hlen rq]))"
  shows "slice_set 236 240 magic_cookie (slice_set 108 (108 + length sname) sname r)
      = take 240 (message (offer_head rq sname) [] []) @ replicate 272 0"
    and "sname = [] \<Longrightarrow> slice_set 236 240 magic_cookie r = take 240 (message (offer_head rq []) [] []) @ replicate 272 0"
proof -
  let ?n = "unat (dp_hlen rq)"
  let ?p = "[2, dp_htype rq, dp_hlen rq] :: bytes"
  have "replicate 512 (0 :: 8 word) = [0, 0, 0] @ replicate 509 0"
    using replicate_add [of 3 509 "0 :: 8 word"] by (simp add: numeral_3_eq_3)
  then have r3: "(replicate 512 0)[0 := 2, 1 := dp_htype rq, 2 := dp_hlen rq] = ?p @ replicate 509 0"
    by (simp add: numeral_2_eq_2)
  have r4: "slice_set 4 8 (dp_xid rq) (?p @ replicate 509 0) = (?p @ [0] @ dp_xid rq) @ replicate 504 0"
    using slice_set_tail [of ?p 4 8 "dp_xid rq" 509] assms(1) by simp
  have r5: "r = (?p @ [0] @ dp_xid rq @ replicate 20 0 @ dp_client_mac rq) @ replicate (484 - ?n) 0"
    unfolding r_def r3 r4
    using slice_set_tail [of "?p @ [0] @ dp_xid rq" 28 "28 + ?n" "dp_client_mac rq" 504] assms(1-3) by simp
  let ?q = "?p @ [0] @ dp_xid rq @ replicate 20 0 @ dp_client_mac rq"
  have q: "length ?q = 28 + ?n" using assms(1,2) by simp
  have r6: "slice_set 108 (108 + length sname) sname r
      = (?q @ replicate (80 - ?n) 0 @ sname) @ replicate (404 - length sname) 0"
    unfolding r5 using slice_set_tail [of ?q 108 "108 + length sname" sname "484 - ?n"] q assms(3,4) by simp
  have msg: "take 240 (message (offer_head rq sn) [] [])
      = (?q @ replicate (80 - ?n) 0 @ sn) @ replicate (128 - length sn) 0 @ magic_cookie" if "length sn \<le> 63" for sn
    using assms(1-3) that by (simp add: message_def offer_head_def offer_area_def magic_cookie_def)
  show "slice_set 236 240 magic_cookie (slice_set 108 (108 + length sname) sname r)
      = take 240 (message (offer_head rq sname) [] []) @ replicate 272 0"
    unfolding r6 msg [OF assms(4)]
    using slice_set_tail [of "?q @ replicate (80 - ?n) 0 @ sname" 236 240 magic_cookie "404 - length sname"] q assms(3,4)
    by (simp add: magic_cookie_def)
  show "slice_set 236 240 magic_cookie r = take 240 (message (offer_head rq []) [] []) @ replicate 272 0"
    if "sname = []"
  proof -
    have "slice_set 108 108 [] r = r" by (simp add: slice_set_def)
    with r6 that have "r = (?q @ replicate (80 - ?n) 0) @ replicate 404 0" by simp
    moreover have "slice_set 236 240 magic_cookie ((?q @ replicate (80 - ?n) 0) @ replicate 404 0)
        = (?q @ replicate (80 - ?n) 0 @ replicate 128 0 @ magic_cookie) @ replicate 272 0"
      using slice_set_tail [of "?q @ replicate (80 - ?n) 0" 236 240 magic_cookie 404] q assms(3)
      by (simp add: magic_cookie_def)
    moreover have "take 240 (message (offer_head rq []) [] []) = ?q @ replicate (80 - ?n) 0 @ replicate 128 0 @ magic_cookie"
      using msg [of "[]"] by simp
    ultimately show ?thesis by (simp del: append_assoc)
  qed
qed

lemma message_take:
  assumes "length (dp_xid rq) = 4" and "length (dp_client_mac rq) \<le> 80" and "length sname \<le> 63"
  shows "message (offer_head rq sname) opts tr = take 240 (message (offer_head rq sname) [] []) @ options_bytes opts @ 255 # tr"
    and "length (take 240 (message (offer_head rq sname) [] [])) = 240"
  using assms by (simp_all add: message_def offer_head_def offer_area_def magic_cookie_def)

text \<open>The options after the server identifier and the end mark.\<close>

lemma finish_offer:
  assumes "length p + length v < length p + k"
  shows "let r = slice_set (length p) (length p + length v) v (p @ replicate k 0); i = length p + length v
         in i < length r \<and> take (i + 1) (r[i := 255]) = p @ v @ [255]"
proof -
  have "slice_set (length p) (length p + length v) v (p @ replicate k 0) = (p @ v) @ replicate (k - length v) 0"
    using slice_set_tail [of p "length p" "length p + length v" v k] assms by simp
  moreover have "replicate (k - length v) (0 :: 8 word) = 0 # replicate (k - length v - 1) 0"
    using assms by (cases "k - length v") auto
  ultimately show ?thesis by (simp add: Let_def list_update_append)
qed


text \<open>The options of the offer: 66 only for firmware, 67 with the file or the script URL.\<close>

definition offer_options :: "dhcp_proxy \<Rightarrow> bool \<Rightarrow> client_architecture option \<Rightarrow> bytes \<Rightarrow> (8 word \<times> bytes) list" where
  "offer_options px ipxe arch server_ip =
     [(53, [2]), (54, server_ip)]
     @ (if ipxe then [] else [(66, map byte_of_char (px_tftp_server px) @ [0])])
     @ [(67, map byte_of_char (if ipxe then get_ipxe_script_url px else get_boot_file arch) @ [0])]"

text \<open>A server that can make offers: a dotted address and texts that fit in the options.\<close>

definition wf_proxy :: "dhcp_proxy \<Rightarrow> bytes \<Rightarrow> bool" where
  "wf_proxy px server_ip \<longleftrightarrow>
     parse_ip (px_tftp_server px) = Inr server_ip \<and> length server_ip = 4
     \<and> list_all is_ascii (px_tftp_server px) \<and> length (px_tftp_server px) \<le> 238
     \<and> list_all is_ascii (px_http_server px) \<and> length (get_ipxe_script_url px) \<le> 254"

lemma get_boot_file_ascii: "list_all is_ascii (get_boot_file arch)" "length (get_boot_file arch) \<le> 18"
proof -
  have "list_all is_ascii (BOOT_FILES a) \<and> length (BOOT_FILES a) \<le> 18" for a
    by (cases a) (simp_all add: is_ascii_def)
  then show "list_all is_ascii (get_boot_file arch)" "length (get_boot_file arch) \<le> 18"
    unfolding get_boot_file_def by blast+
qed

lemma get_ipxe_script_url_ascii: "list_all is_ascii (px_http_server px) \<Longrightarrow> list_all is_ascii (get_ipxe_script_url px)"
  by (simp add: get_ipxe_script_url_def is_ascii_def)

text \<open>The options are appended to the written part of the buffer.\<close>

lemma text_option_written:
  assumes "length t \<le> 254" and "0 \<le> c" and "c < 256" and "length p + length t + 3 \<le> length p + k"
  shows "text_option c t = Inr (options_bytes [(word_of_int c, t @ [0])])"
    and "slice_set (length p) (length p + 2 + length t + 1) (options_bytes [(word_of_int c, t @ [0])]) (p @ replicate k 0)
      = (p @ options_bytes [(word_of_int c, t @ [0])]) @ replicate (k - (length t + 3)) 0"
  using text_option_bytes [OF assms(1-3)]
    slice_set_tail [of p "length p" "length p + 2 + length t + 1" "options_bytes [(word_of_int c, t @ [0])]" k] assms(4)
  by simp_all

lemma boot_options_written:
  assumes "length bf \<le> 254" and "list_all is_ascii (px_tftp_server px)"
    and "\<not> ipxe \<longrightarrow> length (px_tftp_server px) \<le> 238 \<and> length bf \<le> 18" and "k = 263"
  shows "boot_options px ipxe bf (length p) (p @ replicate k 0) = Inr (p @ options_bytes
    ((if ipxe then [] else [(66, map byte_of_char (px_tftp_server px) @ [0])]) @ [(67, bf @ [0])]) @ [255])"
proof -
  have last: "ebind (text_option 67 bf) (\<lambda>opt.
     let r = slice_set (length q) (length q + 2 + length bf + 1) opt (q @ replicate n 0);
         i = length q + 2 + length bf + 1
     in if i < length r then Inr (take (i + 1) (r[i := 255])) else Inl IndexError)
     = Inr (q @ options_bytes [(67, bf @ [0])] @ [255])" if "length bf + 3 < n" for q n
    using finish_offer [of q "options_bytes [(67, bf @ [0])]" n] that text_option_bytes [OF assms(1), of 67]
    by (simp add: Let_def)
  show ?thesis
  proof (cases ipxe)
    case True
    with last [of 263 p] assms(1,4) show ?thesis by (simp add: boot_options_def)
  next
    case False
    let ?t = "map byte_of_char (px_tftp_server px)"
    let ?q = "p @ options_bytes [(66, ?t @ [0])]"
    have t: "length ?t \<le> 254" "length bf + 3 < 263 - (length ?t + 3)" using assms(3) False by auto
    have q: "length p + 2 + length ?t + 1 = length ?q" by simp
    have w: "text_option 66 ?t = Inr (options_bytes [(66, ?t @ [0])])"
      "slice_set (length p) (length ?q) (options_bytes [(66, ?t @ [0])]) (p @ replicate k 0)
        = ?q @ replicate (263 - (length ?t + 3)) 0"
      using text_option_written [OF t(1), of 66 p k] t(2) assms(4) unfolding q by simp_all
    have "encode_ascii (px_tftp_server px) = Inr ?t" using assms(2) by (simp add: encode_ascii_def)
    then have "boot_options px ipxe bf (length p) (p @ replicate k 0) = Inr (?q @ options_bytes [(67, bf @ [0])] @ [255])"
      unfolding boot_options_def using False last [OF t(2), of ?q]
      by (simp only: not_False_eq_True if_True ebind_simps prod.case q w)
    then show ?thesis using False by simp
  qed
qed

lemma build_offer_message:
  assumes "wf_proxy px ip" and "length (dp_xid rq) = 4" and "length (dp_client_mac rq) = unat (dp_hlen rq)"
    and "unat (dp_hlen rq) \<le> 80"
  shows "\<exists>sname. length sname \<le> 63 \<and> build_offer px rq
    = Inr (message (offer_head rq sname) (offer_options px (os_is_ipxe rq) (os_client_arch rq) ip) [])"
proof -
  note px = assms(1) [unfolded wf_proxy_def]
  define bf where "bf = map byte_of_char (if os_is_ipxe rq then get_ipxe_script_url px else get_boot_file (os_client_arch rq))"
  define sname where "sname = (if os_is_ipxe rq then [] else take 63 bf)"
  define h where "h = take 240 (message (offer_head rq sname) [] [])"
  have s: "length sname \<le> 63" "length (dp_client_mac rq) \<le> 80" using assms(3,4) by (simp_all add: sname_def)
  note m = message_take [OF assms(2) s(2,1), folded h_def]
  note hd = offer_header [OF assms(2-4) s(1), folded h_def]
  have b: "length bf \<le> 254" "\<not> os_is_ipxe rq \<Longrightarrow> length bf \<le> 18"
    using px get_boot_file_ascii(2) [of "os_client_arch rq"] by (auto simp: bf_def)
  have e: "encode_ascii (if os_is_ipxe rq then get_ipxe_script_url px else get_boot_file (os_client_arch rq)) = Inr bf"
    using px get_boot_file_ascii(1) [of "os_client_arch rq"] get_ipxe_script_url_ascii [of px]
    by (simp add: bf_def encode_ascii_def)
  have t: "encode_ascii (px_tftp_server px) = Inr (map byte_of_char (px_tftp_server px))"
    using px by (simp add: encode_ascii_def)
  have o53: "slice_set 240 (240 + 3) [53, 1, 2] (h @ replicate 272 0) = (h @ [53, 1, 2]) @ replicate 269 0"
    using slice_set_tail [of h 240 243 "[53, 1, 2]" 272] m(2) by simp
  have o54: "slice_set (240 + 3) (240 + 3 + 6) ([54, 4] @ ip) ((h @ [53, 1, 2]) @ replicate 269 0)
      = (h @ [53, 1, 2] @ [54, 4] @ ip) @ replicate 263 0"
    using slice_set_tail [of "h @ [53, 1, 2]" 243 249 "[54, 4] @ ip" 269] m(2) px by simp
  let ?p = "h @ [53, 1, 2] @ [54, 4] @ ip"
  have p: "length ?p = 249" using m(2) px by simp
  have len: "\<not> os_is_ipxe rq \<longrightarrow> length (px_tftp_server px) \<le> 238 \<and> length bf \<le> 18" using px b(2) by blast
  have opts: "boot_options px (os_is_ipxe rq) bf (240 + 3 + 6) (?p @ replicate 263 0) = Inr (?p @ options_bytes
    ((if os_is_ipxe rq then [] else [(66, map byte_of_char (px_tftp_server px) @ [0])]) @ [(67, bf @ [0])]) @ [255])"
    using boot_options_written [OF b(1) _ len refl, of ?p] px p by simp
  have head: "slice_set 236 240 magic_cookie
      (if \<not> os_is_ipxe rq then slice_set 108 (108 + length (take 63 bf)) (take 63 bf)
          (slice_set 28 (28 + unat (dp_hlen rq)) (dp_client_mac rq)
            (slice_set 4 8 (dp_xid rq) ((replicate 512 0)[0 := 2, 1 := dp_htype rq, 2 := dp_hlen rq])))
       else slice_set 28 (28 + unat (dp_hlen rq)) (dp_client_mac rq)
            (slice_set 4 8 (dp_xid rq) ((replicate 512 0)[0 := 2, 1 := dp_htype rq, 2 := dp_hlen rq])))
    = h @ replicate 272 0"
    using hd sname_def h_def by (cases "os_is_ipxe rq") simp_all
  show ?thesis
  proof (intro exI [of _ sname] conjI s(1))
    show "build_offer px rq = Inr (message (offer_head rq sname) (offer_options px (os_is_ipxe rq) (os_client_arch rq) ip) [])"
      unfolding build_offer_def Let_def e ebind_simps head o53
      using px o54 opts m(1) [of "offer_options px (os_is_ipxe rq) (os_client_arch rq) ip" "[]"]
      by (simp add: offer_options_def bf_def del: append_assoc)
  qed
qed


section \<open>Requests and replies\<close>

lemma offer_options_wf:
  assumes "wf_proxy px ip"
  shows "wf_options (offer_options px ipxe arch ip)" and "dict_of (offer_options px ipxe arch ip) = offer_options px ipxe arch ip"
    and "says_arch (offer_options px ipxe arch ip) = None" and "\<not> says_ipxe (offer_options px ipxe arch ip)"
  using assms get_boot_file_ascii(2) [of arch]
  by (auto simp: wf_options_def offer_options_def wf_proxy_def dict_of_def says_arch_def says_ipxe_def)

text \<open>
  A boot client gets the offer it needs. To every well-formed BOOTREQUEST the proxy replies,
  and its reply parses as a BOOTREPLY of the same transaction and hardware address that carries
  exactly the options of an offer: the server address, and as boot file the HTTP script for a
  client that says it is iPXE, otherwise the binary for the architecture the client names (the
  BIOS one if it names none that is known) with the TFTP server's name.
\<close>

theorem boot_client_offered:
  assumes "wf_proxy px ip" and "wf_bootp m" and "wf_options opts" and "bp_op m = 1" and "unat (bp_hlen m) \<le> 80"
  shows "\<exists>reply. dhcp_datagram_received px (message m opts trailer) = Some reply
    \<and> dhcp_parse reply = Inr
        \<lparr>os_options = offer_options px (says_ipxe opts) (says_arch opts) ip, os_client_arch = None, os_is_ipxe = False,
         dp_op = 2, dp_htype = bp_htype m, dp_hlen = bp_hlen m, dp_xid = bp_xid m,
         dp_client_mac = take (unat (bp_hlen m)) (bp_area m)\<rparr>"
proof -
  let ?mac = "take (unat (bp_hlen m)) (bp_area m)"
  let ?rq = "\<lparr>os_options = dict_of opts, os_client_arch = says_arch opts, os_is_ipxe = says_ipxe opts,
     dp_op = bp_op m, dp_htype = bp_htype m, dp_hlen = bp_hlen m, dp_xid = bp_xid m, dp_client_mac = ?mac\<rparr>"
  let ?oo = "offer_options px (says_ipxe opts) (says_arch opts) ip"
  have p: "dhcp_parse (message m opts trailer) = Inr ?rq"
    using dhcp_parse_message [OF assms(2,3), of trailer] assms(5) by simp
  have l: "length (bp_xid m) = 4" "length ?mac = unat (bp_hlen m)" using assms(2,5) by (auto simp: wf_bootp_def)
  obtain sname where s: "length sname \<le> 63" "build_offer px ?rq = Inr (message (offer_head ?rq sname) ?oo [])"
    using build_offer_message [OF assms(1), of ?rq] l assms(5) by auto
  have w: "wf_bootp (offer_head ?rq sname)"
    using l s(1) assms(5) by (simp add: wf_bootp_def offer_head_def offer_area_def)
  have "dhcp_parse (message (offer_head ?rq sname) ?oo []) = Inr
        \<lparr>os_options = ?oo, os_client_arch = None, os_is_ipxe = False,
         dp_op = 2, dp_htype = bp_htype m, dp_hlen = bp_hlen m, dp_xid = bp_xid m, dp_client_mac = ?mac\<rparr>"
    using dhcp_parse_message [OF w offer_options_wf(1) [OF assms(1)], of _ _ "[]"] assms(5) l
    by (simp add: offer_options_wf [OF assms(1)] offer_head_def offer_area_def)
  with p s(2) assms(4) show ?thesis by (simp add: dhcp_datagram_received_def)
qed

definition demo_proxy :: dhcp_proxy where
  "demo_proxy = \<lparr>px_tftp_server = ''10.0.0.1'', px_http_server = ''10.0.0.1:8080''\<rparr>"

definition demo_bootp :: bootp where
  "demo_bootp = \<lparr>bp_op = 1, bp_htype = 1, bp_hlen = 6, bp_hops = 0, bp_xid = [1, 2, 3, 4],
      bp_fields = replicate 20 0, bp_area = [10, 11, 12, 13, 14, 15] @ replicate 202 0\<rparr>"

theorem boot_client_offered_witness:
  "(\<exists>reply. dhcp_datagram_received demo_proxy (message demo_bootp [(93, [0, 7])] []) = Some reply
     \<and> map_option os_options (case dhcp_parse reply of Inr p \<Rightarrow> Some p | Inl e \<Rightarrow> None)
       = Some [(53, [2]), (54, [10, 0, 0, 1]), (66, map byte_of_char ''10.0.0.1'' @ [0]),
               (67, map byte_of_char ''uefi/ipxe.efi'' @ [0])])
   \<and> (\<exists>reply. dhcp_datagram_received demo_proxy (message demo_bootp [(93, [0, 7]), (175, [])] []) = Some reply
     \<and> map_option os_options (case dhcp_parse reply of Inr p \<Rightarrow> Some p | Inl e \<Rightarrow> None)
       = Some [(53, [2]), (54, [10, 0, 0, 1]),
               (67, map byte_of_char ''http://10.0.0.1:8080/api/v1/ipxe/boot.ipxe'' @ [0])])"
proof -
  have px: "wf_proxy demo_proxy [10, 0, 0, 1]"
    by (simp add: wf_proxy_def demo_proxy_def parse_ip_def parse_int_def digit_val_def get_ipxe_script_url_def is_ascii_def)
  have m: "wf_bootp demo_bootp" "bp_op demo_bootp = 1" "unat (bp_hlen demo_bootp) \<le> 80"
    by (simp_all add: wf_bootp_def demo_bootp_def)
  have o: "wf_options [(93, [0, 7])]" "wf_options [(93, [0, 7]), (175, [])]" by (simp_all add: wf_options_def)
  have a: "says_arch [(93, [0, 7])] = Some UEFI_X64" by (simp add: says_arch_def arch_of_def)
  have i: "\<not> says_ipxe [(93, [0, 7])]" "says_ipxe [(93, [0, 7]), (175, [])]" by (simp_all add: says_ipxe_def)
  from boot_client_offered [OF px m(1) o(1) m(2,3), of "[]"] boot_client_offered [OF px m(1) o(2) m(2,3), of "[]"]
  show ?thesis
    by (auto simp: i a offer_options_def demo_proxy_def get_boot_file_def get_ipxe_script_url_def)
qed

text \<open>A packet without the cookie has no options, and a truncated option is dropped with an error.\<close>

lemma truncated_option_ignored:
  assumes "wf_bootp m" and "wf_options opts" and "c \<noteq> 0" and "c \<noteq> 255"
  shows "dhcp_datagram_received px (butlast (message m opts []) @ [c]) = None"
proof -
  have loop: "opt_loop (options_bytes opts @ [c]) st = Inl IndexError" for st
    using assms(2)
  proof (induction opts arbitrary: st)
    case (Cons o1 os)
    obtain a d where o1: "o1 = (a, d)" by fastforce
    with Cons show ?case
      by (auto simp: wf_options_def unat_length note_option_full cong: sum.case_cong)
  qed (use assms(3,4) in simp)
  let ?h = "[bp_op m, bp_htype m, bp_hlen m, bp_hops m] @ bp_xid m @ bp_fields m @ bp_area m"
  let ?d = "butlast (message m opts []) @ [c]"
  have d: "?d = ?h @ magic_cookie @ options_bytes opts @ [c]"
    by (simp add: message_def butlast_append)
  have "length ?h = 236" "length magic_cookie = 4" using assms(1) by (simp_all add: wf_bootp_def magic_cookie_def)
  then have "\<not> length ?d < 240" "take 4 (drop 236 ?d) = magic_cookie" "drop 240 ?d = options_bytes opts @ [c]"
    unfolding d by simp_all
  then have "dhcp_parse ?d = Inl IndexError" by (simp only: dhcp_parse_def Let_def loop if_True if_False ebind_simps simp_thms)
  then show ?thesis by (simp add: dhcp_datagram_received_def)
qed

end
