(* ===== verification/Workflows.thy ===== *)
theory Workflows
  imports Paths
begin

text \<open>
  Workflow definitions, src/src/core/workflow_service.py: finding the file of a workflow, listing
  the workflows, and the substitution of variables. The files are a parameter (\<open>wf_files\<close>): which
  paths exist, what the JSON/YAML readers with the request model make of a file, and the directory
  listing per pattern. Names contain no NUL character.
\<close>

section \<open>Workflows\<close>

record workflow =
  w_id :: string
  w_name :: string
  w_description :: string
  w_kernel_path :: string
  w_initrd_path :: string
  w_cmdline :: string
  w_architecture :: string
  w_boot_mode :: string
  w_install_method :: string
  w_boot_url :: string
  w_image_url :: string
  w_target_device :: string
  w_source_device :: string
  w_post_script_url :: string
  w_boot_params :: "(string \<times> string) list"

text \<open>\<open>Workflow(id=..., name=...)\<close>: the defaults of the model.\<close>

definition new_workflow :: "string \<Rightarrow> string \<Rightarrow> workflow" where
  "new_workflow i nm =
     \<lparr>w_id = i, w_name = nm, w_description = [], w_kernel_path = [], w_initrd_path = [], w_cmdline = [],
      w_architecture = ''x86_64'', w_boot_mode = ''bios'', w_install_method = ''kernel'', w_boot_url = [],
      w_image_url = [], w_target_device = ''/dev/sda'', w_source_device = ''/dev/sda'',
      w_post_script_url = [], w_boot_params = []\<rparr>"

text \<open>
  Reading a file: a workflow, an error the service handles (malformed JSON or YAML, or values the
  model rejects), or any other exception.
\<close>

datatype load_error = InvalidFile | OtherFailure

record wf_files =
  wf_exists :: "path \<Rightarrow> bool"
  wf_load :: "path \<Rightarrow> load_error + workflow"
  wf_glob :: "string \<Rightarrow> path list"

datatype wf_error = WorkflowNotFoundError string | WfValueError string | WfUnhandled

section \<open>The service\<close>

text \<open>The loop over the extensions.\<close>

fun find_workflow_file :: "wf_files \<Rightarrow> path \<Rightarrow> string \<Rightarrow> string list \<Rightarrow> wf_error + path option" where
  "find_workflow_file fs dir workflow_id [] = Inr None"
| "find_workflow_file fs dir workflow_id (ext # exts) =
     (let workflow_path = resolve_join dir (workflow_id @ ext) in
      if \<not> startswith (path_str workflow_path) (path_str dir @ ''/'')
      then Inl (WfValueError (''Invalid workflow_id: '' @ workflow_id))
      else if wf_exists fs workflow_path then Inr (Some workflow_path)
      else find_workflow_file fs dir workflow_id exts)"

definition validate_workflow_path :: "wf_files \<Rightarrow> path \<Rightarrow> string \<Rightarrow> wf_error + path option" where
  "validate_workflow_path fs dir workflow_id =
     find_workflow_file fs dir workflow_id [''.json'', ''.yaml'', ''.yml'']"

definition wf_get_workflow :: "wf_files \<Rightarrow> path \<Rightarrow> string \<Rightarrow> wf_error + workflow" where
  "wf_get_workflow fs dir workflow_id =
     ebind (validate_workflow_path fs dir workflow_id) (\<lambda>p.
       case p of
         None \<Rightarrow> Inl (WorkflowNotFoundError workflow_id)
       | Some workflow_path \<Rightarrow>
           (case wf_load fs workflow_path of
              Inr w \<Rightarrow> Inr w
            | Inl InvalidFile \<Rightarrow> Inl (WorkflowNotFoundError workflow_id)
            | Inl OtherFailure \<Rightarrow> Inl WfUnhandled))"

fun list_files :: "wf_files \<Rightarrow> path list \<Rightarrow> workflow list \<Rightarrow> wf_error + workflow list" where
  "list_files fs [] workflows = Inr workflows"
| "list_files fs (p # ps) workflows =
     (case wf_load fs p of
        Inl InvalidFile \<Rightarrow> list_files fs ps workflows
      | Inl OtherFailure \<Rightarrow> Inl WfUnhandled
      | Inr w \<Rightarrow>
          list_files fs ps (if w_id w \<in> w_id ` set workflows then workflows else workflows @ [w]))"

definition list_workflows :: "wf_files \<Rightarrow> path \<Rightarrow> wf_error + workflow list" where
  "list_workflows fs dir =
     (if \<not> wf_exists fs dir then Inr []
      else list_files fs (concat (map (wf_glob fs) [''*.json'', ''*.yaml'', ''*.yml''])) [])"

section \<open>Variables\<close>

text \<open>\<open>s.replace(old, new)\<close> for a non-empty \<open>old\<close>.\<close>

fun replace_all :: "string \<Rightarrow> string \<Rightarrow> string \<Rightarrow> string" where
  "replace_all old new [] = []"
| "replace_all old new (c # cs) =
     (if startswith (c # cs) old then new @ replace_all old new (drop (length old - 1) cs)
      else c # replace_all old new cs)"

text \<open>The four replacements the service makes in a text.\<close>

definition substitute :: "string \<Rightarrow> string \<Rightarrow> string \<Rightarrow> string option \<Rightarrow> string \<Rightarrow> string" where
  "substitute server node_id mac ip s =
     (let s = replace_all ''${server}'' server s;
          s = replace_all ''${node_id}'' node_id s;
          s = replace_all ''${mac}'' mac s
      in if truthy ip then replace_all ''${ip}'' (the ip) s else s)"

definition resolve_variables :: "workflow \<Rightarrow> string \<Rightarrow> string \<Rightarrow> string \<Rightarrow> string option \<Rightarrow> workflow" where
  "resolve_variables w server node_id mac ip =
     (let cmdline = substitute server node_id mac ip (w_cmdline w);
          boot_url = w_boot_url w;
          boot_url = (if boot_url \<noteq> [] then substitute server node_id mac ip boot_url else boot_url);
          image_url = w_image_url w;
          image_url = (if image_url \<noteq> [] then substitute server node_id mac ip image_url else image_url);
          post_script_url = w_post_script_url w;
          post_script_url = (if post_script_url \<noteq> [] then substitute server node_id mac ip post_script_url
                             else post_script_url)
      in (new_workflow (w_id w) (w_name w))
           \<lparr>w_kernel_path := w_kernel_path w, w_initrd_path := w_initrd_path w, w_cmdline := cmdline,
            w_architecture := w_architecture w, w_boot_mode := w_boot_mode w,
            w_install_method := w_install_method w, w_boot_url := boot_url, w_image_url := image_url,
            w_target_device := w_target_device w, w_source_device := w_source_device w,
            w_post_script_url := post_script_url\<rparr>)"

section \<open>Only files of the directory\<close>

lemma resolve_join_clean: "clean dir \<Longrightarrow> clean (resolve_join dir f)"
  by (simp add: resolve_join_def resolve_clean)

lemma inside_iff:
  assumes "clean dir" and "dir \<noteq> []" and "clean p"
  shows "startswith (path_str p) (path_str dir @ ''/'') \<longleftrightarrow> (\<exists>rest. rest \<noteq> [] \<and> p = dir @ rest)"
  using strictly_inside_iff [OF assms(1,3,2)] assms(1,2)
  by (cases "p = []") (auto simp: startswith_iff path_str_def enc_def Cons_eq_append_conv)

lemma find_workflow_file_inside:
  assumes "clean dir" and "dir \<noteq> []" and "find_workflow_file fs dir i exts = Inr (Some p)"
  shows "wf_exists fs p \<and> (\<exists>rest. rest \<noteq> [] \<and> p = dir @ rest) \<and> (\<exists>ext \<in> set exts. p = resolve_join dir (i @ ext))"
  using assms(3)
proof (induction exts)
  case (Cons ext exts)
  note inside_iff [OF assms(1,2) resolve_join_clean [OF assms(1)], of "i @ ext"]
  with Cons show ?case by (auto simp: Let_def split: if_splits)
qed simp

lemma find_workflow_file_outside:
  assumes "clean dir" and "dir \<noteq> []" and "find_workflow_file fs dir i exts = Inl e"
  shows "e = WfValueError (''Invalid workflow_id: '' @ i)
    \<and> (\<exists>ext \<in> set exts. \<not> (\<exists>rest. rest \<noteq> [] \<and> resolve_join dir (i @ ext) = dir @ rest))"
  using assms(3)
proof (induction exts)
  case (Cons ext exts)
  note inside_iff [OF assms(1,2) resolve_join_clean [OF assms(1)], of "i @ ext"]
  with Cons show ?case by (auto simp: Let_def split: if_splits)
qed simp


text \<open>
  A workflow is only ever read from inside the workflow directory. Whatever id is asked for, a
  workflow the service returns was loaded from an existing file strictly inside the directory
  whose name is the id with one of the three extensions; an id that leads out of the directory is
  refused as invalid, and an id without a readable file is reported as not found.
\<close>

theorem workflow_files_confined:
  assumes "clean dir" and "dir \<noteq> []"
  shows "(wf_get_workflow fs dir i = Inr w \<longrightarrow>
      (\<exists>rest ext. rest \<noteq> [] \<and> ext \<in> {''.json'', ''.yaml'', ''.yml''} \<and> resolve_join dir (i @ ext) = dir @ rest
         \<and> wf_exists fs (dir @ rest) \<and> wf_load fs (dir @ rest) = Inr w))
    \<and> ((\<nexists>rest. rest \<noteq> [] \<and> resolve_join dir (i @ ''.json'') = dir @ rest) \<longrightarrow>
        wf_get_workflow fs dir i = Inl (WfValueError (''Invalid workflow_id: '' @ i)))
    \<and> (\<forall>e. wf_get_workflow fs dir i = Inl e \<longrightarrow>
        e \<in> {WorkflowNotFoundError i, WfValueError (''Invalid workflow_id: '' @ i), WfUnhandled})"
proof (intro conjI impI allI)
  let ?exts = "[''.json'', ''.yaml'', ''.yml'']"
  note defs = wf_get_workflow_def validate_workflow_path_def
  { assume "wf_get_workflow fs dir i = Inr w"
    then obtain q where q: "validate_workflow_path fs dir i = Inr q" by (auto simp: wf_get_workflow_def ebind_Inr_iff)
    with \<open>wf_get_workflow fs dir i = Inr w\<close> obtain p where p: "find_workflow_file fs dir i ?exts = Inr (Some p)" "wf_load fs p = Inr w"
      by (cases q; cases "wf_load fs (the q)")
        (auto simp: defs simp del: find_workflow_file.simps split: load_error.split_asm)
    from find_workflow_file_inside [OF assms p(1)] p(2)
    show "\<exists>rest ext. rest \<noteq> [] \<and> ext \<in> {''.json'', ''.yaml'', ''.yml''} \<and> resolve_join dir (i @ ext) = dir @ rest
         \<and> wf_exists fs (dir @ rest) \<and> wf_load fs (dir @ rest) = Inr w"
      by (metis list.set(1,2)) }
  show "wf_get_workflow fs dir i = Inl (WfValueError (''Invalid workflow_id: '' @ i))"
    if "\<nexists>rest. rest \<noteq> [] \<and> resolve_join dir (i @ ''.json'') = dir @ rest"
    using that inside_iff [OF assms resolve_join_clean [OF assms(1)], of "i @ ''.json''"] by (simp add: defs Let_def)
  show "e \<in> {WorkflowNotFoundError i, WfValueError (''Invalid workflow_id: '' @ i), WfUnhandled}"
    if "wf_get_workflow fs dir i = Inl e" for e
  proof (cases "validate_workflow_path fs dir i")
    case (Inl e')
    with that find_workflow_file_outside [OF assms, of fs i ?exts e'] show ?thesis by (simp add: defs)
  next
    case (Inr q)
    with that show ?thesis
      by (cases q; cases "wf_load fs (the q)") (auto simp: wf_get_workflow_def split: load_error.split_asm)
  qed
qed

text \<open>Witness: one file, asked for by its name and by a name that leads out of the directory.\<close>

definition demo_files :: wf_files where
  "demo_files = \<lparr>wf_exists = (\<lambda>p. p = [''wf'', ''a.yaml'']),
     wf_load = (\<lambda>p. Inr (new_workflow ''a'' ''Demo'')), wf_glob = (\<lambda>pat. [])\<rparr>"

theorem workflow_files_confined_witness:
  "wf_get_workflow demo_files [''wf''] ''a'' = Inr (new_workflow ''a'' ''Demo'')
   \<and> wf_get_workflow demo_files [''wf''] ''../etc/a'' = Inl (WfValueError ''Invalid workflow_id: ../etc/a'')"
proof
  have c: "clean [''wf'']" "[''wf''] \<noteq> []" by (simp_all add: component_def)
  have "resolve_join [''wf''] (''../etc/a'' @ ''.json'') = [''etc'', ''a.json'']"
    by (simp add: resolve_join_def resolve_def startswith_def)
  with workflow_files_confined [OF c, of demo_files "''../etc/a''" undefined]
  show "wf_get_workflow demo_files [''wf''] ''../etc/a'' = Inl (WfValueError ''Invalid workflow_id: ../etc/a'')" by simp
  show "wf_get_workflow demo_files [''wf''] ''a'' = Inr (new_workflow ''a'' ''Demo'')"
    by (simp add: wf_get_workflow_def validate_workflow_path_def demo_files_def resolve_join_def resolve_def
        startswith_def path_str_def Let_def)
qed

section \<open>Substitution\<close>

text \<open>A text with placeholders, as a reference for the four successive replacements.\<close>

datatype piece = Lit string | VServer | VNodeId | VMac | VIp

fun piece_text :: "piece \<Rightarrow> string" where
  "piece_text (Lit s) = s"
| "piece_text VServer = ''${server}''"
| "piece_text VNodeId = ''${node_id}''"
| "piece_text VMac = ''${mac}''"
| "piece_text VIp = ''${ip}''"

definition pieces_text :: "piece list \<Rightarrow> string" where
  "pieces_text ps = concat (map piece_text ps)"

fun piece_value :: "string \<Rightarrow> string \<Rightarrow> string \<Rightarrow> string option \<Rightarrow> piece \<Rightarrow> string" where
  "piece_value server node_id mac ip (Lit s) = s"
| "piece_value server node_id mac ip VServer = server"
| "piece_value server node_id mac ip VNodeId = node_id"
| "piece_value server node_id mac ip VMac = mac"
| "piece_value server node_id mac ip VIp = (if truthy ip then the ip else ''${ip}'')"

abbreviation plain :: "string \<Rightarrow> bool" where
  "plain s \<equiv> CHR ''$'' \<notin> set s"

fun plain_piece :: "piece \<Rightarrow> bool" where
  "plain_piece (Lit s) \<longleftrightarrow> plain s"
| "plain_piece _ \<longleftrightarrow> True"

lemma replace_plain: "plain a \<Longrightarrow> replace_all (CHR ''$'' # p) new (a @ s) = a @ replace_all (CHR ''$'' # p) new s"
  by (induction a) (auto simp: startswith_def)

text \<open>One replacement turns one kind of placeholder into literal text.\<close>

lemma replace_piece:
  assumes "v \<in> {VServer, VNodeId, VMac, VIp}" and "\<forall>p \<in> set ps. plain_piece p"
  shows "replace_all (piece_text v) new (pieces_text ps) = pieces_text (map (\<lambda>p. if p = v then Lit new else p) ps)"
  using assms(2)
proof (induction ps)
  case (Cons p ps)
  have r: "replace_all (piece_text v) new (piece_text p @ s)
      = piece_text (if p = v then Lit new else p) @ replace_all (piece_text v) new s" for s
    using assms(1)
  proof (elim insertE emptyE)
    assume "v = VServer" then show ?thesis using Cons.prems by (cases p) (simp_all add: startswith_def replace_plain)
  next
    assume "v = VNodeId" then show ?thesis using Cons.prems by (cases p) (simp_all add: startswith_def replace_plain)
  next
    assume "v = VMac" then show ?thesis using Cons.prems by (cases p) (simp_all add: startswith_def replace_plain)
  next
    assume "v = VIp" then show ?thesis using Cons.prems by (cases p) (simp_all add: startswith_def replace_plain)
  qed
  from Cons show ?case by (simp add: pieces_text_def r)
qed (simp add: pieces_text_def)

text \<open>
  The successive replacements are one simultaneous substitution: a text of literal parts and
  placeholders becomes the same text with each placeholder replaced by its value, the IP
  placeholder staying in place when no address is known, as long as neither the literal parts nor
  the values contain a dollar sign.
\<close>

theorem substitute_simultaneous:
  assumes "\<forall>p \<in> set ps. plain_piece p" and "plain server" and "plain node_id" and "plain mac"
  shows "substitute server node_id mac ip (pieces_text ps) = concat (map (piece_value server node_id mac ip) ps)"
proof -
  let ?set = "\<lambda>v new. map (\<lambda>p. if p = v then Lit new else p)"
  define q1 where "q1 = ?set VServer server ps"
  define q2 where "q2 = ?set VNodeId node_id q1"
  define q3 where "q3 = ?set VMac mac q2"
  have ok: "\<forall>p \<in> set (?set v new ps). plain_piece p" if "\<forall>p \<in> set ps. plain_piece p" "plain new" for v new ps
    using that by auto
  have p: "\<forall>p \<in> set q1. plain_piece p" "\<forall>p \<in> set q2. plain_piece p" "\<forall>p \<in> set q3. plain_piece p"
  proof -
    show p1: "\<forall>p \<in> set q1. plain_piece p" unfolding q1_def by (rule ok [OF assms(1,2)])
    show p2: "\<forall>p \<in> set q2. plain_piece p" unfolding q2_def by (rule ok [OF p1 assms(3)])
    show "\<forall>p \<in> set q3. plain_piece p" unfolding q3_def by (rule ok [OF p2 assms(4)])
  qed
  have "substitute server node_id mac ip (pieces_text ps)
      = (if truthy ip then pieces_text (?set VIp (the ip) q3) else pieces_text q3)"
    using replace_piece [OF _ assms(1), of VServer server] replace_piece [OF _ p(1), of VNodeId node_id]
      replace_piece [OF _ p(2), of VMac mac] replace_piece [OF _ p(3), of VIp "the ip"]
    by (simp add: substitute_def Let_def q1_def [symmetric] q2_def [symmetric] q3_def [symmetric])
  also have "\<dots> = concat (map (piece_value server node_id mac ip) ps)"
  proof -
    have "piece_text (if x3 = VIp then Lit (the ip) else x3) = piece_value server node_id mac ip p" if "truthy ip"
      "x3 = (if x2 = VMac then Lit mac else x2)" "x2 = (if x1 = VNodeId then Lit node_id else x1)"
      "x1 = (if p = VServer then Lit server else p)" for x1 x2 x3 p
      using that by (cases p) simp_all
    moreover have "piece_text x3 = piece_value server node_id mac ip p" if "\<not> truthy ip"
      "x3 = (if x2 = VMac then Lit mac else x2)" "x2 = (if x1 = VNodeId then Lit node_id else x1)"
      "x1 = (if p = VServer then Lit server else p)" for x1 x2 x3 p
      using that by (cases p) simp_all
    ultimately show ?thesis
      unfolding q3_def q2_def q1_def pieces_text_def by (auto simp: comp_def intro!: arg_cong [of _ _ concat])
  qed
  finally show ?thesis .
qed

theorem substitute_simultaneous_witness:
  "substitute ''http://s'' ''n1'' ''aa'' None ''url=${server}/x mac=${mac} ip=${ip}'' = ''url=http://s/x mac=aa ip=${ip}''"
  using substitute_simultaneous [of "[Lit ''url='', VServer, Lit ''/x mac='', VMac, Lit '' ip='', VIp]"
    "''http://s''" "''n1''" "''aa''" None]
  by (simp add: pieces_text_def)

text \<open>The resolved workflow has lost its description and boot parameters.\<close>

lemma resolve_variables_drops: "w_boot_params (resolve_variables w server node_id mac ip) = []"
  "w_description (resolve_variables w server node_id mac ip) = []"
  by (simp_all add: resolve_variables_def new_workflow_def Let_def)

lemma list_files_ids:
  assumes "list_files fs ps ws = Inr ws'" and "distinct (map w_id ws)"
  shows "distinct (map w_id ws') \<and> (\<forall>w \<in> set ws'. w \<in> set ws \<or> (\<exists>p \<in> set ps. wf_load fs p = Inr w))
    \<and> (\<forall>p \<in> set ps. \<forall>w. wf_load fs p = Inr w \<longrightarrow> w_id w \<in> w_id ` set ws') \<and> w_id ` set ws \<subseteq> w_id ` set ws'"
  using assms
proof (induction ps arbitrary: ws)
  case (Cons p ps)
  show ?case
  proof (cases "wf_load fs p")
    case (Inl e)
    with Cons show ?thesis by (cases e) auto
  next
    case (Inr w)
    let ?ws = "if w_id w \<in> w_id ` set ws then ws else ws @ [w]"
    have "list_files fs ps ?ws = Inr ws'" "distinct (map w_id ?ws)" using Inr Cons.prems by auto
    from Cons.IH [OF this] Inr show ?thesis by (auto split: if_splits)
  qed
qed simp

end
