(* ===== verification/BootScripts.thy ===== *)
theory BootScripts
  imports Lifecycle Workflows
begin

text \<open>
  The boot scripts of src/src/api/routes/boot.py: iPXE scripts and GRUB configurations as text,
  line by line. \<open>unlines\<close> ends every line with a newline, as the triple-quoted strings do.
  \<open>boots_remotely\<close> says whether an iPXE script runs a command that loads something from the
  network.
\<close>

section \<open>Texts\<close>

text \<open>\<open>str.upper()\<close> on ASCII text, and \<open>x or default\<close> for an optional text.\<close>

definition upper :: "string \<Rightarrow> string" where
  "upper s = map (\<lambda>c. let n = (of_char c :: nat) in if 97 \<le> n \<and> n \<le> 122 then char_of (n - 32) else c) s"

definition or_else :: "string option \<Rightarrow> string \<Rightarrow> string" where
  "or_else x d = (if truthy x then the x else d)"

text \<open>The last six characters of the MAC address without colons.\<close>

definition short_id_of :: "string \<Rightarrow> string" where
  "short_id_of mac = (let s = filter (\<lambda>c. c \<noteq> CHR '':'') mac in upper (drop (length s - 6) s))"

section \<open>iPXE scripts\<close>

definition generate_local_boot_script :: string where
  "generate_local_boot_script = unlines
     [''#!ipxe'', ''# PureBoot - Boot from local disk'', ''echo Booting from local disk...'', ''exit'']"

definition generate_discovery_script :: "string \<Rightarrow> string \<Rightarrow> string" where
  "generate_discovery_script mac server =
     (let short_id = short_id_of mac in unlines
     [''#!ipxe'', ''# PureBoot - Node discovered'', ''# MAC: '' @ mac, [], ''echo'',
      ''echo  ************************************************************'',
      ''echo  *                    P U R E B O O T                       *'',
      ''echo  *              Network Boot Management System              *'',
      ''echo  ************************************************************'', ''echo'',
      ''echo   Node ID:  '' @ short_id, ''echo   MAC:      '' @ mac, ''echo   IP:       ${net0/ip}'',
      ''echo   Server:   '' @ server, ''echo'', ''echo   Status: Discovered - booting from local disk'',
      ''echo'', ''exit''])"

definition generate_pending_script :: "node \<Rightarrow> string" where
  "generate_pending_script n =
     (let short_id = short_id_of (n_mac_address n) in unlines
     [''#!ipxe'', ''# PureBoot - Installation pending'', ''# MAC: '' @ n_mac_address n,
      ''# Workflow: '' @ or_else (n_workflow_id n) ''none'', ''echo'',
      ''echo ========================================'', ''echo   PureBoot - Pending Installation'',
      ''echo ========================================'', ''echo'', ''echo   Node ID:  '' @ short_id,
      ''echo   MAC:      '' @ n_mac_address n, ''echo   IP:       ${net0/ip}'',
      ''echo   Workflow: '' @ or_else (n_workflow_id n) ''Not assigned'', ''echo'',
      ''echo   Installation will begin on next boot.'', ''echo   Booting from local disk in 5 seconds...'',
      ''echo'', ''sleep 5'', ''exit''])"

definition generate_workflow_error_script :: "node \<Rightarrow> string \<Rightarrow> string" where
  "generate_workflow_error_script n error_message = unlines
     [''#!ipxe'', ''# PureBoot - Installation Error'', ''# MAC: '' @ n_mac_address n,
      ''# Error: '' @ error_message, ''echo'', ''echo *** ERROR ***'', ''echo'',
      ''echo Node: '' @ n_mac_address n, ''echo Error: '' @ error_message, ''echo'',
      ''echo Manual intervention may be required.'', ''echo'',
      ''echo Booting from local disk in 30 seconds...'', ''echo Press any key to enter iPXE shell.'',
      ''sleep 30 || shell'', ''exit'']"

definition generate_install_retry_script :: "node \<Rightarrow> string" where
  "generate_install_retry_script n = unlines
     [''#!ipxe'', ''# PureBoot - Installation Retry'', ''# MAC: '' @ n_mac_address n,
      ''# Attempt: '' @ show_int (n_install_attempts n), ''echo'',
      ''echo Previous installation attempt timed out.'',
      ''echo Retrying installation (attempt '' @ show_int (n_install_attempts n) @ '')...'', ''echo'',
      ''echo Booting from local disk...'', ''echo Installation will restart on next provisioning cycle.'',
      ''sleep 5'', ''exit'']"

text \<open>The parts of the installation script: the header and the commands of each method.\<close>

definition install_header :: "node \<Rightarrow> workflow \<Rightarrow> string" where
  "install_header n w =
     (let short_id = short_id_of (n_mac_address n) in unlines
     [''#!ipxe'', ''# PureBoot - Installing '' @ w_name w, ''# Node: '' @ n_mac_address n,
      ''# Workflow: '' @ w_id w, ''# Method: '' @ w_install_method w, ''echo'',
      ''echo ========================================'', ''echo   PureBoot - OS Installation'',
      ''echo ========================================'', ''echo'', ''echo   Node ID:  '' @ short_id,
      ''echo   MAC:      '' @ n_mac_address n, ''echo   IP:       ${net0/ip}'',
      ''echo   Workflow: '' @ w_name w, ''echo   Method:   '' @ w_install_method w, ''echo''])"

definition sanboot_commands :: "workflow \<Rightarrow> string" where
  "sanboot_commands w = unlines
     [''echo Booting from ISO: '' @ w_boot_url w, ''echo'',
      ''echo This may take several minutes to download...'', ''echo'',
      ''sanboot '' @ w_boot_url w @ '' || goto error'', [], '':error'', ''echo'', ''echo *** BOOT FAILED ***'',
      ''echo Failed to boot from ISO.'', ''echo Press any key to enter iPXE shell.'', ''sleep 30 || shell'',
      ''exit'']"

definition chain_commands :: "workflow \<Rightarrow> string" where
  "chain_commands w = unlines
     [''echo Chainloading: '' @ w_boot_url w, ''echo'', ''chain '' @ w_boot_url w @ '' || goto error'', [],
      '':error'', ''echo'', ''echo *** CHAIN FAILED ***'', ''echo Failed to chainload boot script.'',
      ''echo Press any key to enter iPXE shell.'', ''sleep 30 || shell'', ''exit'']"

definition image_commands :: "workflow \<Rightarrow> string \<Rightarrow> string" where
  "image_commands w server =
     (let grub_efi = server @ ''/api/v1/files/tftp/uefi/grubx64.efi'' in unlines
     [''echo Image-based deployment'', ''echo'', ''echo   Image:  '' @ w_image_url w,
      ''echo   Target: '' @ w_target_device w, ''echo'', ''echo Chainloading GRUB bootloader...'',
      ''echo GRUB will load the Linux kernel.'', ''echo'', ''chain '' @ grub_efi @ '' || goto grub_error'', [],
      '':grub_error'', ''echo'', ''echo *** GRUB LOAD FAILED ***'',
      ''echo Could not chainload GRUB EFI bootloader.'', ''echo Press any key for shell...'', ''prompt'',
      ''shell''])"

definition clone_cmdline :: "node \<Rightarrow> workflow \<Rightarrow> string \<Rightarrow> string" where
  "clone_cmdline n w server =
     ''ip=dhcp pureboot.server='' @ server @ '' pureboot.node_id='' @ n_id n
     @ '' pureboot.mac='' @ n_mac_address n @ '' pureboot.mode=clone_source pureboot.source_device='' @ w_source_device w
     @ '' pureboot.callback='' @ server @ ''/api/v1/nodes/'' @ n_id n @ ''/clone-ready console=ttyS0 console=tty0''"

definition clone_commands :: "node \<Rightarrow> workflow \<Rightarrow> string \<Rightarrow> string" where
  "clone_commands n w server =
     (let deploy_kernel = server @ ''/api/v1/files/tftp/deploy/vmlinuz-virt'';
          deploy_initrd = server @ ''/api/v1/files/tftp/deploy/initramfs-virt'';
          grub_efi = server @ ''/api/v1/files/tftp/uefi/grubx64.efi'';
          deploy_cmdline = clone_cmdline n w server
      in unlines
     [''echo Clone Source Mode'', ''echo'', ''echo   This node will serve its disk for cloning'',
      ''echo   Source: '' @ w_source_device w, ''echo'', ''echo   Other nodes can clone from this machine.'',
      ''echo   Do NOT shut down until cloning is complete.'', ''echo'',
      ''echo Chainloading GRUB bootloader...'', ''echo GRUB will load the Linux kernel.'', ''echo'',
      ''chain '' @ grub_efi @ '' || goto grub_error'', [], '':grub_error'', ''echo'',
      ''echo *** GRUB LOAD FAILED ***'', ''echo Could not chainload GRUB EFI bootloader.'', ''echo'',
      ''echo Trying direct kernel boot (may not work on all UEFI)...'', ''echo'',
      ''kernel '' @ deploy_kernel @ '' '' @ deploy_cmdline @ '' || goto kerror'',
      ''initrd '' @ deploy_initrd @ '' || goto ierror'', ''boot || goto booterror'', [], '':kerror'', ''echo'',
      ''echo *** KERNEL LOAD FAILED ***'', ''echo Could not load: '' @ deploy_kernel,
      ''echo Press any key for shell...'', ''prompt'', ''shell'', [], '':ierror'', ''echo'',
      ''echo *** INITRD LOAD FAILED ***'', ''echo Could not load: '' @ deploy_initrd,
      ''echo Press any key for shell...'', ''prompt'', ''shell'', [], '':booterror'', ''echo'',
      ''echo *** BOOT FAILED ***'', ''echo Failed to start kernel.'', ''echo Press any key for shell...'',
      ''prompt'', ''shell''])"

definition kernel_commands :: "workflow \<Rightarrow> string \<Rightarrow> string" where
  "kernel_commands w server =
     (let kernel_url = server @ ''/api/v1/files'' @ w_kernel_path w;
          initrd_url = server @ ''/api/v1/files'' @ w_initrd_path w
      in unlines
     [''echo Loading kernel...'', ''kernel '' @ kernel_url @ '' '' @ w_cmdline w @ '' || goto error'',
      ''echo Loading initrd...'', ''initrd '' @ initrd_url @ '' || goto error'', ''echo'',
      ''echo Starting installation...'', ''boot'', [], '':error'', ''echo'', ''echo *** BOOT FAILED ***'',
      ''echo Failed to load kernel or initrd.'', ''echo Press any key to enter iPXE shell.'',
      ''sleep 30 || shell'', ''exit''])"

definition generate_install_script :: "node \<Rightarrow> workflow \<Rightarrow> string \<Rightarrow> string" where
  "generate_install_script n w server =
     (let header = install_header n w in
      if w_install_method w = ''sanboot''
      then (if w_boot_url w = [] then generate_workflow_error_script n ''sanboot method requires boot_url''
            else header @ sanboot_commands w)
      else if w_install_method w = ''chain''
      then (if w_boot_url w = [] then generate_workflow_error_script n ''chain method requires boot_url''
            else header @ chain_commands w)
      else if w_install_method w = ''image''
      then (if w_image_url w = [] then generate_workflow_error_script n ''image method requires image_url''
            else header @ image_commands w server)
      else if w_install_method w = ''clone'' then header @ clone_commands n w server
      else header @ kernel_commands w server)"

definition generate_pending_no_workflow_script :: "node \<Rightarrow> string \<Rightarrow> string" where
  "generate_pending_no_workflow_script n server =
     (let short_id = short_id_of (n_mac_address n);
          mac = n_mac_address n;
          ip_addr = or_else (n_ip_address n) ''${net0/ip}'';
          kernel_url = server @ ''/api/v1/files/tftp/deploy/vmlinuz-virt'';
          initrd_url = server @ ''/api/v1/files/tftp/deploy/initramfs-virt'';
          cmdline = ''pureboot.mode=pending pureboot.server='' @ server @ '' pureboot.mac='' @ mac
            @ '' pureboot.node_id='' @ n_id n @ '' ip=dhcp console=tty0 console=ttyS0,115200''
      in unlines
     [''#!ipxe'', ''# PureBoot - Pending (no workflow assigned)'', ''# Node: '' @ mac,
      ''# Booting into deploy environment for disk discovery'', [], ''console --x 800 --y 600 ||'',
      ''clear ||'', [], ''echo'', ''echo ========================================'',
      ''echo   PureBoot - Booting Deploy Environment'', ''echo ========================================'',
      ''echo'', ''echo   Node ID:  '' @ short_id, ''echo   MAC:      '' @ mac, ''echo   IP:       '' @ ip_addr,
      ''echo   Status:   Pending'', ''echo   Server:   '' @ server, ''echo'',
      ''echo ========================================'', ''echo'', ''echo Loading kernel...'',
      ''kernel '' @ kernel_url @ '' '' @ cmdline @ '' || goto poll'', ''echo Loading initrd...'',
      ''initrd '' @ initrd_url @ '' || goto poll'', ''echo Booting deploy environment...'',
      ''boot || goto poll'', [], '':poll'', ''console --x 800 --y 600 ||'', ''clear ||'', ''echo'',
      ''echo ========================================'', ''echo   PureBoot - Awaiting Workflow'',
      ''echo ========================================'', ''echo'', ''echo   Node ID:  '' @ short_id,
      ''echo   MAC:      '' @ mac, ''echo   IP:       '' @ ip_addr, ''echo   Status:   Pending'',
      ''echo   Server:   '' @ server, ''echo'', ''echo   Assign a workflow in the PureBoot UI.'', ''echo'',
      ''echo ========================================'', ''echo'', ''echo Deploy environment boot failed.'',
      ''echo Falling back to iPXE polling mode...'', ''echo'', [],
      ''chain '' @ server @ ''/api/v1/boot/status?mac='' @ mac @ '' || goto retry'', ''goto poll'', [],
      '':retry'', ''sleep 5'', ''goto poll''])"

section \<open>Scripts of the status poll\<close>

definition poweroff_script :: "string \<Rightarrow> string" where
  "poweroff_script short_id = unlines
     [''#!ipxe'', ''# Command: poweroff'', ''echo ['' @ short_id @ ''] Poweroff command received'',
      ''echo Shutting down in 3 seconds...'', ''sleep 3'', ''poweroff'']"

definition reboot_script :: "string \<Rightarrow> string" where
  "reboot_script short_id = unlines
     [''#!ipxe'', ''# Command: reboot'', ''echo ['' @ short_id @ ''] Reboot command received'',
      ''echo Rebooting in 3 seconds...'', ''sleep 3'', ''reboot'']"

definition assigned_script :: "string \<Rightarrow> string \<Rightarrow> string \<Rightarrow> string" where
  "assigned_script mac workflow_id server =
     (let short_id = short_id_of mac in unlines
     [''#!ipxe'', ''# Workflow assigned - proceeding to install'', '':start'',
      ''echo ['' @ short_id @ ''] Workflow assigned: '' @ workflow_id, ''echo Starting installation...'',
      ''chain '' @ server @ ''/api/v1/boot?mac='' @ mac @ '' || goto retry'', [], '':retry'',
      ''echo ['' @ short_id @ ''] Failed to load boot script, retrying in 5s...'', ''sleep 5'', ''goto start''])"

definition waiting_script :: "string \<Rightarrow> string \<Rightarrow> string \<Rightarrow> string" where
  "waiting_script mac ip_addr server =
     (let short_id = short_id_of mac in unlines
     [''#!ipxe'', ''# Still waiting for workflow assignment'', ''console --x 800 --y 600 ||'', ''clear ||'',
      [], ''echo'', ''echo ========================================'', ''echo   PureBoot - Awaiting Workflow'',
      ''echo ========================================'', ''echo'', ''echo   Node ID:  '' @ short_id,
      ''echo   MAC:      '' @ mac, ''echo   IP:       '' @ ip_addr, ''echo   Status:   Pending'',
      ''echo   Server:   '' @ server, ''echo'', ''echo   Assign a workflow in the PureBoot UI.'', ''echo'',
      ''echo ========================================'', ''echo'', ''echo Polling for workflow assignment...'',
      ''echo'', [], ''sleep 10'',
      ''chain '' @ server @ ''/api/v1/boot/status?mac='' @ mac @ '' || goto retry'', [], '':retry'',
      ''echo Server unreachable, retrying...'', ''sleep 5'',
      ''chain '' @ server @ ''/api/v1/boot/status?mac='' @ mac @ '' || goto retry''])"

section \<open>GRUB configurations\<close>

definition grub_local :: string where
  "grub_local = unlines
     [''set default=0'', ''set timeout=5'', [],
      ''menuentry '' @ [CHR 0x22] @ ''Boot from local disk'' @ [CHR 0x22] @ '' {'', ''    exit'', ''}'']"

definition grub_deploy :: "node \<Rightarrow> string \<Rightarrow> string" where
  "grub_deploy n server =
     (let deploy_kernel = server @ ''/api/v1/files/tftp/deploy/vmlinuz-virt'';
          deploy_initrd = server @ ''/api/v1/files/tftp/deploy/initramfs-virt'';
          cmdline = ''ip=dhcp pureboot.server='' @ server @ '' pureboot.node_id='' @ n_id n
            @ '' pureboot.mac='' @ n_mac_address n @ '' pureboot.mode=pending console=ttyS0 console=tty0''
      in unlines
     [''set default=0'', ''set timeout=3'', [],
      ''menuentry '' @ [CHR 0x22] @ ''PureBoot Deploy Environment - '' @ n_mac_address n @ [CHR 0x22] @ '' {'',
      ''    echo '' @ [CHR 0x22] @ ''Loading deploy kernel...'' @ [CHR 0x22],
      ''    linux '' @ deploy_kernel @ '' '' @ cmdline,
      ''    echo '' @ [CHR 0x22] @ ''Loading initrd...'' @ [CHR 0x22], ''    initrd '' @ deploy_initrd,
      ''    echo '' @ [CHR 0x22] @ ''Booting...'' @ [CHR 0x22], ''}'', [],
      ''menuentry '' @ [CHR 0x22] @ ''Boot from local disk'' @ [CHR 0x22] @ '' {'', ''    exit'', ''}''])"

definition grub_not_found :: "string \<Rightarrow> string" where
  "grub_not_found workflow_id = unlines
     [''set default=0'', ''set timeout=5'', [],
      ''menuentry '' @ [CHR 0x22] @ ''Error: Workflow not found'' @ [CHR 0x22] @ '' {'',
      ''    echo '' @ [CHR 0x22] @ ''Workflow '' @ [CHR 0x27] @ workflow_id @ [CHR 0x27] @ '' not found'' @ [CHR 0x22],
      ''    sleep 10'', ''    exit'', ''}'']"

definition grub_workflow :: "node \<Rightarrow> workflow \<Rightarrow> string \<Rightarrow> string" where
  "grub_workflow n w server =
     (let (deploy_kernel, deploy_initrd, cmdline, title) =
        (if w_install_method w = ''clone''
         then (server @ ''/api/v1/files/tftp/deploy/vmlinuz-virt'', server @ ''/api/v1/files/tftp/deploy/initramfs-virt'',
               clone_cmdline n w server, ''PureBoot Clone Source - '' @ n_mac_address n)
         else if w_install_method w = ''image''
         then (server @ ''/api/v1/files/tftp/deploy/vmlinuz-virt'', server @ ''/api/v1/files/tftp/deploy/initramfs-virt'',
               ''ip=dhcp pureboot.server='' @ server @ '' pureboot.node_id='' @ n_id n
               @ '' pureboot.mac='' @ n_mac_address n @ '' pureboot.image_url='' @ w_image_url w @ '' pureboot.target='' @ w_target_device w
               @ '' pureboot.callback='' @ server @ ''/api/v1/nodes/'' @ n_id n @ ''/installed console=ttyS0 console=tty0'',
               ''PureBoot Image Deploy - '' @ n_mac_address n)
         else (server @ ''/api/v1/files'' @ w_kernel_path w, server @ ''/api/v1/files'' @ w_initrd_path w,
               w_cmdline w, ''PureBoot Install - '' @ w_name w))
      in unlines
     [''set default=0'', ''set timeout=3'', [], ''menuentry '' @ [CHR 0x22] @ title @ [CHR 0x22] @ '' {'',
      ''    echo '' @ [CHR 0x22] @ ''Loading kernel...'' @ [CHR 0x22],
      ''    linux '' @ deploy_kernel @ '' '' @ cmdline,
      ''    echo '' @ [CHR 0x22] @ ''Loading initrd...'' @ [CHR 0x22], ''    initrd '' @ deploy_initrd,
      ''    echo '' @ [CHR 0x22] @ ''Booting...'' @ [CHR 0x22], ''}'', [],
      ''menuentry '' @ [CHR 0x22] @ ''Boot from local disk'' @ [CHR 0x22] @ '' {'', ''    exit'', ''}''])"

section \<open>What a script does\<close>

definition boots_remotely :: "string \<Rightarrow> bool" where
  "boots_remotely script \<longleftrightarrow>
     list_ex (\<lambda>l. takeWhile (\<lambda>c. c \<noteq> CHR '' '') l \<in> {''kernel'', ''initrd'', ''chain'', ''sanboot'', ''boot''})
       (split_on (CHR 0x0A) script)"

abbreviation one_line :: "string \<Rightarrow> bool" where
  "one_line s \<equiv> CHR 0x0A \<notin> set s"

lemma split_unlines: "list_all one_line ls \<Longrightarrow> split_on (CHR 0x0A) (unlines ls @ s) = ls @ split_on (CHR 0x0A) s"
  by (induction ls) (auto simp: unlines_def split_on_append)

lemma boots_remotely_unlines:
  "list_all one_line ls \<Longrightarrow> boots_remotely (unlines ls) \<longleftrightarrow>
   list_ex (\<lambda>l. takeWhile (\<lambda>c. c \<noteq> CHR '' '') l \<in> {''kernel'', ''initrd'', ''chain'', ''sanboot'', ''boot''}) ls"
  using split_unlines [of ls "[]"] by (simp add: boots_remotely_def)

lemma local_boot_stays_local: "\<not> boots_remotely generate_local_boot_script"
  unfolding generate_local_boot_script_def by (subst boots_remotely_unlines) simp_all

lemma error_script_stays_local:
  "one_line (n_mac_address n) \<Longrightarrow> one_line m \<Longrightarrow> \<not> boots_remotely (generate_workflow_error_script n m)"
  unfolding generate_workflow_error_script_def by (subst boots_remotely_unlines) simp_all

lemma show_nat_one_line: "one_line (show_nat k)"
  using show_nat_digits [of "CHR 0x0A" k] by (auto simp: digit_val_def)

lemma show_int_one_line: "one_line (show_int k)"
  by (simp add: show_int_def show_nat_one_line)

lemma retry_script_stays_local: "one_line (n_mac_address n) \<Longrightarrow> \<not> boots_remotely (generate_install_retry_script n)"
  unfolding generate_install_retry_script_def by (subst boots_remotely_unlines) (simp_all add: show_int_one_line)

end
