(* ===== verification/Boot.thy ===== *)
theory Boot
  imports BootScripts NodeRoutes
begin

text \<open>
  The boot endpoints of src/src/api/routes/boot.py and the command endpoints of
  src/src/api/routes/nodes.py: what a booting node is told to do, over the node tables.

  Parameters of the model: the workflow files, the server's own URL, and whether the database
  driver returns timestamps without a time zone (\<open>bs_naive_timestamps\<close>; SQLite, the default,
  does). A handler returns the database and the text of the response, or the error that ends the
  request.
\<close>

section \<open>MAC addresses\<close>

definition hex_digit :: "char \<Rightarrow> bool" where
  "hex_digit c \<longleftrightarrow> c \<in> set ''0123456789abcdefABCDEF''"

text \<open>\<open>MAC_PATTERN\<close>; its \<open>$\<close> also matches before a final newline.\<close>

definition mac_pattern :: "string \<Rightarrow> bool" where
  "mac_pattern mac \<longleftrightarrow>
     (let s = strip_newline mac in
      length s = 17 \<and> list_all (\<lambda>(i, c). if i mod 3 = 2 then c \<in> set '':-'' else hex_digit c) (enumerate 0 s))"

definition normalize_mac :: "string \<Rightarrow> string" where
  "normalize_mac mac = lower (replace_char (CHR ''-'') (CHR '':'') mac)"

datatype boot_error =
    BootHTTP nat
  | BootUnhandled svc_error
  | BootTypeError
  | BootWorkflowFailure
  | BootMultipleRows
  | BootDb sql_error

definition validate_mac :: "string \<Rightarrow> boot_error + string" where
  "validate_mac mac = (if \<not> mac_pattern mac then Inl (BootHTTP 400) else Inr (normalize_mac mac))"

section \<open>The server's address\<close>

definition resolve_server_address :: "string \<Rightarrow> string \<Rightarrow> int \<Rightarrow> string" where
  "resolve_server_address primary_ip host port =
     (if host = ''0.0.0.0'' then primary_ip @ '':'' @ show_int port else host @ '':'' @ show_int port)"

definition get_server_url :: "string \<Rightarrow> string \<Rightarrow> int \<Rightarrow> string" where
  "get_server_url primary_ip host port = ''http://'' @ resolve_server_address primary_ip host port"

section \<open>The boot script\<close>

record boot_settings =
  bs_auto_register :: bool
  bs_default_group_id :: "string option"
  bs_install_timeout_minutes :: int
  bs_workflows_dir :: path
  bs_naive_timestamps :: bool
  bs_server :: string

record boot_request =
  bq_mac :: string
  bq_client_ip :: "string option"
  bq_vendor :: "string option"
  bq_model :: "string option"
  bq_serial :: "string option"
  bq_uuid :: "string option"

definition fill :: "string option \<Rightarrow> string option \<Rightarrow> string option" where
  "fill new old = (if truthy new \<and> \<not> truthy old then new else old)"

definition touch_node :: "datetime \<Rightarrow> boot_request \<Rightarrow> node \<Rightarrow> node" where
  "touch_node now q n =
     n\<lparr>n_last_seen_at := Some now,
       n_ip_address := (if truthy (bq_client_ip q) then bq_client_ip q else n_ip_address n),
       n_vendor := fill (bq_vendor q) (n_vendor n),
       n_model := fill (bq_model q) (n_model n),
       n_serial_number := fill (bq_serial q) (n_serial_number n),
       n_system_uuid := fill (bq_uuid q) (n_system_uuid n)\<rparr>"

definition registered_node :: "boot_settings \<Rightarrow> string \<Rightarrow> string \<Rightarrow> boot_request \<Rightarrow> node" where
  "registered_node st nid mac q =
     (new_node nid mac)
       \<lparr>n_ip_address := bq_client_ip q, n_vendor := bq_vendor q, n_model := bq_model q,
        n_serial_number := bq_serial q, n_system_uuid := bq_uuid q,
        n_group_id := bs_default_group_id st\<rparr>"

text \<open>The workflow of a node with its variables filled in; \<open>Inr None\<close> when it is reported as not found.\<close>

definition load_workflow :: "boot_settings \<Rightarrow> wf_files \<Rightarrow> node \<Rightarrow> boot_error + workflow option" where
  "load_workflow st fs n =
     (case wf_get_workflow fs (bs_workflows_dir st) (the (n_workflow_id n)) of
        Inr w \<Rightarrow> Inr (Some (resolve_variables w (bs_server st) (n_id n) (n_mac_address n) (n_ip_address n)))
      | Inl (WorkflowNotFoundError i) \<Rightarrow> Inr None
      | Inl (WfValueError m) \<Rightarrow> Inr None
      | Inl WfUnhandled \<Rightarrow> Inl BootWorkflowFailure)"

definition pending_boot :: "boot_settings \<Rightarrow> wf_files \<Rightarrow> node \<Rightarrow> boot_error + string" where
  "pending_boot st fs n =
     (if \<not> truthy (n_workflow_id n) then Inr (generate_pending_no_workflow_script n (bs_server st))
      else ebind (load_workflow st fs n) (\<lambda>w.
        case w of
          Some w \<Rightarrow> Inr (generate_install_script n w (bs_server st))
        | None \<Rightarrow> Inr (generate_workflow_error_script n
            (''Workflow '' @ [CHR 0x27] @ the (n_workflow_id n) @ [CHR 0x27] @ '' not found''))))"

text \<open>
  A booting node that should be installing: the timeout check, which subtracts the stored time
  from the current one.
\<close>

definition installing_boot :: "boot_settings \<Rightarrow> datetime \<Rightarrow> node \<Rightarrow> boot_error + node \<times> state_log list \<times> string" where
  "installing_boot st now n =
     (let minutes = bs_install_timeout_minutes st in
      case (if minutes > 0 then n_state_changed_at n else None) of
        None \<Rightarrow> Inr (n, [], generate_local_boot_script)
      | Some changed \<Rightarrow>
          (if bs_naive_timestamps st then Inl BootTypeError
           else if now - changed > seconds (minutes * 60)
           then (case handle_install_failure now n
                   (Some (''Installation timed out after '' @ show_int minutes @ '' minutes'')) of
                   (n', Inl e) \<Rightarrow> Inl (BootUnhandled e)
                 | (n', Inr logs) \<Rightarrow>
                     Inr (n', logs,
                       if n_state n' = ''install_failed''
                       then generate_workflow_error_script n' (''Timeout after '' @ show_int minutes @ ''m'')
                       else generate_install_retry_script n'))
           else Inr (n, [], generate_local_boot_script)))"

definition get_boot_script ::
    "boot_settings \<Rightarrow> wf_files \<Rightarrow> datetime \<Rightarrow> string \<Rightarrow> boot_request \<Rightarrow> db \<Rightarrow> boot_error + db \<times> string" where
  "get_boot_script st fs now nid q d =
     ebind (validate_mac (bq_mac q)) (\<lambda>mac.
     case sql_get n_mac_address mac (db_nodes d) of
       None \<Rightarrow>
         (if \<not> bs_auto_register st then Inr (d, generate_local_boot_script)
          else case sql_insert n_id (registered_node st nid mac q) (db_nodes d) of
                 Inl e \<Rightarrow> Inl (BootDb e)
               | Inr nodes \<Rightarrow> Inr (d\<lparr>db_nodes := nodes\<rparr>, generate_local_boot_script))
     | Some n0 \<Rightarrow>
         (let n = touch_node now q n0 in
          if n_state n = ''pending''
          then ebind (pending_boot st fs n) (\<lambda>script. Inr (save_node n d, script))
          else if n_state n = ''installing''
          then ebind (installing_boot st now n) (\<lambda>(n', logs, script). Inr (add_logs logs (save_node n' d), script))
          else Inr (save_node n d, generate_local_boot_script)))"

section \<open>GRUB and the status poll\<close>

definition get_grub_config :: "boot_settings \<Rightarrow> wf_files \<Rightarrow> string \<Rightarrow> db \<Rightarrow> boot_error + db \<times> string" where
  "get_grub_config st fs mac0 d =
     ebind (validate_mac mac0) (\<lambda>mac.
     case sql_get n_mac_address mac (db_nodes d) of
       None \<Rightarrow> Inr (d, grub_local)
     | Some n \<Rightarrow>
         (if \<not> truthy (n_workflow_id n) then Inr (d, grub_deploy n (bs_server st))
          else ebind (load_workflow st fs n) (\<lambda>w.
            case w of
              None \<Rightarrow> Inr (d, grub_not_found (the (n_workflow_id n)))
            | Some w \<Rightarrow> Inr (d, grub_workflow n w (bs_server st)))))"

text \<open>A poll updates the node and takes its pending command.\<close>

definition polled_node :: "datetime \<Rightarrow> string option \<Rightarrow> node \<Rightarrow> node" where
  "polled_node now client n0 =
     (let n = n0\<lparr>n_last_seen_at := Some now,
                 n_ip_address := (case client of None \<Rightarrow> n_ip_address n0 | Some h \<Rightarrow> Some h)\<rparr>
      in if truthy (n_pending_command n) then n\<lparr>n_pending_command := None\<rparr> else n)"

definition status_script :: "boot_settings \<Rightarrow> string \<Rightarrow> string option \<Rightarrow> node \<Rightarrow> string" where
  "status_script st mac command n =
     (if command = Some ''poweroff'' then poweroff_script (short_id_of mac)
      else if command = Some ''reboot'' then reboot_script (short_id_of mac)
      else if n_state n = ''pending'' \<and> truthy (n_workflow_id n)
      then assigned_script mac (the (n_workflow_id n)) (bs_server st)
      else waiting_script mac (or_else (n_ip_address n) ''${net0/ip}'') (bs_server st))"

definition get_boot_status ::
    "boot_settings \<Rightarrow> datetime \<Rightarrow> string \<Rightarrow> string option \<Rightarrow> db \<Rightarrow> boot_error + db \<times> string" where
  "get_boot_status st now mac0 client d =
     ebind (validate_mac mac0) (\<lambda>mac.
     case sql_get n_mac_address mac (db_nodes d) of
       None \<Rightarrow> Inr (d, generate_local_boot_script)
     | Some n0 \<Rightarrow>
         (let n = polled_node now client n0
          in Inr (save_node n d, status_script st mac (n_pending_command n0) n)))"

section \<open>Commands\<close>

definition command_pattern :: "string \<Rightarrow> bool" where
  "command_pattern c \<longleftrightarrow> c \<in> {''poweroff'', ''reboot'', ''rescan''}"

definition send_node_command :: "string \<Rightarrow> string \<Rightarrow> db \<Rightarrow> boot_error + db" where
  "send_node_command node_id command d =
     (if \<not> command_pattern command then Inl (BootHTTP 422)
      else case sql_get n_id node_id (db_nodes d) of
        None \<Rightarrow> Inl (BootHTTP 404)
      | Some n \<Rightarrow> Inr (save_node (n\<lparr>n_pending_command := Some command\<rparr>) d))"

definition get_node_command :: "string \<Rightarrow> bool \<Rightarrow> db \<Rightarrow> boot_error + db \<times> string option" where
  "get_node_command node_id clear d =
     (case sql_get n_id node_id (db_nodes d) of
        None \<Rightarrow> Inl (BootHTTP 404)
      | Some n \<Rightarrow>
          (let command = n_pending_command n in
           if clear \<and> truthy command then Inr (save_node (n\<lparr>n_pending_command := None\<rparr>) d, command)
           else Inr (d, command)))"

section \<open>The boot API\<close>

datatype boot_call =
    GetBoot string boot_request
  | GetGrub string
  | GetStatus string "string option"
  | SendCommand string string
  | GetCommand string bool

fun boot_route :: "boot_settings \<Rightarrow> wf_files \<Rightarrow> datetime \<times> boot_call \<Rightarrow> db \<Rightarrow> boot_error + db" where
  "boot_route st fs (now, GetBoot nid q) d = map_sum id fst (get_boot_script st fs now nid q d)"
| "boot_route st fs (now, GetGrub mac) d = map_sum id fst (get_grub_config st fs mac d)"
| "boot_route st fs (now, GetStatus mac client) d = map_sum id fst (get_boot_status st now mac client d)"
| "boot_route st fs (now, SendCommand i c) d = send_node_command i c d"
| "boot_route st fs (now, GetCommand i clear) d = map_sum id fst (get_node_command i clear d)"


section \<open>The boot API keeps the invariant of the node tables\<close>

lemma touch_quiet: "quiet n (touch_node now q n)"
  by (simp add: quiet_def touch_node_def)

lemma installing_boot_InrD:
  assumes "installing_boot st now n = Inr (n', logs, s)"
  shows "n' = n \<and> logs = [] \<and> s = generate_local_boot_script
    \<or> (\<exists>err. handle_install_failure now n err = (n', Inr logs))
      \<and> s = (if n_state n' = ''install_failed''
              then generate_workflow_error_script n' (''Timeout after '' @ show_int (bs_install_timeout_minutes st) @ ''m'')
              else generate_install_retry_script n')"
  using assms unfolding installing_boot_def Let_def
  by (auto split: option.split_asm if_split_asm prod.split_asm sum.split_asm)

lemma installing_boot_evolves:
  assumes "installing_boot st now n = Inr (n', logs, s)" and "n_state n = ''installing''"
  shows "evolves n n' logs"
  using installing_boot_InrD [OF assms(1)] assms(2)
  by (auto intro: handle_install_failure_evolves evolves_quiet)

lemma get_grub_config_reads: "get_grub_config st fs mac d = Inr (d', s) \<Longrightarrow> d' = d"
proof -
  assume h: "get_grub_config st fs mac d = Inr (d', s)"
  then obtain m where m: "validate_mac mac = Inr m" by (auto simp: get_grub_config_def ebind_Inr_iff)
  show ?thesis
  proof (cases "sql_get n_mac_address m (db_nodes d)")
    case (Some n)
    with h m show ?thesis
      by (cases "load_workflow st fs n"; cases "projr (load_workflow st fs n)")
        (auto simp: get_grub_config_def split: if_split_asm)
  qed (use h m in \<open>simp add: get_grub_config_def\<close>)
qed

lemma fresh_node_inv:
  assumes inv: "db_inv d" and fresh: "n_mac_address n \<notin> n_mac_address ` set (db_nodes d)" "n_id n \<notin> n_id ` set (db_nodes d)"
    and n: "n_state n = ''discovered''" "n_install_attempts n = 0"
  shows "db_inv (d\<lparr>db_nodes := db_nodes d @ [n]\<rparr>)"
proof -
  have "node_logs d (n_id n) = []"
    using inv fresh(2) unfolding db_inv_def node_logs_def filter_empty_conv by metis
  moreover have "node_logs (d\<lparr>db_nodes := db_nodes d @ [n]\<rparr>) i = node_logs d i" for i
    by (simp add: node_logs_def)
  ultimately show ?thesis
    using inv fresh n by (auto simp: db_inv_def keys_unique_def lifecycle_inv_def STATES_def MAX_INSTALL_ATTEMPTS_def)
qed

lemma get_boot_script_inv:
  assumes inv: "db_inv d" and h: "get_boot_script st fs now nid q d = Inr (d', s)"
  shows "db_inv d'"
proof -
  obtain mac where mac: "validate_mac (bq_mac q) = Inr mac"
    using h by (auto simp: get_boot_script_def ebind_Inr_iff)
  show ?thesis
  proof (cases "sql_get n_mac_address mac (db_nodes d)")
    case None
    have "db_inv (d\<lparr>db_nodes := db_nodes d @ [registered_node st nid mac q]\<rparr>)"
      if "nid \<notin> n_id ` set (db_nodes d)"
      using None that by (intro fresh_node_inv [OF inv])
        (auto simp: registered_node_def new_node_def sql_get_None_iff)
    with None h mac inv show ?thesis
      by (auto simp: get_boot_script_def sql_insert_def registered_node_def new_node_def split: if_splits)
  next
    case (Some n0)
    let ?n = "touch_node now q n0"
    note n0 = sql_get_SomeD [OF Some]
    have q: "db_inv (save_node ?n d)" using save_quiet_inv [OF inv _ touch_quiet] n0 by blast
    have "db_inv (add_logs logs (save_node n' d))" if "n_state ?n = ''installing''" "installing_boot st now ?n = Inr (n', logs, s')" for n' logs s'
    proof -
      have "evolves n0 n' logs"
        using evolves_trans [OF quiet_evolves [OF touch_quiet, of n0 now q] installing_boot_evolves [OF that(2,1)]] by simp
      with db_inv_save [OF inv] n0 show ?thesis by blast
    qed
    with q Some h mac show ?thesis
      by (auto simp: get_boot_script_def Let_def ebind_Inr_iff split: if_splits)
  qed
qed

lemma polled_quiet: "quiet n (polled_node now client n)"
  by (simp add: quiet_def polled_node_def Let_def)

lemma get_boot_status_inv: "db_inv d \<Longrightarrow> get_boot_status st now mac client d = Inr (d', s) \<Longrightarrow> db_inv d'"
  unfolding get_boot_status_def Let_def ebind_Inr_iff
  by (auto intro: save_quiet_inv polled_quiet dest: sql_get_SomeD split: option.split_asm)

lemma boot_route_inv:
  assumes "db_inv d" and "boot_route st fs q d = Inr d'"
  shows "db_inv d'"
proof (cases q)
  case (Pair now c)
  note h = assms(2) [unfolded Pair]
  show ?thesis
  proof (cases c)
    case (GetBoot nid r)
    with h show ?thesis by (auto dest!: map_sum_fst_InrD intro: get_boot_script_inv [OF assms(1)])
  next
    case (GetGrub mac)
    with h assms(1) show ?thesis by (auto dest!: map_sum_fst_InrD get_grub_config_reads)
  next
    case (GetStatus mac client)
    with h show ?thesis by (auto dest!: map_sum_fst_InrD intro: get_boot_status_inv [OF assms(1)])
  next
    case (SendCommand i cm)
    with h assms(1) show ?thesis
      by (auto simp: send_node_command_def quiet_def intro!: save_quiet_inv dest: sql_get_SomeD split: option.splits if_splits)
  next
    case (GetCommand i clear)
    with h assms(1) show ?thesis
      by (auto simp: get_node_command_def Let_def quiet_def intro!: save_quiet_inv dest!: map_sum_fst_InrD dest: sql_get_SomeD
          split: option.splits if_splits)
  qed
qed

interpretation boot_api: transactional "boot_route st fs" db_inv
  by unfold_locales (rule boot_route_inv)


section \<open>Only pending nodes are sent to the network\<close>

lemma normalize_mac_one_line: "one_line mac \<Longrightarrow> one_line (normalize_mac mac)"
  using lower_char_newline [THEN iffD1, OF sym]
  by (force simp: normalize_mac_def lower_def replace_char_def split: if_splits)

lemma installing_stays_local:
  assumes "installing_boot st now n = Inr (n', logs, s)" and "one_line (n_mac_address n)" and "n_state n = ''installing''"
  shows "\<not> boots_remotely s"
proof -
  have "n_mac_address n' = n_mac_address n" using installing_boot_evolves [OF assms(1,3)] by (simp add: evolves_def)
  with installing_boot_InrD [OF assms(1)] assms(2) show ?thesis
    by (auto simp: local_boot_stays_local error_script_stays_local retry_script_stays_local show_int_one_line split: if_splits)
qed


definition demo_settings :: boot_settings where
  "demo_settings = \<lparr>bs_auto_register = True, bs_default_group_id = None, bs_install_timeout_minutes = 60,
     bs_workflows_dir = [''wf''], bs_naive_timestamps = False, bs_server = ''http://10.0.0.1:8080''\<rparr>"

definition demo_request :: boot_request where
  "demo_request = \<lparr>bq_mac = ''00-11-22-33-44-55'', bq_client_ip = Some ''10.0.0.9'', bq_vendor = None,
     bq_model = None, bq_serial = None, bq_uuid = None\<rparr>"

lemma demo_mac: "validate_mac (bq_mac demo_request) = Inr ''00:11:22:33:44:55''"
  "normalize_mac (bq_mac demo_request) = ''00:11:22:33:44:55''" "one_line (bq_mac demo_request)"
  by code_simp+



section \<open>Timeouts\<close>

text \<open>A node boots repeatedly, at the given clock readings.\<close>

fun boot_repeatedly ::
    "boot_settings \<Rightarrow> wf_files \<Rightarrow> string \<Rightarrow> boot_request \<Rightarrow> datetime list \<Rightarrow> db \<Rightarrow> boot_error + db \<times> string list" where
  "boot_repeatedly st fs nid q [] d = Inr (d, [])"
| "boot_repeatedly st fs nid q (now # clocks) d =
     ebind (get_boot_script st fs now nid q d) (\<lambda>(d1, script).
     ebind (boot_repeatedly st fs nid q clocks d1) (\<lambda>(d2, scripts). Inr (d2, script # scripts)))"

lemma sql_get_save:
  assumes "keys_unique n_id (db_nodes d)" and "sql_get n_mac_address mac (db_nodes d) = Some n"
    and "n_id n' = n_id n" and "n_mac_address n' = n_mac_address n"
  shows "sql_get n_mac_address mac (db_nodes (save_node n' d)) = Some n'"
proof -
  have "find (\<lambda>r. n_mac_address r = mac) (map (\<lambda>m. if n_id m = n_id n' then n' else m) ns) = Some n'"
    if "distinct (map n_id ns)" "find (\<lambda>r. n_mac_address r = mac) ns = Some n" for ns
    using that assms(3,4)
  proof (induction ns)
    case (Cons m ns)
    then show ?case
      by (auto split: if_splits)
  qed simp
  with assms(1,2) show ?thesis by (simp add: sql_get_def save_node_def keys_unique_def)
qed

lemma fail_installing:
  assumes "n_state n = ''installing''"
  shows "\<exists>n' logs. handle_install_failure now n err = (n', Inr logs)
    \<and> n_install_attempts n' = n_install_attempts n + 1 \<and> n_id n' = n_id n \<and> n_mac_address n' = n_mac_address n
    \<and> n_state n' = (if n_install_attempts n + 1 \<ge> MAX_INSTALL_ATTEMPTS then ''install_failed'' else ''installing'')
    \<and> (n_state n' = ''installing'' \<longrightarrow> n_state_changed_at n' = n_state_changed_at n)"
  using assms
  by (cases "n_install_attempts n + 1 \<ge> MAX_INSTALL_ATTEMPTS") (simp_all add: handle_install_failure_def svc_transition_def Let_def)

lemma timed_out_boot:
  assumes inv: "db_inv d" and mac: "validate_mac (bq_mac q) = Inr mac" "one_line (bq_mac q)"
    and n: "sql_get n_mac_address mac (db_nodes d) = Some n" "n_state n = ''installing''" "n_state_changed_at n = Some t"
    and st: "\<not> bs_naive_timestamps st" "bs_install_timeout_minutes st > 0"
    and late: "now - t > seconds (bs_install_timeout_minutes st * 60)"
  shows "\<exists>d' s n'. get_boot_script st fs now nid q d = Inr (d', s) \<and> \<not> boots_remotely s \<and> db_inv d'
    \<and> sql_get n_mac_address mac (db_nodes d') = Some n' \<and> n_install_attempts n' = n_install_attempts n + 1
    \<and> n_state n' = (if n_install_attempts n + 1 \<ge> MAX_INSTALL_ATTEMPTS then ''install_failed'' else ''installing'')
    \<and> (n_state n' = ''installing'' \<longrightarrow> n_state_changed_at n' = Some t)"
proof -
  let ?n = "touch_node now q n"
  let ?err = "Some (''Installation timed out after '' @ show_int (bs_install_timeout_minutes st) @ '' minutes'')"
  have t: "n_state ?n = ''installing''" "n_state_changed_at ?n = Some t" "n_id ?n = n_id n"
    "n_mac_address ?n = n_mac_address n" "n_install_attempts ?n = n_install_attempts n"
    using n by (simp_all add: touch_node_def)
  obtain n' logs where f: "handle_install_failure now ?n ?err = (n', Inr logs)"
    and r: "n_install_attempts n' = n_install_attempts n + 1" "n_id n' = n_id n" "n_mac_address n' = n_mac_address n"
      "n_state n' = (if n_install_attempts n + 1 \<ge> MAX_INSTALL_ATTEMPTS then ''install_failed'' else ''installing'')"
      "n_state n' = ''installing'' \<longrightarrow> n_state_changed_at n' = Some t"
    using fail_installing [OF t(1), of now ?err] t by auto
  obtain s where i: "installing_boot st now ?n = Inr (n', logs, s)"
    using f st late t(2) by (simp add: installing_boot_def Let_def)
  let ?d = "add_logs logs (save_node n' d)"
  have b: "get_boot_script st fs now nid q d = Inr (?d, s)"
    using mac(1) n(1) t(1) i by (simp add: get_boot_script_def Let_def)
  have m: "one_line (n_mac_address ?n)"
  proof -
    have "mac = normalize_mac (bq_mac q)" using mac(1) by (simp add: validate_mac_def split: if_split_asm)
    moreover have "n_mac_address ?n = mac" using sql_get_SomeD [OF n(1)] t(4) by simp
    ultimately show ?thesis using normalize_mac_one_line [OF mac(2)] by simp
  qed
  have "sql_get n_mac_address mac (db_nodes ?d) = Some n'"
    using sql_get_save [OF _ n(1) r(2,3)] inv by (simp add: add_logs_def db_inv_def)
  with b r get_boot_script_inv [OF inv b] installing_stays_local [OF i m t(1)] show ?thesis by blast
qed

text \<open>
  A timed-out installation is never tried again. Once the timeout of an installing node has
  passed, every boot counts one more failed attempt and tells the machine to boot from disk; no
  boot starts the installation again, and after the remaining attempts are used up in this way
  the node is \<open>install_failed\<close>.
\<close>

theorem timed_out_install_not_retried:
  assumes "db_inv d" and "validate_mac (bq_mac q) = Inr mac" and "one_line (bq_mac q)"
    and "sql_get n_mac_address mac (db_nodes d) = Some n" and "n_state n = ''installing''" and "n_state_changed_at n = Some t"
    and "\<not> bs_naive_timestamps st" and "bs_install_timeout_minutes st > 0"
    and "\<forall>now \<in> set clocks. now - t > seconds (bs_install_timeout_minutes st * 60)"
    and "int (length clocks) = MAX_INSTALL_ATTEMPTS - n_install_attempts n"
  shows "\<exists>d' scripts n'. boot_repeatedly st fs nid q clocks d = Inr (d', scripts)
    \<and> length scripts = length clocks \<and> (\<forall>s \<in> set scripts. \<not> boots_remotely s)
    \<and> sql_get n_mac_address mac (db_nodes d') = Some n' \<and> n_state n' = ''install_failed''"
  using assms(1,4-6,9,10)
proof (induction clocks arbitrary: d n)
  case Nil
  have "lifecycle_inv n" using Nil.prems(1,2) sql_get_SomeD by (fastforce simp: db_inv_def)
  with Nil show ?case by (auto simp: lifecycle_inv_def)
next
  case (Cons now clocks)
  have late: "now - t > seconds (bs_install_timeout_minutes st * 60)" using Cons.prems(5) by simp
  obtain d1 s n1 where b: "get_boot_script st fs now nid q d = Inr (d1, s)" "\<not> boots_remotely s" "db_inv d1"
    "sql_get n_mac_address mac (db_nodes d1) = Some n1" "n_install_attempts n1 = n_install_attempts n + 1"
    "n_state n1 = (if n_install_attempts n + 1 \<ge> MAX_INSTALL_ATTEMPTS then ''install_failed'' else ''installing'')"
    "n_state n1 = ''installing'' \<longrightarrow> n_state_changed_at n1 = Some t"
    using timed_out_boot [OF Cons.prems(1) assms(2,3) Cons.prems(2-4) assms(7,8) late, of fs nid] by blast
  show ?case
  proof (cases "clocks = []")
    case True
    with b Cons.prems(6) show ?thesis by (auto simp: MAX_INSTALL_ATTEMPTS_def)
  next
    case False
    then have "length clocks > 0" by simp
    with Cons.prems(6) have a: "\<not> n_install_attempts n + 1 \<ge> MAX_INSTALL_ATTEMPTS" by (simp del: length_greater_0_conv)
    with b Cons.prems(5,6) obtain d2 ss n2 where "boot_repeatedly st fs nid q clocks d1 = Inr (d2, ss)"
      "length ss = length clocks" "\<forall>s \<in> set ss. \<not> boots_remotely s"
      "sql_get n_mac_address mac (db_nodes d2) = Some n2" "n_state n2 = ''install_failed''"
      using Cons.IH [OF b(3,4)] by auto
    with b(1,2) show ?thesis by auto
  qed
qed

definition installing_db :: db where
  "installing_db = (empty_db [])\<lparr>
     db_nodes := [(new_node ''n1'' ''00:11:22:33:44:55'')\<lparr>n_state := ''installing'', n_state_changed_at := Some 0\<rparr>],
     db_logs := [\<lparr>l_node_id = ''n1'', l_from_state = ''discovered'', l_to_state = ''pending'', l_triggered_by = ''admin'',
                  l_user_id = None, l_comment = None, l_metadata = None\<rparr>,
                 \<lparr>l_node_id = ''n1'', l_from_state = ''pending'', l_to_state = ''installing'', l_triggered_by = ''node_report'',
                  l_user_id = None, l_comment = None, l_metadata = None\<rparr>]\<rparr>"

lemma installing_db_facts:
  "db_inv installing_db"
  "sql_get n_mac_address ''00:11:22:33:44:55'' (db_nodes installing_db) =
     Some ((new_node ''n1'' ''00:11:22:33:44:55'')\<lparr>n_state := ''installing'', n_state_changed_at := Some 0\<rparr>)"
  by (simp_all add: installing_db_def empty_db_def sql_get_def db_inv_def keys_unique_def new_node_def lifecycle_inv_def
      machine_defs MAX_INSTALL_ATTEMPTS_def node_logs_def log_ok_def alerts_inv_def)

theorem timed_out_install_not_retried_witness:
  "\<exists>d' scripts n'. boot_repeatedly demo_settings demo_files ''n9'' demo_request [seconds 3601, seconds 3700, seconds 3800] installing_db
      = Inr (d', scripts) \<and> length scripts = 3
    \<and> sql_get n_mac_address ''00:11:22:33:44:55'' (db_nodes d') = Some n' \<and> n_state n' = ''install_failed''"
  using timed_out_install_not_retried [OF installing_db_facts(1) demo_mac(1,3) installing_db_facts(2), of 0 demo_settings
      "[seconds 3601, seconds 3700, seconds 3800]" demo_files "''n9''"]
  by (auto simp: new_node_def demo_settings_def MAX_INSTALL_ATTEMPTS_def)

text \<open>
  With a driver that returns timestamps without a time zone (SQLite, the default), the boot
  request of an installing node always ends in a \<open>TypeError\<close>: it is rolled back, so the node is
  not even marked as seen, and no installation ever clocks out.
\<close>

theorem naive_timestamps_break_boot:
  assumes "bs_naive_timestamps st" and "bs_install_timeout_minutes st > 0" and "validate_mac (bq_mac q) = Inr mac"
    and "sql_get n_mac_address mac (db_nodes d) = Some n" and "n_state n = ''installing''" and "n_state_changed_at n \<noteq> None"
  shows "get_boot_script st fs now nid q d = Inl BootTypeError \<and> get_db (boot_route st fs) (now, GetBoot nid q) d = d"
proof -
  have "get_boot_script st fs now nid q d = Inl BootTypeError"
    using assms by (auto simp: get_boot_script_def installing_boot_def touch_node_def Let_def)
  then show ?thesis by (simp add: get_db_def)
qed

theorem naive_timestamps_break_boot_witness:
  "get_boot_script (demo_settings\<lparr>bs_naive_timestamps := True\<rparr>) demo_files 7 ''n9'' demo_request installing_db = Inl BootTypeError"
  using naive_timestamps_break_boot [OF _ _ demo_mac(1) installing_db_facts(2), of "demo_settings\<lparr>bs_naive_timestamps := True\<rparr>" demo_files 7 "''n9''"]
  by (simp add: demo_settings_def new_node_def)

section \<open>Commands\<close>

text \<open>
  A command sent to a node is taken by its next status poll: the poll answers with the power-off
  or reboot script, and the one after it does not. A rescan command is taken as well, but the
  answer is the one the node would have got without it, so it is lost.
\<close>

theorem command_taken_once:
  assumes "db_inv d" and "send_node_command i c d = Inr d1" and "sql_get n_mac_address mac (db_nodes d1) = Some n"
    and "n_id n = i" and "validate_mac m = Inr mac" and "get_boot_status st now m client d1 = Inr (d2, script)"
    and "get_boot_status st now' m client' d2 = Inr (d3, script')"
  shows "script = status_script st mac (Some c) (polled_node now client n)
    \<and> (c = ''poweroff'' \<longrightarrow> script = poweroff_script (short_id_of mac))
    \<and> (c = ''reboot'' \<longrightarrow> script = reboot_script (short_id_of mac))
    \<and> (c = ''rescan'' \<longrightarrow> script = status_script st mac None (polled_node now client n))
    \<and> script' = status_script st mac None (polled_node now' client' (polled_node now client n))"
proof -
  have c: "c \<in> {''poweroff'', ''reboot'', ''rescan''}" and inv: "db_inv d1"
    using assms(2) boot_route_inv [OF assms(1), of st undefined "(0, SendCommand i c)" d1]
    by (auto simp: send_node_command_def command_pattern_def split: if_splits)
  have "n_pending_command n = Some c"
  proof -
    from assms(2) obtain n0 where n0: "sql_get n_id i (db_nodes d) = Some n0" "d1 = save_node (n0\<lparr>n_pending_command := Some c\<rparr>) d"
      by (auto simp: send_node_command_def split: if_splits option.splits)
    have "n \<in> set (db_nodes d1)" using sql_get_SomeD [OF assms(3)] by simp
    then have "n = n0\<lparr>n_pending_command := Some c\<rparr> \<or> n_id n \<noteq> n_id n0"
      by (auto simp: n0(2) save_node_def)
    with assms(4) sql_get_SomeD [OF n0(1)] show ?thesis by auto
  qed
  moreover have "sql_get n_mac_address mac (db_nodes (save_node (polled_node now client n) d1)) = Some (polled_node now client n)"
    using sql_get_save [OF _ assms(3)] inv polled_quiet [of n now client] by (simp add: quiet_def db_inv_def)
  moreover have "n_pending_command (polled_node now client n) = None" if "n_pending_command n = Some c"
    using that c by (auto simp: polled_node_def Let_def)
  ultimately show ?thesis
    using assms(3,5-7) by (auto simp: get_boot_status_def status_script_def Let_def)
qed

theorem command_taken_once_witness:
  "\<exists>d1 d2 d3 script'. send_node_command ''n1'' ''rescan'' installing_db = Inr d1
    \<and> get_boot_status demo_settings 5 (bq_mac demo_request) None d1 = Inr (d2, waiting_script ''00:11:22:33:44:55'' ''${net0/ip}'' ''http://10.0.0.1:8080'')
    \<and> get_boot_status demo_settings 6 (bq_mac demo_request) None d2 = Inr (d3, script')
    \<and> script' = waiting_script ''00:11:22:33:44:55'' ''${net0/ip}'' ''http://10.0.0.1:8080''"
proof -
  let ?n = "(new_node ''n1'' ''00:11:22:33:44:55'')\<lparr>n_state := ''installing'', n_state_changed_at := Some 0\<rparr>"
  let ?n1 = "?n\<lparr>n_pending_command := Some ''rescan''\<rparr>"
  let ?d1 = "save_node ?n1 installing_db"
  have s: "send_node_command ''n1'' ''rescan'' installing_db = Inr ?d1"
    by (simp add: send_node_command_def command_pattern_def installing_db_def sql_get_def new_node_def)
  have g: "sql_get n_mac_address ''00:11:22:33:44:55'' (db_nodes ?d1) = Some ?n1"
    by (simp add: save_node_def installing_db_def sql_get_def new_node_def)
  obtain d2 s2 where p: "get_boot_status demo_settings 5 (bq_mac demo_request) None ?d1 = Inr (d2, s2)"
    using demo_mac(1) g by (simp add: get_boot_status_def Let_def)
  obtain d3 s3 where p2: "get_boot_status demo_settings 6 (bq_mac demo_request) None d2 = Inr (d3, s3)"
    using demo_mac(1) by (cases "sql_get n_mac_address ''00:11:22:33:44:55'' (db_nodes d2)") (auto simp: get_boot_status_def Let_def)
  from command_taken_once [OF installing_db_facts(1) s g _ demo_mac(1) p p2] s p p2 show ?thesis
    by (simp add: new_node_def status_script_def polled_node_def or_else_def demo_settings_def)
qed

end
