(* ===== verification/PiManager.thy ===== *)
theory PiManager
  imports TftpPaths
begin

text \<open>
  The TFTP directories of Raspberry Pi boards, src/src/pxe/pi_manager.py: one directory per board
  with links to the firmware and generated configuration files, and the discovery directory for
  unknown boards. The file system is a map from paths to entries; links point to files, so
  following one step is enough. \<open>list_nodes\<close> is left out.
\<close>

section \<open>Files\<close>

datatype entry = Dir | File string | Link path

type_synonym files = "path \<rightharpoonup> entry"

datatype pi_error = PiValueError | PiFileNotFound | PiOSError

definition path_exists :: "files \<Rightarrow> path \<Rightarrow> bool" where
  "path_exists fs p = (case fs p of None \<Rightarrow> False | Some (Link t) \<Rightarrow> fs t \<noteq> None | Some _ \<Rightarrow> True)"

text \<open>\<open>mkdir(parents=True, exist_ok=True)\<close>, from the root downwards.\<close>

fun mkdirs :: "path \<Rightarrow> path \<Rightarrow> files \<Rightarrow> pi_error + files" where
  "mkdirs done [] fs = Inr fs"
| "mkdirs done (c # cs) fs =
     (case fs (done @ [c]) of
        None \<Rightarrow> mkdirs (done @ [c]) cs (fs(done @ [c] \<mapsto> Dir))
      | Some Dir \<Rightarrow> mkdirs (done @ [c]) cs fs
      | Some _ \<Rightarrow> Inl PiOSError)"

definition write_text :: "path \<Rightarrow> string \<Rightarrow> files \<Rightarrow> pi_error + files" where
  "write_text p txt fs =
     (case fs p of
        Some Dir \<Rightarrow> Inl PiOSError
      | Some (Link t) \<Rightarrow> Inr (fs(t \<mapsto> File txt))
      | _ \<Rightarrow> Inr (fs(p \<mapsto> File txt)))"

definition rmtree :: "path \<Rightarrow> files \<Rightarrow> files" where
  "rmtree d fs = (\<lambda>p. if take (length d) p = d then None else fs p)"

text \<open>\<open>if src.exists() and not dst.exists(): dst.symlink_to(src)\<close> for each file.\<close>

fun link_files :: "path \<Rightarrow> path \<Rightarrow> string list \<Rightarrow> files \<Rightarrow> pi_error + files" where
  "link_files srcdir dstdir [] fs = Inr fs"
| "link_files srcdir dstdir (f # names) fs =
     (let src = srcdir @ [f]; dst = dstdir @ [f] in
      if path_exists fs src \<and> \<not> path_exists fs dst
      then (if fs dst \<noteq> None then Inl PiOSError else link_files srcdir dstdir names (fs(dst \<mapsto> Link src)))
      else link_files srcdir dstdir names fs)"

section \<open>Models\<close>

record pi_model =
  pm_firmware_files :: "string list"
  pm_dtb :: string
  pm_arm_64bit :: bool
  pm_requires_otp :: bool

definition PI_MODELS :: "(string \<times> pi_model) list" where
  "PI_MODELS =
    [(''pi3'', \<lparr>pm_firmware_files = [''bootcode.bin'', ''start.elf'', ''fixup.dat''],
       pm_dtb = ''bcm2710-rpi-3-b.dtb'', pm_arm_64bit = True, pm_requires_otp = True\<rparr>),
     (''pi3b+'', \<lparr>pm_firmware_files = [''bootcode.bin'', ''start.elf'', ''fixup.dat''],
       pm_dtb = ''bcm2710-rpi-3-b-plus.dtb'', pm_arm_64bit = True, pm_requires_otp = False\<rparr>),
     (''cm3'', \<lparr>pm_firmware_files = [''bootcode.bin'', ''start.elf'', ''fixup.dat''],
       pm_dtb = ''bcm2710-rpi-cm3.dtb'', pm_arm_64bit = True, pm_requires_otp = True\<rparr>),
     (''pi4'', \<lparr>pm_firmware_files = [''start4.elf'', ''fixup4.dat''],
       pm_dtb = ''bcm2711-rpi-4-b.dtb'', pm_arm_64bit = True, pm_requires_otp = False\<rparr>),
     (''pi5'', \<lparr>pm_firmware_files = [''start4.elf'', ''fixup4.dat''],
       pm_dtb = ''bcm2712-rpi-5-b.dtb'', pm_arm_64bit = True, pm_requires_otp = False\<rparr>)]"

section \<open>Node directories\<close>

record pi_manager =
  pim_firmware_dir :: path
  pim_deploy_dir :: path
  pim_nodes_dir :: path

definition checked_serial :: "string \<Rightarrow> pi_error + string" where
  "checked_serial s0 =
     (let serial = strip (lower s0) in if \<not> validate_serial serial then Inl PiValueError else Inr serial)"

definition get_node_directory :: "pi_manager \<Rightarrow> string \<Rightarrow> pi_error + path" where
  "get_node_directory m serial = ebind (checked_serial serial) (\<lambda>s. Inr (pim_nodes_dir m @ [s]))"

definition node_exists :: "pi_manager \<Rightarrow> files \<Rightarrow> string \<Rightarrow> pi_error + bool" where
  "node_exists m fs serial = ebind (get_node_directory m serial) (\<lambda>d. Inr (path_exists fs d))"

definition generate_config_txt :: "string \<Rightarrow> string \<Rightarrow> pi_error + string" where
  "generate_config_txt s0 model =
     ebind (checked_serial s0) (\<lambda>serial.
     case map_of PI_MODELS model of
       None \<Rightarrow> Inl PiValueError
     | Some cfg \<Rightarrow> Inr (unlines (
         [''# PureBoot auto-generated config.txt'', ''# Pi Serial: '' @ serial, ''# Pi Model: '' @ model, [],
          ''# Boot configuration'']
         @ (if pm_arm_64bit cfg then [''arm_64bit=1''] else [])
         @ [[], ''# Kernel'', ''kernel=kernel8.img'', ''initramfs initramfs.img followkernel'']
         @ [[], ''# Device tree'', ''device_tree='' @ pm_dtb cfg]
         @ [[], ''# UART console (for debugging)'', ''enable_uart=1'', ''uart_2ndstage=1'']
         @ [[], ''# GPU memory (minimal for headless)'', ''gpu_mem=16'']
         @ [[], ''# Fast boot'', ''disable_splash=1'', ''boot_delay=0''])))"

definition generate_cmdline_txt :: "string \<Rightarrow> string option \<Rightarrow> pi_error + string" where
  "generate_cmdline_txt s0 controller_url =
     ebind (checked_serial s0) (\<lambda>serial.
     Inr (join_with '' '' (
       [''console=serial0,115200'', ''console=tty1'', ''ip=dhcp'', ''pureboot.serial='' @ serial]
       @ (if truthy controller_url then [''pureboot.url='' @ the controller_url] else [])
       @ [''root=/dev/ram0'', ''rootfstype=ramfs'']
       @ [''quiet'', ''loglevel=4'']) @ [CHR 0x0A]))"

definition create_node_directory ::
    "pi_manager \<Rightarrow> string \<Rightarrow> string \<Rightarrow> string option \<Rightarrow> files \<Rightarrow> pi_error + files \<times> path" where
  "create_node_directory m s0 model controller_url fs =
     ebind (checked_serial s0) (\<lambda>serial.
     case map_of PI_MODELS model of
       None \<Rightarrow> Inl PiValueError
     | Some cfg \<Rightarrow>
         (let node_dir = pim_nodes_dir m @ [serial] in
          ebind (mkdirs [] node_dir fs) (\<lambda>fs.
          ebind (link_files (pim_firmware_dir m) node_dir (pm_firmware_files cfg) fs) (\<lambda>fs.
          ebind (link_files (pim_firmware_dir m) node_dir [pm_dtb cfg] fs) (\<lambda>fs.
          ebind (link_files (pim_deploy_dir m) node_dir [''kernel8.img'', ''initramfs.img''] fs) (\<lambda>fs.
          ebind (generate_config_txt serial model) (\<lambda>config_txt.
          ebind (write_text (node_dir @ [''config.txt'']) config_txt fs) (\<lambda>fs.
          ebind (generate_cmdline_txt serial controller_url) (\<lambda>cmdline_txt.
          ebind (write_text (node_dir @ [''cmdline.txt'']) cmdline_txt fs) (\<lambda>fs.
          Inr (fs, node_dir)))))))))))"

definition delete_node_directory :: "pi_manager \<Rightarrow> string \<Rightarrow> files \<Rightarrow> files" where
  "delete_node_directory m s0 fs =
     (case checked_serial s0 of
        Inl e \<Rightarrow> fs
      | Inr serial \<Rightarrow>
          (let node_dir = pim_nodes_dir m @ [serial] in
           if path_exists fs node_dir then rmtree node_dir fs else fs))"

text \<open>The body shared by the three \<open>update_*\<close> methods: rewrite one file of an existing directory.\<close>

definition update_file :: "pi_manager \<Rightarrow> string \<Rightarrow> string \<Rightarrow> (string \<Rightarrow> pi_error + string) \<Rightarrow> files \<Rightarrow> pi_error + files" where
  "update_file m s0 name generate fs =
     ebind (checked_serial s0) (\<lambda>serial.
     let node_dir = pim_nodes_dir m @ [serial] in
     if \<not> path_exists fs node_dir then Inl PiFileNotFound
     else ebind (generate serial) (\<lambda>txt. write_text (node_dir @ [name]) txt fs))"

definition update_cmdline_txt :: "pi_manager \<Rightarrow> string \<Rightarrow> string option \<Rightarrow> files \<Rightarrow> pi_error + files" where
  "update_cmdline_txt m s0 controller_url fs =
     update_file m s0 ''cmdline.txt'' (\<lambda>serial. generate_cmdline_txt serial controller_url) fs"

definition update_config_txt :: "pi_manager \<Rightarrow> string \<Rightarrow> string \<Rightarrow> files \<Rightarrow> pi_error + files" where
  "update_config_txt m s0 model fs =
     update_file m s0 ''config.txt'' (\<lambda>serial. generate_config_txt serial model) fs"

section \<open>Command lines by state\<close>

record state_params =
  sp_controller_url :: "string option"
  sp_node_id :: "string option"
  sp_mac :: "string option"
  sp_image_url :: "string option"
  sp_target_device :: "string option"
  sp_callback_url :: "string option"
  sp_nfs_server :: "string option"
  sp_nfs_path :: "string option"

definition param :: "string \<Rightarrow> string option \<Rightarrow> string list" where
  "param key v = (if truthy v then [key @ the v] else [])"

definition generate_cmdline_for_state :: "string \<Rightarrow> string \<Rightarrow> state_params \<Rightarrow> pi_error + string" where
  "generate_cmdline_for_state s0 state sp =
     ebind (checked_serial s0) (\<lambda>serial.
     Inr (join_with '' '' (
       [''console=serial0,115200'', ''console=tty1'', ''ip=dhcp'', ''pureboot.serial='' @ serial, ''pureboot.state='' @ state]
       @ param ''pureboot.url='' (sp_controller_url sp)
       @ (if state = ''installing'' \<and> truthy (sp_image_url sp)
          then [''pureboot.mode=install'', ''pureboot.image_url='' @ the (sp_image_url sp)]
               @ param ''pureboot.target='' (sp_target_device sp)
               @ param ''pureboot.node_id='' (sp_node_id sp)
               @ param ''pureboot.mac='' (sp_mac sp)
               @ param ''pureboot.callback='' (sp_callback_url sp)
               @ [''root=/dev/ram0'', ''rootfstype=ramfs'']
          else if truthy (sp_nfs_server sp) \<and> truthy (sp_nfs_path sp)
          then [''root=/dev/nfs'', ''nfsroot='' @ the (sp_nfs_server sp) @ '':'' @ the (sp_nfs_path sp) @ '',vers=4,tcp'', ''rw'']
          else [''root=/dev/ram0'', ''rootfstype=ramfs''])
       @ [''quiet'', ''loglevel=4'']) @ [CHR 0x0A]))"

definition update_cmdline_for_state :: "pi_manager \<Rightarrow> string \<Rightarrow> string \<Rightarrow> state_params \<Rightarrow> files \<Rightarrow> pi_error + files" where
  "update_cmdline_for_state m s0 state sp fs =
     update_file m s0 ''cmdline.txt'' (\<lambda>serial. generate_cmdline_for_state serial state sp) fs"

section \<open>The discovery directory\<close>

record discovery_manager =
  dm_discovery_dir :: path
  dm_firmware_dir :: path
  dm_deploy_dir :: path
  dm_controller_url :: "string option"

definition generate_discovery_config :: string where
  "generate_discovery_config = unlines
     [''# PureBoot Discovery Mode config.txt'', ''# This configuration supports Pi 3, 4, and 5 models'', [],
      ''# Boot configuration'', ''arm_64bit=1'', [], ''# Kernel'', ''kernel=kernel8.img'',
      ''initramfs initramfs.img followkernel'', [], ''# UART console (for debugging)'', ''enable_uart=1'',
      ''uart_2ndstage=1'', [], ''# GPU memory (minimal for headless)'', ''gpu_mem=16'', [], ''# Fast boot'',
      ''disable_splash=1'', ''boot_delay=0'']"

definition generate_discovery_cmdline :: "discovery_manager \<Rightarrow> string" where
  "generate_discovery_cmdline m =
     join_with '' '' (
       [''console=serial0,115200'', ''console=tty1'', ''ip=dhcp'', ''pureboot.mode=discovery'', ''pureboot.state=discovered'']
       @ param ''pureboot.url='' (dm_controller_url m)
       @ [''root=/dev/ram0'', ''rootfstype=ramfs'']
       @ [''quiet'', ''loglevel=4'']) @ [CHR 0x0A]"

text \<open>The device trees are those the listing \<open>firmware_dir.glob("*.dtb")\<close> gives (a parameter).\<close>

fun link_dtbs :: "path \<Rightarrow> path \<Rightarrow> string list \<Rightarrow> files \<Rightarrow> pi_error + files" where
  "link_dtbs srcdir dstdir [] fs = Inr fs"
| "link_dtbs srcdir dstdir (f # names) fs =
     (let dst = dstdir @ [f] in
      if \<not> path_exists fs dst
      then (if fs dst \<noteq> None then Inl PiOSError else link_dtbs srcdir dstdir names (fs(dst \<mapsto> Link (srcdir @ [f]))))
      else link_dtbs srcdir dstdir names fs)"

definition ensure_discovery_directory :: "discovery_manager \<Rightarrow> string list \<Rightarrow> files \<Rightarrow> pi_error + files" where
  "ensure_discovery_directory m dtbs fs =
     (let dir = dm_discovery_dir m in
      if path_exists fs dir then Inr fs
      else
        ebind (mkdirs [] dir fs) (\<lambda>fs.
        ebind (link_files (dm_firmware_dir m) dir [''bootcode.bin'', ''start.elf'', ''fixup.dat''] fs) (\<lambda>fs.
        ebind (link_files (dm_firmware_dir m) dir [''start4.elf'', ''fixup4.dat''] fs) (\<lambda>fs.
        ebind (link_dtbs (dm_firmware_dir m) dir dtbs fs) (\<lambda>fs.
        ebind (link_files (dm_deploy_dir m) dir [''kernel8.img'', ''initramfs.img''] fs) (\<lambda>fs.
        ebind (write_text (dir @ [''config.txt'']) generate_discovery_config fs) (\<lambda>fs.
        write_text (dir @ [''cmdline.txt'']) (generate_discovery_cmdline m) fs)))))))"

definition update_controller_url :: "discovery_manager \<Rightarrow> string \<Rightarrow> files \<Rightarrow> discovery_manager \<times> (pi_error + files)" where
  "update_controller_url m url fs =
     (let m' = m\<lparr>dm_controller_url := Some url\<rparr> in
      (m', if path_exists fs (dm_discovery_dir m')
           then write_text (dm_discovery_dir m' @ [''cmdline.txt'']) (generate_discovery_cmdline m') fs
           else Inr fs))"


section \<open>What a node directory holds\<close>

lemma mkdirs_below:
  assumes "\<forall>i. 0 < i \<and> i \<le> length cs \<longrightarrow> fs (done @ take i cs) = Some Dir"
  shows "mkdirs done (cs @ [c]) fs = mkdirs (done @ cs) [c] fs"
  using assms
proof (induction cs arbitrary: "done")
  case (Cons x cs)
  have "fs (done @ [x]) = Some Dir" using Cons.prems [rule_format, of 1] by simp
  moreover have "\<forall>i. 0 < i \<and> i \<le> length cs \<longrightarrow> fs ((done @ [x]) @ take i cs) = Some Dir"
    using Cons.prems by (metis Suc_le_mono append.assoc append_Cons append_Nil length_Cons take_Suc_Cons zero_less_Suc)
  ultimately show ?case using Cons.IH [of "done @ [x]"] by simp
qed simp

definition linked :: "path \<Rightarrow> path \<Rightarrow> string list \<Rightarrow> files \<Rightarrow> files" where
  "linked srcdir dstdir names fs =
     (\<lambda>p. if \<exists>f \<in> set names. p = dstdir @ [f] then Some (Link (srcdir @ [last p])) else fs p)"

lemma linked_simps:
  "linked srcdir dstdir [] fs = fs"
  "linked srcdir dstdir (f # names) fs = (linked srcdir dstdir names fs)(dstdir @ [f] \<mapsto> Link (srcdir @ [f]))"
  by (auto simp: linked_def)

lemma linked_other: "f \<notin> set names \<Longrightarrow> linked srcdir dstdir names fs (dstdir @ [f]) = fs (dstdir @ [f])"
  by (simp add: linked_def)

lemma path_exists_upd: "path_exists fs p \<Longrightarrow> p \<noteq> q \<Longrightarrow> path_exists (fs(q \<mapsto> e)) p"
  by (auto simp: path_exists_def split: option.splits entry.splits)

lemma link_files_fresh:
  assumes "distinct names" and "srcdir \<noteq> dstdir" and "\<forall>f \<in> set names. path_exists fs (srcdir @ [f]) \<and> fs (dstdir @ [f]) = None"
  shows "link_files srcdir dstdir names fs = Inr (linked srcdir dstdir names fs)"
  using assms(1,3)
proof (induction names arbitrary: fs)
  case (Cons f names)
  let ?fs = "fs(dstdir @ [f] \<mapsto> Link (srcdir @ [f]))"
  have "link_files srcdir dstdir names ?fs = Inr (linked srcdir dstdir names ?fs)"
  proof (rule Cons.IH)
    show "\<forall>g \<in> set names. path_exists ?fs (srcdir @ [g]) \<and> ?fs (dstdir @ [g]) = None"
      using Cons.prems assms(2) by (auto intro: path_exists_upd)
  qed (use Cons.prems(1) in simp)
  moreover have "path_exists fs (srcdir @ [f])" "fs (dstdir @ [f]) = None" "\<not> path_exists fs (dstdir @ [f])"
    using Cons.prems(2) by (simp_all add: path_exists_def)
  ultimately have "link_files srcdir dstdir (f # names) fs = Inr (linked srcdir dstdir names ?fs)"
    by (simp only: link_files.simps Let_def not_False_eq_True simp_thms if_True if_False)
  also have "linked srcdir dstdir names ?fs = linked srcdir dstdir (f # names) fs"
    using Cons.prems(1) by (auto simp: linked_def fun_eq_iff)
  finally show ?case .
qed (simp add: linked_simps)

lemma link_files_again:
  assumes "\<forall>f \<in> set names. fs (dstdir @ [f]) = Some (Link (srcdir @ [f])) \<and> fs (srcdir @ [f]) \<noteq> None"
  shows "link_files srcdir dstdir names fs = Inr fs"
  using assms by (induction names) (auto simp: path_exists_def Let_def)

definition dir_files :: "pi_manager \<Rightarrow> path \<Rightarrow> pi_model \<Rightarrow> string \<Rightarrow> string \<Rightarrow> files \<Rightarrow> files" where
  "dir_files m node_dir cfg config_txt cmdline_txt fs =
     (linked (pim_deploy_dir m) node_dir [''kernel8.img'', ''initramfs.img'']
       (linked (pim_firmware_dir m) node_dir [pm_dtb cfg]
         (linked (pim_firmware_dir m) node_dir (pm_firmware_files cfg) (fs(node_dir \<mapsto> Dir)))))
     (node_dir @ [''config.txt''] \<mapsto> File config_txt, node_dir @ [''cmdline.txt''] \<mapsto> File cmdline_txt)"

text \<open>A place for a node directory: the parent exists, nothing lies at or below, the sources exist.\<close>

definition ready :: "pi_manager \<Rightarrow> path \<Rightarrow> pi_model \<Rightarrow> files \<Rightarrow> bool" where
  "ready m node_dir cfg fs \<longleftrightarrow>
     (\<forall>i. 0 < i \<and> i < length node_dir \<longrightarrow> fs (take i node_dir) = Some Dir)
   \<and> (\<forall>p. take (length node_dir) p = node_dir \<longrightarrow> fs p = None)
   \<and> pim_firmware_dir m \<noteq> node_dir \<and> pim_deploy_dir m \<noteq> node_dir
   \<and> (\<forall>f \<in> set (pm_dtb cfg # pm_firmware_files cfg). path_exists fs (pim_firmware_dir m @ [f]))
   \<and> (\<forall>f \<in> {''kernel8.img'', ''initramfs.img''}. path_exists fs (pim_deploy_dir m @ [f]))"

lemma models_ok:
  assumes "map_of PI_MODELS model = Some cfg"
  shows "distinct (pm_firmware_files cfg)" "pm_dtb cfg \<notin> set (pm_firmware_files cfg)"
    "set (pm_dtb cfg # pm_firmware_files cfg) \<inter> {''kernel8.img'', ''initramfs.img'', ''config.txt'', ''cmdline.txt''} = {}"
  using assms by (auto simp: PI_MODELS_def split: if_splits)

lemma path_exists_linked:
  assumes "path_exists fs p" and "\<forall>f. p \<noteq> dstdir @ [f]"
  shows "path_exists (linked srcdir dstdir names fs) p"
  using assms by (auto simp: path_exists_def linked_def split: option.splits entry.splits)

lemma strip_fixed: "s = [] \<or> \<not> is_space (hd s) \<and> \<not> is_space (last s) \<Longrightarrow> strip s = s"
proof -
  assume "s = [] \<or> \<not> is_space (hd s) \<and> \<not> is_space (last s)"
  then have "dropWhile is_space s = s" "dropWhile is_space (rev s) = rev s"
    by (auto simp: dropWhile_eq_self_iff hd_rev)
  then show ?thesis by (simp add: strip_def)
qed

lemma strip_ends: "strip s = [] \<or> \<not> is_space (hd (strip s)) \<and> \<not> is_space (last (strip s))"
proof (cases "strip s = []")
  case False
  let ?t = "dropWhile is_space s"
  let ?r = "dropWhile is_space (rev ?t)"
  have r: "?r \<noteq> []" using False by (simp add: strip_def)
  then have "\<not> is_space (last (strip s))" using hd_dropWhile [OF r] by (simp add: strip_def last_rev)
  moreover have "?t = strip s @ rev (takeWhile is_space (rev ?t))"
    unfolding strip_def by (metis rev_append rev_rev_ident takeWhile_dropWhile_id)
  then obtain z where t: "?t = strip s @ z" ..
  have "hd ?t = hd (strip s)" "?t \<noteq> []" using False by (simp_all add: t hd_append)
  then have "\<not> is_space (hd (strip s))" using hd_dropWhile [of is_space s] by simp
  ultimately show ?thesis by simp
qed simp

lemma strip_subset: "set (strip s) \<subseteq> set s"
  by (auto simp: strip_def dest!: set_dropWhileD)

lemma checked_serial_idem: "checked_serial s0 = Inr s \<Longrightarrow> checked_serial s = Inr s"
proof -
  assume "checked_serial s0 = Inr s"
  then have s: "s = strip (lower s0)" "validate_serial s" by (auto simp: checked_serial_def Let_def split: if_splits)
  have "lower_char c = c" if "c \<in> set s" for c
    using that strip_subset [of "lower s0"] unfolding s(1) by (auto simp: lower_def)
  then have "lower s = s" by (simp add: lower_def map_idI)
  moreover have "strip s = s" using strip_fixed strip_ends [of "lower s0"] s(1) by blast
  ultimately show ?thesis using s(2) by (simp add: checked_serial_def)
qed

lemma create_ready:
  assumes s: "checked_serial s0 = Inr serial" and cfg: "map_of PI_MODELS model = Some cfg"
    and d: "d = pim_nodes_dir m @ [serial]" and r: "ready m d cfg fs"
    and gen: "generate_config_txt serial model = Inr config_txt" "generate_cmdline_txt serial url = Inr cmdline_txt"
  shows "create_node_directory m s0 model url fs
    = Inr (dir_files m d cfg config_txt cmdline_txt fs, d)"
proof -
  let ?fw = "pm_firmware_files cfg"
  let ?fs1 = "fs(d \<mapsto> Dir)"
  let ?fs2 = "linked (pim_firmware_dir m) d ?fw ?fs1"
  let ?fs3 = "linked (pim_firmware_dir m) d [pm_dtb cfg] ?fs2"
  let ?fs4 = "linked (pim_deploy_dir m) d [''kernel8.img'', ''initramfs.img''] ?fs3"
  note mo = models_ok [OF cfg]
  have none: "fs (d @ [f]) = None" "fs d = None" for f using r by (simp_all add: ready_def)
  have src: "pim_firmware_dir m \<noteq> d" "pim_deploy_dir m \<noteq> d" using r by (simp_all add: ready_def)
  have ex: "path_exists fs (pim_firmware_dir m @ [f])" if "f \<in> set (pm_dtb cfg # ?fw)" for f
    using r that unfolding ready_def by blast
  have exd: "path_exists fs (pim_deploy_dir m @ [f])" if "f \<in> {''kernel8.img'', ''initramfs.img''}" for f
    using r that unfolding ready_def by blast
  have keep: "path_exists ?fs1 p" if "path_exists fs p" for p
    using that none(2) by (intro path_exists_upd) (auto simp: path_exists_def)
  have mk: "mkdirs [] d fs = Inr ?fs1"
    using mkdirs_below [of "pim_nodes_dir m" fs "[]" serial] r none(2) by (simp add: ready_def d)
  have l2: "link_files (pim_firmware_dir m) d ?fw ?fs1 = Inr ?fs2"
    using ex keep none src by (intro link_files_fresh [OF mo(1)]) auto
  have out: "path_exists (linked a d ns g) (b @ [f])" if "path_exists g (b @ [f])" "b \<noteq> d" for a b ns f g
    using that by (intro path_exists_linked) auto
  have l3: "link_files (pim_firmware_dir m) d [pm_dtb cfg] ?fs2 = Inr ?fs3"
    using out [OF keep [OF ex] src(1)] none src mo(2) by (intro link_files_fresh) (auto simp: linked_other)
  have n4: "?fs3 (d @ [f]) = None" if "f \<in> {''kernel8.img'', ''initramfs.img''}" for f
  proof -
    have f: "f \<notin> set [pm_dtb cfg]" "f \<notin> set ?fw" using mo(3) that by auto
    show ?thesis using none by (simp add: linked_other [OF f(1)] linked_other [OF f(2)])
  qed
  have l4: "link_files (pim_deploy_dir m) d [''kernel8.img'', ''initramfs.img''] ?fs3 = Inr ?fs4"
    using out [OF out [OF keep [OF exd] src(2)] src(2)] src n4 by (intro link_files_fresh) auto
  have "?fs4 (d @ [''config.txt'']) = None" "?fs4 (d @ [''cmdline.txt'']) = None"
    using mo(3) none by (simp_all add: linked_other)
  then have w1: "write_text (d @ [''config.txt'']) config_txt ?fs4 = Inr (?fs4(d @ [''config.txt''] \<mapsto> File config_txt))"
    and w2: "write_text (d @ [''cmdline.txt'']) cmdline_txt (?fs4(d @ [''config.txt''] \<mapsto> File config_txt))
      = Inr (dir_files m d cfg config_txt cmdline_txt fs)"
    by (simp_all add: write_text_def dir_files_def)
  show ?thesis
    by (simp only: create_node_directory_def s cfg option.case ebind_simps Let_def d [symmetric] mk l2 l3 l4 gen w1 w2)
qed

lemma generated_texts:
  assumes "checked_serial serial = Inr serial" and "map_of PI_MODELS model = Some cfg"
  shows "\<exists>t. generate_config_txt serial model = Inr t" and "\<exists>t. generate_cmdline_txt serial url = Inr t"
  using assms by (simp_all add: generate_config_txt_def generate_cmdline_txt_def)

lemma dir_files_outside:
  assumes "take (length d) p \<noteq> d"
  shows "dir_files m d cfg a b fs p = fs p"
proof -
  have "p \<noteq> d @ x" for x using assms by auto
  then have "p \<noteq> d" "\<And>f. p \<noteq> d @ [f]" by (metis append_Nil2, blast)
  then show ?thesis by (simp add: dir_files_def linked_def)
qed

lemma dir_files_inside:
  assumes "map_of PI_MODELS model = Some cfg"
  shows "f \<in> set (pm_dtb cfg # pm_firmware_files cfg) \<Longrightarrow> dir_files m d cfg a b fs (d @ [f]) = Some (Link (pim_firmware_dir m @ [f]))"
    and "f \<in> {''kernel8.img'', ''initramfs.img''} \<Longrightarrow> dir_files m d cfg a b fs (d @ [f]) = Some (Link (pim_deploy_dir m @ [f]))"
    and "dir_files m d cfg a b fs (d @ [''config.txt'']) = Some (File a)"
    and "dir_files m d cfg a b fs (d @ [''cmdline.txt'']) = Some (File b)"
    and "dir_files m d cfg a b fs d = Some Dir"
proof -
  have c: "set (pm_dtb cfg # pm_firmware_files cfg) \<inter> {''kernel8.img'', ''initramfs.img'', ''config.txt'', ''cmdline.txt''} = {}"
    by (rule models_ok(3) [OF assms])
  show "dir_files m d cfg a b fs (d @ [f]) = Some (Link (pim_firmware_dir m @ [f]))"
    if "f \<in> set (pm_dtb cfg # pm_firmware_files cfg)"
  proof -
    have "f \<notin> set [''kernel8.img'', ''initramfs.img'']" "f \<noteq> ''config.txt''" "f \<noteq> ''cmdline.txt''" using c that by auto
    then show ?thesis using that by (auto simp: dir_files_def linked_def)
  qed
qed (auto simp: dir_files_def linked_def)

text \<open>
  Creating the directory of a board gives it exactly what it needs to boot: links to the
  firmware and device tree of its model, to the deploy kernel and initial RAM disk, and its own
  configuration and command line; nothing outside the directory changes. Creating it a second
  time changes nothing, and deleting it restores the file system.
\<close>

theorem node_directory_correct:
  assumes "checked_serial s0 = Inr serial" and "map_of PI_MODELS model = Some cfg"
    and "ready m (pim_nodes_dir m @ [serial]) cfg fs"
  shows "\<exists>fs'. let d = pim_nodes_dir m @ [serial] in
      create_node_directory m s0 model url fs = Inr (fs', d)
    \<and> (\<forall>f \<in> set (pm_dtb cfg # pm_firmware_files cfg). fs' (d @ [f]) = Some (Link (pim_firmware_dir m @ [f])))
    \<and> (\<forall>f \<in> {''kernel8.img'', ''initramfs.img''}. fs' (d @ [f]) = Some (Link (pim_deploy_dir m @ [f])))
    \<and> map_option Inr (case fs' (d @ [''config.txt'']) of Some (File t) \<Rightarrow> Some t | _ \<Rightarrow> None) = Some (generate_config_txt serial model)
    \<and> map_option Inr (case fs' (d @ [''cmdline.txt'']) of Some (File t) \<Rightarrow> Some t | _ \<Rightarrow> None) = Some (generate_cmdline_txt serial url)
    \<and> (\<forall>p. take (length d) p \<noteq> d \<longrightarrow> fs' p = fs p)
    \<and> create_node_directory m s0 model url fs' = Inr (fs', d)
    \<and> delete_node_directory m s0 fs' = fs"
proof -
  define d where "d = pim_nodes_dir m @ [serial]"
  obtain a b where ab: "generate_config_txt serial model = Inr a" "generate_cmdline_txt serial url = Inr b"
    using generated_texts [OF checked_serial_idem [OF assms(1)] assms(2)] by blast
  define fs' where "fs' = dir_files m d cfg a b fs"
  note r = assms(3) [folded d_def]
  have c: "create_node_directory m s0 model url fs = Inr (fs', d)"
    unfolding fs'_def by (rule create_ready [OF assms(1,2) d_def r ab])
  note ins = dir_files_inside [OF assms(2), where m = m and d = d and a = a and b = b and fs = fs, folded fs'_def]
  have out: "fs' p = fs p" if "take (length d) p \<noteq> d" for p
    using that unfolding fs'_def by (rule dir_files_outside)
  have del: "delete_node_directory m s0 fs' = fs"
  proof -
    have "path_exists fs' d" using ins(5) by (simp add: path_exists_def)
    moreover have "rmtree d fs' = fs"
    proof
      fix p
      show "rmtree d fs' p = fs p"
        using out [of p] r by (cases "take (length d) p = d") (simp_all add: rmtree_def ready_def)
    qed
    ultimately show ?thesis using assms(1) by (simp add: delete_node_directory_def Let_def d_def)
  qed
  have again: "create_node_directory m s0 model url fs' = Inr (fs', d)"
  proof -
    have src: "fs' (q @ [f]) \<noteq> None" if "path_exists fs (q @ [f])" for q f
    proof -
      have "take (length d) (q @ [f]) \<noteq> d" using that r unfolding ready_def path_exists_def by (auto split: option.splits)
      then show ?thesis using out that by (auto simp: path_exists_def split: option.splits)
    qed
    have "mkdirs [] d fs' = Inr fs'"
    proof -
      have "fs' (take i (pim_nodes_dir m)) = Some Dir" if "0 < i" "i \<le> length (pim_nodes_dir m)" for i
      proof -
        have "take (length d) (take i (pim_nodes_dir m)) \<noteq> d"
        proof -
          have "length (take (length d) (take i (pim_nodes_dir m))) < length d" by (simp add: d_def)
          then show ?thesis by (metis less_irrefl)
        qed
        with out [of "take i (pim_nodes_dir m)"] r that show ?thesis by (simp add: ready_def d_def)
      qed
      with mkdirs_below [of "pim_nodes_dir m" fs' "[]" serial] ins(5) show ?thesis by (simp add: d_def)
    qed
    moreover have "link_files (pim_firmware_dir m) d ns fs' = Inr fs'" if "set ns \<subseteq> set (pm_dtb cfg # pm_firmware_files cfg)" for ns
      using ins(1) src r that unfolding ready_def by (intro link_files_again) blast
    then have "link_files (pim_firmware_dir m) d (pm_firmware_files cfg) fs' = Inr fs'"
      "link_files (pim_firmware_dir m) d [pm_dtb cfg] fs' = Inr fs'" by (auto simp del: link_files.simps)
    moreover have "link_files (pim_deploy_dir m) d [''kernel8.img'', ''initramfs.img''] fs' = Inr fs'"
      using ins(2) src r unfolding ready_def by (intro link_files_again) auto
    moreover have "write_text (d @ [''config.txt'']) a fs' = Inr fs'" "write_text (d @ [''cmdline.txt'']) b fs' = Inr fs'"
      using ins(3,4) by (simp_all add: write_text_def fun_upd_idem)
    ultimately show ?thesis
      using assms(1,2) ab
      by (simp only: create_node_directory_def option.case ebind_simps Let_def d_def [symmetric])
  qed
  show ?thesis
    using c ins out del again ab unfolding d_def [symmetric] Let_def by (intro exI [of _ fs']) simp
qed


definition demo_manager :: pi_manager where
  "demo_manager = \<lparr>pim_firmware_dir = [''tftp'', ''fw''], pim_deploy_dir = [''tftp'', ''dep''],
     pim_nodes_dir = [''tftp'', ''pi-nodes'']\<rparr>"

definition demo_fs :: files where
  "demo_fs = (\<lambda>p. if p \<in> {[''tftp''], [''tftp'', ''pi-nodes'']} then Some Dir
     else if \<exists>f \<in> {''start4.elf'', ''fixup4.dat'', ''bcm2711-rpi-4-b.dtb''}. p = [''tftp'', ''fw'', f] then Some (File ''x'')
     else if \<exists>f \<in> {''kernel8.img'', ''initramfs.img''}. p = [''tftp'', ''dep'', f] then Some (File ''x'') else None)"

lemma demo_ready:
  "checked_serial '' 0A1B2C3D'' = Inr ''0a1b2c3d''" "map_of PI_MODELS ''pi4'' = Some
     \<lparr>pm_firmware_files = [''start4.elf'', ''fixup4.dat''], pm_dtb = ''bcm2711-rpi-4-b.dtb'', pm_arm_64bit = True, pm_requires_otp = False\<rparr>"
  "ready demo_manager (pim_nodes_dir demo_manager @ [''0a1b2c3d'']) \<lparr>pm_firmware_files = [''start4.elf'', ''fixup4.dat''],
     pm_dtb = ''bcm2711-rpi-4-b.dtb'', pm_arm_64bit = True, pm_requires_otp = False\<rparr> demo_fs"
proof -
  show "checked_serial '' 0A1B2C3D'' = Inr ''0a1b2c3d''" by code_simp
  show "map_of PI_MODELS ''pi4'' = Some \<lparr>pm_firmware_files = [''start4.elf'', ''fixup4.dat''],
     pm_dtb = ''bcm2711-rpi-4-b.dtb'', pm_arm_64bit = True, pm_requires_otp = False\<rparr>" by (simp add: PI_MODELS_def)
  have "demo_fs (take i [''tftp'', ''pi-nodes'', ''0a1b2c3d'']) = Some Dir" if "0 < i" "i < 3" for i
  proof -
    from that have "i = 1 \<or> i = 2" by auto
    then show ?thesis by (auto simp: demo_fs_def numeral_2_eq_2)
  qed
  moreover have "demo_fs p = None" if "take 3 p = [''tftp'', ''pi-nodes'', ''0a1b2c3d'']" for p
  proof -
    have "p = [''tftp'', ''pi-nodes'', ''0a1b2c3d''] @ drop 3 p"
      using append_take_drop_id [of 3 p] unfolding that by (rule sym)
    then obtain r where p: "p = [''tftp'', ''pi-nodes'', ''0a1b2c3d''] @ r" ..
    show ?thesis unfolding p by (simp add: demo_fs_def)
  qed
  ultimately show "ready demo_manager (pim_nodes_dir demo_manager @ [''0a1b2c3d'']) \<lparr>pm_firmware_files = [''start4.elf'', ''fixup4.dat''],
     pm_dtb = ''bcm2711-rpi-4-b.dtb'', pm_arm_64bit = True, pm_requires_otp = False\<rparr> demo_fs"
    by (simp add: ready_def demo_manager_def path_exists_def) (simp add: demo_fs_def)
qed

theorem node_directory_correct_witness:
  "\<exists>fs'. create_node_directory demo_manager '' 0A1B2C3D'' ''pi4'' None demo_fs = Inr (fs', [''tftp'', ''pi-nodes'', ''0a1b2c3d''])
    \<and> fs' [''tftp'', ''pi-nodes'', ''0a1b2c3d'', ''start4.elf''] = Some (Link [''tftp'', ''fw'', ''start4.elf''])
    \<and> delete_node_directory demo_manager '' 0A1B2C3D'' fs' = demo_fs"
  using node_directory_correct [OF demo_ready, of None] by (auto simp: demo_manager_def Let_def)

section \<open>A registered board asks for its files\<close>

lemma serial_facts:
  assumes "checked_serial s0 = Inr serial"
  shows "validate_serial serial" "lower serial = serial" "component serial"
proof -
  note i = checked_serial_idem [OF assms]
  show v: "validate_serial serial" using assms by (auto simp: checked_serial_def Let_def split: if_splits)
  show l: "lower serial = serial"
  proof -
    have "lower_char c = c" if "c \<in> set serial" for c
      using that strip_subset [of "lower s0"] assms by (auto simp: checked_serial_def Let_def lower_def split: if_splits)
    then show ?thesis by (simp add: lower_def map_idI)
  qed
  have s: "length (strip_newline serial) = 8" "\<forall>c \<in> set (strip_newline serial). hex_lower c"
    using v l by (simp_all add: validate_serial_def Let_def list_all_iff)
  have "c \<in> set (strip_newline serial) \<or> c = CHR 0x0A" if "c \<in> set serial" for c
    using that by (cases serial rule: rev_cases) (auto simp: strip_newline_def)
  then have "CHR ''/'' \<notin> set serial" "length serial \<ge> 8"
    using s by (auto simp: hex_lower_def strip_newline_def split: if_splits)
  then show "component serial" by (auto simp: component_def)
qed

lemma board_request:
  assumes "checked_serial s0 = Inr serial" and "is_pi_boot_file f" and "component f"
  shows "is_pi_serial_request (''/'' @ serial @ ''/'' @ f) = (True, serial, f)"
    and "lstrip_slash (''/'' @ serial @ ''/'' @ f) = serial @ ''/'' @ f"
    and "resolve root (serial @ ''/'' @ f) = root @ [serial, f]"
proof -
  note s = serial_facts [OF assms(1)]
  obtain c cs where c: "serial = c # cs" "c \<noteq> CHR ''/''" using s(3) by (cases serial) (auto simp: component_def)
  show l: "lstrip_slash (''/'' @ serial @ ''/'' @ f) = serial @ ''/'' @ f" using c by (simp add: lstrip_slash_def)
  have sp: "split_on (CHR ''/'') (serial @ ''/'' @ f) = [serial, f]"
    using s(3) assms(3) split_on_append [of "CHR ''/''" serial f] by (simp add: component_def split_on_single)
  show "is_pi_serial_request (''/'' @ serial @ ''/'' @ f) = (True, serial, f)"
    unfolding is_pi_serial_request_def l sp using s assms(2) by simp
  show "resolve root (serial @ ''/'' @ f) = root @ [serial, f]"
    unfolding resolve_def sp using s(3) assms(3) by (auto simp: component_def)
qed

text \<open>
  A registered board cannot fetch its own files. When the directory of the boards lies inside
  the TFTP root (as configured by default), a board whose directory was created by the manager and
  that asks for one of its files by serial number is sent to a path directly under the root, where
  that file does not exist: the manager has put it in the directory of the boards.
\<close>

theorem registered_board_not_served:
  assumes "checked_serial s0 = Inr serial" and "map_of PI_MODELS model = Some cfg"
    and "ready m (pim_nodes_dir m @ [serial]) cfg fs" and "create_node_directory m s0 model url fs = Inr (fs', d)"
    and "th_pi_discovery_enabled h" and "th_pi_discovery_dir h \<noteq> None" and "th_pi_nodes_dir h = Some (pim_nodes_dir m)"
    and "th_root h \<noteq> []" and "pim_nodes_dir m = th_root h @ c # rest"
    and "is_pi_boot_file f" and "component f" and "fs (th_root h @ [serial, f]) = None" and "c \<noteq> serial"
  shows "resolve_path h (path_exists fs') (''/'' @ serial @ ''/'' @ f) = Inr (th_root h @ [serial, f])
    \<and> \<not> path_exists fs' (th_root h @ [serial, f]) \<and> th_root h @ [serial, f] \<noteq> d @ [f]"
proof -
  obtain a b where "generate_config_txt serial model = Inr a" "generate_cmdline_txt serial url = Inr b"
    using generated_texts [OF checked_serial_idem [OF assms(1)] assms(2)] by blast
  from create_ready [OF assms(1,2) refl assms(3) this] assms(4)
  have d: "d = pim_nodes_dir m @ [serial]" and fs': "fs' = dir_files m d cfg a b fs" by simp_all
  have out: "take (length d) p \<noteq> d \<Longrightarrow> fs' p = fs p" for p unfolding fs' by (rule dir_files_outside)
  have "fs' d = Some Dir" unfolding fs' by (rule dir_files_inside(5) [OF assms(2)])
  then have e: "path_exists fs' (pim_nodes_dir m @ [serial])" by (simp add: path_exists_def d)
  note q = board_request [OF assms(1,10,11)]
  have "startswith (path_str (th_root h @ [serial, f])) (path_str (th_root h))"
    using assms(8) by (simp add: startswith_iff path_str_def)
  then have r: "resolve_path h (path_exists fs') (''/'' @ serial @ ''/'' @ f) = Inr (th_root h @ [serial, f])"
    unfolding resolve_path_def q Let_def using assms(5-7) e q(3) by (auto simp: resolve_within_def Let_def split: option.splits)
  have "take (length d) (th_root h @ [serial, f]) \<noteq> d" using assms(9,13) by (auto simp: d)
  then have "fs' (th_root h @ [serial, f]) = None" using out assms(12) by simp
  with r show ?thesis using assms(9,13) by (auto simp: path_exists_def d)
qed

theorem registered_board_not_served_witness:
  "\<exists>fs' d. create_node_directory demo_manager '' 0A1B2C3D'' ''pi4'' None demo_fs = Inr (fs', d)
    \<and> resolve_path \<lparr>th_root = [''tftp''], th_pi_discovery_enabled = True, th_pi_discovery_dir = Some [''tftp'', ''disc''],
          th_pi_nodes_dir = Some [''tftp'', ''pi-nodes'']\<rparr> (path_exists fs') ''/0a1b2c3d/start4.elf''
        = Inr [''tftp'', ''0a1b2c3d'', ''start4.elf'']
    \<and> \<not> path_exists fs' [''tftp'', ''0a1b2c3d'', ''start4.elf'']"
proof -
  let ?h = "\<lparr>th_root = [''tftp''], th_pi_discovery_enabled = True, th_pi_discovery_dir = Some [''tftp'', ''disc''],
          th_pi_nodes_dir = Some [''tftp'', ''pi-nodes'']\<rparr>"
  obtain fs' d where c: "create_node_directory demo_manager '' 0A1B2C3D'' ''pi4'' None demo_fs = Inr (fs', d)"
    using create_ready [OF demo_ready(1,2) refl demo_ready(3)] generated_texts [OF checked_serial_idem [OF demo_ready(1)] demo_ready(2)]
    by blast
  have l: "lower ''start4.elf'' = ''start4.elf''" by code_simp
  have f: "is_pi_boot_file ''start4.elf''" "component ''start4.elf''"
    by (simp_all add: is_pi_boot_file_def l PI_BOOT_FILES_def component_def)
  have "demo_fs (th_root ?h @ [''0a1b2c3d'', ''start4.elf'']) = None" by (simp add: demo_fs_def)
  from registered_board_not_served [OF demo_ready c, of ?h "''pi-nodes''" "[]", OF _ _ _ _ _ f this] c show ?thesis
    by (auto simp: demo_manager_def)
qed

end
