(* ===== verification/BootPi.thy ===== *)
theory BootPi
  imports Boot PiManager
begin

text \<open>
  The Raspberry Pi endpoints of src/src/api/routes/boot_pi.py: boot instructions and registration,
  over the node tables and the TFTP directories of \<open>PiManager\<close>. The database part of a request is
  rolled back on an error, changes of the directories are not, so a handler returns the files
  and, separately, the database with the response or the error. A call of the directory manager
  that fails is logged and ignored; what such a call leaves behind is not modelled.
\<close>

section \<open>Requests and responses\<close>

record pi_response =
  pr_state :: string
  pr_message :: "string option"
  pr_action :: "string option"
  pr_image_url :: "string option"
  pr_target_device :: "string option"
  pr_callback_url :: "string option"
  pr_nfs_server :: "string option"
  pr_nfs_path :: "string option"

definition pi_reply :: "string \<Rightarrow> string \<Rightarrow> string option \<Rightarrow> pi_response" where
  "pi_reply state message action =
     \<lparr>pr_state = state, pr_message = Some message, pr_action = action, pr_image_url = None,
      pr_target_device = None, pr_callback_url = None, pr_nfs_server = None, pr_nfs_path = None\<rparr>"

record pi_settings =
  pis_boot :: boot_settings
  pis_manager :: pi_manager
  pis_nfs_default_server :: string
  pis_nfs_root_path :: string

record pi_boot_request =
  pq_serial :: string
  pq_mac :: "string option"
  pq_mode :: "string option"
  pq_client_ip :: "string option"

record pi_register_request =
  rg_serial :: string
  rg_mac :: string
  rg_model :: string
  rg_ip_address :: "string option"
  rg_client_ip :: "string option"

text \<open>The validators of the registration request.\<close>

definition validate_registration :: "pi_register_request \<Rightarrow> boot_error + pi_register_request" where
  "validate_registration r =
     (if \<not> validate_serial (lower (rg_serial r)) then Inl (BootHTTP 422)
      else if \<not> mac_pattern (rg_mac r) then Inl (BootHTTP 422)
      else if rg_model r \<notin> {''pi3'', ''pi3b+'', ''cm3'', ''pi4'', ''pi5''} then Inl (BootHTTP 422)
      else Inr (r\<lparr>rg_serial := lower (rg_serial r), rg_mac := normalize_mac (rg_mac r)\<rparr>))"

text \<open>\<open>scalar_one_or_none()\<close>: more than one row is an error.\<close>

definition one_or_none :: "('r \<Rightarrow> bool) \<Rightarrow> 'r list \<Rightarrow> boot_error + 'r option" where
  "one_or_none p t = (case filter p t of [] \<Rightarrow> Inr None | [r] \<Rightarrow> Inr (Some r) | _ \<Rightarrow> Inl BootMultipleRows)"

text \<open>The flush of changed rows: MAC addresses are unique.\<close>

definition flush_nodes :: "db \<Rightarrow> boot_error + db" where
  "flush_nodes d =
     (if keys_unique n_mac_address (db_nodes d) then Inr d else Inl (BootDb IntegrityError))"

section \<open>Boot instructions\<close>

definition first_truthy :: "string option list \<Rightarrow> string \<Rightarrow> string" where
  "first_truthy xs d = (case find truthy xs of Some (Some x) \<Rightarrow> x | _ \<Rightarrow> d)"

definition get_workflow_response :: "pi_settings \<Rightarrow> node \<Rightarrow> workflow \<Rightarrow> pi_response" where
  "get_workflow_response st n w =
     (let callback_url = bs_server (pis_boot st) @ ''/api/v1/nodes/'' @ n_id n @ ''/installed'' in
      if w_install_method w = ''image''
      then (pi_reply ''installing'' (''Deploying '' @ w_name w) (Some ''deploy_image''))
             \<lparr>pr_image_url := Some (w_image_url w), pr_target_device := Some (w_target_device w),
              pr_callback_url := Some callback_url\<rparr>
      else if w_install_method w = ''nfs''
      then (pi_reply ''installing'' (''NFS boot: '' @ w_name w) (Some ''nfs_boot''))
             \<lparr>pr_nfs_server := Some (first_truthy [map_of (w_boot_params w) ''nfs_server''] (pis_nfs_default_server st)),
              pr_nfs_path := Some (first_truthy [map_of (w_boot_params w) ''nfs_path'', map_of (w_boot_params w) ''nfs_base_path'']
                                     (pis_nfs_root_path st)),
              pr_callback_url := Some callback_url\<rparr>
      else pi_reply ''pending'' (''Workflow method '' @ [CHR 0x27] @ w_install_method w @ [CHR 0x27] @ '' not supported for Pi'')
             (Some ''local_boot''))"

definition pi_state_reply :: "pi_settings \<Rightarrow> wf_files \<Rightarrow> node \<Rightarrow> boot_error + pi_response" where
  "pi_state_reply st wfs n =
     (if n_state n = ''discovered'' then Inr (pi_reply ''discovered'' ''Awaiting workflow assignment'' None)
      else if n_state n = ''pending''
      then (if \<not> truthy (n_workflow_id n)
            then Inr (pi_reply ''pending'' ''Pending but no workflow assigned'' (Some ''local_boot''))
            else ebind (load_workflow (pis_boot st) wfs n) (\<lambda>w.
              case w of
                Some w \<Rightarrow> Inr (get_workflow_response st n w)
              | None \<Rightarrow> Inr (pi_reply ''pending''
                  (''Workflow '' @ [CHR 0x27] @ the (n_workflow_id n) @ [CHR 0x27] @ '' not found'') (Some ''local_boot''))))
      else if n_state n = ''installing'' then Inr (pi_reply ''installing'' ''Installation in progress'' (Some ''wait''))
      else if n_state n = ''installed'' \<or> n_state n = ''active''
      then Inr (pi_reply (n_state n) ''Boot from local storage'' (Some ''local_boot''))
      else Inr (pi_reply (n_state n) (''State: '' @ n_state n) (Some ''local_boot'')))"

definition pi_node :: "pi_settings \<Rightarrow> string \<Rightarrow> string \<Rightarrow> string \<Rightarrow> string \<Rightarrow> string option \<Rightarrow> node" where
  "pi_node st nid serial mac model ip =
     (new_node nid mac)\<lparr>n_serial_number := Some serial, n_ip_address := ip, n_arch := ''aarch64'',
        n_boot_mode := ''pi'', n_pi_model := Some model, n_group_id := bs_default_group_id (pis_boot st)\<rparr>"

text \<open>A new node with its directory; a duplicate MAC address or id is refused by the flush.\<close>

definition add_pi_node :: "pi_settings \<Rightarrow> node \<Rightarrow> string \<Rightarrow> string \<Rightarrow> files \<Rightarrow> db \<Rightarrow> files \<times> (boot_error + db)" where
  "add_pi_node st n serial model fs d =
     (case sql_insert n_id n (db_nodes d) of
        Inl e \<Rightarrow> (fs, Inl (BootDb e))
      | Inr nodes \<Rightarrow>
          (case flush_nodes (d\<lparr>db_nodes := nodes\<rparr>) of
             Inl e \<Rightarrow> (fs, Inl e)
           | Inr d' \<Rightarrow>
               (case create_node_directory (pis_manager st) serial model (Some (bs_server (pis_boot st))) fs of
                  Inl e \<Rightarrow> (fs, Inr d')
                | Inr (fs', dir) \<Rightarrow> (fs', Inr d'))))"

definition pi_touch :: "datetime \<Rightarrow> string option \<Rightarrow> string option \<Rightarrow> node \<Rightarrow> node" where
  "pi_touch now mac client_ip n =
     (let n = n\<lparr>n_last_seen_at := Some now,
                n_ip_address := (if truthy client_ip then client_ip else n_ip_address n)\<rparr>
      in if truthy mac \<and> (n_mac_address n = [] \<or> startswith (n_mac_address n) ''pi-'')
         then n\<lparr>n_mac_address := the mac\<rparr> else n)"

definition get_pi_boot_instructions ::
    "pi_settings \<Rightarrow> wf_files \<Rightarrow> datetime \<Rightarrow> string \<Rightarrow> pi_boot_request \<Rightarrow> files \<Rightarrow> db \<Rightarrow>
     files \<times> (boot_error + db \<times> pi_response)" where
  "get_pi_boot_instructions st wfs now nid q fs d =
     (let serial = lower (pq_serial q) in
      if length (pq_serial q) \<noteq> 8 then (fs, Inl (BootHTTP 422))
      else if \<not> validate_serial serial then (fs, Inl (BootHTTP 400))
      else if truthy (pq_mac q) \<and> \<not> mac_pattern (the (pq_mac q)) then (fs, Inl (BootHTTP 400))
      else
        let mac = (if truthy (pq_mac q) then Some (normalize_mac (the (pq_mac q))) else pq_mac q) in
        case one_or_none (\<lambda>n. n_serial_number n = Some serial) (db_nodes d) of
          Inl e \<Rightarrow> (fs, Inl e)
        | Inr None \<Rightarrow>
            (if \<not> (pq_mode q = Some ''discovery'' \<or> bs_auto_register (pis_boot st))
             then (fs, Inr (d, pi_reply ''unknown'' ''Node not registered. Auto-registration disabled.'' (Some ''local_boot'')))
             else case add_pi_node st (pi_node st nid serial (or_else mac (''pi-'' @ serial)) ''pi4'' (pq_client_ip q))
                         serial ''pi4'' fs d of
                    (fs', Inl e) \<Rightarrow> (fs', Inl e)
                  | (fs', Inr d') \<Rightarrow>
                      (fs', Inr (d', pi_reply ''discovered'' ''Node registered. Awaiting workflow assignment.'' None)))
        | Inr (Some n0) \<Rightarrow>
            (let n = pi_touch now mac (pq_client_ip q) n0 in
             (fs, ebind (pi_state_reply st wfs n) (\<lambda>reply.
                  ebind (flush_nodes (save_node n d)) (\<lambda>d'. Inr (d', reply))))))"

section \<open>Registration\<close>

definition refresh_directory :: "pi_settings \<Rightarrow> string \<Rightarrow> string \<Rightarrow> files \<Rightarrow> files" where
  "refresh_directory st serial model fs =
     (let m = pis_manager st; url = Some (bs_server (pis_boot st)) in
      case node_exists m fs serial of
        Inl e \<Rightarrow> fs
      | Inr True \<Rightarrow>
          (case update_config_txt m serial model fs of
             Inl e \<Rightarrow> fs
           | Inr fs1 \<Rightarrow> (case update_cmdline_txt m serial url fs1 of Inl e \<Rightarrow> fs1 | Inr fs2 \<Rightarrow> fs2))
      | Inr False \<Rightarrow>
          (case create_node_directory m serial model url fs of Inl e \<Rightarrow> fs | Inr (fs1, dir) \<Rightarrow> fs1))"

definition register_pi_node ::
    "pi_settings \<Rightarrow> datetime \<Rightarrow> string \<Rightarrow> pi_register_request \<Rightarrow> files \<Rightarrow> db \<Rightarrow> files \<times> (boot_error + db)" where
  "register_pi_node st now nid r0 fs d =
     (case validate_registration r0 of
        Inl e \<Rightarrow> (fs, Inl e)
      | Inr r \<Rightarrow>
          (let ip = (if truthy (rg_ip_address r) then rg_ip_address r else rg_client_ip r) in
           case one_or_none (\<lambda>n. n_serial_number n = Some (rg_serial r)) (db_nodes d) of
             Inl e \<Rightarrow> (fs, Inl e)
           | Inr (Some n0) \<Rightarrow>
               (let n = n0\<lparr>n_mac_address := rg_mac r, n_pi_model := Some (rg_model r),
                           n_ip_address := (if truthy ip then ip else n_ip_address n0),
                           n_last_seen_at := Some now\<rparr>
                in (refresh_directory st (rg_serial r) (rg_model r) fs, flush_nodes (save_node n d)))
           | Inr None \<Rightarrow>
               add_pi_node st (pi_node st nid (rg_serial r) (rg_mac r) (rg_model r) ip) (rg_serial r) (rg_model r) fs d))"

section \<open>The Raspberry Pi API\<close>

datatype pi_call = PiBoot string pi_boot_request files | PiRegister string pi_register_request files

fun pi_route :: "pi_settings \<Rightarrow> wf_files \<Rightarrow> datetime \<times> pi_call \<Rightarrow> db \<Rightarrow> boot_error + db" where
  "pi_route st wfs (now, PiBoot nid q fs) d = map_sum id fst (snd (get_pi_boot_instructions st wfs now nid q fs d))"
| "pi_route st wfs (now, PiRegister nid r fs) d = snd (register_pi_node st now nid r fs d)"


section \<open>The Raspberry Pi API keeps the invariant of the node tables\<close>

definition same_lifecycle :: "node \<Rightarrow> node \<Rightarrow> bool" where
  "same_lifecycle n n' \<longleftrightarrow> n_id n' = n_id n \<and> n_state n' = n_state n \<and> n_install_attempts n' = n_install_attempts n"

lemma flushed_save_inv:
  assumes inv: "db_inv d" and n: "n \<in> set (db_nodes d)" and s: "same_lifecycle n n'"
    and f: "flush_nodes (save_node n' d) = Inr d'"
  shows "db_inv d'"
proof -
  let ?upd = "\<lambda>m. if n_id m = n_id n' then n' else m"
  have d': "d' = save_node n' d" "keys_unique n_mac_address (db_nodes d')"
    using f by (auto simp: flush_nodes_def split: if_splits)
  have nodes: "db_nodes d' = map ?upd (db_nodes d)" and rest: "db_logs d' = db_logs d" "db_alerts d' = db_alerts d"
    by (simp_all add: d'(1) save_node_def)
  have ids: "map n_id (db_nodes d') = map n_id (db_nodes d)" unfolding nodes by auto
  have "lifecycle_inv m \<and> log_end ''discovered'' (node_logs d' (n_id m)) = Some (n_state m)" if m: "m \<in> set (db_nodes d')" for m
  proof -
    obtain m0 where m0: "m0 \<in> set (db_nodes d)" "m = ?upd m0" using m unfolding nodes by auto
    have "same_lifecycle m0 m"
    proof (cases "n_id m0 = n_id n'")
      case True
      then have "m0 = n" using inv n m0(1) s
        by (auto simp: db_inv_def keys_unique_def distinct_map inj_on_def same_lifecycle_def)
      with True m0(2) s show ?thesis by simp
    qed (simp add: m0(2) same_lifecycle_def)
    with inv m0(1) show ?thesis by (auto simp: db_inv_def lifecycle_inv_def same_lifecycle_def node_logs_def rest)
  qed
  moreover have "n_id ` set (db_nodes d') = n_id ` set (db_nodes d)" using ids by (metis set_map)
  ultimately show ?thesis using inv d'(2) ids by (auto simp: db_inv_def rest keys_unique_def)
qed

lemma one_or_none_SomeD: "one_or_none p t = Inr (Some r) \<Longrightarrow> r \<in> set t \<and> p r"
proof -
  assume "one_or_none p t = Inr (Some r)"
  then have "filter p t = [r]" by (auto simp: one_or_none_def split: list.splits)
  then have "r \<in> set (filter p t)" by simp
  then show ?thesis by simp
qed

lemma add_pi_node_inv:
  assumes "db_inv d" and "add_pi_node st n serial model fs d = (fs', Inr d')" and "n_state n = ''discovered''" "n_install_attempts n = 0"
  shows "db_inv d'"
proof -
  from assms(2) have d': "d' = d\<lparr>db_nodes := db_nodes d @ [n]\<rparr>" "keys_unique n_mac_address (db_nodes d @ [n])"
    "n_id n \<notin> n_id ` set (db_nodes d)"
    by (auto simp: add_pi_node_def flush_nodes_def sql_insert_def split: if_splits sum.splits)
  from fresh_node_inv [OF assms(1) _ d'(3) assms(3,4)] d'(1,2) show ?thesis by (auto simp: keys_unique_def)
qed

lemma pi_touch_same: "same_lifecycle n (pi_touch now mac ip n)"
  by (simp add: same_lifecycle_def pi_touch_def Let_def)

lemma pi_node_new: "n_state (pi_node st nid s mac model ip) = ''discovered''" "n_install_attempts (pi_node st nid s mac model ip) = 0"
  by (simp_all add: pi_node_def new_node_def)

lemma get_pi_boot_inv:
  assumes "db_inv d" and "get_pi_boot_instructions st wfs now nid q fs d = (fs', Inr (d', reply))"
  shows "db_inv d'"
proof -
  let ?p = "\<lambda>n. n_serial_number n = Some (lower (pq_serial q))"
  obtain r where r: "one_or_none ?p (db_nodes d) = Inr r"
    using assms(2) by (auto simp: get_pi_boot_instructions_def Let_def split: if_splits sum.splits)
  show ?thesis
  proof (cases r)
    case None
    with assms r show ?thesis
      by (auto simp: get_pi_boot_instructions_def Let_def split: if_split_asm prod.split_asm sum.split_asm
          dest: add_pi_node_inv [OF assms(1) _ pi_node_new])
  next
    case (Some n0)
    note n0 = one_or_none_SomeD [OF r [unfolded Some]]
    from assms(2) r Some obtain mac where "flush_nodes (save_node (pi_touch now mac (pq_client_ip q) n0) d) = Inr d'"
      by (auto simp: get_pi_boot_instructions_def Let_def ebind_Inr_iff split: if_split_asm)
    from flushed_save_inv [OF assms(1) _ pi_touch_same this] n0 show ?thesis by blast
  qed
qed

lemma register_pi_node_inv:
  assumes "db_inv d" and "register_pi_node st now nid r0 fs d = (fs', Inr d')"
  shows "db_inv d'"
proof -
  obtain r where r: "validate_registration r0 = Inr r"
    using assms(2) by (auto simp: register_pi_node_def split: sum.splits)
  obtain x where x: "one_or_none (\<lambda>n. n_serial_number n = Some (rg_serial r)) (db_nodes d) = Inr x"
    using assms(2) r by (auto simp: register_pi_node_def Let_def split: sum.splits)
  show ?thesis
  proof (cases x)
    case None
    with assms r x show ?thesis
      by (auto simp: register_pi_node_def Let_def dest: add_pi_node_inv [OF assms(1) _ pi_node_new])
  next
    case (Some n0)
    note n0 = one_or_none_SomeD [OF x [unfolded Some]]
    let ?ip = "if truthy (rg_ip_address r) then rg_ip_address r else rg_client_ip r"
    let ?n = "n0\<lparr>n_mac_address := rg_mac r, n_pi_model := Some (rg_model r),
        n_ip_address := (if truthy ?ip then ?ip else n_ip_address n0), n_last_seen_at := Some now\<rparr>"
    have "flush_nodes (save_node ?n d) = Inr d'"
      using assms(2) r x Some by (simp add: register_pi_node_def Let_def)
    moreover have "same_lifecycle n0 ?n" by (simp add: same_lifecycle_def)
    ultimately show ?thesis using flushed_save_inv [OF assms(1)] n0 by blast
  qed
qed

lemma pi_route_inv:
  assumes "db_inv d" and "pi_route st wfs q d = Inr d'"
  shows "db_inv d'"
proof (cases q)
  case (Pair now c)
  note h = assms(2) [unfolded Pair]
  show ?thesis
  proof (cases c)
    case (PiBoot nid r fs)
    obtain fs' x where x: "get_pi_boot_instructions st wfs now nid r fs d = (fs', x)" by fastforce
    with h PiBoot obtain y where "x = Inr (d', y)" by (auto dest!: map_sum_fst_InrD)
    with x get_pi_boot_inv [OF assms(1)] show ?thesis by blast
  next
    case (PiRegister nid r fs)
    with h register_pi_node_inv [OF assms(1)] show ?thesis by (metis pi_route.simps(2) prod.collapse)
  qed
qed

interpretation pi_api: transactional "pi_route st wfs" db_inv
  by unfold_locales (rule pi_route_inv)

section \<open>NFS parameters\<close>

text \<open>
  The NFS server and path that a workflow names are never used: whatever boot parameters the
  workflow of a pending board has, the board is told the configured default server and path,
  because substituting the variables returns a workflow without boot parameters.
\<close>

theorem nfs_parameters_ignored:
  assumes "n_state n = ''pending''" and "truthy (n_workflow_id n)"
    and "wf_get_workflow wfs (bs_workflows_dir (pis_boot st)) (the (n_workflow_id n)) = Inr w" and "w_install_method w = ''nfs''"
  shows "\<exists>reply. pi_state_reply st wfs n = Inr reply \<and> pr_action reply = Some ''nfs_boot''
    \<and> pr_nfs_server reply = Some (pis_nfs_default_server st) \<and> pr_nfs_path reply = Some (pis_nfs_root_path st)"
proof -
  let ?w = "resolve_variables w (bs_server (pis_boot st)) (n_id n) (n_mac_address n) (n_ip_address n)"
  have "w_boot_params ?w = []" by (rule resolve_variables_drops)
  moreover have "w_install_method ?w = ''nfs''" using assms(4) by (simp add: resolve_variables_def Let_def)
  ultimately show ?thesis
    using assms(1-3) by (simp add: pi_state_reply_def load_workflow_def get_workflow_response_def pi_reply_def first_truthy_def Let_def)
qed

theorem nfs_parameters_ignored_witness:
  "\<exists>reply. pi_state_reply \<lparr>pis_boot = demo_settings, pis_manager = demo_manager, pis_nfs_default_server = ''10.0.0.1'', pis_nfs_root_path = ''/srv''\<rparr>
      (demo_files\<lparr>wf_load := (\<lambda>p. Inr ((new_workflow ''a'' ''Demo'')\<lparr>w_install_method := ''nfs'', w_boot_params := [(''nfs_server'', ''10.9.9.9'')]\<rparr>))\<rparr>)
      ((new_node ''n1'' ''m'')\<lparr>n_state := ''pending'', n_workflow_id := Some ''a''\<rparr>) = Inr reply
    \<and> pr_nfs_server reply = Some ''10.0.0.1''"
proof -
  let ?st = "\<lparr>pis_boot = demo_settings, pis_manager = demo_manager, pis_nfs_default_server = ''10.0.0.1'', pis_nfs_root_path = ''/srv''\<rparr>"
  let ?w = "(new_workflow ''a'' ''Demo'')\<lparr>w_install_method := ''nfs'', w_boot_params := [(''nfs_server'', ''10.9.9.9'')]\<rparr>"
  let ?fs = "demo_files\<lparr>wf_load := (\<lambda>p. Inr ?w)\<rparr>"
  have "wf_get_workflow ?fs (bs_workflows_dir (pis_boot ?st)) ''a'' = Inr ?w"
    by (simp add: wf_get_workflow_def validate_workflow_path_def demo_files_def demo_settings_def resolve_join_def resolve_def
        startswith_def path_str_def Let_def)
  with nfs_parameters_ignored [of "(new_node ''n1'' ''m'')\<lparr>n_state := ''pending'', n_workflow_id := Some ''a''\<rparr>" ?fs ?st ?w]
  show ?thesis by auto
qed

end
