(* ===== verification/NodeAdmin.thy ===== *)
theory NodeAdmin
  imports NodeRoutes
begin

text \<open>
  The remaining handlers of src/src/api/routes/nodes.py: metadata updates, tags (single and bulk),
  the notice of a clone source, and the queries that list nodes and stalled installations.

  The tag table is shown to implement a finite relation between nodes and tags, with the exact
  conditions under which each request succeeds and the counts the bulk requests report.
\<close>

section \<open>Metadata\<close>

text \<open>
  \<open>NodeUpdate\<close> with \<open>exclude_unset\<close>: \<open>None\<close> is a field the request does not mention, which is
  different from a field set to null.
\<close>

record node_update =
  u_hostname :: "string option option"
  u_workflow_id :: "string option option"
  u_group_id :: "string option option"
  u_vendor :: "string option option"
  u_model :: "string option option"
  u_serial_number :: "string option option"
  u_system_uuid :: "string option option"
  u_pi_model :: "string option option"

definition given :: "'a option \<Rightarrow> 'a \<Rightarrow> 'a" where
  "given v old = (case v of None \<Rightarrow> old | Some x \<Rightarrow> x)"

definition apply_update :: "node_update \<Rightarrow> node \<Rightarrow> node" where
  "apply_update u n =
     n\<lparr>n_hostname := given (u_hostname u) (n_hostname n),
       n_workflow_id := given (u_workflow_id u) (n_workflow_id n),
       n_group_id := given (u_group_id u) (n_group_id n),
       n_vendor := given (u_vendor u) (n_vendor n),
       n_model := given (u_model u) (n_model n),
       n_serial_number := given (u_serial_number u) (n_serial_number n),
       n_system_uuid := given (u_system_uuid u) (n_system_uuid n),
       n_pi_model := given (u_pi_model u) (n_pi_model n)\<rparr>"

definition update_node :: "string \<Rightarrow> node_update \<Rightarrow> db \<Rightarrow> http_error + db" where
  "update_node node_id u d =
     (case sql_get n_id node_id (db_nodes d) of
        None \<Rightarrow> Inl (HTTP 404)
      | Some n \<Rightarrow> Inr (save_node (apply_update u n) d))"

section \<open>Tags\<close>

definition tag_char :: "char \<Rightarrow> bool" where
  "tag_char c = (let k = of_char c :: nat in
     (97 \<le> k \<and> k \<le> 122) \<or> (65 \<le> k \<and> k \<le> 90) \<or> (48 \<le> k \<and> k \<le> 57) \<or> k = 95 \<or> k = 45)"

text \<open>The match of \<open>^[a-zA-Z0-9_-]+$\<close>, whose \<open>$\<close> also matches before a final newline.\<close>

definition tag_pattern :: "string \<Rightarrow> bool" where
  "tag_pattern v = (strip_newline v \<noteq> [] \<and> list_all tag_char (strip_newline v))"

definition validate_tag :: "string \<Rightarrow> http_error + string" where
  "validate_tag v =
     (if v = [] \<or> length v > 50 then Inl (HTTP 422)
      else if \<not> tag_pattern v then Inl (HTTP 422)
      else Inr (lower v))"

definition validate_bulk_tag :: "string \<Rightarrow> http_error + string" where
  "validate_bulk_tag v0 =
     (let v = lower (strip v0) in
      if v = [] \<or> length v > 50 then Inl (HTTP 422)
      else if \<not> tag_pattern v then Inl (HTTP 422)
      else Inr v)"

abbreviation tag_key :: "node_tag \<Rightarrow> string \<times> string" where
  "tag_key t \<equiv> (tg_node_id t, tg_tag t)"

definition tags_of :: "string \<Rightarrow> db \<Rightarrow> string list" where
  "tags_of node_id d = map tg_tag (filter (\<lambda>t. tg_node_id t = node_id) (db_tags d))"

definition add_node_tag :: "string \<Rightarrow> string \<Rightarrow> db \<Rightarrow> http_error + db" where
  "add_node_tag node_id tag0 d =
     ebind (validate_tag tag0) (\<lambda>tag.
     case sql_get n_id node_id (db_nodes d) of
       None \<Rightarrow> Inl (HTTP 404)
     | Some n \<Rightarrow>
         if tag \<in> set (tags_of node_id d) then Inl (HTTP 409)
         else case sql_insert tag_key \<lparr>tg_node_id = node_id, tg_tag = tag\<rparr> (db_tags d) of
                Inl e \<Rightarrow> Inl (DbFailure e)
              | Inr tags \<Rightarrow> Inr (d\<lparr>db_tags := tags\<rparr>))"

definition remove_node_tag :: "string \<Rightarrow> string \<Rightarrow> db \<Rightarrow> http_error + db" where
  "remove_node_tag node_id tag d =
     (case sql_get n_id node_id (db_nodes d) of
        None \<Rightarrow> Inl (HTTP 404)
      | Some n \<Rightarrow>
          (let tag_lower = lower tag in
           if tag_lower \<notin> set (tags_of node_id d) then Inl (HTTP 404)
           else Inr (d\<lparr>db_tags := fst (sql_delete (\<lambda>t. tag_key t = (node_id, tag_lower)) (db_tags d))\<rparr>)))"

text \<open>The nodes to tag form a set; the rows are added in the order of the node table.\<close>

definition bulk_add_tag :: "string list \<Rightarrow> string \<Rightarrow> db \<Rightarrow> http_error + db \<times> nat" where
  "bulk_add_tag ids tag0 d =
     ebind (validate_bulk_tag tag0) (\<lambda>tag.
     let existing = set (map tg_node_id (filter (\<lambda>t. tg_node_id t \<in> set ids \<and> tg_tag t = tag) (db_tags d)));
         to_tag = filter (\<lambda>i. i \<in> set ids \<and> i \<notin> existing) (map n_id (db_nodes d));
         rows = map (\<lambda>i. \<lparr>tg_node_id = i, tg_tag = tag\<rparr>) to_tag
     in if keys_unique tag_key (db_tags d @ rows)
        then Inr (d\<lparr>db_tags := db_tags d @ rows\<rparr>, length to_tag)
        else Inl (DbFailure IntegrityError))"

definition bulk_remove_tag :: "string list \<Rightarrow> string \<Rightarrow> db \<Rightarrow> http_error + db \<times> nat" where
  "bulk_remove_tag ids tag0 d =
     (let tag = lower (strip tag0);
          (tags, deleted) = sql_delete (\<lambda>t. tg_node_id t \<in> set ids \<and> tg_tag t = tag) (db_tags d)
      in Inr (d\<lparr>db_tags := tags\<rparr>, deleted))"

section \<open>The notice of a clone source\<close>

text \<open>The body as JSON (the port defaults to 9999), or \<open>None\<close> when it cannot be read as an object.\<close>

record clone_notice =
  cn_ip :: "string option"
  cn_port :: int
  cn_size :: json
  cn_device :: json

definition show_opt :: "string option \<Rightarrow> string" where
  "show_opt v = (case v of None \<Rightarrow> ''None'' | Some s \<Rightarrow> s)"

definition node_clone_ready :: "string \<Rightarrow> clone_notice option \<Rightarrow> string option \<Rightarrow> db \<Rightarrow> http_error + db" where
  "node_clone_ready node_id body client d =
     (case sql_get n_id node_id (db_nodes d) of
        None \<Rightarrow> Inl (HTTP 404)
      | Some n \<Rightarrow>
          (let b = (case body of
                      Some b \<Rightarrow> b
                    | None \<Rightarrow> \<lparr>cn_ip = client, cn_port = 9999, cn_size = JNull, cn_device = JNull\<rparr>);
               ip = (case cn_ip b of None \<Rightarrow> JNull | Some s \<Rightarrow> JStr s)
           in Inr (add_events
                [log_event n ''clone_source_ready'' ''ready''
                   (Some (''Clone source ready at '' @ show_opt (cn_ip b) @ '':'' @ show_int (cn_port b))) None
                   (Some [(''clone_ip'', ip), (''clone_port'', JInt (cn_port b)),
                          (''clone_size'', cn_size b), (''clone_device'', cn_device b)])
                   (cn_ip b)] d)))"

section \<open>Queries\<close>

definition list_nodes :: "string option \<Rightarrow> string option \<Rightarrow> string option \<Rightarrow> db \<Rightarrow> node list" where
  "list_nodes state group_id tag d =
     filter (\<lambda>n. (truthy state \<longrightarrow> n_state n = the state)
               \<and> (truthy group_id \<longrightarrow> n_group_id n = group_id)
               \<and> (truthy tag \<longrightarrow> lower (the tag) \<in> set (tags_of (n_id n) d)))
       (db_nodes d)"

definition get_stalled_nodes :: "int \<Rightarrow> datetime \<Rightarrow> db \<Rightarrow> node list" where
  "get_stalled_nodes minutes now d =
     (if minutes \<le> 0 then []
      else let threshold = now - seconds (minutes * 60) in
           sort_key (\<lambda>n. the (n_state_changed_at n))
             (filter (\<lambda>n. n_state n = ''installing''
                 \<and> (case n_state_changed_at n of None \<Rightarrow> False | Some t \<Rightarrow> t < threshold)) (db_nodes d)))"

section \<open>The requests\<close>

datatype admin_request =
    UpdateNode string node_update
  | AddNodeTag string string
  | RemoveNodeTag string string
  | BulkAddTag "string list" string
  | BulkRemoveTag "string list" string
  | CloneReady string "clone_notice option" "string option"

fun admin_route :: "admin_request \<Rightarrow> db \<Rightarrow> http_error + db" where
  "admin_route (UpdateNode i u) d = update_node i u d"
| "admin_route (AddNodeTag i t) d = add_node_tag i t d"
| "admin_route (RemoveNodeTag i t) d = remove_node_tag i t d"
| "admin_route (BulkAddTag ids t) d = map_sum id fst (bulk_add_tag ids t d)"
| "admin_route (BulkRemoveTag ids t) d = map_sum id fst (bulk_remove_tag ids t d)"
| "admin_route (CloneReady i b c) d = node_clone_ready i b c d"


section \<open>The requests keep the node tables in order\<close>

lemma apply_update_quiet: "quiet n (apply_update u n)"
  by (simp add: quiet_def apply_update_def)

lemma db_inv_tags [simp]: "db_inv (d\<lparr>db_tags := ts\<rparr>) = db_inv d"
  by (simp add: db_inv_def node_logs_def)

lemma admin_route_inv: "db_inv d \<Longrightarrow> admin_route q d = Inr d' \<Longrightarrow> db_inv d'"
  by (cases q) (auto simp: update_node_def add_node_tag_def remove_node_tag_def bulk_add_tag_def bulk_remove_tag_def
      node_clone_ready_def ebind_Inr_iff Let_def case_prod_unfold intro: save_quiet_inv apply_update_quiet
      dest!: map_sum_fst_InrD dest: sql_get_SomeD split: option.splits if_splits sum.splits)

interpretation admin_api: transactional admin_route db_inv
  by unfold_locales (rule admin_route_inv)

section \<open>Tags as a relation\<close>

text \<open>What a stored tag looks like, and the invariant of the tag table.\<close>

definition stored_tag :: "string \<Rightarrow> bool" where
  "stored_tag s \<longleftrightarrow> length s \<le> 50 \<and> tag_pattern s \<and> lower s = s"

definition tags_inv :: "db \<Rightarrow> bool" where
  "tags_inv d \<longleftrightarrow> keys_unique n_id (db_nodes d) \<and> keys_unique tag_key (db_tags d)
     \<and> (\<forall>t \<in> set (db_tags d). tg_node_id t \<in> n_id ` set (db_nodes d) \<and> stored_tag (tg_tag t))"

lemma tag_char_lower: "tag_char c \<Longrightarrow> tag_char (lower_char c)"
  by (auto simp: tag_char_def lower_char_def Let_def)

lemma tag_pattern_lower: "tag_pattern v \<Longrightarrow> tag_pattern (lower v)"
  unfolding tag_pattern_def strip_newline_lower by (auto simp: lower_def list_all_iff tag_char_lower)

lemma validate_tag_stored: "validate_tag v = Inr t \<Longrightarrow> stored_tag t"
  by (auto simp: validate_tag_def stored_tag_def tag_pattern_lower split: if_splits)

lemma validate_bulk_tag_stored: "validate_bulk_tag v = Inr t \<Longrightarrow> stored_tag t"
  by (auto simp: validate_bulk_tag_def stored_tag_def Let_def split: if_splits)

lemma tags_of_iff: "t \<in> set (tags_of i d) \<longleftrightarrow> (i, t) \<in> tag_key ` set (db_tags d)"
  by (auto simp: tags_of_def image_iff)

lemma tag_key_new [simp]: "tag_key \<lparr>tg_node_id = i, tg_tag = t\<rparr> = (i, t)"
  by simp

lemma node_found_iff: "(\<exists>n. sql_get n_id i ns = Some n) \<longleftrightarrow> i \<in> n_id ` set ns"
  using sql_get_None_iff [of n_id i ns] by auto

lemma add_node_tag_Inr_iff:
  "add_node_tag i v d = Inr d' \<longleftrightarrow>
     (\<exists>t. validate_tag v = Inr t \<and> i \<in> n_id ` set (db_nodes d) \<and> (i, t) \<notin> tag_key ` set (db_tags d)
        \<and> d' = d\<lparr>db_tags := db_tags d @ [\<lparr>tg_node_id = i, tg_tag = t\<rparr>]\<rparr>)"
  by (auto simp: add_node_tag_def ebind_Inr_iff tags_of_iff sql_insert_def node_found_iff [symmetric] split: option.splits)

lemma remove_node_tag_Inr_iff:
  "remove_node_tag i v d = Inr d' \<longleftrightarrow>
     i \<in> n_id ` set (db_nodes d) \<and> (i, lower v) \<in> tag_key ` set (db_tags d)
     \<and> d' = d\<lparr>db_tags := filter (\<lambda>t. tag_key t \<noteq> (i, lower v)) (db_tags d)\<rparr>"
  by (auto simp: remove_node_tag_def Let_def tags_of_iff sql_delete_def node_found_iff [symmetric] split: option.splits)

lemma bulk_add_tag_exact:
  assumes "tags_inv d" and "validate_bulk_tag v = Inr t"
  shows "\<exists>ids'. bulk_add_tag ids v d = Inr (d\<lparr>db_tags := db_tags d @ map (\<lambda>i. \<lparr>tg_node_id = i, tg_tag = t\<rparr>) ids'\<rparr>, length ids')
    \<and> distinct ids' \<and> set ids' = {i \<in> set ids \<inter> n_id ` set (db_nodes d). (i, t) \<notin> tag_key ` set (db_tags d)}"
proof -
  let ?ids = "filter (\<lambda>i. i \<in> set ids \<and> i \<notin> set (map tg_node_id (filter (\<lambda>t'. tg_node_id t' \<in> set ids \<and> tg_tag t' = t) (db_tags d))))
    (map n_id (db_nodes d))"
  let ?rows = "map (\<lambda>i. \<lparr>tg_node_id = i, tg_tag = t\<rparr>) ?ids"
  have d: "distinct ?ids" using assms(1) by (simp add: tags_inv_def keys_unique_def)
  have s: "set ?ids = {i \<in> set ids \<inter> n_id ` set (db_nodes d). (i, t) \<notin> tag_key ` set (db_tags d)}"
    by force
  have "keys_unique tag_key (db_tags d @ ?rows)"
    using assms(1) d unfolding tags_inv_def keys_unique_def
    by (force simp: distinct_map inj_on_def)
  then have "bulk_add_tag ids v d = Inr (d\<lparr>db_tags := db_tags d @ ?rows\<rparr>, length ?ids)"
    by (simp add: bulk_add_tag_def assms(2) Let_def)
  with d s show ?thesis by blast
qed

lemma keys_unique_append_iff:
  "keys_unique key (xs @ ys) \<longleftrightarrow> keys_unique key xs \<and> keys_unique key ys \<and> key ` set xs \<inter> key ` set ys = {}"
  by (auto simp: keys_unique_def)

lemma bulk_add_tag_InrD:
  assumes "bulk_add_tag ids v d = Inr (d', k)"
  shows "\<exists>t rows. validate_bulk_tag v = Inr t \<and> d' = d\<lparr>db_tags := db_tags d @ rows\<rparr> \<and> keys_unique tag_key (db_tags d @ rows)
    \<and> (\<forall>r \<in> set rows. tg_tag r = t \<and> tg_node_id r \<in> n_id ` set (db_nodes d))"
  using assms by (fastforce simp: bulk_add_tag_def ebind_Inr_iff Let_def split: if_splits)

lemma tags_inv_append:
  assumes "tags_inv d" and "keys_unique tag_key (db_tags d @ rows)" and "stored_tag t"
    and "\<forall>r \<in> set rows. tg_tag r = t \<and> tg_node_id r \<in> n_id ` set (db_nodes d)"
  shows "tags_inv (d\<lparr>db_tags := db_tags d @ rows\<rparr>)"
  using assms by (auto simp: tags_inv_def)

lemma map_save_ids: "map n_id (db_nodes (save_node n d)) = map n_id (db_nodes d)"
  by (simp add: save_node_def comp_def if_distrib cong: if_cong)

lemma tags_inv_frame:
  assumes "tags_inv d" and "db_tags d' = db_tags d" and "map n_id (db_nodes d') = map n_id (db_nodes d)"
  shows "tags_inv d'"
  using assms unfolding tags_inv_def keys_unique_def by (metis set_map)

lemma admin_route_tags: "tags_inv d \<Longrightarrow> admin_route q d = Inr d' \<Longrightarrow> tags_inv d'"
proof (cases q)
  case (AddNodeTag i v)
  assume a: "tags_inv d" "admin_route q d = Inr d'"
  then obtain t where "validate_tag v = Inr t" "i \<in> n_id ` set (db_nodes d)" "(i, t) \<notin> tag_key ` set (db_tags d)"
    "d' = d\<lparr>db_tags := db_tags d @ [\<lparr>tg_node_id = i, tg_tag = t\<rparr>]\<rparr>"
    by (auto simp: AddNodeTag add_node_tag_Inr_iff)
  with a(1) show ?thesis
    by (auto intro!: tags_inv_append simp: validate_tag_stored keys_unique_append_iff) (simp_all add: tags_inv_def keys_unique_def)
next
  case (BulkAddTag ids v)
  assume a: "tags_inv d" "admin_route q d = Inr d'"
  then obtain k where "bulk_add_tag ids v d = Inr (d', k)"
    by (auto simp: BulkAddTag dest!: map_sum_fst_InrD)
  from bulk_add_tag_InrD [OF this] a(1) show ?thesis
    by (auto intro: tags_inv_append dest: validate_bulk_tag_stored)
next
  case (UpdateNode i u)
  assume a: "tags_inv d" "admin_route q d = Inr d'"
  then show ?thesis
    by (auto simp: UpdateNode update_node_def map_save_ids save_node_def [of _ d] intro: tags_inv_frame split: option.splits)
next
  case (CloneReady i b c)
  assume a: "tags_inv d" "admin_route q d = Inr d'"
  then show ?thesis
    by (auto simp: CloneReady node_clone_ready_def Let_def add_events_def tags_inv_def split: option.splits)
qed (auto simp: remove_node_tag_Inr_iff bulk_remove_tag_def sql_delete_def tags_inv_def keys_unique_filter Let_def)


abbreviation tag_rel :: "db \<Rightarrow> (string \<times> string) set" where
  "tag_rel d \<equiv> tag_key ` set (db_tags d)"

lemma card_image_tags: "keys_unique tag_key ts \<Longrightarrow> card (tag_key ` set ts) = length ts"
  by (metis distinct_card keys_unique_def length_map set_map)

lemma filter_tag_rel: "tag_key ` set (filter (\<lambda>t. P (tag_key t)) ts) = {k \<in> tag_key ` set ts. P k}"
  by auto

lemma bulk_add_tag_rel:
  assumes "tags_inv d" and "validate_bulk_tag v = Inr t"
  shows "\<exists>d' k. bulk_add_tag ids v d = Inr (d', k)
    \<and> tag_rel d' = tag_rel d \<union> (set ids \<inter> n_id ` set (db_nodes d)) \<times> {t} \<and> k = card (tag_rel d' - tag_rel d)"
proof -
  from bulk_add_tag_exact [OF assms, of ids] obtain ids' where
    b: "bulk_add_tag ids v d = Inr (d\<lparr>db_tags := db_tags d @ map (\<lambda>i. \<lparr>tg_node_id = i, tg_tag = t\<rparr>) ids'\<rparr>, length ids')"
    and i: "distinct ids'" "set ids' = {i \<in> set ids \<inter> n_id ` set (db_nodes d). (i, t) \<notin> tag_rel d}"
    by blast
  let ?d = "d\<lparr>db_tags := db_tags d @ map (\<lambda>i. \<lparr>tg_node_id = i, tg_tag = t\<rparr>) ids'\<rparr>"
  have r: "tag_rel ?d = tag_rel d \<union> set ids' \<times> {t}" by force
  then have "tag_rel ?d - tag_rel d = set ids' \<times> {t}" using i(2) by auto
  then have "card (tag_rel ?d - tag_rel d) = length ids'" using i(1) by (simp add: card_cartesian_product distinct_card)
  moreover have "tag_rel d \<union> set ids' \<times> {t} = tag_rel d \<union> (set ids \<inter> n_id ` set (db_nodes d)) \<times> {t}"
    using i(2) by auto
  ultimately have "tag_rel ?d = tag_rel d \<union> (set ids \<inter> n_id ` set (db_nodes d)) \<times> {t} \<and> length ids' = card (tag_rel ?d - tag_rel d)"
    using r by (simp only:)
  with b show ?thesis by (intro exI [of _ ?d] exI [of _ "length ids'"] conjI) (simp_all only:)
qed

lemma bulk_remove_tag_rel:
  assumes "tags_inv d"
  shows "\<exists>d' k. bulk_remove_tag ids v d = Inr (d', k)
    \<and> tag_rel d' = tag_rel d - set ids \<times> {lower (strip v)} \<and> k = card (tag_rel d - tag_rel d')"
proof -
  let ?P = "\<lambda>k. fst k \<in> set ids \<and> snd k = lower (strip v)"
  let ?kept = "filter (\<lambda>t. \<not> ?P (tag_key t)) (db_tags d)" and ?gone = "filter (\<lambda>t. ?P (tag_key t)) (db_tags d)"
  have r: "tag_key ` set ?kept = {k \<in> tag_rel d. \<not> ?P k}" "tag_key ` set ?gone = {k \<in> tag_rel d. ?P k}"
    by (rule filter_tag_rel)+
  have "keys_unique tag_key ?gone"
    using assms by (simp add: tags_inv_def keys_unique_filter)
  from card_image_tags [OF this] have "length ?gone = card {k \<in> tag_rel d. ?P k}" by (simp only: r(2))
  moreover have e: "{k \<in> tag_rel d. \<not> ?P k} = tag_rel d - set ids \<times> {lower (strip v)}"
    "tag_rel d - {k \<in> tag_rel d. \<not> ?P k} = {k \<in> tag_rel d. ?P k}" by auto
  moreover have b: "bulk_remove_tag ids v d = Inr (d\<lparr>db_tags := ?kept\<rparr>, length ?gone)"
    by (simp add: bulk_remove_tag_def sql_delete_def Let_def)
  moreover have t: "db_tags (d\<lparr>db_tags := ?kept\<rparr>) = ?kept" by simp
  ultimately show ?thesis
    by (intro exI [of _ "d\<lparr>db_tags := ?kept\<rparr>"] exI [of _ "length ?gone"] conjI) (simp_all only: t r(1))
qed

text \<open>
  C19: The tag table is a relation between nodes and tags. A tag is added exactly when it is valid,
  the node exists and does not have it, and removed exactly when the node has it under the
  lower-case spelling; each request changes the relation by just that pair. The bulk requests add
  and remove the whole product of the named nodes with the tag and report how many pairs changed.
\<close>

theorem tags_refine_relation:
  assumes "tags_inv d"
  shows "((\<exists>d'. add_node_tag i v d = Inr d')
      \<longleftrightarrow> (\<exists>t. validate_tag v = Inr t \<and> i \<in> n_id ` set (db_nodes d) \<and> (i, t) \<notin> tag_rel d))
    \<and> (\<forall>d'. add_node_tag i v d = Inr d' \<longrightarrow> tag_rel d' = insert (i, lower v) (tag_rel d))
    \<and> ((\<exists>d'. remove_node_tag i v d = Inr d') \<longleftrightarrow> (i, lower v) \<in> tag_rel d)
    \<and> (\<forall>d'. remove_node_tag i v d = Inr d' \<longrightarrow> tag_rel d' = tag_rel d - {(i, lower v)})
    \<and> (\<forall>t. validate_bulk_tag v = Inr t \<longrightarrow>
      (\<exists>d' k. bulk_add_tag ids v d = Inr (d', k)
        \<and> tag_rel d' = tag_rel d \<union> (set ids \<inter> n_id ` set (db_nodes d)) \<times> {t} \<and> k = card (tag_rel d' - tag_rel d)))
    \<and> (\<exists>d' k. bulk_remove_tag ids v d = Inr (d', k)
        \<and> tag_rel d' = tag_rel d - set ids \<times> {lower (strip v)} \<and> k = card (tag_rel d - tag_rel d'))"
proof (intro conjI)
  show "(\<exists>d'. add_node_tag i v d = Inr d')
      \<longleftrightarrow> (\<exists>t. validate_tag v = Inr t \<and> i \<in> n_id ` set (db_nodes d) \<and> (i, t) \<notin> tag_rel d)"
    by (auto simp: add_node_tag_Inr_iff)
  show "\<forall>d'. add_node_tag i v d = Inr d' \<longrightarrow> tag_rel d' = insert (i, lower v) (tag_rel d)"
    by (auto simp: add_node_tag_Inr_iff validate_tag_def split: if_splits)
  show "(\<exists>d'. remove_node_tag i v d = Inr d') \<longleftrightarrow> (i, lower v) \<in> tag_rel d"
    using assms by (auto simp: remove_node_tag_Inr_iff tags_inv_def)
  show "\<forall>d'. remove_node_tag i v d = Inr d' \<longrightarrow> tag_rel d' = tag_rel d - {(i, lower v)}"
    by (auto simp: remove_node_tag_Inr_iff)
  show "\<forall>t. validate_bulk_tag v = Inr t \<longrightarrow>
      (\<exists>d' k. bulk_add_tag ids v d = Inr (d', k)
        \<and> tag_rel d' = tag_rel d \<union> (set ids \<inter> n_id ` set (db_nodes d)) \<times> {t} \<and> k = card (tag_rel d' - tag_rel d))"
    by (intro allI impI) (rule bulk_add_tag_rel [OF assms])
qed (rule bulk_remove_tag_rel [OF assms])

text \<open>Witness: a node with one tag gets a second one.\<close>

theorem tags_refine_relation_witness:
  "\<exists>d'. add_node_tag ''n1'' ''Rack-7''
      ((empty_db [])\<lparr>db_nodes := [new_node ''n1'' ''m''], db_tags := [\<lparr>tg_node_id = ''n1'', tg_tag = ''lab''\<rparr>]\<rparr>) = Inr d'
    \<and> tag_rel d' = {(''n1'', ''rack-7''), (''n1'', ''lab'')}"
proof -
  let ?d = "(empty_db [])\<lparr>db_nodes := [new_node ''n1'' ''m''], db_tags := [\<lparr>tg_node_id = ''n1'', tg_tag = ''lab''\<rparr>]\<rparr>"
  have "tags_inv ?d"
    by (simp add: tags_inv_def keys_unique_def new_node_def stored_tag_def tag_pattern_def strip_newline_def tag_char_def
        lower_def lower_char_def)
  note t = tags_refine_relation [OF this, of "''n1''" "''Rack-7''" "[]"]
  have v: "validate_tag ''Rack-7'' = Inr ''rack-7''" and l: "lower ''Rack-7'' = ''rack-7''" by code_simp+
  have "\<exists>d'. add_node_tag ''n1'' ''Rack-7'' ?d = Inr d'"
    using t [THEN conjunct1] v by (auto simp: new_node_def)
  with t [THEN conjunct2, THEN conjunct1] l show ?thesis by auto
qed

end
