(* ===== verification/Disks.thy ===== *)
theory Disks
  imports NodeAdmin "HOL-Library.List_Lexorder"
begin

text \<open>
  The disk and partition routes of src/src/api/routes/disks.py: requesting and reporting disk
  scans, and the queue of partition operations of each device.

  A scanned disk is a dict of which the code reads the device, the size, three descriptive texts
  and the partitions; an entry that is missing is \<open>None\<close>. A partition whose data cannot be read
  (the code skips it) is \<open>None\<close> as well. Sizes are numbers and texts are texts when they are
  given. The WebSocket broadcasts and the display text of a size are left out.
\<close>

section \<open>Helpers\<close>

text \<open>\<open>urllib.parse.unquote\<close> on text whose escapes stand for ASCII characters.\<close>

definition hex_val :: "char \<Rightarrow> nat option" where
  "hex_val c = (let k = of_char c :: nat in
     if 48 \<le> k \<and> k \<le> 57 then Some (k - 48)
     else if 97 \<le> k \<and> k \<le> 102 then Some (k - 87)
     else if 65 \<le> k \<and> k \<le> 70 then Some (k - 55) else None)"

fun unquote :: "string \<Rightarrow> string" where
  "unquote (c # h # l # rest) =
     (case (if c = CHR ''%'' then hex_val h else None, hex_val l) of
        (Some a, Some b) \<Rightarrow> char_of (16 * a + b) # unquote rest
      | _ \<Rightarrow> c # unquote (h # l # rest))"
| "unquote s = s"

definition with_node :: "string \<Rightarrow> db \<Rightarrow> (node \<Rightarrow> http_error + 'a) \<Rightarrow> http_error + 'a" where
  "with_node node_id d f = (case sql_get n_id node_id (db_nodes d) of None \<Rightarrow> Inl (HTTP 404) | Some n \<Rightarrow> f n)"

text \<open>Texts in the order of the database's binary collation.\<close>

abbreviation text_key :: "string \<Rightarrow> nat list" where
  "text_key s \<equiv> map of_char s"

abbreviation disk_key :: "disk_info \<Rightarrow> string \<times> string" where
  "disk_key k \<equiv> (dk_node_id k, dk_device k)"

section \<open>Disk scans\<close>

definition list_node_disks :: "string \<Rightarrow> db \<Rightarrow> http_error + disk_info list" where
  "list_node_disks node_id d =
     with_node node_id d (\<lambda>n. Inr (sort_key (\<lambda>k. text_key (dk_device k)) (filter (\<lambda>k. dk_node_id k = node_id) (db_disks d))))"

definition get_node_disk :: "string \<Rightarrow> string \<Rightarrow> db \<Rightarrow> http_error + disk_info" where
  "get_node_disk node_id device0 d =
     (let device = unquote device0 in
      with_node node_id d (\<lambda>n.
        case sql_get disk_key (node_id, device) (db_disks d) of None \<Rightarrow> Inl (HTTP 404) | Some k \<Rightarrow> Inr k))"

definition trigger_disk_scan :: "datetime \<Rightarrow> string \<Rightarrow> db \<Rightarrow> http_error + db" where
  "trigger_disk_scan now node_id d =
     with_node node_id d (\<lambda>n. Inr (save_node (n\<lparr>n_disk_scan_requested_at := Some now\<rparr>) d))"

definition check_scan_status :: "string \<Rightarrow> db \<Rightarrow> http_error + bool" where
  "check_scan_status node_id d = with_node node_id d (\<lambda>n. Inr (n_disk_scan_requested_at n \<noteq> None))"

record scanned_disk =
  sd_device :: "string option"
  sd_size_bytes :: "int option"
  sd_model :: "string option option"
  sd_serial :: "string option option"
  sd_partition_table :: "string option option"
  sd_partitions :: "partition_info option list"

definition valid_partitions :: "scanned_disk \<Rightarrow> partition_info list option" where
  "valid_partitions s = (if sd_partitions s = [] then None else Some (List.map_filter id (sd_partitions s)))"

definition updated_disk :: "datetime \<Rightarrow> scanned_disk \<Rightarrow> disk_info \<Rightarrow> disk_info" where
  "updated_disk now s k =
     k\<lparr>dk_size_bytes := given (sd_size_bytes s) (dk_size_bytes k),
       dk_model := given (sd_model s) (dk_model k),
       dk_serial := given (sd_serial s) (dk_serial k),
       dk_partition_table := given (sd_partition_table s) (dk_partition_table k),
       dk_partitions := valid_partitions s,
       dk_scanned_at := now\<rparr>"

definition created_disk :: "datetime \<Rightarrow> string \<Rightarrow> string \<Rightarrow> scanned_disk \<Rightarrow> disk_info" where
  "created_disk now node_id device s =
     \<lparr>dk_node_id = node_id, dk_device = device, dk_size_bytes = given (sd_size_bytes s) 0,
      dk_model = given (sd_model s) None, dk_serial = given (sd_serial s) None,
      dk_partition_table = given (sd_partition_table s) None,
      dk_partitions = valid_partitions s, dk_scanned_at = now\<rparr>"

text \<open>
  The loop over the reported disks. \<open>existing\<close> is the dict of the rows found before the loop;
  rows created in the loop are not entered into it.
\<close>

record scan_state =
  ss_rows :: "disk_info list"
  ss_reported :: "string list"
  ss_created :: nat
  ss_updated :: nat

fun report_loop :: "datetime \<Rightarrow> string \<Rightarrow> string list \<Rightarrow> scanned_disk list \<Rightarrow> scan_state \<Rightarrow> scan_state" where
  "report_loop now node_id existing [] st = st"
| "report_loop now node_id existing (s # ss) st =
     (if \<not> truthy (sd_device s) then report_loop now node_id existing ss st
      else
        let device = the (sd_device s);
            st1 = st\<lparr>ss_reported := List.insert device (ss_reported st)\<rparr> in
        if device \<in> set existing
        then report_loop now node_id existing ss
               (st1\<lparr>ss_rows := map (\<lambda>k. if disk_key k = (node_id, device) then updated_disk now s k else k) (ss_rows st1),
                    ss_updated := ss_updated st1 + 1\<rparr>)
        else report_loop now node_id existing ss
               (st1\<lparr>ss_rows := ss_rows st1 @ [created_disk now node_id device s],
                    ss_created := ss_created st1 + 1\<rparr>))"

definition receive_disk_report :: "datetime \<Rightarrow> string \<Rightarrow> scanned_disk list \<Rightarrow> db \<Rightarrow> http_error + db \<times> nat \<times> nat \<times> nat" where
  "receive_disk_report now node_id disks d =
     with_node node_id d (\<lambda>n.
       let existing = map dk_device (filter (\<lambda>k. dk_node_id k = node_id) (db_disks d));
           st = report_loop now node_id existing disks
                  \<lparr>ss_rows = db_disks d, ss_reported = [], ss_created = 0, ss_updated = 0\<rparr>;
           d1 = save_node (n\<lparr>n_disk_scan_requested_at := None\<rparr>) d
       in if keys_unique disk_key (ss_rows st)
          then Inr (d1\<lparr>db_disks := ss_rows st\<rparr>, length (ss_reported st), ss_created st, ss_updated st)
          else Inl (DbFailure IntegrityError))"

section \<open>Partition operations\<close>

definition OPERATIONS :: "string list" where
  "OPERATIONS = [''resize'', ''create'', ''delete'', ''format'', ''move'', ''set_flag'']"

definition pending_on :: "string \<Rightarrow> string \<Rightarrow> partition_operation \<Rightarrow> bool" where
  "pending_on node_id device p \<longleftrightarrow> po_node_id p = node_id \<and> po_device p = device \<and> po_status p = ''pending''"

text \<open>\<open>select(func.max(sequence))\<close>, where an empty selection and zero both give zero.\<close>

definition max_sequence :: "partition_operation list \<Rightarrow> int" where
  "max_sequence ps = (if ps = [] then 0 else Max (set (map po_sequence ps)))"

definition queue_partition_operation ::
    "string \<Rightarrow> string \<Rightarrow> string \<Rightarrow> string \<Rightarrow> (string \<times> json) list \<Rightarrow> db \<Rightarrow> http_error + db \<times> int" where
  "queue_partition_operation uuid node_id device0 operation params d =
     (if operation \<notin> set OPERATIONS \<or> params = [] then Inl (HTTP 422)
      else
        let device = unquote device0 in
        with_node node_id d (\<lambda>n.
          let new_sequence = max_sequence (filter (pending_on node_id device) (db_operations d)) + 1 in
          case sql_insert po_id
                 \<lparr>po_id = uuid, po_node_id = node_id, po_device = device, po_operation = operation,
                  po_params = params, po_sequence = new_sequence, po_status = ''pending'',
                  po_error_message = None, po_executed_at = None\<rparr> (db_operations d) of
            Inl e \<Rightarrow> Inl (DbFailure e)
          | Inr ops \<Rightarrow> Inr (d\<lparr>db_operations := ops\<rparr>, new_sequence)))"

definition status_filter :: "string option \<Rightarrow> http_error + (partition_operation \<Rightarrow> bool)" where
  "status_filter status =
     (if \<not> truthy status then Inr (\<lambda>p. True)
      else if the status \<notin> {''pending'', ''running'', ''completed'', ''failed''} then Inl (HTTP 400)
      else Inr (\<lambda>p. po_status p = the status))"

definition list_partition_operations :: "string \<Rightarrow> string \<Rightarrow> string option \<Rightarrow> db \<Rightarrow> http_error + partition_operation list" where
  "list_partition_operations node_id device0 status d =
     (let device = unquote device0 in
      with_node node_id d (\<lambda>n.
        ebind (status_filter status) (\<lambda>ok.
        Inr (sort_key po_sequence
          (filter (\<lambda>p. po_node_id p = node_id \<and> po_device p = device \<and> ok p) (db_operations d))))))"

definition remove_partition_operation :: "string \<Rightarrow> string \<Rightarrow> string \<Rightarrow> db \<Rightarrow> http_error + db" where
  "remove_partition_operation node_id device0 operation_id d =
     (let device = unquote device0 in
      with_node node_id d (\<lambda>n.
        case find (\<lambda>p. po_id p = operation_id \<and> po_node_id p = node_id \<and> po_device p = device) (db_operations d) of
          None \<Rightarrow> Inl (HTTP 404)
        | Some p \<Rightarrow>
            if po_status p \<noteq> ''pending'' then Inl (HTTP 400)
            else Inr (d\<lparr>db_operations := fst (sql_delete (\<lambda>q. po_id q = operation_id) (db_operations d))\<rparr>)))"

definition apply_partition_operations :: "string \<Rightarrow> string \<Rightarrow> db \<Rightarrow> http_error + nat" where
  "apply_partition_operations node_id device0 d =
     (let device = unquote device0 in
      with_node node_id d (\<lambda>n.
        let pending_count = length (filter (pending_on node_id device) (db_operations d)) in
        if pending_count = 0 then Inl (HTTP 400) else Inr pending_count))"

definition update_operation_status ::
    "datetime \<Rightarrow> string \<Rightarrow> string \<Rightarrow> string \<Rightarrow> string option \<Rightarrow> db \<Rightarrow> http_error + db" where
  "update_operation_status now node_id operation_id status error_message d =
     with_node node_id d (\<lambda>n.
       case find (\<lambda>p. po_id p = operation_id \<and> po_node_id p = node_id) (db_operations d) of
         None \<Rightarrow> Inl (HTTP 404)
       | Some p \<Rightarrow>
           if status \<notin> {''running'', ''completed'', ''failed''} then Inl (HTTP 400)
           else Inr (d\<lparr>db_operations := fst (sql_update (\<lambda>q. po_id q = operation_id)
                  (\<lambda>q. q\<lparr>po_status := status,
                         po_error_message := (if truthy error_message then error_message else po_error_message q),
                         po_executed_at := (if status \<in> {''completed'', ''failed''} then Some now else po_executed_at q)\<rparr>)
                  (db_operations d))\<rparr>))"

text \<open>All operations of a node, by device and then by sequence number.\<close>

definition list_all_node_partition_operations :: "string \<Rightarrow> string option \<Rightarrow> db \<Rightarrow> http_error + partition_operation list" where
  "list_all_node_partition_operations node_id status d =
     with_node node_id d (\<lambda>n.
       ebind (status_filter status) (\<lambda>ok.
       Inr (sort_key (\<lambda>p. text_key (po_device p))
         (sort_key po_sequence (filter (\<lambda>p. po_node_id p = node_id \<and> ok p) (db_operations d))))))"

section \<open>Partition mode\<close>

definition update_partition_mode_status :: "string \<Rightarrow> string \<Rightarrow> db \<Rightarrow> http_error + string" where
  "update_partition_mode_status node_id status d =
     with_node node_id d (\<lambda>n.
       if status \<notin> {''online'', ''offline''} then Inl (HTTP 400)
       else Inr (if status = ''online'' then ''partition.mode_online'' else ''partition.mode_offline''))"

text \<open>The heartbeat assigns \<open>node.last_seen\<close>, which is not a column of the table.\<close>

definition partition_mode_heartbeat :: "datetime \<Rightarrow> string \<Rightarrow> db \<Rightarrow> http_error + db" where
  "partition_mode_heartbeat now node_id d = with_node node_id d (\<lambda>n. Inr (save_node n d))"

section \<open>The requests\<close>

datatype disk_request =
    TriggerDiskScan string
  | ReceiveDiskReport string "scanned_disk list"
  | QueueOperation string string string string "(string \<times> json) list"
  | RemoveOperation string string string
  | UpdateOperationStatus string string string "string option"
  | PartitionHeartbeat string

fun disk_route :: "datetime \<times> disk_request \<Rightarrow> db \<Rightarrow> http_error + db" where
  "disk_route (now, TriggerDiskScan i) d = trigger_disk_scan now i d"
| "disk_route (now, ReceiveDiskReport i ds) d = map_sum id fst (receive_disk_report now i ds d)"
| "disk_route (now, QueueOperation u i dev opn ps) d = map_sum id fst (queue_partition_operation u i dev opn ps d)"
| "disk_route (now, RemoveOperation i dev oid) d = remove_partition_operation i dev oid d"
| "disk_route (now, UpdateOperationStatus i oid st e) d = update_operation_status now i oid st e d"
| "disk_route (now, PartitionHeartbeat i) d = partition_mode_heartbeat now i d"


section \<open>The requests keep the node tables in order\<close>

lemma with_node_Inr_iff: "with_node i d f = Inr y \<longleftrightarrow> (\<exists>n. sql_get n_id i (db_nodes d) = Some n \<and> f n = Inr y)"
  by (auto simp: with_node_def split: option.splits)

lemma db_inv_disks [simp]: "db_inv (d\<lparr>db_disks := ks\<rparr>) = db_inv d" "db_inv (d\<lparr>db_operations := ps\<rparr>) = db_inv d"
  by (simp_all add: db_inv_def node_logs_def)

lemma save_scan_inv:
  "db_inv d \<Longrightarrow> sql_get n_id i (db_nodes d) = Some n \<Longrightarrow> db_inv (save_node (n\<lparr>n_disk_scan_requested_at := t\<rparr>) d)"
  "db_inv d \<Longrightarrow> sql_get n_id i (db_nodes d) = Some n \<Longrightarrow> db_inv (save_node n d)"
  by (rule save_quiet_inv; auto simp: quiet_def dest: sql_get_SomeD)+

lemma receive_disk_report_InrD:
  assumes "receive_disk_report now i ds d = Inr (d', r)"
  shows "\<exists>n rows. sql_get n_id i (db_nodes d) = Some n \<and> d' = (save_node (n\<lparr>n_disk_scan_requested_at := None\<rparr>) d)\<lparr>db_disks := rows\<rparr>"
  using assms unfolding receive_disk_report_def with_node_Inr_iff Let_def by (auto split: if_splits)

lemma receive_disk_report_inv: "db_inv d \<Longrightarrow> receive_disk_report now i ds d = Inr (d', r) \<Longrightarrow> db_inv d'"
  by (drule receive_disk_report_InrD) (use save_scan_inv(1) in force)

lemma disk_route_inv: "db_inv d \<Longrightarrow> disk_route q d = Inr d' \<Longrightarrow> db_inv d'"
  by (cases q; cases "snd q")
    (auto simp: trigger_disk_scan_def queue_partition_operation_def remove_partition_operation_def
      update_operation_status_def partition_mode_heartbeat_def with_node_Inr_iff Let_def
      intro: save_scan_inv receive_disk_report_inv
      dest!: map_sum_fst_InrD split: if_splits option.splits sum.splits)

interpretation disk_api: transactional disk_route db_inv
  by unfold_locales (rule disk_route_inv)

section \<open>The operations of a device are a queue\<close>

definition ops_inv :: "db \<Rightarrow> bool" where
  "ops_inv d \<longleftrightarrow> keys_unique po_id (db_operations d)
     \<and> (\<forall>i dev. sorted_wrt (<) (map po_sequence (filter (pending_on i dev) (db_operations d))))"

lemma max_sequence_ge: "p \<in> set ps \<Longrightarrow> po_sequence p \<le> max_sequence ps"
  by (auto simp: max_sequence_def)

lemma sorted_wrt_snoc_max:
  assumes "sorted_wrt (<) (map po_sequence ps)" and "po_sequence p = max_sequence ps + 1"
  shows "sorted_wrt (<) (map po_sequence (ps @ [p]))"
  using assms max_sequence_ge [of _ ps] by (fastforce simp: sorted_wrt_append)

lemma filter_settled:
  assumes "\<And>q. P (f q) \<Longrightarrow> False"
  shows "filter P (map (\<lambda>q. if k q then f q else q) qs) = filter (\<lambda>q. \<not> k q) (filter P qs)"
  using assms by (induction qs) auto

lemma ops_inv_queue:
  assumes "ops_inv d" and "queue_partition_operation u i dev opn ps d = Inr (d', k)"
  shows "ops_inv d'"
proof -
  let ?dev = "unquote dev" and ?ops = "db_operations d"
  obtain p where p: "d' = d\<lparr>db_operations := ?ops @ [p]\<rparr>" "po_id p \<notin> po_id ` set ?ops"
    "po_sequence p = max_sequence (filter (pending_on i ?dev) ?ops) + 1" "po_node_id p = i" "po_device p = ?dev"
    using assms(2) by (force simp: queue_partition_operation_def with_node_Inr_iff sql_insert_def Let_def split: if_splits)
  have "sorted_wrt (<) (map po_sequence (filter (pending_on j e) (?ops @ [p])))" for j e
  proof (cases "pending_on j e p")
    case True
    then have "j = i" "e = ?dev" using p by (simp_all add: pending_on_def)
    with True p(3) assms(1) sorted_wrt_snoc_max [of "filter (pending_on i ?dev) ?ops" p] show ?thesis
      by (simp add: ops_inv_def)
  qed (use assms(1) in \<open>simp add: ops_inv_def\<close>)
  moreover have "keys_unique po_id (?ops @ [p])" using assms(1) p(2) by (auto simp: ops_inv_def keys_unique_def)
  ultimately show ?thesis by (simp add: ops_inv_def p(1))
qed

lemma ops_inv_filter:
  assumes "ops_inv d"
  shows "ops_inv (d\<lparr>db_operations := filter P (db_operations d)\<rparr>)"
proof -
  have "filter (pending_on i dev) (filter P (db_operations d)) = filter P (filter (pending_on i dev) (db_operations d))" for i dev
    by (simp add: conj_commute)
  with assms show ?thesis
    by (simp add: ops_inv_def keys_unique_filter sorted_wrt_map sorted_wrt_filter del: filter_filter)
qed

lemma ops_inv_status:
  assumes "ops_inv d" and "\<And>q. po_id (f q) = po_id q" and "\<And>q. po_status (f q) \<noteq> ''pending''"
  shows "ops_inv (d\<lparr>db_operations := fst (sql_update (\<lambda>q. po_id q = oid) f (db_operations d))\<rparr>)"
proof -
  have "filter (pending_on i dev) (fst (sql_update (\<lambda>q. po_id q = oid) f (db_operations d)))
      = filter (\<lambda>q. po_id q \<noteq> oid) (filter (pending_on i dev) (db_operations d))" for i dev
    unfolding sql_update_def fst_conv by (rule filter_settled) (use assms(3) in \<open>auto simp: pending_on_def\<close>)
  with assms(1,2) show ?thesis
    by (simp add: ops_inv_def keys_unique_update sorted_wrt_map sorted_wrt_filter del: filter_filter)
qed

lemma ops_inv_save [simp]: "ops_inv (save_node n d) = ops_inv d" "ops_inv (d\<lparr>db_disks := ks\<rparr>) = ops_inv d"
  by (simp_all add: ops_inv_def save_node_def)

lemma disk_route_ops: "ops_inv d \<Longrightarrow> disk_route q d = Inr d' \<Longrightarrow> ops_inv d'"
  by (cases q; cases "snd q")
    (auto simp: trigger_disk_scan_def receive_disk_report_def remove_partition_operation_def update_operation_status_def
      partition_mode_heartbeat_def with_node_Inr_iff Let_def sql_delete_def
      intro!: ops_inv_filter ops_inv_status intro: ops_inv_queue dest!: map_sum_fst_InrD split: if_splits option.splits)


interpretation disk_queue: transactional disk_route ops_inv
  by unfold_locales (rule disk_route_ops)

lemma list_pending_eq:
  assumes "ops_inv d" and "i \<in> n_id ` set (db_nodes d)"
  shows "list_partition_operations i dev (Some ''pending'') d = Inr (filter (pending_on i (unquote dev)) (db_operations d))"
proof -
  have "sort_key po_sequence (filter (pending_on i e) (db_operations d)) = filter (pending_on i e) (db_operations d)" for e
    using assms(1) by (intro sort_key_id_if_sorted) (auto simp: ops_inv_def intro: strict_sorted_imp_sorted)
  moreover have "(\<lambda>p. po_node_id p = i \<and> po_device p = e \<and> po_status p = ''pending'') = pending_on i e" for e
    by (simp add: fun_eq_iff pending_on_def)
  moreover obtain n where "sql_get n_id i (db_nodes d) = Some n" using assms(2) node_found_iff by metis
  ultimately show ?thesis
    by (simp add: list_partition_operations_def status_filter_def with_node_def)
qed

lemma find_pending_idD:
  "find (\<lambda>p. po_id p = oid \<and> P p) ps = Some p \<Longrightarrow> p \<in> set ps \<and> po_id p = oid \<and> P p"
  by (auto simp: find_Some_iff)

lemma list_after_queue:
  assumes "ops_inv d" and "queue_partition_operation u i dev opn prm d = Inr (d', k)"
  shows "\<exists>p. list_partition_operations i dev (Some ''pending'') d' = Inr (filter (pending_on i (unquote dev)) (db_operations d) @ [p])
    \<and> po_id p = u \<and> po_operation p = opn \<and> po_params p = prm \<and> po_sequence p = k"
proof -
  obtain p n where p: "d' = d\<lparr>db_operations := db_operations d @ [p]\<rparr>" "po_id p = u" "po_operation p = opn" "po_params p = prm"
    "po_sequence p = k" "pending_on i (unquote dev) p" and n: "sql_get n_id i (db_nodes d) = Some n"
    using assms(2)
    by (force simp: queue_partition_operation_def with_node_Inr_iff sql_insert_def pending_on_def Let_def split: if_splits)
  have "i \<in> n_id ` set (db_nodes d')" using n p(1) by (force dest: sql_get_SomeD)
  from list_pending_eq [OF ops_inv_queue [OF assms] this] p show ?thesis by simp
qed

lemma list_after_removal:
  assumes "ops_inv d" and "remove_partition_operation i dev oid d = Inr d' \<or> update_operation_status now i oid st err d = Inr d'"
  shows "list_partition_operations i dev (Some ''pending'') d' =
    Inr (filter (\<lambda>p. po_id p \<noteq> oid) (filter (pending_on i (unquote dev)) (db_operations d)))"
proof -
  have inv: "ops_inv d'"
    using assms disk_route_ops [of d "(now, RemoveOperation i dev oid)" d'] disk_route_ops [of d "(now, UpdateOperationStatus i oid st err)" d']
    by auto
  have "filter (pending_on i e) (db_operations d') = filter (\<lambda>p. po_id p \<noteq> oid) (filter (pending_on i e) (db_operations d))" for e
    using assms(2)
  proof
    assume "remove_partition_operation i dev oid d = Inr d'"
    then show ?thesis
      by (auto simp: remove_partition_operation_def with_node_Inr_iff sql_delete_def conj_commute split: option.splits if_splits)
  next
    assume "update_operation_status now i oid st err d = Inr d'"
    then show ?thesis
      by (auto simp: update_operation_status_def with_node_Inr_iff sql_update_def pending_on_def simp del: filter_filter
          intro!: filter_settled split: option.splits if_splits)
  qed
  moreover have "i \<in> n_id ` set (db_nodes d')"
    using assms(2) by (force simp: remove_partition_operation_def update_operation_status_def with_node_Inr_iff dest: sql_get_SomeD
        split: option.splits if_splits)
  ultimately show ?thesis using list_pending_eq [OF inv] by simp
qed

text \<open>
  C18: The pending operations of a device are a first-in first-out queue. After any sequence of
  requests their sequence numbers increase strictly, the listing gives them in the order in which
  they were queued, a new operation comes last under the number it was told, and removing an
  operation, or its node reporting that it has begun or ended, takes out exactly that one.
\<close>

theorem pending_operations_fifo:
  assumes "db_operations d0 = []" and "i \<in> n_id ` set (db_nodes (serve disk_route qs d0))"
  shows "\<exists>ps. list_partition_operations i dev (Some ''pending'') (serve disk_route qs d0) = Inr ps
    \<and> ps = filter (pending_on i (unquote dev)) (db_operations (serve disk_route qs d0))
    \<and> sorted_wrt (<) (map po_sequence ps)
    \<and> (\<forall>u opn prm d' k. queue_partition_operation u i dev opn prm (serve disk_route qs d0) = Inr (d', k) \<longrightarrow>
        (\<exists>p. list_partition_operations i dev (Some ''pending'') d' = Inr (ps @ [p])
          \<and> po_id p = u \<and> po_operation p = opn \<and> po_params p = prm \<and> po_sequence p = k))
    \<and> (\<forall>oid now st err d'. remove_partition_operation i dev oid (serve disk_route qs d0) = Inr d'
        \<or> update_operation_status now i oid st err (serve disk_route qs d0) = Inr d' \<longrightarrow>
        list_partition_operations i dev (Some ''pending'') d' = Inr (filter (\<lambda>p. po_id p \<noteq> oid) ps))"
proof -
  have inv: "ops_inv (serve disk_route qs d0)"
    by (rule disk_queue.serve_inv) (simp add: ops_inv_def keys_unique_def assms(1))
  moreover have "sorted_wrt (<) (map po_sequence (filter (pending_on i (unquote dev)) (db_operations (serve disk_route qs d0))))"
    using inv unfolding ops_inv_def by blast
  ultimately show ?thesis
    using list_pending_eq [OF inv assms(2)] list_after_queue [OF inv] list_after_removal [OF inv]
    by (intro exI [of _ "filter (pending_on i (unquote dev)) (db_operations (serve disk_route qs d0))"] conjI allI impI) blast+
qed

theorem pending_operations_fifo_witness:
  "\<exists>p q. list_partition_operations ''n1'' ''/dev/sda'' (Some ''pending'')
      (serve disk_route [(0, QueueOperation ''a'' ''n1'' ''/dev/sda'' ''delete'' [(''partition'', JInt 2)]),
          (1, QueueOperation ''b'' ''n1'' ''%2Fdev%2Fsda'' ''resize'' [(''partition'', JInt 1)])]
        ((empty_db [])\<lparr>db_nodes := [new_node ''n1'' ''m'']\<rparr>)) = Inr [p, q] \<and> po_id p = ''a'' \<and> po_id q = ''b''"
proof -
  let ?d = "serve disk_route [(0, QueueOperation ''a'' ''n1'' ''/dev/sda'' ''delete'' [(''partition'', JInt 2)]),
          (1, QueueOperation ''b'' ''n1'' ''%2Fdev%2Fsda'' ''resize'' [(''partition'', JInt 1)])]
        ((empty_db [])\<lparr>db_nodes := [new_node ''n1'' ''m'']\<rparr>)"
  have u: "unquote ''/dev/sda'' = ''/dev/sda''" "unquote ''%2Fdev%2Fsda'' = ''/dev/sda''"
    by (code_simp, code_simp)
  note defs = get_db_def queue_partition_operation_def OPERATIONS_def with_node_def sql_get_def new_node_def empty_db_def
    sql_insert_def u max_sequence_def pending_on_def Let_def
  have n: "''n1'' \<in> n_id ` set (db_nodes ?d)" by (simp add: defs del: unquote.simps)
  have l: "map po_id (filter (pending_on ''n1'' ''/dev/sda'') (db_operations ?d)) = [''a'', ''b'']" by (simp add: defs del: unquote.simps)
  obtain ps where ps: "list_partition_operations ''n1'' ''/dev/sda'' (Some ''pending'') ?d = Inr ps"
      "ps = filter (pending_on ''n1'' ''/dev/sda'') (db_operations ?d)"
    using pending_operations_fifo [OF _ n, of "''/dev/sda''"] u by (auto simp: empty_db_def simp del: unquote.simps)
  from ps(2) l have "map po_id ps = [''a'', ''b'']" by simp
  then obtain p q where "ps = [p, q]" "po_id p = ''a''" "po_id q = ''b''" by (cases ps; cases "tl ps") auto
  with ps(1) show ?thesis by blast
qed


section \<open>Disk reports\<close>

abbreviation device_of :: "scanned_disk \<Rightarrow> string" where
  "device_of s \<equiv> the (sd_device s)"

definition named :: "scanned_disk list \<Rightarrow> scanned_disk list" where
  "named ss = filter (\<lambda>s. truthy (sd_device s)) ss"

definition merged :: "datetime \<Rightarrow> string \<Rightarrow> scanned_disk \<Rightarrow> disk_info option \<Rightarrow> disk_info" where
  "merged now node_id s old =
     (case old of Some k \<Rightarrow> updated_disk now s k | None \<Rightarrow> created_disk now node_id (device_of s) s)"

lemma updated_disk_key [simp]: "dk_node_id (updated_disk now s k) = dk_node_id k" "dk_device (updated_disk now s k) = dk_device k"
  by (simp_all add: updated_disk_def)

lemma updated_keys [simp]:
  "disk_key \<circ> (\<lambda>k. if dk_node_id k = i \<and> dk_device k = dev then updated_disk now s k else k) = disk_key"
  by (auto simp: fun_eq_iff)

lemma report_loop_keys:
  "map disk_key (ss_rows (report_loop now i ex ss st)) =
     map disk_key (ss_rows st) @ map (\<lambda>s. (i, device_of s)) (filter (\<lambda>s. device_of s \<notin> set ex) (named ss))"
  by (induction ss arbitrary: st) (simp_all add: named_def Let_def created_disk_def)

lemma report_loop_counts:
  "ss_created (report_loop now i ex ss st) = ss_created st + length (filter (\<lambda>s. device_of s \<notin> set ex) (named ss))"
  "ss_updated (report_loop now i ex ss st) = ss_updated st + length (filter (\<lambda>s. device_of s \<in> set ex) (named ss))"
  "set (ss_reported (report_loop now i ex ss st)) = set (ss_reported st) \<union> device_of ` set (named ss)"
  "distinct (ss_reported (report_loop now i ex ss st)) = distinct (ss_reported st)"
  by (induction ss arbitrary: st) (auto simp: named_def Let_def)

lemma sql_get_map_updated:
  "sql_get disk_key k (map (\<lambda>r. if disk_key r = a then updated_disk now s r else r) rows) =
     (if k = a then map_option (updated_disk now s) (sql_get disk_key k rows) else sql_get disk_key k rows)"
  by (induction rows) (auto simp: sql_get_def)

lemma report_loop_lookup:
  assumes "distinct (map device_of (named ss))"
    and "\<forall>s \<in> set (named ss). device_of s \<in> set ex \<longleftrightarrow> (i, device_of s) \<in> disk_key ` set (ss_rows st)"
  shows "sql_get disk_key k (ss_rows (report_loop now i ex ss st)) =
    (case find (\<lambda>s. (i, device_of s) = k) (named ss) of
       None \<Rightarrow> sql_get disk_key k (ss_rows st)
     | Some s \<Rightarrow> Some (merged now i s (sql_get disk_key k (ss_rows st))))"
  using assms
proof (induction ss arbitrary: st)
  case (Cons s ss)
  let ?dev = "device_of s"
  show ?case
  proof (cases "truthy (sd_device s)")
    case True
    then have nm: "named (s # ss) = s # named ss" by (simp add: named_def)
    then have d: "distinct (map device_of (named ss))" "\<forall>s' \<in> set (named ss). device_of s' \<noteq> ?dev"
      using Cons.prems(1) by (auto dest: not_in_imageD)
    then have nf: "find (\<lambda>s. (i, device_of s) = (i, ?dev)) (named ss) = None" by (auto simp: find_None_iff)
    show ?thesis
    proof (cases "?dev \<in> set ex")
      case e: True
      let ?st = "st\<lparr>ss_reported := List.insert ?dev (ss_reported st),
        ss_rows := map (\<lambda>k. if disk_key k = (i, ?dev) then updated_disk now s k else k) (ss_rows st), ss_updated := ss_updated st + 1\<rparr>"
      have "map disk_key (ss_rows ?st) = map disk_key (ss_rows st)" by simp
      then have keys: "disk_key ` set (ss_rows ?st) = disk_key ` set (ss_rows st)" unfolding set_map [symmetric] by (rule arg_cong)
      have "\<forall>s' \<in> set (named ss). device_of s' \<in> set ex \<longleftrightarrow> (i, device_of s') \<in> disk_key ` set (ss_rows ?st)"
        unfolding keys using Cons.prems(2) nm by simp
      note ih = Cons.IH [OF d(1) this]
      have "sql_get disk_key (i, ?dev) (ss_rows st) \<noteq> None"
        using Cons.prems(2) e nm unfolding sql_get_None_iff by simp
      then obtain r where "sql_get disk_key (i, ?dev) (ss_rows st) = Some r" by blast
      moreover have "report_loop now i ex (s # ss) st = report_loop now i ex ss ?st" using True e by (simp add: Let_def)
      moreover have "sql_get disk_key k (ss_rows ?st) = (if k = (i, ?dev) then map_option (updated_disk now s) (sql_get disk_key k (ss_rows st))
          else sql_get disk_key k (ss_rows st))" using sql_get_map_updated [of k "(i, ?dev)" now s "ss_rows st"] by simp
      ultimately show ?thesis
        using ih nm nf by (cases "k = (i, ?dev)") (auto simp: merged_def split: option.splits)
    next
      case e: False
      let ?st = "st\<lparr>ss_reported := List.insert ?dev (ss_reported st),
        ss_rows := ss_rows st @ [created_disk now i ?dev s], ss_created := ss_created st + 1\<rparr>"
      have new: "(i, ?dev) \<notin> disk_key ` set (ss_rows st)" using Cons.prems(2) e nm by simp
      have "\<forall>s' \<in> set (named ss). device_of s' \<in> set ex \<longleftrightarrow> (i, device_of s') \<in> disk_key ` set (ss_rows ?st)"
        using Cons.prems(2) nm d(2) by (simp add: created_disk_def)
      note ih = Cons.IH [OF d(1) this]
      moreover have "sql_get disk_key k (ss_rows ?st) = (if k = (i, ?dev) then Some (created_disk now i ?dev s) else sql_get disk_key k (ss_rows st))"
        using new sql_get_append [of disk_key "created_disk now i ?dev s" "ss_rows st" k] by (simp add: created_disk_def)
      moreover have "sql_get disk_key (i, ?dev) (ss_rows st) = None" by (rule sql_get_None_iff [THEN iffD2, OF new])
      moreover have "report_loop now i ex (s # ss) st = report_loop now i ex ss ?st" using True e by (simp add: Let_def)
      ultimately show ?thesis
        using nm nf by (cases "k = (i, ?dev)") (auto simp: merged_def split: option.splits)
    qed
  qed (use Cons in \<open>simp add: named_def\<close>)
qed (simp add: named_def)


definition the_existing :: "string \<Rightarrow> db \<Rightarrow> string list" where
  "the_existing i d = map dk_device (filter (\<lambda>k. dk_node_id k = i) (db_disks d))"

lemma the_existing_iff: "dev \<in> set (the_existing i d) \<longleftrightarrow> (i, dev) \<in> disk_key ` set (db_disks d)"
  by (auto simp: the_existing_def image_iff)

text \<open>
  A disk report brings the scanned disks of the node up to date. It is accepted exactly when
  no disk that is new to the controller is named twice; then, if every device is named once, each
  reported disk is stored with what the report says of it, keeping what it does not mention, every
  other disk, of this and of any other node, stays as it was, the scan request is cleared and the
  two counts are those of the new and of the known devices.
\<close>

theorem disk_report_upserts:
  assumes "keys_unique disk_key (db_disks d)" and "sql_get n_id i (db_nodes d) = Some n"
  shows "((\<exists>r. receive_disk_report now i ss d = Inr r)
      \<longleftrightarrow> distinct (filter (\<lambda>dev. (i, dev) \<notin> disk_key ` set (db_disks d)) (map device_of (named ss))))
    \<and> (distinct (map device_of (named ss)) \<longrightarrow>
       (\<exists>d' reported created updated. receive_disk_report now i ss d = Inr (d', reported, created, updated)
          \<and> (\<forall>k. sql_get disk_key k (db_disks d') =
               (case find (\<lambda>s. (i, device_of s) = k) (named ss) of
                  None \<Rightarrow> sql_get disk_key k (db_disks d)
                | Some s \<Rightarrow> Some (merged now i s (sql_get disk_key k (db_disks d)))))
          \<and> sql_get n_id i (db_nodes d') = Some (n\<lparr>n_disk_scan_requested_at := None\<rparr>)
          \<and> created = length (filter (\<lambda>s. (i, device_of s) \<notin> disk_key ` set (db_disks d)) (named ss))
          \<and> created + updated = length (named ss) \<and> reported = length (named ss)))"
proof -
  let ?ex = "the_existing i d"
  let ?st = "\<lparr>ss_rows = db_disks d, ss_reported = [], ss_created = 0, ss_updated = 0\<rparr>"
  let ?r = "report_loop now i ?ex ss ?st"
  have run: "receive_disk_report now i ss d =
      (if keys_unique disk_key (ss_rows ?r)
       then Inr ((save_node (n\<lparr>n_disk_scan_requested_at := None\<rparr>) d)\<lparr>db_disks := ss_rows ?r\<rparr>,
              length (ss_reported ?r), ss_created ?r, ss_updated ?r)
       else Inl (DbFailure IntegrityError))"
    using assms(2) by (simp add: receive_disk_report_def with_node_def the_existing_def Let_def)
  have k: "keys_unique disk_key (ss_rows ?r) \<longleftrightarrow>
      distinct (filter (\<lambda>dev. (i, dev) \<notin> disk_key ` set (db_disks d)) (map device_of (named ss)))"
    using assms(1) unfolding keys_unique_def report_loop_keys
    by (auto simp: the_existing_iff distinct_map inj_on_def filter_map comp_def)
  have c: "ss_created ?r = length (filter (\<lambda>s. (i, device_of s) \<notin> disk_key ` set (db_disks d)) (named ss))"
      "ss_created ?r + ss_updated ?r = length (named ss)"
    using report_loop_counts(1,2) [of now i ?ex ss ?st] sum_length_filter_compl [of "\<lambda>s. device_of s \<in> set ?ex" "named ss"]
    by (simp_all add: the_existing_iff)
  have "length (ss_reported ?r) = length (named ss)" if "distinct (map device_of (named ss))"
    using report_loop_counts(3,4) [of now i ?ex ss ?st] that
    by (metis distinct.simps(1) distinct_card length_map scan_state.select_convs(2) set_empty2 set_map sup_bot_left)
  moreover have "sql_get disk_key k (ss_rows ?r) = (case find (\<lambda>s. (i, device_of s) = k) (named ss) of
      None \<Rightarrow> sql_get disk_key k (db_disks d) | Some s \<Rightarrow> Some (merged now i s (sql_get disk_key k (db_disks d))))"
    if "distinct (map device_of (named ss))" for k
    using report_loop_lookup [OF that, of ?ex i ?st k now] by (simp add: the_existing_iff cong: option.case_cong)
  moreover have "sql_get n_id i (db_nodes (save_node (n\<lparr>n_disk_scan_requested_at := None\<rparr>) d)) = Some (n\<lparr>n_disk_scan_requested_at := None\<rparr>)"
    using assms(2) by (induction "db_nodes d") (auto simp: save_node_def sql_get_def find_Some_iff)
  moreover have "keys_unique disk_key (ss_rows ?r)" if "distinct (map device_of (named ss))"
    using k that by (simp add: distinct_filter)
  ultimately show ?thesis using run k c by auto
qed


definition demo_scan :: "string \<Rightarrow> int \<Rightarrow> scanned_disk" where
  "demo_scan dev k = \<lparr>sd_device = Some dev, sd_size_bytes = Some k, sd_model = None, sd_serial = None,
     sd_partition_table = None, sd_partitions = []\<rparr>"

text \<open>Witness: a first report of two disks is stored, one that names a new disk twice is refused.\<close>

theorem disk_report_upserts_witness:
  "(\<exists>d' r. receive_disk_report 5 ''n1'' [demo_scan ''sda'' 100, demo_scan ''sdb'' 200]
       ((empty_db [])\<lparr>db_nodes := [new_node ''n1'' ''m'']\<rparr>) = Inr (d', r)
     \<and> map_option dk_size_bytes (sql_get disk_key (''n1'', ''sdb'') (db_disks d')) = Some 200)
   \<and> (\<nexists>r. receive_disk_report 5 ''n1'' [demo_scan ''sda'' 100, demo_scan ''sda'' 100]
       ((empty_db [])\<lparr>db_nodes := [new_node ''n1'' ''m'']\<rparr>) = Inr r)"
proof -
  let ?d = "(empty_db [])\<lparr>db_nodes := [new_node ''n1'' ''m'']\<rparr>"
  have u: "keys_unique disk_key (db_disks ?d)" "sql_get n_id ''n1'' (db_nodes ?d) = Some (new_node ''n1'' ''m'')"
    by (simp_all add: empty_db_def keys_unique_def sql_get_def new_node_def)
  note p = disk_report_upserts [OF u, of 5]
  have n: "named [demo_scan ''sda'' 100, demo_scan ''sdb'' 200] = [demo_scan ''sda'' 100, demo_scan ''sdb'' 200]"
    "named [demo_scan ''sda'' 100, demo_scan ''sda'' 100] = [demo_scan ''sda'' 100, demo_scan ''sda'' 100]"
    by (simp_all add: named_def demo_scan_def)
  have "distinct (map device_of [demo_scan ''sda'' 100, demo_scan ''sdb'' 200])" by (simp add: demo_scan_def)
  then obtain d' r where d': "receive_disk_report 5 ''n1'' [demo_scan ''sda'' 100, demo_scan ''sdb'' 200] ?d = Inr (d', r)"
    "sql_get disk_key (''n1'', ''sdb'') (db_disks d') =
      (case find (\<lambda>s. (''n1'', device_of s) = (''n1'', ''sdb'')) [demo_scan ''sda'' 100, demo_scan ''sdb'' 200] of
         None \<Rightarrow> sql_get disk_key (''n1'', ''sdb'') (db_disks ?d)
       | Some s \<Rightarrow> Some (merged 5 ''n1'' s (sql_get disk_key (''n1'', ''sdb'') (db_disks ?d))))"
    using p [of "[demo_scan ''sda'' 100, demo_scan ''sdb'' 200]", THEN conjunct2] unfolding n by blast
  then have "map_option dk_size_bytes (sql_get disk_key (''n1'', ''sdb'') (db_disks d')) = Some 200"
    by (simp add: merged_def created_disk_def demo_scan_def given_def empty_db_def sql_get_def)
  moreover have "\<nexists>r. receive_disk_report 5 ''n1'' [demo_scan ''sda'' 100, demo_scan ''sda'' 100] ?d = Inr r"
    using p [of "[demo_scan ''sda'' 100, demo_scan ''sda'' 100]", THEN conjunct1] unfolding n by (simp add: empty_db_def)
  ultimately show ?thesis using d'(1) by blast
qed

end
