(* ===== verification/ResizePlan.thy ===== *)
theory ResizePlan
  imports Inventory
begin

text \<open>
  The partition resize plan of a clone, \<open>_generate_resize_plan\<close> of src/src/api/routes/clone.py: the
  partitions of the source disk are kept, the last resizable one is grown, or the resizable ones
  are shrunk from the last to the first until the source fits the target. The main result is that
  a plan called feasible fits: partitions that fit the source disk still fit the target after it.
\<close>

definition plan_item_of :: "partition_info \<Rightarrow> plan_item" where
  "plan_item_of p =
     \<lparr>pp_partition = pt_number p, pp_current_size_bytes = pt_size_bytes p, pp_new_size_bytes = pt_size_bytes p,
      pp_filesystem = pt_filesystem p, pp_action = ''keep'', pp_min_size_bytes = pt_min_size_bytes p,
      pp_can_resize = pt_can_shrink p\<rparr>"

definition growable :: "plan_item \<Rightarrow> bool" where
  "growable p \<longleftrightarrow> pp_can_resize p \<and> pp_filesystem p \<in> {Some ''ext4'', Some ''xfs'', Some ''btrfs'', Some ''ntfs''}"

text \<open>The loops run over the partitions from the last to the first.\<close>

fun grow_loop :: "int \<Rightarrow> plan_item list \<Rightarrow> plan_item list" where
  "grow_loop extra [] = []"
| "grow_loop extra (p # ps) =
     (if growable p
      then p\<lparr>pp_new_size_bytes := pp_current_size_bytes p + extra, pp_action := ''grow''\<rparr> # ps
      else p # grow_loop extra ps)"

text \<open>The bytes a partition can give up; a partition that cannot shrink gives none.\<close>

definition shrink_potential :: "plan_item \<Rightarrow> int" where
  "shrink_potential p =
     (case (if pp_can_resize p then pp_min_size_bytes p else None) of
        None \<Rightarrow> 0
      | Some m \<Rightarrow> if pp_current_size_bytes p - m > 0 then pp_current_size_bytes p - m else 0)"

definition total_shrinkable :: "plan_item list \<Rightarrow> int" where
  "total_shrinkable ps = sum_list (map shrink_potential ps)"

fun shrink_loop :: "int \<Rightarrow> plan_item list \<Rightarrow> plan_item list" where
  "shrink_loop remaining [] = []"
| "shrink_loop remaining (p # ps) =
     (if remaining \<le> 0 then p # ps
      else if shrink_potential p > 0
      then (let amount = min (shrink_potential p) remaining in
            p\<lparr>pp_new_size_bytes := pp_current_size_bytes p - amount, pp_action := ''shrink''\<rparr>
              # shrink_loop (remaining - amount) ps)
      else p # shrink_loop remaining ps)"

definition generate_resize_plan :: "disk_info \<Rightarrow> disk_info option \<Rightarrow> string \<Rightarrow> resize_plan" where
  "generate_resize_plan source target resize_mode =
     (let source_size = dk_size_bytes source;
          target_size = (case target of None \<Rightarrow> source_size | Some t \<Rightarrow> dk_size_bytes t);
          partitions = map plan_item_of (case dk_partitions source of None \<Rightarrow> [] | Some ps \<Rightarrow> ps)
      in
      if target_size \<ge> source_size
      then \<lparr>rp_source_disk_bytes = source_size, rp_target_disk_bytes = target_size, rp_resize_mode = resize_mode,
            rp_partitions = (if resize_mode = ''grow_target'' \<and> target_size > source_size
                             then rev (grow_loop (target_size - source_size) (rev partitions)) else partitions),
            rp_feasible = True, rp_error_message = None\<rparr>
      else
        let size_to_reduce = source_size - target_size in
        if total_shrinkable partitions < size_to_reduce
        then \<lparr>rp_source_disk_bytes = source_size, rp_target_disk_bytes = target_size, rp_resize_mode = ''shrink_source'',
              rp_partitions = partitions, rp_feasible = False,
              rp_error_message = Some (''Cannot shrink partitions enough. Need to reduce '' @ show_int size_to_reduce
                @ '' bytes but only '' @ show_int (total_shrinkable partitions) @ '' bytes available for shrinking.'')\<rparr>
        else \<lparr>rp_source_disk_bytes = source_size, rp_target_disk_bytes = target_size, rp_resize_mode = ''shrink_source'',
              rp_partitions = rev (shrink_loop size_to_reduce (rev partitions)),
              rp_feasible = True, rp_error_message = None\<rparr>)"

section \<open>The loops\<close>

abbreviation new_total :: "plan_item list \<Rightarrow> int" where
  "new_total ps \<equiv> sum_list (map pp_new_size_bytes ps)"

text \<open>What a plan may do to one partition.\<close>

definition resized :: "plan_item \<Rightarrow> plan_item \<Rightarrow> bool" where
  "resized p q \<longleftrightarrow>
     q = p
   \<or> pp_can_resize p \<and> pp_new_size_bytes q > pp_current_size_bytes p \<and> growable p
       \<and> q = p\<lparr>pp_new_size_bytes := pp_new_size_bytes q, pp_action := ''grow''\<rparr>
   \<or> pp_can_resize p \<and> pp_new_size_bytes q < pp_current_size_bytes p
       \<and> (\<exists>m. pp_min_size_bytes p = Some m \<and> m \<le> pp_new_size_bytes q)
       \<and> q = p\<lparr>pp_new_size_bytes := pp_new_size_bytes q, pp_action := ''shrink''\<rparr>"

lemma shrink_potential_nonneg: "0 \<le> shrink_potential p"
  by (auto simp: shrink_potential_def split: option.splits)

lemma shrink_potential_pos:
  "0 < shrink_potential p \<Longrightarrow>
   pp_can_resize p \<and> (\<exists>m. pp_min_size_bytes p = Some m \<and> shrink_potential p = pp_current_size_bytes p - m)"
  by (auto simp: shrink_potential_def split: option.splits if_splits)

lemma shrink_loop_resized: "list_all2 resized ps (shrink_loop r ps)"
proof (induction ps arbitrary: r)
  case (Cons p ps)
  have "resized p (p\<lparr>pp_new_size_bytes := pp_current_size_bytes p - min (shrink_potential p) r, pp_action := ''shrink''\<rparr>)"
    if "0 < shrink_potential p" "0 < r"
    using shrink_potential_pos [OF that(1)] that by (auto simp: resized_def min_def)
  moreover have "resized q q" for q by (simp add: resized_def)
  ultimately show ?case using Cons by (auto simp: Let_def list_all2_refl)
qed simp

lemma shrink_loop_total:
  assumes "\<forall>p \<in> set ps. pp_new_size_bytes p = pp_current_size_bytes p" and "0 \<le> r" and "r \<le> sum_list (map shrink_potential ps)"
  shows "new_total (shrink_loop r ps) = new_total ps - r"
  using assms
proof (induction ps arbitrary: r)
  case (Cons p ps)
  have n: "0 \<le> sum_list (map shrink_potential ps)" by (auto intro!: sum_list_nonneg simp: shrink_potential_nonneg)
  show ?case
    using Cons shrink_potential_nonneg [of p] n by (auto simp: Let_def min_def)
qed simp

lemma grow_loop_resized: "0 < extra \<Longrightarrow> list_all2 resized ps (grow_loop extra ps)"
  by (induction ps) (auto simp: resized_def growable_def list_all2_refl)

lemma grow_loop_total:
  assumes "\<forall>p \<in> set ps. pp_new_size_bytes p = pp_current_size_bytes p"
  shows "new_total (grow_loop extra ps) = new_total ps + (if \<exists>p \<in> set ps. growable p then extra else 0)"
  using assms by (induction ps) auto

lemma list_all2_rev_swap: "list_all2 P (rev xs) ys \<Longrightarrow> list_all2 P xs (rev ys)"
  by (metis list_all2_rev rev_rev_ident)


section \<open>Feasible plans fit\<close>

definition source_parts :: "disk_info \<Rightarrow> plan_item list" where
  "source_parts source = map plan_item_of (case dk_partitions source of None \<Rightarrow> [] | Some ps \<Rightarrow> ps)"

lemma source_parts_keep: "p \<in> set (source_parts source) \<Longrightarrow> pp_new_size_bytes p = pp_current_size_bytes p"
  by (auto simp: source_parts_def plan_item_of_def)

lemma total_shrinkable_rev: "total_shrinkable ps = sum_list (map shrink_potential (rev ps))"
  by (simp add: total_shrinkable_def rev_map [symmetric])

lemma new_total_rev: "new_total (rev ps) = new_total ps"
  by (simp add: rev_map [symmetric])

lemma shrink_plan:
  assumes "0 \<le> r" and "r \<le> total_shrinkable (source_parts source)"
  shows "new_total (rev (shrink_loop r (rev (source_parts source)))) = new_total (source_parts source) - r"
  using assms shrink_loop_total [of "rev (source_parts source)" r] source_parts_keep [of _ source]
  by (simp add: new_total_rev total_shrinkable_rev)

lemma grow_plan:
  "new_total (rev (grow_loop extra (rev (source_parts source)))) =
     new_total (source_parts source) + (if \<exists>p \<in> set (source_parts source). growable p then extra else 0)"
  using grow_loop_total [of "rev (source_parts source)" extra] source_parts_keep [of _ source]
  by (simp add: new_total_rev)

text \<open>
  C17: A feasible resize plan fits the target. A plan is feasible exactly when the target is not
  smaller than the source or the partitions can give up the difference; it keeps every partition,
  grows a resizable one or shrinks a resizable one to no less than its least size; a shrinking
  plan gives up exactly the difference; and partitions that fit the source disk fit the target
  disk at their new sizes.
\<close>

theorem resized_partitions_fit:
  fixes source target resize_mode
  defines "plan \<equiv> generate_resize_plan source target resize_mode"
  shows "(rp_feasible plan \<longleftrightarrow> rp_source_disk_bytes plan \<le> rp_target_disk_bytes plan
        \<or> rp_source_disk_bytes plan - rp_target_disk_bytes plan \<le> total_shrinkable (source_parts source))
    \<and> list_all2 resized (source_parts source) (rp_partitions plan)
    \<and> (rp_feasible plan \<and> rp_target_disk_bytes plan < rp_source_disk_bytes plan \<longrightarrow>
        new_total (source_parts source) - new_total (rp_partitions plan) = rp_source_disk_bytes plan - rp_target_disk_bytes plan)
    \<and> (rp_feasible plan \<and> new_total (source_parts source) \<le> rp_source_disk_bytes plan \<longrightarrow>
        new_total (rp_partitions plan) \<le> rp_target_disk_bytes plan)"
proof -
  let ?s = "dk_size_bytes source" and ?t = "case target of None \<Rightarrow> dk_size_bytes source | Some t \<Rightarrow> dk_size_bytes t"
  let ?ps = "source_parts source"
  have "list_all2 resized ?ps ?ps" by (simp add: resized_def list_all2_refl)
  moreover have "list_all2 resized ?ps (rev (shrink_loop r (rev ?ps)))" for r
    by (rule list_all2_rev_swap [OF shrink_loop_resized])
  moreover have "list_all2 resized ?ps (rev (grow_loop r (rev ?ps)))" if "0 < r" for r
    by (rule list_all2_rev_swap [OF grow_loop_resized [OF that]])
  ultimately show ?thesis
    using shrink_plan [of "?s - ?t" source] grow_plan [of "?t - ?s" source]
    unfolding plan_def generate_resize_plan_def source_parts_def [symmetric] Let_def by auto
qed

definition demo_partition :: "int \<Rightarrow> int \<Rightarrow> int option \<Rightarrow> partition_info" where
  "demo_partition k bytes least =
     \<lparr>pt_number = k, pt_size_bytes = bytes, pt_filesystem = Some ''ext4'', pt_min_size_bytes = least,
      pt_can_shrink = (least \<noteq> None), pt_other = []\<rparr>"

definition demo_disk :: "int \<Rightarrow> partition_info list \<Rightarrow> disk_info" where
  "demo_disk bytes ps =
     \<lparr>dk_node_id = ''n1'', dk_device = ''/dev/sda'', dk_size_bytes = bytes, dk_model = None, dk_serial = None,
      dk_partition_table = None, dk_partitions = Some ps, dk_scanned_at = 0\<rparr>"

text \<open>Witness: 100 GB with a fixed and two shrinkable partitions onto 60 GB.\<close>

theorem resized_partitions_fit_witness:
  "new_total (rp_partitions (generate_resize_plan
      (demo_disk 100 [demo_partition 1 10 None, demo_partition 2 50 (Some 20), demo_partition 3 40 (Some 15)])
      (Some (demo_disk 60 [])) ''none'')) = 60"
proof -
  let ?s = "demo_disk 100 [demo_partition 1 10 None, demo_partition 2 50 (Some 20), demo_partition 3 40 (Some 15)]"
  let ?plan = "generate_resize_plan ?s (Some (demo_disk 60 [])) ''none''"
  have "new_total (source_parts ?s) = 100" "total_shrinkable (source_parts ?s) = 55"
    by (simp_all add: source_parts_def demo_disk_def demo_partition_def plan_item_of_def total_shrinkable_def shrink_potential_def)
  moreover have "rp_source_disk_bytes ?plan = 100" "rp_target_disk_bytes ?plan = 60"
    by (simp_all add: generate_resize_plan_def Let_def demo_disk_def)
  ultimately show ?thesis
    using resized_partitions_fit [of ?s "Some (demo_disk 60 [])" "''none''"] by simp
qed

end
