(* ===== verification/Clone.thy ===== *)
theory Clone
  imports Boot Disks ResizePlan
begin

text \<open>
  Clone sessions, src/src/api/routes/clone.py: creation, start, the reports of the source and the
  target, resize plans and staging. A session is a row of the session table; starting one and the
  report of a ready source also write the workflow and the state of the nodes directly.

  The certificate library is a parameter: \<open>ca_sign\<close> gives the certificate and key for a common
  name. As in \<open>Boot\<close>, \<open>ck_naive_timestamps\<close> says that the database driver returns timestamps
  without a time zone, in which case subtracting them from the current time raises. Listings, the
  connection details of a staging backend and the WebSocket broadcasts are left out.
\<close>

datatype clone_error = CloneHTTP nat | CloneDb sql_error | CloneTypeError

record ca_service =
  ca_is_initialized :: bool
  ca_sign :: "string \<Rightarrow> cert"

record clone_settings =
  ck_ca :: ca_service
  ck_naive_timestamps :: bool

text \<open>The common name: an identifier that is still \<open>None\<close> is written as such.\<close>

definition issue_session_cert :: "ca_service \<Rightarrow> string option \<Rightarrow> string \<Rightarrow> cert" where
  "issue_session_cert ca session_id role = ca_sign ca (''clone-'' @ show_opt session_id @ ''-'' @ role)"

section \<open>Creating and editing sessions\<close>

record clone_create =
  cc_name :: "string option"
  cc_source_node_id :: string
  cc_target_node_id :: "string option"
  cc_source_device :: string
  cc_target_device :: string
  cc_clone_mode :: string
  cc_staging_backend_id :: "string option"
  cc_resize_mode :: string

definition RESIZE_MODES :: "string list" where
  "RESIZE_MODES = [''none'', ''shrink_source'', ''grow_target'']"

definition validate_clone_create :: "clone_create \<Rightarrow> bool" where
  "validate_clone_create r \<longleftrightarrow>
     (case cc_name r of None \<Rightarrow> True | Some s \<Rightarrow> length s \<le> 255)
   \<and> cc_clone_mode r \<in> {''staged'', ''direct''} \<and> cc_resize_mode r \<in> set RESIZE_MODES
   \<and> (cc_clone_mode r = ''staged'' \<longrightarrow> truthy (cc_staging_backend_id r))
   \<and> (cc_clone_mode r = ''direct'' \<longrightarrow> truthy (cc_target_node_id r))"

definition session_of_create :: "string \<Rightarrow> clone_create \<Rightarrow> clone_session" where
  "session_of_create uuid r =
     \<lparr>cs_id = uuid, cs_name = cc_name r, cs_status = ''pending'', cs_clone_mode = cc_clone_mode r,
      cs_source_node_id = cc_source_node_id r, cs_target_node_id = cc_target_node_id r,
      cs_source_device = cc_source_device r, cs_target_device = cc_target_device r,
      cs_source_ip = None, cs_source_port = 9999, cs_source_cert = None, cs_target_cert = None,
      cs_staging_backend_id = cc_staging_backend_id r, cs_staging_size_bytes = None, cs_staging_status = None,
      cs_resize_mode = cc_resize_mode r, cs_partition_plan = None, cs_bytes_total = None,
      cs_bytes_transferred = 0, cs_transfer_rate_bps = None, cs_error_message = None,
      cs_started_at = None, cs_completed_at = None\<rparr>"

definition node_exists_in :: "db \<Rightarrow> string \<Rightarrow> bool" where
  "node_exists_in d i \<longleftrightarrow> i \<in> n_id ` set (db_nodes d)"

text \<open>The certificates are issued before the row, and with it the identifier, exists.\<close>

definition create_clone_session :: "clone_settings \<Rightarrow> string \<Rightarrow> clone_create \<Rightarrow> db \<Rightarrow> clone_error + db" where
  "create_clone_session ck uuid r d =
     (if \<not> validate_clone_create r then Inl (CloneHTTP 422)
      else if \<not> node_exists_in d (cc_source_node_id r) then Inl (CloneHTTP 404)
      else if truthy (cc_target_node_id r) \<and> \<not> node_exists_in d (the (cc_target_node_id r)) then Inl (CloneHTTP 404)
      else if cc_clone_mode r = ''staged'' \<and> truthy (cc_staging_backend_id r)
              \<and> the (cc_staging_backend_id r) \<notin> sb_id ` set (db_backends d) then Inl (CloneHTTP 404)
      else
        let s = session_of_create uuid r;
            s = (if cc_clone_mode r = ''direct'' \<and> ca_is_initialized (ck_ca ck)
                 then s\<lparr>cs_source_cert := Some (issue_session_cert (ck_ca ck) None ''source''),
                        cs_target_cert := Some (issue_session_cert (ck_ca ck) None ''target'')\<rparr>
                 else s)
        in case sql_insert cs_id s (db_sessions d) of
             Inl e \<Rightarrow> Inl (CloneDb e)
           | Inr ss \<Rightarrow> Inr (d\<lparr>db_sessions := ss\<rparr>))"

definition with_session :: "string \<Rightarrow> db \<Rightarrow> (clone_session \<Rightarrow> clone_error + 'a) \<Rightarrow> clone_error + 'a" where
  "with_session sid d f = (case sql_get cs_id sid (db_sessions d) of None \<Rightarrow> Inl (CloneHTTP 404) | Some s \<Rightarrow> f s)"

definition save_session :: "clone_session \<Rightarrow> db \<Rightarrow> db" where
  "save_session s d = d\<lparr>db_sessions := map (\<lambda>t. if cs_id t = cs_id s then s else t) (db_sessions d)\<rparr>"

record clone_update =
  cu_name :: "string option"
  cu_target_node_id :: "string option"
  cu_target_device :: "string option"
  cu_resize_mode :: "string option"

definition update_clone_session :: "string \<Rightarrow> clone_update \<Rightarrow> db \<Rightarrow> clone_error + db" where
  "update_clone_session sid u d =
     (if (case cu_resize_mode u of None \<Rightarrow> False | Some m \<Rightarrow> m \<notin> set RESIZE_MODES) then Inl (CloneHTTP 422)
      else with_session sid d (\<lambda>s.
        if cs_status s \<noteq> ''pending'' then Inl (CloneHTTP 400)
        else if cu_target_node_id u \<noteq> None \<and> \<not> node_exists_in d (the (cu_target_node_id u)) then Inl (CloneHTTP 404)
        else Inr (save_session
               (s\<lparr>cs_name := (if cu_name u \<noteq> None then cu_name u else cs_name s),
                  cs_target_node_id := (if cu_target_node_id u \<noteq> None then cu_target_node_id u else cs_target_node_id s),
                  cs_target_device := given (cu_target_device u) (cs_target_device s),
                  cs_resize_mode := given (cu_resize_mode u) (cs_resize_mode s)\<rparr>) d)))"

definition delete_clone_session :: "datetime \<Rightarrow> string \<Rightarrow> db \<Rightarrow> clone_error + db" where
  "delete_clone_session now sid d =
     with_session sid d (\<lambda>s.
       if cs_status s = ''cloning''
       then Inr (save_session (s\<lparr>cs_status := ''cancelled'', cs_completed_at := Some now\<rparr>) d)
       else Inr (d\<lparr>db_sessions := fst (sql_delete (\<lambda>t. cs_id t = sid) (db_sessions d))\<rparr>))"

definition get_clone_certs :: "clone_settings \<Rightarrow> string \<Rightarrow> string \<Rightarrow> db \<Rightarrow> clone_error + cert" where
  "get_clone_certs ck sid role d =
     (if role \<notin> {''source'', ''target''} then Inl (CloneHTTP 400)
      else with_session sid d (\<lambda>s.
        if cs_clone_mode s \<noteq> ''direct'' then Inl (CloneHTTP 400)
        else if \<not> ca_is_initialized (ck_ca ck) then Inl (CloneHTTP 503)
        else case (if role = ''source'' then cs_source_cert s else cs_target_cert s) of
               None \<Rightarrow> Inl (CloneHTTP 400)
             | Some (cert, key) \<Rightarrow> if cert = [] \<or> key = [] then Inl (CloneHTTP 400) else Inr (cert, key)))"

section \<open>Running a session\<close>

text \<open>The workflow names that mark the source and the target of a session.\<close>

definition clone_source_workflow :: "clone_session \<Rightarrow> string" where
  "clone_source_workflow s = ''clone-source:'' @ cs_id s @ '':'' @ cs_source_device s"

definition clone_target_workflow :: "clone_session \<Rightarrow> string \<Rightarrow> int \<Rightarrow> string" where
  "clone_target_workflow s ip port =
     ''clone-target:'' @ cs_id s @ '':'' @ cs_target_device s @ '':'' @ ip @ '':'' @ show_int port"

text \<open>What both triggers do to a node: a special workflow, and the state set without the transition service.\<close>

definition trigger_boot :: "datetime \<Rightarrow> string \<Rightarrow> node \<Rightarrow> node" where
  "trigger_boot now workflow_id n =
     (let n1 = n\<lparr>n_workflow_id := Some workflow_id\<rparr> in
      if n_state n1 \<in> {''discovered'', ''active'', ''installed''}
      then n1\<lparr>n_state := ''pending'', n_state_changed_at := Some now\<rparr> else n1)"

record source_ready =
  sr_ip :: string
  sr_port :: int
  sr_size_bytes :: int

definition clone_source_ready :: "datetime \<Rightarrow> string \<Rightarrow> source_ready \<Rightarrow> db \<Rightarrow> clone_error + db" where
  "clone_source_ready now sid r d =
     with_session sid d (\<lambda>s.
       let s1 = s\<lparr>cs_status := ''source_ready'', cs_source_ip := Some (sr_ip r), cs_source_port := sr_port r,
                  cs_bytes_total := Some (sr_size_bytes r),
                  cs_started_at := (if cs_started_at s = None then Some now else cs_started_at s)\<rparr>;
           d1 = save_session s1 d
       in if cs_clone_mode s1 = ''direct'' \<and> truthy (cs_target_node_id s1)
          then (case sql_get n_id (the (cs_target_node_id s1)) (db_nodes d) of
                  None \<Rightarrow> Inr d1
                | Some n \<Rightarrow> Inr (save_node (trigger_boot now (clone_target_workflow s1 (sr_ip r) (sr_port r)) n) d1))
          else Inr d1)"

definition clone_progress :: "string \<Rightarrow> int \<Rightarrow> int option \<Rightarrow> db \<Rightarrow> clone_error + db" where
  "clone_progress sid bytes_transferred rate d =
     (if bytes_transferred < 0 \<or> (case rate of None \<Rightarrow> False | Some r \<Rightarrow> r < 0) then Inl (CloneHTTP 422)
      else with_session sid d (\<lambda>s.
        Inr (save_session
          (s\<lparr>cs_bytes_transferred := bytes_transferred,
             cs_transfer_rate_bps := (if rate \<noteq> None then rate else cs_transfer_rate_bps s),
             cs_status := (if cs_status s = ''source_ready'' then ''cloning'' else cs_status s)\<rparr>) d)))"

text \<open>\<open>int(duration.total_seconds())\<close> truncates towards zero.\<close>

definition whole_seconds :: "int \<Rightarrow> int" where
  "whole_seconds t = (if t < 0 then - (- t div 1000000) else t div 1000000)"

definition clone_complete :: "clone_settings \<Rightarrow> datetime \<Rightarrow> string \<Rightarrow> db \<Rightarrow> clone_error + db \<times> int" where
  "clone_complete ck now sid d =
     with_session sid d (\<lambda>s.
       let total = (case cs_bytes_total s of None \<Rightarrow> 0 | Some b \<Rightarrow> b);
           s1 = s\<lparr>cs_status := ''completed'', cs_completed_at := Some now,
                  cs_bytes_transferred := (if total \<noteq> 0 then total else cs_bytes_transferred s)\<rparr>
       in case cs_started_at s of
            None \<Rightarrow> Inr (save_session s1 d, 0)
          | Some started \<Rightarrow>
              if ck_naive_timestamps ck then Inl CloneTypeError
              else Inr (save_session s1 d, whole_seconds (now - started)))"

definition clone_failed :: "datetime \<Rightarrow> string \<Rightarrow> string \<Rightarrow> db \<Rightarrow> clone_error + db" where
  "clone_failed now sid error_message d =
     with_session sid d (\<lambda>s.
       Inr (save_session (s\<lparr>cs_status := ''failed'', cs_error_message := Some error_message, cs_completed_at := Some now\<rparr>) d))"

definition start_clone_session :: "clone_settings \<Rightarrow> datetime \<Rightarrow> string \<Rightarrow> db \<Rightarrow> clone_error + db" where
  "start_clone_session ck now sid d =
     with_session sid d (\<lambda>s.
       if cs_status s \<noteq> ''pending'' then Inl (CloneHTTP 400)
       else
         let ca = ck_ca ck;
             s1 = (if ca_is_initialized ca
                   then s\<lparr>cs_source_cert := Some (issue_session_cert ca (Some (cs_id s)) ''source''),
                          cs_target_cert := (if truthy (cs_target_node_id s)
                            then Some (issue_session_cert ca (Some (cs_id s)) ''target'') else cs_target_cert s)\<rparr>
                   else s);
             s2 = s1\<lparr>cs_started_at := Some now\<rparr>;
             d1 = save_session s2 d
         in case sql_get n_id (cs_source_node_id s2) (db_nodes d) of
              None \<Rightarrow> Inr d1
            | Some n \<Rightarrow> Inr (save_node (trigger_boot now (clone_source_workflow s2) n) d1))"

section \<open>Plans\<close>

definition analyze_clone_session :: "string \<Rightarrow> db \<Rightarrow> clone_error + int \<times> bool \<times> resize_plan" where
  "analyze_clone_session sid d =
     with_session sid d (\<lambda>s.
       case sql_get disk_key (cs_source_node_id s, cs_source_device s) (db_disks d) of
         None \<Rightarrow> Inl (CloneHTTP 404)
       | Some source_disk \<Rightarrow>
           let target_disk = (if truthy (cs_target_node_id s)
                 then sql_get disk_key (the (cs_target_node_id s), cs_target_device s) (db_disks d) else None);
               source_size = dk_size_bytes source_disk;
               target_size = (case target_disk of None \<Rightarrow> source_size | Some t \<Rightarrow> dk_size_bytes t);
               size_difference = source_size - target_size
           in Inr (size_difference, size_difference > 0, generate_resize_plan source_disk target_disk (cs_resize_mode s)))"

definition get_resize_plan :: "string \<Rightarrow> db \<Rightarrow> clone_error + resize_plan option" where
  "get_resize_plan sid d = with_session sid d (\<lambda>s. Inr (cs_partition_plan s))"

definition update_resize_plan :: "string \<Rightarrow> resize_plan \<Rightarrow> db \<Rightarrow> clone_error + db" where
  "update_resize_plan sid plan d =
     (if rp_resize_mode plan \<notin> set RESIZE_MODES
         \<or> \<not> list_all (\<lambda>p. pp_action p \<in> {''keep'', ''shrink'', ''grow'', ''delete''}) (rp_partitions plan)
      then Inl (CloneHTTP 422)
      else with_session sid d (\<lambda>s.
        if cs_status s \<notin> {''pending'', ''source_ready''} then Inl (CloneHTTP 400)
        else if \<not> rp_feasible plan then Inl (CloneHTTP 400)
        else Inr (save_session (s\<lparr>cs_partition_plan := Some plan, cs_resize_mode := rp_resize_mode plan\<rparr>) d)))"

section \<open>Staging\<close>

definition STAGING_STATUSES :: "string list" where
  "STAGING_STATUSES = [''uploading'', ''ready'', ''downloading'', ''cleanup'', ''deleted'']"

definition update_staging_status :: "string \<Rightarrow> string \<Rightarrow> int option \<Rightarrow> db \<Rightarrow> clone_error + db" where
  "update_staging_status sid status bytes d =
     with_session sid d (\<lambda>s.
       if status \<notin> set STAGING_STATUSES then Inl (CloneHTTP 400)
       else Inr (save_session
              (s\<lparr>cs_staging_status := Some status,
                 cs_staging_size_bytes := (if bytes \<noteq> None then bytes else cs_staging_size_bytes s)\<rparr>) d))"

definition source_complete :: "string \<Rightarrow> int \<Rightarrow> db \<Rightarrow> clone_error + db" where
  "source_complete sid bytes d =
     with_session sid d (\<lambda>s.
       Inr (save_session (s\<lparr>cs_staging_status := Some ''ready'', cs_staging_size_bytes := Some bytes\<rparr>) d))"

section \<open>The requests\<close>

datatype clone_request =
    CreateClone string clone_create
  | UpdateClone string clone_update
  | DeleteClone string
  | StartClone string
  | SourceReady string source_ready
  | CloneProgress string int "int option"
  | CloneComplete string
  | CloneFailed string string
  | UpdatePlan string resize_plan
  | StagingStatus string string "int option"
  | SourceComplete string int

fun clone_route :: "clone_settings \<Rightarrow> datetime \<times> clone_request \<Rightarrow> db \<Rightarrow> clone_error + db" where
  "clone_route ck (now, CreateClone u r) d = create_clone_session ck u r d"
| "clone_route ck (now, UpdateClone s u) d = update_clone_session s u d"
| "clone_route ck (now, DeleteClone s) d = delete_clone_session now s d"
| "clone_route ck (now, StartClone s) d = start_clone_session ck now s d"
| "clone_route ck (now, SourceReady s r) d = clone_source_ready now s r d"
| "clone_route ck (now, CloneProgress s b r) d = clone_progress s b r d"
| "clone_route ck (now, CloneComplete s) d = map_sum id fst (clone_complete ck now s d)"
| "clone_route ck (now, CloneFailed s e) d = clone_failed now s e d"
| "clone_route ck (now, UpdatePlan s p) d = update_resize_plan s p d"
| "clone_route ck (now, StagingStatus s st b) d = update_staging_status s st b d"
| "clone_route ck (now, SourceComplete s b) d = source_complete s b d"


section \<open>Sessions are well formed\<close>

text \<open>What every stored session satisfies; \<open>ids\<close> are the identifiers of the nodes.\<close>

definition session_ok :: "string set \<Rightarrow> clone_session \<Rightarrow> bool" where
  "session_ok ids s \<longleftrightarrow>
     cs_status s \<in> {''pending'', ''source_ready'', ''cloning'', ''completed'', ''failed'', ''cancelled''}
   \<and> cs_clone_mode s \<in> {''staged'', ''direct''} \<and> cs_resize_mode s \<in> set RESIZE_MODES
   \<and> cs_source_node_id s \<in> ids \<and> (truthy (cs_target_node_id s) \<longrightarrow> the (cs_target_node_id s) \<in> ids)
   \<and> (cs_clone_mode s = ''direct'' \<longrightarrow> cs_target_node_id s \<noteq> None)
   \<and> (cs_status s \<in> {''source_ready'', ''cloning''} \<longrightarrow>
        cs_source_ip s \<noteq> None \<and> cs_bytes_total s \<noteq> None \<and> cs_started_at s \<noteq> None)
   \<and> (cs_status s \<in> {''completed'', ''failed'', ''cancelled''} \<longrightarrow> cs_completed_at s \<noteq> None)
   \<and> (\<forall>st. cs_staging_status s = Some st \<longrightarrow> st \<in> set STAGING_STATUSES)
   \<and> (\<forall>p. cs_partition_plan s = Some p \<longrightarrow> rp_feasible p \<and> rp_resize_mode p \<in> set RESIZE_MODES)"

definition sessions_inv :: "db \<Rightarrow> bool" where
  "sessions_inv d \<longleftrightarrow> keys_unique cs_id (db_sessions d)
     \<and> (\<forall>s \<in> set (db_sessions d). session_ok (n_id ` set (db_nodes d)) s)"

lemma with_session_Inr_iff:
  "with_session sid d f = Inr y \<longleftrightarrow> (\<exists>s. sql_get cs_id sid (db_sessions d) = Some s \<and> f s = Inr y)"
  by (auto simp: with_session_def split: option.splits)

lemma save_session_nodes [simp]: "db_nodes (save_session s d) = db_nodes d" "db_logs (save_session s d) = db_logs d"
  by (simp_all add: save_session_def)

lemma save_node_sessions [simp]: "db_sessions (save_node n d) = db_sessions d" "db_logs (save_node n d) = db_logs d"
  by (simp_all add: save_node_def)

lemma save_node_ids [simp]: "n_id ` set (db_nodes (save_node n d)) = n_id ` set (db_nodes d)"
  unfolding set_map [symmetric] map_save_ids ..

lemma sessions_inv_save_node [simp]: "sessions_inv (save_node n d) = sessions_inv d"
  by (simp add: sessions_inv_def)

lemma sessions_inv_save:
  assumes "sessions_inv d" and "session_ok (n_id ` set (db_nodes d)) s"
  shows "sessions_inv (save_session s d)"
proof -
  have "map cs_id (map (\<lambda>t. if cs_id t = cs_id s then s else t) (db_sessions d)) = map cs_id (db_sessions d)" by auto
  then have "keys_unique cs_id (db_sessions (save_session s d))"
    using assms(1) by (simp add: sessions_inv_def save_session_def keys_unique_def del: map_map)
  with assms show ?thesis by (auto simp: sessions_inv_def) (auto simp: save_session_def)
qed

lemma sessions_inv_get:
  "sessions_inv d \<Longrightarrow> sql_get cs_id sid (db_sessions d) = Some s \<Longrightarrow> session_ok (n_id ` set (db_nodes d)) s"
  by (auto simp: sessions_inv_def dest: sql_get_SomeD)

lemma delete_rows_inv: "sessions_inv d \<Longrightarrow> sessions_inv (d\<lparr>db_sessions := fst (sql_delete P (db_sessions d))\<rparr>)"
  by (simp add: sessions_inv_def sql_delete_def keys_unique_filter)

text \<open>The changes the handlers make to a session, and the columns the invariant does not read.\<close>

lemma session_ok_unread [simp]:
  "session_ok ids (s\<lparr>cs_source_cert := c\<rparr>) = session_ok ids s" "session_ok ids (s\<lparr>cs_target_cert := c\<rparr>) = session_ok ids s"
  "session_ok ids (s\<lparr>cs_name := nm\<rparr>) = session_ok ids s" "session_ok ids (s\<lparr>cs_target_device := dev\<rparr>) = session_ok ids s"
  "session_ok ids (s\<lparr>cs_bytes_transferred := b\<rparr>) = session_ok ids s" "session_ok ids (s\<lparr>cs_transfer_rate_bps := r\<rparr>) = session_ok ids s"
  "session_ok ids (s\<lparr>cs_staging_size_bytes := k\<rparr>) = session_ok ids s"
  by (simp_all add: session_ok_def)

lemma session_ok_saves:
  assumes "session_ok ids s"
  shows "session_ok ids (s\<lparr>cs_status := ''cancelled'', cs_completed_at := Some now\<rparr>)"
    and "session_ok ids (s\<lparr>cs_status := ''failed'', cs_error_message := Some e, cs_completed_at := Some now\<rparr>)"
    and "session_ok ids (s\<lparr>cs_status := ''completed'', cs_completed_at := Some now\<rparr>)"
    and "session_ok ids (s\<lparr>cs_status := ''source_ready'', cs_source_ip := Some ip, cs_source_port := port, cs_bytes_total := Some b,
           cs_started_at := Some now\<rparr>)"
    and "cs_started_at s = Some t \<Longrightarrow> session_ok ids (s\<lparr>cs_status := ''source_ready'', cs_source_ip := Some ip, cs_source_port := port,
           cs_bytes_total := Some b\<rparr>)"
    and "cs_status s = ''source_ready'' \<Longrightarrow> session_ok ids (s\<lparr>cs_status := ''cloning''\<rparr>)"
    and "session_ok ids (s\<lparr>cs_started_at := Some now\<rparr>)"
    and "rp_feasible plan \<Longrightarrow> rp_resize_mode plan \<in> set RESIZE_MODES \<Longrightarrow>
         session_ok ids (s\<lparr>cs_partition_plan := Some plan, cs_resize_mode := rp_resize_mode plan\<rparr>)"
    and "st \<in> set STAGING_STATUSES \<Longrightarrow> session_ok ids (s\<lparr>cs_staging_status := Some st\<rparr>)"
    and "i \<in> ids \<Longrightarrow> session_ok ids (s\<lparr>cs_target_node_id := Some i\<rparr>)"
    and "m \<in> set RESIZE_MODES \<Longrightarrow> session_ok ids (s\<lparr>cs_resize_mode := m\<rparr>)"
  using assms by (simp_all add: session_ok_def)

lemma session_of_create_ok:
  assumes "validate_clone_create r" and "cc_source_node_id r \<in> ids" and "\<not> (truthy (cc_target_node_id r) \<and> the (cc_target_node_id r) \<notin> ids)"
  shows "session_ok ids (session_of_create u r)"
  using assms by (cases "cc_target_node_id r") (auto simp: session_ok_def session_of_create_def validate_clone_create_def)

lemma insert_session_inv:
  "sessions_inv d \<Longrightarrow> session_ok (n_id ` set (db_nodes d)) s \<Longrightarrow> sql_insert cs_id s (db_sessions d) = Inr ss \<Longrightarrow>
   sessions_inv (d\<lparr>db_sessions := ss\<rparr>)"
  by (auto simp: sessions_inv_def sql_insert_def keys_unique_def split: if_splits)

lemma create_clone_session_inv: "sessions_inv d \<Longrightarrow> create_clone_session ck u r d = Inr d' \<Longrightarrow> sessions_inv d'"
  using session_of_create_ok [of r "n_id ` set (db_nodes d)" u] insert_session_inv [of d "session_of_create u r"]
    insert_session_inv [of d "session_of_create u r\<lparr>cs_source_cert := Some (issue_session_cert (ck_ca ck) None ''source''),
      cs_target_cert := Some (issue_session_cert (ck_ca ck) None ''target'')\<rparr>"]
  unfolding create_clone_session_def node_exists_in_def Let_def
  by (auto split: if_split_asm sum.split_asm)

lemma with_session_inv:
  assumes "with_session sid d f = Inr y" and "sessions_inv d"
    and "\<And>s. session_ok (n_id ` set (db_nodes d)) s \<Longrightarrow> f s = Inr y \<Longrightarrow> P"
  shows P
  using assms sessions_inv_get [OF assms(2)] unfolding with_session_Inr_iff by blast

lemma delete_clone_session_inv: "sessions_inv d \<Longrightarrow> delete_clone_session now sid d = Inr d' \<Longrightarrow> sessions_inv d'"
  unfolding delete_clone_session_def
  by (erule with_session_inv, assumption) (auto intro: sessions_inv_save session_ok_saves delete_rows_inv split: if_splits)

lemma update_clone_session_inv: "sessions_inv d \<Longrightarrow> update_clone_session sid u d = Inr d' \<Longrightarrow> sessions_inv d'"
  unfolding update_clone_session_def
  by (split if_split_asm, simp)
    (erule with_session_inv, assumption,
     auto simp: node_exists_in_def given_def intro!: sessions_inv_save session_ok_saves(10,11)
       split: if_splits option.splits)

lemma clone_source_ready_inv: "sessions_inv d \<Longrightarrow> clone_source_ready now sid r d = Inr d' \<Longrightarrow> sessions_inv d'"
  unfolding clone_source_ready_def
  by (erule with_session_inv, assumption)
    (auto simp: Let_def intro!: sessions_inv_save session_ok_saves(4,5) split: if_splits option.splits)

lemma start_clone_session_inv: "sessions_inv d \<Longrightarrow> start_clone_session ck now sid d = Inr d' \<Longrightarrow> sessions_inv d'"
  unfolding start_clone_session_def
  by (erule with_session_inv, assumption)
    (auto simp: Let_def intro!: sessions_inv_save session_ok_saves(7) split: if_splits option.splits)

lemma clone_progress_inv: "sessions_inv d \<Longrightarrow> clone_progress sid b r d = Inr d' \<Longrightarrow> sessions_inv d'"
  unfolding clone_progress_def
  by (split if_split_asm, simp)
    (erule with_session_inv, assumption, auto intro!: sessions_inv_save session_ok_saves(6) split: if_splits)

lemma clone_complete_inv: "sessions_inv d \<Longrightarrow> clone_complete ck now sid d = Inr (d', k) \<Longrightarrow> sessions_inv d'"
  unfolding clone_complete_def
  by (erule with_session_inv, assumption)
    (auto simp: Let_def intro!: sessions_inv_save session_ok_saves(3) split: if_splits option.splits)

lemma update_resize_plan_inv: "sessions_inv d \<Longrightarrow> update_resize_plan sid plan d = Inr d' \<Longrightarrow> sessions_inv d'"
  unfolding update_resize_plan_def
  by (split if_split_asm, simp)
    (erule with_session_inv, assumption, auto intro!: sessions_inv_save session_ok_saves(8) split: if_splits)

lemma clone_failed_inv: "sessions_inv d \<Longrightarrow> clone_failed now sid e d = Inr d' \<Longrightarrow> sessions_inv d'"
  unfolding clone_failed_def
  by (erule with_session_inv, assumption) (auto intro!: sessions_inv_save session_ok_saves(2))

lemma staging_inv:
  "sessions_inv d \<Longrightarrow> update_staging_status sid st b d = Inr d' \<Longrightarrow> sessions_inv d'"
  "sessions_inv d \<Longrightarrow> source_complete sid k d = Inr d' \<Longrightarrow> sessions_inv d'"
  unfolding update_staging_status_def source_complete_def
  by (erule with_session_inv, assumption,
      auto simp: STAGING_STATUSES_def intro!: sessions_inv_save session_ok_saves(9) split: if_splits)+

lemmas session_handlers_inv = create_clone_session_inv update_clone_session_inv delete_clone_session_inv start_clone_session_inv
  clone_source_ready_inv clone_progress_inv clone_complete_inv clone_failed_inv update_resize_plan_inv staging_inv

lemma clone_route_sessions: "sessions_inv d \<Longrightarrow> clone_route ck q d = Inr d' \<Longrightarrow> sessions_inv d'"
  by (cases q; cases "snd q") (auto intro: session_handlers_inv dest!: map_sum_fst_InrD)

interpretation clone_api: transactional "clone_route ck" sessions_inv
  by unfold_locales (rule clone_route_sessions)


text \<open>
  C16: Stored clone sessions are well formed. After any sequence of clone requests every session has
  one of the six statuses and a known mode and resize mode, its source is a registered node and so
  is its target when it names one, a direct session names one, a session whose source is ready or
  that is cloning knows the address, the size and the start of its transfer, a finished one knows
  its end, and a stored plan is feasible.
\<close>

theorem clone_sessions_wellformed:
  assumes "db_sessions d = []" and "s \<in> set (db_sessions (serve (clone_route ck) qs d))"
  shows "session_ok (n_id ` set (db_nodes (serve (clone_route ck) qs d))) s"
proof -
  have "sessions_inv d" by (simp add: sessions_inv_def keys_unique_def assms(1))
  from clone_api.serve_inv [OF this] assms(2) show ?thesis by (auto simp: sessions_inv_def)
qed

definition demo_clone :: clone_create where
  "demo_clone = \<lparr>cc_name = None, cc_source_node_id = ''n1'', cc_target_node_id = Some ''n2'', cc_source_device = ''/dev/sda'',
     cc_target_device = ''/dev/sda'', cc_clone_mode = ''direct'', cc_staging_backend_id = None, cc_resize_mode = ''none''\<rparr>"

definition demo_clone_settings :: clone_settings where
  "demo_clone_settings = \<lparr>ck_ca = \<lparr>ca_is_initialized = True, ca_sign = (\<lambda>cn. (cn, ''key''))\<rparr>, ck_naive_timestamps = False\<rparr>"

definition demo_clone_db :: db where
  "demo_clone_db = (empty_db [])\<lparr>db_nodes := [(new_node ''n1'' ''00:00:00:00:00:01'')\<lparr>n_state := ''active''\<rparr>,
     new_node ''n2'' ''00:00:00:00:00:02'']\<rparr>"

lemmas clone_demo_defs = demo_clone_def demo_clone_settings_def demo_clone_db_def get_db_def create_clone_session_def
  validate_clone_create_def RESIZE_MODES_def node_exists_in_def session_of_create_def issue_session_cert_def show_opt_def
  sql_insert_def empty_db_def new_node_def Let_def with_session_def sql_get_def clone_source_ready_def save_session_def save_node_def
  trigger_boot_def clone_target_workflow_def clone_progress_def

theorem clone_sessions_wellformed_witness:
  "\<exists>s. db_sessions (serve (clone_route demo_clone_settings)
      [(1, CreateClone ''s1'' demo_clone), (2, SourceReady ''s1'' \<lparr>sr_ip = ''10.0.0.5'', sr_port = 9999, sr_size_bytes = 7\<rparr>),
       (3, CloneProgress ''s1'' 3 None)] demo_clone_db) = [s]
    \<and> cs_status s = ''cloning'' \<and> cs_source_ip s \<noteq> None \<and> cs_started_at s \<noteq> None"
proof -
  let ?d = "serve (clone_route demo_clone_settings)
      [(1, CreateClone ''s1'' demo_clone), (2, SourceReady ''s1'' \<lparr>sr_ip = ''10.0.0.5'', sr_port = 9999, sr_size_bytes = 7\<rparr>),
       (3, CloneProgress ''s1'' 3 None)] demo_clone_db"
  obtain s where s: "db_sessions ?d = [s]" "cs_status s = ''cloning''"
    by (simp add: clone_demo_defs)
  have "session_ok (n_id ` set (db_nodes ?d)) s"
  proof (rule clone_sessions_wellformed)
    show "db_sessions demo_clone_db = []" by (simp add: demo_clone_db_def empty_db_def)
    show "s \<in> set (db_sessions ?d)" unfolding s(1) by simp
  qed
  with s show ?thesis by (simp add: session_ok_def)
qed

section \<open>Cloning and the life cycle of a node\<close>

lemma start_pending_session:
  assumes "sql_get cs_id sid (db_sessions d) = Some s" and "cs_status s = ''pending''"
    and "sql_get n_id (cs_source_node_id s) (db_nodes d) = Some n"
  shows "\<exists>s'. start_clone_session ck now sid d =
    Inr (save_node (trigger_boot now (clone_source_workflow s) n) (save_session s' d))"
  using assms by (auto simp: start_clone_session_def with_session_def Let_def clone_source_workflow_def)

lemma trigger_boot_simps [simp]:
  "n_id (trigger_boot now w n) = n_id n" "n_mac_address (trigger_boot now w n) = n_mac_address n"
  "n_workflow_id (trigger_boot now w n) = Some w"
  "n_state (trigger_boot now w n) = (if n_state n \<in> {''discovered'', ''active'', ''installed''} then ''pending'' else n_state n)"
  by (simp_all add: trigger_boot_def Let_def)

lemma sql_get_saved: "sql_get n_id (n_id n) (db_nodes d) = Some m \<Longrightarrow> sql_get n_id (n_id n) (db_nodes (save_node n d)) = Some n"
  by (induction "db_nodes d" arbitrary: d) (auto simp: save_node_def sql_get_def find_Some_iff)

text \<open>
  Starting a clone bypasses the life cycle. The start of a pending session whose source node
  is active or installed always succeeds and leaves that node pending, a move the state machine
  forbids, and no audit row tells of it: the trail of the node still ends in its old state, so the
  invariant that the other routes keep is broken.
\<close>

theorem clone_start_bypasses_lifecycle:
  assumes "db_inv d" and "sql_get cs_id sid (db_sessions d) = Some s" and "cs_status s = ''pending''"
    and "sql_get n_id (cs_source_node_id s) (db_nodes d) = Some n" and "n_state n \<in> {''active'', ''installed''}"
  shows "\<exists>d' n'. start_clone_session ck now sid d = Inr d' \<and> sql_get n_id (n_id n) (db_nodes d') = Some n'
    \<and> n_state n' = ''pending'' \<and> \<not> can_transition (n_state n) ''pending''
    \<and> log_end ''discovered'' (node_logs d' (n_id n)) = Some (n_state n) \<and> \<not> db_inv d'"
proof -
  let ?w = "clone_source_workflow s"
  obtain s' where s': "start_clone_session ck now sid d = Inr (save_node (trigger_boot now ?w n) (save_session s' d))"
    using start_pending_session [OF assms(2-4)] by blast
  let ?n = "trigger_boot now ?w n" and ?d = "save_node (trigger_boot now ?w n) (save_session s' d)"
  have n: "n_id n = cs_source_node_id s" "n \<in> set (db_nodes d)" using sql_get_SomeD [OF assms(4)] by simp_all
  have get: "sql_get n_id (n_id n) (db_nodes ?d) = Some ?n"
    using sql_get_saved [of ?n "save_session s' d" n] assms(4) n(1) by simp
  have log: "log_end ''discovered'' (node_logs ?d (n_id n)) = Some (n_state n)"
    using assms(1) n(2) by (simp add: db_inv_def node_logs_def)
  have st: "n_state ?n = ''pending''" "\<not> can_transition (n_state n) ''pending''" "n_state n \<noteq> ''pending''"
    using assms(5) by (auto simp: machine_defs)
  have "\<not> db_inv ?d"
    using log st sql_get_SomeD [OF get] unfolding db_inv_def by fastforce
  with s' get log st show ?thesis by blast
qed

theorem clone_start_bypasses_lifecycle_witness:
  "\<exists>d' n'. start_clone_session demo_clone_settings 9 ''s1''
      (demo_clone_db\<lparr>db_nodes := [new_node ''n2'' ''m2'', (new_node ''n1'' ''m1'')\<lparr>n_state := ''installed''\<rparr>],
         db_logs := map (\<lambda>(a, b). \<lparr>l_node_id = ''n1'', l_from_state = a, l_to_state = b, l_triggered_by = ''admin'', l_user_id = None,
           l_comment = None, l_metadata = None\<rparr>) [(''discovered'', ''pending''), (''pending'', ''installing''), (''installing'', ''installed'')],
         db_sessions := [session_of_create ''s1'' demo_clone]\<rparr>) = Inr d'
    \<and> sql_get n_id ''n1'' (db_nodes d') = Some n' \<and> n_state n' = ''pending'' \<and> \<not> db_inv d'"
proof -
  let ?d = "demo_clone_db\<lparr>db_nodes := [new_node ''n2'' ''m2'', (new_node ''n1'' ''m1'')\<lparr>n_state := ''installed''\<rparr>],
         db_logs := map (\<lambda>(a, b). \<lparr>l_node_id = ''n1'', l_from_state = a, l_to_state = b, l_triggered_by = ''admin'', l_user_id = None,
           l_comment = None, l_metadata = None\<rparr>) [(''discovered'', ''pending''), (''pending'', ''installing''), (''installing'', ''installed'')],
         db_sessions := [session_of_create ''s1'' demo_clone]\<rparr>"
  have "db_inv ?d"
    by (simp add: db_inv_def keys_unique_def lifecycle_inv_def machine_defs MAX_INSTALL_ATTEMPTS_def node_logs_def log_ok_def
        alerts_inv_def demo_clone_db_def empty_db_def new_node_def)
  from clone_start_bypasses_lifecycle [OF this, of "''s1''" "session_of_create ''s1'' demo_clone" "(new_node ''n1'' ''m1'')\<lparr>n_state := ''installed''\<rparr>"
      demo_clone_settings 9]
  show ?thesis by (auto simp: sql_get_def session_of_create_def demo_clone_def new_node_def)
qed


lemma sql_get_saved_mac:
  assumes "keys_unique n_id (db_nodes d)" "keys_unique n_mac_address (db_nodes d)" and n: "n \<in> set (db_nodes d)"
    and n': "n_id n' = n_id n" "n_mac_address n' = n_mac_address n"
  shows "sql_get n_mac_address (n_mac_address n) (db_nodes (save_node n' d)) = Some n'"
proof -
  have "n_mac_address (if n_id m = n_id n' then n' else m) = n_mac_address m" if "m \<in> set (db_nodes d)" for m
    using that n n' assms(1) by (auto simp: keys_unique_def distinct_map inj_on_def)
  then have "map n_mac_address (db_nodes (save_node n' d)) = map n_mac_address (db_nodes d)" by (simp add: save_node_def)
  then have "keys_unique n_mac_address (db_nodes (save_node n' d))" using assms(2) by (simp add: keys_unique_def)
  moreover have "n' \<in> set (db_nodes (save_node n' d))" using n n'(1) by (force simp: save_node_def)
  ultimately show ?thesis using sql_get_in_set n'(2) by metis
qed

lemma no_file_not_found:
  assumes "\<forall>ext \<in> set exts. \<not> wf_exists fs (resolve_join dir (w @ ext))"
  shows "find_workflow_file fs dir w exts = Inr None \<or> (\<exists>m. find_workflow_file fs dir w exts = Inl (WfValueError m))"
  using assms by (induction exts) (auto simp: Let_def)

lemma no_workflow_boot:
  assumes "\<forall>ext \<in> {''.json'', ''.yaml'', ''.yml''}. \<not> wf_exists fs (resolve_join (bs_workflows_dir st) (w @ ext))"
    and "n_workflow_id n = Some w" and "w \<noteq> []"
  shows "pending_boot st fs n = Inr (generate_workflow_error_script n (''Workflow '' @ [CHR 0x27] @ w @ [CHR 0x27] @ '' not found''))"
proof -
  have "load_workflow st fs n = Inr None"
    using no_file_not_found [of "[''.json'', ''.yaml'', ''.yml'']" fs "bs_workflows_dir st" w] assms
    by (auto simp: load_workflow_def wf_get_workflow_def validate_workflow_path_def simp del: find_workflow_file.simps)
  with assms(2,3) show ?thesis by (simp add: pending_boot_def)
qed

text \<open>
  A started clone never boots. Once a session is started, the boot request of its source node
  is answered with the error script "workflow not found" that sends the machine to its local disk:
  the boot endpoint takes the special workflow name the start has written for the name of a
  workflow file. (Unless someone keeps a workflow file under that very name.)
\<close>

theorem started_clone_never_boots:
  assumes "db_inv d" and "sql_get cs_id sid (db_sessions d) = Some s" and "cs_status s = ''pending''"
    and "sql_get n_id (cs_source_node_id s) (db_nodes d) = Some n" and "n_state n \<in> {''discovered'', ''pending'', ''active'', ''installed''}"
    and "\<forall>ext \<in> {''.json'', ''.yaml'', ''.yml''}.
      \<not> wf_exists fs (resolve_join (bs_workflows_dir st) (clone_source_workflow s @ ext))"
    and "validate_mac (bq_mac q) = Inr (n_mac_address n)"
  shows "\<exists>d' d'' m. start_clone_session ck now sid d = Inr d'
    \<and> get_boot_script st fs now' nid q d' =
        Inr (d'', generate_workflow_error_script m (''Workflow '' @ [CHR 0x27] @ clone_source_workflow s @ [CHR 0x27] @ '' not found''))
    \<and> n_mac_address m = n_mac_address n"
proof -
  let ?w = "clone_source_workflow s"
  obtain s' where s': "start_clone_session ck now sid d = Inr (save_node (trigger_boot now ?w n) (save_session s' d))"
    using start_pending_session [OF assms(2-4)] by blast
  let ?n = "trigger_boot now ?w n" and ?d = "save_node (trigger_boot now ?w n) (save_session s' d)"
  have n: "n \<in> set (db_nodes d)" using sql_get_SomeD [OF assms(4)] by simp
  have get: "sql_get n_mac_address (n_mac_address n) (db_nodes ?d) = Some ?n"
    using sql_get_saved_mac [of "save_session s' d" n ?n] assms(1) n by (simp add: db_inv_def)
  let ?m = "touch_node now' q ?n"
  have m: "n_state ?m = ''pending''" "n_workflow_id ?m = Some ?w" "n_mac_address ?m = n_mac_address n"
    using assms(5) by (auto simp: touch_node_def)
  have "get_boot_script st fs now' nid q ?d = Inr (save_node ?m ?d,
      generate_workflow_error_script ?m (''Workflow '' @ [CHR 0x27] @ ?w @ [CHR 0x27] @ '' not found''))"
    using get m(1) no_workflow_boot [OF assms(6) m(2)] assms(7)
    by (simp add: get_boot_script_def Let_def) (simp add: clone_source_workflow_def)
  with s' m(3) show ?thesis by blast
qed


theorem started_clone_never_boots_witness:
  "\<exists>d' d'' m. start_clone_session demo_clone_settings 9 ''s1''
      ((empty_db [])\<lparr>db_nodes := [new_node ''n1'' ''00:11:22:33:44:55''], db_sessions := [session_of_create ''s1'' demo_clone]\<rparr>) = Inr d'
    \<and> get_boot_script demo_settings (demo_files\<lparr>wf_exists := (\<lambda>p. False)\<rparr>) 10 ''n9'' (demo_request\<lparr>bq_mac := ''00-11-22-33-44-55''\<rparr>) d' =
        Inr (d'', generate_workflow_error_script m (''Workflow '' @ [CHR 0x27] @ ''clone-source:s1:/dev/sda'' @ [CHR 0x27] @ '' not found''))"
proof -
  let ?d = "(empty_db [])\<lparr>db_nodes := [new_node ''n1'' ''00:11:22:33:44:55''], db_sessions := [session_of_create ''s1'' demo_clone]\<rparr>"
  let ?s = "session_of_create ''s1'' demo_clone" and ?n = "new_node ''n1'' ''00:11:22:33:44:55''"
  have s: "cs_id ?s = ''s1''" "cs_source_device ?s = ''/dev/sda''" "cs_status ?s = ''pending''" "cs_source_node_id ?s = ''n1''"
    by (simp_all add: session_of_create_def demo_clone_def)
  have inv: "db_inv ?d"
    by (simp add: db_inv_def keys_unique_def lifecycle_inv_def STATES_def MAX_INSTALL_ATTEMPTS_def node_logs_def alerts_inv_def
        empty_db_def new_node_def)
  have m: "validate_mac (bq_mac (demo_request\<lparr>bq_mac := ''00-11-22-33-44-55''\<rparr>)) = Inr (n_mac_address ?n)"
    by (simp add: new_node_def) code_simp
  from started_clone_never_boots [OF inv, of "''s1''" ?s ?n "demo_files\<lparr>wf_exists := (\<lambda>p. False)\<rparr>" demo_settings
      "demo_request\<lparr>bq_mac := ''00-11-22-33-44-55''\<rparr>" demo_clone_settings 9 10 "''n9''"] m s
  show ?thesis by (auto simp: sql_get_def new_node_def clone_source_workflow_def)
qed

text \<open>A session that is under way can never be completed when timestamps come back without a time zone.\<close>

lemma running_clone_never_completes:
  assumes "sessions_inv d" and "sql_get cs_id sid (db_sessions d) = Some s" and "cs_status s \<in> {''source_ready'', ''cloning''}"
    and "ck_naive_timestamps ck"
  shows "clone_complete ck now sid d = Inl CloneTypeError \<and> get_db (clone_route ck) (now, CloneComplete sid) d = d"
proof -
  have "cs_started_at s \<noteq> None"
    using sessions_inv_get [OF assms(1,2)] assms(3) unfolding session_ok_def by blast
  then obtain t where "cs_started_at s = Some t" by blast
  with assms(2,4) have "clone_complete ck now sid d = Inl CloneTypeError"
    by (simp add: clone_complete_def with_session_def Let_def)
  then show ?thesis by (simp add: get_db_def)
qed

text \<open>A cancelled session is brought back by the next report of its source.\<close>

lemma cancelled_session_revived:
  assumes "sql_get cs_id sid (db_sessions d) = Some s" and "cs_status s = ''cancelled''"
  shows "\<exists>d' s'. clone_source_ready now sid r d = Inr d' \<and> s' \<in> set (db_sessions d') \<and> cs_id s' = sid \<and> cs_status s' = ''source_ready''"
proof -
  let ?s = "s\<lparr>cs_status := ''source_ready'', cs_source_ip := Some (sr_ip r), cs_source_port := sr_port r,
    cs_bytes_total := Some (sr_size_bytes r), cs_started_at := (if cs_started_at s = None then Some now else cs_started_at s)\<rparr>"
  have s: "cs_id s = sid" "s \<in> set (db_sessions d)" using sql_get_SomeD [OF assms(1)] by simp_all
  have "\<exists>d'. clone_source_ready now sid r d = Inr d' \<and> db_sessions d' = db_sessions (save_session ?s d)"
    using assms(1)
    by (cases "sql_get n_id (the (cs_target_node_id s)) (db_nodes d)"; cases "cs_clone_mode s = ''direct''";
        cases "truthy (cs_target_node_id s)")
      (simp_all add: clone_source_ready_def with_session_def Let_def split del: if_split)
  then obtain d' where d': "clone_source_ready now sid r d = Inr d'" "db_sessions d' = db_sessions (save_session ?s d)" by blast
  have "?s \<in> set (db_sessions (save_session ?s d))" using s by (force simp: save_session_def)
  with d' s(1) show ?thesis by (intro exI [of _ d'] exI [of _ ?s]) simp
qed

end
