(* ===== verification/Tables.thy ===== *)
theory Tables
  imports Session "HOL-Library.Multiset"
begin

text \<open>
  What the administrative handlers of the controller share: the errors a request ends with, fields
  an update may leave unset, rows that replace one another, and ORDER BY.
\<close>

section \<open>Errors and updates\<close>

text \<open>
  \<open>Status c\<close> is an \<open>HTTPException\<close>; \<open>NoResultFound\<close> is raised by
  \<open>scalar_one()\<close>, \<open>ConstraintFailed\<close> by a flush that breaks a NOT NULL or UNIQUE
  constraint; \<open>Crash\<close> is an exception the handler did not expect.
\<close>

datatype api_error = Status nat | NoResultFound | ConstraintFailed | Crash string

definition set_or :: "'a option \<Rightarrow> 'a \<Rightarrow> 'a" where
  "set_or u x = (case u of None \<Rightarrow> x | Some y \<Rightarrow> y)"

lemma set_or_simps [simp]: "set_or None x = x" "set_or (Some y) x = y"
  by (simp_all add: set_or_def)

text \<open>Replacing the row with a key keeps another column unique if no other row has its new value.\<close>

lemma replace_row_unique:
  assumes "keys_unique key rs" and "keys_unique col rs" and "\<forall>h \<in> set rs. key h \<noteq> key r \<longrightarrow> col h \<noteq> col r"
  shows "keys_unique col (map (\<lambda>h. if key h = key r then r else h) rs)"
proof -
  have inj: "inj_on key (set rs)" "inj_on col (set rs)"
    using assms(1,2) by (simp_all add: keys_unique_def distinct_map)
  have "inj_on (\<lambda>h. col (if key h = key r then r else h)) (set rs)"
  proof (rule inj_onI)
    fix h k
    assume h: "h \<in> set rs" and k: "k \<in> set rs"
      and e: "col (if key h = key r then r else h) = col (if key k = key r then r else k)"
    show "h = k"
    proof (cases "key h = key r \<longleftrightarrow> key k = key r")
      case True
      then have "key h = key k \<or> col h = col k" using e by (auto split: if_splits)
      then show ?thesis using inj h k by (auto dest: inj_onD)
    next
      case False
      then show ?thesis using e assms(3) h k by (auto split: if_splits)
    qed
  qed
  then show ?thesis using assms(1) by (auto simp: keys_unique_def distinct_map comp_def)
qed

definition save_row :: "('r \<Rightarrow> 'k) \<Rightarrow> 'r \<Rightarrow> 'r list \<Rightarrow> 'r list" where
  "save_row key r rs = map (\<lambda>h. if key h = key r then r else h) rs"

lemma save_row_keys [simp]: "map key (save_row key r rs) = map key rs"
  by (simp add: save_row_def)

lemma keys_unique_save_row [simp]: "keys_unique key (save_row key r rs) = keys_unique key rs"
  by (simp add: keys_unique_def)

lemma sql_get_save_row [tab_simps]:
  "sql_get key k (save_row key r rs) = (if k = key r \<and> sql_get key k rs \<noteq> None then Some r else sql_get key k rs)"
  by (induction rs) (auto simp: sql_get_def save_row_def)

lemma set_save_row_subset: "set (save_row key r rs) \<subseteq> insert r (set rs)"
  by (auto simp: save_row_def)

section \<open>ORDER BY\<close>

text \<open>Text compares by character codes.\<close>

definition char_codes :: "string \<Rightarrow> nat list" where
  "char_codes s = map of_char s"

fun codes_le :: "nat list \<Rightarrow> nat list \<Rightarrow> bool" where
  "codes_le [] ys \<longleftrightarrow> True"
| "codes_le (x # xs) [] \<longleftrightarrow> False"
| "codes_le (x # xs) (y # ys) \<longleftrightarrow> x < y \<or> x = y \<and> codes_le xs ys"

definition str_le :: "string \<Rightarrow> string \<Rightarrow> bool" where
  "str_le s t = codes_le (char_codes s) (char_codes t)"

fun insert_by :: "('a \<Rightarrow> 'a \<Rightarrow> bool) \<Rightarrow> 'a \<Rightarrow> 'a list \<Rightarrow> 'a list" where
  "insert_by le x [] = [x]"
| "insert_by le x (y # ys) = (if le x y then x # y # ys else y # insert_by le x ys)"

definition order_by :: "('a \<Rightarrow> 'a \<Rightarrow> bool) \<Rightarrow> 'a list \<Rightarrow> 'a list" where
  "order_by le xs = foldr (insert_by le) xs []"

lemma codes_le_total: "codes_le xs ys \<or> codes_le ys xs"
  by (induction xs ys rule: codes_le.induct) auto

lemma codes_le_trans: "codes_le xs ys \<Longrightarrow> codes_le ys zs \<Longrightarrow> codes_le xs zs"
proof (induction xs ys arbitrary: zs rule: codes_le.induct)
  case (3 x xs y ys)
  then show ?case by (cases zs) auto
qed auto

lemma str_le_total: "str_le s t \<or> str_le t s"
  using codes_le_total by (simp add: str_le_def)

lemma str_le_trans: "str_le s t \<Longrightarrow> str_le t u \<Longrightarrow> str_le s u"
  using codes_le_trans by (simp add: str_le_def)

lemma mset_insert_by [simp]: "mset (insert_by le x ys) = add_mset x (mset ys)"
  by (induction ys) auto

lemma sorted_insert_by:
  assumes "\<And>x y. le x y \<or> le y x" and "\<And>x y z. le x y \<Longrightarrow> le y z \<Longrightarrow> le x z" and "sorted_wrt le ys"
  shows "sorted_wrt le (insert_by le x ys)"
  using assms(3)
proof (induction ys)
  case (Cons y ys)
  have "set (insert_by le x ys) = insert x (set ys)" by (metis mset_insert_by set_mset_add_mset_insert set_mset_mset)
  moreover have "le y x" if "\<not> le x y" using assms(1) [of x y] that by blast
  ultimately show ?case using Cons assms(2) [of x y] by (cases "le x y") auto
qed simp

lemma mset_order_by: "mset (order_by le xs) = mset xs"
  unfolding order_by_def by (induction xs) simp_all

lemma set_order_by [simp]: "set (order_by le xs) = set xs"
  using mset_order_by by (metis set_mset_mset)

lemma sorted_order_by:
  assumes "\<And>x y. le x y \<or> le y x" and "\<And>x y z. le x y \<Longrightarrow> le y z \<Longrightarrow> le x z"
  shows "sorted_wrt le (order_by le xs)"
  unfolding order_by_def by (induction xs) (simp_all add: sorted_insert_by [OF assms])


end
