(* ===== verification/DeviceGroups.thy ===== *)
theory DeviceGroups
  imports NodeRoutes Tables
begin

text \<open>
  Device groups, src/src/api/routes/groups.py: a tree of groups stored with a parent pointer and a
  materialized path and depth. A site is a group with \<open>is_site\<close> set; its handlers are in
  the theory Sites.

  Tables are lists of rows. \<open>column.startswith(x)\<close> is SQLite's
  \<open>column LIKE x || '%'\<close>: \<open>%\<close> and \<open>_\<close> of \<open>x\<close> are wildcards
  and ASCII letters match in both cases. Foreign keys are not enforced (SQLite's default, which
  src/src/db/database.py leaves in place); deleting a group through the session clears the
  references the relationships \<open>children\<close> and \<open>nodes\<close> hold to it.

  The tree invariant says that paths and depths are those the parent pointers give. It is kept by
  every group request whose names are plain; under it the path query of the descendants is the
  parent relation, the walks up the tree end, and the effective settings are those of the nearest
  group that sets them.
\<close>

section \<open>Data\<close>

record device_group =
  g_id :: string
  g_name :: string
  g_description :: "string option"
  g_parent_id :: "string option"
  g_path :: string
  g_depth :: int
  g_default_workflow_id :: "string option"
  g_auto_provision :: "bool option"
  g_is_site :: bool
  g_agent_url :: "string option"
  g_agent_token_hash :: "string option"
  g_agent_status :: "string option"
  g_agent_last_seen :: "datetime option"
  g_autonomy_level :: "string option"
  g_conflict_resolution :: "string option"
  g_cache_policy :: "string option"
  g_cache_patterns_json :: "string option"
  g_cache_max_size_gb :: "int option"
  g_cache_retention_days :: "int option"
  g_discovery_method :: "string option"
  g_discovery_config_json :: "string option"
  g_migration_policy :: "string option"

record group_create =
  gc_name :: string
  gc_description :: "string option"
  gc_parent_id :: "string option"
  gc_default_workflow_id :: "string option"
  gc_auto_provision :: "bool option"

text \<open>A field of an update is \<open>None\<close> when the request does not set it.\<close>

record group_update =
  gu_name :: "string option option"
  gu_description :: "string option option"
  gu_parent_id :: "string option option"
  gu_default_workflow_id :: "string option option"
  gu_auto_provision :: "bool option option"

record tree =
  t_groups :: "device_group list"
  t_nodes :: "node list"

section \<open>Paths in SQL\<close>

fun like :: "string \<Rightarrow> string \<Rightarrow> bool" where
  "like [] s \<longleftrightarrow> s = []"
| "like (p # ps) [] \<longleftrightarrow> p = CHR ''%'' \<and> like ps []"
| "like (p # ps) (c # cs) \<longleftrightarrow>
     (if p = CHR ''%'' then like ps (c # cs) \<or> like (p # ps) cs
      else (p = CHR ''_'' \<or> lower_char p = lower_char c) \<and> like ps cs)"

definition sql_startswith :: "string \<Rightarrow> string \<Rightarrow> bool" where
  "sql_startswith col x = like (x @ ''%'') col"

text \<open>\<open>s.replace(old, new, 1)\<close>.\<close>

fun replace_first :: "string \<Rightarrow> string \<Rightarrow> string \<Rightarrow> string" where
  "replace_first old new [] = (if old = [] then new else [])"
| "replace_first old new (c # cs) =
     (if startswith (c # cs) old then new @ drop (length old) (c # cs)
      else c # replace_first old new cs)"

text \<open>A value in an f-string.\<close>

definition pystr :: "string option \<Rightarrow> string" where
  "pystr x = (case x of None \<Rightarrow> ''None'' | Some s \<Rightarrow> s)"

section \<open>Creating a group\<close>

definition valid_name :: "string \<Rightarrow> bool" where
  "valid_name v \<longleftrightarrow> v \<noteq> [] \<and> length v \<le> 100"

definition new_group :: "string \<Rightarrow> string \<Rightarrow> string \<Rightarrow> int \<Rightarrow> device_group" where
  "new_group uuid name path depth =
     \<lparr>g_id = uuid, g_name = name, g_description = None, g_parent_id = None, g_path = path, g_depth = depth,
      g_default_workflow_id = None, g_auto_provision = None, g_is_site = False, g_agent_url = None,
      g_agent_token_hash = None, g_agent_status = None, g_agent_last_seen = None, g_autonomy_level = None,
      g_conflict_resolution = None, g_cache_policy = None, g_cache_patterns_json = None,
      g_cache_max_size_gb = None, g_cache_retention_days = None, g_discovery_method = None,
      g_discovery_config_json = None, g_migration_policy = None\<rparr>"

text \<open>
  The place of a new group: the parent the request names, which for a site must be a site, and the
  path and depth below it.
\<close>

definition place_new ::
    "bool \<Rightarrow> string option \<Rightarrow> string \<Rightarrow> device_group list \<Rightarrow> api_error + string \<times> int" where
  "place_new need_site parent_id name gs =
     (if truthy parent_id then
        case sql_get g_id (the parent_id) gs of
          None \<Rightarrow> Inl (Status 404)
        | Some parent \<Rightarrow>
            if need_site \<and> \<not> g_is_site parent then Inl (Status 400)
            else Inr (g_path parent @ ''/'' @ name, g_depth parent + 1)
      else Inr (''/'' @ name, 0))"

definition insert_group :: "device_group \<Rightarrow> device_group list \<Rightarrow> api_error + device_group list" where
  "insert_group g gs =
     (case sql_insert g_id g gs of Inl _ \<Rightarrow> Inl ConstraintFailed | Inr gs' \<Rightarrow> Inr gs')"

definition group_of_create :: "string \<Rightarrow> group_create \<Rightarrow> string \<Rightarrow> int \<Rightarrow> device_group" where
  "group_of_create uuid r path depth =
     (new_group uuid (gc_name r) path depth)
       \<lparr>g_description := gc_description r, g_parent_id := gc_parent_id r,
        g_default_workflow_id := gc_default_workflow_id r, g_auto_provision := gc_auto_provision r\<rparr>"

definition create_group :: "string \<Rightarrow> group_create \<Rightarrow> device_group list \<Rightarrow> api_error + device_group list" where
  "create_group uuid r gs =
     (if \<not> valid_name (gc_name r) then Inl (Status 422)
      else if sql_get g_name (gc_name r) gs \<noteq> None then Inl (Status 409)
      else ebind (place_new False (gc_parent_id r) (gc_name r) gs) (\<lambda>(path, depth).
        insert_group (group_of_create uuid r path depth) gs))"

section \<open>Moving and renaming\<close>

definition name_taken :: "string option option \<Rightarrow> device_group \<Rightarrow> device_group list \<Rightarrow> bool" where
  "name_taken new_name g gs =
     (case new_name of
        Some (Some n) \<Rightarrow> n \<noteq> [] \<and> n \<noteq> g_name g \<and> sql_get g_name n gs \<noteq> None
      | _ \<Rightarrow> False)"

definition reparent_place ::
    "bool \<Rightarrow> device_group \<Rightarrow> string option \<Rightarrow> string option \<Rightarrow> device_group list \<Rightarrow> api_error + string \<times> int" where
  "reparent_place need_site g new_parent_id new_name gs =
     (if new_parent_id = Some (g_id g) then Inl (Status 400)
      else if truthy new_parent_id then
        case sql_get g_id (the new_parent_id) gs of
          None \<Rightarrow> Inl (Status 404)
        | Some new_parent \<Rightarrow>
            if need_site \<and> \<not> g_is_site new_parent then Inl (Status 400)
            else if startswith (g_path new_parent) (g_path g @ ''/'') \<or> g_id new_parent = g_id g then Inl (Status 400)
            else Inr (g_path new_parent @ ''/'' @ pystr new_name, g_depth new_parent + 1)
      else Inr (''/'' @ pystr new_name, 0))"

definition rename_path :: "device_group \<Rightarrow> string option \<Rightarrow> device_group list \<Rightarrow> api_error + string" where
  "rename_path g new_name gs =
     (if truthy (g_parent_id g) then
        case sql_get g_id (the (g_parent_id g)) gs of
          None \<Rightarrow> Inl NoResultFound
        | Some parent \<Rightarrow> Inr (g_path parent @ ''/'' @ pystr new_name)
      else Inr (''/'' @ pystr new_name))"

definition rewrite_descendants ::
    "string \<Rightarrow> string \<Rightarrow> int \<Rightarrow> device_group list \<Rightarrow> device_group list" where
  "rewrite_descendants old_path new_path depth_diff gs =
     map (\<lambda>desc. if sql_startswith (g_path desc) (old_path @ ''/'')
                 then desc\<lparr>g_path := replace_first old_path new_path (g_path desc),
                           g_depth := g_depth desc + depth_diff\<rparr>
                 else desc) gs"

definition save_group :: "device_group \<Rightarrow> device_group list \<Rightarrow> device_group list" where
  "save_group g gs = map (\<lambda>h. if g_id h = g_id g then g else h) gs"

text \<open>The flush at the end: the name column is NOT NULL and UNIQUE.\<close>

definition flush_group ::
    "string option option \<Rightarrow> device_group \<Rightarrow> device_group list \<Rightarrow> api_error + device_group list" where
  "flush_group new_name g gs =
     (if new_name = Some None \<or> (\<exists>h \<in> set gs. g_id h \<noteq> g_id g \<and> g_name h = g_name g)
      then Inl ConstraintFailed else Inr (save_group g gs))"

definition set_name :: "string option option \<Rightarrow> device_group \<Rightarrow> device_group" where
  "set_name u g = (case u of Some (Some n) \<Rightarrow> g\<lparr>g_name := n\<rparr> | _ \<Rightarrow> g)"

text \<open>
  The part the two update handlers share: check of the name, the move or the renaming with the
  rewriting of the descendants, and the flush of the group with its remaining fields set.
\<close>

definition move_and_save ::
    "bool \<Rightarrow> device_group \<Rightarrow> string option option \<Rightarrow> string option option \<Rightarrow>
     (device_group \<Rightarrow> device_group) \<Rightarrow> device_group list \<Rightarrow> api_error + device_group list" where
  "move_and_save need_site g new_name new_parent set_fields gs =
     (if name_taken new_name g gs then Inl (Status 409)
      else case new_parent of
        Some pid \<Rightarrow>
          ebind (reparent_place need_site g pid (set_or new_name (Some (g_name g))) gs) (\<lambda>(new_path, new_depth).
            flush_group new_name
              (set_fields (set_name new_name (g\<lparr>g_path := new_path, g_depth := new_depth, g_parent_id := pid\<rparr>)))
              (rewrite_descendants (g_path g) new_path (new_depth - g_depth g) gs))
      | None \<Rightarrow>
          (case new_name of
             None \<Rightarrow> flush_group None (set_fields g) gs
           | Some name \<Rightarrow>
               ebind (rename_path g name gs) (\<lambda>new_path.
                 flush_group new_name (set_fields (set_name new_name (g\<lparr>g_path := new_path\<rparr>)))
                   (rewrite_descendants (g_path g) new_path 0 gs))))"

definition set_group_fields :: "group_update \<Rightarrow> device_group \<Rightarrow> device_group" where
  "set_group_fields u g =
     g\<lparr>g_description := set_or (gu_description u) (g_description g),
       g_default_workflow_id := set_or (gu_default_workflow_id u) (g_default_workflow_id g),
       g_auto_provision := set_or (gu_auto_provision u) (g_auto_provision g)\<rparr>"

definition update_group :: "string \<Rightarrow> group_update \<Rightarrow> device_group list \<Rightarrow> api_error + device_group list" where
  "update_group group_id u gs =
     (case sql_get g_id group_id gs of
        None \<Rightarrow> Inl (Status 404)
      | Some g \<Rightarrow> move_and_save False g (gu_name u) (gu_parent_id u) (set_group_fields u) gs)"

section \<open>Deleting a group\<close>

text \<open>
  \<open>db.delete(group)\<close> and the flush: the row goes, and the rows that reach it through the
  relationships \<open>children\<close> and \<open>nodes\<close> lose their reference.
\<close>

definition delete_row :: "string \<Rightarrow> tree \<Rightarrow> tree" where
  "delete_row i t =
     t\<lparr>t_groups := map (\<lambda>g. if g_parent_id g = Some i then g\<lparr>g_parent_id := None\<rparr> else g)
                      (filter (\<lambda>g. g_id g \<noteq> i) (t_groups t)),
       t_nodes := map (\<lambda>n. if n_group_id n = Some i then n\<lparr>n_group_id := None\<rparr> else n) (t_nodes t)\<rparr>"

definition delete_group :: "string \<Rightarrow> tree \<Rightarrow> api_error + tree" where
  "delete_group group_id t =
     (case sql_get g_id group_id (t_groups t) of
        None \<Rightarrow> Inl (Status 404)
      | Some g \<Rightarrow>
          if length (filter (\<lambda>h. g_parent_id h = Some group_id) (t_groups t)) > 0 then Inl (Status 400)
          else if length (filter (\<lambda>n. n_group_id n = Some group_id) (t_nodes t)) > 0 then Inl (Status 400)
          else Inr (delete_row group_id t))"

section \<open>Walking up the tree\<close>

partial_function (option) ancestors_loop ::
    "device_group list \<Rightarrow> string option \<Rightarrow> device_group list \<Rightarrow> device_group list option" where
  "ancestors_loop gs current_id ancestors =
     (if truthy current_id then
        case sql_get g_id (the current_id) gs of
          None \<Rightarrow> Some ancestors
        | Some parent \<Rightarrow> ancestors_loop gs (g_parent_id parent) (ancestors @ [parent])
      else Some ancestors)"

text \<open>A handler that does not return is \<open>None\<close>.\<close>

definition get_group_ancestors :: "string \<Rightarrow> device_group list \<Rightarrow> (api_error + device_group list) option" where
  "get_group_ancestors group_id gs =
     (case sql_get g_id group_id gs of
        None \<Rightarrow> Some (Inl (Status 404))
      | Some g \<Rightarrow> map_option Inr (ancestors_loop gs (g_parent_id g) []))"

partial_function (option) settings_loop ::
    "device_group list \<Rightarrow> string option \<Rightarrow> string option \<Rightarrow> bool option \<Rightarrow> (string option \<times> bool option) option" where
  "settings_loop gs current_id workflow_id auto_provision =
     (if truthy current_id \<and> (workflow_id = None \<or> auto_provision = None) then
        case sql_get g_id (the current_id) gs of
          None \<Rightarrow> Some (workflow_id, auto_provision)
        | Some parent \<Rightarrow>
            settings_loop gs (g_parent_id parent)
              (if workflow_id = None \<and> g_default_workflow_id parent \<noteq> None
               then g_default_workflow_id parent else workflow_id)
              (if auto_provision = None \<and> g_auto_provision parent \<noteq> None
               then g_auto_provision parent else auto_provision)
      else Some (workflow_id, auto_provision))"

definition compute_effective_settings ::
    "device_group \<Rightarrow> device_group list \<Rightarrow> (string option \<times> bool) option" where
  "compute_effective_settings g gs =
     map_option (\<lambda>(w, a). (w, case a of None \<Rightarrow> False | Some b \<Rightarrow> b))
       (settings_loop gs (g_parent_id g) (g_default_workflow_id g) (g_auto_provision g))"

section \<open>Queries\<close>

text \<open>The computed fields of a group response.\<close>

record group_response =
  gr_group :: device_group
  gr_node_count :: nat
  gr_children_count :: nat
  gr_effective_workflow_id :: "string option"
  gr_effective_auto_provision :: bool

definition from_group ::
    "device_group \<Rightarrow> nat \<Rightarrow> nat \<Rightarrow> string option \<Rightarrow> bool \<Rightarrow> group_response" where
  "from_group g nodes children workflow_id auto_provision =
     \<lparr>gr_group = g, gr_node_count = nodes, gr_children_count = children,
      gr_effective_workflow_id = (if truthy workflow_id then workflow_id else g_default_workflow_id g),
      gr_effective_auto_provision = (case g_auto_provision g of None \<Rightarrow> auto_provision | Some b \<Rightarrow> b)\<rparr>"

definition list_groups :: "bool \<Rightarrow> string option \<Rightarrow> tree \<Rightarrow> group_response list" where
  "list_groups root_only parent_id t =
     map (\<lambda>g. from_group g
            (length (filter (\<lambda>n. n_group_id n = Some (g_id g)) (t_nodes t)))
            (length (filter (\<lambda>h. g_parent_id h = Some (g_id g)) (t_groups t))) None False)
       (filter (\<lambda>g. if root_only then g_parent_id g = None
                    else truthy parent_id \<longrightarrow> g_parent_id g = parent_id) (t_groups t))"

definition get_group :: "string \<Rightarrow> tree \<Rightarrow> (api_error + group_response) option" where
  "get_group group_id t =
     (case sql_get g_id group_id (t_groups t) of
        None \<Rightarrow> Some (Inl (Status 404))
      | Some g \<Rightarrow>
          map_option (\<lambda>(w, a). Inr (from_group g
              (length (filter (\<lambda>n. n_group_id n = Some group_id) (t_nodes t)))
              (length (filter (\<lambda>h. g_parent_id h = Some group_id) (t_groups t))) w a))
            (compute_effective_settings g (t_groups t)))"

text \<open>
  The descendants by path, in no particular order, and as the endpoint returns them: by depth,
  then by name (text compares by character codes).
\<close>

definition descendants :: "device_group \<Rightarrow> device_group list \<Rightarrow> device_group list" where
  "descendants g gs = filter (\<lambda>h. sql_startswith (g_path h) (g_path g @ ''/'')) gs"

definition depth_name_le :: "device_group \<Rightarrow> device_group \<Rightarrow> bool" where
  "depth_name_le g h \<longleftrightarrow> g_depth g < g_depth h
     \<or> g_depth g = g_depth h \<and> str_le (g_name g) (g_name h)"

definition get_group_descendants :: "string \<Rightarrow> device_group list \<Rightarrow> api_error + device_group list" where
  "get_group_descendants group_id gs =
     (case sql_get g_id group_id gs of
        None \<Rightarrow> Inl (Status 404)
      | Some g \<Rightarrow> Inr (order_by depth_name_le (descendants g gs)))"

definition list_group_nodes :: "string \<Rightarrow> bool \<Rightarrow> tree \<Rightarrow> api_error + node list" where
  "list_group_nodes group_id include_descendants t =
     (case sql_get g_id group_id (t_groups t) of
        None \<Rightarrow> Inl (Status 404)
      | Some g \<Rightarrow>
          if include_descendants then
            let all_group_ids = group_id # map g_id (descendants g (t_groups t))
            in Inr (filter (\<lambda>n. n_group_id n \<in> Some ` set all_group_ids) (t_nodes t))
          else Inr (filter (\<lambda>n. n_group_id n = Some group_id) (t_nodes t)))"

section \<open>Path prefixes\<close>

definition plain_char :: "char \<Rightarrow> bool" where
  "plain_char c \<longleftrightarrow> c \<noteq> CHR ''%'' \<and> c \<noteq> CHR ''_'' \<and> lower_char c = c"

definition plain_name :: "string \<Rightarrow> bool" where
  "plain_name n \<longleftrightarrow> n \<noteq> [] \<and> (\<forall>c \<in> set n. plain_char c \<and> c \<noteq> CHR ''/'')"

lemma like_percent: "like ''%'' s"
  by (induction s) auto

lemma like_prefix:
  assumes "\<forall>c \<in> set x. plain_char c" and "\<forall>c \<in> set s. lower_char c = c"
  shows "like (x @ ''%'') s \<longleftrightarrow> startswith s x"
  using assms
proof (induction x arbitrary: s)
  case Nil
  then show ?case using like_percent by (simp add: startswith_def)
next
  case (Cons p x)
  show ?case
  proof (cases s)
    case Nil
    then show ?thesis using Cons.prems by (auto simp: startswith_def plain_char_def)
  next
    case (Cons c cs)
    with Cons.prems Cons.IH [of cs] show ?thesis by (auto simp: startswith_def plain_char_def)
  qed
qed

lemma plain_slash: "plain_char (CHR ''/'')"
  by (simp add: plain_char_def lower_char_def)

lemma replace_first_prefix: "replace_first old new (old @ r) = new @ r"
proof (cases "old @ r")
  case (Cons c cs)
  have "startswith (c # cs) old" unfolding Cons [symmetric] by (simp add: startswith_def)
  then have "replace_first old new (c # cs) = new @ drop (length old) (c # cs)" by simp
  then show ?thesis unfolding Cons [symmetric] by simp
qed simp

text \<open>A prefix that ends in a slash lies before the last component, or is all that precedes it.\<close>

lemma startswith_component:
  assumes "CHR ''/'' \<notin> set n"
  shows "startswith (p @ ''/'' @ n) (q @ ''/'') \<longleftrightarrow> q = p \<or> startswith p (q @ ''/'')"
proof
  assume "startswith (p @ ''/'' @ n) (q @ ''/'')"
  then obtain r where r: "p @ CHR ''/'' # n = q @ CHR ''/'' # r"
    by (auto simp: startswith_iff)
  then consider us where "p = q @ us" "us @ CHR ''/'' # n = CHR ''/'' # r"
    | us where "q = p @ us" "CHR ''/'' # n = us @ CHR ''/'' # r"
    by (auto simp: append_eq_append_conv2)
  then show "q = p \<or> startswith p (q @ ''/'')"
  proof cases
    case 1
    then show ?thesis by (cases us) (auto simp: startswith_iff)
  next
    case 2
    then show ?thesis using assms by (cases us) auto
  qed
next
  assume "q = p \<or> startswith p (q @ ''/'')"
  then show "startswith (p @ ''/'' @ n) (q @ ''/'')" by (auto simp: startswith_iff)
qed

lemma component_unique:
  assumes "CHR ''/'' \<notin> set m" and "CHR ''/'' \<notin> set n" and "p @ ''/'' @ m = q @ ''/'' @ n"
  shows "p = q \<and> m = n"
proof -
  have "startswith (p @ ''/'' @ m) (q @ ''/'')" "startswith (q @ ''/'' @ n) (p @ ''/'')"
    using assms(3) by (auto simp: startswith_iff) (metis append_eq_Cons_conv)
  then have "q = p \<or> startswith p (q @ ''/'')" "p = q \<or> startswith q (p @ ''/'')"
    using startswith_component [OF assms(1)] startswith_component [OF assms(2)] by metis+
  then have "p = q" by (auto simp: startswith_iff)
  with assms(3) show ?thesis by simp
qed

section \<open>The tree invariant\<close>

definition placed :: "device_group list \<Rightarrow> device_group \<Rightarrow> bool" where
  "placed gs g =
     (if truthy (g_parent_id g) then
        case sql_get g_id (the (g_parent_id g)) gs of
          None \<Rightarrow> False
        | Some p \<Rightarrow> g_path g = g_path p @ ''/'' @ g_name g \<and> g_depth g = g_depth p + 1
      else g_path g = ''/'' @ g_name g \<and> g_depth g = 0)"

definition tree_ok :: "device_group list \<Rightarrow> bool" where
  "tree_ok gs \<longleftrightarrow> keys_unique g_id gs \<and> keys_unique g_name gs
     \<and> (\<forall>g \<in> set gs. plain_name (g_name g) \<and> placed gs g)"

definition parent_of :: "device_group list \<Rightarrow> device_group \<Rightarrow> device_group option" where
  "parent_of gs g = (if truthy (g_parent_id g) then sql_get g_id (the (g_parent_id g)) gs else None)"

lemma parent_in: "parent_of gs g = Some p \<Longrightarrow> p \<in> set gs"
  by (auto simp: parent_of_def dest: sql_get_SomeD split: if_splits)

lemma tree_okD:
  assumes "tree_ok gs" and "g \<in> set gs"
  shows "plain_name (g_name g)" and "placed gs g" and "sql_get g_id (g_id g) gs = Some g"
  using assms by (auto simp: tree_ok_def sql_get_in_set)

lemma placed_cases:
  assumes "placed gs g"
  obtains (root) "parent_of gs g = None" "g_path g = ''/'' @ g_name g" "g_depth g = 0"
  | (child) p where "parent_of gs g = Some p" "g_path g = g_path p @ ''/'' @ g_name g" "g_depth g = g_depth p + 1"
  using assms by (auto simp: placed_def parent_of_def split: if_splits option.splits)

lemma plain_no_slash: "plain_name n \<Longrightarrow> CHR ''/'' \<notin> set n"
  by (auto simp: plain_name_def)

lemma parent_path_shorter:
  assumes "tree_ok gs" and "g \<in> set gs" and "parent_of gs g = Some p"
  shows "length (g_path p) < length (g_path g)"
  using placed_cases [OF tree_okD(2) [OF assms(1,2)]] assms(3) by cases auto

text \<open>Induction from the roots down.\<close>

lemma tree_induct [consumes 2, case_names root child]:
  assumes ok: "tree_ok gs" and "g \<in> set gs"
    and root: "\<And>g. g \<in> set gs \<Longrightarrow> parent_of gs g = None \<Longrightarrow> g_path g = ''/'' @ g_name g \<Longrightarrow> g_depth g = 0 \<Longrightarrow> P g"
    and child: "\<And>g p. g \<in> set gs \<Longrightarrow> parent_of gs g = Some p \<Longrightarrow> p \<in> set gs \<Longrightarrow> P p \<Longrightarrow>
      g_path g = g_path p @ ''/'' @ g_name g \<Longrightarrow> g_depth g = g_depth p + 1 \<Longrightarrow> P g"
  shows "P g"
  using assms(2)
proof (induction g rule: measure_induct_rule [where f = "\<lambda>g. length (g_path g)"])
  case (less g)
  from tree_okD(2) [OF ok less.prems] show ?case
  proof (cases rule: placed_cases)
    case root
    with assms(3) less.prems show ?thesis by blast
  next
    case (child p)
    have "P p" using less.IH [OF parent_path_shorter [OF ok less.prems child(1)] parent_in [OF child(1)]] .
    with child assms(4) less.prems parent_in show ?thesis by blast
  qed
qed

lemma path_plain:
  assumes "tree_ok gs" and "g \<in> set gs"
  shows "(\<forall>c \<in> set (g_path g). plain_char c) \<and> g_path g \<noteq> [] \<and> hd (g_path g) = CHR ''/''"
  using assms
proof (induction g rule: tree_induct)
  case (root g)
  then show ?case using tree_okD(1) [OF assms(1) root(1)] plain_slash by (auto simp: plain_name_def)
next
  case (child g p)
  then show ?case using tree_okD(1) [OF assms(1) child(1)] plain_slash by (auto simp: plain_name_def)
qed

lemma path_unique:
  assumes "tree_ok gs" and "g \<in> set gs" and "h \<in> set gs" and "g_path g = g_path h"
  shows "g = h"
proof -
  have "\<exists>p. g_path g = p @ ''/'' @ g_name g" if "g \<in> set gs" for g
    using placed_cases [OF tree_okD(2) [OF assms(1) that]] by cases auto
  then obtain p q where "p @ ''/'' @ g_name g = q @ ''/'' @ g_name h"
    using assms(2-4) by metis
  then have "g_name g = g_name h"
    using component_unique tree_okD(1) [OF assms(1)] plain_no_slash assms(2,3) by blast
  then show ?thesis using assms(1-3) by (auto simp: tree_ok_def keys_unique_def distinct_map inj_on_def)
qed

text \<open>Under the invariant, the path query finds the groups below a group.\<close>

definition below :: "device_group \<Rightarrow> device_group \<Rightarrow> bool" where
  "below g h \<longleftrightarrow> startswith (g_path h) (g_path g @ ''/'')"

lemma sql_startswith_below:
  assumes "tree_ok gs" and "g \<in> set gs" and "h \<in> set gs"
  shows "sql_startswith (g_path h) (g_path g @ ''/'') \<longleftrightarrow> below g h"
proof -
  have "\<forall>c \<in> set (g_path g @ ''/''). plain_char c" "\<forall>c \<in> set (g_path h). lower_char c = c"
    using path_plain [OF assms(1,2)] path_plain [OF assms(1,3)] plain_slash by (auto simp: plain_char_def)
  from like_prefix [OF this] show ?thesis by (simp add: sql_startswith_def below_def)
qed

lemma below_root:
  assumes "tree_ok gs" and "g \<in> set gs" and "h \<in> set gs" and "parent_of gs h = None"
  shows "\<not> below g h"
proof
  assume "below g h"
  moreover have "g_path h = ''/'' @ g_name h"
    using placed_cases [OF tree_okD(2) [OF assms(1,3)]] assms(4) by cases auto
  ultimately obtain r where "CHR ''/'' # g_name h = g_path g @ CHR ''/'' # r"
    by (auto simp: below_def startswith_iff)
  then have "CHR ''/'' \<in> set (g_name h)"
    using path_plain [OF assms(1,2)] by (cases "g_path g") auto
  then show False using plain_no_slash tree_okD(1) [OF assms(1,3)] by blast
qed

lemma below_step:
  assumes "tree_ok gs" and "g \<in> set gs" and "h \<in> set gs" and "parent_of gs h = Some p"
  shows "below g h \<longleftrightarrow> p = g \<or> below g p"
proof -
  have "g_path h = g_path p @ ''/'' @ g_name h"
    using placed_cases [OF tree_okD(2) [OF assms(1,3)]] assms(4) by cases auto
  then have "below g h \<longleftrightarrow> g_path g = g_path p \<or> below g p"
    using startswith_component [OF plain_no_slash [OF tree_okD(1) [OF assms(1,3)]]] by (simp add: below_def)
  then show ?thesis using path_unique [OF assms(1,2) parent_in [OF assms(4)]] by auto
qed

lemma below_irrefl: "\<not> below g g"
  by (auto simp: below_def startswith_iff)


section \<open>Requests keep the tree\<close>

lemma sql_get_map_on:
  "(\<forall>g \<in> set gs. g_id (f g) = g_id g) \<Longrightarrow> sql_get g_id i (map f gs) = map_option f (sql_get g_id i gs)"
  by (induction gs) (auto simp: sql_get_def)

lemma sql_get_snoc_group:
  "sql_get g_id i gs = Some p \<Longrightarrow> sql_get g_id i (gs @ [g]) = Some p"
  by (simp add: sql_get_def find_append)

lemma placed_snoc: "placed gs h \<Longrightarrow> placed (gs @ [g]) h"
  by (auto simp: placed_def sql_get_snoc_group split: if_splits option.splits)

text \<open>A new group in the place the handlers compute.\<close>

lemma insert_group_ok:
  assumes "tree_ok gs" and "insert_group g gs = Inr gs'" and "plain_name (g_name g)"
    and "sql_get g_name (g_name g) gs = None"
    and "place_new need_site (g_parent_id g) (g_name g) gs = Inr (g_path g, g_depth g)"
  shows "tree_ok gs'"
proof -
  have gs': "gs' = gs @ [g]" "g_id g \<notin> g_id ` set gs"
    using assms(2) by (auto simp: insert_group_def sql_insert_def split: if_splits)
  have "placed gs g"
    using assms(5) by (auto simp: place_new_def placed_def split: if_splits option.splits)
  then have "placed gs' g" "\<forall>h \<in> set gs. placed gs' h"
    using assms(1) by (auto simp: gs'(1) tree_ok_def placed_snoc)
  moreover have "keys_unique g_id gs'" "keys_unique g_name gs'"
    using assms(1,4) gs' by (auto simp: tree_ok_def keys_unique_def sql_get_None_iff)
  ultimately show ?thesis using assms(1,3) by (auto simp: tree_ok_def gs'(1))
qed

lemma create_group_inserts:
  assumes "create_group uuid r gs = Inr gs'"
  obtains g where "sql_get g_name (g_name g) gs = None" and "insert_group g gs = Inr gs'" and "g_name g = gc_name r"
    and "place_new False (g_parent_id g) (g_name g) gs = Inr (g_path g, g_depth g)"
proof -
  from assms obtain path depth where "sql_get g_name (gc_name r) gs = None"
      "place_new False (gc_parent_id r) (gc_name r) gs = Inr (path, depth)"
      "insert_group (group_of_create uuid r path depth) gs = Inr gs'"
    unfolding create_group_def by (auto simp: ebind_Inr_iff split: if_splits)
  moreover have "g_name (group_of_create uuid r path depth) = gc_name r"
      "g_parent_id (group_of_create uuid r path depth) = gc_parent_id r"
      "g_path (group_of_create uuid r path depth) = path" "g_depth (group_of_create uuid r path depth) = depth"
    by (simp_all add: group_of_create_def new_group_def)
  ultimately show thesis by (intro that [of "group_of_create uuid r path depth"]) simp_all
qed

lemma create_group_ok:
  assumes "tree_ok gs" and "create_group uuid r gs = Inr gs'" and "plain_name (gc_name r)"
  shows "tree_ok gs'"
  using assms insert_group_ok by (auto elim!: create_group_inserts)

text \<open>
  A group taken to another place with its descendants: \<open>g'\<close> replaces \<open>g\<close>, standing
  below a group that is neither \<open>g\<close> nor below it.
\<close>

definition relocated :: "device_group \<Rightarrow> device_group \<Rightarrow> device_group \<Rightarrow> device_group" where
  "relocated g g' h =
     (if h = g then g'
      else if below g h
      then h\<lparr>g_path := replace_first (g_path g) (g_path g') (g_path h),
             g_depth := g_depth h + (g_depth g' - g_depth g)\<rparr>
      else h)"

lemma relocated_id: "g_id g' = g_id g \<Longrightarrow> g_id (relocated g g' h) = g_id h"
  by (simp add: relocated_def)

lemma relocated_name: "g_name (relocated g g' h) = (if h = g then g_name g' else g_name h)"
  by (simp add: relocated_def)

lemma same_group:
  assumes "tree_ok gs" and "g \<in> set gs" and "h \<in> set gs"
  shows "h = g \<longleftrightarrow> g_id h = g_id g"
  using tree_okD(3) [OF assms(1,2)] tree_okD(3) [OF assms(1,3)] by (metis option.inject)

lemma relocated_eq:
  assumes "tree_ok gs" and "g \<in> set gs" and "g_id g' = g_id g"
  shows "save_group g' (rewrite_descendants (g_path g) (g_path g') (g_depth g' - g_depth g) gs)
    = map (relocated g g') gs"
proof -
  have "(let h = (if sql_startswith (g_path h) (g_path g @ ''/'')
      then h\<lparr>g_path := replace_first (g_path g) (g_path g') (g_path h), g_depth := g_depth h + (g_depth g' - g_depth g)\<rparr>
      else h) in if g_id h = g_id g' then g' else h) = relocated g g' h" if "h \<in> set gs" for h
  proof (cases "h = g")
    case True
    then show ?thesis by (simp add: relocated_def assms(3) Let_def)
  next
    case False
    then have "g_id h \<noteq> g_id g" using same_group [OF assms(1,2) that] by blast
    with False show ?thesis by (simp add: relocated_def assms(3) Let_def sql_startswith_below [OF assms(1,2) that])
  qed
  then show ?thesis by (simp add: save_group_def rewrite_descendants_def Let_def)
qed

text \<open>The new path and depth of a descendant follow those of its parent.\<close>

lemma relocated_step:
  assumes "tree_ok gs" and "g \<in> set gs" and "h \<in> set gs" and "h \<noteq> g" and "parent_of gs h = Some p"
    and "g_path h = g_path p @ ''/'' @ g_name h" and "g_depth h = g_depth p + 1"
  shows "g_path (relocated g g' h) = g_path (relocated g g' p) @ ''/'' @ g_name (relocated g g' h)
    \<and> g_depth (relocated g g' h) = g_depth (relocated g g' p) + 1"
proof -
  have b: "below g h \<longleftrightarrow> p = g \<or> below g p" by (rule below_step [OF assms(1-3,5)])
  show ?thesis
  proof (cases "below g h")
    case True
    then obtain r where "g_path p = g_path g @ r" "p = g \<longrightarrow> r = []"
      using b by (auto simp: below_def startswith_iff)
    then show ?thesis using True assms(4,6,7) b by (auto simp: relocated_def replace_first_prefix)
  next
    case False
    then show ?thesis using assms(4,6,7) b by (simp add: relocated_def)
  qed
qed

lemma relocated_placed:
  assumes ok: "tree_ok gs" and g: "g \<in> set gs" and id: "g_id g' = g_id g" and h: "h \<in> set gs"
    and place: "placed gs g'" and parent: "\<forall>q. parent_of gs g' = Some q \<longrightarrow> q \<noteq> g \<and> \<not> below g q"
  shows "placed (map (relocated g g') gs) (relocated g g' h)"
proof -
  let ?f = "relocated g g'"
  have get: "sql_get g_id i (map ?f gs) = map_option ?f (sql_get g_id i gs)" for i
    by (rule sql_get_map_on) (simp add: relocated_id [OF id])
  have par: "placed (map ?f gs) h'" if "parent_of gs h' = Some q" "g_path h' = g_path (?f q) @ ''/'' @ g_name h'"
      "g_depth h' = g_depth (?f q) + 1" for h' q
    using that by (auto simp: placed_def parent_of_def get split: if_splits)
  have at_root: "placed (map ?f gs) h'" if "placed gs h'" "parent_of gs h' = None" for h'
    using that by (auto simp: placed_def parent_of_def split: if_splits)
  show ?thesis
  proof (cases "h = g")
    case True
    from place show ?thesis
    proof (cases rule: placed_cases)
      case root
      then show ?thesis using place True by (simp add: relocated_def at_root)
    next
      case (child q)
      then have "?f q = q" using parent by (auto simp: relocated_def)
      with child True show ?thesis by (intro par [of _ q]) (auto simp: relocated_def)
    qed
  next
    case False
    from tree_okD(2) [OF ok h] show ?thesis
    proof (cases rule: placed_cases)
      case root
      then show ?thesis using False below_root [OF ok g h] tree_okD(2) [OF ok h] by (simp add: relocated_def at_root)
    next
      case (child p)
      have "parent_of gs (?f h) = Some p"
        using child(1) False by (simp add: relocated_def parent_of_def split: if_splits)
      then show ?thesis using relocated_step [OF ok g h False child] par by blast
    qed
  qed
qed

lemma relocate_ok:
  assumes ok: "tree_ok gs" and g: "g \<in> set gs" and id: "g_id g' = g_id g"
    and name: "plain_name (g_name g')" "\<forall>h \<in> set gs. g_id h \<noteq> g_id g \<longrightarrow> g_name h \<noteq> g_name g'"
    and place: "placed gs g'" and parent: "\<forall>q. parent_of gs g' = Some q \<longrightarrow> q \<noteq> g \<and> \<not> below g q"
  shows "tree_ok (save_group g' (rewrite_descendants (g_path g) (g_path g') (g_depth g' - g_depth g) gs))"
proof -
  have "keys_unique g_id (map (relocated g g') gs)"
    using ok by (simp add: tree_ok_def keys_unique_def comp_def relocated_id [OF id])
  moreover have "inj_on (\<lambda>h. g_name (relocated g g' h)) (set gs)"
    using ok name(2) same_group [OF ok g]
    by (auto simp: inj_on_def relocated_name tree_ok_def keys_unique_def distinct_map)
  then have "keys_unique g_name (map (relocated g g') gs)"
    using ok by (auto simp: keys_unique_def distinct_map comp_def tree_ok_def)
  moreover have "\<forall>h \<in> set gs. plain_name (g_name (relocated g g' h))"
    using tree_okD(1) [OF ok] name(1) by (simp add: relocated_name)
  ultimately show ?thesis
    unfolding relocated_eq [OF ok g id] tree_ok_def
    using relocated_placed [OF ok g id _ place parent] by auto
qed

text \<open>The updates: a move, a renaming, or other fields only.\<close>

lemma replace_first_same: "replace_first p p s = s"
  by (induction s) (auto simp: startswith_iff)

lemma rewrite_same: "rewrite_descendants p p 0 gs = gs"
  by (simp add: rewrite_descendants_def replace_first_same map_idI)

lemma rewrite_rows:
  assumes "h \<in> set gs"
  obtains h' where "h' \<in> set (rewrite_descendants p q k gs)" and "g_id h' = g_id h" and "g_name h' = g_name h"
proof -
  let ?f = "\<lambda>desc. if sql_startswith (g_path desc) (p @ ''/'')
    then desc\<lparr>g_path := replace_first p q (g_path desc), g_depth := g_depth desc + k\<rparr> else desc"
  have "?f h \<in> set (rewrite_descendants p q k gs)" using assms by (simp add: rewrite_descendants_def)
  then show thesis using that [of "?f h"] by (simp split: if_splits)
qed

lemma flush_ok:
  assumes "tree_ok gs" and "g \<in> set gs" and "g_id g' = g_id g" and "plain_name (g_name g')" and "placed gs g'"
    and "\<forall>q. parent_of gs g' = Some q \<longrightarrow> q \<noteq> g \<and> \<not> below g q"
    and "flush_group nn g' (rewrite_descendants (g_path g) (g_path g') (g_depth g' - g_depth g) gs) = Inr gs'"
  shows "tree_ok gs'"
proof -
  let ?gs = "rewrite_descendants (g_path g) (g_path g') (g_depth g' - g_depth g) gs"
  have names: "\<forall>h \<in> set ?gs. g_id h \<noteq> g_id g \<longrightarrow> g_name h \<noteq> g_name g'" and gs': "gs' = save_group g' ?gs"
    using assms(3,7) by (auto simp: flush_group_def split: if_splits)
  have "\<forall>h \<in> set gs. g_id h \<noteq> g_id g \<longrightarrow> g_name h \<noteq> g_name g'"
    using names rewrite_rows by metis
  then show ?thesis unfolding gs' using relocate_ok [OF assms(1-4) _ assms(5,6)] by simp
qed

lemma parent_not_below:
  assumes "tree_ok gs" and "g \<in> set gs" and "parent_of gs g = Some q"
  shows "q \<noteq> g \<and> \<not> below g q"
  using parent_path_shorter [OF assms] by (auto simp: below_def startswith_iff)

lemma pystr_simps [simp]: "pystr (Some s) = s"
  by (simp add: pystr_def)

lemma set_name_simps [simp]:
  "set_name None g = g" "set_name (Some None) g = g" "set_name (Some (Some n)) g = g\<lparr>g_name := n\<rparr>"
  by (simp_all add: set_name_def)

text \<open>The place a move computes, for a group \<open>g'\<close> that has the fields it sets.\<close>

lemma reparent_place_ok:
  assumes "reparent_place need_site g pid (Some (g_name g')) gs = Inr (g_path g', g_depth g')" and "g_parent_id g' = pid"
  shows "placed gs g' \<and> (\<forall>q. parent_of gs g' = Some q \<longrightarrow> q \<noteq> g \<and> \<not> below g q)"
  using assms by (auto simp: reparent_place_def placed_def parent_of_def below_def split: if_splits option.splits)

lemma rename_path_ok:
  assumes "tree_ok gs" and "g \<in> set gs" and "rename_path g (Some (g_name g')) gs = Inr (g_path g')"
    and "g_parent_id g' = g_parent_id g" and "g_depth g' = g_depth g"
  shows "placed gs g' \<and> (\<forall>q. parent_of gs g' = Some q \<longrightarrow> q \<noteq> g \<and> \<not> below g q)"
proof -
  have "parent_of gs g' = parent_of gs g" by (simp add: parent_of_def assms(4))
  moreover have "placed gs g'" using assms(3-5) tree_okD(2) [OF assms(1,2)]
    by (auto simp: rename_path_def placed_def split: if_splits option.splits)
  ultimately show ?thesis using parent_not_below [OF assms(1,2)] by metis
qed

lemma rename_same:
  assumes "tree_ok gs" and "g \<in> set gs"
  shows "rename_path g (Some (g_name g)) gs = Inr (g_path g)"
  using tree_okD(2) [OF assms] by (auto simp: rename_path_def placed_def split: if_splits option.splits)

definition keeps_place :: "(device_group \<Rightarrow> device_group) \<Rightarrow> bool" where
  "keeps_place f \<longleftrightarrow> (\<forall>g. g_id (f g) = g_id g \<and> g_name (f g) = g_name g \<and> g_path (f g) = g_path g
     \<and> g_depth (f g) = g_depth g \<and> g_parent_id (f g) = g_parent_id g)"

lemma move_and_save_ok:
  assumes ok: "tree_ok gs" and g: "g \<in> set gs" and fields: "keeps_place set_fields"
    and name: "\<And>n. new_name = Some (Some n) \<Longrightarrow> plain_name n"
    and run: "move_and_save need_site g new_name new_parent set_fields gs = Inr gs'"
  shows "tree_ok gs'"
proof (cases "new_name = Some None")
  case True
  then show ?thesis using run
    by (auto simp: move_and_save_def flush_group_def ebind_Inr_iff split: if_splits option.splits)
next
  case False
  define n where "n = (case new_name of Some (Some n) \<Rightarrow> n | _ \<Rightarrow> g_name g)"
  have n: "plain_name n" "set_or new_name (Some (g_name g)) = Some n"
    using tree_okD(1) [OF ok g] name False by (auto simp: n_def split: option.splits)
  have nm: "g_name (set_fields (set_name new_name h)) = n" if "g_name h = g_name g" for h
    using that False fields by (cases new_name) (auto simp: n_def keeps_place_def split: option.splits)
  have keep: "g_id (set_fields (set_name new_name h)) = g_id h" "g_path (set_fields (set_name new_name h)) = g_path h"
      "g_depth (set_fields (set_name new_name h)) = g_depth h"
      "g_parent_id (set_fields (set_name new_name h)) = g_parent_id h" for h
    using fields by (simp_all add: keeps_place_def set_name_def split: option.splits)
  show ?thesis
  proof (cases new_parent)
    case (Some pid)
    with run obtain path depth where
        p: "reparent_place need_site g pid (Some n) gs = Inr (path, depth)"
      and f: "flush_group new_name (set_fields (set_name new_name (g\<lparr>g_path := path, g_depth := depth, g_parent_id := pid\<rparr>)))
         (rewrite_descendants (g_path g) path (depth - g_depth g) gs) = Inr gs'"
      by (auto simp: move_and_save_def ebind_Inr_iff n split: if_splits)
    let ?g = "set_fields (set_name new_name (g\<lparr>g_path := path, g_depth := depth, g_parent_id := pid\<rparr>))"
    have "placed gs ?g \<and> (\<forall>q. parent_of gs ?g = Some q \<longrightarrow> q \<noteq> g \<and> \<not> below g q)"
      by (rule reparent_place_ok [where pid = pid and need_site = need_site]) (simp_all add: nm keep p)
    then show ?thesis using f n(1) by (intro flush_ok [OF ok g, of ?g]) (simp_all add: nm keep)
  next
    case None
    with run obtain path where
        p: "rename_path g (Some n) gs = Inr path"
      and f: "flush_group new_name (set_fields (set_name new_name (g\<lparr>g_path := path\<rparr>)))
         (rewrite_descendants (g_path g) path 0 gs) = Inr gs'"
    proof (cases new_name)
      case None
      then show thesis using that [of "g_path g"] run \<open>new_parent = None\<close>
        by (simp add: move_and_save_def rename_same [OF ok g] rewrite_same n_def split: if_splits)
    next
      case (Some u)
      then show thesis using that False run \<open>new_parent = None\<close>
        by (auto simp: move_and_save_def ebind_Inr_iff n_def split: if_splits option.splits)
    qed
    let ?g = "set_fields (set_name new_name (g\<lparr>g_path := path\<rparr>))"
    have "placed gs ?g \<and> (\<forall>q. parent_of gs ?g = Some q \<longrightarrow> q \<noteq> g \<and> \<not> below g q)"
      by (rule rename_path_ok [OF ok g]) (simp_all add: nm keep p)
    then show ?thesis using f n(1) by (intro flush_ok [OF ok g, of ?g]) (simp_all add: nm keep)
  qed
qed

lemma update_group_ok:
  assumes "tree_ok gs" and "update_group i u gs = Inr gs'" and "\<And>n. gu_name u = Some (Some n) \<Longrightarrow> plain_name n"
  shows "tree_ok gs'"
proof -
  obtain g where g: "sql_get g_id i gs = Some g"
    and "move_and_save False g (gu_name u) (gu_parent_id u) (set_group_fields u) gs = Inr gs'"
    using assms(2) by (auto simp: update_group_def split: option.splits)
  moreover have "g \<in> set gs" using sql_get_SomeD [OF g] by blast
  moreover have "keeps_place (set_group_fields u)" by (simp add: keeps_place_def set_group_fields_def)
  ultimately show ?thesis using move_and_save_ok [OF assms(1)] assms(3) by blast
qed

lemma sql_get_filter_other:
  "j \<noteq> i \<Longrightarrow> sql_get g_id j (filter (\<lambda>g. g_id g \<noteq> i) gs) = sql_get g_id j gs"
  by (induction gs) (auto simp: sql_get_def)

lemma delete_row_ok:
  assumes "tree_ok (t_groups t)" and "\<forall>g \<in> set (t_groups t). g_parent_id g \<noteq> Some i"
  shows "tree_ok (t_groups (delete_row i t))"
proof -
  let ?gs = "filter (\<lambda>g. g_id g \<noteq> i) (t_groups t)"
  have eq: "t_groups (delete_row i t) = ?gs"
    using assms(2) by (auto simp: delete_row_def intro!: map_idI)
  have "placed ?gs g" if "g \<in> set (t_groups t)" for g
  proof -
    have "truthy (g_parent_id g) \<Longrightarrow> the (g_parent_id g) \<noteq> i" using that assms(2) by (cases "g_parent_id g") auto
    then show ?thesis using tree_okD(2) [OF assms(1) that] by (simp add: placed_def sql_get_filter_other split: if_splits)
  qed
  then show ?thesis using assms(1) by (auto simp: tree_ok_def eq keys_unique_filter)
qed

lemma delete_group_ok:
  assumes "tree_ok (t_groups t)" and "delete_group i t = Inr t'"
  shows "tree_ok (t_groups t')"
  using assms delete_row_ok
  by (auto simp: delete_group_def filter_empty_conv split: option.splits if_splits)

section \<open>The walks end\<close>

lemma parent_unfold:
  "ancestors_loop gs (g_parent_id g) acc =
     (case parent_of gs g of None \<Rightarrow> Some acc | Some p \<Rightarrow> ancestors_loop gs (g_parent_id p) (acc @ [p]))"
  "settings_loop gs (g_parent_id g) w a =
     (case parent_of gs g of
        None \<Rightarrow> Some (w, a)
      | Some p \<Rightarrow> if w \<noteq> None \<and> a \<noteq> None then Some (w, a)
          else settings_loop gs (g_parent_id p) (if w = None then g_default_workflow_id p else w)
                 (if a = None then g_auto_provision p else a))"
  by (subst ancestors_loop.simps, simp add: parent_of_def)
    (subst settings_loop.simps, auto simp: parent_of_def split: option.splits)

text \<open>The first group of a list that sets a value.\<close>

definition nearest :: "(device_group \<Rightarrow> 'a option) \<Rightarrow> device_group list \<Rightarrow> 'a option" where
  "nearest f gs = (case find (\<lambda>h. f h \<noteq> None) gs of None \<Rightarrow> None | Some h \<Rightarrow> f h)"

lemma nearest_simps [simp]:
  "nearest f [] = None"
  "nearest f (g # gs) = (if f g = None then nearest f gs else f g)"
  by (simp_all add: nearest_def)

lemma walk_up:
  assumes "tree_ok gs" and "g \<in> set gs"
  shows "\<exists>as. (\<forall>acc. ancestors_loop gs (g_parent_id g) acc = Some (acc @ as))
    \<and> (\<forall>w a. settings_loop gs (g_parent_id g) w a =
         Some (if w = None then nearest g_default_workflow_id as else w, if a = None then nearest g_auto_provision as else a))
    \<and> set as = {h \<in> set gs. below h g} \<and> int (length as) = g_depth g
    \<and> sorted_wrt (\<lambda>x y. parent_of gs x = Some y \<or> below y x) (g # as)"
  using assms
proof (induction g rule: tree_induct)
  case (root g)
  then show ?case using below_root [OF assms(1)] by (auto simp: parent_unfold intro!: exI [of _ "[]"])
next
  case (child g p)
  then obtain as where l: "\<And>acc. ancestors_loop gs (g_parent_id p) acc = Some (acc @ as)"
    and s: "\<And>w a. settings_loop gs (g_parent_id p) w a =
         Some (if w = None then nearest g_default_workflow_id as else w, if a = None then nearest g_auto_provision as else a)"
    and as: "set as = {h \<in> set gs. below h p}" "int (length as) = g_depth p"
    and "sorted_wrt (\<lambda>x y. parent_of gs x = Some y \<or> below y x) (p # as)" by blast
  moreover have "set (p # as) = {h \<in> set gs. below h g}"
    using as(1) below_step [OF assms(1) _ child(1,2)] child(3) by auto
  ultimately show ?case using child
    by (intro exI [of _ "p # as"]) (auto simp: parent_unfold below_step [OF assms(1) _ child(1,2)])
qed

text \<open>
  C21: The walks up the group tree end and give the nearest settings. In a tree whose paths are
  those of its parent pointers, the ancestors of a group are returned, as many as its depth and
  exactly the groups whose path is a proper prefix of its own, and its effective settings are
  those of the nearest group that sets them, the group itself first, automatic provisioning being
  off when none does.
\<close>

theorem group_inheritance:
  assumes "tree_ok gs" and "sql_get g_id i gs = Some g"
  shows "\<exists>as. get_group_ancestors i gs = Some (Inr as) \<and> int (length as) = g_depth g
    \<and> set as = {h \<in> set gs. startswith (g_path g) (g_path h @ ''/'')}
    \<and> compute_effective_settings g gs
        = Some (nearest g_default_workflow_id (g # as), nearest g_auto_provision (g # as) = Some True)"
proof -
  have "g \<in> set gs" using sql_get_SomeD [OF assms(2)] by blast
  from walk_up [OF assms(1) this] obtain as where
    "\<forall>acc. ancestors_loop gs (g_parent_id g) acc = Some (acc @ as)"
    "\<forall>w a. settings_loop gs (g_parent_id g) w a =
         Some (if w = None then nearest g_default_workflow_id as else w, if a = None then nearest g_auto_provision as else a)"
    "set as = {h \<in> set gs. below h g}" "int (length as) = g_depth g" by blast
  then show ?thesis
    by (intro exI [of _ as])
      (auto simp: get_group_ancestors_def assms(2) compute_effective_settings_def below_def split: option.splits)
qed

section \<open>Descendants\<close>

lemma depth_name_le_total: "depth_name_le g h \<or> depth_name_le h g"
  using str_le_total by (auto simp: depth_name_le_def)

lemma depth_name_le_trans: "depth_name_le g h \<Longrightarrow> depth_name_le h k \<Longrightarrow> depth_name_le g k"
  using str_le_trans by (fastforce simp: depth_name_le_def)

lemma descendants_below:
  assumes "tree_ok gs" and "g \<in> set gs"
  shows "descendants g gs = filter (below g) gs"
  unfolding descendants_def using sql_startswith_below [OF assms] by (intro filter_cong) simp_all

text \<open>
  The descendants of a group. In a tree whose paths are those of its parent pointers the query by
  materialized path returns, ordered by depth and name and each once, exactly the groups that have
  the group among the ancestors the walk along the parent pointers finds; and the nodes listed with
  the descendants are those of the group and of these groups.
\<close>

theorem descendants_by_path:
  assumes "tree_ok (t_groups t)" and "sql_get g_id i (t_groups t) = Some g"
  shows "\<exists>ds. get_group_descendants i (t_groups t) = Inr ds \<and> distinct ds \<and> sorted_wrt depth_name_le ds
    \<and> set ds = {h \<in> set (t_groups t). \<exists>as. get_group_ancestors (g_id h) (t_groups t) = Some (Inr as) \<and> g \<in> set as}
    \<and> list_group_nodes i True t = Inr (filter (\<lambda>n. \<exists>h \<in> set (g # ds). n_group_id n = Some (g_id h)) (t_nodes t))"
proof -
  let ?gs = "t_groups t"
  have g: "g \<in> set ?gs" "g_id g = i" using sql_get_SomeD [OF assms(2)] by auto
  let ?ds = "order_by depth_name_le (descendants g ?gs)"
  have dist: "distinct (descendants g ?gs)"
    using assms(1) by (auto simp: descendants_def tree_ok_def keys_unique_def distinct_map)
  have mem: "below g h \<longleftrightarrow> (\<exists>as. get_group_ancestors (g_id h) ?gs = Some (Inr as) \<and> g \<in> set as)" if h: "h \<in> set ?gs" for h
  proof -
    obtain as where "\<forall>acc. ancestors_loop ?gs (g_parent_id h) acc = Some (acc @ as)" "set as = {k \<in> set ?gs. below k h}"
      using walk_up [OF assms(1) h] by blast
    then show ?thesis using g(1) by (simp add: get_group_ancestors_def tree_okD(3) [OF assms(1) h])
  qed
  have "set ?ds = {h \<in> set ?gs. \<exists>as. get_group_ancestors (g_id h) ?gs = Some (Inr as) \<and> g \<in> set as}"
    using mem by (auto simp: descendants_below [OF assms(1) g(1)])
  moreover have "list_group_nodes i True t = Inr (filter (\<lambda>n. \<exists>h \<in> set (g # ?ds). n_group_id n = Some (g_id h)) (t_nodes t))"
    by (auto simp: list_group_nodes_def assms(2) g(2) intro!: filter_cong)
  moreover have "distinct ?ds" using dist mset_order_by mset_eq_imp_distinct_iff by metis
  ultimately show ?thesis
    using sorted_order_by [OF depth_name_le_total depth_name_le_trans]
    by (intro exI [of _ ?ds]) (simp add: get_group_descendants_def assms(2))
qed


section \<open>Examples\<close>

definition example_groups :: "device_group list" where
  "example_groups =
     [(new_group ''a'' ''lab'' ''/lab'' 0)\<lparr>g_default_workflow_id := Some ''w''\<rparr>,
      (new_group ''b'' ''rack'' ''/lab/rack'' 1)\<lparr>g_parent_id := Some ''a''\<rparr>]"

lemma example_groups_ok: "tree_ok example_groups"
  by (simp add: example_groups_def new_group_def sql_get_def tree_ok_def keys_unique_def placed_def plain_name_def
      plain_char_def lower_char_def)

theorem group_inheritance_witness:
  "\<exists>as. get_group_ancestors ''b'' example_groups = Some (Inr as) \<and> int (length as) = 1
    \<and> set as = {h \<in> set example_groups. startswith (g_path (example_groups ! 1)) (g_path h @ ''/'')}
    \<and> compute_effective_settings (example_groups ! 1) example_groups
        = Some (nearest g_default_workflow_id (example_groups ! 1 # as), nearest g_auto_provision (example_groups ! 1 # as) = Some True)"
proof -
  have g: "sql_get g_id ''b'' example_groups = Some (example_groups ! 1)" "g_depth (example_groups ! 1) = 1"
    by (simp_all add: example_groups_def new_group_def sql_get_def)
  show ?thesis using group_inheritance [OF example_groups_ok g(1)] unfolding g(2) .
qed

theorem descendants_by_path_witness:
  "\<exists>ds. get_group_descendants ''a'' example_groups = Inr ds \<and> example_groups ! 1 \<in> set ds"
proof -
  let ?t = "\<lparr>t_groups = example_groups, t_nodes = []\<rparr>"
  have g: "tree_ok (t_groups ?t)" "sql_get g_id ''a'' (t_groups ?t) = Some (example_groups ! 0)"
    using example_groups_ok by (simp_all add: example_groups_def new_group_def sql_get_def)
  obtain ds where ds: "get_group_descendants ''a'' (t_groups ?t) = Inr ds"
    using descendants_by_path [OF g] by blast
  then have "set ds = set (descendants (example_groups ! 0) example_groups)"
    using g(2) by (auto simp: get_group_descendants_def)
  also have "\<dots> = {example_groups ! 1}"
    by (simp add: descendants_def example_groups_def new_group_def sql_startswith_def lower_char_def)
  finally show ?thesis using ds by auto
qed


end
