(* ===== verification/Sites.thy ===== *)
theory Sites
  imports DeviceGroups
begin

text \<open>
  Sites, src/src/api/routes/sites.py, and their agents, src/src/api/routes/agents.py and
  src/src/core/agent_status_job.py, over the group tree of the theory DeviceGroups. All handlers that
  write the tree are combined into one dispatcher; the interpretation \<open>tree_api\<close> of the
  request contract shows that ids and names stay unique whatever is requested, and, on top of it,
  that the tree invariant is kept.

  The SHA-256 digest of a token is the parameter \<open>sha256\<close>. \<open>datetime.utcnow()\<close> is an
  argument. Responses that only repeat stored fields are left out.
\<close>

section \<open>Requests\<close>

definition AUTONOMY_LEVELS :: "string list" where
  "AUTONOMY_LEVELS = [''readonly'', ''limited'', ''full'']"

definition CONFLICT_RESOLUTIONS :: "string list" where
  "CONFLICT_RESOLUTIONS = [''central_wins'', ''last_write'', ''site_wins'', ''manual'']"

definition CACHE_POLICIES :: "string list" where
  "CACHE_POLICIES = [''minimal'', ''assigned'', ''mirror'', ''pattern'']"

definition DISCOVERY_METHODS :: "string list" where
  "DISCOVERY_METHODS = [''dhcp'', ''dns'', ''anycast'', ''fallback'']"

definition MIGRATION_POLICIES :: "string list" where
  "MIGRATION_POLICIES = [''manual'', ''auto_accept'', ''auto_release'', ''bidirectional'']"

record site_create =
  sc_name :: string
  sc_description :: "string option"
  sc_parent_id :: "string option"
  sc_agent_url :: "string option"
  sc_autonomy_level :: string
  sc_conflict_resolution :: string
  sc_cache_policy :: string
  sc_cache_patterns_json :: "string option"
  sc_cache_max_size_gb :: "int option"
  sc_cache_retention_days :: int
  sc_discovery_method :: string
  sc_discovery_config_json :: "string option"
  sc_migration_policy :: string

definition valid_site_create :: "site_create \<Rightarrow> bool" where
  "valid_site_create r \<longleftrightarrow> valid_name (sc_name r)
     \<and> sc_autonomy_level r \<in> set AUTONOMY_LEVELS \<and> sc_conflict_resolution r \<in> set CONFLICT_RESOLUTIONS
     \<and> sc_cache_policy r \<in> set CACHE_POLICIES
     \<and> (case sc_cache_max_size_gb r of None \<Rightarrow> True | Some n \<Rightarrow> n \<ge> 1) \<and> sc_cache_retention_days r \<ge> 1
     \<and> sc_discovery_method r \<in> set DISCOVERY_METHODS \<and> sc_migration_policy r \<in> set MIGRATION_POLICIES"

record site_update =
  su_name :: "string option option"
  su_description :: "string option option"
  su_parent_id :: "string option option"
  su_agent_url :: "string option option"
  su_autonomy_level :: "string option option"
  su_conflict_resolution :: "string option option"
  su_cache_policy :: "string option option"
  su_cache_patterns_json :: "string option option"
  su_cache_max_size_gb :: "int option option"
  su_cache_retention_days :: "int option option"
  su_discovery_method :: "string option option"
  su_discovery_config_json :: "string option option"
  su_migration_policy :: "string option option"

text \<open>A field that is unset or null passes its validator.\<close>

definition given :: "('a \<Rightarrow> bool) \<Rightarrow> 'a option option \<Rightarrow> bool" where
  "given p u = (case u of Some (Some v) \<Rightarrow> p v | _ \<Rightarrow> True)"

lemma givenD: "given p u \<Longrightarrow> u = Some (Some n) \<Longrightarrow> p n"
  by (simp add: given_def)

definition valid_site_update :: "site_update \<Rightarrow> bool" where
  "valid_site_update u \<longleftrightarrow>
     given (\<lambda>v. v \<in> set AUTONOMY_LEVELS) (su_autonomy_level u)
     \<and> given (\<lambda>v. v \<in> set CONFLICT_RESOLUTIONS) (su_conflict_resolution u)
     \<and> given (\<lambda>v. v \<in> set CACHE_POLICIES) (su_cache_policy u)
     \<and> given (\<lambda>v. v \<ge> 1) (su_cache_max_size_gb u) \<and> given (\<lambda>v. v \<ge> 1) (su_cache_retention_days u)
     \<and> given (\<lambda>v. v \<in> set DISCOVERY_METHODS) (su_discovery_method u)
     \<and> given (\<lambda>v. v \<in> set MIGRATION_POLICIES) (su_migration_policy u)"

section \<open>Handlers\<close>

definition get_site_row :: "string \<Rightarrow> device_group list \<Rightarrow> device_group option" where
  "get_site_row i gs =
     (case sql_get g_id i gs of None \<Rightarrow> None | Some g \<Rightarrow> if g_is_site g then Some g else None)"

definition site_of_create :: "string \<Rightarrow> site_create \<Rightarrow> string \<Rightarrow> int \<Rightarrow> device_group" where
  "site_of_create uuid r path depth =
     (new_group uuid (sc_name r) path depth)
       \<lparr>g_description := sc_description r, g_parent_id := sc_parent_id r, g_is_site := True,
        g_agent_url := sc_agent_url r, g_autonomy_level := Some (sc_autonomy_level r),
        g_conflict_resolution := Some (sc_conflict_resolution r), g_cache_policy := Some (sc_cache_policy r),
        g_cache_patterns_json := sc_cache_patterns_json r, g_cache_max_size_gb := sc_cache_max_size_gb r,
        g_cache_retention_days := Some (sc_cache_retention_days r),
        g_discovery_method := Some (sc_discovery_method r),
        g_discovery_config_json := sc_discovery_config_json r,
        g_migration_policy := Some (sc_migration_policy r)\<rparr>"

definition create_site :: "string \<Rightarrow> site_create \<Rightarrow> device_group list \<Rightarrow> api_error + device_group list" where
  "create_site uuid r gs =
     (if \<not> valid_site_create r then Inl (Status 422)
      else if sql_get g_name (sc_name r) gs \<noteq> None then Inl (Status 409)
      else ebind (place_new True (sc_parent_id r) (sc_name r) gs) (\<lambda>(path, depth).
        insert_group (site_of_create uuid r path depth) gs))"

definition set_site_fields :: "site_update \<Rightarrow> device_group \<Rightarrow> device_group" where
  "set_site_fields u g =
     g\<lparr>g_description := set_or (su_description u) (g_description g),
       g_agent_url := set_or (su_agent_url u) (g_agent_url g),
       g_autonomy_level := set_or (su_autonomy_level u) (g_autonomy_level g),
       g_conflict_resolution := set_or (su_conflict_resolution u) (g_conflict_resolution g),
       g_cache_policy := set_or (su_cache_policy u) (g_cache_policy g),
       g_cache_patterns_json := set_or (su_cache_patterns_json u) (g_cache_patterns_json g),
       g_cache_max_size_gb := set_or (su_cache_max_size_gb u) (g_cache_max_size_gb g),
       g_cache_retention_days := set_or (su_cache_retention_days u) (g_cache_retention_days g),
       g_discovery_method := set_or (su_discovery_method u) (g_discovery_method g),
       g_discovery_config_json := set_or (su_discovery_config_json u) (g_discovery_config_json g),
       g_migration_policy := set_or (su_migration_policy u) (g_migration_policy g)\<rparr>"

definition update_site :: "string \<Rightarrow> site_update \<Rightarrow> device_group list \<Rightarrow> api_error + device_group list" where
  "update_site site_id u gs =
     (if \<not> valid_site_update u then Inl (Status 422)
      else case get_site_row site_id gs of
        None \<Rightarrow> Inl (Status 404)
      | Some site \<Rightarrow> move_and_save True site (su_name u) (su_parent_id u) (set_site_fields u) gs)"

definition delete_site :: "string \<Rightarrow> tree \<Rightarrow> api_error + tree" where
  "delete_site site_id t =
     (case get_site_row site_id (t_groups t) of
        None \<Rightarrow> Inl (Status 404)
      | Some site \<Rightarrow>
          if length (filter (\<lambda>h. g_parent_id h = Some site_id \<and> g_is_site h) (t_groups t)) > 0 then Inl (Status 400)
          else if length (filter (\<lambda>n. n_home_site_id n = Some site_id) (t_nodes t)) > 0 then Inl (Status 400)
          else Inr (delete_row site_id t))"

definition hash_token :: "(string \<Rightarrow> string) \<Rightarrow> string \<Rightarrow> string" where
  "hash_token sha256 token = sha256 token"

text \<open>The argument \<open>token\<close> is the value of \<open>secrets.token_urlsafe(32)\<close>.\<close>

definition generate_agent_token ::
    "(string \<Rightarrow> string) \<Rightarrow> string \<Rightarrow> string \<Rightarrow> device_group list \<Rightarrow> api_error + device_group list" where
  "generate_agent_token sha256 token site_id gs =
     (case get_site_row site_id gs of
        None \<Rightarrow> Inl (Status 404)
      | Some site \<Rightarrow> Inr (save_group (site\<lparr>g_agent_token_hash := Some (hash_token sha256 token)\<rparr>) gs))"

section \<open>Queries\<close>

definition list_sites :: "string option \<Rightarrow> tree \<Rightarrow> group_response list" where
  "list_sites parent_id t =
     map (\<lambda>s. from_group s
            (length (filter (\<lambda>n. n_home_site_id n = Some (g_id s)) (t_nodes t)))
            (length (filter (\<lambda>h. g_parent_id h = Some (g_id s) \<and> g_is_site h) (t_groups t))) None False)
       (filter (\<lambda>s. g_is_site s \<and> (truthy parent_id \<longrightarrow> g_parent_id s = parent_id)) (t_groups t))"

definition compute_effective_site_settings ::
    "device_group \<Rightarrow> device_group list \<Rightarrow> (string option \<times> bool) option" where
  "compute_effective_site_settings site gs =
     map_option (\<lambda>(w, a). (w, case a of None \<Rightarrow> False | Some b \<Rightarrow> b))
       (settings_loop gs (g_parent_id site) (g_default_workflow_id site) (g_auto_provision site))"

definition get_site :: "string \<Rightarrow> tree \<Rightarrow> (api_error + group_response) option" where
  "get_site site_id t =
     (case get_site_row site_id (t_groups t) of
        None \<Rightarrow> Some (Inl (Status 404))
      | Some s \<Rightarrow>
          map_option (\<lambda>(w, a). Inr (from_group s
              (length (filter (\<lambda>n. n_home_site_id n = Some site_id) (t_nodes t)))
              (length (filter (\<lambda>h. g_parent_id h = Some site_id \<and> g_is_site h) (t_groups t))) w a))
            (compute_effective_site_settings s (t_groups t)))"

definition list_site_nodes :: "string \<Rightarrow> bool \<Rightarrow> tree \<Rightarrow> api_error + node list" where
  "list_site_nodes site_id include_descendant_sites t =
     (case get_site_row site_id (t_groups t) of
        None \<Rightarrow> Inl (Status 404)
      | Some site \<Rightarrow>
          if include_descendant_sites then
            let all_site_ids = site_id # map g_id (filter g_is_site (descendants site (t_groups t)))
            in Inr (filter (\<lambda>n. n_home_site_id n \<in> Some ` set all_site_ids) (t_nodes t))
          else Inr (filter (\<lambda>n. n_home_site_id n = Some site_id) (t_nodes t)))"

record sync_state =
  ss_entity_type :: string
  ss_entity_id :: string
  ss_site_id :: string

record sync_conflict =
  sx_entity_type :: string
  sx_entity_id :: string
  sx_site_id :: string
  sx_resolved_at :: "datetime option"

record site_health =
  sh_agent_status :: "string option"
  sh_agent_last_seen :: "datetime option"
  sh_pending_sync_items :: nat
  sh_conflicts_pending :: nat
  sh_nodes_count :: nat
  sh_cache_max_gb :: "int option"

definition get_site_health ::
    "string \<Rightarrow> sync_state list \<Rightarrow> sync_conflict list \<Rightarrow> tree \<Rightarrow> api_error + site_health" where
  "get_site_health site_id states conflicts t =
     (case get_site_row site_id (t_groups t) of
        None \<Rightarrow> Inl (Status 404)
      | Some site \<Rightarrow>
          Inr \<lparr>sh_agent_status = g_agent_status site, sh_agent_last_seen = g_agent_last_seen site,
               sh_pending_sync_items = length (filter (\<lambda>s. ss_site_id s = site_id) states),
               sh_conflicts_pending = length (filter (\<lambda>c. sx_site_id c = site_id \<and> sx_resolved_at c = None) conflicts),
               sh_nodes_count = length (filter (\<lambda>n. n_home_site_id n = Some site_id) (t_nodes t)),
               sh_cache_max_gb = g_cache_max_size_gb site\<rparr>)"

text \<open>A triggered synchronisation is only answered; nothing is stored.\<close>

definition trigger_site_sync :: "string \<Rightarrow> device_group list \<Rightarrow> api_error + string \<times> string" where
  "trigger_site_sync site_id gs =
     (case get_site_row site_id gs of
        None \<Rightarrow> Inl (Status 404)
      | Some site \<Rightarrow>
          if g_agent_status site = Some ''online'' then Inr (''started'', ''Sync started - site agent is online'')
          else Inr (''queued'', ''Sync queued - site agent is '' @ pystr (or_str (g_agent_status site) (Some ''unknown''))))"

section \<open>Agents\<close>

definition verify_token :: "(string \<Rightarrow> string) \<Rightarrow> string \<Rightarrow> string \<Rightarrow> bool" where
  "verify_token sha256 token token_hash \<longleftrightarrow> hash_token sha256 token = token_hash"

definition register_agent ::
    "(string \<Rightarrow> string) \<Rightarrow> datetime \<Rightarrow> string \<Rightarrow> string \<Rightarrow> string \<Rightarrow> device_group list \<Rightarrow> api_error + device_group list" where
  "register_agent sha256 now site_id token agent_url gs =
     (case get_site_row site_id gs of
        None \<Rightarrow> Inl (Status 404)
      | Some site \<Rightarrow>
          if \<not> truthy (g_agent_token_hash site) then Inl (Status 400)
          else if \<not> verify_token sha256 token (the (g_agent_token_hash site)) then Inl (Status 401)
          else Inr (save_group
            (site\<lparr>g_agent_url := Some agent_url, g_agent_status := Some ''online'', g_agent_last_seen := Some now\<rparr>) gs))"

definition agent_heartbeat :: "datetime \<Rightarrow> string \<Rightarrow> device_group list \<Rightarrow> api_error + device_group list" where
  "agent_heartbeat now site_id gs =
     (case get_site_row site_id gs of
        None \<Rightarrow> Inl (Status 404)
      | Some site \<Rightarrow>
          Inr (save_group (site\<lparr>g_agent_status := Some ''online'', g_agent_last_seen := Some now\<rparr>) gs))"

definition get_agent_status :: "datetime \<Rightarrow> string \<Rightarrow> device_group list \<Rightarrow> api_error + string option" where
  "get_agent_status now site_id gs =
     (case get_site_row site_id gs of
        None \<Rightarrow> Inl (Status 404)
      | Some site \<Rightarrow>
          Inr (case g_agent_last_seen site of
                 None \<Rightarrow> g_agent_status site
               | Some seen \<Rightarrow>
                   if now - seen > seconds (5 * 60) then Some ''offline''
                   else if now - seen > seconds (2 * 60) then Some ''degraded''
                   else g_agent_status site))"

definition HEARTBEAT_INTERVAL :: int where "HEARTBEAT_INTERVAL = 60"
definition DEGRADED_THRESHOLD :: int where "DEGRADED_THRESHOLD = 2"
definition OFFLINE_THRESHOLD :: int where "OFFLINE_THRESHOLD = 5"

definition new_agent_status :: "datetime \<Rightarrow> datetime \<Rightarrow> string" where
  "new_agent_status now last_seen =
     (let time_since_heartbeat = now - last_seen;
          degraded_threshold = seconds (HEARTBEAT_INTERVAL * DEGRADED_THRESHOLD);
          offline_threshold = seconds (HEARTBEAT_INTERVAL * OFFLINE_THRESHOLD)
      in if time_since_heartbeat > offline_threshold then ''offline''
         else if time_since_heartbeat > degraded_threshold then ''degraded''
         else ''online'')"

definition refresh_status :: "datetime \<Rightarrow> device_group \<Rightarrow> device_group" where
  "refresh_status now site =
     (case g_agent_last_seen site of
        None \<Rightarrow> site
      | Some seen \<Rightarrow>
          if g_is_site site \<and> g_agent_status site \<noteq> Some (new_agent_status now seen)
          then site\<lparr>g_agent_status := Some (new_agent_status now seen)\<rparr> else site)"

definition update_agent_statuses :: "datetime \<Rightarrow> device_group list \<Rightarrow> device_group list" where
  "update_agent_statuses now gs = map (refresh_status now) gs"

definition get_status_for_last_seen :: "datetime \<Rightarrow> datetime option \<Rightarrow> string" where
  "get_status_for_last_seen now last_seen =
     (case last_seen of None \<Rightarrow> ''offline'' | Some seen \<Rightarrow> new_agent_status now seen)"

section \<open>The dispatcher\<close>

datatype tree_request =
    CreateGroup string group_create
  | UpdateGroup string group_update
  | DeleteGroup string
  | CreateSite string site_create
  | UpdateSite string site_update
  | DeleteSite string
  | GenerateAgentToken string string
  | RegisterAgent datetime string string string
  | AgentHeartbeat datetime string
  | AgentStatusJob datetime

definition on_groups ::
    "(device_group list \<Rightarrow> api_error + device_group list) \<Rightarrow> tree \<Rightarrow> api_error + tree" where
  "on_groups f t = ebind (f (t_groups t)) (\<lambda>gs. Inr (t\<lparr>t_groups := gs\<rparr>))"

fun tree_route :: "(string \<Rightarrow> string) \<Rightarrow> tree_request \<Rightarrow> tree \<Rightarrow> api_error + tree" where
  "tree_route sha256 (CreateGroup uuid r) t = on_groups (create_group uuid r) t"
| "tree_route sha256 (UpdateGroup i u) t = on_groups (update_group i u) t"
| "tree_route sha256 (DeleteGroup i) t = delete_group i t"
| "tree_route sha256 (CreateSite uuid r) t = on_groups (create_site uuid r) t"
| "tree_route sha256 (UpdateSite i u) t = on_groups (update_site i u) t"
| "tree_route sha256 (DeleteSite i) t = delete_site i t"
| "tree_route sha256 (GenerateAgentToken token i) t = on_groups (generate_agent_token sha256 token i) t"
| "tree_route sha256 (RegisterAgent now i token url) t = on_groups (register_agent sha256 now i token url) t"
| "tree_route sha256 (AgentHeartbeat now i) t = on_groups (agent_heartbeat now i) t"
| "tree_route sha256 (AgentStatusJob now) t = on_groups (\<lambda>gs. Inr (update_agent_statuses now gs)) t"

section \<open>Unique ids and names\<close>

definition rows_ok :: "device_group list \<Rightarrow> bool" where
  "rows_ok gs \<longleftrightarrow> keys_unique g_id gs \<and> keys_unique g_name gs"

lemma on_groups_Inr: "on_groups f t = Inr t' \<longleftrightarrow> (\<exists>gs. f (t_groups t) = Inr gs \<and> t' = t\<lparr>t_groups := gs\<rparr>)"
  by (auto simp: on_groups_def ebind_Inr_iff)

lemma insert_group_rows:
  assumes "rows_ok gs" and "sql_get g_name (g_name g) gs = None" and "insert_group g gs = Inr gs'"
  shows "rows_ok gs'"
  using assms by (auto simp: rows_ok_def insert_group_def sql_insert_def keys_unique_def sql_get_None_iff split: if_splits)

lemma rewrite_keys:
  "map g_id (rewrite_descendants p q k gs) = map g_id gs" "map g_name (rewrite_descendants p q k gs) = map g_name gs"
  by (simp_all add: rewrite_descendants_def)

lemma save_group_ids: "map g_id (save_group g gs) = map g_id gs"
  by (simp add: save_group_def)

lemma save_group_names:
  assumes "rows_ok gs" and "\<forall>h \<in> set gs. g_id h \<noteq> g_id g \<longrightarrow> g_name h \<noteq> g_name g"
  shows "keys_unique g_name (save_group g gs)"
  unfolding save_group_def using assms by (intro replace_row_unique) (simp_all add: rows_ok_def)

lemma flush_group_rows:
  assumes "rows_ok gs" and "flush_group nn g gs = Inr gs'"
  shows "rows_ok gs'"
  using assms save_group_names [OF assms(1), of g] save_group_ids [of g gs]
  by (auto simp: flush_group_def rows_ok_def keys_unique_def split: if_splits)

lemma rewrite_rows_ok: "rows_ok (rewrite_descendants p q k gs) = rows_ok gs"
  by (simp add: rows_ok_def keys_unique_def rewrite_keys)

lemma move_and_save_rows:
  assumes "rows_ok gs" and "move_and_save need_site g new_name new_parent set_fields gs = Inr gs'"
  shows "rows_ok gs'"
proof -
  have f: "rows_ok gs'" if "flush_group nn g' gs'' = Inr gs'" "rows_ok gs''" for nn g' gs''
    using flush_group_rows that by blast
  show ?thesis
    using assms(2)
    by (auto simp: move_and_save_def ebind_Inr_iff rewrite_rows_ok assms(1) split: if_splits option.splits elim!: f)
qed

text \<open>Rows that keep their identity and their place in the tree.\<close>

definition same_place :: "device_group \<Rightarrow> device_group \<Rightarrow> bool" where
  "same_place g h \<longleftrightarrow> g_id g = g_id h \<and> g_name g = g_name h \<and> g_path g = g_path h \<and> g_depth g = g_depth h
     \<and> g_parent_id g = g_parent_id h"

lemma same_place_ok:
  assumes "\<forall>g \<in> set gs. same_place (f g) g"
  shows "rows_ok (map f gs) = rows_ok gs" and "tree_ok gs \<Longrightarrow> tree_ok (map f gs)"
proof -
  have keys: "map (g_id \<circ> f) gs = map g_id gs" "map (g_name \<circ> f) gs = map g_name gs"
    using assms by (simp_all add: same_place_def)
  then show rows: "rows_ok (map f gs) = rows_ok gs" unfolding rows_ok_def keys_unique_def map_map by metis
  assume ok: "tree_ok gs"
  have get: "sql_get g_id i (map f gs) = map_option f (sql_get g_id i gs)" for i
    by (rule sql_get_map_on) (use assms in \<open>auto simp: same_place_def\<close>)
  have "placed (map f gs) (f g)" if "g \<in> set gs" for g
    using tree_okD(2) [OF ok that]
  proof (cases rule: placed_cases)
    case root
    then show ?thesis using assms that tree_okD(2) [OF ok that] by (auto simp: placed_def parent_of_def get same_place_def split: if_splits)
  next
    case (child p)
    then have "same_place (f p) p" using assms parent_in by blast
    with child show ?thesis using assms that by (auto simp: placed_def parent_of_def get same_place_def split: if_splits)
  qed
  then show "tree_ok (map f gs)"
    using ok assms rows by (auto simp: tree_ok_def rows_ok_def same_place_def)
qed

lemma save_same_place:
  assumes "keys_unique g_id gs" and "h \<in> set gs" and "same_place g h"
  shows "\<forall>k \<in> set gs. same_place (if g_id k = g_id g then g else k) k"
  using assms by (auto simp: same_place_def keys_unique_def distinct_map inj_on_def)

lemma get_site_rowD: "get_site_row i gs = Some g \<Longrightarrow> sql_get g_id i gs = Some g \<and> g \<in> set gs \<and> g_is_site g"
  by (auto simp: get_site_row_def dest: sql_get_SomeD split: option.splits if_splits)

lemma save_site_ok:
  assumes "get_site_row i gs = Some site" and "same_place g site" and "rows_ok gs"
  shows "rows_ok (save_group g gs)" and "tree_ok gs \<Longrightarrow> tree_ok (save_group g gs)"
proof -
  have "\<forall>k \<in> set gs. same_place (if g_id k = g_id g then g else k) k"
    using save_same_place [OF _ _ assms(2)] assms(3) get_site_rowD [OF assms(1)] unfolding rows_ok_def by blast
  from same_place_ok [OF this] show "rows_ok (save_group g gs)" "tree_ok gs \<Longrightarrow> tree_ok (save_group g gs)"
    using assms(3) by (simp_all add: save_group_def)
qed

lemma status_same_place: "same_place (refresh_status now site) site"
  by (simp add: same_place_def refresh_status_def split: option.splits)

text \<open>The agent's requests: one site keeps its place, or every site does.\<close>

lemma agent_requests_ok:
  assumes rows: "rows_ok gs"
  shows "generate_agent_token sha256 token i gs = Inr gs' \<Longrightarrow> rows_ok gs' \<and> (tree_ok gs \<longrightarrow> tree_ok gs')"
    and "register_agent sha256 now i token url gs = Inr gs' \<Longrightarrow> rows_ok gs' \<and> (tree_ok gs \<longrightarrow> tree_ok gs')"
    and "agent_heartbeat now i gs = Inr gs' \<Longrightarrow> rows_ok gs' \<and> (tree_ok gs \<longrightarrow> tree_ok gs')"
    and "rows_ok (update_agent_statuses now gs) \<and> (tree_ok gs \<longrightarrow> tree_ok (update_agent_statuses now gs))"
proof -
  have save: "rows_ok gs' \<and> (tree_ok gs \<longrightarrow> tree_ok gs')"
    if "get_site_row i gs = Some site" "gs' = save_group g gs" "same_place g site" for site g
    using save_site_ok [OF that(1,3) rows] that(2) by blast
  show "rows_ok (update_agent_statuses now gs) \<and> (tree_ok gs \<longrightarrow> tree_ok (update_agent_statuses now gs))"
    using same_place_ok [of gs] status_same_place rows unfolding update_agent_statuses_def by blast
  show "generate_agent_token sha256 token i gs = Inr gs' \<Longrightarrow> rows_ok gs' \<and> (tree_ok gs \<longrightarrow> tree_ok gs')"
    by (rule save [of "the (get_site_row i gs)" "(the (get_site_row i gs))\<lparr>g_agent_token_hash := Some (hash_token sha256 token)\<rparr>"])
      (auto simp: generate_agent_token_def same_place_def split: option.splits)
  show "register_agent sha256 now i token url gs = Inr gs' \<Longrightarrow> rows_ok gs' \<and> (tree_ok gs \<longrightarrow> tree_ok gs')"
    by (rule save [of "the (get_site_row i gs)" "(the (get_site_row i gs))\<lparr>g_agent_url := Some url, g_agent_status := Some ''online'', g_agent_last_seen := Some now\<rparr>"])
      (auto simp: register_agent_def same_place_def split: option.splits if_splits)
  show "agent_heartbeat now i gs = Inr gs' \<Longrightarrow> rows_ok gs' \<and> (tree_ok gs \<longrightarrow> tree_ok gs')"
    by (rule save [of "the (get_site_row i gs)" "(the (get_site_row i gs))\<lparr>g_agent_status := Some ''online'', g_agent_last_seen := Some now\<rparr>"])
      (auto simp: agent_heartbeat_def same_place_def split: option.splits)
qed

section \<open>Every request\<close>

lemma create_site_inserts:
  assumes "create_site uuid r gs = Inr gs'"
  obtains g where "sql_get g_name (g_name g) gs = None" and "insert_group g gs = Inr gs'" and "g_name g = sc_name r"
    and "place_new True (g_parent_id g) (g_name g) gs = Inr (g_path g, g_depth g)"
proof -
  from assms obtain path depth where *: "sql_get g_name (sc_name r) gs = None"
      "place_new True (sc_parent_id r) (sc_name r) gs = Inr (path, depth)"
      "insert_group (site_of_create uuid r path depth) gs = Inr gs'"
    unfolding create_site_def by (auto simp: ebind_Inr_iff split: if_splits)
  moreover have "g_name (site_of_create uuid r path depth) = sc_name r"
      "g_parent_id (site_of_create uuid r path depth) = sc_parent_id r"
      "g_path (site_of_create uuid r path depth) = path" "g_depth (site_of_create uuid r path depth) = depth"
    by (simp_all add: site_of_create_def new_group_def)
  ultimately show thesis by (intro that [of "site_of_create uuid r path depth"]) simp_all
qed

lemma update_site_moves:
  assumes "update_site i u gs = Inr gs'"
  obtains g where "g \<in> set gs" and "move_and_save True g (su_name u) (su_parent_id u) (set_site_fields u) gs = Inr gs'"
  using assms that by (auto simp: update_site_def dest: get_site_rowD split: if_splits option.splits)

lemma keeps_place_site: "keeps_place (set_site_fields u)"
  by (simp add: keeps_place_def set_site_fields_def)

lemma delete_row_rows: "rows_ok (t_groups t) \<Longrightarrow> rows_ok (t_groups (delete_row i t))"
  by (auto simp: rows_ok_def delete_row_def keys_unique_def comp_def if_distrib distinct_map_filter cong: if_cong)

lemma tree_route_rows:
  assumes "rows_ok (t_groups t)" and "tree_route sha256 q t = Inr t'"
  shows "rows_ok (t_groups t')"
proof (cases q)
  case (CreateGroup uuid r)
  then obtain gs where "create_group uuid r (t_groups t) = Inr gs" "t' = t\<lparr>t_groups := gs\<rparr>"
    using assms(2) by (auto simp: on_groups_Inr)
  then show ?thesis using insert_group_rows [OF assms(1)] by (metis create_group_inserts tree.select_convs(1) tree.surjective tree.update_convs(1))
next
  case (UpdateGroup i u)
  then show ?thesis using assms move_and_save_rows
    by (auto simp: on_groups_Inr update_group_def split: option.splits)
next
  case (DeleteGroup i)
  then show ?thesis using assms delete_row_rows by (auto simp: delete_group_def split: option.splits if_splits)
next
  case (CreateSite uuid r)
  then obtain gs where "create_site uuid r (t_groups t) = Inr gs" "t' = t\<lparr>t_groups := gs\<rparr>"
    using assms(2) by (auto simp: on_groups_Inr)
  then show ?thesis using insert_group_rows [OF assms(1)] by (metis create_site_inserts tree.select_convs(1) tree.surjective tree.update_convs(1))
next
  case (UpdateSite i u)
  then show ?thesis using assms move_and_save_rows by (auto simp: on_groups_Inr elim!: update_site_moves)
next
  case (DeleteSite i)
  then show ?thesis using assms delete_row_rows by (auto simp: delete_site_def split: option.splits if_splits)
qed (use assms(2) in \<open>auto simp: on_groups_Inr agent_requests_ok(4) [OF assms(1)] dest: agent_requests_ok(1-3) [OF assms(1)]\<close>)

interpretation tree_api: transactional "tree_route sha256" "\<lambda>t. rows_ok (t_groups t)"
  by unfold_locales (rule tree_route_rows)

text \<open>Requests whose names are plain; deleting a site is treated on its own below.\<close>

fun plain_request :: "tree_request \<Rightarrow> bool" where
  "plain_request (CreateGroup _ r) = plain_name (gc_name r)"
| "plain_request (UpdateGroup _ u) = given plain_name (gu_name u)"
| "plain_request (CreateSite _ r) = plain_name (sc_name r)"
| "plain_request (UpdateSite _ u) = given plain_name (su_name u)"
| "plain_request (DeleteSite _) = False"
| "plain_request _ = True"

lemma tree_route_ok:
  assumes ok: "tree_ok (t_groups t)" and q: "plain_request q" and run: "tree_route sha256 q t = Inr t'"
  shows "tree_ok (t_groups t')"
proof -
  have rows: "rows_ok (t_groups t)" using ok by (simp add: rows_ok_def tree_ok_def)
  show ?thesis
  proof (cases q)
    case (CreateGroup uuid r)
    then show ?thesis using run q create_group_ok [OF ok] by (auto simp: on_groups_Inr)
  next
    case (UpdateGroup i u)
    then obtain gs where "update_group i u (t_groups t) = Inr gs" "t' = t\<lparr>t_groups := gs\<rparr>"
      using run by (auto simp: on_groups_Inr)
    moreover have "given plain_name (gu_name u)" using q UpdateGroup by simp
    ultimately show ?thesis using update_group_ok [OF ok] givenD by fastforce
  next
    case (DeleteGroup i)
    then show ?thesis using run delete_group_ok [OF ok] by simp
  next
    case (CreateSite uuid r)
    then show ?thesis using run q insert_group_ok [OF ok] by (auto simp: on_groups_Inr elim!: create_site_inserts)
  next
    case (UpdateSite i u)
    then obtain gs g where g: "g \<in> set (t_groups t)"
        "move_and_save True g (su_name u) (su_parent_id u) (set_site_fields u) (t_groups t) = Inr gs"
      and "t' = t\<lparr>t_groups := gs\<rparr>"
      using run by (auto simp: on_groups_Inr elim!: update_site_moves)
    moreover have "given plain_name (su_name u)" using q UpdateSite by simp
    ultimately show ?thesis using move_and_save_ok [OF ok g(1) keeps_place_site _ g(2)] givenD by fastforce
  next
    case (DeleteSite i)
    then show ?thesis using q by simp
  qed (use run ok in \<open>auto simp: on_groups_Inr agent_requests_ok(4) [OF rows] dest: agent_requests_ok(1-3) [OF rows]\<close>)
qed

section \<open>Properties of the tree\<close>

text \<open>
  C20: The group tree stays consistent. Starting from a consistent tree (for instance the empty one)
  and serving any requests of the group, site and agent endpoints other than deleting a site, whose
  group names are non-empty and free of slashes, LIKE wildcards and capital letters, ids and names
  stay unique and every group's path and depth are those of its parent, so no group is ever its
  own ancestor.
\<close>

theorem group_tree_kept:
  assumes "tree_ok (t_groups t)" and "\<forall>q \<in> set qs. plain_request q"
  shows "tree_ok (t_groups (serve (tree_route sha256) qs t))
    \<and> (\<forall>g \<in> set (t_groups (serve (tree_route sha256) qs t)).
         \<exists>as. get_group_ancestors (g_id g) (t_groups (serve (tree_route sha256) qs t)) = Some (Inr as) \<and> g \<notin> set as)"
proof -
  let ?gs = "t_groups (serve (tree_route sha256) qs t)"
  have "rows_ok (t_groups t)" using assms(1) by (simp add: rows_ok_def tree_ok_def)
  then have ok: "tree_ok ?gs"
    using tree_api.serve_preserves [where P = "\<lambda>t. tree_ok (t_groups t)"] assms tree_route_ok by blast
  have "\<exists>as. get_group_ancestors (g_id g) ?gs = Some (Inr as) \<and> g \<notin> set as" if g: "g \<in> set ?gs" for g
  proof -
    obtain as where "\<forall>acc. ancestors_loop ?gs (g_parent_id g) acc = Some (acc @ as)" "set as = {k \<in> set ?gs. below k g}"
      using walk_up [OF ok g] by blast
    then show ?thesis using below_irrefl by (simp add: get_group_ancestors_def tree_okD(3) [OF ok g])
  qed
  with ok show ?thesis by blast
qed

lemma depth_nonneg: "tree_ok gs \<Longrightarrow> g \<in> set gs \<Longrightarrow> 0 \<le> g_depth g"
  by (induction g rule: tree_induct) auto

text \<open>
  Deleting a site. When the request succeeds on a consistent tree, the tree is consistent
  afterwards exactly if no group stood directly below the site: a regular group there, which the
  handler does not look for, becomes a root that keeps the path and the depth it had below the
  site.
\<close>

theorem delete_site_consistency:
  assumes "tree_ok (t_groups t)" and "delete_site i t = Inr t'" and "i \<noteq> []"
  shows "tree_ok (t_groups t') \<longleftrightarrow> (\<forall>g \<in> set (t_groups t). g_parent_id g \<noteq> Some i)"
proof
  have t': "t' = delete_row i t" using assms(2) by (auto simp: delete_site_def split: option.splits if_splits)
  show "tree_ok (t_groups t')" if "\<forall>g \<in> set (t_groups t). g_parent_id g \<noteq> Some i"
    unfolding t' using delete_row_ok [OF assms(1) that] .
  show "\<forall>g \<in> set (t_groups t). g_parent_id g \<noteq> Some i" if ok': "tree_ok (t_groups t')"
  proof (intro ballI notI)
    fix g assume g: "g \<in> set (t_groups t)" "g_parent_id g = Some i"
    from tree_okD(2) [OF assms(1) g(1)] obtain p where p: "parent_of (t_groups t) g = Some p" "g_depth g = g_depth p + 1"
      by (cases rule: placed_cases) (use g(2) assms(3) tree_okD(2) [OF assms(1) g(1)] in \<open>auto simp: placed_def parent_of_def split: option.splits\<close>)
    have "g_id p = i" using p(1) g(2) assms(3) by (auto simp: parent_of_def dest: sql_get_SomeD)
    then have "g_id g \<noteq> i" using parent_path_shorter [OF assms(1) g(1) p(1)]
        same_group [OF assms(1) g(1) parent_in [OF p(1)]] by auto
    then have "g\<lparr>g_parent_id := None\<rparr> \<in> set (t_groups t')" using g by (force simp: t' delete_row_def)
    from tree_okD(2) [OF ok' this] have "g_depth g = 0" by (simp add: placed_def)
    with p(2) depth_nonneg [OF assms(1) parent_in [OF p(1)]] show False by simp
  qed
qed


section \<open>Agents\<close>

lemma get_site_row_map:
  assumes "\<forall>g \<in> set gs. g_id (f g) = g_id g \<and> g_is_site (f g) = g_is_site g"
  shows "get_site_row i (map f gs) = map_option f (get_site_row i gs)"
proof -
  have "sql_get g_id i (map f gs) = map_option f (sql_get g_id i gs)"
    by (rule sql_get_map_on) (use assms in blast)
  then show ?thesis using assms by (auto simp: get_site_row_def dest: sql_get_SomeD split: option.splits)
qed

lemma get_site_row_save:
  assumes "rows_ok gs" and "get_site_row j gs = Some site" and "g_id g = g_id site" and "g_is_site g = g_is_site site"
  shows "get_site_row i (save_group g gs) = (if i = j then Some g else get_site_row i gs)"
proof -
  have s: "site \<in> set gs" "g_id site = j" using get_site_rowD [OF assms(2)] by (auto dest: sql_get_SomeD)
  have "g_is_site h = g_is_site g" if "h \<in> set gs" "g_id h = g_id g" for h
    using that s assms by (auto simp: rows_ok_def keys_unique_def distinct_map inj_on_def)
  then have "get_site_row i (save_group g gs) = map_option (\<lambda>h. if g_id h = g_id g then g else h) (get_site_row i gs)"
    unfolding save_group_def by (intro get_site_row_map) auto
  then show ?thesis using assms(2,3) s(2) get_site_rowD [of i gs]
    by (cases "get_site_row i gs") (auto dest: sql_get_SomeD)
qed

lemma refresh_status_site: "g_is_site (refresh_status now g) = g_is_site g" "g_agent_token_hash (refresh_status now g) = g_agent_token_hash g"
    "g_agent_last_seen (refresh_status now g) = g_agent_last_seen g" "g_id (refresh_status now g) = g_id g"
  by (simp_all add: refresh_status_def split: option.splits)

lemma get_site_row_refresh: "get_site_row i (update_agent_statuses now gs) = map_option (refresh_status now) (get_site_row i gs)"
  unfolding update_agent_statuses_def by (rule get_site_row_map) (simp add: refresh_status_site)

lemmas agent_status_defs = new_agent_status_def HEARTBEAT_INTERVAL_def DEGRADED_THRESHOLD_def OFFLINE_THRESHOLD_def Let_def

text \<open>
  The agent's status between heartbeats. After a heartbeat the site is online for two minutes,
  then degraded until five minutes have passed, then offline: this is what the status endpoint
  answers at any later time, whether or not the periodic job has run in between, what the job
  stores, and what the shared helper computes.
\<close>

theorem agent_status_timeline:
  assumes "rows_ok gs" and "get_site_row i gs = Some site" and "seen \<le> k" and "k \<le> now"
    and "s = (if now - seen \<le> 120000000 then ''online'' else if now - seen \<le> 300000000 then ''degraded'' else ''offline'')"
  shows "\<exists>gs1. agent_heartbeat seen i gs = Inr gs1
    \<and> get_agent_status now i gs1 = Inr (Some s)
    \<and> get_agent_status now i (update_agent_statuses k gs1) = Inr (Some s)
    \<and> map_option g_agent_status (get_site_row i (update_agent_statuses now gs1)) = Some (Some s)
    \<and> get_status_for_last_seen now (Some seen) = s"
proof -
  let ?g = "site\<lparr>g_agent_status := Some ''online'', g_agent_last_seen := Some seen\<rparr>"
  have h: "agent_heartbeat seen i gs = Inr (save_group ?g gs)"
    by (simp add: agent_heartbeat_def assms(2))
  have r: "get_site_row i (save_group ?g gs) = Some ?g"
    by (simp add: get_site_row_save [OF assms(1,2), of ?g])
  have site: "g_is_site site" using get_site_rowD [OF assms(2)] by blast
  show ?thesis
    using assms(3,4,5) site
    by (intro exI [of _ "save_group ?g gs"] conjI h)
      (simp_all add: get_agent_status_def get_site_row_refresh r refresh_status_def get_status_for_last_seen_def agent_status_defs)
qed

text \<open>Requests of agents and of the job, which no administrator makes.\<close>

fun agent_request :: "tree_request \<Rightarrow> bool" where
  "agent_request (RegisterAgent _ _ _ _) = True"
| "agent_request (AgentHeartbeat _ _) = True"
| "agent_request (AgentStatusJob _) = True"
| "agent_request _ = False"

lemma agent_request_token:
  assumes "rows_ok (t_groups t)" and "agent_request q" and "tree_route sha256 q t = Inr t'"
  shows "map_option g_agent_token_hash (get_site_row i (t_groups t')) = map_option g_agent_token_hash (get_site_row i (t_groups t))"
proof (cases q)
  case (RegisterAgent now j token url)
  then obtain site where s: "get_site_row j (t_groups t) = Some site"
    and t': "t_groups t' = save_group
            (site\<lparr>g_agent_url := Some url, g_agent_status := Some ''online'', g_agent_last_seen := Some now\<rparr>) (t_groups t)"
    using assms(3) by (auto simp: on_groups_Inr register_agent_def split: option.splits if_splits)
  show ?thesis unfolding t' using s by (simp add: get_site_row_save [OF assms(1) s])
next
  case (AgentHeartbeat now j)
  then obtain site where s: "get_site_row j (t_groups t) = Some site"
    and t': "t_groups t' = save_group (site\<lparr>g_agent_status := Some ''online'', g_agent_last_seen := Some now\<rparr>) (t_groups t)"
    using assms(3) by (auto simp: on_groups_Inr agent_heartbeat_def split: option.splits)
  show ?thesis unfolding t' using s by (simp add: get_site_row_save [OF assms(1) s])
next
  case (AgentStatusJob now)
  then show ?thesis using assms(3)
    by (auto simp: on_groups_Inr get_site_row_refresh option.map_comp comp_def refresh_status_site)
qed (use assms(2) in auto)

text \<open>
  Registration tokens. Once a token has been generated for a site, and until another is, an agent
  registers for the site exactly if its token has the stored digest, however many agents have
  registered with it before and however long ago it was issued: the token is neither used up nor
  does it expire.
\<close>

theorem agent_token_reusable:
  assumes "rows_ok (t_groups t)" and "tree_route sha256 (GenerateAgentToken tok i) t = Inr t1"
    and "sha256 tok \<noteq> []" and "\<forall>q \<in> set qs. agent_request q"
  shows "(\<exists>t2. tree_route sha256 (RegisterAgent now i tok' url) (serve (tree_route sha256) qs t1) = Inr t2) \<longleftrightarrow> sha256 tok' = sha256 tok"
proof -
  let ?h = "\<lambda>t. map_option g_agent_token_hash (get_site_row i (t_groups t))"
  obtain site where s: "get_site_row i (t_groups t) = Some site"
    and t1: "t_groups t1 = save_group (site\<lparr>g_agent_token_hash := Some (sha256 tok)\<rparr>) (t_groups t)"
    using assms(2) by (auto simp: on_groups_Inr generate_agent_token_def hash_token_def split: option.splits)
  have "?h t1 = Some (Some (sha256 tok))" unfolding t1 by (simp add: get_site_row_save [OF assms(1) s])
  moreover have "rows_ok (t_groups t1)" using tree_route_rows [OF assms(1,2)] .
  ultimately have "?h (serve (tree_route sha256) qs t1) = Some (Some (sha256 tok))"
    using tree_api.serve_preserves [where P = "\<lambda>t. ?h t = Some (Some (sha256 tok))"] assms(4) agent_request_token by metis
  then show ?thesis using assms(3)
    by (auto simp: on_groups_Inr register_agent_def verify_token_def hash_token_def split: if_splits)
qed


section \<open>Examples\<close>

text \<open>A site with a regular group below it.\<close>

definition example_tree :: tree where
  "example_tree =
     \<lparr>t_groups = [(new_group ''s'' ''lab'' ''/lab'' 0)\<lparr>g_is_site := True, g_default_workflow_id := Some ''w''\<rparr>,
                  (new_group ''g'' ''rack'' ''/lab/rack'' 1)\<lparr>g_parent_id := Some ''s''\<rparr>],
      t_nodes = []\<rparr>"

lemmas example_simps = example_tree_def new_group_def sql_get_def

lemma example_tree_ok: "tree_ok (t_groups example_tree)"
  by (simp add: example_simps tree_ok_def keys_unique_def placed_def plain_name_def plain_char_def lower_char_def)

lemma example_rows_ok: "rows_ok (t_groups example_tree)"
  by (simp add: example_simps rows_ok_def keys_unique_def)

theorem group_tree_kept_witness:
  "tree_ok (t_groups (serve (tree_route (\<lambda>s. s)) [DeleteGroup ''g''] example_tree))"
  by (rule group_tree_kept [OF example_tree_ok, THEN conjunct1]) simp

theorem delete_site_consistency_witness:
  "\<exists>t'. delete_site ''s'' example_tree = Inr t' \<and> \<not> tree_ok (t_groups t')"
proof -
  obtain t' where t': "delete_site ''s'' example_tree = Inr t'"
    by (simp add: example_simps delete_site_def get_site_row_def)
  have "tree_ok (t_groups t') \<longleftrightarrow> (\<forall>g \<in> set (t_groups example_tree). g_parent_id g \<noteq> Some ''s'')"
    by (rule delete_site_consistency [OF example_tree_ok t']) simp
  then have "\<not> tree_ok (t_groups t')" by (simp add: example_simps)
  with t' show ?thesis by blast
qed

theorem agent_status_timeline_witness:
  "\<exists>gs1. agent_heartbeat 0 ''s'' (t_groups example_tree) = Inr gs1
    \<and> get_agent_status 180000000 ''s'' gs1 = Inr (Some ''degraded'')
    \<and> get_agent_status 180000000 ''s'' (update_agent_statuses 60000000 gs1) = Inr (Some ''degraded'')
    \<and> map_option g_agent_status (get_site_row ''s'' (update_agent_statuses 180000000 gs1)) = Some (Some ''degraded'')
    \<and> get_status_for_last_seen 180000000 (Some 0) = ''degraded''"
  by (rule agent_status_timeline [OF example_rows_ok, where site = "hd (t_groups example_tree)"])
    (simp_all add: example_simps get_site_row_def)

theorem agent_token_reusable_witness:
  "\<exists>t1. tree_route (\<lambda>s. s) (GenerateAgentToken ''tok'' ''s'') example_tree = Inr t1
    \<and> (\<exists>t2. tree_route (\<lambda>s. s) (RegisterAgent 9 ''s'' ''tok'' ''http://b'')
          (serve (tree_route (\<lambda>s. s)) [RegisterAgent 5 ''s'' ''tok'' ''http://a''] t1) = Inr t2)"
proof -
  obtain t1 where t1: "tree_route (\<lambda>s. s) (GenerateAgentToken ''tok'' ''s'') example_tree = Inr t1"
    by (simp add: on_groups_def generate_agent_token_def example_simps get_site_row_def)
  have "(\<exists>t2. tree_route (\<lambda>s. s) (RegisterAgent 9 ''s'' ''tok'' ''http://b'')
      (serve (tree_route (\<lambda>s. s)) [RegisterAgent 5 ''s'' ''tok'' ''http://a''] t1) = Inr t2) \<longleftrightarrow> ''tok'' = ''tok''"
    by (rule agent_token_reusable [OF example_rows_ok t1]) simp_all
  with t1 show ?thesis by blast
qed

text \<open>
  A name with an underscore. Moving the group rack\_1 also changes the depth of the child of the
  unrelated group rackx1, whose path matches the LIKE pattern; and a site can be moved below a
  regular group through the group endpoint, which the site endpoints refuse.
\<close>

definition underscore_groups :: "device_group list" where
  "underscore_groups =
     [new_group ''r'' ''rack_1'' ''/rack_1'' 0, new_group ''x'' ''rackx1'' ''/rackx1'' 0,
      (new_group ''c'' ''child'' ''/rackx1/child'' 1)\<lparr>g_parent_id := Some ''x''\<rparr>, new_group ''t'' ''top'' ''/top'' 0]"

lemma underscore_moves_strangers:
  "\<exists>gs'. update_group ''r'' \<lparr>gu_name = None, gu_description = None, gu_parent_id = Some (Some ''t''),
       gu_default_workflow_id = None, gu_auto_provision = None\<rparr> underscore_groups = Inr gs'
     \<and> map_option g_depth (sql_get g_id ''c'' gs') = Some 2 \<and> map_option g_depth (sql_get g_id ''x'' gs') = Some 0"
  by (simp add: update_group_def underscore_groups_def new_group_def sql_get_def move_and_save_def name_taken_def
      reparent_place_def startswith_def flush_group_def rewrite_descendants_def sql_startswith_def lower_char_def
      save_group_def set_group_fields_def)

lemma site_below_regular_group:
  "\<exists>gs'. update_group ''s'' \<lparr>gu_name = None, gu_description = None, gu_parent_id = Some (Some ''o''),
       gu_default_workflow_id = None, gu_auto_provision = None\<rparr>
      [(new_group ''s'' ''lab'' ''/lab'' 0)\<lparr>g_is_site := True\<rparr>, new_group ''o'' ''office'' ''/office'' 0] = Inr gs'
    \<and> map_option (\<lambda>g. (g_is_site g, g_parent_id g)) (sql_get g_id ''s'' gs') = Some (True, Some ''o'')
    \<and> map_option g_is_site (sql_get g_id ''o'' gs') = Some False"
  by (simp add: update_group_def new_group_def sql_get_def move_and_save_def name_taken_def
      reparent_place_def startswith_def flush_group_def rewrite_descendants_def sql_startswith_def lower_char_def
      save_group_def set_group_fields_def)

lemma site_moves_below_sites_only:
  assumes "update_site i u gs = Inr gs'" and "su_parent_id u = Some (Some p)" and "p \<noteq> []"
  shows "\<exists>q. sql_get g_id p gs = Some q \<and> g_is_site q"
  using assms by (auto simp: update_site_def move_and_save_def reparent_place_def ebind_Inr_iff split: if_splits option.splits)


end
