(* ===== verification/Render.thy ===== *)
theory Render
  imports DeviceGroups
begin

text \<open>
  Template rendering: src/src/core/template_renderer.py (includes) and
  src/src/core/variable_resolver.py (variables).

  Both modules scan a text for a pattern from the left, without overlap (\<open>finditer\<close>,
  \<open>re.sub\<close>). In both patterns every repeated class excludes what may follow it, so the
  greedy match is the only one and the matchers below need no backtracking; \<open>\d\<close> is read as
  the ASCII digits. The function that fetches a template (\<open>get_content\<close>) is a parameter, as in
  the constructor of the class; its exceptions are values of a type \<open>'e\<close>. The values of a
  variable context are given by their \<open>str()\<close>.
\<close>

section \<open>Scanning\<close>

datatype 't piece = Chr char | Tok 't string

definition strip_prefix :: "string \<Rightarrow> string \<Rightarrow> string option" where
  "strip_prefix p s = (if startswith s p then Some (drop (length p) s) else None)"

text \<open>
  A matcher returns what it captures and the rest of the text; a piece \<open>Tok\<close> carries the
  captured groups and the matched text.
\<close>

function scan :: "(string \<Rightarrow> ('t \<times> string) option) \<Rightarrow> string \<Rightarrow> 't piece list" where
  "scan m [] = []"
| "scan m (c # cs) =
     (case m (c # cs) of
        None \<Rightarrow> Chr c # scan m cs
      | Some (t, rest) \<Rightarrow>
          Tok t (take (Suc (length cs) - length rest) (c # cs)) # scan m (drop (length cs - length rest) cs))"
  by pat_completeness auto

termination by (relation "measure (\<lambda>(m, s). length s)") auto

section \<open>Variables\<close>

definition lower_az :: "char \<Rightarrow> bool" where
  "lower_az c \<longleftrightarrow> 97 \<le> (of_char c :: nat) \<and> (of_char c :: nat) \<le> 122"

definition key_char :: "char \<Rightarrow> bool" where
  "key_char c \<longleftrightarrow> lower_az c \<or> c = CHR ''_''"

type_synonym var_ref = "string \<times> string \<times> string option"

definition match_variable :: "string \<Rightarrow> (var_ref \<times> string) option" where
  "match_variable s =
     (case strip_prefix ''${'' s of None \<Rightarrow> None | Some r \<Rightarrow>
        let namespace = takeWhile lower_az r; r1 = dropWhile lower_az r in
        if namespace = [] then None
        else case strip_prefix ''.'' r1 of None \<Rightarrow> None | Some r2 \<Rightarrow>
          let key = takeWhile key_char r2; r3 = dropWhile key_char r2 in
          if key = [] then None
          else case strip_prefix ''}'' r3 of
            Some rest \<Rightarrow> Some ((namespace, key, None), rest)
          | None \<Rightarrow>
             (case strip_prefix ''|'' r3 of None \<Rightarrow> None | Some r4 \<Rightarrow>
                let dflt = takeWhile (\<lambda>c. c \<noteq> CHR ''}'') r4 in
                case strip_prefix ''}'' (dropWhile (\<lambda>c. c \<noteq> CHR ''}'') r4) of
                  None \<Rightarrow> None
                | Some rest \<Rightarrow> Some ((namespace, key, Some dflt), rest)))"

type_synonym var_context = "(string \<times> (string \<times> string option) list) list"

definition context_get :: "var_context \<Rightarrow> string \<Rightarrow> string \<Rightarrow> string option" where
  "context_get context namespace key =
     (case map_of context namespace of
        None \<Rightarrow> None
      | Some ns_context \<Rightarrow> (case map_of ns_context key of None \<Rightarrow> None | Some value \<Rightarrow> value))"

fun replace_variable :: "var_context \<Rightarrow> var_ref piece \<Rightarrow> string" where
  "replace_variable context (Chr c) = [c]"
| "replace_variable context (Tok (namespace, key, dflt) group0) =
     (case context_get context namespace key of
        None \<Rightarrow> (case dflt of None \<Rightarrow> group0 | Some d \<Rightarrow> d)
      | Some value \<Rightarrow> value)"

definition resolve_vars :: "var_context \<Rightarrow> string \<Rightarrow> string" where
  "resolve_vars context content = concat (map (replace_variable context) (scan match_variable content))"

fun tokens :: "'t piece list \<Rightarrow> 't list" where
  "tokens [] = []"
| "tokens (Chr c # ps) = tokens ps"
| "tokens (Tok t s # ps) = t # tokens ps"

definition list_variables :: "string \<Rightarrow> string list" where
  "list_variables content = map (\<lambda>(namespace, key, _). namespace @ ''.'' @ key) (tokens (scan match_variable content))"

definition KNOWN_NAMESPACES :: "(string \<times> string list) list" where
  "KNOWN_NAMESPACES =
     [(''node'', [''id'', ''mac'', ''ip'', ''hostname'', ''uuid'', ''serial'', ''vendor'', ''model'',
                  ''architecture'', ''boot_mode'', ''state'']),
      (''group'', [''id'', ''name'', ''description'']),
      (''workflow'', [''id'', ''name'', ''description'']),
      (''server'', [''url'', ''tftp_url'', ''http_url'']),
      (''template'', [''id'', ''name'', ''version'']),
      (''execution'', [''id'', ''step_id'', ''step_name'']),
      (''meta'', []), (''secret'', [])]"

fun validate_loop :: "var_ref list \<Rightarrow> string list" where
  "validate_loop [] = []"
| "validate_loop ((namespace, key, dflt) # vs) =
     (case map_of KNOWN_NAMESPACES namespace of
        None \<Rightarrow> (''Unknown namespace: '' @ namespace) # validate_loop vs
      | Some keys \<Rightarrow>
          if namespace \<notin> set [''meta'', ''secret''] \<and> key \<notin> set keys
          then (''Unknown variable: '' @ namespace @ ''.'' @ key) # validate_loop vs
          else validate_loop vs)"

definition validate_vars :: "string \<Rightarrow> string list" where
  "validate_vars content = validate_loop (tokens (scan match_variable content))"

text \<open>The rows \<open>build_context\<close> reads besides the node and its group.\<close>

record workflow_row =
  wr_id :: string
  wr_name :: string
  wr_description :: string

record execution_row =
  xr_id :: string
  xr_current_step_id :: "string option"
  xr_current_step_name :: "string option"

definition build_context ::
    "(node \<times> device_group option) option \<Rightarrow> workflow_row option \<Rightarrow> execution_row option \<Rightarrow>
     string \<Rightarrow> string \<Rightarrow> string \<Rightarrow> (string \<times> string option) list \<Rightarrow> var_context" where
  "build_context node workflow execution server_url tftp_url http_url metadata =
     [(''node'', case node of
         None \<Rightarrow> []
       | Some (n, _) \<Rightarrow>
           [(''id'', Some (n_id n)), (''mac'', Some (n_mac_address n)), (''ip'', n_ip_address n),
            (''hostname'', n_hostname n), (''uuid'', n_system_uuid n), (''serial'', n_serial_number n),
            (''vendor'', n_vendor n), (''model'', n_model n), (''architecture'', Some (n_arch n)),
            (''boot_mode'', Some (n_boot_mode n)), (''state'', Some (n_state n))]),
      (''group'', case node of
         Some (_, Some g) \<Rightarrow>
           [(''id'', Some (g_id g)), (''name'', Some (g_name g)), (''description'', g_description g)]
       | _ \<Rightarrow> []),
      (''workflow'', case workflow of
         None \<Rightarrow> []
       | Some w \<Rightarrow> [(''id'', Some (wr_id w)), (''name'', Some (wr_name w)), (''description'', Some (wr_description w))]),
      (''server'', [(''url'', Some server_url), (''tftp_url'', Some tftp_url), (''http_url'', Some http_url)]),
      (''execution'', case execution of
         None \<Rightarrow> []
       | Some x \<Rightarrow>
           [(''id'', Some (xr_id x)), (''step_id'', xr_current_step_id x), (''step_name'', xr_current_step_name x)]),
      (''meta'', metadata)]"

section \<open>Includes\<close>

definition name_char :: "char \<Rightarrow> bool" where
  "name_char c \<longleftrightarrow>
     (let v = (of_char c :: nat) in
      48 \<le> v \<and> v \<le> 57 \<or> 65 \<le> v \<and> v \<le> 90 \<or> 97 \<le> v \<and> v \<le> 122 \<or> c = CHR ''_'' \<or> c = CHR ''-'')"

definition is_digit :: "char \<Rightarrow> bool" where
  "is_digit c \<longleftrightarrow> digit_val c \<noteq> None"

type_synonym include_ref = "string \<times> string option \<times> string option"

definition match_include :: "string \<Rightarrow> (include_ref \<times> string) option" where
  "match_include s =
     (case strip_prefix ''${include:'' s of None \<Rightarrow> None | Some r \<Rightarrow>
        let name = takeWhile name_char r; r1 = dropWhile name_char r in
        if name = [] then None
        else case strip_prefix ''}'' r1 of
          Some rest \<Rightarrow> Some ((name, None, None), rest)
        | None \<Rightarrow>
           (case strip_prefix '':'' r1 of None \<Rightarrow> None | Some r2 \<Rightarrow>
              let r3 = (case strip_prefix ''v'' r2 of None \<Rightarrow> r2 | Some r \<Rightarrow> r);
                  major = takeWhile is_digit r3; r4 = dropWhile is_digit r3 in
              if major = [] then None
              else case strip_prefix ''}'' r4 of
                Some rest \<Rightarrow> Some ((name, Some major, None), rest)
              | None \<Rightarrow>
                 (case strip_prefix ''.'' r4 of None \<Rightarrow> None | Some r5 \<Rightarrow>
                    let minor = takeWhile is_digit r5 in
                    if minor = [] then None
                    else case strip_prefix ''}'' (dropWhile is_digit r5) of
                      None \<Rightarrow> None
                    | Some rest \<Rightarrow> Some ((name, Some major, Some minor), rest))))"

fun include_version :: "include_ref \<Rightarrow> string option" where
  "include_version (name, Some major, Some minor) = Some (''v'' @ major @ ''.'' @ minor)"
| "include_version (name, Some major, None) = Some (''v'' @ major)"
| "include_version (name, None, minor) = None"

definition ref_key :: "include_ref \<Rightarrow> string" where
  "ref_key r = (case include_version r of None \<Rightarrow> fst r | Some v \<Rightarrow> fst r @ '':'' @ v)"

definition MAX_INCLUDE_DEPTH :: nat where
  "MAX_INCLUDE_DEPTH = 10"

datatype 'e render_error =
    MaxIncludeDepthError
  | CircularIncludeError string
  | LoadFailed string "string option" 'e
  | GetContentError 'e

text \<open>
  The loop over the matches of one content at a given depth; the check at the head of the
  recursive call is made where the call is.
\<close>

function resolve_pieces ::
    "(string \<Rightarrow> string option \<Rightarrow> 'e + string) \<Rightarrow> include_ref piece list \<Rightarrow> string set \<Rightarrow> nat \<Rightarrow>
     'e render_error + string" where
  "resolve_pieces get_content [] visited depth = Inr []"
| "resolve_pieces get_content (Chr c # ps) visited depth =
     (case resolve_pieces get_content ps visited depth of Inl e \<Rightarrow> Inl e | Inr rest \<Rightarrow> Inr (c # rest))"
| "resolve_pieces get_content (Tok r group0 # ps) visited depth =
     (if ref_key r \<in> visited then Inl (CircularIncludeError (ref_key r))
      else case get_content (fst r) (include_version r) of
        Inl e \<Rightarrow> Inl (LoadFailed (fst r) (include_version r) e)
      | Inr content \<Rightarrow>
          if depth + 1 > MAX_INCLUDE_DEPTH then Inl MaxIncludeDepthError
          else case resolve_pieces get_content (scan match_include content) (insert (ref_key r) visited) (depth + 1) of
            Inl e \<Rightarrow> Inl e
          | Inr included_content \<Rightarrow>
              (case resolve_pieces get_content ps visited depth of
                 Inl e \<Rightarrow> Inl e
               | Inr rest \<Rightarrow> Inr (included_content @ rest)))"
  by pat_completeness auto

termination
  by (relation "measures [\<lambda>(g, ps, v, d). MAX_INCLUDE_DEPTH - d, \<lambda>(g, ps, v, d). length ps]") auto

definition resolve_includes ::
    "(string \<Rightarrow> string option \<Rightarrow> 'e + string) \<Rightarrow> string \<Rightarrow> string set \<Rightarrow> nat \<Rightarrow> 'e render_error + string" where
  "resolve_includes get_content content visited depth =
     (if depth > MAX_INCLUDE_DEPTH then Inl MaxIncludeDepthError
      else resolve_pieces get_content (scan match_include content) visited depth)"

definition render ::
    "(string \<Rightarrow> string option \<Rightarrow> 'e + string) \<Rightarrow> string \<Rightarrow> string option \<Rightarrow> var_context \<Rightarrow> string option \<Rightarrow>
     'e render_error + string" where
  "render get_content template_name version context content =
     ebind (case content of
              Some c \<Rightarrow> Inr c
            | None \<Rightarrow> (case get_content template_name version of Inl e \<Rightarrow> Inl (GetContentError e) | Inr c \<Rightarrow> Inr c))
       (\<lambda>c. ebind (resolve_includes get_content c {} 0) (\<lambda>c. Inr (resolve_vars context c)))"

section \<open>When includes resolve\<close>

definition load :: "(string \<Rightarrow> string option \<Rightarrow> 'e + string) \<Rightarrow> include_ref \<Rightarrow> 'e + string" where
  "load get_content r = get_content (fst r) (include_version r)"

definition refs :: "string \<Rightarrow> include_ref list" where
  "refs content = tokens (scan match_include content)"

text \<open>A chain of includes: each directive stands in the content the one before it loads.\<close>

fun chain :: "(string \<Rightarrow> string option \<Rightarrow> 'e + string) \<Rightarrow> include_ref list \<Rightarrow> include_ref list \<Rightarrow> bool" where
  "chain get_content here [] \<longleftrightarrow> True"
| "chain get_content here (r # rs) \<longleftrightarrow>
     r \<in> set here \<and> (case load get_content r of Inl _ \<Rightarrow> rs = [] | Inr c \<Rightarrow> chain get_content (refs c) rs)"

definition good_chain ::
    "(string \<Rightarrow> string option \<Rightarrow> 'e + string) \<Rightarrow> string set \<Rightarrow> nat \<Rightarrow> include_ref list \<Rightarrow> bool" where
  "good_chain get_content visited depth rs \<longleftrightarrow>
     depth + length rs \<le> MAX_INCLUDE_DEPTH \<and> distinct (map ref_key rs) \<and> ref_key ` set rs \<inter> visited = {}
     \<and> (\<forall>r \<in> set rs. \<exists>c. load get_content r = Inr c)"

lemma chain_none [simp]: "chain g [] rs \<longleftrightarrow> rs = []"
  by (cases rs) auto

lemma good_chain_Cons:
  "good_chain g visited depth (r # rs) \<longleftrightarrow>
     ref_key r \<notin> visited \<and> (\<exists>c. load g r = Inr c) \<and> good_chain g (insert (ref_key r) visited) (depth + 1) rs"
  by (auto simp: good_chain_def)

lemma chains_Cons:
  "(\<forall>rs. chain g (r # here) rs \<longrightarrow> P rs) \<longleftrightarrow>
     (\<forall>rs. chain g here rs \<longrightarrow> P rs) \<and> (\<forall>rs. chain g [r] (r # rs) \<longrightarrow> P (r # rs))"
proof (intro iffI conjI allI impI)
  fix rs
  assume all: "\<forall>rs. chain g (r # here) rs \<longrightarrow> P rs"
  { assume "chain g here rs"
    then have "chain g (r # here) rs" by (cases rs) auto
    with all show "P rs" by blast }
  { assume "chain g [r] (r # rs)"
    then have "chain g (r # here) (r # rs)" by simp
    with all show "P (r # rs)" by blast }
next
  fix rs
  assume both: "(\<forall>rs. chain g here rs \<longrightarrow> P rs) \<and> (\<forall>rs. chain g [r] (r # rs) \<longrightarrow> P (r # rs))" and c: "chain g (r # here) rs"
  show "P rs"
  proof (cases rs)
    case Nil
    with both show ?thesis by auto
  next
    case (Cons q qs)
    with c have "chain g here rs \<or> q = r \<and> chain g [r] (r # qs)" by auto
    with both Cons show ?thesis by auto
  qed
qed

lemma resolve_pieces_iff:
  assumes "depth \<le> MAX_INCLUDE_DEPTH"
  shows "(\<exists>out. resolve_pieces g ps visited depth = Inr out) \<longleftrightarrow>
    (\<forall>rs. chain g (tokens ps) rs \<longrightarrow> good_chain g visited depth rs)"
  using assms
proof (induction g ps visited depth rule: resolve_pieces.induct)
  case (1 g visited depth)
  then show ?case by (auto simp: good_chain_def)
next
  case (2 g c ps visited depth)
  then show ?case by (auto split: sum.splits)
next
  case (3 g r group0 ps visited depth)
  show ?case
  proof (cases "ref_key r \<notin> visited \<and> (\<exists>c. load g r = Inr c) \<and> depth + 1 \<le> MAX_INCLUDE_DEPTH")
    case False
    then have "\<nexists>out. resolve_pieces g (Tok r group0 # ps) visited depth = Inr out"
      by (auto simp: load_def split: sum.splits)
    moreover have "\<not> good_chain g visited depth [r]" "chain g (tokens (Tok r group0 # ps)) [r]"
      using False by (auto simp: good_chain_def split: sum.splits)
    ultimately show ?thesis by blast
  next
    case True
    then obtain c where c: "load g r = Inr c" by blast
    let ?inner = "resolve_pieces g (scan match_include c) (insert (ref_key r) visited) (depth + 1)"
    have gc: "g (fst r) (include_version r) = Inr c" using c by (simp add: load_def)
    have inner: "(\<exists>out. ?inner = Inr out) \<longleftrightarrow>
        (\<forall>rs. chain g (refs c) rs \<longrightarrow> good_chain g (insert (ref_key r) visited) (depth + 1) rs)"
      unfolding refs_def using True gc by (intro "3.IH"(1)) auto
    have run: "(\<exists>out. resolve_pieces g (Tok r group0 # ps) visited depth = Inr out) \<longleftrightarrow>
        (\<exists>out. ?inner = Inr out) \<and> (\<exists>out. resolve_pieces g ps visited depth = Inr out)"
      using True gc by (auto split: sum.splits)
    have rest: "(\<exists>out. resolve_pieces g ps visited depth = Inr out) \<longleftrightarrow>
        (\<forall>rs. chain g (tokens ps) rs \<longrightarrow> good_chain g visited depth rs)" if "?inner = Inr out" for out
      using True gc that "3.prems" by (intro "3.IH"(2)) auto
    have "(\<forall>rs. chain g (tokens (Tok r group0 # ps)) rs \<longrightarrow> good_chain g visited depth rs) \<longleftrightarrow>
        (\<forall>rs. chain g (tokens ps) rs \<longrightarrow> good_chain g visited depth rs) \<and> (\<exists>out. ?inner = Inr out)"
      unfolding inner tokens.simps chains_Cons using True c by (auto simp: good_chain_Cons)
    then show ?thesis unfolding run using rest by blast
  qed
qed


text \<open>What an error says: the chain \<open>rs\<close> leads to the directive \<open>r\<close> that causes it.\<close>

fun explains ::
    "(string \<Rightarrow> string option \<Rightarrow> 'e + string) \<Rightarrow> string set \<Rightarrow> nat \<Rightarrow> 'e render_error \<Rightarrow> include_ref list \<Rightarrow> include_ref \<Rightarrow> bool" where
  "explains g visited depth (CircularIncludeError k) rs r \<longleftrightarrow> k = ref_key r \<and> k \<in> visited \<union> ref_key ` set rs"
| "explains g visited depth MaxIncludeDepthError rs r \<longleftrightarrow> depth + length rs = MAX_INCLUDE_DEPTH"
| "explains g visited depth (LoadFailed name version x) rs r \<longleftrightarrow>
     name = fst r \<and> version = include_version r \<and> load g r = Inl x"
| "explains g visited depth (GetContentError x) rs r \<longleftrightarrow> False"

lemma explains_Cons:
  "explains g (insert (ref_key q) visited) (depth + 1) e rs r \<Longrightarrow> explains g visited depth e (q # rs) r"
  by (cases e) auto

lemma resolve_pieces_error:
  assumes "resolve_pieces g ps visited depth = Inl e" and "depth \<le> MAX_INCLUDE_DEPTH"
  shows "\<exists>rs r. chain g (tokens ps) (rs @ [r]) \<and> explains g visited depth e rs r"
  using assms
proof (induction g ps visited depth rule: resolve_pieces.induct)
  case (2 g c ps visited depth)
  then show ?case by (auto split: sum.splits)
next
  case (3 g r group0 ps visited depth)
  let ?here = "tokens (Tok r group0 # ps)"
  show ?case
  proof (cases "ref_key r \<in> visited")
    case True
    then have "explains g visited depth e [] r" using "3.prems"(1) by auto
    moreover have "chain g ?here ([] @ [r])" by (auto split: sum.splits)
    ultimately show ?thesis by blast
  next
    case nv: False
    show ?thesis
    proof (cases "g (fst r) (include_version r)")
      case (Inl x)
      then have "explains g visited depth e [] r" "chain g ?here ([] @ [r])" using "3.prems"(1) nv by (auto simp: load_def)
      then show ?thesis by blast
    next
      case (Inr c)
      show ?thesis
      proof (cases "depth + 1 > MAX_INCLUDE_DEPTH")
        case True
        then have "explains g visited depth e [] r" using "3.prems" nv Inr by auto
        moreover have "chain g ?here ([] @ [r])" using Inr by (simp add: load_def)
        ultimately show ?thesis by blast
      next
        case False
        let ?inner = "resolve_pieces g (scan match_include c) (insert (ref_key r) visited) (depth + 1)"
        show ?thesis
        proof (cases ?inner)
          case (Inl x)
          then have "?inner = Inl e" using "3.prems"(1) nv Inr False by simp
          then obtain rs q where "chain g (refs c) (rs @ [q])" "explains g (insert (ref_key r) visited) (depth + 1) e rs q"
            using "3.IH"(1) [OF nv \<open>g _ _ = Inr c\<close>] False unfolding refs_def by auto
          then have "chain g ?here ((r # rs) @ [q])" "explains g visited depth e (r # rs) q"
            using \<open>g _ _ = Inr c\<close> explains_Cons [of g r visited depth e rs q] by (auto simp: load_def)
          then show ?thesis by blast
        next
          case (Inr out)
          then have "resolve_pieces g ps visited depth = Inl e"
            using "3.prems"(1) nv \<open>g _ _ = Inr c\<close> False by (simp split: sum.splits)
          then obtain rs q where *: "chain g (tokens ps) (rs @ [q])" "explains g visited depth e rs q"
            using "3.IH"(2) [OF nv \<open>g _ _ = Inr c\<close> False Inr] "3.prems"(2) by blast
          then have "chain g ?here (rs @ [q])" by (cases rs) auto
          with * show ?thesis by blast
        qed
      qed
    qed
  qed
qed simp

text \<open>
  When includes resolve. A content resolves exactly if along every chain of directives, each
  standing in the template the one before it loads, all templates load, no template reference
  occurs twice and at most ten directives are nested; the recursion ends for every content. When
  it fails, the error names the directive at the end of such a chain: a reference that the chain
  already contains, the eleventh nested directive, or one whose template does not load.
\<close>

theorem include_resolution:
  "((\<exists>out. resolve_includes g content {} 0 = Inr out) \<longleftrightarrow>
     (\<forall>rs. chain g (refs content) rs \<longrightarrow>
        length rs \<le> 10 \<and> distinct (map ref_key rs) \<and> (\<forall>r \<in> set rs. \<exists>c. load g r = Inr c)))
   \<and> (\<forall>e. resolve_includes g content {} 0 = Inl e \<longrightarrow>
        (\<exists>rs r. chain g (refs content) (rs @ [r]) \<and> explains g {} 0 e rs r))"
proof
  show "(\<exists>out. resolve_includes g content {} 0 = Inr out) \<longleftrightarrow>
     (\<forall>rs. chain g (refs content) rs \<longrightarrow>
        length rs \<le> 10 \<and> distinct (map ref_key rs) \<and> (\<forall>r \<in> set rs. \<exists>c. load g r = Inr c))"
    using resolve_pieces_iff [of 0 g "scan match_include content" "{}"]
    by (simp add: resolve_includes_def refs_def good_chain_def MAX_INCLUDE_DEPTH_def)
  show "\<forall>e. resolve_includes g content {} 0 = Inl e \<longrightarrow>
        (\<exists>rs r. chain g (refs content) (rs @ [r]) \<and> explains g {} 0 e rs r)"
    using resolve_pieces_error [of g "scan match_include content" "{}" 0]
    by (simp add: resolve_includes_def refs_def)
qed

text \<open>A content that resolves deep inside an expansion resolves to the same text on its own.\<close>

lemma resolve_pieces_mono:
  assumes "resolve_pieces g ps visited depth = Inr out" and "v \<subseteq> visited" and "d \<le> depth"
  shows "resolve_pieces g ps v d = Inr out"
  using assms
proof (induction g ps visited depth arbitrary: v d out rule: resolve_pieces.induct)
  case (2 g c ps visited depth)
  from "2.prems"(1) obtain rest where "resolve_pieces g ps visited depth = Inr rest" and "out = c # rest"
    by (auto split: sum.splits)
  with "2.IH" [OF this(1) "2.prems"(2,3)] show ?case by simp
next
  case (3 g r group0 ps visited depth)
  from "3.prems"(1) obtain c i rest where c: "ref_key r \<notin> visited" "g (fst r) (include_version r) = Inr c"
      "\<not> depth + 1 > MAX_INCLUDE_DEPTH"
    and i: "resolve_pieces g (scan match_include c) (insert (ref_key r) visited) (depth + 1) = Inr i"
    and rest: "resolve_pieces g ps visited depth = Inr rest" and out: "out = i @ rest"
    by (auto split: if_splits sum.splits)
  have "resolve_pieces g (scan match_include c) (insert (ref_key r) v) (d + 1) = Inr i"
    using "3.prems"(2,3) by (intro "3.IH"(1) [OF c i]) auto
  moreover have "resolve_pieces g ps v d = Inr rest"
    using "3.prems"(2,3) by (intro "3.IH"(2) [OF c i rest]) auto
  ultimately show ?case using c "3.prems"(2,3) out by (auto split: sum.splits)
qed simp

definition expand_piece :: "(include_ref \<Rightarrow> string) \<Rightarrow> include_ref piece \<Rightarrow> string" where
  "expand_piece f p = (case p of Chr c \<Rightarrow> [c] | Tok r _ \<Rightarrow> f r)"

lemma resolve_pieces_concat:
  assumes "resolve_pieces g ps visited depth = Inr out"
  shows "\<exists>f. (\<forall>r \<in> set (tokens ps). \<exists>c. load g r = Inr c \<and> resolve_includes g c {} 0 = Inr (f r))
    \<and> out = concat (map (expand_piece f) ps)"
proof -
  define f where "f r = (case load g r of Inl _ \<Rightarrow> [] | Inr c \<Rightarrow>
    (case resolve_includes g c {} 0 of Inl _ \<Rightarrow> [] | Inr t \<Rightarrow> t))" for r
  have "(\<forall>r \<in> set (tokens ps). \<exists>c. load g r = Inr c \<and> resolve_includes g c {} 0 = Inr (f r))
    \<and> out = concat (map (expand_piece f) ps)"
    using assms
  proof (induction ps arbitrary: out)
    case (Cons p ps)
    show ?case
    proof (cases p)
      case (Chr c)
      with Cons show ?thesis by (auto simp: expand_piece_def split: sum.splits)
    next
      case (Tok r group0)
      from Cons.prems Tok obtain c i rest where c: "load g r = Inr c"
        and i: "resolve_pieces g (scan match_include c) (insert (ref_key r) visited) (depth + 1) = Inr i"
        and rest: "resolve_pieces g ps visited depth = Inr rest" and out: "out = i @ rest"
        by (auto simp: load_def split: if_splits sum.splits)
      have "resolve_includes g c {} 0 = Inr i"
        using resolve_pieces_mono [OF i, of "{}" 0] by (simp add: resolve_includes_def)
      then have "resolve_includes g c {} 0 = Inr (f r)" "f r = i" using c by (simp_all add: f_def)
      then show ?thesis using Cons.IH [OF rest] c out Tok by (auto simp: expand_piece_def)
    qed
  qed simp
  then show ?thesis by blast
qed

text \<open>
  The text that includes resolve to. When a content resolves, the result is the content with each
  directive replaced by what the template it names resolves to on its own, independently of the
  depth and of the includes around it, and with all other characters kept in place.
\<close>

theorem includes_replaced:
  assumes "resolve_includes g content {} 0 = Inr out"
  shows "\<exists>f. (\<forall>r \<in> set (refs content). \<exists>c. load g r = Inr c \<and> resolve_includes g c {} 0 = Inr (f r))
    \<and> out = concat (map (expand_piece f) (scan match_include content))"
  using resolve_pieces_concat [of g "scan match_include content" "{}" 0] assms
  by (simp add: resolve_includes_def refs_def split: if_splits)

section \<open>One pass over the variables\<close>

datatype var_part = Text string | Var string string "string option"

fun part_ok :: "var_part \<Rightarrow> bool" where
  "part_ok (Text s) \<longleftrightarrow> CHR ''$'' \<notin> set s"
| "part_ok (Var namespace key dflt) \<longleftrightarrow>
     namespace \<noteq> [] \<and> list_all lower_az namespace \<and> key \<noteq> [] \<and> list_all key_char key
     \<and> (case dflt of None \<Rightarrow> True | Some d \<Rightarrow> CHR ''}'' \<notin> set d)"

fun part_text :: "var_part \<Rightarrow> string" where
  "part_text (Text s) = s"
| "part_text (Var namespace key dflt) =
     ''${'' @ namespace @ ''.'' @ key @ (case dflt of None \<Rightarrow> [] | Some d \<Rightarrow> ''|'' @ d) @ ''}''"

fun part_value :: "var_context \<Rightarrow> var_part \<Rightarrow> string" where
  "part_value context (Text s) = s"
| "part_value context (Var namespace key dflt) =
     (case context_get context namespace key of
        Some value \<Rightarrow> value
      | None \<Rightarrow> (case dflt of Some d \<Rightarrow> d | None \<Rightarrow> part_text (Var namespace key dflt)))"

fun part_pieces :: "var_part \<Rightarrow> var_ref piece list" where
  "part_pieces (Text s) = map Chr s"
| "part_pieces (Var namespace key dflt) = [Tok (namespace, key, dflt) (part_text (Var namespace key dflt))]"

lemma strip_prefix_append [simp]: "strip_prefix p (p @ s) = Some s"
  by (simp add: strip_prefix_def startswith_def)

lemma strip_prefix_char: "strip_prefix [c] (d # s) = (if c = d then Some s else None)"
  by (auto simp: strip_prefix_def startswith_def)

lemma span_append:
  assumes "list_all p xs" and "\<not> p y"
  shows "takeWhile p (xs @ y # ys) = xs" and "dropWhile p (xs @ y # ys) = y # ys"
  using assms by (induction xs) auto

lemma class_ends: "\<not> lower_az (CHR ''.'')" "\<not> key_char (CHR ''}'')" "\<not> key_char (CHR ''|'')"
  by (simp_all add: lower_az_def key_char_def)

lemma match_variable_text:
  assumes "part_ok (Var namespace key dflt)"
  shows "match_variable (part_text (Var namespace key dflt) @ s) = Some ((namespace, key, dflt), s)"
proof -
  have 1: "strip_prefix ''${'' (part_text (Var namespace key dflt) @ s) =
      Some (namespace @ CHR ''.'' # key @ (case dflt of None \<Rightarrow> [] | Some d \<Rightarrow> ''|'' @ d) @ CHR ''}'' # s)"
    using strip_prefix_append [of "''${''"] by (simp split: option.splits)
  have ns: "list_all lower_az namespace" "list_all key_char key" "namespace \<noteq> []" "key \<noteq> []" using assms by simp_all
  show ?thesis
  proof (cases dflt)
    case None
    then show ?thesis unfolding match_variable_def 1
      using ns class_ends by (simp add: Let_def span_append strip_prefix_char)
  next
    case (Some d)
    have "list_all (\<lambda>c. c \<noteq> CHR ''}'') d" using assms Some by (auto simp: list_all_iff)
    then show ?thesis using Some unfolding match_variable_def 1
      using ns class_ends by (simp add: Let_def span_append strip_prefix_char)
  qed
qed

lemma match_variable_other: "c \<noteq> CHR ''$'' \<Longrightarrow> match_variable (c # cs) = None"
  by (simp add: match_variable_def strip_prefix_def startswith_def)

lemma scan_token:
  assumes "m (t @ s) = Some (tok, s)" and "t \<noteq> []"
  shows "scan m (t @ s) = Tok tok t # scan m s"
proof -
  obtain c cs where t: "t = c # cs" using assms(2) by (cases t) auto
  have "scan m (c # (cs @ s)) = Tok tok (take (Suc (length (cs @ s)) - length s) (c # (cs @ s)))
      # scan m (drop (length (cs @ s) - length s) (cs @ s))"
    using assms(1) t by simp
  then show ?thesis using t by simp
qed

lemma scan_plain: "CHR ''$'' \<notin> set t \<Longrightarrow> scan match_variable (t @ s) = map Chr t @ scan match_variable s"
  by (induction t) (auto simp: match_variable_other)

lemma scan_parts:
  "list_all part_ok ps \<Longrightarrow> scan match_variable (concat (map part_text ps)) = concat (map part_pieces ps)"
proof (induction ps)
  case (Cons p ps)
  show ?case
  proof (cases p)
    case (Text s)
    with Cons show ?thesis by (simp add: scan_plain)
  next
    case (Var namespace key dflt)
    have "scan match_variable (part_text p @ concat (map part_text ps)) =
        Tok (namespace, key, dflt) (part_text p) # scan match_variable (concat (map part_text ps))"
      using Cons.prems Var match_variable_text by (intro scan_token) auto
    with Cons Var show ?thesis by simp
  qed
qed simp

text \<open>
  Variables are replaced in one pass. A template of literal text without dollar signs and of
  placeholders becomes the same text with every placeholder replaced by its value, by its default
  when it has no value, and left as it is when it has neither; a value is copied whatever it
  contains, and is not searched for placeholders again.
\<close>

theorem variables_one_pass:
  assumes "list_all part_ok ps"
  shows "resolve_vars context (concat (map part_text ps)) = concat (map (part_value context) ps)"
proof -
  have "concat (map (replace_variable context) (part_pieces p)) = part_value context p" for p
    by (cases p) (auto simp: comp_def split: option.splits)
  then have "concat (map (replace_variable context) (concat (map part_pieces ps))) = concat (map (part_value context) ps)" for ps
    by (induction ps) auto
  then show ?thesis by (simp add: resolve_vars_def scan_parts [OF assms])
qed

lemma validate_known:
  "validate_loop vs = [] \<longleftrightarrow>
     (\<forall>(namespace, key, dflt) \<in> set vs. \<exists>keys. map_of KNOWN_NAMESPACES namespace = Some keys
        \<and> (namespace \<in> {''meta'', ''secret''} \<or> key \<in> set keys))"
  by (induction vs rule: validate_loop.induct) (auto split: option.splits)

text \<open>Examples of the two theorems: a chain of two includes, and a value that looks like a placeholder.\<close>

definition example_content :: "string \<Rightarrow> string option \<Rightarrow> string + string" where
  "example_content name version =
     (if name = ''base'' then Inr ''hello ${include:user}'' else if name = ''user'' then Inr ''bob''
      else if name = ''loop'' then Inr ''${include:loop}'' else Inl ''missing'')"

lemmas include_eval = resolve_includes_def match_include_def strip_prefix_def startswith_def name_char_def
  is_digit_def digit_val_def ref_key_def MAX_INCLUDE_DEPTH_def example_content_def Let_def


lemma example_includes: "resolve_includes example_content ''${include:base}!'' {} 0 = Inr ''hello bob!''"
  by (simp add: include_eval)

theorem includes_replaced_witness:
  "\<exists>f. (\<forall>r \<in> set (refs ''${include:base}!''). \<exists>c. load example_content r = Inr c \<and> resolve_includes example_content c {} 0 = Inr (f r))
    \<and> ''hello bob!'' = concat (map (expand_piece f) (scan match_include ''${include:base}!''))"
  by (rule includes_replaced [OF example_includes])

theorem include_resolution_witness:
  "\<exists>rs r. chain example_content (refs ''${include:loop}'') (rs @ [r])
     \<and> explains example_content {} 0 (CircularIncludeError ''loop'') rs r"
proof -
  have "resolve_includes example_content ''${include:loop}'' {} 0 = Inl (CircularIncludeError ''loop'')"
    by (simp add: include_eval)
  then show ?thesis using include_resolution [of example_content "''${include:loop}''"] by blast
qed

theorem variables_one_pass_witness:
  "resolve_vars [(''node'', [(''mac'', Some ''${node.ip}''), (''ip'', None)])] ''m=${node.mac} i=${node.ip|dhcp} ${meta.x}''
   = ''m=${node.ip} i=dhcp ${meta.x}''"
proof -
  let ?ps = "[Text ''m='', Var ''node'' ''mac'' None, Text '' i='', Var ''node'' ''ip'' (Some ''dhcp''), Text '' '', Var ''meta'' ''x'' None]"
  have "list_all part_ok ?ps" by (simp add: lower_az_def key_char_def)
  from variables_one_pass [OF this, of "[(''node'', [(''mac'', Some ''${node.ip}''), (''ip'', None)])]"]
  show ?thesis by (simp add: context_get_def)
qed


end
