(* ===== verification/Templates.thy ===== *)
theory Templates
  imports Render
begin

text \<open>
  Templates and their versions, src/src/api/routes/templates.py. The SHA-256 digest of a content and
  the length of its UTF-8 encoding are parameters. Timestamps and the response bodies, which repeat
  the stored fields, are left out.

  The invariant says that the version numbers of a template are distinct and that its current
  version is the highest; it gives the meaning of \<open>latest\<close> and the round trip between a
  version and its version string.
\<close>

section \<open>Data\<close>

record template =
  tp_id :: string
  tp_name :: string
  tp_type :: string
  tp_os_family :: "string option"
  tp_os_name :: "string option"
  tp_os_version :: "string option"
  tp_architecture :: string
  tp_file_path :: "string option"
  tp_storage_backend_id :: "string option"
  tp_size_bytes :: "int option"
  tp_checksum :: "string option"
  tp_current_version_id :: "string option"
  tp_description :: "string option"

record template_version =
  tv_id :: string
  tv_template_id :: string
  tv_major :: nat
  tv_minor :: nat
  tv_content :: string
  tv_content_hash :: string
  tv_size_bytes :: "nat option"
  tv_commit_message :: "string option"

record template_db =
  td_templates :: "template list"
  td_versions :: "template_version list"
  td_backend_ids :: "string list"

record template_create =
  tc_name :: string
  tc_type :: string
  tc_os_family :: "string option"
  tc_os_name :: "string option"
  tc_os_version :: "string option"
  tc_architecture :: string
  tc_file_path :: "string option"
  tc_storage_backend_id :: "string option"
  tc_size_bytes :: "int option"
  tc_checksum :: "string option"
  tc_description :: "string option"

record template_update =
  tu_name :: "string option option"
  tu_type :: "string option option"
  tu_os_family :: "string option option"
  tu_os_name :: "string option option"
  tu_os_version :: "string option option"
  tu_architecture :: "string option option"
  tu_file_path :: "string option option"
  tu_storage_backend_id :: "string option option"
  tu_size_bytes :: "int option option"
  tu_checksum :: "string option option"
  tu_description :: "string option option"

definition version_string :: "template_version \<Rightarrow> string" where
  "version_string v = ''v'' @ show_nat (tv_major v) @ ''.'' @ show_nat (tv_minor v)"

definition VALID_TYPES :: "string list" where
  "VALID_TYPES = [''iso'', ''kickstart'', ''preseed'', ''autounattend'', ''cloud-init'', ''script'']"

definition VALID_OS_FAMILIES :: "string list" where
  "VALID_OS_FAMILIES = [''linux'', ''windows'', ''bsd'']"

definition VALID_ARCHITECTURES :: "string list" where
  "VALID_ARCHITECTURES = [''x86_64'', ''aarch64'', ''armv7l'']"

section \<open>Templates\<close>

definition list_templates ::
    "string option \<Rightarrow> string option \<Rightarrow> string option \<Rightarrow> string option \<Rightarrow> template_db \<Rightarrow> template list" where
  "list_templates ttype os_family os_name architecture d =
     order_by (\<lambda>s t. str_le (tp_name s) (tp_name t))
       (filter (\<lambda>t. (truthy ttype \<longrightarrow> Some (tp_type t) = ttype) \<and> (truthy os_family \<longrightarrow> tp_os_family t = os_family)
          \<and> (truthy os_name \<longrightarrow> tp_os_name t = os_name)
          \<and> (truthy architecture \<longrightarrow> Some (tp_architecture t) = architecture)) (td_templates d))"

definition get_template :: "string \<Rightarrow> template_db \<Rightarrow> api_error + template" where
  "get_template i d = (case sql_get tp_id i (td_templates d) of None \<Rightarrow> Inl (Status 404) | Some t \<Rightarrow> Inr t)"

definition template_of_create :: "string \<Rightarrow> template_create \<Rightarrow> template" where
  "template_of_create uuid r =
     \<lparr>tp_id = uuid, tp_name = tc_name r, tp_type = tc_type r, tp_os_family = tc_os_family r,
      tp_os_name = tc_os_name r, tp_os_version = tc_os_version r, tp_architecture = tc_architecture r,
      tp_file_path = tc_file_path r, tp_storage_backend_id = tc_storage_backend_id r,
      tp_size_bytes = tc_size_bytes r, tp_checksum = tc_checksum r, tp_current_version_id = None,
      tp_description = tc_description r\<rparr>"

definition create_template :: "string \<Rightarrow> template_create \<Rightarrow> template_db \<Rightarrow> api_error + template_db" where
  "create_template uuid r d =
     (if tc_type r \<notin> set VALID_TYPES then Inl (Status 400)
      else if truthy (tc_os_family r) \<and> the (tc_os_family r) \<notin> set VALID_OS_FAMILIES then Inl (Status 400)
      else if tc_architecture r \<notin> set VALID_ARCHITECTURES then Inl (Status 400)
      else if sql_get tp_name (tc_name r) (td_templates d) \<noteq> None then Inl (Status 409)
      else if truthy (tc_storage_backend_id r) \<and> the (tc_storage_backend_id r) \<notin> set (td_backend_ids d) then Inl (Status 404)
      else case sql_insert tp_id (template_of_create uuid r) (td_templates d) of
        Inl _ \<Rightarrow> Inl ConstraintFailed
      | Inr ts \<Rightarrow> Inr (d\<lparr>td_templates := ts\<rparr>))"

text \<open>
  \<open>setattr\<close> of the fields the request sets; null for the name, the type or the architecture
  is refused by the flush, as is a name another row has.
\<close>

definition set_template_fields :: "template_update \<Rightarrow> template \<Rightarrow> template" where
  "set_template_fields u t =
     t\<lparr>tp_name := (case tu_name u of Some (Some n) \<Rightarrow> n | _ \<Rightarrow> tp_name t),
       tp_type := (case tu_type u of Some (Some n) \<Rightarrow> n | _ \<Rightarrow> tp_type t),
       tp_os_family := set_or (tu_os_family u) (tp_os_family t),
       tp_os_name := set_or (tu_os_name u) (tp_os_name t),
       tp_os_version := set_or (tu_os_version u) (tp_os_version t),
       tp_architecture := (case tu_architecture u of Some (Some n) \<Rightarrow> n | _ \<Rightarrow> tp_architecture t),
       tp_file_path := set_or (tu_file_path u) (tp_file_path t),
       tp_storage_backend_id := set_or (tu_storage_backend_id u) (tp_storage_backend_id t),
       tp_size_bytes := set_or (tu_size_bytes u) (tp_size_bytes t),
       tp_checksum := set_or (tu_checksum u) (tp_checksum t),
       tp_description := set_or (tu_description u) (tp_description t)\<rparr>"

definition save_template :: "template \<Rightarrow> template list \<Rightarrow> template list" where
  "save_template t ts = map (\<lambda>s. if tp_id s = tp_id t then t else s) ts"

text \<open>A value that is given and not empty, as in \<open>if data.type\<close>.\<close>

definition provided :: "string option option \<Rightarrow> (string \<Rightarrow> bool) \<Rightarrow> bool" where
  "provided u p = (case u of Some (Some v) \<Rightarrow> v \<noteq> [] \<and> p v | _ \<Rightarrow> False)"

definition update_template :: "string \<Rightarrow> template_update \<Rightarrow> template_db \<Rightarrow> api_error + template_db" where
  "update_template i u d =
     (case sql_get tp_id i (td_templates d) of
        None \<Rightarrow> Inl (Status 404)
      | Some t \<Rightarrow>
          if provided (tu_type u) (\<lambda>v. v \<notin> set VALID_TYPES) then Inl (Status 400)
          else if provided (tu_os_family u) (\<lambda>v. v \<notin> set VALID_OS_FAMILIES) then Inl (Status 400)
          else if provided (tu_architecture u) (\<lambda>v. v \<notin> set VALID_ARCHITECTURES) then Inl (Status 400)
          else if provided (tu_name u) (\<lambda>n. n \<noteq> tp_name t \<and> sql_get tp_name n (td_templates d) \<noteq> None) then Inl (Status 409)
          else if provided (tu_storage_backend_id u)
                    (\<lambda>b. Some b \<noteq> tp_storage_backend_id t \<and> b \<notin> set (td_backend_ids d)) then Inl (Status 404)
          else if tu_name u = Some None \<or> tu_type u = Some None \<or> tu_architecture u = Some None
                  \<or> (\<exists>s \<in> set (td_templates d). tp_id s \<noteq> i \<and> tp_name s = tp_name (set_template_fields u t))
          then Inl ConstraintFailed
          else Inr (d\<lparr>td_templates := save_template (set_template_fields u t) (td_templates d)\<rparr>))"

text \<open>The versions go with their template (\<open>cascade="all, delete-orphan"\<close>).\<close>

definition delete_template :: "string \<Rightarrow> template_db \<Rightarrow> api_error + template_db" where
  "delete_template i d =
     (case sql_get tp_id i (td_templates d) of
        None \<Rightarrow> Inl (Status 404)
      | Some _ \<Rightarrow>
          Inr (d\<lparr>td_templates := filter (\<lambda>t. tp_id t \<noteq> i) (td_templates d),
                 td_versions := filter (\<lambda>v. tv_template_id v \<noteq> i) (td_versions d)\<rparr>))"

section \<open>Versions\<close>

definition is_bump :: "string \<Rightarrow> bool" where
  "is_bump b \<longleftrightarrow> b \<in> set [''major'', ''minor'']"

text \<open>\<open>re.match(r'^v?(\d+)(?:\.(\d+))?$', s)\<close>.\<close>

definition parse_version_string :: "string \<Rightarrow> (nat \<times> nat) option" where
  "parse_version_string version_str =
     (let s = strip_newline version_str;
          r = (case strip_prefix ''v'' s of None \<Rightarrow> s | Some r \<Rightarrow> r);
          major = takeWhile is_digit r; r1 = dropWhile is_digit r
      in case (if major = [] then None else read_digits 0 major) of
           None \<Rightarrow> None
         | Some m \<Rightarrow>
             if r1 = [] then Some (m, 0)
             else case strip_prefix ''.'' r1 of
               None \<Rightarrow> None
             | Some minor \<Rightarrow>
                 if minor \<noteq> [] \<and> list_all is_digit minor
                 then map_option (\<lambda>n. (m, n)) (read_digits 0 minor) else None)"

definition version_le :: "template_version \<Rightarrow> template_version \<Rightarrow> bool" where
  "version_le v w \<longleftrightarrow> tv_major v < tv_major w \<or> tv_major v = tv_major w \<and> tv_minor v \<le> tv_minor w"

text \<open>\<open>max(versions, key=lambda v: (v.major, v.minor))\<close>: the first of the highest.\<close>

fun max_version :: "template_version \<Rightarrow> template_version list \<Rightarrow> template_version" where
  "max_version v [] = v"
| "max_version v (w # ws) = max_version (if version_le w v then v else w) ws"

definition next_version :: "string \<Rightarrow> template_version list \<Rightarrow> nat \<times> nat" where
  "next_version bump versions =
     (case versions of
        [] \<Rightarrow> (1, 0)
      | v # vs \<Rightarrow>
          let latest_version = max_version v vs in
          if bump = ''major'' then (tv_major latest_version + 1, 0)
          else (tv_major latest_version, tv_minor latest_version + 1))"

definition versions_of :: "string \<Rightarrow> template_db \<Rightarrow> template_version list" where
  "versions_of i d = filter (\<lambda>v. tv_template_id v = i) (td_versions d)"

definition new_version ::
    "(string \<Rightarrow> string) \<Rightarrow> (string \<Rightarrow> nat) \<Rightarrow> string \<Rightarrow> string \<Rightarrow> nat \<Rightarrow> nat \<Rightarrow> string \<Rightarrow> string option \<Rightarrow> template_version" where
  "new_version sha256 utf8_length uuid i major minor content commit_message =
     \<lparr>tv_id = uuid, tv_template_id = i, tv_major = major, tv_minor = minor, tv_content = content,
      tv_content_hash = sha256 content, tv_size_bytes = Some (utf8_length content),
      tv_commit_message = commit_message\<rparr>"

definition create_template_version ::
    "(string \<Rightarrow> string) \<Rightarrow> (string \<Rightarrow> nat) \<Rightarrow> string \<Rightarrow> string \<Rightarrow> string \<Rightarrow> string option \<Rightarrow> string \<Rightarrow> template_db \<Rightarrow>
     api_error + template_db" where
  "create_template_version sha256 utf8_length uuid i content commit_message bump d =
     (if length content > 10000000 then Inl (Status 422)
      else case sql_get tp_id i (td_templates d) of
        None \<Rightarrow> Inl (Status 404)
      | Some t \<Rightarrow>
          if \<not> is_bump bump then Inl (Status 400)
          else let (major, minor) = next_version bump (versions_of i d) in
            case sql_insert tv_id (new_version sha256 utf8_length uuid i major minor content commit_message) (td_versions d) of
              Inl _ \<Rightarrow> Inl ConstraintFailed
            | Inr vs \<Rightarrow>
                Inr (d\<lparr>td_versions := vs,
                       td_templates := save_template (t\<lparr>tp_current_version_id := Some uuid\<rparr>) (td_templates d)\<rparr>))"

definition list_template_versions :: "string \<Rightarrow> template_db \<Rightarrow> api_error + template_version list" where
  "list_template_versions i d =
     (case sql_get tp_id i (td_templates d) of
        None \<Rightarrow> Inl (Status 404)
      | Some _ \<Rightarrow> Inr (order_by (\<lambda>v w. version_le w v) (versions_of i d)))"

definition get_template_version :: "string \<Rightarrow> string \<Rightarrow> template_db \<Rightarrow> api_error + template_version" where
  "get_template_version i version d =
     (case sql_get tp_id i (td_templates d) of
        None \<Rightarrow> Inl (Status 404)
      | Some t \<Rightarrow>
          if lower version = ''latest'' then
            (if \<not> truthy (tp_current_version_id t) then Inl (Status 404)
             else case sql_get tv_id (the (tp_current_version_id t)) (td_versions d) of
               None \<Rightarrow> Inl (Status 404)
             | Some v \<Rightarrow> Inr v)
          else case parse_version_string version of
            None \<Rightarrow> Inl (Status 400)
          | Some (major, minor) \<Rightarrow>
              (case find (\<lambda>v. tv_template_id v = i \<and> tv_major v = major \<and> tv_minor v = minor) (td_versions d) of
                 None \<Rightarrow> Inl (Status 404)
               | Some v \<Rightarrow> Inr v))"

section \<open>Requests\<close>

datatype template_request =
    CreateTemplate string template_create
  | UpdateTemplate string template_update
  | DeleteTemplate string
  | CreateVersion string string string "string option" string

fun template_route ::
    "(string \<Rightarrow> string) \<Rightarrow> (string \<Rightarrow> nat) \<Rightarrow> template_request \<Rightarrow> template_db \<Rightarrow> api_error + template_db" where
  "template_route sha256 utf8_length (CreateTemplate uuid r) d = create_template uuid r d"
| "template_route sha256 utf8_length (UpdateTemplate i u) d = update_template i u d"
| "template_route sha256 utf8_length (DeleteTemplate i) d = delete_template i d"
| "template_route sha256 utf8_length (CreateVersion uuid i content msg bump) d =
     create_template_version sha256 utf8_length uuid i content msg bump d"

section \<open>The invariant\<close>

definition version_key :: "template_version \<Rightarrow> string \<times> nat \<times> nat" where
  "version_key v = (tv_template_id v, tv_major v, tv_minor v)"

text \<open>An empty string passes the checks of an update, so it can be stored.\<close>

definition fields_ok :: "template \<Rightarrow> bool" where
  "fields_ok t \<longleftrightarrow> tp_type t \<in> insert [] (set VALID_TYPES)
     \<and> (case tp_os_family t of None \<Rightarrow> True | Some f \<Rightarrow> f \<in> insert [] (set VALID_OS_FAMILIES))
     \<and> tp_architecture t \<in> insert [] (set VALID_ARCHITECTURES)"

definition current_ok :: "template_db \<Rightarrow> template \<Rightarrow> bool" where
  "current_ok d t \<longleftrightarrow>
     (case tp_current_version_id t of
        None \<Rightarrow> versions_of (tp_id t) d = []
      | Some c \<Rightarrow> (\<exists>v \<in> set (versions_of (tp_id t) d). tv_id v = c \<and> (\<forall>w \<in> set (versions_of (tp_id t) d). version_le w v)))"

definition template_rows :: "template_db \<Rightarrow> bool" where
  "template_rows d \<longleftrightarrow> keys_unique tp_id (td_templates d) \<and> keys_unique tp_name (td_templates d)
     \<and> keys_unique tv_id (td_versions d) \<and> keys_unique version_key (td_versions d)
     \<and> (\<forall>v \<in> set (td_versions d). tv_template_id v \<in> tp_id ` set (td_templates d))"

definition template_inv :: "template_db \<Rightarrow> bool" where
  "template_inv d \<longleftrightarrow> template_rows d \<and> (\<forall>t \<in> set (td_templates d). fields_ok t \<and> current_ok d t)"

lemma version_le_total: "version_le v w \<or> version_le w v"
  by (auto simp: version_le_def)

lemma version_le_trans: "version_le u v \<Longrightarrow> version_le v w \<Longrightarrow> version_le u w"
  by (auto simp: version_le_def)

lemma max_version: "max_version v ws \<in> set (v # ws) \<and> (\<forall>w \<in> set (v # ws). version_le w (max_version v ws))"
proof (induction v ws rule: max_version.induct)
  case (1 v)
  then show ?case using version_le_total by auto
next
  case (2 v w ws)
  let ?u = "if version_le w v then v else w"
  have "version_le v ?u" "version_le w ?u" using version_le_total [of v w] version_le_total [of v v] version_le_total [of w w] by auto
  moreover have "version_le ?u (max_version ?u ws)" using "2.IH" by simp
  ultimately have "version_le v (max_version ?u ws)" "version_le w (max_version ?u ws)" using version_le_trans by blast+
  then show ?case using "2.IH" by (cases "version_le w v") auto
qed

lemma next_version_above:
  assumes "next_version bump vs = (major, minor)" and "w \<in> set vs"
  shows "tv_major w < major \<or> tv_major w = major \<and> tv_minor w < minor"
proof (cases vs)
  case (Cons v ws)
  then have "version_le w (max_version v ws)" using max_version assms(2) by auto
  then show ?thesis using assms(1) Cons by (auto simp: next_version_def Let_def version_le_def split: if_splits)
qed (use assms in simp)

lemma keys_unique_map_same:
  "(\<forall>x \<in> set xs. key (f x) = key x) \<Longrightarrow> keys_unique key (map f xs) = keys_unique key xs"
  by (simp add: keys_unique_def comp_def cong: map_cong)

lemma create_template_fields:
  assumes "create_template uuid r d = Inr d'"
  shows "fields_ok (template_of_create uuid r)"
proof -
  have "tc_type r \<in> set VALID_TYPES" "tc_architecture r \<in> set VALID_ARCHITECTURES"
      "truthy (tc_os_family r) \<Longrightarrow> the (tc_os_family r) \<in> set VALID_OS_FAMILIES"
    using assms by (auto simp: create_template_def split: if_splits)
  then show ?thesis by (cases "tc_os_family r") (auto simp: fields_ok_def template_of_create_def)
qed

lemma versions_of_templates [simp]: "versions_of i (d\<lparr>td_templates := ts\<rparr>) = versions_of i d"
  by (simp add: versions_of_def)

lemma current_ok_templates [simp]: "current_ok (d\<lparr>td_templates := ts\<rparr>) = current_ok d"
  by (simp add: current_ok_def fun_eq_iff split: option.splits)

lemma create_template_inv:
  assumes "template_inv d" and "create_template uuid r d = Inr d'"
  shows "template_inv d'"
proof -
  let ?t = "template_of_create uuid r"
  have d': "d' = d\<lparr>td_templates := td_templates d @ [?t]\<rparr>" and t: "tp_id ?t \<notin> tp_id ` set (td_templates d)"
    and name: "tp_name ?t \<notin> tp_name ` set (td_templates d)" and "fields_ok ?t"
    using assms(2) create_template_fields
    by (auto simp: create_template_def sql_insert_def sql_get_None_iff template_of_create_def split: if_splits option.splits)
  have "versions_of (tp_id ?t) d = []"
    using assms(1) t unfolding template_inv_def template_rows_def versions_of_def filter_empty_conv by metis
  then have "current_ok d ?t" by (simp add: current_ok_def template_of_create_def)
  with \<open>fields_ok ?t\<close> show ?thesis using assms(1) t name by (auto simp: template_inv_def template_rows_def d' keys_unique_def)
qed

lemma save_template_ids: "map tp_id (save_template t ts) = map tp_id ts"
  by (simp add: save_template_def)

lemma current_ok_cong:
  assumes "tp_id s = tp_id t" and "tp_current_version_id s = tp_current_version_id t"
    and "versions_of (tp_id t) d = versions_of (tp_id t) e"
  shows "current_ok d s = current_ok e t"
  using assms by (simp add: current_ok_def split: option.splits)

lemma save_template_inv:
  assumes "template_rows d" and "tp_id s = tp_id t" and "fields_ok s" and "current_ok d s"
    and "\<forall>r \<in> set (td_templates d). tp_id r \<noteq> tp_id t \<longrightarrow> tp_name r \<noteq> tp_name s \<and> fields_ok r \<and> current_ok d r"
  shows "template_inv (d\<lparr>td_templates := save_template s (td_templates d)\<rparr>)"
proof -
  let ?ts = "td_templates d" and ?d = "d\<lparr>td_templates := save_template s (td_templates d)\<rparr>"
  have "keys_unique tp_name (save_template s ?ts)"
    unfolding save_template_def using assms(1,2,5) by (intro replace_row_unique) (simp_all add: template_rows_def)
  moreover have "keys_unique tp_id (save_template s ?ts)"
    using assms(1) by (simp add: template_rows_def keys_unique_def save_template_ids)
  moreover have "tp_id ` set (save_template s ?ts) = tp_id ` set ?ts"
    using arg_cong [OF save_template_ids [of s ?ts], of set] by simp
  moreover have "\<forall>r \<in> set (save_template s ?ts). fields_ok r \<and> current_ok ?d r"
    using assms(2-5) by (auto simp: save_template_def)
  ultimately show ?thesis using assms(1) by (simp add: template_inv_def template_rows_def)
qed

lemma set_template_fields_ok:
  assumes "fields_ok t" and "\<not> provided (tu_type u) (\<lambda>v. v \<notin> set VALID_TYPES)"
    and "\<not> provided (tu_os_family u) (\<lambda>v. v \<notin> set VALID_OS_FAMILIES)"
    and "\<not> provided (tu_architecture u) (\<lambda>v. v \<notin> set VALID_ARCHITECTURES)"
  shows "fields_ok (set_template_fields u t)"
proof -
  have "tp_type (set_template_fields u t) \<in> insert [] (set VALID_TYPES)"
    using assms(1,2) by (auto simp: set_template_fields_def fields_ok_def provided_def split: option.splits)
  moreover have "tp_architecture (set_template_fields u t) \<in> insert [] (set VALID_ARCHITECTURES)"
    using assms(1,4) by (auto simp: set_template_fields_def fields_ok_def provided_def split: option.splits)
  moreover have "case tp_os_family (set_template_fields u t) of None \<Rightarrow> True | Some f \<Rightarrow> f \<in> insert [] (set VALID_OS_FAMILIES)"
    using assms(1,3) by (auto simp: set_template_fields_def fields_ok_def provided_def set_or_def split: option.splits)
  ultimately show ?thesis by (simp add: fields_ok_def)
qed

lemma update_template_inv:
  assumes "template_inv d" and "update_template i u d = Inr d'"
  shows "template_inv d'"
proof -
  obtain t where t: "sql_get tp_id i (td_templates d) = Some t"
    and d': "d' = d\<lparr>td_templates := save_template (set_template_fields u t) (td_templates d)\<rparr>"
    and ok: "\<not> provided (tu_type u) (\<lambda>v. v \<notin> set VALID_TYPES)" "\<not> provided (tu_os_family u) (\<lambda>v. v \<notin> set VALID_OS_FAMILIES)"
      "\<not> provided (tu_architecture u) (\<lambda>v. v \<notin> set VALID_ARCHITECTURES)"
    and name: "\<forall>s \<in> set (td_templates d). tp_id s \<noteq> i \<longrightarrow> tp_name s \<noteq> tp_name (set_template_fields u t)"
    using assms(2) by (auto simp: update_template_def split: option.splits if_splits)
  have tin: "t \<in> set (td_templates d)" "tp_id t = i" using sql_get_SomeD [OF t] by auto
  have id: "tp_id (set_template_fields u t) = tp_id t"
    and cur: "tp_current_version_id (set_template_fields u t) = tp_current_version_id t" by (simp_all add: set_template_fields_def)
  have "fields_ok t" "current_ok d t" using assms(1) tin by (auto simp: template_inv_def template_rows_def)
  then have "fields_ok (set_template_fields u t)" "current_ok d (set_template_fields u t)"
    using set_template_fields_ok ok current_ok_cong [OF id cur] by auto
  moreover have "template_rows d" "\<forall>r \<in> set (td_templates d). fields_ok r \<and> current_ok d r"
    using assms(1) by (simp_all add: template_inv_def)
  ultimately show ?thesis unfolding d' using save_template_inv [of d _ t] id name tin(2) by simp
qed

lemma delete_template_inv:
  assumes "template_inv d" and "delete_template i d = Inr d'"
  shows "template_inv d'"
proof -
  have d': "d' = d\<lparr>td_templates := filter (\<lambda>t. tp_id t \<noteq> i) (td_templates d),
                 td_versions := filter (\<lambda>v. tv_template_id v \<noteq> i) (td_versions d)\<rparr>"
    using assms(2) by (auto simp: delete_template_def split: option.splits)
  have v: "versions_of j d' = versions_of j d" if "j \<noteq> i" for j
    using that by (auto simp: versions_of_def d' intro!: filter_cong)
  have "current_ok d' t = current_ok d t" if "tp_id t \<noteq> i" for t
    using v [OF that] by (simp add: current_ok_def split: option.splits)
  moreover have "\<forall>v \<in> set (td_versions d'). tv_template_id v \<in> tp_id ` set (td_templates d')"
    using assms(1) by (force simp: d' template_inv_def template_rows_def)
  ultimately show ?thesis using assms(1)
    by (auto simp: template_inv_def template_rows_def d' keys_unique_filter)
qed

lemma create_version_inv:
  assumes inv: "template_inv d" and run: "create_template_version sha256 len uuid i content msg bump d = Inr d'"
  shows "template_inv d'"
proof -
  obtain t major minor v where t: "sql_get tp_id i (td_templates d) = Some t"
    and n: "next_version bump (versions_of i d) = (major, minor)"
    and v: "tv_id v = uuid" "version_key v = (i, major, minor)" "uuid \<notin> tv_id ` set (td_versions d)"
    and d': "d' = d\<lparr>td_versions := td_versions d @ [v],
                       td_templates := save_template (t\<lparr>tp_current_version_id := Some uuid\<rparr>) (td_templates d)\<rparr>"
    using run that [of _ _ _ "new_version sha256 len uuid i _ _ content msg"]
    by (auto simp: create_template_version_def sql_insert_def version_key_def new_version_def
        split: option.splits if_splits prod.splits)
  let ?t = "t\<lparr>tp_current_version_id := Some uuid\<rparr>" and ?d = "d\<lparr>td_versions := td_versions d @ [v]\<rparr>"
  have tin: "t \<in> set (td_templates d)" "tp_id t = i" using sql_get_SomeD [OF t] by auto
  have above: "tv_major w < tv_major v \<or> tv_major w = tv_major v \<and> tv_minor w < tv_minor v" if "w \<in> set (versions_of i d)" for w
    using next_version_above [OF n that] v(2) by (simp add: version_key_def)
  have vo: "versions_of j ?d = versions_of j d @ (if j = i then [v] else [])" for j
    using v(2) by (auto simp: versions_of_def version_key_def)
  have rows: "template_rows d" "\<forall>s \<in> set (td_templates d). fields_ok s \<and> current_ok d s"
    using inv by (simp_all add: template_inv_def)
  have "keys_unique version_key (td_versions ?d)"
    using inv above v(2) by (fastforce simp: template_inv_def template_rows_def keys_unique_def version_key_def versions_of_def)
  moreover have "keys_unique tv_id (td_versions ?d)" using inv v(1,3) by (simp add: template_inv_def template_rows_def keys_unique_def)
  moreover have "\<forall>w \<in> set (td_versions ?d). tv_template_id w \<in> tp_id ` set (td_templates d)"
    using inv v(2) tin by (auto simp: template_inv_def template_rows_def version_key_def)
  ultimately have "template_rows ?d" using rows(1) by (simp add: template_rows_def)
  moreover have "current_ok ?d ?t"
    using above v(1) tin(2) by (fastforce simp: current_ok_def vo version_le_def)
  moreover have "\<forall>s \<in> set (td_templates d). tp_id s \<noteq> tp_id t \<longrightarrow> tp_name s \<noteq> tp_name ?t \<and> fields_ok s \<and> current_ok ?d s"
  proof (intro ballI impI conjI)
    fix s assume s: "s \<in> set (td_templates d)" "tp_id s \<noteq> tp_id t"
    have "inj_on tp_name (set (td_templates d))" using rows(1) by (simp add: template_rows_def keys_unique_def distinct_map)
    then show "tp_name s \<noteq> tp_name ?t" using s tin(1) by (auto dest: inj_onD)
    show "fields_ok s" using rows(2) s(1) by simp
    show "current_ok ?d s" using rows(2) s current_ok_cong [of s s ?d d] vo tin(2) by simp
  qed
  moreover have "fields_ok ?t" using rows(2) tin by (simp add: fields_ok_def)
  ultimately show ?thesis using save_template_inv [of ?d ?t t] by (simp add: d')
qed

lemma template_route_inv:
  "template_inv d \<Longrightarrow> template_route sha256 len q d = Inr d' \<Longrightarrow> template_inv d'"
  by (cases q) (auto intro: create_template_inv update_template_inv delete_template_inv create_version_inv)

interpretation template_api: transactional "template_route sha256 len" template_inv
  by unfold_locales (rule template_route_inv)

definition no_templates :: "string list \<Rightarrow> template_db" where
  "no_templates backends = \<lparr>td_templates = [], td_versions = [], td_backend_ids = backends\<rparr>"

lemma no_templates_inv: "template_inv (no_templates backends)"
  by (simp add: template_inv_def template_rows_def no_templates_def keys_unique_def)

section \<open>Properties\<close>

lemma version_le_antisym:
  assumes "template_inv d" and "v \<in> set (versions_of i d)" and "w \<in> set (versions_of i d)"
    and "version_le v w" and "version_le w v"
  shows "v = w"
proof -
  have "version_key v = version_key w" using assms(2-5) by (auto simp: version_key_def versions_of_def version_le_def)
  then show ?thesis using assms(1-3)
    by (auto simp: template_inv_def template_rows_def keys_unique_def distinct_map versions_of_def dest: inj_onD)
qed

text \<open>
  C22: The latest version of a template. After any sequence of template requests the version a template
  answers as latest is the one with the highest number, strictly above all its other versions, and
  the first of its version list; a template with no version has no latest one.
\<close>

theorem latest_is_highest:
  assumes "d = serve (template_route sha256 len) qs (no_templates backends)"
    and "sql_get tp_id i (td_templates d) = Some t" and "\<forall>v \<in> set (td_versions d). tv_id v \<noteq> []"
  shows "if versions_of i d = [] then get_template_version i ''latest'' d = Inl (Status 404)
    else \<exists>v vs. get_template_version i ''latest'' d = Inr v \<and> list_template_versions i d = Inr (v # vs)
      \<and> set (v # vs) = set (versions_of i d)
      \<and> (\<forall>w \<in> set vs. tv_major w < tv_major v \<or> tv_major w = tv_major v \<and> tv_minor w < tv_minor v)"
proof -
  have inv: "template_inv d" unfolding assms(1) by (rule template_api.serve_inv [OF no_templates_inv])
  have t: "t \<in> set (td_templates d)" "tp_id t = i" using sql_get_SomeD [OF assms(2)] by auto
  have cur: "current_ok d t" using inv t by (simp add: template_inv_def)
  have latest: "lower ''latest'' = ''latest''" by (simp add: lower_def lower_char_def)
  show ?thesis
  proof (cases "versions_of i d = []")
    case True
    then have "tp_current_version_id t = None" using cur t(2) by (auto simp: current_ok_def split: option.splits)
    with True show ?thesis by (simp add: get_template_version_def assms(2) latest)
  next
    case False
    then obtain v where v: "v \<in> set (versions_of i d)" "tp_current_version_id t = Some (tv_id v)"
        "\<forall>w \<in> set (versions_of i d). version_le w v"
      using cur t(2) by (auto simp: current_ok_def split: option.splits)
    have vin: "v \<in> set (td_versions d)" using v(1) by (simp add: versions_of_def)
    have get: "get_template_version i ''latest'' d = Inr v"
      using assms(3) vin v(2) sql_get_in_set [of tv_id, OF _ vin] inv
      by (auto simp: get_template_version_def assms(2) latest template_inv_def template_rows_def)
    let ?vs = "order_by (\<lambda>v w. version_le w v) (versions_of i d)"
    have sorted: "sorted_wrt (\<lambda>v w. version_le w v) ?vs"
      using sorted_order_by [of "\<lambda>v w. version_le w v"] version_le_total version_le_trans by blast
    have mem: "set ?vs = set (versions_of i d)" by (rule set_order_by)
    with False obtain u us where u: "?vs = u # us" by (cases ?vs) auto
    note mem = mem [unfolded u]
    have "v = u \<or> v \<in> set us" using v(1) mem by auto
    then have "version_le v u" using sorted version_le_total [of u u] by (auto simp: u)
    then have uv: "u = v" using version_le_antisym [OF inv, of u i v] mem v by auto
    have "distinct (u # us)"
      using inv mset_order_by [of "\<lambda>v w. version_le w v" "versions_of i d"] u mset_eq_imp_distinct_iff
      by (metis distinct_filter distinct_map keys_unique_def template_inv_def template_rows_def versions_of_def)
    then have "tv_major w < tv_major v \<or> tv_major w = tv_major v \<and> tv_minor w < tv_minor v" if "w \<in> set us" for w
      using that v(3) mem version_le_antisym [OF inv, of w i v] uv v(1) by (force simp: version_le_def)
    then show ?thesis using False get u uv mem by (auto simp: list_template_versions_def assms(2))
  qed
qed

lemma is_digit_show: "list_all is_digit (show_nat n)"
  using show_nat_digits by (auto simp: list_all_iff is_digit_def)

lemma parse_version_string_show:
  "parse_version_string (''v'' @ show_nat m @ ''.'' @ show_nat n) = Some (m, n)"
proof -
  let ?s = "CHR ''v'' # show_nat m @ CHR ''.'' # show_nat n"
  have "last ?s = last (show_nat n)" by simp
  moreover have "is_digit (last (show_nat n))" using is_digit_show [of n] by (simp add: list_all_iff)
  moreover have "\<not> is_digit (CHR 0x0A)" "\<not> is_digit (CHR ''.'')" by (simp_all add: is_digit_def digit_val_def)
  ultimately have nl: "strip_newline ?s = ?s" by (auto simp: strip_newline_def)
  show ?thesis
    using \<open>\<not> is_digit (CHR ''.'')\<close> is_digit_show
    by (simp add: parse_version_string_def Let_def nl strip_prefix_char span_append read_digits_show_nat)
qed

text \<open>
  A version is found under its version string: asking for the string that a stored version shows
  returns that version.
\<close>

theorem version_string_roundtrip:
  assumes "template_inv d" and "v \<in> set (td_versions d)"
  shows "get_template_version (tv_template_id v) (version_string v) d = Inr v"
proof -
  let ?i = "tv_template_id v"
  obtain t where t: "sql_get tp_id ?i (td_templates d) = Some t"
    using assms sql_get_None_iff [of tp_id ?i "td_templates d"] by (auto simp: template_inv_def template_rows_def)
  have "lower (version_string v) \<noteq> ''latest''" by (simp add: version_string_def lower_def lower_char_def)
  moreover have "parse_version_string (version_string v) = Some (tv_major v, tv_minor v)"
    unfolding version_string_def by (rule parse_version_string_show)
  moreover have "find (\<lambda>w. tv_template_id w = ?i \<and> tv_major w = tv_major v \<and> tv_minor w = tv_minor v) (td_versions d) = Some v"
  proof -
    have "(\<lambda>w. tv_template_id w = ?i \<and> tv_major w = tv_major v \<and> tv_minor w = tv_minor v) = (\<lambda>w. version_key w = version_key v)"
      by (auto simp: fun_eq_iff version_key_def)
    then show ?thesis using sql_get_in_set [of version_key "td_versions d" v] assms
      by (simp add: sql_get_def template_inv_def template_rows_def)
  qed
  ultimately show ?thesis by (simp add: get_template_version_def t)
qed

section \<open>Examples\<close>

definition example_create :: template_create where
  "example_create =
     \<lparr>tc_name = ''ks'', tc_type = ''kickstart'', tc_os_family = None, tc_os_name = None, tc_os_version = None,
      tc_architecture = ''x86_64'', tc_file_path = None, tc_storage_backend_id = None, tc_size_bytes = None,
      tc_checksum = None, tc_description = None\<rparr>"

abbreviation example_templates :: template_db where
  "example_templates \<equiv> serve (template_route (\<lambda>s. s) length)
     [CreateTemplate ''t'' example_create, CreateVersion ''a'' ''t'' ''one'' None ''minor'',
      CreateVersion ''b'' ''t'' ''two'' None ''major''] (no_templates [])"

lemma example_versions:
  "sql_get tp_id ''t'' (td_templates example_templates) = Some ((template_of_create ''t'' example_create)\<lparr>tp_current_version_id := Some ''b''\<rparr>)"
  "td_versions example_templates = [new_version (\<lambda>s. s) length ''a'' ''t'' 1 0 ''one'' None, new_version (\<lambda>s. s) length ''b'' ''t'' 2 0 ''two'' None]"
  by (simp_all add: get_db_def create_template_def example_create_def VALID_TYPES_def VALID_ARCHITECTURES_def
      no_templates_def sql_get_def sql_insert_def template_of_create_def create_template_version_def is_bump_def
      next_version_def versions_of_def new_version_def save_template_def Let_def)

theorem latest_is_highest_witness:
  "\<exists>v vs. get_template_version ''t'' ''latest'' example_templates = Inr v
     \<and> list_template_versions ''t'' example_templates = Inr (v # vs) \<and> tv_major v = 2"
proof -
  have ne: "versions_of ''t'' example_templates \<noteq> []"
    unfolding versions_of_def example_versions(2) by (simp add: new_version_def)
  obtain v vs where v: "get_template_version ''t'' ''latest'' example_templates = Inr v"
      "list_template_versions ''t'' example_templates = Inr (v # vs)"
      "set (v # vs) = set (versions_of ''t'' example_templates)"
      "\<forall>w \<in> set vs. tv_major w < tv_major v \<or> tv_major w = tv_major v \<and> tv_minor w < tv_minor v"
    using latest_is_highest [OF refl example_versions(1)] ne example_versions(2) by (auto simp: new_version_def)
  let ?a = "new_version (\<lambda>s. s) length ''a'' ''t'' 1 0 ''one'' None" and ?b = "new_version (\<lambda>s. s) length ''b'' ''t'' 2 0 ''two'' None"
  have s: "set (v # vs) = {?a, ?b}"
    unfolding v(3) versions_of_def example_versions(2) by (simp add: new_version_def)
  have "?b = v \<or> ?b \<in> set vs" "v = ?a \<or> v = ?b" using s by auto
  moreover have "tv_major ?a = 1" "tv_major ?b = 2" by (simp_all add: new_version_def)
  ultimately have "tv_major v = 2" using v(4) by force
  with v show ?thesis by blast
qed

theorem version_string_roundtrip_witness:
  "get_template_version ''t'' ''v2.0'' example_templates = Inr (new_version (\<lambda>s. s) length ''b'' ''t'' 2 0 ''two'' None)"
proof -
  let ?v = "new_version (\<lambda>s. s) length ''b'' ''t'' 2 0 ''two'' None"
  have "template_inv example_templates" by (rule template_api.serve_inv [OF no_templates_inv])
  moreover have "?v \<in> set (td_versions example_templates)" unfolding example_versions(2) by simp
  ultimately have "get_template_version (tv_template_id ?v) (version_string ?v) example_templates = Inr ?v"
    by (rule version_string_roundtrip)
  moreover have "version_string ?v = ''v2.0''" "tv_template_id ?v = ''t''"
    by (simp_all add: new_version_def) code_simp
  ultimately show ?thesis by simp
qed

end
