(* ===== verification/Accounts.thy ===== *)
theory Accounts
  imports Tables
begin

text \<open>
  Accounts: src/src/api/routes/auth.py (login, logout, refresh), src/src/api/routes/users.py, the
  group synchronisation of src/src/services/ldap.py and the audit rows of src/src/services/audit.py.

  Cryptography and the directory are parameters, collected in \<open>env\<close>: bcrypt
  (\<open>hashpw\<close> with its salt, \<open>checkpw\<close>), SHA-256, the encoding and checking of a JWT (PyJWT
  being installed), and the answer of the configured LDAP servers. Fresh ids, refresh tokens and
  salts are arguments of the handlers that draw them, the current time is an argument of all.

  A handler runs in a session and returns the state of that session with its outcome;
  \<open>outcome\<close> turns this into what \<open>get_db\<close> makes of it: the new state is committed if the
  handler returns, and lost if it raises, also where the handler has already written to it.
\<close>

section \<open>Data\<close>

record user =
  us_id :: string
  us_username :: string
  us_email :: "string option"
  us_password_hash :: string
  us_role :: string
  us_role_id :: "string option"
  us_is_service_account :: bool
  us_service_account_description :: "string option"
  us_owner_id :: "string option"
  us_expires_at :: "datetime option"
  us_auth_source :: string
  us_is_active :: bool
  us_failed_login_attempts :: int
  us_locked_until :: "datetime option"
  us_last_login_at :: "datetime option"

definition new_user :: "string \<Rightarrow> string \<Rightarrow> string option \<Rightarrow> string \<Rightarrow> string \<Rightarrow> user" where
  "new_user uuid username email password_hash role =
     \<lparr>us_id = uuid, us_username = username, us_email = email, us_password_hash = password_hash,
      us_role = role, us_role_id = None, us_is_service_account = False,
      us_service_account_description = None, us_owner_id = None, us_expires_at = None,
      us_auth_source = ''local'', us_is_active = True, us_failed_login_attempts = 0,
      us_locked_until = None, us_last_login_at = None\<rparr>"

text \<open>A refresh token is identified by its digest, which is unique.\<close>

record refresh_token =
  rt_token_hash :: string
  rt_user_id :: string
  rt_expires_at :: datetime

record audit_log =
  al_actor_username :: string
  al_action :: string
  al_resource_type :: string
  al_resource_id :: "string option"
  al_resource_name :: "string option"
  al_result :: string
  al_error_message :: "string option"

record user_group =
  ug_id :: string
  ug_name :: string
  ug_description :: "string option"
  ug_requires_approval :: bool
  ug_ldap_group_dn :: "string option"

text \<open>A membership is the pair of the user and the group.\<close>

record accounts =
  ac_users :: "user list"
  ac_tokens :: "refresh_token list"
  ac_audit :: "audit_log list"
  ac_user_groups :: "user_group list"
  ac_members :: "(string \<times> string) list"

record ldap_user =
  lu_username :: string
  lu_email :: "string option"
  lu_display_name :: "string option"
  lu_dn :: string
  lu_groups :: "string list"

record claims =
  cl_sub :: string
  cl_username :: string
  cl_role :: string
  cl_exp :: datetime

record env =
  bcrypt_available :: bool
  hashpw :: "string \<Rightarrow> string \<Rightarrow> string"
  checkpw :: "string \<Rightarrow> string \<Rightarrow> bool"
  sha256 :: "string \<Rightarrow> string"
  jwt_encode :: "claims \<Rightarrow> string"
  jwt_decode :: "datetime \<Rightarrow> string \<Rightarrow> claims option"
  ldap_authenticate :: "string \<Rightarrow> string \<Rightarrow> ldap_user option"

definition ACCESS_TOKEN_EXPIRY_MINUTES :: int where "ACCESS_TOKEN_EXPIRY_MINUTES = 15"
definition REFRESH_TOKEN_EXPIRY_DAYS :: int where "REFRESH_TOKEN_EXPIRY_DAYS = 7"
definition MAX_FAILED_ATTEMPTS :: int where "MAX_FAILED_ATTEMPTS = 5"
definition LOCKOUT_DURATION_MINUTES :: int where "LOCKOUT_DURATION_MINUTES = 15"

definition hash_password :: "env \<Rightarrow> string \<Rightarrow> string \<Rightarrow> string" where
  "hash_password env salt password =
     (if bcrypt_available env then hashpw env salt password else sha256 env password)"

definition verify_password :: "env \<Rightarrow> string \<Rightarrow> string \<Rightarrow> bool" where
  "verify_password env password password_hash =
     (if bcrypt_available env \<and> startswith password_hash ''$2'' then checkpw env password password_hash
      else sha256 env password = password_hash)"

definition create_access_token :: "env \<Rightarrow> datetime \<Rightarrow> user \<Rightarrow> string" where
  "create_access_token env now u =
     jwt_encode env \<lparr>cl_sub = us_id u, cl_username = us_username u, cl_role = us_role u,
                     cl_exp = now + seconds (ACCESS_TOKEN_EXPIRY_MINUTES * 60)\<rparr>"

definition verify_access_token :: "env \<Rightarrow> datetime \<Rightarrow> string \<Rightarrow> claims option" where
  "verify_access_token env now token = jwt_decode env now token"

definition hash_refresh_token :: "env \<Rightarrow> string \<Rightarrow> string" where
  "hash_refresh_token env token = sha256 env token"

section \<open>Sessions and audit\<close>

type_synonym 'a in_session = "accounts \<times> (api_error + 'a)"

text \<open>
  \<open>audit_action\<close> takes the actor from \<open>request.state.user\<close>, which no code sets (the
  middleware sets \<open>user_id\<close>, \<open>username\<close> and \<open>role\<close>).
\<close>

definition audit_action ::
    "string \<Rightarrow> string \<Rightarrow> string option \<Rightarrow> string option \<Rightarrow> string \<Rightarrow> string option \<Rightarrow> accounts \<Rightarrow> accounts" where
  "audit_action action resource_type resource_id resource_name result error_message d =
     d\<lparr>ac_audit := ac_audit d @
       [\<lparr>al_actor_username = ''anonymous'', al_action = action, al_resource_type = resource_type,
         al_resource_id = resource_id, al_resource_name = resource_name, al_result = result,
         al_error_message = error_message\<rparr>]\<rparr>"

definition save_user :: "user \<Rightarrow> accounts \<Rightarrow> accounts" where
  "save_user u d = d\<lparr>ac_users := save_row us_id u (ac_users d)\<rparr>"

section \<open>Login\<close>

text \<open>Memberships of groups that are mapped to the directory follow it; the others stay.\<close>

definition sync_user_groups :: "user \<Rightarrow> string list \<Rightarrow> accounts \<Rightarrow> accounts" where
  "sync_user_groups user ldap_groups d =
     (let mapped = filter (\<lambda>g. ug_ldap_group_dn g \<noteq> None) (ac_user_groups d);
          target = map ug_id (filter (\<lambda>g. the (ug_ldap_group_dn g) \<in> set ldap_groups) mapped);
          current = map snd (filter (\<lambda>(u, g). u = us_id user) (ac_members d));
          kept = filter (\<lambda>(u, g). \<not> (u = us_id user \<and> g \<in> ug_id ` set mapped \<and> g \<notin> set target)) (ac_members d);
          added = map (\<lambda>g. (us_id user, g)) (filter (\<lambda>g. g \<notin> set current) target)
      in d\<lparr>ac_members := kept @ added\<rparr>)"

text \<open>The part after the password check: the tokens are issued and stored.\<close>

definition issue_tokens :: "env \<Rightarrow> datetime \<Rightarrow> string \<Rightarrow> user \<Rightarrow> accounts \<Rightarrow> (string \<times> string) in_session" where
  "issue_tokens env now token user d =
     (case sql_insert rt_token_hash
             \<lparr>rt_token_hash = hash_refresh_token env token, rt_user_id = us_id user,
              rt_expires_at = now + hours (REFRESH_TOKEN_EXPIRY_DAYS * 24)\<rparr> (ac_tokens d) of
        Inl _ \<Rightarrow> (d, Inl ConstraintFailed)
      | Inr ts \<Rightarrow>
          (audit_action ''login'' ''session'' (Some (us_id user)) (Some (us_username user)) ''success'' None
             (d\<lparr>ac_tokens := ts\<rparr>),
           Inr (create_access_token env now user, token)))"

definition refuse :: "user \<Rightarrow> string \<Rightarrow> nat \<Rightarrow> accounts \<Rightarrow> 'a in_session" where
  "refuse user message status d =
     (audit_action ''login'' ''session'' (Some (us_id user)) (Some (us_username user)) ''failure'' (Some message) d,
      Inl (Status status))"

definition is_locked :: "datetime \<Rightarrow> user \<Rightarrow> bool" where
  "is_locked now u = (case us_locked_until u of None \<Rightarrow> False | Some t \<Rightarrow> now < t)"

text \<open>\<open>user.failed_login_attempts += 1\<close> and the lock at the maximum.\<close>

definition count_failure :: "datetime \<Rightarrow> user \<Rightarrow> user" where
  "count_failure now u =
     (let u = u\<lparr>us_failed_login_attempts := us_failed_login_attempts u + 1\<rparr>
      in if us_failed_login_attempts u \<ge> MAX_FAILED_ATTEMPTS
         then u\<lparr>us_locked_until := Some (now + seconds (LOCKOUT_DURATION_MINUTES * 60))\<rparr> else u)"

definition note_login :: "datetime \<Rightarrow> user \<Rightarrow> user" where
  "note_login now user =
     user\<lparr>us_failed_login_attempts := 0, us_locked_until := None, us_last_login_at := Some now\<rparr>"

definition local_login ::
    "env \<Rightarrow> datetime \<Rightarrow> string \<Rightarrow> string \<Rightarrow> string \<Rightarrow> accounts \<Rightarrow> (string \<times> string) in_session" where
  "local_login env now token username password d =
     (case sql_get us_username username (ac_users d) of
        None \<Rightarrow>
          (audit_action ''login'' ''session'' None (Some username) ''failure'' (Some ''Invalid credentials'') d,
           Inl (Status 401))
      | Some user \<Rightarrow>
          if us_auth_source user = ''ldap'' then refuse user ''LDAP authentication required'' 401 d
          else if is_locked now user then refuse user ''Account locked'' 423 d
          else if \<not> us_is_active user then refuse user ''Account disabled'' 401 d
          else if \<not> verify_password env password (us_password_hash user)
          then refuse user ''Invalid credentials'' 401 (save_user (count_failure now user) d)
          else issue_tokens env now token (note_login now user) (save_user (note_login now user) d))"

text \<open>
  A directory user without a local row is to be created with a keyword \<open>display_name\<close>, which
  the class \<open>User\<close> does not have: its constructor raises a TypeError.
\<close>

definition ldap_login ::
    "env \<Rightarrow> datetime \<Rightarrow> string \<Rightarrow> ldap_user \<Rightarrow> accounts \<Rightarrow> (string \<times> string) in_session" where
  "ldap_login env now token lu d =
     (case sql_get us_username (lu_username lu) (ac_users d) of
        None \<Rightarrow> (d, Inl (Crash ''display_name is an invalid keyword argument for User''))
      | Some user \<Rightarrow>
          let d = sync_user_groups user (lu_groups lu) d;
              user = user\<lparr>us_last_login_at := Some now\<rparr>
          in issue_tokens env now token user (save_user user d))"

definition login ::
    "env \<Rightarrow> datetime \<Rightarrow> string \<Rightarrow> string \<Rightarrow> string \<Rightarrow> accounts \<Rightarrow> (string \<times> string) in_session" where
  "login env now token username password d =
     (case ldap_authenticate env username password of
        Some lu \<Rightarrow> ldap_login env now token lu d
      | None \<Rightarrow> local_login env now token username password d)"

section \<open>Logout and refresh\<close>

definition drop_token :: "string \<Rightarrow> accounts \<Rightarrow> accounts" where
  "drop_token h d = d\<lparr>ac_tokens := filter (\<lambda>t. rt_token_hash t \<noteq> h) (ac_tokens d)\<rparr>"

definition logout :: "env \<Rightarrow> string option \<Rightarrow> accounts \<Rightarrow> unit in_session" where
  "logout env cookie d =
     (if truthy cookie then (drop_token (hash_refresh_token env (the cookie)) d, Inr ()) else (d, Inr ()))"

definition refresh_tokens ::
    "env \<Rightarrow> datetime \<Rightarrow> string \<Rightarrow> string option \<Rightarrow> accounts \<Rightarrow> (string \<times> string) in_session" where
  "refresh_tokens env now new_token cookie d =
     (if \<not> truthy cookie then (d, Inl (Status 401))
      else let h = hash_refresh_token env (the cookie) in
        case sql_get rt_token_hash h (ac_tokens d) of
          None \<Rightarrow> (d, Inl (Status 401))
        | Some record \<Rightarrow>
            if now > rt_expires_at record then (drop_token h d, Inl (Status 401))
            else case sql_get us_id (rt_user_id record) (ac_users d) of
              None \<Rightarrow> (drop_token h d, Inl (Status 401))
            | Some user \<Rightarrow>
                if \<not> us_is_active user then (drop_token h d, Inl (Status 401))
                else let h' = hash_refresh_token env new_token in
                  if h' \<noteq> h \<and> sql_get rt_token_hash h' (ac_tokens d) \<noteq> None then (d, Inl ConstraintFailed)
                  else (d\<lparr>ac_tokens := map (\<lambda>t. if rt_token_hash t = h
                                  then t\<lparr>rt_token_hash := h', rt_expires_at := now + hours (REFRESH_TOKEN_EXPIRY_DAYS * 24)\<rparr>
                                  else t) (ac_tokens d)\<rparr>,
                        Inr (create_access_token env now user, new_token)))"

definition get_current_user :: "env \<Rightarrow> datetime \<Rightarrow> string option \<Rightarrow> accounts \<Rightarrow> api_error + user" where
  "get_current_user env now header d =
     (case header of
        None \<Rightarrow> Inl (Status 401)
      | Some h \<Rightarrow>
          if \<not> startswith h ''Bearer '' then Inl (Status 401)
          else case verify_access_token env now (drop 7 h) of
            None \<Rightarrow> Inl (Status 401)
          | Some payload \<Rightarrow>
              (case sql_get us_id (cl_sub payload) (ac_users d) of
                 None \<Rightarrow> Inl (Status 401)
               | Some user \<Rightarrow> if us_is_active user then Inr user else Inl (Status 401)))"

section \<open>Users\<close>

definition VALID_ROLES :: "string list" where
  "VALID_ROLES = [''admin'', ''operator'', ''approver'', ''viewer'']"

text \<open>The first \<open>limit\<close> users after \<open>offset\<close>, newest first: the row order is the order of creation.\<close>

definition list_users ::
    "nat \<Rightarrow> nat \<Rightarrow> string option \<Rightarrow> bool option \<Rightarrow> user \<Rightarrow> accounts \<Rightarrow> api_error + user list \<times> nat" where
  "list_users limit offset role is_active current_user d =
     (if us_role current_user \<noteq> ''admin'' then Inl (Status 403)
      else let us = filter (\<lambda>u. (truthy role \<longrightarrow> Some (us_role u) = role)
                      \<and> (case is_active of None \<Rightarrow> True | Some b \<Rightarrow> us_is_active u = b)) (ac_users d)
           in Inr (take limit (drop offset (rev us)), length us))"

definition get_user :: "string \<Rightarrow> user \<Rightarrow> accounts \<Rightarrow> api_error + user" where
  "get_user user_id current_user d =
     (if us_id current_user \<noteq> user_id \<and> us_role current_user \<noteq> ''admin'' then Inl (Status 403)
      else case sql_get us_id user_id (ac_users d) of None \<Rightarrow> Inl (Status 404) | Some u \<Rightarrow> Inr u)"

record user_create =
  uc_username :: string
  uc_email :: "string option"
  uc_password :: string
  uc_role :: string

text \<open>The email column is UNIQUE; null is not compared.\<close>

definition email_taken :: "string option \<Rightarrow> string \<Rightarrow> user list \<Rightarrow> bool" where
  "email_taken email user_id us = (email \<noteq> None \<and> (\<exists>u \<in> set us. us_id u \<noteq> user_id \<and> us_email u = email))"

definition create_user :: "env \<Rightarrow> string \<Rightarrow> string \<Rightarrow> user_create \<Rightarrow> user \<Rightarrow> accounts \<Rightarrow> unit in_session" where
  "create_user env uuid salt r current_user d =
     (if us_role current_user \<noteq> ''admin'' then (d, Inl (Status 403))
      else if uc_role r \<notin> set VALID_ROLES then (d, Inl (Status 400))
      else if sql_get us_username (uc_username r) (ac_users d) \<noteq> None then (d, Inl (Status 400))
      else if truthy (uc_email r) \<and> sql_get us_email (uc_email r) (ac_users d) \<noteq> None then (d, Inl (Status 400))
      else if length (uc_password r) < 8 then (d, Inl (Status 400))
      else if email_taken (uc_email r) uuid (ac_users d) then (d, Inl ConstraintFailed)
      else case sql_insert us_id
             (new_user uuid (uc_username r) (uc_email r) (hash_password env salt (uc_password r)) (uc_role r)) (ac_users d) of
        Inl _ \<Rightarrow> (d, Inl ConstraintFailed)
      | Inr us \<Rightarrow>
          (audit_action ''create'' ''user'' (Some uuid) (Some (uc_username r)) ''success'' None (d\<lparr>ac_users := us\<rparr>), Inr ()))"

text \<open>The fields of an update are unset or null as one case: both are \<open>None\<close>.\<close>

record user_update =
  uu_email :: "string option"
  uu_role :: "string option"
  uu_is_active :: "bool option"

definition count_admins :: "accounts \<Rightarrow> nat" where
  "count_admins d = length (filter (\<lambda>u. us_role u = ''admin'') (ac_users d))"

definition count_active_admins :: "accounts \<Rightarrow> nat" where
  "count_active_admins d = length (filter (\<lambda>u. us_role u = ''admin'' \<and> us_is_active u) (ac_users d))"

text \<open>
  The three optional assignments of \<open>update_user\<close>, in their order. The queries between them see
  the earlier assignments, which the session flushes first.
\<close>

definition set_email :: "string \<Rightarrow> string option \<Rightarrow> user \<times> accounts \<Rightarrow> api_error + user \<times> accounts" where
  "set_email user_id email = (\<lambda>(user, d).
     case email of
       None \<Rightarrow> Inr (user, d)
     | Some e \<Rightarrow>
         if e \<noteq> [] \<and> email_taken (Some e) user_id (ac_users d) then Inl (Status 400)
         else let user = user\<lparr>us_email := (if e = [] then None else Some e)\<rparr> in Inr (user, save_user user d))"

definition set_role :: "string option \<Rightarrow> user \<times> accounts \<Rightarrow> api_error + user \<times> accounts" where
  "set_role role = (\<lambda>(user, d).
     case role of
       None \<Rightarrow> Inr (user, d)
     | Some r \<Rightarrow>
         if r \<notin> set VALID_ROLES then Inl (Status 400)
         else if us_role user = ''admin'' \<and> r \<noteq> ''admin'' \<and> count_admins d \<le> 1 then Inl (Status 400)
         else let user = user\<lparr>us_role := r\<rparr> in Inr (user, save_user user d))"

definition set_active :: "bool option \<Rightarrow> user \<times> accounts \<Rightarrow> api_error + user \<times> accounts" where
  "set_active is_active = (\<lambda>(user, d).
     case is_active of
       None \<Rightarrow> Inr (user, d)
     | Some b \<Rightarrow>
         if us_role user = ''admin'' \<and> \<not> b \<and> count_active_admins d \<le> 1 then Inl (Status 400)
         else let user = user\<lparr>us_is_active := b\<rparr> in Inr (user, save_user user d))"

definition update_user :: "string \<Rightarrow> user_update \<Rightarrow> user \<Rightarrow> accounts \<Rightarrow> unit in_session" where
  "update_user user_id r current_user d =
     (let is_self = (us_id current_user = user_id); is_admin = (us_role current_user = ''admin'') in
      if \<not> is_self \<and> \<not> is_admin then (d, Inl (Status 403))
      else case sql_get us_id user_id (ac_users d) of
        None \<Rightarrow> (d, Inl (Status 404))
      | Some user \<Rightarrow>
          if \<not> is_admin \<and> (uu_role r \<noteq> None \<or> uu_is_active r \<noteq> None) then (d, Inl (Status 403))
          else case ebind (set_email user_id (uu_email r) (user, d)) (\<lambda>s.
                 if is_admin then ebind (set_role (uu_role r) s) (set_active (uu_is_active r)) else Inr s) of
            Inl e \<Rightarrow> (d, Inl e)
          | Inr (user', d') \<Rightarrow>
              if uu_email r = None \<and> uu_role r = None \<and> uu_is_active r = None then (d', Inr ())
              else (audit_action ''update'' ''user'' (Some user_id) (Some (us_username user')) ''success'' None d', Inr ()))"

definition drop_user_tokens :: "string \<Rightarrow> accounts \<Rightarrow> accounts" where
  "drop_user_tokens user_id d = d\<lparr>ac_tokens := filter (\<lambda>t. rt_user_id t \<noteq> user_id) (ac_tokens d)\<rparr>"

definition change_password ::
    "env \<Rightarrow> string \<Rightarrow> string \<Rightarrow> string option \<Rightarrow> string \<Rightarrow> user \<Rightarrow> accounts \<Rightarrow> unit in_session" where
  "change_password env salt user_id current_password new_password current_user d =
     (let is_self = (us_id current_user = user_id); is_admin = (us_role current_user = ''admin'') in
      if \<not> is_self \<and> \<not> is_admin then (d, Inl (Status 403))
      else case sql_get us_id user_id (ac_users d) of
        None \<Rightarrow> (d, Inl (Status 404))
      | Some user \<Rightarrow>
          if is_self \<and> \<not> is_admin \<and> \<not> truthy current_password then (d, Inl (Status 400))
          else if is_self \<and> \<not> is_admin \<and> \<not> verify_password env (the current_password) (us_password_hash user)
          then (d, Inl (Status 400))
          else if length new_password < 8 then (d, Inl (Status 400))
          else (drop_user_tokens user_id
                  (save_user (user\<lparr>us_password_hash := hash_password env salt new_password\<rparr>) d), Inr ()))"

text \<open>
  Deleting a user removes its memberships too (the secondary table of \<open>User.groups\<close>).
\<close>

definition delete_user :: "string \<Rightarrow> user \<Rightarrow> accounts \<Rightarrow> unit in_session" where
  "delete_user user_id current_user d =
     (if us_role current_user \<noteq> ''admin'' then (d, Inl (Status 403))
      else if us_id current_user = user_id then (d, Inl (Status 400))
      else case sql_get us_id user_id (ac_users d) of
        None \<Rightarrow> (d, Inl (Status 404))
      | Some user \<Rightarrow>
          if us_role user = ''admin'' \<and> count_admins d \<le> 1 then (d, Inl (Status 400))
          else (audit_action ''delete'' ''user'' (Some user_id) (Some (us_username user)) ''success'' None
                  ((drop_user_tokens user_id d)
                     \<lparr>ac_users := filter (\<lambda>u. us_id u \<noteq> user_id) (ac_users d),
                      ac_members := filter (\<lambda>(u, g). u \<noteq> user_id) (ac_members d)\<rparr>), Inr ()))"

section \<open>Requests\<close>

text \<open>
  A request carries its \<open>Authorization\<close> header where the handler depends on
  \<open>get_current_user\<close>, and its cookie where the handler reads it.
\<close>

datatype account_request =
    Login datetime string string string
  | Logout "string option"
  | Refresh datetime string "string option"
  | CreateUser datetime "string option" string string user_create
  | UpdateUser datetime "string option" string user_update
  | ChangePassword datetime "string option" string string "string option" string
  | DeleteUser datetime "string option" string

definition as_user ::
    "env \<Rightarrow> datetime \<Rightarrow> string option \<Rightarrow> (user \<Rightarrow> accounts \<Rightarrow> 'a in_session) \<Rightarrow> accounts \<Rightarrow> 'a in_session" where
  "as_user env now header f d =
     (case get_current_user env now header d of Inl e \<Rightarrow> (d, Inl e) | Inr u \<Rightarrow> f u d)"

definition outcome :: "'a in_session \<Rightarrow> api_error + accounts" where
  "outcome r = (case r of (d, Inl e) \<Rightarrow> Inl e | (d, Inr x) \<Rightarrow> Inr d)"

fun account_route :: "env \<Rightarrow> account_request \<Rightarrow> accounts \<Rightarrow> api_error + accounts" where
  "account_route env (Login now token username password) d = outcome (login env now token username password d)"
| "account_route env (Logout cookie) d = outcome (logout env cookie d)"
| "account_route env (Refresh now token cookie) d = outcome (refresh_tokens env now token cookie d)"
| "account_route env (CreateUser now header uuid salt r) d = outcome (as_user env now header (create_user env uuid salt r) d)"
| "account_route env (UpdateUser now header i r) d = outcome (as_user env now header (update_user i r) d)"
| "account_route env (ChangePassword now header salt i old new) d =
     outcome (as_user env now header (change_password env salt i old new) d)"
| "account_route env (DeleteUser now header i) d = outcome (as_user env now header (delete_user i) d)"


section \<open>Failed logins\<close>

text \<open>What the code means to do: inside the session the fifth failure in a row sets the lock.\<close>

lemma fifth_failure_locks:
  "us_failed_login_attempts u = 4 \<Longrightarrow> is_locked now (count_failure now u)"
  by (simp add: count_failure_def MAX_FAILED_ATTEMPTS_def LOCKOUT_DURATION_MINUTES_def is_locked_def)

lemma wrong_password_counted:
  assumes "sql_get us_username username (ac_users d) = Some u" and "us_auth_source u \<noteq> ''ldap''"
    and "\<not> is_locked now u" and "us_is_active u" and "\<not> verify_password env password (us_password_hash u)"
  shows "local_login env now token username password d = refuse u ''Invalid credentials'' 401 (save_user (count_failure now u) d)"
  using assms by (simp add: local_login_def)

definition unlocked :: "accounts \<Rightarrow> bool" where
  "unlocked d \<longleftrightarrow> (\<forall>u \<in> set (ac_users d). us_failed_login_attempts u = 0 \<and> us_locked_until u = None)"

lemma unlocked_save: "unlocked d \<Longrightarrow> us_failed_login_attempts u = 0 \<Longrightarrow> us_locked_until u = None \<Longrightarrow> unlocked (save_user u d)"
  using set_save_row_subset by (fastforce simp: unlocked_def save_user_def)

lemma unlocked_get: "unlocked d \<Longrightarrow> sql_get key k (ac_users d) = Some u \<Longrightarrow> us_failed_login_attempts u = 0 \<and> us_locked_until u = None"
  by (auto simp: unlocked_def dest: sql_get_SomeD)

lemma unlocked_same: "ac_users d' = ac_users d \<Longrightarrow> unlocked d' = unlocked d"
  by (simp add: unlocked_def)

lemma ac_users_frame [simp]:
  "ac_users (audit_action a rt ri rn res err d) = ac_users d"
  "ac_users (sync_user_groups u gs d) = ac_users d"
  "ac_users (drop_token h d) = ac_users d"
  "ac_users (drop_user_tokens i d) = ac_users d"
  by (simp_all add: audit_action_def sync_user_groups_def drop_token_def drop_user_tokens_def Let_def)

lemma issue_tokens_users: "issue_tokens env now token u d = (d', r) \<Longrightarrow> ac_users d' = ac_users d"
  by (auto simp: issue_tokens_def split: sum.splits)

lemma outcome_Inr: "outcome r = Inr d \<longleftrightarrow> (\<exists>x. r = (d, Inr x))"
  by (auto simp: outcome_def split: prod.splits sum.splits)

lemma as_user_InrD:
  "as_user env now header f d = (d', Inr x) \<Longrightarrow> \<exists>u. get_current_user env now header d = Inr u \<and> f u d = (d', Inr x)"
  by (auto simp: as_user_def split: sum.splits)

lemma local_login_InrD:
  assumes "local_login env now token username password d = (d', Inr x)"
  shows "\<exists>u. sql_get us_username username (ac_users d) = Some u
    \<and> issue_tokens env now token (note_login now u) (save_user (note_login now u) d) = (d', Inr x)"
  using assms by (cases "sql_get us_username username (ac_users d)") (auto simp: local_login_def refuse_def split: if_splits)

lemma ldap_login_InrD:
  assumes "ldap_login env now token lu d = (d', Inr x)"
  shows "\<exists>u. sql_get us_username (lu_username lu) (ac_users d) = Some u
    \<and> issue_tokens env now token (u\<lparr>us_last_login_at := Some now\<rparr>)
        (save_user (u\<lparr>us_last_login_at := Some now\<rparr>) (sync_user_groups u (lu_groups lu) d)) = (d', Inr x)"
  using assms by (cases "sql_get us_username (lu_username lu) (ac_users d)") (auto simp: ldap_login_def Let_def)

text \<open>What a login changes in the table of users: the row of one user, and of it only the columns of a login.\<close>

lemma login_InrD:
  assumes "login env now token username password d = (d', Inr x)"
  shows "\<exists>u v. u \<in> set (ac_users d) \<and> ac_users d' = save_row us_id v (ac_users d)
    \<and> (v = note_login now u \<or> v = u\<lparr>us_last_login_at := Some now\<rparr>)"
proof (cases "ldap_authenticate env username password")
  case None
  then have "local_login env now token username password d = (d', Inr x)" using assms by (simp add: login_def)
  from local_login_InrD [OF this] obtain u where u: "sql_get us_username username (ac_users d) = Some u"
    and i: "issue_tokens env now token (note_login now u) (save_user (note_login now u) d) = (d', Inr x)" by blast
  from issue_tokens_users [OF i] have "ac_users d' = save_row us_id (note_login now u) (ac_users d)"
    by (simp add: save_user_def)
  moreover have "u \<in> set (ac_users d)" using sql_get_SomeD [OF u] by blast
  ultimately show ?thesis by (intro exI [of _ u] exI [of _ "note_login now u"]) simp
next
  case (Some lu)
  let ?v = "\<lambda>u. u\<lparr>us_last_login_at := Some now\<rparr>"
  have "ldap_login env now token lu d = (d', Inr x)" using assms Some by (simp add: login_def)
  from ldap_login_InrD [OF this] obtain u where u: "sql_get us_username (lu_username lu) (ac_users d) = Some u"
    and i: "issue_tokens env now token (?v u) (save_user (?v u) (sync_user_groups u (lu_groups lu) d)) = (d', Inr x)" by blast
  from issue_tokens_users [OF i] have "ac_users d' = save_row us_id (?v u) (ac_users d)"
    by (simp add: save_user_def)
  moreover have "u \<in> set (ac_users d)" using sql_get_SomeD [OF u] by blast
  ultimately show ?thesis by (intro exI [of _ u] exI [of _ "?v u"]) simp
qed

section \<open>What an update changes\<close>

lemma save_row_twice: "key s = key r \<Longrightarrow> save_row key s (save_row key r rs) = save_row key s rs"
  by (simp add: save_row_def)

lemma save_row_self:
  assumes "keys_unique key rs" and "r \<in> set rs"
  shows "save_row key r rs = rs"
  unfolding save_row_def using assms by (intro map_idI) (auto simp: keys_unique_def distinct_map inj_on_def)

definition admins :: "user list \<Rightarrow> nat" where
  "admins us = length (filter (\<lambda>u. us_role u = ''admin'') us)"

lemma admins_save_same:
  assumes "keys_unique us_id us" and "u \<in> set us" and "us_id v = us_id u" and "us_role v = us_role u"
  shows "admins (save_row us_id v us) = admins us"
proof -
  have "filter (\<lambda>u. us_role u = ''admin'') (save_row us_id v us) = map (\<lambda>h. if us_id h = us_id v then v else h) (filter (\<lambda>u. us_role u = ''admin'') us)"
    using assms by (auto simp: save_row_def filter_map comp_def keys_unique_def distinct_map inj_on_def intro!: filter_cong arg_cong [of _ _ "map _"])
  then show ?thesis by (simp add: admins_def)
qed

text \<open>Another admin keeps the number of admins above zero when one row changes.\<close>

lemma admins_save_other:
  assumes "keys_unique us_id us" and "admins us > 1"
  shows "admins (save_row us_id v us) > 0"
proof -
  obtain a b as where ab: "filter (\<lambda>u. us_role u = ''admin'') us = a # b # as"
    using assms(2) unfolding admins_def by (cases "filter (\<lambda>u. us_role u = ''admin'') us"; cases "tl (filter (\<lambda>u. us_role u = ''admin'') us)") auto
  have "distinct (map us_id (a # b # as))"
    using assms(1) ab distinct_map_filter unfolding keys_unique_def by metis
  then have "us_id a \<noteq> us_id b" by simp
  then have "us_id a \<noteq> us_id v \<or> us_id b \<noteq> us_id v" by auto
  then obtain c where "c \<in> set (a # b # as)" "us_id c \<noteq> us_id v" by (meson list.set_intros)
  moreover have "set (a # b # as) \<subseteq> {u \<in> set us. us_role u = ''admin''}" unfolding ab [symmetric] by auto
  ultimately have "c \<in> set us" "us_role c = ''admin''" "us_id c \<noteq> us_id v" by auto
  then have "c \<in> set (save_row us_id v us)" by (force simp: save_row_def)
  then show ?thesis using \<open>us_role c = ''admin''\<close> by (auto simp: admins_def filter_empty_conv)
qed

lemma count_admins_eq: "count_admins d = admins (ac_users d)"
  by (simp add: count_admins_def admins_def)

text \<open>
  The row an update leaves: only the email, the role and the activity change, and an admin loses
  the role only when there is another.
\<close>

lemma set_stepD:
  assumes "ac_users d = save_row us_id u us"
  shows "set_email i e (u, d) = Inr (v, d1) \<Longrightarrow> (\<exists>x. v = u\<lparr>us_email := x\<rparr>) \<and> ac_users d1 = save_row us_id v us"
    and "set_role r (u, d) = Inr (v, d1) \<Longrightarrow> (\<exists>x. v = u\<lparr>us_role := x\<rparr>) \<and> ac_users d1 = save_row us_id v us
      \<and> (us_role u = ''admin'' \<longrightarrow> us_role v = ''admin'' \<or> admins (ac_users d) > 1)"
    and "set_active b (u, d) = Inr (v, d1) \<Longrightarrow> (\<exists>x. v = u\<lparr>us_is_active := x\<rparr>) \<and> ac_users d1 = save_row us_id v us"
proof -
  have self: "\<exists>x. u = u\<lparr>us_email := x\<rparr>" "\<exists>x. u = u\<lparr>us_role := x\<rparr>" "\<exists>x. u = u\<lparr>us_is_active := x\<rparr>"
    by (rule exI [of _ "us_email u"] exI [of _ "us_role u"] exI [of _ "us_is_active u"], simp)+
  have save: "ac_users (save_user v d) = save_row us_id v us" if "us_id v = us_id u" for v
    using assms that by (simp add: save_user_def save_row_twice)
  show "set_email i e (u, d) = Inr (v, d1) \<Longrightarrow> (\<exists>x. v = u\<lparr>us_email := x\<rparr>) \<and> ac_users d1 = save_row us_id v us"
    using self assms by (cases e) (auto simp: set_email_def Let_def save split: if_splits)
  show "set_role r (u, d) = Inr (v, d1) \<Longrightarrow> (\<exists>x. v = u\<lparr>us_role := x\<rparr>) \<and> ac_users d1 = save_row us_id v us
      \<and> (us_role u = ''admin'' \<longrightarrow> us_role v = ''admin'' \<or> admins (ac_users d) > 1)"
    using self assms by (cases r) (auto simp: set_role_def Let_def save count_admins_eq split: if_splits)
  show "set_active b (u, d) = Inr (v, d1) \<Longrightarrow> (\<exists>x. v = u\<lparr>us_is_active := x\<rparr>) \<and> ac_users d1 = save_row us_id v us"
    using self assms by (cases b) (auto simp: set_active_def Let_def save split: if_splits)
qed

lemma update_user_InrD:
  assumes "keys_unique us_id (ac_users d)" and "update_user i r current d = (d', Inr x)"
  shows "\<exists>u e ro b. u \<in> set (ac_users d) \<and> ac_users d' = save_row us_id (u\<lparr>us_email := e, us_role := ro, us_is_active := b\<rparr>) (ac_users d)
    \<and> (us_role u = ''admin'' \<longrightarrow> ro = ''admin'' \<or> admins (ac_users d) > 1)"
proof -
  obtain u u' d1 where u: "sql_get us_id i (ac_users d) = Some u"
    and run: "ebind (set_email i (uu_email r) (u, d)) (\<lambda>s. if us_role current = ''admin''
        then ebind (set_role (uu_role r) s) (set_active (uu_is_active r)) else Inr s) = Inr (u', d1)"
    and d': "ac_users d' = ac_users d1"
    using assms(2) by (auto simp: update_user_def Let_def split: option.splits if_splits sum.splits)
  have uin: "u \<in> set (ac_users d)" using sql_get_SomeD [OF u] by blast
  have base: "ac_users d = save_row us_id u (ac_users d)" using save_row_self [OF assms(1) uin] by simp
  from run obtain u1 da where e: "set_email i (uu_email r) (u, d) = Inr (u1, da)"
    and rest: "(if us_role current = ''admin''
        then ebind (set_role (uu_role r) (u1, da)) (set_active (uu_is_active r)) else Inr (u1, da)) = Inr (u', d1)"
    by (auto simp: ebind_Inr_iff)
  from set_stepD(1) [OF base e] obtain e' where u1: "u1 = u\<lparr>us_email := e'\<rparr>" and da: "ac_users da = save_row us_id u1 (ac_users d)" by blast
  have n: "admins (ac_users da) = admins (ac_users d)"
    unfolding da by (rule admins_save_same [OF assms(1) uin]) (simp_all add: u1)
  show ?thesis
  proof (cases "us_role current = ''admin''")
    case False
    then have "u' = u1" "d1 = da" using rest by auto
    then show ?thesis using uin d' da u1
      by (intro exI [of _ u] exI [of _ e'] exI [of _ "us_role u"] exI [of _ "us_is_active u"]) simp
  next
    case True
    then obtain u2 db where r: "set_role (uu_role r) (u1, da) = Inr (u2, db)" and b: "set_active (uu_is_active r) (u2, db) = Inr (u', d1)"
      using rest by (auto simp: ebind_Inr_iff)
    from set_stepD(2) [OF da r] obtain ro where u2: "u2 = u1\<lparr>us_role := ro\<rparr>" and db: "ac_users db = save_row us_id u2 (ac_users d)"
      and g: "us_role u1 = ''admin'' \<longrightarrow> us_role u2 = ''admin'' \<or> admins (ac_users da) > 1" by blast
    from set_stepD(3) [OF db b] obtain b' where "u' = u2\<lparr>us_is_active := b'\<rparr>" "ac_users d1 = save_row us_id u' (ac_users d)" by blast
    then show ?thesis using uin d' u1 u2 g n
      by (intro exI [of _ u] exI [of _ e'] exI [of _ ro] exI [of _ b']) simp
  qed
qed

section \<open>Steps of the table of users\<close>

text \<open>
  Every request changes the table of users in one of four ways. The lock columns of a changed row
  are kept or reset; an admin row is demoted or removed only while there is another.
\<close>

definition lock_kept :: "user \<Rightarrow> user \<Rightarrow> bool" where
  "lock_kept u v \<longleftrightarrow>
     us_failed_login_attempts v = us_failed_login_attempts u \<and> us_locked_until v = us_locked_until u
     \<or> us_failed_login_attempts v = 0 \<and> us_locked_until v = None"

inductive users_step :: "user list \<Rightarrow> user list \<Rightarrow> bool" where
  same: "users_step us us"
| change: "u \<in> set us \<Longrightarrow> us_id v = us_id u \<Longrightarrow> us_username v = us_username u \<Longrightarrow> lock_kept u v \<Longrightarrow>
     (us_role u = ''admin'' \<Longrightarrow> us_role v = ''admin'' \<or> admins us > 1) \<Longrightarrow> users_step us (save_row us_id v us)"
| add: "us_id u \<notin> us_id ` set us \<Longrightarrow> us_username u \<notin> us_username ` set us \<Longrightarrow>
     us_failed_login_attempts u = 0 \<Longrightarrow> us_locked_until u = None \<Longrightarrow> users_step us (us @ [u])"
| remove: "u \<in> set us \<Longrightarrow> (us_role u = ''admin'' \<Longrightarrow> admins us > 1) \<Longrightarrow> users_step us (filter (\<lambda>h. us_id h \<noteq> us_id u) us)"

lemma login_step:
  assumes "login env now token username password d = (d', Inr x)"
  shows "users_step (ac_users d) (ac_users d')"
proof -
  obtain u v where u: "u \<in> set (ac_users d)" and d': "ac_users d' = save_row us_id v (ac_users d)"
    and v: "v = note_login now u \<or> v = u\<lparr>us_last_login_at := Some now\<rparr>"
    using login_InrD [OF assms] by blast
  show ?thesis unfolding d' by (rule change [OF u]) (use v in \<open>auto simp: note_login_def lock_kept_def\<close>)
qed

lemma create_user_step:
  assumes "create_user env uuid salt r current d = (d', Inr x)"
  shows "users_step (ac_users d) (ac_users d')"
proof -
  let ?u = "new_user uuid (uc_username r) (uc_email r) (hash_password env salt (uc_password r)) (uc_role r)"
  have "ac_users d' = ac_users d @ [?u]" "us_id ?u \<notin> us_id ` set (ac_users d)" "us_username ?u \<notin> us_username ` set (ac_users d)"
    using assms
    by (auto simp: create_user_def sql_insert_def sql_get_None_iff new_user_def split: if_splits)
  then show ?thesis using add [of ?u "ac_users d"] by (simp add: new_user_def)
qed

lemma update_user_step:
  assumes "keys_unique us_id (ac_users d)" and "update_user i r current d = (d', Inr x)"
  shows "users_step (ac_users d) (ac_users d')"
proof -
  obtain u e ro b where u: "u \<in> set (ac_users d)"
    and d': "ac_users d' = save_row us_id (u\<lparr>us_email := e, us_role := ro, us_is_active := b\<rparr>) (ac_users d)"
    and g: "us_role u = ''admin'' \<longrightarrow> ro = ''admin'' \<or> admins (ac_users d) > 1"
    using update_user_InrD [OF assms] by blast
  show ?thesis unfolding d' by (rule change [OF u]) (use g in \<open>simp_all add: lock_kept_def\<close>)
qed

lemma change_password_step:
  assumes "change_password env salt i old new current d = (d', Inr x)"
  shows "users_step (ac_users d) (ac_users d')"
proof -
  obtain u where u: "sql_get us_id i (ac_users d) = Some u"
    and d': "ac_users d' = save_row us_id (u\<lparr>us_password_hash := hash_password env salt new\<rparr>) (ac_users d)"
    using assms by (auto simp: change_password_def Let_def save_user_def split: option.splits if_splits)
  have "u \<in> set (ac_users d)" using sql_get_SomeD [OF u] by blast
  then show ?thesis unfolding d' by (rule change) (simp_all add: lock_kept_def)
qed

lemma delete_user_step:
  assumes "delete_user i current d = (d', Inr x)"
  shows "users_step (ac_users d) (ac_users d')"
proof -
  obtain u where u: "sql_get us_id i (ac_users d) = Some u" "us_role u = ''admin'' \<longrightarrow> admins (ac_users d) > 1"
    and d': "ac_users d' = filter (\<lambda>u. us_id u \<noteq> i) (ac_users d)"
    using assms by (auto simp: delete_user_def count_admins_eq split: option.splits if_splits)
  have "u \<in> set (ac_users d)" "us_id u = i" using sql_get_SomeD [OF u(1)] by auto
  then show ?thesis unfolding d' using remove [of u "ac_users d"] u(2) by auto
qed

lemma refresh_users: "refresh_tokens env now token cookie d = (d', r) \<Longrightarrow> ac_users d' = ac_users d"
  by (auto simp: refresh_tokens_def Let_def split: option.splits if_splits)

lemma account_route_step:
  assumes "keys_unique us_id (ac_users d)" and "account_route env q d = Inr d'"
  shows "users_step (ac_users d) (ac_users d')"
proof (cases q)
  case (Login now token username password)
  then show ?thesis using assms(2) login_step by (auto simp: outcome_Inr)
next
  case (Logout cookie)
  then show ?thesis using assms(2) same by (auto simp: outcome_Inr logout_def split: if_splits)
next
  case (Refresh now token cookie)
  then show ?thesis using assms(2) refresh_users same by (fastforce simp: outcome_Inr)
next
  case (CreateUser now header uuid salt r)
  then show ?thesis using assms(2) create_user_step by (auto simp: outcome_Inr dest!: as_user_InrD)
next
  case (UpdateUser now header i r)
  then show ?thesis using assms update_user_step by (auto simp: outcome_Inr dest!: as_user_InrD)
next
  case (ChangePassword now header salt i old new)
  then show ?thesis using assms(2) change_password_step by (auto simp: outcome_Inr dest!: as_user_InrD)
next
  case (DeleteUser now header i)
  then show ?thesis using assms(2) delete_user_step by (auto simp: outcome_Inr dest!: as_user_InrD)
qed

section \<open>Invariants\<close>

definition users_ok :: "accounts \<Rightarrow> bool" where
  "users_ok d \<longleftrightarrow> keys_unique us_id (ac_users d) \<and> keys_unique us_username (ac_users d)"

lemma users_step_keys:
  assumes "users_step us us'" and "keys_unique us_id us" and "keys_unique us_username us"
  shows "keys_unique us_id us' \<and> keys_unique us_username us'"
  using assms
proof cases
  case (change u v)
  have "map us_username us' = map us_username us"
    unfolding change(1) save_row_def using assms(2) change(2-4)
    by (auto simp: keys_unique_def distinct_map inj_on_def)
  then show ?thesis using assms change(1) by (simp add: keys_unique_def)
qed (auto simp: keys_unique_def distinct_map_filter)

lemma users_step_unlocked:
  assumes "users_step us us'" and "\<forall>u \<in> set us. us_failed_login_attempts u = 0 \<and> us_locked_until u = None"
  shows "\<forall>u \<in> set us'. us_failed_login_attempts u = 0 \<and> us_locked_until u = None"
  using assms
proof cases
  case (change u v)
  then have "us_failed_login_attempts v = 0 \<and> us_locked_until v = None" using assms(2) by (auto simp: lock_kept_def)
  then show ?thesis using assms(2) set_save_row_subset [of us_id v us] change(1) by auto
qed auto

lemma users_step_admins:
  assumes "users_step us us'" and "keys_unique us_id us" and "admins us > 0"
  shows "admins us' > 0"
  using assms
proof cases
  case (change u v)
  show ?thesis
  proof (cases "us_role u = ''admin'' \<and> us_role v \<noteq> ''admin''")
    case True
    then show ?thesis using change admins_save_other [OF assms(2)] by auto
  next
    case False
    show ?thesis
    proof (cases "us_role v = us_role u")
      case True
      then show ?thesis using change admins_save_same [OF assms(2)] assms(3) by simp
    next
      case F: False
      then have "us_role u \<noteq> ''admin''" using False by metis
      moreover obtain a where "a \<in> set us" "us_role a = ''admin''"
        using assms(3) by (auto simp: admins_def filter_empty_conv)
      ultimately have "a \<in> set us'" "us_role a = ''admin''"
        unfolding change(1) save_row_def using change(2,3) assms(2)
        by (force simp: keys_unique_def distinct_map inj_on_def)+
      then show ?thesis by (auto simp: admins_def filter_empty_conv)
    qed
  qed
next
  case (remove u)
  show ?thesis
  proof (cases "us_role u = ''admin''")
    case True
    then have "admins (save_row us_id (u\<lparr>us_role := ''''\<rparr>) us) > 0" using remove(3) admins_save_other [OF assms(2)] by blast
    then obtain a where "a \<in> set us" "us_role a = ''admin''" "us_id a \<noteq> us_id u"
      by (auto simp: admins_def filter_empty_conv save_row_def split: if_splits)
    then show ?thesis unfolding remove(1) by (auto simp: admins_def filter_empty_conv)
  next
    case False
    obtain a where "a \<in> set us" "us_role a = ''admin''" using assms(3) by (auto simp: admins_def filter_empty_conv)
    moreover from this have "us_id a \<noteq> us_id u"
      using False remove(2) assms(2) by (auto simp: keys_unique_def distinct_map inj_on_def)
    ultimately show ?thesis unfolding remove(1) by (auto simp: admins_def filter_empty_conv)
  qed
qed (auto simp: admins_def)

lemma account_route_ok:
  assumes "users_ok d" and "account_route env q d = Inr d'"
  shows "users_ok d'"
proof -
  have k: "keys_unique us_id (ac_users d)" "keys_unique us_username (ac_users d)" using assms(1) by (simp_all add: users_ok_def)
  then show ?thesis using users_step_keys [OF account_route_step [OF k(1) assms(2)] k] by (simp add: users_ok_def)
qed

interpretation account_api: transactional "account_route env" users_ok
  by unfold_locales (rule account_route_ok)


lemma unlocked_served:
  assumes "users_ok d" and "unlocked d"
  shows "unlocked (serve (account_route env) qs d)"
proof (rule account_api.serve_preserves [where P = unlocked, OF assms])
  fix q s s'
  assume "users_ok s" and "unlocked s" and run: "account_route env q s = Inr s'"
  then have "keys_unique us_id (ac_users s)" "\<forall>u \<in> set (ac_users s). us_failed_login_attempts u = 0 \<and> us_locked_until u = None"
    by (simp_all add: users_ok_def unlocked_def)
  then show "unlocked s'" unfolding unlocked_def using users_step_unlocked [OF account_route_step [OF _ run]] by blast
qed

lemma local_login_unlocked:
  assumes "unlocked d"
  shows "snd (local_login env now token username password d) \<noteq> Inl (Status 423)"
proof (cases "sql_get us_username username (ac_users d)")
  case None
  then show ?thesis by (simp add: local_login_def)
next
  case (Some u)
  then have "\<not> is_locked now u" using unlocked_get [OF assms Some] by (simp add: is_locked_def)
  then show ?thesis using Some by (auto simp: local_login_def refuse_def issue_tokens_def split: sum.splits)
qed

lemma login_unlocked:
  assumes "unlocked d"
  shows "snd (login env now token username password d) \<noteq> Inl (Status 423)"
  using local_login_unlocked [OF assms]
  by (auto simp: login_def ldap_login_def issue_tokens_def Let_def split: option.splits sum.splits)

lemma admins_served:
  assumes "users_ok d" and "admins (ac_users d) > 0"
  shows "admins (ac_users (serve (account_route env) qs d)) > 0"
proof (rule account_api.serve_preserves [where P = "\<lambda>d. admins (ac_users d) > 0", OF assms])
  fix q s s'
  assume "users_ok s" and a: "admins (ac_users s) > 0" and run: "account_route env q s = Inr s'"
  then have k: "keys_unique us_id (ac_users s)" by (simp add: users_ok_def)
  show "admins (ac_users s') > 0" by (rule users_step_admins [OF account_route_step [OF k run] k a])
qed

section \<open>Rotation of refresh tokens\<close>

lemma refresh_InrD:
  assumes "refresh_tokens env now new_token cookie d = (d', Inr x)"
  defines "h \<equiv> sha256 env (the cookie)" and "h' \<equiv> sha256 env new_token"
  shows "\<exists>r u. sql_get rt_token_hash h (ac_tokens d) = Some r \<and> sql_get us_id (rt_user_id r) (ac_users d) = Some u
    \<and> us_is_active u \<and> ac_users d' = ac_users d
    \<and> (h' = h \<or> sql_get rt_token_hash h' (ac_tokens d) = None)
    \<and> ac_tokens d' = map (\<lambda>t. if rt_token_hash t = h
         then t\<lparr>rt_token_hash := h', rt_expires_at := now + hours (REFRESH_TOKEN_EXPIRY_DAYS * 24)\<rparr> else t) (ac_tokens d)"
  using assms by (auto simp: refresh_tokens_def Let_def hash_refresh_token_def split: option.splits if_splits)

lemma rotated_old_token_gone:
  assumes "h' \<noteq> h"
  shows "sql_get rt_token_hash h (map (\<lambda>t. if rt_token_hash t = h then t\<lparr>rt_token_hash := h', rt_expires_at := e\<rparr> else t) ts) = None"
  using assms by (auto simp: sql_get_None_iff)

lemma rotated_new_token_found:
  assumes "sql_get rt_token_hash h ts = Some r" and "sql_get rt_token_hash h' ts = None"
  shows "sql_get rt_token_hash h' (map (\<lambda>t. if rt_token_hash t = h then t\<lparr>rt_token_hash := h', rt_expires_at := e\<rparr> else t) ts)
    = Some (r\<lparr>rt_token_hash := h', rt_expires_at := e\<rparr>)"
  using assms by (induction ts) (auto simp: sql_get_def split: if_splits)

lemma refresh_unknown:
  "sql_get rt_token_hash (sha256 env (the cookie)) (ac_tokens d) = None \<Longrightarrow>
   refresh_tokens env now token cookie d = (d, Inl (Status 401))"
  by (simp add: refresh_tokens_def hash_refresh_token_def)

lemma refresh_known:
  assumes "sql_get rt_token_hash (sha256 env c) (ac_tokens d) = Some r" and "sql_get us_id (rt_user_id r) (ac_users d) = Some u"
    and "us_is_active u" and "now \<le> rt_expires_at r" and "c \<noteq> []" and "sql_get rt_token_hash (sha256 env token) (ac_tokens d) = None"
  shows "\<exists>a. snd (refresh_tokens env now token (Some c) d) = Inr (a, token)"
  using assms by (auto simp: refresh_tokens_def hash_refresh_token_def Let_def)

section \<open>Properties\<close>

text \<open>C23: The lockout never engages: from any state in which no account is locked and no failure is
  counted, after any sequence of requests, whatever passwords were tried, no account is locked, no
  failure is counted, and no login answers 423. The failure is counted in a session that the 401
  response rolls back.\<close>

theorem lockout_never_engages:
  assumes "users_ok d" and "unlocked d"
  shows "unlocked (serve (account_route env) qs d)
    \<and> snd (login env now token username password (serve (account_route env) qs d)) \<noteq> Inl (Status 423)"
  using unlocked_served [OF assms] login_unlocked by blast

definition demo_env :: env where
  "demo_env = \<lparr>bcrypt_available = True, hashpw = (\<lambda>salt p. ''$2'' @ p), checkpw = (\<lambda>p h. h = ''$2'' @ p),
     sha256 = (\<lambda>s. ''#'' @ s), jwt_encode = (\<lambda>c. cl_sub c),
     jwt_decode = (\<lambda>now t. Some \<lparr>cl_sub = t, cl_username = t, cl_role = ''admin'', cl_exp = now\<rparr>),
     ldap_authenticate = (\<lambda>u p. None)\<rparr>"

definition demo_accounts :: accounts where
  "demo_accounts = \<lparr>ac_users = [new_user ''1'' ''root'' None ''$2secret'' ''admin''],
     ac_tokens = [\<lparr>rt_token_hash = ''#old'', rt_user_id = ''1'', rt_expires_at = 100\<rparr>],
     ac_audit = [], ac_user_groups = [], ac_members = []\<rparr>"

lemmas demo_defs = demo_env_def demo_accounts_def new_user_def users_ok_def unlocked_def keys_unique_def

theorem lockout_never_engages_witness:
  "unlocked (serve (account_route demo_env) (replicate 5 (Login 3 ''t'' ''root'' ''guess'')) demo_accounts)
   \<and> snd (login demo_env 3 ''t'' ''root'' ''guess'' (serve (account_route demo_env) (replicate 5 (Login 3 ''t'' ''root'' ''guess'')) demo_accounts))
       \<noteq> Inl (Status 423)"
  by (rule lockout_never_engages) (simp_all add: demo_defs)

text \<open>Some admin row remains after any sequence of requests: the last row with the role admin
  is neither deleted nor demoted.\<close>

theorem some_admin_remains:
  assumes "users_ok d" and "\<exists>u \<in> set (ac_users d). us_role u = ''admin''"
  shows "\<exists>u \<in> set (ac_users (serve (account_route env) qs d)). us_role u = ''admin''"
proof -
  have "admins (ac_users d) > 0" using assms(2) by (auto simp: admins_def filter_empty_conv)
  from admins_served [OF assms(1) this, of env qs] show ?thesis by (auto simp: admins_def filter_empty_conv)
qed

theorem some_admin_remains_witness:
  "\<exists>u \<in> set (ac_users (serve (account_route demo_env)
     [UpdateUser 3 (Some ''Bearer 1'') ''1'' \<lparr>uu_email = None, uu_role = Some ''viewer'', uu_is_active = None\<rparr>] demo_accounts)).
     us_role u = ''admin''"
  by (rule some_admin_remains) (simp_all add: demo_defs)

text \<open>C27: A refresh rotates the token: the old one is refused from then on, the new one is accepted
  until it expires.\<close>

theorem refresh_rotates:
  assumes run: "refresh_tokens env now new_token (Some old) d = (d', Inr x)"
    and ne: "sha256 env new_token \<noteq> sha256 env old" and "new_token \<noteq> []"
  shows "refresh_tokens env later next_token (Some old) d' = (d', Inl (Status 401))
      \<and> (later \<le> now + hours (REFRESH_TOKEN_EXPIRY_DAYS * 24) \<and> sql_get rt_token_hash (sha256 env next_token) (ac_tokens d') = None \<longrightarrow>
           (\<exists>a. snd (refresh_tokens env later next_token (Some new_token) d') = Inr (a, next_token)))"
proof -
  from refresh_InrD [OF run] obtain r u
    where r: "sql_get rt_token_hash (sha256 env old) (ac_tokens d) = Some r" "sql_get us_id (rt_user_id r) (ac_users d) = Some u"
      "us_is_active u" "ac_users d' = ac_users d" "sql_get rt_token_hash (sha256 env new_token) (ac_tokens d) = None"
    and ts: "ac_tokens d' = map (\<lambda>t. if rt_token_hash t = sha256 env old
         then t\<lparr>rt_token_hash := sha256 env new_token, rt_expires_at := now + hours (REFRESH_TOKEN_EXPIRY_DAYS * 24)\<rparr> else t) (ac_tokens d)"
    using ne by auto
  have gone: "refresh_tokens env later next_token (Some old) d' = (d', Inl (Status 401))"
    by (rule refresh_unknown) (simp add: ts rotated_old_token_gone [OF ne])
  have "\<exists>a. snd (refresh_tokens env later next_token (Some new_token) d') = Inr (a, next_token)"
    if "later \<le> now + hours (REFRESH_TOKEN_EXPIRY_DAYS * 24)" "sql_get rt_token_hash (sha256 env next_token) (ac_tokens d') = None"
  proof (rule refresh_known)
    show "sql_get rt_token_hash (sha256 env new_token) (ac_tokens d')
        = Some (r\<lparr>rt_token_hash := sha256 env new_token, rt_expires_at := now + hours (REFRESH_TOKEN_EXPIRY_DAYS * 24)\<rparr>)"
      unfolding ts by (rule rotated_new_token_found [OF r(1,5)])
  qed (use r that assms(3) in simp_all)
  with gone show ?thesis by blast
qed

theorem refresh_rotates_witness:
  "let d' = fst (refresh_tokens demo_env 10 ''new'' (Some ''old'') demo_accounts) in
     refresh_tokens demo_env 20 ''x'' (Some ''old'') d' = (d', Inl (Status 401))
     \<and> (\<exists>a. snd (refresh_tokens demo_env 20 ''x'' (Some ''new'') d') = Inr (a, ''x''))"
  using refresh_rotates [where env = demo_env and now = 10 and new_token = "''new''" and old = "''old''" and d = demo_accounts
    and x = "(''1'', ''new'')" and later = 20 and next_token = "''x''"]
  by (simp add: demo_defs refresh_tokens_def hash_refresh_token_def create_access_token_def sql_get_def REFRESH_TOKEN_EXPIRY_DAYS_def)

text \<open>Changing a password ends the sessions of the user: every refresh token issued to the user
  before the change is refused after it, and those of other users keep working as before.\<close>

theorem password_change_ends_sessions:
  assumes run: "change_password env salt i old new current d = (d', Inr x)"
    and keys: "keys_unique rt_token_hash (ac_tokens d)" and r: "sql_get rt_token_hash (sha256 env c) (ac_tokens d) = Some r"
  shows "if rt_user_id r = i then refresh_tokens env now token (Some c) d' = (d', Inl (Status 401))
    else sql_get rt_token_hash (sha256 env c) (ac_tokens d') = Some r"
proof -
  have ts: "ac_tokens d' = filter (\<lambda>t. rt_user_id t \<noteq> i) (ac_tokens d)"
    using run by (auto simp: change_password_def drop_user_tokens_def save_user_def Let_def split: option.splits if_splits)
  have rin: "r \<in> set (ac_tokens d)" "rt_token_hash r = sha256 env c" using sql_get_SomeD [OF r] by auto
  show ?thesis
  proof (cases "rt_user_id r = i")
    case True
    have "sql_get rt_token_hash (sha256 env c) (ac_tokens d') = None"
      unfolding sql_get_None_iff ts using keys rin True by (auto simp: keys_unique_def distinct_map inj_on_def)
    then show ?thesis using True by (simp add: refresh_unknown)
  next
    case False
    have "keys_unique rt_token_hash (ac_tokens d')" "r \<in> set (ac_tokens d')"
      unfolding ts using keys rin(1) False by (simp_all add: keys_unique_def distinct_map_filter)
    then show ?thesis using sql_get_in_set rin(2) False by metis
  qed
qed

theorem password_change_ends_sessions_witness:
  "refresh_tokens demo_env 20 ''x'' (Some ''old'')
     (fst (change_password demo_env ''s'' ''1'' None ''longenough'' (new_user ''1'' ''root'' None ''$2secret'' ''admin'') demo_accounts))
   = (fst (change_password demo_env ''s'' ''1'' None ''longenough'' (new_user ''1'' ''root'' None ''$2secret'' ''admin'') demo_accounts), Inl (Status 401))"
  using password_change_ends_sessions [where env = demo_env and d = demo_accounts and i = "''1''" and old = None and salt = "''s''"
    and current = "new_user ''1'' ''root'' None ''$2secret'' ''admin''" and new = "''longenough''" and c = "''old''" and x = "()"
    and r = "\<lparr>rt_token_hash = ''#old'', rt_user_id = ''1'', rt_expires_at = 100\<rparr>" and now = 20 and token = "''x''"]
  by (simp add: demo_defs change_password_def sql_get_def Let_def)

end
