(* ===== verification/Access.thy ===== *)
theory Access
  imports Accounts
begin

text \<open>
  Who may do what: API keys (src/src/utils/api_keys.py), the authentication middleware
  (src/src/api/middleware/auth.py), the permission dependencies (src/src/api/dependencies/auth.py)
  and the administration of roles, service accounts and user groups
  (src/src/api/routes/roles.py, service_accounts.py, user_groups.py).

  The middleware commits in a session of its own, so that the use of an API key is recorded also
  when the request is refused later. A handler that raises is rolled back to the state the
  middleware left. The parser of ISO 8601 times, \<open>datetime.fromisoformat\<close>, is a parameter; SQLite
  does not enforce foreign keys. The reports of the listing endpoints carry the rows themselves
  and what is counted or looked up for them.
\<close>

section \<open>API keys\<close>

definition generate_api_key :: "env \<Rightarrow> string \<Rightarrow> string \<Rightarrow> string \<Rightarrow> string \<times> string \<times> string" where
  "generate_api_key env salt key_id secret =
     (let prefix = ''pb_live_'' @ key_id in (prefix @ ''_'' @ secret, prefix, hashpw env salt secret))"

definition verify_api_key :: "env \<Rightarrow> string \<Rightarrow> string \<Rightarrow> bool" where
  "verify_api_key env full_key stored_hash =
     (let parts = split_on (CHR ''_'') full_key in
      if length parts \<noteq> 4 then False else checkpw env (parts ! 3) stored_hash)"

definition parse_api_key :: "string \<Rightarrow> (string \<times> string) option" where
  "parse_api_key full_key =
     (let parts = split_on (CHR ''_'') full_key in
      if length parts \<noteq> 4 then None
      else Some (parts ! 0 @ ''_'' @ parts ! 1 @ ''_'' @ parts ! 2, parts ! 3))"

section \<open>State\<close>

record role =
  ro_id :: string
  ro_name :: string
  ro_description :: "string option"
  ro_is_system_role :: bool

record permission =
  pe_id :: string
  pe_resource :: string
  pe_action :: string
  pe_description :: "string option"

record api_key =
  ak_id :: string
  ak_service_account_id :: string
  ak_name :: string
  ak_key_hash :: string
  ak_key_prefix :: string
  ak_is_active :: bool
  ak_expires_at :: "datetime option"
  ak_last_used_at :: "datetime option"
  ak_last_used_ip :: "string option"
  ak_created_by_id :: string

text \<open>
  The association tables hold pairs: of a role and a permission, and of a user group and a role,
  device group, tag or node. Of the approval rules only the escalation role is kept here, which
  the deletion of a role resets.
\<close>

type_synonym links = "(string \<times> string) list"

record access =
  ax_acc :: accounts
  ax_roles :: "role list"
  ax_permissions :: "permission list"
  ax_role_permissions :: links
  ax_api_keys :: "api_key list"
  ax_group_roles :: links
  ax_group_device_groups :: links
  ax_group_tags :: links
  ax_group_nodes :: links
  ax_escalation_roles :: "(string \<times> string option) list"

type_synonym 'a in_access = "access \<times> (api_error + 'a)"

section \<open>Middleware\<close>

definition PUBLIC_PATHS :: "string list" where
  "PUBLIC_PATHS =
     [''/'', ''/health'', ''/api/docs'', ''/api/redoc'', ''/api/openapi.json'', ''/api/v1/auth/login'',
      ''/api/v1/auth/refresh'', ''/api/v1/boot'', ''/api/v1/ipxe'', ''/api/v1/report'']"

definition PUBLIC_PREFIXES :: "string list" where
  "PUBLIC_PREFIXES = [''/assets'', ''/api/v1/boot/'', ''/api/v1/ipxe/'']"

definition PUBLIC_EXTENSIONS :: "string list" where
  "PUBLIC_EXTENSIONS =
     [''.png'', ''.jpg'', ''.jpeg'', ''.gif'', ''.svg'', ''.ico'', ''.css'', ''.js'', ''.woff'', ''.woff2'', ''.ttf'', ''.eot'']"

definition is_public_path :: "string \<Rightarrow> bool" where
  "is_public_path path \<longleftrightarrow>
     path \<in> set PUBLIC_PATHS \<or> (\<exists>prefix \<in> set PUBLIC_PREFIXES. startswith path prefix)
     \<or> (\<exists>ext \<in> set PUBLIC_EXTENSIONS. endswith path ext)"

definition passed :: "datetime \<Rightarrow> datetime option \<Rightarrow> bool" where
  "passed now expires_at = (case expires_at of None \<Rightarrow> False | Some t \<Rightarrow> t < now)"

definition mark_used :: "datetime \<Rightarrow> string \<Rightarrow> string \<Rightarrow> access \<Rightarrow> access" where
  "mark_used now client_ip key_id d =
     d\<lparr>ax_api_keys := map (\<lambda>k. if ak_id k = key_id
          then k\<lparr>ak_last_used_at := Some now, ak_last_used_ip := Some client_ip\<rparr> else k) (ax_api_keys d)\<rparr>"

definition authenticate_api_key :: "env \<Rightarrow> datetime \<Rightarrow> string \<Rightarrow> string \<Rightarrow> access \<Rightarrow> access \<times> (string + user)" where
  "authenticate_api_key env now client_ip key d =
     (case parse_api_key key of
        None \<Rightarrow> (d, Inl ''Invalid API key format'')
      | Some (prefix, _) \<Rightarrow>
          (case sql_get ak_key_prefix prefix (ax_api_keys d) of
             None \<Rightarrow> (d, Inl ''API key not found'')
           | Some api_key \<Rightarrow>
               if \<not> ak_is_active api_key then (d, Inl ''API key is disabled'')
               else if passed now (ak_expires_at api_key) then (d, Inl ''API key has expired'')
               else if \<not> verify_api_key env key (ak_key_hash api_key) then (d, Inl ''Invalid API key'')
               else case sql_get us_id (ak_service_account_id api_key) (ac_users (ax_acc d)) of
                 None \<Rightarrow> (d, Inl ''Service account not found'')
               | Some user \<Rightarrow>
                   if \<not> us_is_active user then (d, Inl ''Service account is disabled'')
                   else if passed now (us_expires_at user) then (d, Inl ''Service account has expired'')
                   else (mark_used now client_ip (ak_id api_key) d, Inr user)))"

text \<open>What the middleware leaves in \<open>request.state\<close>; nothing for a public path.\<close>

record request_state =
  rs_user_id :: string
  rs_username :: string
  rs_role :: string
  rs_auth_method :: string

record http =
  ht_now :: datetime
  ht_path :: string
  ht_header :: "string option"
  ht_client_ip :: string

definition dispatch :: "env \<Rightarrow> http \<Rightarrow> access \<Rightarrow> request_state option in_access" where
  "dispatch env h d =
     (if is_public_path (ht_path h) then (d, Inr None)
      else case ht_header h of
        None \<Rightarrow> (d, Inl (Status 401))
      | Some auth_header \<Rightarrow>
          if \<not> startswith auth_header ''Bearer '' then (d, Inl (Status 401))
          else let token = drop 7 auth_header in
            if startswith token ''pb_'' then
              (case authenticate_api_key env (ht_now h) (ht_client_ip h) token d of
                 (d', Inl err) \<Rightarrow> (d', Inl (Status 401))
               | (d', Inr user) \<Rightarrow>
                   (d', Inr (Some \<lparr>rs_user_id = us_id user, rs_username = us_username user,
                                  rs_role = us_role user, rs_auth_method = ''api_key''\<rparr>)))
            else case verify_access_token env (ht_now h) token of
              None \<Rightarrow> (d, Inl (Status 401))
            | Some payload \<Rightarrow>
                (d, Inr (Some \<lparr>rs_user_id = cl_sub payload, rs_username = cl_username payload,
                              rs_role = cl_role payload, rs_auth_method = ''jwt''\<rparr>)))"

section \<open>Permissions\<close>

definition get_current_user_from_state :: "request_state option \<Rightarrow> access \<Rightarrow> api_error + user" where
  "get_current_user_from_state st d =
     (case st of
        None \<Rightarrow> Inl (Status 401)
      | Some s \<Rightarrow>
          if rs_user_id s = [] then Inl (Status 401)
          else case sql_get us_id (rs_user_id s) (ac_users (ax_acc d)) of
            None \<Rightarrow> Inl (Status 401)
          | Some user \<Rightarrow> if us_is_active user then Inr user else Inl (Status 401))"

definition role_permissions :: "string \<Rightarrow> access \<Rightarrow> permission list" where
  "role_permissions role_id d = filter (\<lambda>p. (role_id, pe_id p) \<in> set (ax_role_permissions d)) (ax_permissions d)"

text \<open>The relationship \<open>role_ref\<close>, with the permissions loaded through it.\<close>

definition role_ref :: "user \<Rightarrow> access \<Rightarrow> role option" where
  "role_ref user d = (case us_role_id user of None \<Rightarrow> None | Some i \<Rightarrow> sql_get ro_id i (ax_roles d))"

definition has_permission :: "string \<times> string \<Rightarrow> user \<Rightarrow> access \<Rightarrow> bool" where
  "has_permission p user d =
     (us_role user = ''admin''
      \<or> (case role_ref user d of
           None \<Rightarrow> False
         | Some r \<Rightarrow> \<exists>q \<in> set (role_permissions (ro_id r) d). (pe_resource q, pe_action q) = p))"

definition require_permission :: "string \<times> string \<Rightarrow> request_state option \<Rightarrow> access \<Rightarrow> api_error + user" where
  "require_permission p st d =
     ebind (get_current_user_from_state st d) (\<lambda>user. if has_permission p user d then Inr user else Inl (Status 403))"

definition require_any_permission :: "(string \<times> string) list \<Rightarrow> request_state option \<Rightarrow> access \<Rightarrow> api_error + user" where
  "require_any_permission ps st d =
     ebind (get_current_user_from_state st d) (\<lambda>user.
       if us_role user = ''admin'' then Inr user
       else case role_ref user d of
         None \<Rightarrow> Inl (Status 403)
       | Some r \<Rightarrow>
           let user_perms = (\<lambda>p. (pe_resource p, pe_action p)) ` set (role_permissions (ro_id r) d) in
           if \<exists>p \<in> set ps. p \<in> user_perms then Inr user else Inl (Status 403))"

definition require_role :: "string list \<Rightarrow> request_state option \<Rightarrow> access \<Rightarrow> api_error + user" where
  "require_role roles st d =
     ebind (get_current_user_from_state st d) (\<lambda>user. if us_role user \<in> set roles then Inr user else Inl (Status 403))"

section \<open>Roles\<close>

definition list_roles :: "access \<Rightarrow> (role \<times> nat) list" where
  "list_roles d = map (\<lambda>r. (r, length (role_permissions (ro_id r) d)))
     (order_by (\<lambda>r s. str_le (ro_name r) (ro_name s)) (ax_roles d))"

definition list_permissions :: "access \<Rightarrow> permission list" where
  "list_permissions d = order_by (\<lambda>p q. pe_resource p \<noteq> pe_resource q \<and> str_le (pe_resource p) (pe_resource q)
      \<or> pe_resource p = pe_resource q \<and> str_le (pe_action p) (pe_action q)) (ax_permissions d)"

definition get_role :: "string \<Rightarrow> access \<Rightarrow> api_error + role \<times> permission list" where
  "get_role role_id d =
     (case sql_get ro_id role_id (ax_roles d) of
        None \<Rightarrow> Inl (Status 404) | Some r \<Rightarrow> Inr (r, role_permissions role_id d))"

text \<open>
  Replacing the rows of one owner in an association table: the old ones are deleted, then the
  new ones are added; a repeated one violates the primary key.
\<close>

definition relink :: "string \<Rightarrow> string list \<Rightarrow> links \<Rightarrow> api_error + links" where
  "relink owner ids ls =
     (if distinct ids then Inr (filter (\<lambda>l. fst l \<noteq> owner) ls @ map (\<lambda>i. (owner, i)) ids) else Inl ConstraintFailed)"

record role_create =
  rc_name :: string
  rc_description :: "string option"
  rc_permission_ids :: "string list"

record role_update =
  rp_name :: "string option"
  rp_description :: "string option"
  rp_permission_ids :: "string list option"

definition create_role :: "string \<Rightarrow> role_create \<Rightarrow> access \<Rightarrow> role in_access" where
  "create_role uuid r d =
     (if sql_get ro_name (rc_name r) (ax_roles d) \<noteq> None then (d, Inl (Status 400))
      else let new = \<lparr>ro_id = uuid, ro_name = rc_name r, ro_description = rc_description r, ro_is_system_role = False\<rparr> in
        case sql_insert ro_id new (ax_roles d) of
          Inl _ \<Rightarrow> (d, Inl ConstraintFailed)
        | Inr rs \<Rightarrow>
            let links = map (\<lambda>i. (uuid, i)) (rc_permission_ids r) in
            if distinct links \<and> set links \<inter> set (ax_role_permissions d) = {}
            then (d\<lparr>ax_roles := rs, ax_role_permissions := ax_role_permissions d @ links\<rparr>, Inr new)
            else (d, Inl ConstraintFailed))"

definition update_role :: "string \<Rightarrow> role_update \<Rightarrow> access \<Rightarrow> role in_access" where
  "update_role role_id u d =
     (case sql_get ro_id role_id (ax_roles d) of
        None \<Rightarrow> (d, Inl (Status 404))
      | Some r \<Rightarrow>
          if ro_is_system_role r then (d, Inl (Status 400))
          else if (case rp_name u of None \<Rightarrow> False
                   | Some n \<Rightarrow> \<exists>s \<in> set (ax_roles d). ro_name s = n \<and> ro_id s \<noteq> role_id) then (d, Inl (Status 400))
          else let r = r\<lparr>ro_name := set_or (rp_name u) (ro_name r),
                         ro_description := (case rp_description u of None \<Rightarrow> ro_description r | Some x \<Rightarrow> Some x)\<rparr> in
            case (case rp_permission_ids u of None \<Rightarrow> Inr (ax_role_permissions d)
                  | Some ids \<Rightarrow> relink role_id ids (ax_role_permissions d)) of
              Inl e \<Rightarrow> (d, Inl e)
            | Inr links \<Rightarrow> (d\<lparr>ax_roles := save_row ro_id r (ax_roles d), ax_role_permissions := links\<rparr>, Inr r))"

text \<open>Users keep the id of a deleted role; approval rules that escalate to it are reset.\<close>

definition delete_role :: "string \<Rightarrow> access \<Rightarrow> unit in_access" where
  "delete_role role_id d =
     (case sql_get ro_id role_id (ax_roles d) of
        None \<Rightarrow> (d, Inl (Status 404))
      | Some r \<Rightarrow>
          if ro_is_system_role r then (d, Inl (Status 400))
          else (d\<lparr>ax_roles := filter (\<lambda>s. ro_id s \<noteq> role_id) (ax_roles d),
                  ax_role_permissions := filter (\<lambda>l. fst l \<noteq> role_id) (ax_role_permissions d),
                  ax_group_roles := filter (\<lambda>l. snd l \<noteq> role_id) (ax_group_roles d),
                  ax_escalation_roles := map (\<lambda>(a, e). (a, if e = Some role_id then None else e)) (ax_escalation_roles d)\<rparr>,
                Inr ()))"

section \<open>Service accounts\<close>

record service_account_create =
  sv_username :: string
  sv_description :: "string option"
  sv_role_id :: "string option"
  sv_expires_at :: "string option"

record service_account_update =
  su_description :: "string option"
  su_role_id :: "string option"
  su_expires_at :: "string option"
  su_is_active :: "bool option"

definition get_account :: "string \<Rightarrow> access \<Rightarrow> user option" where
  "get_account account_id d =
     (case sql_get us_id account_id (ac_users (ax_acc d)) of
        None \<Rightarrow> None | Some u \<Rightarrow> if us_is_service_account u then Some u else None)"

definition owner_username :: "user \<Rightarrow> access \<Rightarrow> string option" where
  "owner_username account d =
     (if truthy (us_owner_id account)
      then map_option us_username (sql_get us_id (the (us_owner_id account)) (ac_users (ax_acc d))) else None)"

definition keys_of :: "string \<Rightarrow> access \<Rightarrow> api_key list" where
  "keys_of account_id d = filter (\<lambda>k. ak_service_account_id k = account_id) (ax_api_keys d)"

definition shown_role :: "user \<Rightarrow> access \<Rightarrow> string" where
  "shown_role account d = (case role_ref account d of Some r \<Rightarrow> ro_name r | None \<Rightarrow> us_role account)"

definition list_service_accounts :: "access \<Rightarrow> (user \<times> string \<times> string option \<times> nat) list" where
  "list_service_accounts d =
     map (\<lambda>acc. (acc, shown_role acc d, owner_username acc d, length (keys_of (us_id acc) d)))
       (order_by (\<lambda>u v. str_le (us_username u) (us_username v)) (filter us_is_service_account (ac_users (ax_acc d))))"

definition get_service_account :: "string \<Rightarrow> access \<Rightarrow> api_error + user \<times> string \<times> string option \<times> api_key list" where
  "get_service_account account_id d =
     (case get_account account_id d of
        None \<Rightarrow> Inl (Status 404)
      | Some acc \<Rightarrow> Inr (acc, shown_role acc d, owner_username acc d, keys_of account_id d))"

text \<open>\<open>datetime.fromisoformat\<close> after the replacement of Z; a failure is a 400.\<close>

definition parse_expires :: "(string \<Rightarrow> datetime option) \<Rightarrow> string option \<Rightarrow> api_error + datetime option" where
  "parse_expires fromiso e =
     (if truthy e then case fromiso (the e) of None \<Rightarrow> Inl (Status 400) | Some t \<Rightarrow> Inr (Some t) else Inr None)"

definition find_role :: "string option \<Rightarrow> access \<Rightarrow> api_error + role option" where
  "find_role role_id d =
     (if truthy role_id then case sql_get ro_id (the role_id) (ax_roles d) of
         None \<Rightarrow> Inl (Status 400) | Some r \<Rightarrow> Inr (Some r) else Inr None)"

definition service_password :: "string \<Rightarrow> string" where
  "service_password username = ''svc-'' @ username @ ''-disabled''"

definition account_of_create :: "env \<Rightarrow> string \<Rightarrow> string \<Rightarrow> service_account_create \<Rightarrow> role option \<Rightarrow> datetime option \<Rightarrow> user \<Rightarrow> user" where
  "account_of_create env uuid salt r role expires current_user =
     (new_user uuid (sv_username r) (Some (sv_username r @ ''@service.local''))
        (hash_password env salt (service_password (sv_username r)))
        (case role of Some x \<Rightarrow> ro_name x | None \<Rightarrow> ''viewer''))
       \<lparr>us_role_id := sv_role_id r, us_is_service_account := True, us_service_account_description := sv_description r,
        us_owner_id := Some (us_id current_user), us_expires_at := expires\<rparr>"

definition create_service_account ::
    "env \<Rightarrow> (string \<Rightarrow> datetime option) \<Rightarrow> string \<Rightarrow> string \<Rightarrow> service_account_create \<Rightarrow> user \<Rightarrow> access \<Rightarrow> user in_access" where
  "create_service_account env fromiso uuid salt r current_user d =
     (if sql_get us_username (sv_username r) (ac_users (ax_acc d)) \<noteq> None then (d, Inl (Status 400))
      else case ebind (find_role (sv_role_id r) d) (\<lambda>role.
                ebind (parse_expires fromiso (sv_expires_at r)) (\<lambda>expires. Inr (role, expires))) of
        Inl e \<Rightarrow> (d, Inl e)
      | Inr (role, expires) \<Rightarrow>
          let account = account_of_create env uuid salt r role expires current_user in
          if email_taken (us_email account) uuid (ac_users (ax_acc d)) then (d, Inl ConstraintFailed)
          else case sql_insert us_id account (ac_users (ax_acc d)) of
            Inl _ \<Rightarrow> (d, Inl ConstraintFailed)
          | Inr us \<Rightarrow> (d\<lparr>ax_acc := (ax_acc d)\<lparr>ac_users := us\<rparr>\<rparr>, Inr account))"

text \<open>A null field is left as it is; \<open>fromisoformat\<close> is also applied to an empty string here.\<close>

definition update_service_account ::
    "(string \<Rightarrow> datetime option) \<Rightarrow> string \<Rightarrow> service_account_update \<Rightarrow> access \<Rightarrow> user in_access" where
  "update_service_account fromiso account_id u d =
     (case get_account account_id d of
        None \<Rightarrow> (d, Inl (Status 404))
      | Some acc \<Rightarrow>
          let acc = acc\<lparr>us_service_account_description :=
                (case su_description u of None \<Rightarrow> us_service_account_description acc | Some x \<Rightarrow> Some x)\<rparr> in
          case ebind (case su_role_id u of
                 None \<Rightarrow> Inr acc
               | Some i \<Rightarrow> (case sql_get ro_id i (ax_roles d) of
                    None \<Rightarrow> Inl (Status 400) | Some r \<Rightarrow> Inr (acc\<lparr>us_role_id := Some i, us_role := ro_name r\<rparr>))) (\<lambda>acc.
               ebind (case su_expires_at u of
                 None \<Rightarrow> Inr acc
               | Some e \<Rightarrow> (case fromiso e of None \<Rightarrow> Inl (Status 400) | Some t \<Rightarrow> Inr (acc\<lparr>us_expires_at := Some t\<rparr>))) (\<lambda>acc.
               Inr (acc\<lparr>us_is_active := set_or (su_is_active u) (us_is_active acc)\<rparr>))) of
            Inl e \<Rightarrow> (d, Inl e)
          | Inr acc \<Rightarrow> (d\<lparr>ax_acc := save_user acc (ax_acc d)\<rparr>, Inr acc))"

text \<open>The API keys of the account and its refresh tokens stay in their tables.\<close>

definition delete_service_account :: "string \<Rightarrow> access \<Rightarrow> unit in_access" where
  "delete_service_account account_id d =
     (case get_account account_id d of
        None \<Rightarrow> (d, Inl (Status 404))
      | Some acc \<Rightarrow>
          (d\<lparr>ax_acc := (ax_acc d)\<lparr>ac_users := filter (\<lambda>u. us_id u \<noteq> account_id) (ac_users (ax_acc d)),
                                  ac_members := filter (\<lambda>(u, g). u \<noteq> account_id) (ac_members (ax_acc d))\<rparr>\<rparr>, Inr ()))"

record api_key_create =
  kc_name :: string
  kc_expires_at :: "string option"

text \<open>The drawn id of the row, id and secret of the key, and the salt are arguments. The answer is the full key.\<close>

definition create_api_key ::
    "env \<Rightarrow> (string \<Rightarrow> datetime option) \<Rightarrow> string \<Rightarrow> string \<Rightarrow> string \<Rightarrow> string \<Rightarrow> string \<Rightarrow> api_key_create \<Rightarrow> user \<Rightarrow> access
       \<Rightarrow> string in_access" where
  "create_api_key env fromiso uuid salt key_id secret account_id r current_user d =
     (case get_account account_id d of
        None \<Rightarrow> (d, Inl (Status 404))
      | Some acc \<Rightarrow>
          if \<exists>k \<in> set (keys_of account_id d). ak_name k = kc_name r then (d, Inl (Status 400))
          else let (full_key, prefix, key_hash) = generate_api_key env salt key_id secret in
            case parse_expires fromiso (kc_expires_at r) of
              Inl e \<Rightarrow> (d, Inl e)
            | Inr expires \<Rightarrow>
                let k = \<lparr>ak_id = uuid, ak_service_account_id = account_id, ak_name = kc_name r, ak_key_hash = key_hash,
                         ak_key_prefix = prefix, ak_is_active = True, ak_expires_at = expires, ak_last_used_at = None,
                         ak_last_used_ip = None, ak_created_by_id = us_id current_user\<rparr> in
                if sql_get ak_key_prefix prefix (ax_api_keys d) \<noteq> None then (d, Inl ConstraintFailed)
                else case sql_insert ak_id k (ax_api_keys d) of
                  Inl _ \<Rightarrow> (d, Inl ConstraintFailed)
                | Inr ks \<Rightarrow> (d\<lparr>ax_api_keys := ks\<rparr>, Inr full_key))"

definition revoke_api_key :: "string \<Rightarrow> string \<Rightarrow> access \<Rightarrow> unit in_access" where
  "revoke_api_key account_id key_id d =
     (if \<exists>k \<in> set (ax_api_keys d). ak_id k = key_id \<and> ak_service_account_id k = account_id
      then (d\<lparr>ax_api_keys := filter (\<lambda>k. ak_id k \<noteq> key_id) (ax_api_keys d)\<rparr>, Inr ())
      else (d, Inl (Status 404)))"

section \<open>User groups\<close>

definition members_of :: "string \<Rightarrow> access \<Rightarrow> user list" where
  "members_of group_id d = filter (\<lambda>u. (us_id u, group_id) \<in> set (ac_members (ax_acc d))) (ac_users (ax_acc d))"

definition group_role_names :: "string \<Rightarrow> access \<Rightarrow> string list" where
  "group_role_names group_id d = map ro_name (filter (\<lambda>r. (group_id, ro_id r) \<in> set (ax_group_roles d)) (ax_roles d))"

definition list_user_groups :: "access \<Rightarrow> (user_group \<times> nat \<times> string list) list" where
  "list_user_groups d =
     map (\<lambda>g. (g, length (members_of (ug_id g) d), group_role_names (ug_id g) d))
       (order_by (\<lambda>g h. str_le (ug_name g) (ug_name h)) (ac_user_groups (ax_acc d)))"

definition linked :: "string \<Rightarrow> links \<Rightarrow> string list" where
  "linked owner ls = map snd (filter (\<lambda>l. fst l = owner) ls)"

definition get_user_group :: "string \<Rightarrow> access \<Rightarrow> api_error + user_group \<times> user list \<times> string list \<times> string list \<times> string list" where
  "get_user_group group_id d =
     (case sql_get ug_id group_id (ac_user_groups (ax_acc d)) of
        None \<Rightarrow> Inl (Status 404)
      | Some g \<Rightarrow> Inr (g, members_of group_id d, group_role_names group_id d,
                       linked group_id (ax_group_tags d), linked group_id (ax_group_nodes d)))"

record user_group_create =
  gc_name :: string
  gc_description :: "string option"
  gc_requires_approval :: bool

record user_group_update =
  gu_name :: "string option"
  gu_description :: "string option"
  gu_requires_approval :: "bool option"

definition create_user_group :: "string \<Rightarrow> user_group_create \<Rightarrow> access \<Rightarrow> user_group in_access" where
  "create_user_group uuid r d =
     (if sql_get ug_name (gc_name r) (ac_user_groups (ax_acc d)) \<noteq> None then (d, Inl (Status 400))
      else let g = \<lparr>ug_id = uuid, ug_name = gc_name r, ug_description = gc_description r,
                    ug_requires_approval = gc_requires_approval r, ug_ldap_group_dn = None\<rparr> in
        case sql_insert ug_id g (ac_user_groups (ax_acc d)) of
          Inl _ \<Rightarrow> (d, Inl ConstraintFailed)
        | Inr gs \<Rightarrow> (d\<lparr>ax_acc := (ax_acc d)\<lparr>ac_user_groups := gs\<rparr>\<rparr>, Inr g))"

definition update_user_group :: "string \<Rightarrow> user_group_update \<Rightarrow> access \<Rightarrow> user_group in_access" where
  "update_user_group group_id u d =
     (case sql_get ug_id group_id (ac_user_groups (ax_acc d)) of
        None \<Rightarrow> (d, Inl (Status 404))
      | Some g \<Rightarrow>
          if (case gu_name u of None \<Rightarrow> False
              | Some n \<Rightarrow> \<exists>h \<in> set (ac_user_groups (ax_acc d)). ug_name h = n \<and> ug_id h \<noteq> group_id)
          then (d, Inl (Status 400))
          else let g = g\<lparr>ug_name := set_or (gu_name u) (ug_name g),
                         ug_description := (case gu_description u of None \<Rightarrow> ug_description g | Some x \<Rightarrow> Some x),
                         ug_requires_approval := set_or (gu_requires_approval u) (ug_requires_approval g)\<rparr>
               in (d\<lparr>ax_acc := (ax_acc d)\<lparr>ac_user_groups := save_row ug_id g (ac_user_groups (ax_acc d))\<rparr>\<rparr>, Inr g))"

definition unlink :: "string \<Rightarrow> links \<Rightarrow> links" where
  "unlink owner ls = filter (\<lambda>l. fst l \<noteq> owner) ls"

definition delete_user_group :: "string \<Rightarrow> access \<Rightarrow> unit in_access" where
  "delete_user_group group_id d =
     (if sql_get ug_id group_id (ac_user_groups (ax_acc d)) = None then (d, Inl (Status 404))
      else (d\<lparr>ax_acc := (ax_acc d)\<lparr>ac_user_groups := filter (\<lambda>g. ug_id g \<noteq> group_id) (ac_user_groups (ax_acc d)),
                                   ac_members := filter (\<lambda>(u, g). g \<noteq> group_id) (ac_members (ax_acc d))\<rparr>,
              ax_group_roles := unlink group_id (ax_group_roles d),
              ax_group_device_groups := unlink group_id (ax_group_device_groups d),
              ax_group_tags := unlink group_id (ax_group_tags d),
              ax_group_nodes := unlink group_id (ax_group_nodes d)\<rparr>, Inr ()))"

text \<open>The assignments replace what the group had: members, roles and the three kinds of access.\<close>

definition assign_members :: "string \<Rightarrow> string list \<Rightarrow> access \<Rightarrow> unit in_access" where
  "assign_members group_id user_ids d =
     (if sql_get ug_id group_id (ac_user_groups (ax_acc d)) = None then (d, Inl (Status 404))
      else if \<not> distinct user_ids then (d, Inl ConstraintFailed)
      else (d\<lparr>ax_acc := (ax_acc d)\<lparr>ac_members :=
               filter (\<lambda>(u, g). g \<noteq> group_id) (ac_members (ax_acc d)) @ map (\<lambda>u. (u, group_id)) user_ids\<rparr>\<rparr>, Inr ()))"

datatype assignment = ToRoles | ToDeviceGroups | ToTags | ToNodes

fun assigned :: "assignment \<Rightarrow> access \<Rightarrow> links" where
  "assigned ToRoles d = ax_group_roles d"
| "assigned ToDeviceGroups d = ax_group_device_groups d"
| "assigned ToTags d = ax_group_tags d"
| "assigned ToNodes d = ax_group_nodes d"

fun put_assigned :: "assignment \<Rightarrow> links \<Rightarrow> access \<Rightarrow> access" where
  "put_assigned ToRoles ls d = d\<lparr>ax_group_roles := ls\<rparr>"
| "put_assigned ToDeviceGroups ls d = d\<lparr>ax_group_device_groups := ls\<rparr>"
| "put_assigned ToTags ls d = d\<lparr>ax_group_tags := ls\<rparr>"
| "put_assigned ToNodes ls d = d\<lparr>ax_group_nodes := ls\<rparr>"

definition assign :: "assignment \<Rightarrow> string \<Rightarrow> string list \<Rightarrow> access \<Rightarrow> unit in_access" where
  "assign a group_id ids d =
     (if sql_get ug_id group_id (ac_user_groups (ax_acc d)) = None then (d, Inl (Status 404))
      else case relink group_id ids (assigned a d) of
        Inl e \<Rightarrow> (d, Inl e)
      | Inr ls \<Rightarrow> (put_assigned a ls d, Inr ()))"

section \<open>Requests\<close>

datatype access_op =
    CreateRole string role_create
  | UpdateRole string role_update
  | DeleteRole string
  | CreateServiceAccount string string service_account_create
  | UpdateServiceAccount string service_account_update
  | DeleteServiceAccount string
  | CreateApiKey string string string string string api_key_create
  | RevokeApiKey string string
  | CreateUserGroup string user_group_create
  | UpdateUserGroup string user_group_update
  | DeleteUserGroup string
  | AssignMembers string "string list"
  | Assign assignment string "string list"

fun needed :: "access_op \<Rightarrow> string \<times> string" where
  "needed (CreateRole uuid r) = (''user'', ''create'')"
| "needed (UpdateRole i u) = (''user'', ''update'')"
| "needed (DeleteRole i) = (''user'', ''delete'')"
| "needed (CreateServiceAccount uuid salt r) = (''user'', ''create'')"
| "needed (UpdateServiceAccount i u) = (''user'', ''update'')"
| "needed (DeleteServiceAccount i) = (''user'', ''delete'')"
| "needed (CreateApiKey uuid salt key_id secret i r) = (''user'', ''update'')"
| "needed (RevokeApiKey i k) = (''user'', ''update'')"
| "needed (CreateUserGroup uuid r) = (''user'', ''create'')"
| "needed (UpdateUserGroup i u) = (''user'', ''update'')"
| "needed (DeleteUserGroup i) = (''user'', ''delete'')"
| "needed (AssignMembers i us) = (''user'', ''update'')"
| "needed (Assign a i xs) = (''user'', ''update'')"

definition done_with :: "'a in_access \<Rightarrow> unit in_access" where
  "done_with r = (fst r, map_sum id (\<lambda>_. ()) (snd r))"

fun perform :: "env \<Rightarrow> (string \<Rightarrow> datetime option) \<Rightarrow> access_op \<Rightarrow> user \<Rightarrow> access \<Rightarrow> unit in_access" where
  "perform env fromiso (CreateRole uuid r) u d = done_with (create_role uuid r d)"
| "perform env fromiso (UpdateRole i r) u d = done_with (update_role i r d)"
| "perform env fromiso (DeleteRole i) u d = delete_role i d"
| "perform env fromiso (CreateServiceAccount uuid salt r) u d = done_with (create_service_account env fromiso uuid salt r u d)"
| "perform env fromiso (UpdateServiceAccount i r) u d = done_with (update_service_account fromiso i r d)"
| "perform env fromiso (DeleteServiceAccount i) u d = delete_service_account i d"
| "perform env fromiso (CreateApiKey uuid salt key_id secret i r) u d =
     done_with (create_api_key env fromiso uuid salt key_id secret i r u d)"
| "perform env fromiso (RevokeApiKey i k) u d = revoke_api_key i k d"
| "perform env fromiso (CreateUserGroup uuid r) u d = done_with (create_user_group uuid r d)"
| "perform env fromiso (UpdateUserGroup i r) u d = done_with (update_user_group i r d)"
| "perform env fromiso (DeleteUserGroup i) u d = delete_user_group i d"
| "perform env fromiso (AssignMembers i us) u d = assign_members i us d"
| "perform env fromiso (Assign a i xs) u d = assign a i xs d"

text \<open>A request: the middleware, the permission, the handler in its own session.\<close>

definition access_request :: "env \<Rightarrow> (string \<Rightarrow> datetime option) \<Rightarrow> http \<times> access_op \<Rightarrow> access \<Rightarrow> unit in_access" where
  "access_request env fromiso q d =
     (case dispatch env (fst q) d of
        (d1, Inl e) \<Rightarrow> (d1, Inl e)
      | (d1, Inr st) \<Rightarrow>
          (case require_permission (needed (snd q)) st d1 of
             Inl e \<Rightarrow> (d1, Inl e)
           | Inr u \<Rightarrow>
               (case perform env fromiso (snd q) u d1 of
                  (d2, Inl e) \<Rightarrow> (d1, Inl e)
                | (d2, Inr x) \<Rightarrow> (d2, Inr x))))"

definition access_route :: "env \<Rightarrow> (string \<Rightarrow> datetime option) \<Rightarrow> http \<times> access_op \<Rightarrow> access \<Rightarrow> api_error + access" where
  "access_route env fromiso q d = Inr (fst (access_request env fromiso q d))"

section \<open>Well-formed tables\<close>

definition access_ok :: "access \<Rightarrow> bool" where
  "access_ok d \<longleftrightarrow> users_ok (ax_acc d)
     \<and> keys_unique ro_id (ax_roles d) \<and> keys_unique ro_name (ax_roles d) \<and> distinct (ax_role_permissions d)
     \<and> keys_unique ak_id (ax_api_keys d) \<and> keys_unique ak_key_prefix (ax_api_keys d)
     \<and> keys_unique (\<lambda>k. (ak_service_account_id k, ak_name k)) (ax_api_keys d)
     \<and> keys_unique ug_id (ac_user_groups (ax_acc d)) \<and> keys_unique ug_name (ac_user_groups (ax_acc d))
     \<and> distinct (ac_members (ax_acc d)) \<and> (\<forall>a. distinct (assigned a d))"

text \<open>What one request changes, table by table.\<close>

lemma dispatch_cases:
  obtains "fst (dispatch env h d) = d"
  | k where "fst (dispatch env h d) = mark_used (ht_now h) (ht_client_ip h) k d"
proof -
  have "fst (authenticate_api_key env now ip key d) = d \<or> (\<exists>k. fst (authenticate_api_key env now ip key d) = mark_used now ip k d)" for now ip key
    by (auto simp: authenticate_api_key_def split: option.splits prod.splits)
  moreover have "fst (dispatch env h d) \<in> {d, fst (authenticate_api_key env (ht_now h) (ht_client_ip h) (drop 7 (the (ht_header h))) d)}"
    by (auto simp: dispatch_def Let_def split: option.splits prod.splits sum.splits)
  ultimately have "fst (dispatch env h d) = d \<or> (\<exists>k. fst (dispatch env h d) = mark_used (ht_now h) (ht_client_ip h) k d)"
    by (metis insertE singletonD)
  then show ?thesis using that by blast
qed

lemma map_keys_mark_used:
  "map ak_id (ax_api_keys (mark_used now ip i d)) = map ak_id (ax_api_keys d)"
  "map ak_key_prefix (ax_api_keys (mark_used now ip i d)) = map ak_key_prefix (ax_api_keys d)"
  "map (\<lambda>k. (ak_service_account_id k, ak_name k)) (ax_api_keys (mark_used now ip i d))
     = map (\<lambda>k. (ak_service_account_id k, ak_name k)) (ax_api_keys d)"
  by (simp_all add: mark_used_def)

lemma mark_used_ok: "access_ok d \<Longrightarrow> access_ok (mark_used now ip i d)"
proof -
  have "assigned a (mark_used now ip i d) = assigned a d" for a by (cases a) (simp_all add: mark_used_def)
  moreover have "ax_acc (mark_used now ip i d) = ax_acc d" "ax_roles (mark_used now ip i d) = ax_roles d"
    "ax_role_permissions (mark_used now ip i d) = ax_role_permissions d" by (simp_all add: mark_used_def)
  ultimately show "access_ok d \<Longrightarrow> access_ok (mark_used now ip i d)"
    by (simp add: access_ok_def keys_unique_def map_keys_mark_used)
qed

lemma relink_InrD:
  "relink i xs ls = Inr ls' \<Longrightarrow> distinct xs \<and> ls' = filter (\<lambda>l. fst l \<noteq> i) ls @ map (\<lambda>x. (i, x)) xs"
  by (auto simp: relink_def split: if_splits)

lemma distinct_relink: "relink i xs ls = Inr ls' \<Longrightarrow> distinct ls \<Longrightarrow> distinct ls'"
  by (auto dest!: relink_InrD simp: distinct_map inj_on_def)

lemma linked_relink:
  assumes "relink i xs ls = Inr ls'"
  shows "linked j ls' = (if j = i then xs else linked j ls)"
proof -
  have "filter (\<lambda>l. fst l = j) (filter (\<lambda>l. fst l \<noteq> i) ls) = (if j = i then [] else filter (\<lambda>l. fst l = j) ls)"
    by (auto simp: filter_empty_conv intro!: filter_cong)
  moreover have "filter (\<lambda>l. fst l = j) (map (\<lambda>x. (i, x)) xs) = (if j = i then map (\<lambda>x. (i, x)) xs else [])"
    by (auto simp: filter_empty_conv)
  ultimately show ?thesis using relink_InrD [OF assms] by (simp add: linked_def comp_def)
qed

lemma all_assigned: "(\<forall>a. P (assigned a d)) \<longleftrightarrow>
  P (ax_group_roles d) \<and> P (ax_group_device_groups d) \<and> P (ax_group_tags d) \<and> P (ax_group_nodes d)"
  by (metis assigned.simps assignment.exhaust)

lemmas ok_defs = access_ok_def users_ok_def all_assigned

text \<open>The unique names that the handlers look up before they write.\<close>

lemma keys_unique_append:
  "keys_unique key (rs @ [r]) \<longleftrightarrow> keys_unique key rs \<and> key r \<notin> key ` set rs"
  by (auto simp: keys_unique_def)

lemma keys_unique_rename:
  assumes "keys_unique i rs" and "keys_unique n rs" and "r \<in> set rs" and "i s = i r"
    and "\<forall>t \<in> set rs. n t = n s \<longrightarrow> i t = i r"
  shows "keys_unique n (save_row i s rs)"
  unfolding save_row_def by (rule replace_row_unique [OF assms(1,2)]) (use assms(4,5) in auto)

lemma create_role_ok:
  assumes "access_ok d" and "create_role uuid r d = (d', Inr x)"
  shows "access_ok d'"
proof -
  let ?ls = "map (\<lambda>i. (uuid, i)) (rc_permission_ids r)"
  have x: "ro_id x = uuid" "ro_name x = rc_name r" "rc_name r \<notin> ro_name ` set (ax_roles d)" "uuid \<notin> ro_id ` set (ax_roles d)"
    and d': "d' = d\<lparr>ax_roles := ax_roles d @ [x], ax_role_permissions := ax_role_permissions d @ ?ls\<rparr>"
    and ls: "distinct ?ls" "set ?ls \<inter> set (ax_role_permissions d) = {}"
    using assms(2) by (simp_all add: create_role_def Let_def sql_insert_def sql_get_None_iff split: if_splits)
      (auto simp: disjoint_iff)
  have "distinct (ax_role_permissions d @ ?ls)" using assms(1) ls unfolding distinct_append by (simp add: ok_defs Int_commute)
  then show ?thesis using assms(1) x unfolding d' by (simp add: ok_defs keys_unique_append)
qed

lemma update_role_ok:
  assumes "access_ok d" and "update_role i u d = (d', Inr x)"
  shows "access_ok d'"
proof -
  obtain r ls where r: "sql_get ro_id i (ax_roles d) = Some r"
    and free: "\<not> (case rp_name u of None \<Rightarrow> False | Some n \<Rightarrow> \<exists>s \<in> set (ax_roles d). ro_name s = n \<and> ro_id s \<noteq> i)"
    and ls: "(case rp_permission_ids u of None \<Rightarrow> Inr (ax_role_permissions d)
                  | Some ids \<Rightarrow> relink i ids (ax_role_permissions d)) = Inr ls"
    and d': "d' = d\<lparr>ax_roles := save_row ro_id x (ax_roles d), ax_role_permissions := ls\<rparr>"
    and x: "x = r\<lparr>ro_name := set_or (rp_name u) (ro_name r),
                         ro_description := (case rp_description u of None \<Rightarrow> ro_description r | Some x \<Rightarrow> Some x)\<rparr>"
    using assms(2) by (cases "sql_get ro_id i (ax_roles d)") (auto simp: update_role_def Let_def split: if_splits sum.splits)
  have rin: "r \<in> set (ax_roles d)" "ro_id r = i" using sql_get_SomeD [OF r] by auto
  have u: "keys_unique ro_id (ax_roles d)" "keys_unique ro_name (ax_roles d)" using assms(1) by (simp_all add: ok_defs)
  have "\<forall>t \<in> set (ax_roles d). ro_name t = ro_name x \<longrightarrow> ro_id t = ro_id r"
  proof (cases "rp_name u")
    case None
    then show ?thesis using u rin x by (auto simp: keys_unique_def distinct_map inj_on_def)
  qed (use free rin x in auto)
  moreover have "ro_id x = ro_id r" by (simp add: x)
  ultimately have "keys_unique ro_name (save_row ro_id x (ax_roles d))" using keys_unique_rename [OF u rin(1)] by blast
  moreover have "distinct ls" using ls assms(1) by (auto simp: ok_defs dest: distinct_relink split: option.splits)
  ultimately show ?thesis using assms(1) by (simp add: d' ok_defs)
qed

lemma delete_role_ok: "access_ok d \<Longrightarrow> delete_role i d = (d', Inr x) \<Longrightarrow> access_ok d'"
  by (auto simp: ok_defs delete_role_def keys_unique_filter split: option.splits if_splits)

lemma create_service_account_ok:
  "access_ok d \<Longrightarrow> create_service_account env fromiso uuid salt r u d = (d', Inr x) \<Longrightarrow> access_ok d'"
  by (auto simp: ok_defs create_service_account_def Let_def sql_insert_def sql_get_None_iff keys_unique_append
      account_of_create_def new_user_def split: if_splits sum.splits)

lemma get_account_SomeD:
  "get_account i d = Some u \<Longrightarrow> sql_get us_id i (ac_users (ax_acc d)) = Some u \<and> us_is_service_account u"
  by (auto simp: get_account_def split: option.splits if_splits)

lemma update_service_account_InrD:
  assumes "update_service_account fromiso i u d = (d', Inr x)"
  shows "\<exists>acc. get_account i d = Some acc \<and> us_id x = us_id acc \<and> us_username x = us_username acc
    \<and> d' = d\<lparr>ax_acc := save_user x (ax_acc d)\<rparr>"
  using assms by (auto simp: update_service_account_def Let_def ebind_Inr_iff split: option.splits sum.splits)

lemma update_service_account_ok:
  assumes "access_ok d" and "update_service_account fromiso i u d = (d', Inr x)"
  shows "access_ok d'"
proof -
  from update_service_account_InrD [OF assms(2)] obtain acc where acc: "get_account i d = Some acc"
    and x: "us_id x = us_id acc" "us_username x = us_username acc" and d': "d' = d\<lparr>ax_acc := save_user x (ax_acc d)\<rparr>" by blast
  have accin: "acc \<in> set (ac_users (ax_acc d))" using get_account_SomeD [OF acc] sql_get_SomeD by metis
  have u: "keys_unique us_id (ac_users (ax_acc d))" "keys_unique us_username (ac_users (ax_acc d))" using assms(1) by (simp_all add: ok_defs)
  have "keys_unique us_username (save_row us_id x (ac_users (ax_acc d)))"
    by (rule keys_unique_rename [OF u accin x(1)]) (use x u accin in \<open>auto simp: keys_unique_def distinct_map inj_on_def\<close>)
  then show ?thesis using assms(1) by (simp add: d' ok_defs save_user_def)
qed

lemma delete_service_account_ok: "access_ok d \<Longrightarrow> delete_service_account i d = (d', Inr x) \<Longrightarrow> access_ok d'"
  by (auto simp: ok_defs delete_service_account_def keys_unique_filter split: option.splits)

lemma create_api_key_ok:
  "access_ok d \<Longrightarrow> create_api_key env fromiso uuid salt key_id secret i r u d = (d', Inr x) \<Longrightarrow> access_ok d'"
  by (auto simp: ok_defs create_api_key_def Let_def sql_insert_def sql_get_None_iff keys_unique_append keys_of_def
      split: option.splits if_splits sum.splits prod.splits) blast

lemma revoke_api_key_ok: "access_ok d \<Longrightarrow> revoke_api_key i k d = (d', Inr x) \<Longrightarrow> access_ok d'"
  by (auto simp: ok_defs revoke_api_key_def keys_unique_filter split: if_splits)

lemma create_user_group_ok: "access_ok d \<Longrightarrow> create_user_group uuid r d = (d', Inr x) \<Longrightarrow> access_ok d'"
  by (auto simp: ok_defs create_user_group_def Let_def sql_insert_def sql_get_None_iff keys_unique_append split: if_splits)

lemma update_user_group_ok:
  assumes "access_ok d" and "update_user_group i u d = (d', Inr x)"
  shows "access_ok d'"
proof -
  let ?gs = "ac_user_groups (ax_acc d)"
  obtain g where g: "sql_get ug_id i ?gs = Some g"
    and free: "\<forall>n. gu_name u = Some n \<longrightarrow> (\<forall>h \<in> set ?gs. ug_name h = n \<longrightarrow> ug_id h = i)"
    and x: "ug_name x = set_or (gu_name u) (ug_name g)" "ug_id x = ug_id g"
    and d': "d' = d\<lparr>ax_acc := (ax_acc d)\<lparr>ac_user_groups := save_row ug_id x ?gs\<rparr>\<rparr>"
    using assms(2) by (auto simp: update_user_group_def Let_def split: option.splits if_splits)
  have gin: "g \<in> set ?gs" "ug_id g = i" using sql_get_SomeD [OF g] by auto
  have u: "keys_unique ug_id ?gs" "keys_unique ug_name ?gs" using assms(1) by (simp_all add: ok_defs)
  have "\<forall>t \<in> set ?gs. ug_name t = ug_name x \<longrightarrow> ug_id t = ug_id g"
  proof (cases "gu_name u")
    case None
    then show ?thesis using u gin x by (auto simp: keys_unique_def distinct_map inj_on_def)
  qed (use free gin x in auto)
  then have "keys_unique ug_name (save_row ug_id x ?gs)" by (rule keys_unique_rename [OF u gin(1) x(2)])
  then show ?thesis using assms(1) by (simp add: d' ok_defs)
qed

lemma delete_user_group_ok: "access_ok d \<Longrightarrow> delete_user_group i d = (d', Inr x) \<Longrightarrow> access_ok d'"
  by (auto simp: ok_defs delete_user_group_def keys_unique_filter unlink_def split: if_splits)

lemma assign_members_ok: "access_ok d \<Longrightarrow> assign_members i us d = (d', Inr x) \<Longrightarrow> access_ok d'"
  by (auto simp: ok_defs assign_members_def distinct_map inj_on_def split: if_splits)

lemma assign_ok: "access_ok d \<Longrightarrow> assign a i xs d = (d', Inr x) \<Longrightarrow> access_ok d'"
  by (cases a) (auto simp: ok_defs assign_def dest: distinct_relink split: if_splits sum.splits)

lemma done_with_Inr: "done_with r = (d, Inr y) \<longleftrightarrow> (\<exists>x. r = (d, Inr x))"
  by (cases r; cases "snd r") (auto simp: done_with_def)

lemmas handlers_ok = create_role_ok update_role_ok delete_role_ok create_service_account_ok update_service_account_ok
  delete_service_account_ok create_api_key_ok revoke_api_key_ok create_user_group_ok update_user_group_ok
  delete_user_group_ok assign_members_ok assign_ok

lemma perform_ok: "access_ok d \<Longrightarrow> perform env fromiso q u d = (d', Inr x) \<Longrightarrow> access_ok d'"
  by (cases q) (auto simp: done_with_Inr dest: handlers_ok)

lemma dispatch_ok: "access_ok d \<Longrightarrow> access_ok (fst (dispatch env h d))"
  using dispatch_cases [of env h d] by (metis mark_used_ok)

lemma access_request_cases:
  obtains "fst (access_request env fromiso q d) = fst (dispatch env (fst q) d)"
  | u x where "perform env fromiso (snd q) u (fst (dispatch env (fst q) d)) = (fst (access_request env fromiso q d), Inr x)"
proof -
  obtain d1 r where D: "dispatch env (fst q) d = (d1, r)" by force
  show ?thesis
  proof (cases r)
    case (Inl e)
    then show ?thesis using that(1) D by (simp add: access_request_def)
  next
    case (Inr st)
    show ?thesis
    proof (cases "require_permission (needed (snd q)) st d1")
      case (Inl e)
      then show ?thesis using that(1) D Inr by (simp add: access_request_def)
    next
      case u: (Inr u)
      obtain d2 y where P: "perform env fromiso (snd q) u d1 = (d2, y)" by force
      show ?thesis
      proof (cases y)
        case (Inl e)
        then show ?thesis using that(1) D Inr u P by (simp add: access_request_def)
      next
        case y: (Inr x)
        then show ?thesis using that(2) [of u x] D Inr u P by (simp add: access_request_def)
      qed
    qed
  qed
qed

lemma access_route_ok:
  assumes "access_ok d" and "access_route env fromiso q d = Inr d'"
  shows "access_ok d'"
proof -
  have d': "d' = fst (access_request env fromiso q d)" using assms(2) by (simp add: access_route_def)
  have ok: "access_ok (fst (dispatch env (fst q) d))" by (rule dispatch_ok [OF assms(1)])
  show ?thesis
  proof (rule access_request_cases [of env fromiso q d])
    assume "fst (access_request env fromiso q d) = fst (dispatch env (fst q) d)"
    then show ?thesis using ok d' by simp
  next
    fix u x
    assume "perform env fromiso (snd q) u (fst (dispatch env (fst q) d)) = (fst (access_request env fromiso q d), Inr x)"
    then show ?thesis using perform_ok [OF ok] d' by blast
  qed
qed

interpretation access_api: transactional "access_route env fromiso" access_ok
  by unfold_locales (rule access_route_ok)

section \<open>Keys and sessions\<close>

lemma split_key:
  assumes "CHR ''_'' \<notin> set key_id" and "CHR ''_'' \<notin> set secret"
  shows "split_on (CHR ''_'') (''pb_live_'' @ key_id @ ''_'' @ secret) = [''pb'', ''live'', key_id, secret]"
  using split_on_append [OF assms(1), of secret] split_on_single [OF assms(2)] by simp

lemma parse_generated:
  assumes "CHR ''_'' \<notin> set key_id" and "CHR ''_'' \<notin> set secret"
  shows "parse_api_key (''pb_live_'' @ key_id @ ''_'' @ secret) = Some (''pb_live_'' @ key_id, secret)"
    and "verify_api_key env (''pb_live_'' @ key_id @ ''_'' @ secret) h = checkpw env secret h"
  unfolding parse_api_key_def verify_api_key_def split_key [OF assms] by (simp_all add: Let_def)

text \<open>What \<open>create_api_key\<close> stores.\<close>

lemma create_api_key_InrD:
  assumes "create_api_key env fromiso uuid salt key_id secret i r u d = (d', Inr full)"
  defines "k \<equiv> last (ax_api_keys d')"
  shows "\<exists>acc. get_account i d = Some acc \<and> parse_expires fromiso (kc_expires_at r) = Inr (ak_expires_at k)
    \<and> d' = d\<lparr>ax_api_keys := ax_api_keys d @ [k]\<rparr> \<and> full = ''pb_live_'' @ key_id @ ''_'' @ secret
    \<and> ak_id k = uuid \<and> ak_service_account_id k = i \<and> ak_key_prefix k = ''pb_live_'' @ key_id \<and> ak_is_active k
    \<and> ak_key_hash k = hashpw env salt secret
    \<and> uuid \<notin> ak_id ` set (ax_api_keys d) \<and> ''pb_live_'' @ key_id \<notin> ak_key_prefix ` set (ax_api_keys d)"
  using assms
  by (auto simp: create_api_key_def generate_api_key_def Let_def sql_insert_def sql_get_None_iff split: option.splits if_splits sum.splits)

lemma authenticate_stored:
  assumes "parse_api_key key = Some (prefix, secret)" and "sql_get ak_key_prefix prefix (ax_api_keys d) = Some k"
    and "ak_is_active k" and "verify_api_key env key (ak_key_hash k)"
    and "sql_get us_id (ak_service_account_id k) (ac_users (ax_acc d)) = Some acc"
  shows "snd (authenticate_api_key env t ip key d) =
    (if passed t (ak_expires_at k) then Inl ''API key has expired''
     else if \<not> us_is_active acc then Inl ''Service account is disabled''
     else if passed t (us_expires_at acc) then Inl ''Service account has expired'' else Inr acc)"
  using assms by (simp add: authenticate_api_key_def)

lemma revoked_key_unknown:
  assumes "access_ok d" and "k \<in> set (ax_api_keys d)" and "parse_api_key key = Some (ak_key_prefix k, secret)"
    and "ak_service_account_id k = i"
  shows "snd (authenticate_api_key env t ip key (fst (revoke_api_key i (ak_id k) d))) = Inl ''API key not found''"
proof -
  have u: "keys_unique ak_id (ax_api_keys d)" "keys_unique ak_key_prefix (ax_api_keys d)" using assms(1) by (simp_all add: ok_defs)
  have "sql_get ak_key_prefix (ak_key_prefix k) (filter (\<lambda>j. ak_id j \<noteq> ak_id k) (ax_api_keys d)) = None"
    unfolding sql_get_None_iff using u assms(2) by (auto simp: keys_unique_def distinct_map inj_on_def)
  moreover have "fst (revoke_api_key i (ak_id k) d) = d\<lparr>ax_api_keys := filter (\<lambda>j. ak_id j \<noteq> ak_id k) (ax_api_keys d)\<rparr>"
    using assms(2,4) by (auto simp: revoke_api_key_def)
  ultimately show ?thesis using assms(3) by (simp add: authenticate_api_key_def)
qed

text \<open>System roles: no request touches the row or its permissions.\<close>

definition role_fixed :: "role \<Rightarrow> access \<Rightarrow> access \<Rightarrow> bool" where
  "role_fixed r d0 d \<longleftrightarrow> r \<in> set (ax_roles d) \<and> ax_permissions d = ax_permissions d0
     \<and> linked (ro_id r) (ax_role_permissions d) = linked (ro_id r) (ax_role_permissions d0)"

lemma linked_append: "linked i (ls @ ms) = linked i ls @ linked i ms"
  by (simp add: linked_def)

lemma linked_other_owner: "i \<noteq> j \<Longrightarrow> linked i (map (\<lambda>x. (j, x)) xs) = []"
  by (simp add: linked_def filter_empty_conv)

lemma linked_unlinked: "i \<noteq> j \<Longrightarrow> linked i (filter (\<lambda>l. fst l \<noteq> j) ls) = linked i ls"
  by (auto simp: linked_def intro!: arg_cong [of _ _ "map snd"] filter_cong)

lemma create_role_fixed:
  assumes "role_fixed r d0 d" and "create_role uuid c d = (d', Inr x)"
  shows "role_fixed r d0 d'"
proof -
  have "uuid \<noteq> ro_id r" "ax_permissions d' = ax_permissions d" "ax_roles d' = ax_roles d @ [x]"
    "ax_role_permissions d' = ax_role_permissions d @ map (\<lambda>i. (uuid, i)) (rc_permission_ids c)"
    using assms by (auto simp: create_role_def role_fixed_def Let_def sql_insert_def split: if_splits)
  then show ?thesis using assms(1) by (simp add: role_fixed_def linked_append linked_other_owner)
qed

lemma other_role:
  assumes "access_ok d" and "role_fixed r d0 d" and "ro_is_system_role r"
    and "sql_get ro_id i (ax_roles d) = Some s" and "\<not> ro_is_system_role s"
  shows "ro_id r \<noteq> i"
proof
  assume "ro_id r = i"
  have "r \<in> set (ax_roles d)" using assms(2) by (simp add: role_fixed_def)
  then have "sql_get ro_id i (ax_roles d) = Some r"
    using sql_get_in_set [of ro_id "ax_roles d" r] assms(1) \<open>ro_id r = i\<close> by (simp add: ok_defs)
  then show False using assms(3-5) by simp
qed

lemma update_role_fixed:
  assumes "access_ok d" and "role_fixed r d0 d" and "ro_is_system_role r" and "update_role i u d = (d', Inr x)"
  shows "role_fixed r d0 d'"
proof -
  obtain s ls where s: "sql_get ro_id i (ax_roles d) = Some s" "\<not> ro_is_system_role s" "ro_id x = ro_id s"
    and ls: "(case rp_permission_ids u of None \<Rightarrow> Inr (ax_role_permissions d)
                  | Some ids \<Rightarrow> relink i ids (ax_role_permissions d)) = Inr ls"
    and d': "d' = d\<lparr>ax_roles := save_row ro_id x (ax_roles d), ax_role_permissions := ls\<rparr>"
    using assms(4) by (cases "sql_get ro_id i (ax_roles d)") (auto simp: update_role_def Let_def split: if_splits sum.splits)
  have i: "ro_id r \<noteq> i" by (rule other_role [OF assms(1-3) s(1,2)])
  have "linked (ro_id r) ls = linked (ro_id r) (ax_role_permissions d)"
    using ls i by (auto simp: linked_relink split: option.splits)
  moreover have "r \<in> set (save_row ro_id x (ax_roles d))"
    using assms(2) i s sql_get_SomeD [OF s(1)] by (force simp: role_fixed_def save_row_def)
  ultimately show ?thesis using assms(2) by (simp add: d' role_fixed_def)
qed

lemma delete_role_fixed:
  assumes "access_ok d" and "role_fixed r d0 d" and "ro_is_system_role r" and "delete_role i d = (d', Inr x)"
  shows "role_fixed r d0 d'"
proof -
  obtain s where s: "sql_get ro_id i (ax_roles d) = Some s" "\<not> ro_is_system_role s"
    and d': "ax_roles d' = filter (\<lambda>s. ro_id s \<noteq> i) (ax_roles d)" "ax_permissions d' = ax_permissions d"
      "ax_role_permissions d' = filter (\<lambda>l. fst l \<noteq> i) (ax_role_permissions d)"
    using assms(4) by (auto simp: delete_role_def split: option.splits if_splits)
  have "ro_id r \<noteq> i" by (rule other_role [OF assms(1-3) s])
  then show ?thesis using assms(2) by (simp add: d' role_fixed_def linked_unlinked)
qed

lemma perform_fixed:
  assumes "access_ok d" and "role_fixed r d0 d" and "ro_is_system_role r" and "perform env fromiso q u d = (d', Inr x)"
  shows "role_fixed r d0 d'"
proof (cases q)
  case (CreateRole uuid c)
  then show ?thesis using assms(4) create_role_fixed [OF assms(2)] by (auto simp: done_with_Inr)
next
  case (UpdateRole i u)
  then show ?thesis using assms(4) update_role_fixed [OF assms(1-3)] by (auto simp: done_with_Inr)
next
  case (DeleteRole i)
  then show ?thesis using assms(4) delete_role_fixed [OF assms(1-3)] by simp
next
  case (UpdateServiceAccount i c)
  then show ?thesis using assms(2,4) by (auto simp: done_with_Inr role_fixed_def dest!: update_service_account_InrD)
next
  case (CreateApiKey uuid salt key_id secret i c)
  then obtain full where "create_api_key env fromiso uuid salt key_id secret i c u d = (d', Inr full)"
    using assms(4) by (auto simp: done_with_Inr)
  from create_api_key_InrD [OF this] obtain k where "d' = d\<lparr>ax_api_keys := ax_api_keys d @ [k]\<rparr>" by blast
  then show ?thesis using assms(2) by (simp add: role_fixed_def)
next
  case (Assign a i xs)
  then show ?thesis using assms(2,4) by (cases a) (auto simp: role_fixed_def assign_def split: if_splits sum.splits)
qed (use assms(2,4) in \<open>auto simp: done_with_Inr role_fixed_def create_service_account_def delete_service_account_def
      revoke_api_key_def create_user_group_def update_user_group_def delete_user_group_def assign_members_def Let_def
      split: if_splits option.splits sum.splits\<close>)

lemma dispatch_frame:
  "ax_roles (fst (dispatch env h d)) = ax_roles d \<and> ax_permissions (fst (dispatch env h d)) = ax_permissions d
   \<and> ax_role_permissions (fst (dispatch env h d)) = ax_role_permissions d \<and> ax_acc (fst (dispatch env h d)) = ax_acc d"
  by (rule dispatch_cases [of env h d]) (simp_all add: mark_used_def)

lemma access_route_fixed:
  assumes "access_ok d" and "role_fixed r d0 d" and "ro_is_system_role r" and "access_route env fromiso q d = Inr d'"
  shows "role_fixed r d0 d'"
proof -
  have d': "d' = fst (access_request env fromiso q d)" using assms(4) by (simp add: access_route_def)
  have fixed: "role_fixed r d0 (fst (dispatch env (fst q) d))"
    using assms(2) dispatch_frame [of env "fst q" d] by (simp add: role_fixed_def)
  show ?thesis
  proof (rule access_request_cases [of env fromiso q d])
    assume "fst (access_request env fromiso q d) = fst (dispatch env (fst q) d)"
    then show ?thesis using fixed d' by simp
  next
    fix u x
    assume "perform env fromiso (snd q) u (fst (dispatch env (fst q) d)) = (fst (access_request env fromiso q d), Inr x)"
    then show ?thesis using perform_fixed [OF dispatch_ok [OF assms(1)] fixed assms(3)] d' by blast
  qed
qed

lemma role_permissions_linked:
  "role_permissions i d = filter (\<lambda>p. pe_id p \<in> set (linked i (ax_role_permissions d))) (ax_permissions d)"
  unfolding role_permissions_def by (rule filter_cong) (force simp: linked_def)+






section \<open>Properties\<close>

text \<open>C25: A created API key authenticates its service account until the key or the account expires
  or the account is disabled, no other secret with its prefix does, and after its revocation the
  key is unknown.\<close>

theorem api_key_lifecycle:
  assumes "access_ok d" and "create_api_key env fromiso uuid salt key_id secret i r u d = (d', Inr full)"
    and "checkpw env secret (hashpw env salt secret)" and "CHR ''_'' \<notin> set key_id" and "CHR ''_'' \<notin> set secret"
    and "parse_expires fromiso (kc_expires_at r) = Inr expires" and "get_account i d = Some acc"
  shows "snd (authenticate_api_key env t ip full d') =
      (if passed t expires then Inl ''API key has expired''
       else if \<not> us_is_active acc then Inl ''Service account is disabled''
       else if passed t (us_expires_at acc) then Inl ''Service account has expired'' else Inr acc)
    \<and> (\<forall>other. CHR ''_'' \<notin> set other \<and> \<not> checkpw env other (hashpw env salt secret) \<longrightarrow>
         (\<exists>e. snd (authenticate_api_key env t ip (''pb_live_'' @ key_id @ ''_'' @ other) d') = Inl e))
    \<and> snd (authenticate_api_key env t ip full (fst (revoke_api_key i uuid d'))) = Inl ''API key not found''"
proof -
  define k where "k = last (ax_api_keys d')"
  from create_api_key_InrD [OF assms(2)]
  have k: "ak_expires_at k = expires" "ak_id k = uuid" "ak_service_account_id k = i" "ak_key_prefix k = ''pb_live_'' @ key_id"
      "ak_is_active k" "ak_key_hash k = hashpw env salt secret"
    and fresh: "''pb_live_'' @ key_id \<notin> ak_key_prefix ` set (ax_api_keys d)"
    and d': "d' = d\<lparr>ax_api_keys := ax_api_keys d @ [k]\<rparr>" and full: "full = ''pb_live_'' @ key_id @ ''_'' @ secret"
    using assms(6,7) unfolding k_def by auto
  have get: "sql_get ak_key_prefix (''pb_live_'' @ key_id) (ax_api_keys d') = Some k"
    using fresh k(4) by (simp add: d' sql_get_append)
  have acc: "sql_get us_id i (ac_users (ax_acc d')) = Some acc" using get_account_SomeD [OF assms(7)] by (simp add: d')
  have kin: "k \<in> set (ax_api_keys d')" by (simp add: d')
  have ok: "access_ok d'" by (rule create_api_key_ok [OF assms(1,2)])
  have p: "parse_api_key full = Some (''pb_live_'' @ key_id, secret)" "verify_api_key env full (ak_key_hash k)"
    unfolding full parse_generated [OF assms(4,5)] k(6) using assms(3) by simp_all
  have "snd (authenticate_api_key env t ip full d') =
      (if passed t expires then Inl ''API key has expired''
       else if \<not> us_is_active acc then Inl ''Service account is disabled''
       else if passed t (us_expires_at acc) then Inl ''Service account has expired'' else Inr acc)"
    using authenticate_stored [OF p(1) get k(5) p(2), of acc t ip] acc k(1,3) by simp
  moreover have "\<exists>e. snd (authenticate_api_key env t ip (''pb_live_'' @ key_id @ ''_'' @ other) d') = Inl e"
    if "CHR ''_'' \<notin> set other" "\<not> checkpw env other (hashpw env salt secret)" for other
    unfolding authenticate_api_key_def parse_generated [OF assms(4) that(1)] using get k(6) that(2) by simp
  moreover have "snd (authenticate_api_key env t ip full (fst (revoke_api_key i uuid d'))) = Inl ''API key not found''"
    using revoked_key_unknown [OF ok kin _ k(3)] p(1) k(2,4) by metis
  ultimately show ?thesis by blast
qed

text \<open>C26: No sequence of requests changes a system role or the permissions it carries.\<close>

theorem system_roles_immutable:
  assumes "access_ok d" and "r \<in> set (ax_roles d)" and "ro_is_system_role r"
  shows "r \<in> set (ax_roles (serve (access_route env fromiso) qs d))
    \<and> role_permissions (ro_id r) (serve (access_route env fromiso) qs d) = role_permissions (ro_id r) d"
proof -
  have "role_fixed r d d" using assms(2) by (simp add: role_fixed_def)
  then have "role_fixed r d (serve (access_route env fromiso) qs d)"
    by (rule access_api.serve_preserves [where P = "role_fixed r d", OF assms(1)]) (rule access_route_fixed [OF _ _ assms(3)])
  then show ?thesis by (simp add: role_fixed_def role_permissions_linked)
qed


text \<open>A state with one administrator and one operator whose custom role may create users.\<close>

definition demo_admin :: role where
  "demo_admin = \<lparr>ro_id = ''a'', ro_name = ''admin'', ro_description = None, ro_is_system_role = True\<rparr>"

definition demo_access :: access where
  "demo_access = \<lparr>ax_acc = \<lparr>ac_users = [new_user ''1'' ''root'' None ''$2secret'' ''admin'',
        (new_user ''2'' ''helpdesk'' None ''$2help'' ''operator'')\<lparr>us_role_id := Some ''h''\<rparr>,
        (new_user ''3'' ''ci'' None ''$2x'' ''viewer'')\<lparr>us_is_service_account := True\<rparr>],
      ac_tokens = [], ac_audit = [], ac_user_groups = [], ac_members = []\<rparr>,
     ax_roles = [demo_admin,
       \<lparr>ro_id = ''h'', ro_name = ''helpdesk'', ro_description = None, ro_is_system_role = False\<rparr>],
     ax_permissions = [\<lparr>pe_id = ''uc'', pe_resource = ''user'', pe_action = ''create'', pe_description = None\<rparr>],
     ax_role_permissions = [(''a'', ''uc''), (''h'', ''uc'')], ax_api_keys = [], ax_group_roles = [],
     ax_group_device_groups = [], ax_group_tags = [], ax_group_nodes = [], ax_escalation_roles = []\<rparr>"

lemma demo_access_ok: "access_ok demo_access"
  by (simp add: ok_defs demo_access_def demo_admin_def new_user_def keys_unique_def)

theorem api_key_lifecycle_witness:
  "snd (authenticate_api_key demo_env 5 ''ip'' ''pb_live_ab_cd''
     (fst (create_api_key demo_env (\<lambda>_. None) ''k'' ''s'' ''ab'' ''cd'' ''3'' \<lparr>kc_name = ''key'', kc_expires_at = None\<rparr>
        (new_user ''1'' ''root'' None ''$2secret'' ''admin'') demo_access)))
   = Inr ((new_user ''3'' ''ci'' None ''$2x'' ''viewer'')\<lparr>us_is_service_account := True\<rparr>)"
  using api_key_lifecycle [OF demo_access_ok, where env = demo_env and fromiso = "\<lambda>_. None" and uuid = "''k''" and salt = "''s''"
      and key_id = "''ab''" and secret = "''cd''" and i = "''3''" and r = "\<lparr>kc_name = ''key'', kc_expires_at = None\<rparr>"
      and u = "new_user ''1'' ''root'' None ''$2secret'' ''admin''" and full = "''pb_live_ab_cd''" and expires = None
      and acc = "(new_user ''3'' ''ci'' None ''$2x'' ''viewer'')\<lparr>us_is_service_account := True\<rparr>" and t = 5 and ip = "''ip''"
      and d' = "fst (create_api_key demo_env (\<lambda>_. None) ''k'' ''s'' ''ab'' ''cd'' ''3'' \<lparr>kc_name = ''key'', kc_expires_at = None\<rparr>
        (new_user ''1'' ''root'' None ''$2secret'' ''admin'') demo_access)"]
  by (simp add: create_api_key_def generate_api_key_def get_account_def parse_expires_def passed_def keys_of_def sql_get_def
      sql_insert_def demo_access_def demo_env_def new_user_def)

theorem system_roles_immutable_witness:
  "demo_admin \<in> set (ax_roles (serve (access_route demo_env (\<lambda>_. None))
       [(\<lparr>ht_now = 1, ht_path = ''/api/v1/roles/a'', ht_header = Some ''Bearer 1'', ht_client_ip = ''ip''\<rparr>, DeleteRole ''a'')] demo_access))
   \<and> role_permissions (ro_id demo_admin) (serve (access_route demo_env (\<lambda>_. None))
       [(\<lparr>ht_now = 1, ht_path = ''/api/v1/roles/a'', ht_header = Some ''Bearer 1'', ht_client_ip = ''ip''\<rparr>, DeleteRole ''a'')] demo_access)
     = role_permissions (ro_id demo_admin) demo_access"
  by (rule system_roles_immutable [OF demo_access_ok]) (simp_all add: demo_access_def demo_admin_def)





text \<open>
  The middleware leaves the endpoints of site agents protected, although the agent sends no
  credentials, and lets every path through that ends like a picture or a script.
\<close>

lemma agent_endpoints_protected:
  "\<not> is_public_path ''/api/v1/agents/register'' \<and> \<not> is_public_path ''/api/v1/agents/heartbeat'' \<and> \<not> is_public_path ''/api/v1/nodes/register''"
  by code_simp

lemma picture_paths_public: "is_public_path (path @ ''.png'')"
  by (auto simp: is_public_path_def PUBLIC_EXTENSIONS_def endswith_iff)

end
