(* ===== verification/ContentCache.thy ===== *)
theory ContentCache
  imports PiManager Tables
begin

text \<open>
  The content cache of a site agent, src/src/agent/cache/content_cache.py: files on disk with
  metadata, a policy of what to cache and an eviction by priority and age.

  An \<open>asyncio.Lock\<close> is not reentrant: a task that acquires a lock it holds waits for itself. The
  lock is part of the state, and an operation that waits for it forever has the value \<open>None\<close>; the
  operations are those of one task, which starts with the lock free. Otherwise the outcome is the
  new state with the exception or the result. Contents are lists of bytes, as characters. The
  metadata file is kept as the list it encodes. \<open>usage_percent\<close> and \<open>get_disk_usage_percent\<close> are
  left out.
\<close>

section \<open>Patterns\<close>

text \<open>\<open>fnmatch.fnmatch\<close> on POSIX: \<open>*\<close>, \<open>?\<close> and character classes; a class that is not closed is literal.\<close>

datatype glob_item = Star | AnyChar | Lit char | Class bool string

definition class_split :: "string \<Rightarrow> (bool \<times> string \<times> string) option" where
  "class_split p =
     (let neg = startswith p ''!''; q = (if neg then tl p else p);
          br = startswith q '']''; r = (if br then tl q else q);
          body = takeWhile (\<lambda>c. c \<noteq> CHR '']'') r; rest = dropWhile (\<lambda>c. c \<noteq> CHR '']'') r
      in if rest = [] then None else Some (neg, (if br then '']'' @ body else body), tl rest))"

lemma class_split_length: "class_split p = Some (n, s, rest) \<Longrightarrow> length rest < length p"
proof -
  assume split: "class_split p = Some (n, s, rest)"
  define q where "q = (if startswith p ''!'' then tl p else p)"
  define r where "r = (if startswith q '']'' then tl q else q)"
  have "length r \<le> length p" by (simp add: q_def r_def)
  moreover have "rest = tl (dropWhile (\<lambda>c. c \<noteq> CHR '']'') r) \<and> dropWhile (\<lambda>c. c \<noteq> CHR '']'') r \<noteq> []"
    using split by (auto simp: class_split_def Let_def q_def r_def split: if_splits)
  moreover have "length (dropWhile (\<lambda>c. c \<noteq> CHR '']'') r) \<le> length r" by (rule length_dropWhile_le)
  ultimately show ?thesis by (cases "dropWhile (\<lambda>c. c \<noteq> CHR '']'') r") auto
qed

function glob_items :: "string \<Rightarrow> glob_item list" where
  "glob_items [] = []"
| "glob_items (c # p) =
     (if c = CHR ''*'' then Star # glob_items p
      else if c = CHR ''?'' then AnyChar # glob_items p
      else if c = CHR ''['' then
        (case class_split p of
           None \<Rightarrow> Lit c # glob_items p
         | Some (neg, stuff, rest) \<Rightarrow> Class neg stuff # glob_items rest)
      else Lit c # glob_items p)"
  by pat_completeness auto

termination by (relation "measure length") (auto dest!: sym [THEN class_split_length] class_split_length)

fun class_mem :: "char \<Rightarrow> string \<Rightarrow> bool" where
  "class_mem c [] = False"
| "class_mem c [a] = (a = c)"
| "class_mem c [a, b] = (a = c \<or> b = c)"
| "class_mem c (a # b # d # r) =
     (if b = CHR ''-'' then (of_char a \<le> (of_char c :: nat) \<and> of_char c \<le> (of_char d :: nat)) \<or> class_mem c r
      else a = c \<or> class_mem c (b # d # r))"

fun glob_match :: "glob_item list \<Rightarrow> string \<Rightarrow> bool" where
  "glob_match [] s = (s = [])"
| "glob_match (Star # ps) [] = glob_match ps []"
| "glob_match (Star # ps) (c # s) = (glob_match ps (c # s) \<or> glob_match (Star # ps) s)"
| "glob_match (p # ps) [] = False"
| "glob_match (AnyChar # ps) (c # s) = glob_match ps s"
| "glob_match (Lit a # ps) (c # s) = (a = c \<and> glob_match ps s)"
| "glob_match (Class neg stuff # ps) (c # s) = ((class_mem c stuff \<noteq> neg) \<and> glob_match ps s)"

definition fnmatch :: "string \<Rightarrow> string \<Rightarrow> bool" where
  "fnmatch name pat = glob_match (glob_items pat) name"

section \<open>State\<close>

record cache_category =
  ct_always_cache :: bool
  ct_max_age_days :: "int option"
  ct_priority :: int

definition DEFAULT_CATEGORIES :: "(string \<times> cache_category) list" where
  "DEFAULT_CATEGORIES =
     [(''bootloaders'', \<lparr>ct_always_cache = True, ct_max_age_days = None, ct_priority = 100\<rparr>),
      (''scripts'', \<lparr>ct_always_cache = False, ct_max_age_days = Some 1, ct_priority = 10\<rparr>),
      (''templates'', \<lparr>ct_always_cache = False, ct_max_age_days = Some 7, ct_priority = 50\<rparr>),
      (''images'', \<lparr>ct_always_cache = False, ct_max_age_days = Some 30, ct_priority = 30\<rparr>)]"

record cache_entry =
  ce_path :: string
  ce_category :: string
  ce_size_bytes :: int
  ce_cached_at :: datetime
  ce_last_accessed :: datetime
  ce_expires_at :: "datetime option"

type_synonym metadata = "(string \<times> cache_entry) list"

record content_cache =
  cc_dir :: path
  cc_max_size_bytes :: int
  cc_policy :: string
  cc_patterns :: "string list"
  cc_locked :: bool
  cc_metadata :: metadata
  cc_saved :: metadata
  cc_files :: files

datatype cache_error = PolicyForbids | CacheOSError | EmptyName

type_synonym 'a cache_run = "(content_cache \<times> (cache_error + 'a)) option"

definition init_cache :: "path \<Rightarrow> int \<Rightarrow> string \<Rightarrow> string list \<Rightarrow> metadata \<Rightarrow> files \<Rightarrow> content_cache" where
  "init_cache dir max_size_gb policy patterns saved fs =
     \<lparr>cc_dir = dir, cc_max_size_bytes = max_size_gb * 1024 * 1024 * 1024, cc_policy = policy, cc_patterns = patterns,
      cc_locked = False, cc_metadata = [], cc_saved = saved, cc_files = fs\<rparr>"

fun make_categories :: "path \<Rightarrow> string list \<Rightarrow> files \<Rightarrow> cache_error + files" where
  "make_categories dir [] fs = Inr fs"
| "make_categories dir (n # ns) fs =
     (case mkdirs [] (dir @ [n]) fs of Inl _ \<Rightarrow> Inl CacheOSError | Inr fs' \<Rightarrow> make_categories dir ns fs')"

definition load_metadata :: "content_cache \<Rightarrow> content_cache" where
  "load_metadata c = c\<lparr>cc_metadata := cc_saved c\<rparr>"

definition save_metadata :: "content_cache \<Rightarrow> content_cache" where
  "save_metadata c = c\<lparr>cc_saved := cc_metadata c\<rparr>"

definition initialize_cache :: "content_cache \<Rightarrow> content_cache \<times> (cache_error + unit)" where
  "initialize_cache c =
     (case make_categories (cc_dir c) (map fst DEFAULT_CATEGORIES) (cc_files c) of
        Inl e \<Rightarrow> (c, Inl e)
      | Inr fs \<Rightarrow> (load_metadata (c\<lparr>cc_files := fs\<rparr>), Inr ()))"

section \<open>Paths\<close>

definition get_cache_key :: "string \<Rightarrow> string \<Rightarrow> string" where
  "get_cache_key category path = category @ ''/'' @ path"

text \<open>\<open>s.replace('..', '')\<close>\<close>

fun remove_dots :: "string \<Rightarrow> string" where
  "remove_dots (a # b # s) = (if a = CHR ''.'' \<and> b = CHR ''.'' then remove_dots s else a # remove_dots (b # s))"
| "remove_dots s = s"

definition safe_path :: "string \<Rightarrow> string" where
  "safe_path path = remove_dots (lstrip_slash path)"

definition get_file_path :: "path \<Rightarrow> string \<Rightarrow> string \<Rightarrow> path" where
  "get_file_path dir category path = resolve_join (resolve_join dir category) (safe_path path)"

text \<open>\<open>file_path.with_suffix('.tmp')\<close>\<close>

definition tmp_name :: "string \<Rightarrow> string" where
  "tmp_name name =
     (let ext = takeWhile (\<lambda>c. c \<noteq> CHR ''.'') (rev name); stem = rev (tl (dropWhile (\<lambda>c. c \<noteq> CHR ''.'') (rev name)))
      in if CHR ''.'' \<in> set name \<and> ext \<noteq> [] \<and> stem \<noteq> [] then stem @ ''.tmp'' else name @ ''.tmp'')"

section \<open>Files\<close>

definition unlink_file :: "path \<Rightarrow> files \<Rightarrow> cache_error + files \<times> bool" where
  "unlink_file p fs =
     (if \<not> path_exists fs p then Inr (fs, False)
      else if fs p = Some Dir then Inl CacheOSError else Inr (fs(p := None), True))"

text \<open>The temporary file is written next to the target and renamed onto it.\<close>

definition write_file :: "path \<Rightarrow> string \<Rightarrow> files \<Rightarrow> cache_error + files" where
  "write_file p content fs =
     (case mkdirs [] (butlast p) fs of
        Inl _ \<Rightarrow> Inl CacheOSError
      | Inr fs1 \<Rightarrow>
          if p = [] then Inl EmptyName
          else let tmp = butlast p @ [tmp_name (last p)] in
            case write_text tmp content fs1 of
              Inl _ \<Rightarrow> Inl CacheOSError
            | Inr fs2 \<Rightarrow> if fs2 p = Some Dir then Inl CacheOSError else Inr ((fs2(tmp := None))(p := fs2 tmp)))"

section \<open>Operations\<close>

definition should_cache :: "content_cache \<Rightarrow> string \<Rightarrow> string \<Rightarrow> bool" where
  "should_cache c category path =
     (if (case map_of DEFAULT_CATEGORIES category of None \<Rightarrow> False | Some cat \<Rightarrow> ct_always_cache cat) then True
      else if cc_policy c = ''minimal'' then False
      else if cc_policy c = ''assigned'' then True
      else if cc_policy c = ''mirror'' then True
      else if cc_policy c = ''pattern'' then list_ex (fnmatch (category @ ''/'' @ path)) (cc_patterns c)
      else False)"

definition evict :: "string \<Rightarrow> string \<Rightarrow> content_cache \<Rightarrow> bool cache_run" where
  "evict category path c =
     (if cc_locked c then None
      else let key = get_cache_key category path in
        case unlink_file (get_file_path (cc_dir c) category path) (cc_files c) of
          Inl e \<Rightarrow> Some (c, Inl e)
        | Inr (fs, deleted) \<Rightarrow>
            let c = c\<lparr>cc_files := fs\<rparr>;
                c = (if map_of (cc_metadata c) key \<noteq> None then save_metadata (c\<lparr>cc_metadata := dict_del key (cc_metadata c)\<rparr>) else c)
            in Some (c, Inr deleted))"

definition entry_expired :: "datetime \<Rightarrow> cache_entry \<Rightarrow> bool" where
  "entry_expired now e = (case ce_expires_at e of None \<Rightarrow> False | Some t \<Rightarrow> now > t)"

definition cache_get :: "datetime \<Rightarrow> string \<Rightarrow> string \<Rightarrow> content_cache \<Rightarrow> path option cache_run" where
  "cache_get now category path c =
     (let key = get_cache_key category path; file_path = get_file_path (cc_dir c) category path in
      if \<not> path_exists (cc_files c) file_path
      then Some (c\<lparr>cc_metadata := dict_del key (cc_metadata c)\<rparr>, Inr None)
      else case map_of (cc_metadata c) key of
        None \<Rightarrow> Some (c, Inr (Some file_path))
      | Some e \<Rightarrow>
          if entry_expired now e
          then (case evict category path c of
                  None \<Rightarrow> None
                | Some (c', Inl err) \<Rightarrow> Some (c', Inl err)
                | Some (c', Inr _) \<Rightarrow> Some (c', Inr None))
          else Some (save_metadata (c\<lparr>cc_metadata := dict_put key (e\<lparr>ce_last_accessed := now\<rparr>) (cc_metadata c)\<rparr>),
                     Inr (Some file_path)))"

definition get_total_size :: "content_cache \<Rightarrow> int" where
  "get_total_size c = sum_list (map (\<lambda>(k, e). ce_size_bytes e) (cc_metadata c))"

definition priority_of :: "cache_entry \<Rightarrow> int" where
  "priority_of e = (case map_of DEFAULT_CATEGORIES (ce_category e) of None \<Rightarrow> 0 | Some cat \<Rightarrow> ct_priority cat)"

definition always_cached :: "cache_entry \<Rightarrow> bool" where
  "always_cached e = (case map_of DEFAULT_CATEGORIES (ce_category e) of None \<Rightarrow> False | Some cat \<Rightarrow> ct_always_cache cat)"

definition evicted_before :: "cache_entry \<Rightarrow> cache_entry \<Rightarrow> bool" where
  "evicted_before d e \<longleftrightarrow> priority_of d < priority_of e \<or> priority_of d = priority_of e \<and> ce_last_accessed d \<le> ce_last_accessed e"

fun evict_until :: "int \<Rightarrow> int \<Rightarrow> cache_entry list \<Rightarrow> content_cache \<Rightarrow> unit cache_run" where
  "evict_until target current [] c = Some (c, Inr ())"
| "evict_until target current (e # es) c =
     (if \<not> current > target then Some (c, Inr ())
      else if always_cached e then evict_until target current es c
      else case evict (ce_category e) (ce_path e) c of
        None \<Rightarrow> None
      | Some (c', Inl err) \<Rightarrow> Some (c', Inl err)
      | Some (c', Inr _) \<Rightarrow> evict_until target (current - ce_size_bytes e) es c')"

definition ensure_space :: "int \<Rightarrow> content_cache \<Rightarrow> unit cache_run" where
  "ensure_space needed_bytes c =
     (if get_total_size c + needed_bytes \<le> cc_max_size_bytes c then Some (c, Inr ())
      else evict_until (cc_max_size_bytes c - needed_bytes) (get_total_size c)
             (order_by evicted_before (map snd (cc_metadata c))) c)"

text \<open>A \<open>timedelta\<close> of zero is false.\<close>

definition expiry :: "datetime \<Rightarrow> string \<Rightarrow> int option \<Rightarrow> datetime option" where
  "expiry now category expires_in =
     (case expires_in of
        Some d \<Rightarrow> if d \<noteq> 0 then Some (now + d) else
          (case map_of DEFAULT_CATEGORIES category of None \<Rightarrow> None
           | Some cat \<Rightarrow> (case ct_max_age_days cat of None \<Rightarrow> None | Some n \<Rightarrow> if n \<noteq> 0 then Some (now + hours (24 * n)) else None))
      | None \<Rightarrow>
          (case map_of DEFAULT_CATEGORIES category of None \<Rightarrow> None
           | Some cat \<Rightarrow> (case ct_max_age_days cat of None \<Rightarrow> None | Some n \<Rightarrow> if n \<noteq> 0 then Some (now + hours (24 * n)) else None)))"

definition cache_put :: "datetime \<Rightarrow> string \<Rightarrow> string \<Rightarrow> string \<Rightarrow> int option \<Rightarrow> content_cache \<Rightarrow> path cache_run" where
  "cache_put now category path content expires_in c =
     (if cc_locked c then None
      else if \<not> should_cache c category path then Some (c, Inl PolicyForbids)
      else case ensure_space (int (length content)) (c\<lparr>cc_locked := True\<rparr>) of
        None \<Rightarrow> None
      | Some (c1, Inl e) \<Rightarrow> Some (c1\<lparr>cc_locked := False\<rparr>, Inl e)
      | Some (c1, Inr _) \<Rightarrow>
          let file_path = get_file_path (cc_dir c1) category path in
          case write_file file_path content (cc_files c1) of
            Inl e \<Rightarrow> Some (c1\<lparr>cc_locked := False\<rparr>, Inl e)
          | Inr fs \<Rightarrow>
              let entry = \<lparr>ce_path = path, ce_category = category, ce_size_bytes = int (length content), ce_cached_at = now,
                           ce_last_accessed = now, ce_expires_at = expiry now category expires_in\<rparr>
              in Some (save_metadata (c1\<lparr>cc_locked := False, cc_files := fs,
                         cc_metadata := dict_put (get_cache_key category path) entry (cc_metadata c1)\<rparr>), Inr file_path))"

fun evict_all :: "(string \<times> string) list \<Rightarrow> content_cache \<Rightarrow> nat cache_run" where
  "evict_all [] c = Some (c, Inr 0)"
| "evict_all ((category, path) # es) c =
     (case evict category path c of
        None \<Rightarrow> None
      | Some (c', Inl e) \<Rightarrow> Some (c', Inl e)
      | Some (c', Inr b) \<Rightarrow>
          (case evict_all es c' of
             None \<Rightarrow> None
           | Some (c2, Inl e) \<Rightarrow> Some (c2, Inl e)
           | Some (c2, Inr n) \<Rightarrow> Some (c2, Inr (if b then n + 1 else n))))"

definition evict_expired :: "datetime \<Rightarrow> content_cache \<Rightarrow> nat cache_run" where
  "evict_expired now c =
     evict_all (map (\<lambda>(k, e). (ce_category e, ce_path e)) (filter (\<lambda>(k, e). entry_expired now e) (cc_metadata c))) c"

definition content_clear :: "string option \<Rightarrow> content_cache \<Rightarrow> nat cache_run" where
  "content_clear category c =
     evict_all (map (\<lambda>(k, e). (ce_category e, ce_path e))
       (filter (\<lambda>(k, e). truthy category \<longrightarrow> Some (ce_category e) = category) (cc_metadata c))) c"

definition list_entries :: "string option \<Rightarrow> content_cache \<Rightarrow> cache_entry list" where
  "list_entries category c =
     order_by (\<lambda>d e. ce_cached_at e \<le> ce_cached_at d)
       (filter (\<lambda>e. truthy category \<longrightarrow> Some (ce_category e) = category) (map snd (cc_metadata c)))"

text \<open>Per category the number of entries and their size, in the order of first appearance.\<close>

definition add_stat :: "cache_entry \<Rightarrow> (string \<times> nat \<times> int) list \<Rightarrow> (string \<times> nat \<times> int) list" where
  "add_stat e cats =
     (let (n, sz) = (case map_of cats (ce_category e) of None \<Rightarrow> (0, 0) | Some v \<Rightarrow> v)
      in dict_put (ce_category e) (n + 1, sz + ce_size_bytes e) cats)"

definition content_stats :: "content_cache \<Rightarrow> int \<times> int \<times> nat \<times> (string \<times> nat \<times> int) list" where
  "content_stats c =
     (get_total_size c, cc_max_size_bytes c, length (cc_metadata c), fold add_stat (map snd (cc_metadata c)) [])"

section \<open>Where a name leads\<close>

lemma hd_remove_dots: "s \<noteq> [] \<Longrightarrow> hd s \<noteq> CHR ''.'' \<Longrightarrow> remove_dots s \<noteq> [] \<and> hd (remove_dots s) = hd s"
  by (cases s rule: remove_dots.cases) auto

lemma remove_dots_no_dots: "\<not> contains ''..'' (remove_dots s)"
proof (induction s rule: remove_dots.induct)
  case (1 a b s)
  show ?case
  proof (cases "a = CHR ''.''")
    case True
    then show ?thesis
    proof (cases "b = CHR ''.''")
      case False
      then have "remove_dots (b # s) \<noteq> []" "hd (remove_dots (b # s)) = b" using hd_remove_dots [of "b # s"] by auto
      then show ?thesis using 1(2) False by (cases "remove_dots (b # s)") (auto simp: startswith_def)
    qed (use 1 in simp)
  next
    case False
    then show ?thesis using 1(2) by (cases "remove_dots (b # s)") (auto simp: startswith_def)
  qed
qed (auto simp: startswith_def)

lemma remove_dots_id: "\<not> contains ''..'' s \<Longrightarrow> remove_dots s = s"
  by (induction s rule: remove_dots.induct) (auto simp: startswith_def)

lemma split_on_substring: "c \<in> set (split_on sep s) \<Longrightarrow> \<exists>a b. s = a @ c @ b"
proof (induction s arbitrary: c)
  case (Cons x s)
  obtain h t where ht: "split_on sep s = h # t" by (cases "split_on sep s") auto
  obtain b where "s = h @ b"
  proof -
    have "\<exists>b. s = hd (split_on sep s) @ b" by (induction s) (auto split: list.splits)
    then show ?thesis using that ht by auto
  qed
  show ?case
  proof (cases "x = sep")
    case True
    then have "c = [] \<or> c \<in> set (split_on sep s)" using Cons.prems by simp
    then show ?thesis
    proof
      assume "c \<in> set (split_on sep s)"
      then obtain a' b' where "s = a' @ c @ b'" using Cons.IH [of c] by blast
      then show ?thesis by (intro exI [of _ "x # a'"] exI [of _ b']) simp
    qed (intro exI [of _ "[]"] exI [of _ "x # s"], simp)
  next
    case False
    then have "c = x # h \<or> c \<in> set t" using Cons.prems by (simp add: ht)
    then show ?thesis
    proof
      assume "c = x # h"
      then show ?thesis using \<open>s = h @ b\<close> by (intro exI [of _ "[]"] exI [of _ b]) simp
    next
      assume "c \<in> set t"
      then obtain a' b' where "s = a' @ c @ b'" using Cons.IH [of c] by (auto simp: ht)
      then show ?thesis by (intro exI [of _ "x # a'"] exI [of _ b']) simp
    qed
  qed
qed simp

lemma resolve_no_dots:
  assumes "\<not> contains ''..'' s"
  shows "\<exists>rest. resolve base s = base @ rest"
proof -
  have "fold (\<lambda>c acc. if c = ''..'' then butlast acc else acc @ [c]) cs b = b @ cs" if "''..'' \<notin> set cs" for cs b :: path
    using that by (induction cs arbitrary: b) auto
  moreover have "''..'' \<notin> set (split_on (CHR ''/'') s)" using assms split_on_substring contains_iff by metis
  ultimately show ?thesis by (simp add: resolve_def)
qed

lemma resolve_component: "component c \<Longrightarrow> resolve_join dir c = dir @ [c]"
proof -
  assume c: "component c"
  then have "split_on (CHR ''/'') c = [c]" "\<not> startswith c ''/''"
    by (auto simp: component_def split_on_single startswith_iff)
  then show "resolve_join dir c = dir @ [c]" using c by (simp add: resolve_join_def resolve_def component_def)
qed

lemma safe_path_parent: "safe_path (''../'' @ q) = CHR ''/'' # remove_dots q"
  by (cases q) (simp_all add: safe_path_def lstrip_slash_def)

section \<open>Space\<close>

lemma evict_until_locked:
  assumes "cc_locked c" and "current > target"
  shows "evict_until target current es c = (if list_all always_cached es then Some (c, Inr ()) else None)"
  using assms by (induction es) (auto simp: evict_def)

lemma list_all_order_by: "list_all p (order_by le xs) = list_all p xs"
  by (simp add: list_all_iff)

lemma ensure_space_locked:
  assumes "cc_locked c"
  shows "ensure_space n c =
    (if get_total_size c + n \<le> cc_max_size_bytes c \<or> list_all always_cached (map snd (cc_metadata c)) then Some (c, Inr ()) else None)"
  using evict_until_locked [OF assms] by (simp add: ensure_space_def list_all_order_by)

lemma evict_unlocked: "evict category path c = Some (c', r) \<Longrightarrow> \<not> cc_locked c'"
  by (auto simp: evict_def Let_def save_metadata_def split: if_splits sum.splits)

section \<open>Files that are written\<close>

definition no_links :: "files \<Rightarrow> bool" where
  "no_links fs \<longleftrightarrow> (\<forall>p t. fs p \<noteq> Some (Link t))"

lemma mkdirs_no_links: "mkdirs pre cs fs = Inr fs' \<Longrightarrow> no_links fs \<Longrightarrow> no_links fs'"
  by (induction pre cs fs rule: mkdirs.induct) (auto simp: no_links_def split: option.splits entry.splits if_splits)

lemma write_file_stores:
  assumes "write_file p content fs = Inr fs'" and "no_links fs"
  shows "fs' p = Some (File content)"
proof -
  obtain fs1 where fs1: "mkdirs [] (butlast p) fs = Inr fs1" using assms(1) by (auto simp: write_file_def split: sum.splits)
  have "no_links fs1" by (rule mkdirs_no_links [OF fs1 assms(2)])
  then have "write_text t content fs1 = Inr fs2 \<Longrightarrow> fs2 t = Some (File content)" for t fs2
    by (auto simp: write_text_def no_links_def split: option.splits entry.splits)
  then show ?thesis using assms(1) fs1 by (auto simp: write_file_def Let_def split: sum.splits if_splits)
qed

lemma cache_put_InrD:
  assumes "cache_put now category path content expires_in c = Some (c', Inr p)"
  shows "\<not> cc_locked c \<and> p = get_file_path (cc_dir c) category path
    \<and> (\<exists>fs. write_file p content (cc_files c) = Inr fs
       \<and> c' = save_metadata (c\<lparr>cc_locked := False, cc_files := fs,
            cc_metadata := dict_put (get_cache_key category path)
              \<lparr>ce_path = path, ce_category = category, ce_size_bytes = int (length content), ce_cached_at = now,
               ce_last_accessed = now, ce_expires_at = expiry now category expires_in\<rparr> (cc_metadata c)\<rparr>))"
  using assms by (auto simp: cache_put_def ensure_space_locked Let_def split: if_splits sum.splits)

section \<open>Properties\<close>

text \<open>Where a name leads: a name whose sanitised form is relative stays below the directory of its
  category; but a name that starts with \<open>../\<close> loses its dots after the leading slashes were
  removed, becomes absolute and replaces the cache directory.\<close>

theorem cache_path_escapes:
  assumes "component category"
  shows "(if startswith (safe_path path) ''/'' then get_file_path dir category path = resolve [] (safe_path path)
          else \<exists>rest. get_file_path dir category path = dir @ category # rest)
    \<and> get_file_path dir category (''../'' @ q) = resolve [] (''/'' @ remove_dots q)"
proof -
  have dir: "resolve_join dir category = dir @ [category]" by (rule resolve_component [OF assms])
  have "\<not> startswith (safe_path path) ''/'' \<Longrightarrow> \<exists>rest. get_file_path dir category path = dir @ category # rest"
    unfolding get_file_path_def dir
    using resolve_no_dots [OF remove_dots_no_dots, of "dir @ [category]" "lstrip_slash path"]
    by (auto simp: resolve_join_def safe_path_def)
  moreover have "startswith (safe_path path) ''/'' \<Longrightarrow> get_file_path dir category path = resolve [] (safe_path path)"
    by (simp add: get_file_path_def resolve_join_def)
  moreover have "get_file_path dir category (''../'' @ q) = resolve [] (''/'' @ remove_dots q)"
    unfolding get_file_path_def safe_path_parent by (simp add: resolve_join_def startswith_def)
  ultimately show ?thesis by simp
qed

theorem cache_path_escapes_witness:
  "get_file_path [''var'', ''cache''] ''images'' ''../etc/passwd'' = [''etc'', ''passwd'']"
proof -
  have "component ''images''" by (simp add: component_def)
  from cache_path_escapes [OF this, of _ "[''var'', ''cache'']" "''etc/passwd''"]
  have "get_file_path [''var'', ''cache''] ''images'' (''../'' @ ''etc/passwd'') = resolve [] (''/'' @ remove_dots ''etc/passwd'')" by blast
  then show ?thesis by (simp add: resolve_def)
qed

text \<open>C28: Storing content in a full cache never returns: with the lock free and the policy
  allowing the content, the operation waits for itself exactly if the content does not fit and
  some entry could be evicted. Making room is the only use of the order of eviction.\<close>

theorem put_hangs_when_full:
  assumes "\<not> cc_locked c" and "should_cache c category path"
  shows "cache_put now category path content expires_in c = None \<longleftrightarrow>
    get_total_size c + int (length content) > cc_max_size_bytes c \<and> (\<exists>(k, e) \<in> set (cc_metadata c). \<not> always_cached e)"
proof -
  have "cc_locked (c\<lparr>cc_locked := True\<rparr>)" by simp
  from ensure_space_locked [OF this, of "int (length content)"]
  have e: "ensure_space (int (length content)) (c\<lparr>cc_locked := True\<rparr>) =
    (if get_total_size c + int (length content) \<le> cc_max_size_bytes c \<or> list_all always_cached (map snd (cc_metadata c))
     then Some (c\<lparr>cc_locked := True\<rparr>, Inr ()) else None)"
    by (simp add: get_total_size_def)
  have "(\<exists>(k, e) \<in> set (cc_metadata c). \<not> always_cached e) \<longleftrightarrow> \<not> list_all always_cached (map snd (cc_metadata c))"
    by (force simp: list_all_iff)
  then show ?thesis using assms by (auto simp: cache_put_def e Let_def split: sum.splits)
qed

definition full_cache :: content_cache where
  "full_cache = (init_cache [''cache''] 0 ''mirror'' [] [] (\<lambda>p. None))
     \<lparr>cc_metadata := [(''images/a'', \<lparr>ce_path = ''a'', ce_category = ''images'', ce_size_bytes = 1, ce_cached_at = 0,
        ce_last_accessed = 0, ce_expires_at = None\<rparr>)]\<rparr>"

theorem put_hangs_when_full_witness: "cache_put 5 ''images'' ''b'' ''x'' None full_cache = None"
  using put_hangs_when_full [of full_cache "''images''" "''b''" 5 "''x''" None]
  by (simp add: full_cache_def init_cache_def should_cache_def get_total_size_def always_cached_def DEFAULT_CATEGORIES_def)

text \<open>C29: What is stored is found until it expires: a lookup after a successful store returns the
  file with the content, and from the expiry on the lookup returns nothing and the file is gone.\<close>

theorem put_get_roundtrip:
  assumes put: "cache_put now category path content expires_in c = Some (c', Inr p)" and "no_links (cc_files c)"
  shows "\<exists>c''. cache_get t category path c' =
      Some (c'', Inr (if (case expiry now category expires_in of None \<Rightarrow> False | Some x \<Rightarrow> t > x) then None else Some p))
    \<and> cc_files c'' p = (if (case expiry now category expires_in of None \<Rightarrow> False | Some x \<Rightarrow> t > x) then None else Some (File content))"
proof -
  let ?e = "\<lparr>ce_path = path, ce_category = category, ce_size_bytes = int (length content), ce_cached_at = now,
               ce_last_accessed = now, ce_expires_at = expiry now category expires_in\<rparr>"
  from cache_put_InrD [OF put] obtain fs where p: "p = get_file_path (cc_dir c) category path"
    and fs: "write_file p content (cc_files c) = Inr fs"
    and c': "c' = save_metadata (c\<lparr>cc_locked := False, cc_files := fs,
            cc_metadata := dict_put (get_cache_key category path) ?e (cc_metadata c)\<rparr>)" by blast
  have stored: "fs p = Some (File content)" by (rule write_file_stores [OF fs assms(2)])
  have fields: "cc_files c' = fs" "cc_dir c' = cc_dir c" "map_of (cc_metadata c') (get_cache_key category path) = Some ?e" "\<not> cc_locked c'"
    by (simp_all add: c' save_metadata_def)
  have ex: "path_exists fs p" using stored by (simp add: path_exists_def)
  show ?thesis
  proof (cases "entry_expired t ?e")
    case True
    then show ?thesis using stored ex fields p
      by (auto simp: cache_get_def evict_def unlink_file_def Let_def save_metadata_def entry_expired_def)
  next
    case False
    then show ?thesis using stored ex fields p by (simp add: cache_get_def Let_def save_metadata_def entry_expired_def)
  qed
qed

theorem put_get_roundtrip_witness:
  "\<exists>c' c''. cache_put 5 ''images'' ''b'' ''x'' None (init_cache [''cache''] 1 ''mirror'' [] [] (\<lambda>p. None)) = Some (c', Inr [''cache'', ''images'', ''b''])
     \<and> cache_get 6 ''images'' ''b'' c' = Some (c'', Inr (Some [''cache'', ''images'', ''b'']))
     \<and> cc_files c'' [''cache'', ''images'', ''b''] = Some (File ''x'')"
proof -
  let ?c = "init_cache [''cache''] 1 ''mirror'' [] [] (\<lambda>p. None)"
  obtain c' where c': "cache_put 5 ''images'' ''b'' ''x'' None ?c = Some (c', Inr [''cache'', ''images'', ''b''])"
    by (simp add: init_cache_def cache_put_def should_cache_def DEFAULT_CATEGORIES_def ensure_space_def get_total_size_def
        get_file_path_def resolve_join_def resolve_def safe_path_def lstrip_slash_def startswith_def write_file_def tmp_name_def
        write_text_def save_metadata_def Let_def)
  have "no_links (cc_files ?c)" by (simp add: init_cache_def no_links_def)
  from put_get_roundtrip [OF c' this, of 6] c' show ?thesis by (auto simp: expiry_def DEFAULT_CATEGORIES_def)
qed

end
