(* ===== verification/AgentBoot.thy ===== *)
theory AgentBoot
  imports ContentCache StateCache BootScripts
begin

text \<open>
  How a site agent boots machines: the scripts it generates without the controller
  (src/src/agent/offline_boot.py) and its boot service with the file cache and the metrics
  (src/src/agent/boot_service.py). The controller's replies are parameters. The figures of the disk
  usage and the health endpoint are left out.
\<close>

section \<open>Times\<close>

text \<open>\<open>strftime('%Y-%m-%d %H:%M:%S UTC')\<close>, with the civil date of a number of days.\<close>

definition pad2 :: "int \<Rightarrow> string" where
  "pad2 n = (if n < 10 then ''0'' @ show_int n else show_int n)"

definition civil :: "int \<Rightarrow> int \<times> int \<times> int" where
  "civil days =
     (let z = days + 719468; era = z div 146097; doe = z mod 146097;
          yoe = (doe - doe div 1460 + doe div 36524 - doe div 146096) div 365;
          doy = doe - (365 * yoe + yoe div 4 - yoe div 100);
          mp = (5 * doy + 2) div 153; d = doy - (153 * mp + 2) div 5 + 1;
          m = (if mp < 10 then mp + 3 else mp - 9); y = yoe + era * 400
      in (if m \<le> 2 then y + 1 else y, m, d))"

definition strftime :: "datetime \<Rightarrow> string" where
  "strftime t =
     (let secs = t div seconds 1; (y, m, d) = civil (secs div 86400); s = secs mod 86400
      in show_int y @ ''-'' @ pad2 m @ ''-'' @ pad2 d @ '' '' @ pad2 (s div 3600) @ '':'' @ pad2 (s mod 3600 div 60)
         @ '':'' @ pad2 (s mod 60) @ '' UTC'')"

section \<open>Offline scripts\<close>

record offline_generator =
  og_site_id :: string
  og_default_action :: string
  og_offline_since :: "datetime option"

definition set_offline_since :: "datetime option \<Rightarrow> offline_generator \<Rightarrow> offline_generator" where
  "set_offline_since since g = g\<lparr>og_offline_since := since\<rparr>"

definition script_header :: "offline_generator \<Rightarrow> string \<Rightarrow> string list" where
  "script_header g mac =
     [''#!ipxe'', ''# PureBoot Site Agent - OFFLINE MODE'', ''# MAC: '' @ mac, ''# Site: '' @ og_site_id g, [], ''echo'',
      ''echo *** PureBoot Site Agent - OFFLINE ***'', ''echo'', ''echo   Central controller is unreachable.'',
      ''echo   Operating from cached state.'', ''echo'']"

definition get_offline_info :: "datetime \<Rightarrow> offline_generator \<Rightarrow> string" where
  "get_offline_info now g =
     (case og_offline_since g of
        None \<Rightarrow> ''# Offline Duration: Unknown''
      | Some since \<Rightarrow>
          let duration = now - since in
          ''# Offline Since: '' @ strftime since @ '' ('' @ show_int (duration div hours 1) @ ''h ''
            @ show_int (duration mod hours 1 div seconds 60) @ ''m)'')"

definition cached_comment :: "datetime \<Rightarrow> offline_generator \<Rightarrow> cached_node \<Rightarrow> string \<Rightarrow> string list" where
  "cached_comment now g node suffix =
     [[], ''# Cached State: '' @ cn_state node @ suffix, ''# Cached At: '' @ strftime (cn_cached_at node), get_offline_info now g, []]"

definition local_end :: "string \<Rightarrow> string list" where
  "local_end delay = [''echo   Booting from local disk...'', ''echo'', [], ''sleep '' @ delay, ''sanboot --drive 0x80 || exit'']"

definition generate_cached_script :: "datetime \<Rightarrow> offline_generator \<Rightarrow> cached_node \<Rightarrow> string" where
  "generate_cached_script now g node =
     (let state = cn_state node; start = script_header g (cn_mac_address node) @ cached_comment now g node [] in
      if state = ''discovered'' \<or> state = ''pending'' then
        unlines (start @ [''echo   Node is in '' @ [CHR 0x27] @ state @ [CHR 0x27] @ '' state.'', ''echo   Cannot provision while offline.''] @ local_end ''5'')
      else if state = ''installing'' then
        unlines (start @ [''echo   *** WARNING ***'', ''echo   Node was in '' @ [CHR 0x27] @ state @ [CHR 0x27] @ '' state when offline began.'',
          ''echo   Cannot continue installation without central.'',
          ''echo   Booting from local disk (installation may be incomplete).'', ''echo'', [], ''sleep 10'', ''sanboot --drive 0x80 || exit''])
      else if state = ''installed'' \<or> state = ''active'' then
        unlines (start @ [''echo   Node is in '' @ [CHR 0x27] @ state @ [CHR 0x27] @ '' state.''] @ local_end ''3'')
      else if state = ''reprovision'' then
        unlines (start @ [''echo   Node is marked for reprovisioning.'', ''echo   Cannot reprovision while offline.''] @ local_end ''5'')
      else if state = ''retired'' then
        unlines (start @ [''echo   Node is retired.'', ''echo   No boot action configured.'', ''echo'', [], ''sleep 3'', ''exit''])
      else
        unlines (script_header g (cn_mac_address node) @ cached_comment now g node '' (unknown)''
          @ [''echo   Unknown node state: '' @ state] @ local_end ''3''))"

definition offline_discovery_script :: "datetime \<Rightarrow> offline_generator \<Rightarrow> string \<Rightarrow> string" where
  "offline_discovery_script now g mac =
     unlines (script_header g mac @
       [[], ''# Discovery Mode (Offline)'', get_offline_info now g, [], ''echo   Running offline discovery...'', ''echo'',
        ''echo   MAC Address: '' @ mac, ''echo   Vendor: ${manufacturer:undef}'', ''echo   Model: ${product:undef}'',
        ''echo   Serial: ${serial:undef}'', ''echo   UUID: ${uuid:undef}'', ''echo'', ''echo   Discovery data will be synced when online.'']
       @ local_end ''10'')"

definition generate_unknown_script :: "datetime \<Rightarrow> offline_generator \<Rightarrow> cached_node list \<Rightarrow> string \<Rightarrow> string" where
  "generate_unknown_script now g nodes mac =
     (let local_boot = unlines (script_header g mac @
            [[], ''# Node not in cache'', get_offline_info now g, [], ''echo   This node is not registered.'',
             ''echo   Cannot register while offline.''] @ local_end ''5'') in
      if og_default_action g = ''discovery'' then offline_discovery_script now g mac
      else if og_default_action g = ''last_known'' then
        (case get_node mac nodes of Some cached \<Rightarrow> generate_cached_script now g cached | None \<Rightarrow> local_boot)
      else local_boot)"

definition generate_script :: "datetime \<Rightarrow> offline_generator \<Rightarrow> cached_node list \<Rightarrow> string \<Rightarrow> string" where
  "generate_script now g nodes mac0 =
     (let mac = norm_mac mac0 in
      case get_node mac nodes of
        Some cached \<Rightarrow> generate_cached_script now g cached
      | None \<Rightarrow> generate_unknown_script now g nodes mac)"

section \<open>Boot service\<close>

record boot_metrics =
  bm_nodes_seen :: "string set"
  bm_active_boots :: int
  bm_cache_hits :: nat
  bm_cache_misses :: nat

definition record_boot_request :: "string \<Rightarrow> boot_metrics \<Rightarrow> boot_metrics" where
  "record_boot_request mac m = m\<lparr>bm_nodes_seen := insert mac (bm_nodes_seen m), bm_active_boots := bm_active_boots m + 1\<rparr>"

definition complete_boot_request :: "boot_metrics \<Rightarrow> boot_metrics" where
  "complete_boot_request m = m\<lparr>bm_active_boots := max 0 (bm_active_boots m - 1)\<rparr>"

definition reset_period :: "boot_metrics \<Rightarrow> boot_metrics" where
  "reset_period m = m\<lparr>bm_nodes_seen := {}\<rparr>"

text \<open>
  A request to the controller: a reply with its status and body, an \<open>aiohttp.ClientError\<close>, or an
  exception of another class, such as the \<open>TimeoutError\<close> of the total timeout.
\<close>

datatype reply = Replied int string | ClientError | OtherError

record boot_service =
  bs_central_url :: string
  bs_site_id :: string
  bs_local_server :: string
  bs_cache_dir :: path
  bs_generator :: "offline_generator option"
  bs_nodes :: "cached_node list"
  bs_files :: files
  bs_metrics :: boot_metrics

datatype service_error = HTTPError int | Unhandled

definition rewrite_urls :: "boot_service \<Rightarrow> string \<Rightarrow> string" where
  "rewrite_urls s script = replace_all (bs_central_url s @ ''/tftp/'') (bs_local_server s @ ''/tftp/'') script"

definition generate_fallback_script :: "boot_service \<Rightarrow> string \<Rightarrow> string" where
  "generate_fallback_script s mac = unlines
     [''#!ipxe'', ''# PureBoot Agent - Central Error'', ''# MAC: '' @ mac, ''# Site: '' @ bs_site_id s, [], ''echo'',
      ''echo *** PureBoot Site Agent ***'', ''echo'', ''echo   Central controller returned an error.'',
      ''echo   Booting from local disk...'', ''echo'', ''sleep 3'', ''exit'']"

definition generate_offline_script :: "boot_service \<Rightarrow> string \<Rightarrow> string" where
  "generate_offline_script s mac = unlines
     [''#!ipxe'', ''# PureBoot Agent - Offline Mode'', ''# MAC: '' @ mac, ''# Site: '' @ bs_site_id s, [], ''echo'',
      ''echo *** PureBoot Site Agent - Offline ***'', ''echo'', ''echo   Cannot reach central controller.'',
      ''echo   Site agent is operating in offline mode.'', ''echo   Booting from local disk...'', ''echo'', ''sleep 5'', ''exit'']"

definition offline_reply :: "datetime \<Rightarrow> boot_service \<Rightarrow> string \<Rightarrow> string" where
  "offline_reply now s mac =
     (case bs_generator s of Some g \<Rightarrow> generate_script now g (bs_nodes s) mac | None \<Rightarrow> generate_offline_script s mac)"

text \<open>
  The \<open>finally\<close> clause completes the request on every way out. The query parameters forwarded to
  the controller are part of \<open>ask\<close>.
\<close>

definition agent_boot_script :: "datetime \<Rightarrow> bool \<Rightarrow> (string \<Rightarrow> reply) \<Rightarrow> string \<Rightarrow> boot_service \<Rightarrow> boot_service \<times> (service_error + string)" where
  "agent_boot_script now is_online ask mac s0 =
     (let s = s0\<lparr>bs_metrics := record_boot_request mac (bs_metrics s0)\<rparr>;
          res = (if \<not> is_online \<and> bs_generator s \<noteq> None then Inr (offline_reply now s mac)
                 else case ask mac of
                   Replied status body \<Rightarrow>
                     if status = 200 then Inr (rewrite_urls s body) else Inr (generate_fallback_script s mac)
                 | ClientError \<Rightarrow> Inr (offline_reply now s mac)
                 | OtherError \<Rightarrow> Inl Unhandled)
      in (s\<lparr>bs_metrics := complete_boot_request (bs_metrics s)\<rparr>, res))"

text \<open>The cache of the boot service; its names are sanitised like those of the content cache.\<close>

definition get_cached_path :: "boot_service \<Rightarrow> string \<Rightarrow> string \<Rightarrow> path" where
  "get_cached_path s category filename = resolve_join (resolve_join (bs_cache_dir s) category) (safe_path filename)"

text \<open>\<open>path.exists() and path.is_file()\<close>, then \<open>read_bytes\<close>; links lead to files.\<close>

definition get_cached_file :: "boot_service \<Rightarrow> string \<Rightarrow> string \<Rightarrow> string option" where
  "get_cached_file s category filename =
     (case bs_files s (get_cached_path s category filename) of
        Some (File content) \<Rightarrow> Some content
      | Some (Link t) \<Rightarrow> (case bs_files s t of Some (File content) \<Rightarrow> Some content | _ \<Rightarrow> None)
      | _ \<Rightarrow> None)"

definition cache_file :: "string \<Rightarrow> string \<Rightarrow> string \<Rightarrow> boot_service \<Rightarrow> service_error + boot_service" where
  "cache_file category filename content s =
     (case write_file (get_cached_path s category filename) content (bs_files s) of
        Inl _ \<Rightarrow> Inl Unhandled | Inr fs \<Rightarrow> Inr (s\<lparr>bs_files := fs\<rparr>))"

definition serve_tftp_file :: "(string \<Rightarrow> reply) \<Rightarrow> string \<Rightarrow> boot_service \<Rightarrow> boot_service \<times> (service_error + string)" where
  "serve_tftp_file fetch path s =
     (case get_cached_file s ''tftp'' path of
        Some content \<Rightarrow> (s\<lparr>bs_metrics := (bs_metrics s)\<lparr>bm_cache_hits := bm_cache_hits (bs_metrics s) + 1\<rparr>\<rparr>, Inr content)
      | None \<Rightarrow>
          let s = s\<lparr>bs_metrics := (bs_metrics s)\<lparr>bm_cache_misses := bm_cache_misses (bs_metrics s) + 1\<rparr>\<rparr> in
          (case fetch (bs_central_url s @ ''/tftp/'' @ path) of
             Replied status content \<Rightarrow>
               if status = 200 then
                 (case cache_file ''tftp'' path content s of Inl e \<Rightarrow> (s, Inl e) | Inr s' \<Rightarrow> (s', Inr content))
               else if status = 404 then (s, Inl (HTTPError 404))
               else (s, Inl (HTTPError 502))
           | ClientError \<Rightarrow> (s, Inl (HTTPError 503))
           | OtherError \<Rightarrow> (s, Inl Unhandled)))"

section \<open>What an offline script does\<close>

text \<open>A line that neither loads nor starts anything from the network.\<close>

definition local_line :: "string \<Rightarrow> bool" where
  "local_line l \<longleftrightarrow> l = [] \<or> takeWhile (\<lambda>c. c \<noteq> CHR '' '') l \<in> {''#!ipxe'', ''#'', ''echo'', ''sleep'', ''exit''}
     \<or> l = ''sanboot --drive 0x80 || exit''"






lemma local_line_simps [simp]:
  "local_line []" "local_line (CHR ''e'' # CHR ''c'' # CHR ''h'' # CHR ''o'' # CHR '' '' # l)" "local_line ''echo''"
  "local_line (CHR ''#'' # CHR '' '' # l)" "local_line (CHR ''s'' # CHR ''l'' # CHR ''e'' # CHR ''e'' # CHR ''p'' # CHR '' '' # l)"
  "local_line ''exit''" "local_line ''#!ipxe''" "local_line ''sanboot --drive 0x80 || exit''"
  by (simp_all add: local_line_def)













section \<open>Properties\<close>


definition demo_service :: boot_service where
  "demo_service = \<lparr>bs_central_url = ''http://c'', bs_site_id = ''s'', bs_local_server = ''http://0.0.0.0:8080'', bs_cache_dir = [''cache''],
     bs_generator = Some \<lparr>og_site_id = ''s'', og_default_action = ''local'', og_offline_since = None\<rparr>, bs_nodes = [],
     bs_files = [[''etc'', ''shadow''] \<mapsto> File ''secret''],
     bs_metrics = \<lparr>bm_nodes_seen = {}, bm_active_boots = 0, bm_cache_hits = 0, bm_cache_misses = 0\<rparr>\<rparr>"


text \<open>The boot service of an agent hands out any file of its machine: asked for \<open>../\<close> and the path
  of a regular file below the root directory, it answers with the content of the file, whatever
  its cache directory is, and without asking the controller.\<close>

theorem agent_serves_any_file:
  assumes "bs_files s (resolve [] (''/'' @ q)) = Some (File content)" and "\<not> contains ''..'' q"
  shows "snd (serve_tftp_file fetch (''../'' @ q) s) = Inr content"
proof -
  have "get_cached_path s ''tftp'' (''../'' @ q) = resolve [] (''/'' @ q)"
    unfolding get_cached_path_def safe_path_parent remove_dots_id [OF assms(2)] by (simp add: resolve_join_def startswith_def)
  then have "get_cached_file s ''tftp'' (''../'' @ q) = Some content" using assms(1) by (simp add: get_cached_file_def)
  then show ?thesis by (simp add: serve_tftp_file_def)
qed

theorem agent_serves_any_file_witness: "snd (serve_tftp_file (\<lambda>_. ClientError) ''../etc/shadow'' demo_service) = Inr ''secret''"
proof -
  have "bs_files demo_service (resolve [] (''/'' @ ''etc/shadow'')) = Some (File ''secret'')"
    by (simp add: demo_service_def resolve_def)
  from agent_serves_any_file [OF this, of "\<lambda>_. ClientError"] show ?thesis by (simp add: startswith_def)
qed

text \<open>The counter of active boots is balanced on every way out of a request.\<close>

lemma active_boots_balanced:
  "bm_active_boots (bs_metrics s) \<ge> 0 \<Longrightarrow>
   bm_active_boots (bs_metrics (fst (agent_boot_script now is_online ask mac s))) = bm_active_boots (bs_metrics s)"
  by (simp add: agent_boot_script_def Let_def record_boot_request_def complete_boot_request_def)

text \<open>A file that was fetched once is served from the cache from then on.\<close>

lemma fetched_file_cached:
  assumes "serve_tftp_file fetch path s = (s', Inr content)" and "no_links (bs_files s)" and "get_cached_file s ''tftp'' path = None"
  shows "snd (serve_tftp_file fetch' path s') = Inr content"
proof -
  obtain fs where fs: "write_file (get_cached_path s ''tftp'' path) content (bs_files s) = Inr fs"
    and s': "bs_files s' = fs" "bs_cache_dir s' = bs_cache_dir s"
    using assms(1,3)
    by (auto simp: serve_tftp_file_def cache_file_def get_cached_path_def Let_def split: reply.splits if_splits sum.splits)
  have "fs (get_cached_path s ''tftp'' path) = Some (File content)" by (rule write_file_stores [OF fs assms(2)])
  then have "get_cached_file s' ''tftp'' path = Some content" using s' by (simp add: get_cached_file_def get_cached_path_def)
  then show ?thesis by (simp add: serve_tftp_file_def)
qed

end
