(* ===== verification/CacheSync.thy ===== *)
theory CacheSync
  imports ContentCache StateCache
begin

text \<open>
  The synchronisation of a site agent's content cache with the controller,
  src/src/agent/sync.py, and the cache endpoints of the agent, src/src/agent/routes/cache.py.

  The controller is a parameter: the download of a URL and the two listings it answers. As in
  \<open>ContentCache\<close>, the value \<open>None\<close> is an operation that waits for a lock of its own task. The
  duration of a run is left out; one run takes place at one time.
\<close>

section \<open>Results\<close>

record sync_result =
  sr_files_synced :: nat
  sr_bytes_transferred :: nat
  sr_errors :: "string list"
  sr_status :: string

definition new_result :: sync_result where
  "new_result = \<lparr>sr_files_synced = 0, sr_bytes_transferred = 0, sr_errors = [], sr_status = ''success''\<rparr>"

datatype listing = Listed "(string option \<times> string option) list" | Refused int | Unreachable string

record central =
  ctl_url :: string
  ctl_site_id :: string
  ctl_fetch :: "string \<Rightarrow> string option"
  ctl_assigned :: listing
  ctl_files :: listing
  ctl_error_text :: "cache_error \<Rightarrow> string"

definition run_bind :: "'a cache_run \<Rightarrow> ('a \<Rightarrow> content_cache \<Rightarrow> 'b cache_run) \<Rightarrow> 'b cache_run" where
  "run_bind m f = (case m of None \<Rightarrow> None | Some (c, Inl e) \<Rightarrow> Some (c, Inl e) | Some (c, Inr x) \<Rightarrow> f x c)"

lemma run_bind_simps [simp]:
  "run_bind None f = None" "run_bind (Some (c, Inl e)) f = Some (c, Inl e)" "run_bind (Some (c, Inr x)) f = f x c"
  by (simp_all add: run_bind_def)

lemma run_bind_InrE:
  assumes "run_bind m f = Some (c', Inr y)"
  obtains c x where "m = Some (c, Inr x)" "f x c = Some (c', Inr y)"
  using assms by (auto simp: run_bind_def split: option.splits prod.splits sum.splits)

section \<open>Files\<close>

definition ESSENTIAL_BOOTLOADERS :: "string list" where
  "ESSENTIAL_BOOTLOADERS = [''ipxe.efi'', ''undionly.kpxe'', ''snponly.efi'', ''grub/grubx64.efi'', ''grub/grub.cfg'']"

definition file_url :: "central \<Rightarrow> string \<Rightarrow> string \<Rightarrow> string" where
  "file_url ctl category path =
     (if category = ''bootloaders'' then ctl_url ctl @ ''/tftp/'' @ path
      else ctl_url ctl @ ''/api/v1/files/'' @ category @ ''/'' @ path)"

definition add_error :: "string \<Rightarrow> sync_result \<Rightarrow> sync_result" where
  "add_error e r = r\<lparr>sr_errors := sr_errors r @ [e]\<rparr>"

definition add_file :: "string \<Rightarrow> sync_result \<Rightarrow> sync_result" where
  "add_file content r = r\<lparr>sr_files_synced := sr_files_synced r + 1, sr_bytes_transferred := sr_bytes_transferred r + length content\<rparr>"

text \<open>An exception of the lookup leaves the function, one of the store is reported.\<close>

definition sync_file :: "central \<Rightarrow> datetime \<Rightarrow> string \<Rightarrow> string \<Rightarrow> sync_result \<Rightarrow> content_cache \<Rightarrow> (sync_result \<times> bool) cache_run" where
  "sync_file ctl now category path r c =
     run_bind (cache_get now category path c) (\<lambda>cached c.
       if cached \<noteq> None then Some (c, Inr (r, True))
       else case ctl_fetch ctl (file_url ctl category path) of
         None \<Rightarrow> Some (c, Inr (add_error (''Failed to download: '' @ category @ ''/'' @ path) r, False))
       | Some content \<Rightarrow>
           (case cache_put now category path content None c of
              None \<Rightarrow> None
            | Some (c, Inl e) \<Rightarrow>
                Some (c, Inr (add_error (''Failed to cache '' @ category @ ''/'' @ path @ '': '' @ ctl_error_text ctl e) r, False))
            | Some (c, Inr _) \<Rightarrow> Some (c, Inr (add_file content r, True))))"

fun sync_files :: "central \<Rightarrow> datetime \<Rightarrow> (string \<times> string) list \<Rightarrow> sync_result \<Rightarrow> content_cache \<Rightarrow> sync_result cache_run" where
  "sync_files ctl now [] r c = Some (c, Inr r)"
| "sync_files ctl now ((category, path) # fs) r c =
     run_bind (sync_file ctl now category path r c) (\<lambda>(r, _) c. sync_files ctl now fs r c)"

definition set_status :: "sync_result \<Rightarrow> sync_result" where
  "set_status r =
     (if sr_errors r = [] then r else r\<lparr>sr_status := (if sr_files_synced r > 0 then ''partial'' else ''failed'')\<rparr>)"

definition finish :: "sync_result cache_run \<Rightarrow> sync_result cache_run" where
  "finish m = run_bind m (\<lambda>r c. Some (c, Inr (set_status r)))"

section \<open>Policies\<close>

definition sync_bootloaders :: "central \<Rightarrow> datetime \<Rightarrow> content_cache \<Rightarrow> sync_result cache_run" where
  "sync_bootloaders ctl now c = finish (sync_files ctl now (map (\<lambda>b. (''bootloaders'', b)) ESSENTIAL_BOOTLOADERS) new_result c)"

definition or_default :: "string \<Rightarrow> string option \<Rightarrow> string" where
  "or_default x o' = (case o' of None \<Rightarrow> x | Some y \<Rightarrow> y)"

definition refused :: "string \<Rightarrow> string \<Rightarrow> sync_result \<Rightarrow> sync_result" where
  "refused status e r = (add_error e r)\<lparr>sr_status := status\<rparr>"

definition sync_assigned_content :: "central \<Rightarrow> datetime \<Rightarrow> content_cache \<Rightarrow> sync_result cache_run" where
  "sync_assigned_content ctl now c =
     (case ctl_assigned ctl of
        Refused status \<Rightarrow> Some (c, Inr (refused ''failed'' (''Failed to get assigned content: '' @ show_int status) new_result))
      | Unreachable e \<Rightarrow> Some (c, Inr (refused ''failed'' (''Failed to get assigned content: '' @ e) new_result))
      | Listed items \<Rightarrow>
          finish (sync_files ctl now
            (filter (\<lambda>(category, path). path \<noteq> []) (map (\<lambda>(cat, p). (or_default ''templates'' cat, or_default [] p)) items)) new_result c))"

text \<open>A file without a category is matched with the empty one and stored as a template.\<close>

definition sync_patterns :: "central \<Rightarrow> datetime \<Rightarrow> string list \<Rightarrow> content_cache \<Rightarrow> sync_result cache_run" where
  "sync_patterns ctl now patterns c =
     (case ctl_files ctl of
        Refused status \<Rightarrow> Some (c, Inr (refused ''failed'' (''Failed to list files: '' @ show_int status) new_result))
      | Unreachable e \<Rightarrow> Some (c, Inr (refused ''failed'' (''Failed to list files: '' @ e) new_result))
      | Listed items \<Rightarrow>
          finish (sync_files ctl now
            (map (\<lambda>(cat, p). (or_default ''templates'' cat, or_default [] p))
              (filter (\<lambda>(cat, p). list_ex (fnmatch (or_default [] cat @ ''/'' @ or_default [] p)) patterns) items)) new_result c))"

definition full_sync :: "central \<Rightarrow> datetime \<Rightarrow> content_cache \<Rightarrow> sync_result cache_run" where
  "full_sync ctl now c =
     run_bind (sync_bootloaders ctl now c) (\<lambda>b c.
       let r = b\<lparr>sr_status := ''success''\<rparr> in
       case ctl_files ctl of
         Refused status \<Rightarrow> Some (c, Inr (refused ''partial'' (''Failed to list files: '' @ show_int status) r))
       | Unreachable e \<Rightarrow> Some (c, Inr (refused ''partial'' (''Failed to list files: '' @ e) r))
       | Listed items \<Rightarrow>
           finish (sync_files ctl now (map (\<lambda>(cat, p). (or_default ''templates'' cat, or_default [] p)) items) r c))"

definition add_results :: "sync_result \<Rightarrow> sync_result \<Rightarrow> sync_result" where
  "add_results a b =
     set_status \<lparr>sr_files_synced = sr_files_synced a + sr_files_synced b, sr_bytes_transferred = sr_bytes_transferred a + sr_bytes_transferred b,
                 sr_errors = sr_errors a @ sr_errors b, sr_status = ''success''\<rparr>"

definition sync_by_policy :: "central \<Rightarrow> datetime \<Rightarrow> content_cache \<Rightarrow> sync_result cache_run" where
  "sync_by_policy ctl now c =
     (if cc_policy c = ''minimal'' then sync_bootloaders ctl now c
      else if cc_policy c = ''assigned'' then
        run_bind (sync_bootloaders ctl now c) (\<lambda>b c.
        run_bind (sync_assigned_content ctl now c) (\<lambda>a c. Some (c, Inr (add_results b a))))
      else if cc_policy c = ''mirror'' then full_sync ctl now c
      else if cc_policy c = ''pattern'' then
        run_bind (sync_bootloaders ctl now c) (\<lambda>b c.
        run_bind (sync_patterns ctl now (cc_patterns c) c) (\<lambda>a c. Some (c, Inr (add_results b a))))
      else sync_bootloaders ctl now c)"

section \<open>Runs\<close>

record sync_service =
  sy_cache :: content_cache
  sy_locked :: bool
  sy_last_sync_at :: "datetime option"
  sy_last_sync_result :: "sync_result option"

type_synonym 'a service_run = "(sync_service \<times> (cache_error + 'a)) option"

definition run_scheduled_sync :: "central \<Rightarrow> datetime \<Rightarrow> sync_service \<Rightarrow> sync_result service_run" where
  "run_scheduled_sync ctl now s =
     (if sy_locked s then None
      else case sync_by_policy ctl now (sy_cache s) of
        None \<Rightarrow> None
      | Some (c, Inl e) \<Rightarrow> Some (s\<lparr>sy_cache := c\<rparr>, Inl e)
      | Some (c, Inr r) \<Rightarrow> Some (s\<lparr>sy_cache := c, sy_last_sync_at := Some now, sy_last_sync_result := Some r\<rparr>, Inr r))"

fun clear_categories :: "string list \<Rightarrow> content_cache \<Rightarrow> unit cache_run" where
  "clear_categories [] c = Some (c, Inr ())"
| "clear_categories (cat # cats) c = run_bind (content_clear (Some cat) c) (\<lambda>_ c. clear_categories cats c)"

definition run_manual_sync :: "central \<Rightarrow> datetime \<Rightarrow> bool \<Rightarrow> string list option \<Rightarrow> sync_service \<Rightarrow> sync_result service_run" where
  "run_manual_sync ctl now force categories s =
     (if sy_locked s then None
      else case (if \<not> force then Some (sy_cache s, Inr ())
                 else if categories \<noteq> None \<and> categories \<noteq> Some [] then clear_categories (the categories) (sy_cache s)
                 else run_bind (content_clear None (sy_cache s)) (\<lambda>_ c. Some (c, Inr ()))) of
        None \<Rightarrow> None
      | Some (c, Inl e) \<Rightarrow> Some (s\<lparr>sy_cache := c\<rparr>, Inl e)
      | Some (c, Inr _) \<Rightarrow> run_scheduled_sync ctl now (s\<lparr>sy_cache := c, sy_locked := True\<rparr>))"

section \<open>Endpoints of the agent\<close>

text \<open>
  The routes of DELETE below \<open>/api/v1/agent/cache/\<close> in the order of their declaration; the first
  that matches is taken. The path parameter of the first one takes any rest.
\<close>

datatype cache_delete = EvictEntry string string | InvalidateNode string | ClearNodes

definition match_delete :: "string \<Rightarrow> cache_delete option" where
  "match_delete rest =
     (case split_on (CHR ''/'') rest of
        [] \<Rightarrow> None
      | [x] \<Rightarrow> if x = ''nodes'' then Some ClearNodes else None
      | x # xs \<Rightarrow>
          if x \<noteq> [] then Some (EvictEntry x (join_with ''/'' xs))
          else if x = ''nodes'' \<and> length xs = 1 then Some (InvalidateNode (hd xs))
          else None)"

definition evict_cache_entry :: "string \<Rightarrow> string \<Rightarrow> content_cache \<Rightarrow> bool cache_run" where
  "evict_cache_entry category path c = evict category path c"

text \<open>The answer is the number of evicted entries and the freed bytes.\<close>

definition evict_cache ::
    "datetime \<Rightarrow> string \<Rightarrow> string option \<Rightarrow> content_cache \<times> cached_node list
       \<Rightarrow> ((content_cache \<times> cached_node list) \<times> (cache_error + nat \<times> int)) option" where
  "evict_cache now policy category = (\<lambda>(c, nodes).
     if policy = ''expired'' then
       (case evict_expired now c of
          None \<Rightarrow> None
        | Some (c, Inl e) \<Rightarrow> Some ((c, nodes), Inl e)
        | Some (c, Inr n) \<Rightarrow> (let (nodes, m) = invalidate_expired now nodes in Some ((c, nodes), Inr (n + m, 0))))
     else if policy = ''all'' then
       (let before = get_total_size c in
        case content_clear category c of
          None \<Rightarrow> None
        | Some (c, Inl e) \<Rightarrow> Some ((c, nodes), Inl e)
        | Some (c, Inr n) \<Rightarrow>
            if truthy category then Some ((c, nodes), Inr (n, before))
            else (let (nodes, m) = cache_clear nodes in Some ((c, nodes), Inr (n + m, before))))
     else if policy = ''lru'' then
       (case evict_expired now c of
          None \<Rightarrow> None
        | Some (c, Inl e) \<Rightarrow> Some ((c, nodes), Inl e)
        | Some (c, Inr n) \<Rightarrow> Some ((c, nodes), Inr (n, 0)))
     else Some ((c, nodes), Inr (0, 0)))"

text \<open>Without a synchronisation service the endpoint answers that the run was skipped.\<close>

definition trigger_sync ::
    "central \<Rightarrow> datetime \<Rightarrow> bool \<Rightarrow> string list option \<Rightarrow> sync_service option \<Rightarrow> (sync_service option \<times> string) option" where
  "trigger_sync ctl now force categories s =
     (case s of
        None \<Rightarrow> Some (None, ''skipped'')
      | Some sv \<Rightarrow>
          (case run_manual_sync ctl now force categories sv of
             None \<Rightarrow> None
           | Some (sv, Inl e) \<Rightarrow> Some (Some sv, ''failed'')
           | Some (sv, Inr r) \<Rightarrow> Some (Some sv, ''completed'')))"

section \<open>What a lookup and a store keep\<close>

definition only_bootloaders :: "metadata \<Rightarrow> bool" where
  "only_bootloaders m \<longleftrightarrow> (\<forall>(k, e) \<in> set m. always_cached e)"

text \<open>The states between the files of a synchronisation of bootloaders.\<close>

definition calm :: "path \<Rightarrow> content_cache \<Rightarrow> bool" where
  "calm dir c \<longleftrightarrow> \<not> cc_locked c \<and> cc_dir c = dir \<and> no_links (cc_files c) \<and> only_bootloaders (cc_metadata c)"

definition tmp_of :: "path \<Rightarrow> path" where
  "tmp_of p = butlast p @ [tmp_name (last p)]"

lemma exists_no_links: "no_links fs \<Longrightarrow> path_exists fs p \<longleftrightarrow> fs p \<noteq> None"
  by (auto simp: no_links_def path_exists_def split: option.splits entry.splits)

lemma set_dict_put: "set (dict_put k v d) \<subseteq> insert (k, v) (set d)"
  by (induction d) (auto split: if_splits)

lemma set_dict_del: "set (dict_del k d) \<subseteq> set d"
  by (auto simp: dict_del_def)

lemma only_bootloaders_del: "only_bootloaders m \<Longrightarrow> only_bootloaders (dict_del k m)"
  using set_dict_del by (fastforce simp: only_bootloaders_def)

lemma only_bootloaders_put: "only_bootloaders m \<Longrightarrow> always_cached e \<Longrightarrow> only_bootloaders (dict_put k e m)"
  using set_dict_put by (fastforce simp: only_bootloaders_def)

lemma no_links_upd: "no_links fs \<Longrightarrow> no_links (fs(p := None))"
  by (simp add: no_links_def)

lemma evict_calm:
  assumes "calm dir c"
  shows "\<exists>c' x. evict category path c = Some (c', x) \<and> calm dir c'
    \<and> (\<forall>q. q \<noteq> get_file_path dir category path \<longrightarrow> cc_files c' q = cc_files c q)"
proof (cases "unlink_file (get_file_path (cc_dir c) category path) (cc_files c)")
  case (Inl e)
  then show ?thesis using assms by (simp add: evict_def calm_def)
next
  case (Inr y)
  obtain fs b where y: "y = (fs, b)" by force
  have fs: "no_links fs" "\<forall>q. q \<noteq> get_file_path dir category path \<longrightarrow> fs q = cc_files c q"
    using Inr y assms no_links_upd by (auto simp: unlink_file_def calm_def split: if_splits)
  show ?thesis using assms Inr y fs
    by (auto simp: evict_def calm_def Let_def save_metadata_def only_bootloaders_del)
qed

lemma cache_get_calm:
  assumes "calm dir c"
  shows "\<exists>c' x. cache_get now category path c = Some (c', x) \<and> calm dir c'
    \<and> (\<forall>q. q \<noteq> get_file_path dir category path \<longrightarrow> cc_files c' q = cc_files c q)
    \<and> (\<forall>p. x = Inr (Some p) \<longrightarrow> cc_files c' (get_file_path dir category path) \<noteq> None)"
proof (cases "path_exists (cc_files c) (get_file_path dir category path)")
  case False
  then show ?thesis using assms by (simp add: cache_get_def Let_def calm_def only_bootloaders_del)
next
  case True
  show ?thesis
  proof (cases "map_of (cc_metadata c) (get_cache_key category path)")
    case None
    then show ?thesis using True assms exists_no_links by (auto simp: cache_get_def Let_def calm_def)
  next
    case (Some e)
    show ?thesis
    proof (cases "entry_expired now e")
      case ex: True
      obtain c' x where ev: "evict category path c = Some (c', x)" and c': "calm dir c'"
        "\<forall>q. q \<noteq> get_file_path dir category path \<longrightarrow> cc_files c' q = cc_files c q"
        using evict_calm [OF assms] by blast
      have "cc_dir c = dir" using assms by (simp add: calm_def)
      then show ?thesis using True Some ex ev c' by (cases x) (simp_all add: cache_get_def Let_def)
    next
      case False
      have "always_cached e" using assms map_of_SomeD [OF Some] by (auto simp: calm_def only_bootloaders_def)
      then have "only_bootloaders (dict_put (get_cache_key category path) (e\<lparr>ce_last_accessed := now\<rparr>) (cc_metadata c))"
        using assms by (intro only_bootloaders_put) (simp_all add: calm_def always_cached_def)
      then show ?thesis using True Some False assms exists_no_links by (auto simp: cache_get_def Let_def calm_def save_metadata_def)
    qed
  qed
qed

lemma mkdirs_keeps: "mkdirs pre cs fs = Inr fs' \<Longrightarrow> fs q = Some e \<Longrightarrow> fs' q = Some e"
proof (induction pre cs fs rule: mkdirs.induct)
  case (2 pre c cs fs)
  show ?case
  proof (cases "fs (pre @ [c])")
    case None
    then have "q \<noteq> pre @ [c]" using 2(4) by auto
    then have "(fs(pre @ [c] \<mapsto> Dir)) q = Some e" using 2(4) by simp
    moreover have "mkdirs (pre @ [c]) cs (fs(pre @ [c] \<mapsto> Dir)) = Inr fs'" using 2(3) None by simp
    ultimately show ?thesis using 2(1) [OF None] by blast
  next
    case (Some d)
    then show ?thesis using 2 by (cases d) auto
  qed
qed simp

lemma write_file_calm:
  assumes "write_file p content fs = Inr fs'" and "no_links fs"
  shows "no_links fs'" and "q \<noteq> tmp_of p \<Longrightarrow> fs q \<noteq> None \<Longrightarrow> fs' q \<noteq> None"
proof -
  obtain fs1 where fs1: "mkdirs [] (butlast p) fs = Inr fs1" using assms(1) by (auto simp: write_file_def split: sum.splits)
  have n1: "no_links fs1" by (rule mkdirs_no_links [OF fs1 assms(2)])
  obtain fs2 where fs2: "write_text (tmp_of p) content fs1 = Inr fs2" and fs': "fs' = (fs2(tmp_of p := None))(p := fs2 (tmp_of p))"
    using assms(1) fs1 by (auto simp: write_file_def Let_def tmp_of_def split: sum.splits if_splits)
  have e2: "fs2 = fs1(tmp_of p \<mapsto> File content)"
    using fs2 n1 by (auto simp: write_text_def no_links_def split: option.splits entry.splits)
  show "no_links fs'" using n1 by (auto simp: fs' e2 no_links_def)
  show "q \<noteq> tmp_of p \<Longrightarrow> fs q \<noteq> None \<Longrightarrow> fs' q \<noteq> None" using mkdirs_keeps [OF fs1] by (auto simp: fs' e2)
qed

lemma bootloaders_always: "always_cached e \<longleftrightarrow> ce_category e = ''bootloaders''"
  by (auto simp: always_cached_def DEFAULT_CATEGORIES_def)

lemma cache_put_calm:
  assumes "calm dir c"
  shows "\<exists>c' x. cache_put now ''bootloaders'' path content None c = Some (c', x) \<and> calm dir c'
    \<and> (\<forall>q. q \<noteq> tmp_of (get_file_path dir ''bootloaders'' path) \<longrightarrow> cc_files c q \<noteq> None \<longrightarrow> cc_files c' q \<noteq> None)
    \<and> (\<forall>p. x = Inr p \<longrightarrow> cc_files c' (get_file_path dir ''bootloaders'' path) \<noteq> None)"
proof -
  have c: "\<not> cc_locked c" "cc_dir c = dir" "no_links (cc_files c)" "only_bootloaders (cc_metadata c)" using assms by (simp_all add: calm_def)
  have sh: "should_cache c ''bootloaders'' path" by (simp add: should_cache_def DEFAULT_CATEGORIES_def)
  have "list_all always_cached (map snd (cc_metadata c))" using c(4) by (auto simp: only_bootloaders_def list_all_iff)
  then have sp: "ensure_space (int (length content)) (c\<lparr>cc_locked := True\<rparr>) = Some (c\<lparr>cc_locked := True\<rparr>, Inr ())"
    by (simp add: ensure_space_locked)
  show ?thesis
  proof (cases "write_file (get_file_path dir ''bootloaders'' path) content (cc_files c)")
    case (Inl e)
    then show ?thesis using c sh sp by (simp add: cache_put_def Let_def calm_def)
  next
    case (Inr fs)
    note w = write_file_calm [OF Inr c(3)] write_file_stores [OF Inr c(3)]
    let ?e = "\<lparr>ce_path = path, ce_category = ''bootloaders'', ce_size_bytes = int (length content), ce_cached_at = now,
                ce_last_accessed = now, ce_expires_at = expiry now ''bootloaders'' None\<rparr>"
    have "only_bootloaders (dict_put (get_cache_key ''bootloaders'' path) ?e (cc_metadata c))"
      by (rule only_bootloaders_put [OF c(4)]) (simp add: bootloaders_always)
    then show ?thesis using c sh sp Inr w by (simp add: cache_put_def Let_def calm_def save_metadata_def)
  qed
qed

section \<open>Runs over the bootloaders\<close>

text \<open>One file: the run returns, other files stay, and without a new error the file is there.\<close>

lemma sync_file_calm:
  assumes "calm dir c"
  shows "\<exists>c' x. sync_file ctl now ''bootloaders'' b r c = Some (c', x) \<and> calm dir c'
    \<and> (\<forall>q. q \<noteq> get_file_path dir ''bootloaders'' b \<longrightarrow> q \<noteq> tmp_of (get_file_path dir ''bootloaders'' b) \<longrightarrow>
         cc_files c q \<noteq> None \<longrightarrow> cc_files c' q \<noteq> None)
    \<and> (\<forall>r' ok. x = Inr (r', ok) \<longrightarrow> (sr_errors r' = [] \<longrightarrow> sr_errors r = [] \<and> cc_files c' (get_file_path dir ''bootloaders'' b) \<noteq> None))"
proof -
  obtain c1 y where get: "cache_get now ''bootloaders'' b c = Some (c1, y)" and c1: "calm dir c1"
    and keep1: "\<forall>q. q \<noteq> get_file_path dir ''bootloaders'' b \<longrightarrow> cc_files c1 q = cc_files c q"
    and hit: "\<forall>p. y = Inr (Some p) \<longrightarrow> cc_files c1 (get_file_path dir ''bootloaders'' b) \<noteq> None"
    using cache_get_calm [OF assms] by blast
  show ?thesis
  proof (cases "y = Inr None")
    case False
    then show ?thesis using get c1 keep1 hit by (cases y) (auto simp: sync_file_def)
  next
    case miss: True
    show ?thesis
    proof (cases "ctl_fetch ctl (file_url ctl ''bootloaders'' b)")
      case None
      then show ?thesis using get c1 keep1 miss by (simp add: sync_file_def add_error_def)
    next
      case (Some content)
      obtain c2 z where put: "cache_put now ''bootloaders'' b content None c1 = Some (c2, z)" and c2: "calm dir c2"
        and keep2: "\<forall>q. q \<noteq> tmp_of (get_file_path dir ''bootloaders'' b) \<longrightarrow> cc_files c1 q \<noteq> None \<longrightarrow> cc_files c2 q \<noteq> None"
        and stored: "\<forall>p. z = Inr p \<longrightarrow> cc_files c2 (get_file_path dir ''bootloaders'' b) \<noteq> None"
        using cache_put_calm [OF c1] by blast
      then show ?thesis using get keep1 miss Some by (cases z) (auto simp: sync_file_def add_error_def add_file_def)
    qed
  qed
qed

abbreviation boot_file :: "path \<Rightarrow> string \<Rightarrow> path" where
  "boot_file dir b \<equiv> get_file_path dir ''bootloaders'' b"

definition apart :: "path \<Rightarrow> string list \<Rightarrow> bool" where
  "apart dir bs \<longleftrightarrow> distinct (map (boot_file dir) bs) \<and> (\<forall>b \<in> set bs. \<forall>b' \<in> set bs. boot_file dir b \<noteq> tmp_of (boot_file dir b'))"

lemma sync_files_calm:
  assumes "calm dir c"
  shows "\<exists>c' x. sync_files ctl now (map (\<lambda>b. (''bootloaders'', b)) bs) r c = Some (c', x) \<and> calm dir c'
    \<and> (\<forall>q. q \<notin> boot_file dir ` set bs \<longrightarrow> q \<notin> (\<lambda>b. tmp_of (boot_file dir b)) ` set bs \<longrightarrow> cc_files c q \<noteq> None \<longrightarrow> cc_files c' q \<noteq> None)
    \<and> (\<forall>r'. x = Inr r' \<longrightarrow> sr_errors r' = [] \<longrightarrow> sr_errors r = [] \<and> (apart dir bs \<longrightarrow> (\<forall>b \<in> set bs. cc_files c' (boot_file dir b) \<noteq> None)))"
  using assms
proof (induction bs arbitrary: r c)
  case (Cons b bs)
  obtain c1 x where one: "sync_file ctl now ''bootloaders'' b r c = Some (c1, x)" and c1: "calm dir c1"
    and keep1: "\<And>q. q \<noteq> boot_file dir b \<Longrightarrow> q \<noteq> tmp_of (boot_file dir b) \<Longrightarrow> cc_files c q \<noteq> None \<Longrightarrow> cc_files c1 q \<noteq> None"
    and got: "\<And>r' ok. x = Inr (r', ok) \<Longrightarrow> sr_errors r' = [] \<Longrightarrow> sr_errors r = [] \<and> cc_files c1 (boot_file dir b) \<noteq> None"
    using sync_file_calm [OF Cons.prems, of ctl now b r] by blast
  show ?case
  proof (cases x)
    case (Inl e)
    then show ?thesis using one c1 keep1 by (intro exI [of _ c1] exI [of _ "Inl e"]) auto
  next
    case (Inr y)
    obtain r1 ok where y: "y = (r1, ok)" by force
    obtain c2 z where rest: "sync_files ctl now (map (\<lambda>b. (''bootloaders'', b)) bs) r1 c1 = Some (c2, z)" and c2: "calm dir c2"
      and keep2: "\<And>q. q \<notin> boot_file dir ` set bs \<Longrightarrow> q \<notin> (\<lambda>b. tmp_of (boot_file dir b)) ` set bs \<Longrightarrow> cc_files c1 q \<noteq> None \<Longrightarrow> cc_files c2 q \<noteq> None"
      and all: "\<And>r'. z = Inr r' \<Longrightarrow> sr_errors r' = [] \<Longrightarrow>
          sr_errors r1 = [] \<and> (apart dir bs \<longrightarrow> (\<forall>b \<in> set bs. cc_files c2 (boot_file dir b) \<noteq> None))"
      using Cons.IH [OF c1, of r1] by blast
    have "sync_files ctl now (map (\<lambda>b. (''bootloaders'', b)) (b # bs)) r c = Some (c2, z)"
      using one rest Inr y by simp
    moreover have "sr_errors r = [] \<and> (apart dir (b # bs) \<longrightarrow> (\<forall>a \<in> set (b # bs). cc_files c2 (boot_file dir a) \<noteq> None))"
      if "z = Inr r'" "sr_errors r' = []" for r'
    proof -
      have 1: "sr_errors r1 = []" "apart dir bs \<longrightarrow> (\<forall>b \<in> set bs. cc_files c2 (boot_file dir b) \<noteq> None)" using all [OF that] by auto
      have 2: "sr_errors r = []" "cc_files c1 (boot_file dir b) \<noteq> None" using got [of r1 ok] Inr y 1(1) by auto
      have "cc_files c2 (boot_file dir b) \<noteq> None" if "apart dir (b # bs)"
        by (rule keep2 [OF _ _ 2(2)]) (use that in \<open>auto simp: apart_def\<close>)
      moreover have "apart dir (b # bs) \<Longrightarrow> apart dir bs" by (auto simp: apart_def)
      ultimately show ?thesis using 1 2 by auto
    qed
    ultimately show ?thesis using c2 keep1 keep2 by (intro exI [of _ c2] exI [of _ z]) auto
  qed
qed simp

lemma boot_file_simps:
  "boot_file dir ''ipxe.efi'' = dir @ [''bootloaders'', ''ipxe.efi'']"
  "boot_file dir ''undionly.kpxe'' = dir @ [''bootloaders'', ''undionly.kpxe'']"
  "boot_file dir ''snponly.efi'' = dir @ [''bootloaders'', ''snponly.efi'']"
  "boot_file dir ''grub/grubx64.efi'' = dir @ [''bootloaders'', ''grub'', ''grubx64.efi'']"
  "boot_file dir ''grub/grub.cfg'' = dir @ [''bootloaders'', ''grub'', ''grub.cfg'']"
  by (simp_all add: get_file_path_def resolve_join_def resolve_def safe_path_def lstrip_slash_def startswith_def)

lemma essential_apart: "apart dir ESSENTIAL_BOOTLOADERS"
  by (simp add: apart_def ESSENTIAL_BOOTLOADERS_def boot_file_simps tmp_of_def tmp_name_def butlast_append Let_def)

lemma set_status_errors [simp]: "sr_errors (set_status r) = sr_errors r"
  by (simp add: set_status_def)

section \<open>Properties\<close>

text \<open>C30: With only bootloaders in the cache the synchronisation of the bootloaders returns, whatever
  the controller answers, keeps the lock free and the cache one of bootloaders only; and if it
  reports no error, every essential bootloader is in the cache.\<close>

theorem bootloader_sync_complete:
  assumes "\<not> cc_locked c" and "no_links (cc_files c)" and "only_bootloaders (cc_metadata c)"
  shows "\<exists>c' x. sync_bootloaders ctl now c = Some (c', x) \<and> \<not> cc_locked c' \<and> only_bootloaders (cc_metadata c')
    \<and> (\<forall>r. x = Inr r \<and> sr_errors r = [] \<longrightarrow>
         (\<forall>b \<in> set ESSENTIAL_BOOTLOADERS. path_exists (cc_files c') (get_file_path (cc_dir c) ''bootloaders'' b)))"
proof -
  have "calm (cc_dir c) c" using assms by (simp add: calm_def)
  from sync_files_calm [OF this, of ctl now ESSENTIAL_BOOTLOADERS new_result] obtain c' x
    where run: "sync_files ctl now (map (\<lambda>b. (''bootloaders'', b)) ESSENTIAL_BOOTLOADERS) new_result c = Some (c', x)"
      and c': "calm (cc_dir c) c'"
      and all: "\<forall>r. x = Inr r \<longrightarrow> sr_errors r = [] \<longrightarrow> (\<forall>b \<in> set ESSENTIAL_BOOTLOADERS. cc_files c' (boot_file (cc_dir c) b) \<noteq> None)"
    using essential_apart by blast
  have ok: "\<not> cc_locked c'" "only_bootloaders (cc_metadata c')" "no_links (cc_files c')" using c' by (simp_all add: calm_def)
  show ?thesis
  proof (cases x)
    case (Inl e)
    then have "sync_bootloaders ctl now c = Some (c', Inl e)" using run by (simp add: sync_bootloaders_def finish_def)
    then show ?thesis using ok by simp
  next
    case (Inr r)
    then have "sync_bootloaders ctl now c = Some (c', Inr (set_status r))" using run by (simp add: sync_bootloaders_def finish_def)
    then show ?thesis using ok all Inr exists_no_links by simp
  qed
qed

definition demo_central :: central where
  "demo_central = \<lparr>ctl_url = ''http://c'', ctl_site_id = ''s'', ctl_fetch = (\<lambda>u. Some u), ctl_assigned = Listed [], ctl_files = Listed [],
     ctl_error_text = (\<lambda>e. [])\<rparr>"

theorem bootloader_sync_complete_witness:
  "\<exists>c' x. sync_bootloaders demo_central 5 (init_cache [''cache''] 1 ''minimal'' [] [] (\<lambda>p. None)) = Some (c', x) \<and> \<not> cc_locked c'"
proof -
  let ?c = "init_cache [''cache''] 1 ''minimal'' [] [] (\<lambda>p. None)"
  have "\<not> cc_locked ?c" "no_links (cc_files ?c)" "only_bootloaders (cc_metadata ?c)"
    by (simp_all add: init_cache_def no_links_def only_bootloaders_def)
  from bootloader_sync_complete [OF this, of demo_central 5] show ?thesis by blast
qed

text \<open>A synchronisation started by hand never delivers a result: it holds the lock that the
  scheduled run it calls waits for. Not forced, it never returns at all; forced, it can only end
  with the exception of clearing the cache.\<close>

theorem manual_sync_never_completes:
  shows "run_manual_sync ctl now force categories s \<noteq> Some (s', Inr r) \<and> run_manual_sync ctl now False categories s = None"
  by (auto simp: run_manual_sync_def run_scheduled_sync_def split: option.splits sum.splits)

text \<open>The endpoint that invalidates a cached node is never reached: an earlier route takes its path.\<close>

lemma invalidate_route_shadowed: "match_delete rest \<noteq> Some (InvalidateNode mac)"
  by (auto simp: match_delete_def split: list.splits if_splits)

lemma invalidate_path_evicts:
  "CHR ''/'' \<notin> set mac \<Longrightarrow> match_delete (''nodes/'' @ mac) = Some (EvictEntry ''nodes'' mac)"
  by (simp add: match_delete_def split_on_single)

end
