(* ===== verification/Seeds.thy ===== *)
theory Seeds
  imports Access
begin

text \<open>
  The default permissions, roles, user groups and administrator of a new installation
  (src/src/db/seed.py). The dicts of the module are association lists in the order of the code; the
  permissions \<open>*\<close> of a role are \<open>None\<close>. The id drawn for a row is the value of the parameter \<open>uuid\<close>
  at the row. Printed messages are left out.
\<close>

section \<open>The defaults\<close>

definition PERMISSIONS :: "(string \<times> string \<times> string) list" where
  "PERMISSIONS =
     [(''node'', ''create'', ''Create new nodes''), (''node'', ''read'', ''View nodes''),
      (''node'', ''update'', ''Update node details''), (''node'', ''delete'', ''Delete nodes''),
      (''node'', ''transition'', ''Transition node state''),
      (''group'', ''create'', ''Create device groups''), (''group'', ''read'', ''View device groups''),
      (''group'', ''update'', ''Update device groups''), (''group'', ''delete'', ''Delete device groups''),
      (''user'', ''create'', ''Create users''), (''user'', ''read'', ''View users''),
      (''user'', ''update'', ''Update users''), (''user'', ''delete'', ''Delete users''),
      (''workflow'', ''read'', ''View workflows''), (''workflow'', ''execute'', ''Execute workflows''),
      (''storage'', ''create'', ''Create storage backends''),
      (''storage'', ''read'', ''View storage backends''),
      (''storage'', ''update'', ''Update storage backends''),
      (''storage'', ''delete'', ''Delete storage backends''), (''system'', ''read'', ''View system info''),
      (''system'', ''configure'', ''Configure system settings''),
      (''approval'', ''read'', ''View approvals''), (''approval'', ''vote'', ''Vote on approvals''),
      (''approval'', ''manage'', ''Manage approval rules''), (''audit'', ''read'', ''View audit logs''),
      (''audit'', ''export'', ''Export audit logs''), (''ldap'', ''read'', ''View LDAP configurations''),
      (''ldap'', ''write'', ''Manage LDAP configurations'')]"

definition ROLES :: "(string \<times> string \<times> bool \<times> (string \<times> string) list option) list" where
  "ROLES =
     [(''admin'', ''Full system access'', True, None),
      (''operator'', ''Node and workflow management'', True, Some
        [(''node'', ''create''), (''node'', ''read''), (''node'', ''update''), (''node'', ''transition''),
         (''group'', ''read''), (''workflow'', ''read''), (''workflow'', ''execute''),
         (''storage'', ''read''), (''system'', ''read''), (''approval'', ''read''), (''approval'', ''vote'')]),
      (''viewer'', ''Read-only access'', True, Some
        [(''node'', ''read''), (''group'', ''read''), (''workflow'', ''read''), (''storage'', ''read''),
         (''system'', ''read''), (''approval'', ''read'')]),
      (''auditor'', ''Audit log access'', True, Some
        [(''node'', ''read''), (''group'', ''read''), (''system'', ''read''), (''audit'', ''read''),
         (''audit'', ''export'')])]"

definition USER_GROUPS :: "(string \<times> string \<times> bool \<times> string list) list" where
  "USER_GROUPS =
     [(''Administrators'', ''Full system administrators'', False, [''admin'']),
      (''Operators'', ''Node operators and workflow managers'', False, [''operator'']),
      (''Viewers'', ''Read-only access for monitoring'', False, [''viewer'']),
      (''Auditors'', ''Audit and compliance team'', False, [''auditor''])]"

section \<open>Seeding\<close>

datatype seed_row = SeedPermission string string | SeedRole string | SeedGroup string | SeedAdmin

type_synonym perm_map = "((string \<times> string) \<times> permission) list"

definition find_permission :: "string \<Rightarrow> string \<Rightarrow> access \<Rightarrow> permission option" where
  "find_permission resource action d = find (\<lambda>p. pe_resource p = resource \<and> pe_action p = action) (ax_permissions d)"

text \<open>The loops; the first argument after \<open>uuid\<close> is what is left of the list.\<close>

fun seed_permissions ::
    "(seed_row \<Rightarrow> string) \<Rightarrow> (string \<times> string \<times> string) list \<Rightarrow> perm_map \<Rightarrow> access \<Rightarrow> api_error + perm_map \<times> access" where
  "seed_permissions uuid [] perm_map d = Inr (perm_map, d)"
| "seed_permissions uuid ((resource, action, description) # ps) perm_map d =
     (case find_permission resource action d of
        Some perm \<Rightarrow> seed_permissions uuid ps (dict_put (resource, action) perm perm_map) d
      | None \<Rightarrow>
          let perm = \<lparr>pe_id = uuid (SeedPermission resource action), pe_resource = resource, pe_action = action,
                      pe_description = Some description\<rparr> in
          case sql_insert pe_id perm (ax_permissions d) of
            Inl _ \<Rightarrow> Inl ConstraintFailed
          | Inr rows \<Rightarrow> seed_permissions uuid ps (dict_put (resource, action) perm perm_map) (d\<lparr>ax_permissions := rows\<rparr>))"

definition add_links :: "string \<Rightarrow> string list \<Rightarrow> links \<Rightarrow> api_error + links" where
  "add_links owner ids ls =
     (let new = map (\<lambda>i. (owner, i)) ids in
      if distinct new \<and> set new \<inter> set ls = {} then Inr (ls @ new) else Inl ConstraintFailed)"

definition wanted :: "perm_map \<Rightarrow> (string \<times> string) list option \<Rightarrow> permission list" where
  "wanted perm_map permissions =
     (case permissions of None \<Rightarrow> map snd perm_map | Some ps \<Rightarrow> List.map_filter (map_of perm_map) ps)"

fun seed_roles ::
    "(seed_row \<Rightarrow> string) \<Rightarrow> perm_map \<Rightarrow> (string \<times> string \<times> bool \<times> (string \<times> string) list option) list
       \<Rightarrow> (string \<times> role) list \<Rightarrow> access \<Rightarrow> api_error + (string \<times> role) list \<times> access" where
  "seed_roles uuid perm_map [] role_map d = Inr (role_map, d)"
| "seed_roles uuid perm_map ((role_name, description, is_system_role, permissions) # rs) role_map d =
     (case sql_get ro_name role_name (ax_roles d) of
        Some role \<Rightarrow> seed_roles uuid perm_map rs (dict_put role_name role role_map) d
      | None \<Rightarrow>
          let role = \<lparr>ro_id = uuid (SeedRole role_name), ro_name = role_name, ro_description = Some description,
                      ro_is_system_role = is_system_role\<rparr> in
          case sql_insert ro_id role (ax_roles d) of
            Inl _ \<Rightarrow> Inl ConstraintFailed
          | Inr rows \<Rightarrow>
              ebind (add_links (ro_id role) (map pe_id (wanted perm_map permissions)) (ax_role_permissions d)) (\<lambda>links.
              seed_roles uuid perm_map rs (dict_put role_name role role_map)
                (d\<lparr>ax_roles := rows, ax_role_permissions := links\<rparr>)))"

fun seed_user_groups ::
    "(seed_row \<Rightarrow> string) \<Rightarrow> (string \<times> role) list \<Rightarrow> (string \<times> string \<times> bool \<times> string list) list
       \<Rightarrow> access \<Rightarrow> api_error + access" where
  "seed_user_groups uuid role_map [] d = Inr d"
| "seed_user_groups uuid role_map ((group_name, description, requires_approval, roles) # gs) d =
     (case sql_get ug_name group_name (ac_user_groups (ax_acc d)) of
        Some g \<Rightarrow> seed_user_groups uuid role_map gs d
      | None \<Rightarrow>
          let g = \<lparr>ug_id = uuid (SeedGroup group_name), ug_name = group_name, ug_description = Some description,
                       ug_requires_approval = requires_approval, ug_ldap_group_dn = None\<rparr> in
          case sql_insert ug_id g (ac_user_groups (ax_acc d)) of
            Inl _ \<Rightarrow> Inl ConstraintFailed
          | Inr rows \<Rightarrow>
              ebind (add_links (ug_id g) (map ro_id (List.map_filter (map_of role_map) roles)) (ax_group_roles d)) (\<lambda>links.
              seed_user_groups uuid role_map gs
                (d\<lparr>ax_acc := (ax_acc d)\<lparr>ac_user_groups := rows\<rparr>, ax_group_roles := links\<rparr>)))"

definition seed_admin_user :: "env \<Rightarrow> string \<Rightarrow> (seed_row \<Rightarrow> string) \<Rightarrow> (string \<times> role) list \<Rightarrow> access \<Rightarrow> access" where
  "seed_admin_user env salt uuid role_map d =
     (if ac_users (ax_acc d) \<noteq> [] then d
      else let admin = (new_user (uuid SeedAdmin) ''admin'' (Some ''admin@localhost'') (hash_password env salt ''admin'') ''admin'')
                 \<lparr>us_role_id := map_option ro_id (map_of role_map ''admin'')\<rparr>
           in d\<lparr>ax_acc := (ax_acc d)\<lparr>ac_users := [admin]\<rparr>\<rparr>)"

definition seed_database :: "env \<Rightarrow> string \<Rightarrow> (seed_row \<Rightarrow> string) \<Rightarrow> access \<Rightarrow> api_error + access" where
  "seed_database env salt uuid d =
     ebind (seed_permissions uuid PERMISSIONS [] d) (\<lambda>(perm_map, d).
     ebind (seed_roles uuid perm_map ROLES [] d) (\<lambda>(role_map, d).
     ebind (seed_user_groups uuid role_map USER_GROUPS d) (\<lambda>d.
     Inr (seed_admin_user env salt uuid role_map d))))"

text \<open>The tables of a new installation.\<close>

definition empty_access :: access where
  "empty_access = \<lparr>ax_acc = \<lparr>ac_users = [], ac_tokens = [], ac_audit = [], ac_user_groups = [], ac_members = []\<rparr>,
     ax_roles = [], ax_permissions = [], ax_role_permissions = [], ax_api_keys = [], ax_group_roles = [],
     ax_group_device_groups = [], ax_group_tags = [], ax_group_nodes = [], ax_escalation_roles = []\<rparr>"

section \<open>What each loop leaves\<close>

lemma find_permission_upd [simp]:
  "find_permission r a (d\<lparr>ax_roles := x, ax_role_permissions := y\<rparr>) = find_permission r a d"
  "find_permission r a (d\<lparr>ax_acc := z, ax_group_roles := y\<rparr>) = find_permission r a d"
  by (simp_all add: find_permission_def)

lemma seed_permissions_done:
  assumes "seed_permissions uuid ps m d = Inr (m', d')"
  shows "\<exists>rows. d' = d\<lparr>ax_permissions := ax_permissions d @ rows\<rparr>
      \<and> (\<forall>p \<in> set rows. (pe_resource p, pe_action p) \<in> (\<lambda>(r, a, _). (r, a)) ` set ps)
      \<and> list_all (\<lambda>(r, a, _). find_permission r a d' \<noteq> None) ps"
  using assms
proof (induction uuid ps m d rule: seed_permissions.induct)
  case (1 uuid m d)
  then show ?case by (auto intro!: exI [of _ "[]"])
next
  case (2 uuid resource action description ps m d)
  show ?case
  proof (cases "find_permission resource action d")
    case (Some perm)
    from "2.IH"(2) [OF Some] "2.prems" Some obtain rows where
      rows: "d' = d\<lparr>ax_permissions := ax_permissions d @ rows\<rparr>" "\<forall>p \<in> set rows. (pe_resource p, pe_action p) \<in> (\<lambda>(r, a, _). (r, a)) ` set ps"
        "list_all (\<lambda>(r, a, _). find_permission r a d' \<noteq> None) ps" by auto
    have "find_permission resource action d' = Some perm" using Some rows(1) by (simp add: find_permission_def find_append)
    then show ?thesis using rows by (intro exI [of _ rows]) auto
  next
    case None
    let ?perm = "\<lparr>pe_id = uuid (SeedPermission resource action), pe_resource = resource, pe_action = action, pe_description = Some description\<rparr>"
    have ins: "sql_insert pe_id ?perm (ax_permissions d) = Inr (ax_permissions d @ [?perm])"
      using "2.prems" None by (auto simp: sql_insert_def split: if_splits)
    have run: "seed_permissions uuid ps (dict_put (resource, action) ?perm m) (d\<lparr>ax_permissions := ax_permissions d @ [?perm]\<rparr>) = Inr (m', d')"
      using "2.prems" None ins by (simp add: Let_def)
    from "2.IH"(1) [OF None refl ins run] obtain rows where
      rows: "d' = d\<lparr>ax_permissions := (ax_permissions d @ [?perm]) @ rows\<rparr>" "\<forall>p \<in> set rows. (pe_resource p, pe_action p) \<in> (\<lambda>(r, a, _). (r, a)) ` set ps"
        "list_all (\<lambda>(r, a, _). find_permission r a d' \<noteq> None) ps" by auto
    have "find_permission resource action d' \<noteq> None" using rows(1) by (simp add: find_permission_def find_append split: option.splits)
    then show ?thesis using rows by (intro exI [of _ "?perm # rows"]) auto
  qed
qed

lemma seed_permissions_again:
  "list_all (\<lambda>(r, a, _). find_permission r a d \<noteq> None) ps \<Longrightarrow> \<exists>m'. seed_permissions uuid ps m d = Inr (m', d)"
  by (induction ps arbitrary: m) (auto split: option.splits)

lemma seed_roles_done:
  assumes "seed_roles uuid pm rs m d = Inr (m', d')"
  shows "(\<exists>roles links. d' = d\<lparr>ax_roles := ax_roles d @ roles, ax_role_permissions := links\<rparr>)
      \<and> list_all (\<lambda>(n, _). sql_get ro_name n (ax_roles d') \<noteq> None) rs"
  using assms
proof (induction uuid pm rs m d rule: seed_roles.induct)
  case (1 uuid pm m d)
  then show ?case by (auto intro!: exI [of _ "[]"] exI [of _ "ax_role_permissions d"])
next
  case (2 uuid pm n desc sys perms rs m d)
  show ?case
  proof (cases "sql_get ro_name n (ax_roles d)")
    case (Some role)
    from "2.IH"(2) [OF Some] "2.prems" Some obtain roles links where
      r: "d' = d\<lparr>ax_roles := ax_roles d @ roles, ax_role_permissions := links\<rparr>"
        "list_all (\<lambda>(n, _). sql_get ro_name n (ax_roles d') \<noteq> None) rs" by auto
    have "sql_get ro_name n (ax_roles d') \<noteq> None" using Some r(1) by (simp add: sql_get_def find_append)
    then show ?thesis using r by auto
  next
    case None
    let ?role = "\<lparr>ro_id = uuid (SeedRole n), ro_name = n, ro_description = Some desc, ro_is_system_role = sys\<rparr>"
    obtain links where ins: "sql_insert ro_id ?role (ax_roles d) = Inr (ax_roles d @ [?role])"
        and l: "add_links (ro_id ?role) (map pe_id (wanted pm perms)) (ax_role_permissions d) = Inr links"
      using "2.prems" None by (auto simp: sql_insert_def ebind_Inr_iff Let_def split: if_splits)
    have run: "seed_roles uuid pm rs (dict_put n ?role m) (d\<lparr>ax_roles := ax_roles d @ [?role], ax_role_permissions := links\<rparr>) = Inr (m', d')"
      using "2.prems" None ins l by (simp add: Let_def)
    from "2.IH"(1) [OF None refl ins run] obtain roles links' where
      r: "d' = d\<lparr>ax_roles := (ax_roles d @ [?role]) @ roles, ax_role_permissions := links'\<rparr>"
        "list_all (\<lambda>(n, _). sql_get ro_name n (ax_roles d') \<noteq> None) rs" by auto
    have "sql_get ro_name n (ax_roles d') \<noteq> None" using r(1) by (simp add: sql_get_def find_append split: option.splits)
    then show ?thesis using r by auto
  qed
qed

lemma seed_roles_again:
  "list_all (\<lambda>(n, _). sql_get ro_name n (ax_roles d) \<noteq> None) rs \<Longrightarrow> \<exists>m'. seed_roles uuid pm rs m d = Inr (m', d)"
  by (induction rs arbitrary: m) (auto split: option.splits)


lemma seed_user_groups_done:
  assumes "seed_user_groups uuid rm gs d = Inr d'"
  shows "(\<exists>groups links. d' = d\<lparr>ax_acc := (ax_acc d)\<lparr>ac_user_groups := ac_user_groups (ax_acc d) @ groups\<rparr>, ax_group_roles := links\<rparr>)
      \<and> list_all (\<lambda>(n, _). sql_get ug_name n (ac_user_groups (ax_acc d')) \<noteq> None) gs"
  using assms
proof (induction uuid rm gs d rule: seed_user_groups.induct)
  case (1 uuid rm d)
  then show ?case by (auto intro!: exI [of _ "[]"] exI [of _ "ax_group_roles d"])
next
  case (2 uuid rm n desc app roles gs d)
  show ?case
  proof (cases "sql_get ug_name n (ac_user_groups (ax_acc d))")
    case (Some g)
    from "2.IH"(2) [OF Some] "2.prems" Some obtain groups links where
      r: "d' = d\<lparr>ax_acc := (ax_acc d)\<lparr>ac_user_groups := ac_user_groups (ax_acc d) @ groups\<rparr>, ax_group_roles := links\<rparr>"
        "list_all (\<lambda>(n, _). sql_get ug_name n (ac_user_groups (ax_acc d')) \<noteq> None) gs" by auto
    have "sql_get ug_name n (ac_user_groups (ax_acc d')) \<noteq> None" using Some r(1) by (simp add: sql_get_def find_append)
    then show ?thesis using r by auto
  next
    case None
    let ?g = "\<lparr>ug_id = uuid (SeedGroup n), ug_name = n, ug_description = Some desc, ug_requires_approval = app, ug_ldap_group_dn = None\<rparr>"
    obtain links where ins: "sql_insert ug_id ?g (ac_user_groups (ax_acc d)) = Inr (ac_user_groups (ax_acc d) @ [?g])"
        and l: "add_links (ug_id ?g) (map ro_id (List.map_filter (map_of rm) roles)) (ax_group_roles d) = Inr links"
      using "2.prems" None by (auto simp: sql_insert_def ebind_Inr_iff Let_def split: if_splits)
    have run: "seed_user_groups uuid rm gs
        (d\<lparr>ax_acc := (ax_acc d)\<lparr>ac_user_groups := ac_user_groups (ax_acc d) @ [?g]\<rparr>, ax_group_roles := links\<rparr>) = Inr d'"
      using "2.prems" None ins l by (simp add: Let_def)
    from "2.IH"(1) [OF None refl ins run] obtain groups links' where
      r: "d' = d\<lparr>ax_acc := (ax_acc d)\<lparr>ac_user_groups := (ac_user_groups (ax_acc d) @ [?g]) @ groups\<rparr>, ax_group_roles := links'\<rparr>"
        "list_all (\<lambda>(n, _). sql_get ug_name n (ac_user_groups (ax_acc d')) \<noteq> None) gs" by auto
    have "sql_get ug_name n (ac_user_groups (ax_acc d')) \<noteq> None" using r(1) by (simp add: sql_get_def find_append split: option.splits)
    then show ?thesis using r by auto
  qed
qed

lemma seed_user_groups_again:
  "list_all (\<lambda>(n, _). sql_get ug_name n (ac_user_groups (ax_acc d)) \<noteq> None) gs \<Longrightarrow> seed_user_groups uuid rm gs d = Inr d"
  by (induction gs) (auto split: option.splits)

lemma seed_admin_user_frame:
  "\<exists>us. us \<noteq> [] \<and> seed_admin_user env salt uuid rm d = d\<lparr>ax_acc := (ax_acc d)\<lparr>ac_users := us\<rparr>\<rparr>"
proof (cases "ac_users (ax_acc d) = []")
  case True
  then show ?thesis by (auto simp: seed_admin_user_def Let_def)
next
  case False
  then show ?thesis by (intro exI [of _ "ac_users (ax_acc d)"]) (simp add: seed_admin_user_def)
qed

section \<open>The seeded installation\<close>

text \<open>What is true of a database after the seeding.\<close>

definition seeded :: "access \<Rightarrow> bool" where
  "seeded d \<longleftrightarrow> list_all (\<lambda>(r, a, _). find_permission r a d \<noteq> None) PERMISSIONS
     \<and> list_all (\<lambda>(n, _). sql_get ro_name n (ax_roles d) \<noteq> None) ROLES
     \<and> list_all (\<lambda>(n, _). sql_get ug_name n (ac_user_groups (ax_acc d)) \<noteq> None) USER_GROUPS \<and> ac_users (ax_acc d) \<noteq> []"

lemma seed_database_seeded:
  assumes "seed_database env salt uuid d = Inr d'"
  shows "seeded d' \<and> (\<forall>p \<in> set (ax_permissions d'). p \<in> set (ax_permissions d)
      \<or> (pe_resource p, pe_action p) \<in> (\<lambda>(r, a, _). (r, a)) ` set PERMISSIONS)"
proof -
  obtain pm d1 rm d2 d3 where s: "seed_permissions uuid PERMISSIONS [] d = Inr (pm, d1)"
      "seed_roles uuid pm ROLES [] d1 = Inr (rm, d2)" "seed_user_groups uuid rm USER_GROUPS d2 = Inr d3"
      "d' = seed_admin_user env salt uuid rm d3"
    using assms by (auto simp: seed_database_def ebind_Inr_iff)
  obtain us where us: "us \<noteq> []" "d' = d3\<lparr>ax_acc := (ax_acc d3)\<lparr>ac_users := us\<rparr>\<rparr>"
    using seed_admin_user_frame s(4) by metis
  note parts = seed_permissions_done [OF s(1)] seed_roles_done [OF s(2)] seed_user_groups_done [OF s(3)]
  from parts(1) obtain rows where p: "d1 = d\<lparr>ax_permissions := ax_permissions d @ rows\<rparr>"
      "\<forall>p \<in> set rows. (pe_resource p, pe_action p) \<in> (\<lambda>(r, a, _). (r, a)) ` set PERMISSIONS"
      "list_all (\<lambda>(r, a, _). find_permission r a d1 \<noteq> None) PERMISSIONS" by blast
  have e: "ax_permissions d' = ax_permissions d1" "ax_roles d' = ax_roles d2"
      "ac_user_groups (ax_acc d') = ac_user_groups (ax_acc d3)" "ac_users (ax_acc d') = us"
    using parts(2,3) us(2) by auto
  have "find_permission r a d' = find_permission r a d1" for r a using e(1) by (simp add: find_permission_def)
  then have "seeded d'" using p(3) parts(2,3) e us(1) by (simp add: seeded_def)
  then show ?thesis using p(1,2) e(1) by auto
qed

text \<open>C35: Seeding is idempotent: run on a database that was seeded before, with whatever ids and salt it
  draws, it changes nothing.\<close>

theorem seed_database_idempotent:
  assumes "seed_database env salt uuid d = Inr d'"
  shows "seed_database env' salt' uuid' d' = Inr d'"
proof -
  have "seeded d'" using seed_database_seeded [OF assms] by blast
  then have s: "list_all (\<lambda>(r, a, _). find_permission r a d' \<noteq> None) PERMISSIONS"
      "list_all (\<lambda>(n, _). sql_get ro_name n (ax_roles d') \<noteq> None) ROLES"
      "list_all (\<lambda>(n, _). sql_get ug_name n (ac_user_groups (ax_acc d')) \<noteq> None) USER_GROUPS" "ac_users (ax_acc d') \<noteq> []"
    by (simp_all add: seeded_def)
  obtain pm where "seed_permissions uuid' PERMISSIONS [] d' = Inr (pm, d')" using seed_permissions_again [OF s(1)] by blast
  moreover obtain rm where "seed_roles uuid' pm ROLES [] d' = Inr (rm, d')" using seed_roles_again [OF s(2)] by blast
  ultimately show ?thesis using seed_user_groups_again [OF s(3)] s(4) by (simp add: seed_database_def seed_admin_user_def)
qed

text \<open>The seeded tables with a readable choice of ids.\<close>

fun demo_uuid :: "seed_row \<Rightarrow> string" where
  "demo_uuid (SeedPermission r a) = ''p-'' @ r @ ''-'' @ a"
| "demo_uuid (SeedRole n) = ''r-'' @ n"
| "demo_uuid (SeedGroup n) = ''g-'' @ n"
| "demo_uuid SeedAdmin = ''u-admin''"

definition seeded_access :: access where
  "seeded_access = projr (seed_database demo_env ''s'' demo_uuid empty_access)"

lemma seeded_access_eq: "seed_database demo_env ''s'' demo_uuid empty_access = Inr seeded_access"
proof -
  have "isl (seed_database demo_env ''s'' demo_uuid empty_access) = False" by code_simp
  then show ?thesis by (simp add: seeded_access_def)
qed

theorem seed_database_idempotent_witness: "seed_database demo_env ''t'' (\<lambda>_. ''x'') seeded_access = Inr seeded_access"
  by (rule seed_database_idempotent [OF seeded_access_eq])

end
