(* ===== verification/ApprovalRules.thy ===== *)
theory ApprovalRules
  imports Approvals Seeds
begin

text \<open>
  The administration of approval rules (src/src/api/routes/approval_rules.py) behind the middleware
  and the permissions of \<open>Access\<close>, next to the approval table it feeds. The escalation role of a
  rule is its entry in \<open>ax_escalation_roles\<close>, where the deletion of a role resets it. Deleting a
  rule resets the rule of its approvals, as the relationship of the ORM does.
\<close>

section \<open>State and handlers\<close>

record rule_admin =
  rl_access :: access
  rl_rules :: "approval_rule list"
  rl_approvals :: "approval list"

record rule_create =
  ruc_name :: string
  ruc_scope_type :: string
  ruc_scope_id :: "string option"
  ruc_operations :: "string list"
  ruc_required_approvers :: int
  ruc_escalation_timeout_hours :: int
  ruc_escalation_role_id :: "string option"
  ruc_is_active :: bool
  ruc_priority :: int

record rule_update =
  ruu_name :: "string option"
  ruu_scope_type :: "string option"
  ruu_scope_id :: "string option"
  ruu_operations :: "string list option"
  ruu_required_approvers :: "int option"
  ruu_escalation_timeout_hours :: "int option"
  ruu_escalation_role_id :: "string option"
  ruu_is_active :: "bool option"
  ruu_priority :: "int option"

type_synonym 'a in_rules = "rule_admin \<times> (api_error + 'a)"

definition VALID_SCOPE_TYPES :: "string list" where
  "VALID_SCOPE_TYPES = [''device_group'', ''user_group'', ''global'']"

definition put_escalation :: "string \<Rightarrow> string option \<Rightarrow> rule_admin \<Rightarrow> access" where
  "put_escalation i e s =
     (rl_access s)\<lparr>ax_escalation_roles := dict_put i e (ax_escalation_roles (rl_access s))\<rparr>"

definition list_rules :: "rule_admin \<Rightarrow> approval_rule list" where
  "list_rules s = order_by (\<lambda>r q. ru_priority q < ru_priority r
      \<or> ru_priority r = ru_priority q \<and> str_le (ru_name r) (ru_name q)) (rl_rules s)"

definition get_rule :: "string \<Rightarrow> rule_admin \<Rightarrow> api_error + approval_rule" where
  "get_rule rule_id s = (case sql_get ru_id rule_id (rl_rules s) of None \<Rightarrow> Inl (Status 404) | Some r \<Rightarrow> Inr r)"

definition create_rule :: "string \<Rightarrow> rule_create \<Rightarrow> rule_admin \<Rightarrow> approval_rule in_rules" where
  "create_rule uuid data s =
     (if ruc_scope_type data \<notin> set VALID_SCOPE_TYPES then (s, Inl (Status 400))
      else if sql_get ru_name (ruc_name data) (rl_rules s) \<noteq> None then (s, Inl (Status 400))
      else let rule = \<lparr>ru_id = uuid, ru_name = ruc_name data, ru_scope_type = ruc_scope_type data,
                 ru_scope_id = ruc_scope_id data, ru_operations = Some (ruc_operations data),
                 ru_required_approvers = ruc_required_approvers data,
                 ru_escalation_timeout_hours = ruc_escalation_timeout_hours data,
                 ru_is_active = ruc_is_active data, ru_priority = ruc_priority data\<rparr> in
        case sql_insert ru_id rule (rl_rules s) of
          Inl _ \<Rightarrow> (s, Inl ConstraintFailed)
        | Inr rs \<Rightarrow> (s\<lparr>rl_rules := rs, rl_access := put_escalation uuid (ruc_escalation_role_id data) s\<rparr>, Inr rule))"

definition update_rule :: "string \<Rightarrow> rule_update \<Rightarrow> rule_admin \<Rightarrow> approval_rule in_rules" where
  "update_rule rule_id data s =
     (case sql_get ru_id rule_id (rl_rules s) of
        None \<Rightarrow> (s, Inl (Status 404))
      | Some r \<Rightarrow>
          if (case ruu_scope_type data of None \<Rightarrow> False | Some t \<Rightarrow> t \<notin> set VALID_SCOPE_TYPES) then (s, Inl (Status 400))
          else if (case ruu_name data of None \<Rightarrow> False
                   | Some n \<Rightarrow> \<exists>q \<in> set (rl_rules s). ru_name q = n \<and> ru_id q \<noteq> rule_id) then (s, Inl (Status 400))
          else let rule = r\<lparr>ru_name := set_or (ruu_name data) (ru_name r),
                 ru_scope_type := set_or (ruu_scope_type data) (ru_scope_type r),
                 ru_scope_id := (case ruu_scope_id data of None \<Rightarrow> ru_scope_id r | Some x \<Rightarrow> Some x),
                 ru_operations := (case ruu_operations data of None \<Rightarrow> ru_operations r | Some x \<Rightarrow> Some x),
                 ru_required_approvers := set_or (ruu_required_approvers data) (ru_required_approvers r),
                 ru_escalation_timeout_hours := set_or (ruu_escalation_timeout_hours data) (ru_escalation_timeout_hours r),
                 ru_is_active := set_or (ruu_is_active data) (ru_is_active r),
                 ru_priority := set_or (ruu_priority data) (ru_priority r)\<rparr> in
            (s\<lparr>rl_rules := save_row ru_id rule (rl_rules s),
               rl_access := (case ruu_escalation_role_id data of
                   None \<Rightarrow> rl_access s | Some e \<Rightarrow> put_escalation rule_id (Some e) s)\<rparr>, Inr rule))"

definition delete_rule :: "string \<Rightarrow> rule_admin \<Rightarrow> unit in_rules" where
  "delete_rule rule_id s =
     (case sql_get ru_id rule_id (rl_rules s) of
        None \<Rightarrow> (s, Inl (Status 404))
      | Some r \<Rightarrow>
          (s\<lparr>rl_rules := filter (\<lambda>q. ru_id q \<noteq> rule_id) (rl_rules s),
             rl_access := (rl_access s)\<lparr>ax_escalation_roles := dict_del rule_id (ax_escalation_roles (rl_access s))\<rparr>,
             rl_approvals := map (\<lambda>a. if ap_rule_id a = Some rule_id then a\<lparr>ap_rule_id := None\<rparr> else a) (rl_approvals s)\<rparr>,
           Inr ()))"

section \<open>Requests\<close>

datatype rule_op =
    ListRules
  | GetRule string
  | CreateRule string rule_create
  | UpdateRule string rule_update
  | DeleteRule string

fun rule_needed :: "rule_op \<Rightarrow> string \<times> string" where
  "rule_needed ListRules = (''approval_rule'', ''read'')"
| "rule_needed (GetRule i) = (''approval_rule'', ''read'')"
| "rule_needed (CreateRule uuid c) = (''approval_rule'', ''create'')"
| "rule_needed (UpdateRule i u) = (''approval_rule'', ''update'')"
| "rule_needed (DeleteRule i) = (''approval_rule'', ''delete'')"

text \<open>The response is the list of rules shown.\<close>

fun perform_rule :: "rule_op \<Rightarrow> rule_admin \<Rightarrow> approval_rule list in_rules" where
  "perform_rule ListRules s = (s, Inr (list_rules s))"
| "perform_rule (GetRule i) s = (s, map_sum id (\<lambda>r. [r]) (get_rule i s))"
| "perform_rule (CreateRule uuid c) s = map_prod id (map_sum id (\<lambda>r. [r])) (create_rule uuid c s)"
| "perform_rule (UpdateRule i u) s = map_prod id (map_sum id (\<lambda>r. [r])) (update_rule i u s)"
| "perform_rule (DeleteRule i) s = map_prod id (map_sum id (\<lambda>_. [])) (delete_rule i s)"

definition rule_request :: "env \<Rightarrow> http \<Rightarrow> rule_op \<Rightarrow> rule_admin \<Rightarrow> approval_rule list in_rules" where
  "rule_request env h op s =
     (case dispatch env h (rl_access s) of
        (d1, Inl e) \<Rightarrow> (s\<lparr>rl_access := d1\<rparr>, Inl e)
      | (d1, Inr st) \<Rightarrow>
          (case require_permission (rule_needed op) st d1 of
             Inl e \<Rightarrow> (s\<lparr>rl_access := d1\<rparr>, Inl e)
           | Inr u \<Rightarrow>
               (case perform_rule op (s\<lparr>rl_access := d1\<rparr>) of
                  (s2, Inl e) \<Rightarrow> (s\<lparr>rl_access := d1\<rparr>, Inl e)
                | (s2, Inr x) \<Rightarrow> (s2, Inr x))))"

text \<open>
  What happens to the tables: requests to the access routes, to these routes, requests and votes on
  approvals, and runs of the escalation job, which reads the rules.
\<close>

datatype rule_event =
    AccessEvent http access_op
  | RuleEvent http rule_op
  | ApprovalEvent datetime approval_request
  | EscalationEvent datetime

fun rule_route :: "env \<Rightarrow> (string \<Rightarrow> datetime option) \<Rightarrow> rule_event \<Rightarrow> rule_admin \<Rightarrow> route_error + rule_admin" where
  "rule_route env fromiso (AccessEvent h op) s = Inr (s\<lparr>rl_access := fst (access_request env fromiso (h, op) (rl_access s))\<rparr>)"
| "rule_route env fromiso (RuleEvent h op) s = Inr (fst (rule_request env h op s))"
| "rule_route env fromiso (ApprovalEvent now q) s = map_sum id (\<lambda>as. s\<lparr>rl_approvals := as\<rparr>) (approval_route (now, q) (rl_approvals s))"
| "rule_route env fromiso (EscalationEvent now) s = Inr (s\<lparr>rl_approvals := process_escalations now (rl_rules s) (rl_approvals s)\<rparr>)"

section \<open>Well-formed rules\<close>

definition rules_ok :: "rule_admin \<Rightarrow> bool" where
  "rules_ok s \<longleftrightarrow> keys_unique ru_id (rl_rules s) \<and> keys_unique ru_name (rl_rules s)
     \<and> (\<forall>r \<in> set (rl_rules s). ru_scope_type r \<in> set VALID_SCOPE_TYPES)
     \<and> fst ` set (ax_escalation_roles (rl_access s)) = ru_id ` set (rl_rules s)
     \<and> access_ok (rl_access s) \<and> approvals_inv (rl_approvals s)"


text \<open>No request changes the permissions, and a rule keeps its entry among the escalation roles.\<close>

definition same_frame :: "access \<Rightarrow> access \<Rightarrow> bool" where
  "same_frame d d' \<longleftrightarrow> ax_permissions d' = ax_permissions d
     \<and> map fst (ax_escalation_roles d') = map fst (ax_escalation_roles d)"

lemma role_handlers_frame:
  "create_role uuid c d = (d', Inr r) \<Longrightarrow> same_frame d d'"
  "update_role i u d = (d', Inr r) \<Longrightarrow> same_frame d d'"
  "delete_role i d = (d', Inr x) \<Longrightarrow> same_frame d d'"
  by (auto simp: create_role_def update_role_def delete_role_def same_frame_def Let_def split: if_splits sum.splits option.splits)

lemma account_handlers_frame:
  "create_service_account env fromiso uuid salt sc u d = (d', Inr v) \<Longrightarrow> same_frame d d'"
  "update_service_account fromiso i su d = (d', Inr v) \<Longrightarrow> same_frame d d'"
  "delete_service_account i d = (d', Inr x) \<Longrightarrow> same_frame d d'"
  by (auto simp: create_service_account_def update_service_account_def delete_service_account_def same_frame_def Let_def
      split: if_splits sum.splits option.splits)

lemma key_handlers_frame:
  "create_api_key env fromiso uuid salt kid secret i kc u d = (d', Inr k) \<Longrightarrow> same_frame d d'"
  "revoke_api_key i k' d = (d', Inr x) \<Longrightarrow> same_frame d d'"
  by (auto simp: create_api_key_def revoke_api_key_def same_frame_def Let_def split: if_splits sum.splits option.splits prod.splits)

lemma group_handlers_frame:
  "create_user_group uuid gc d = (d', Inr g) \<Longrightarrow> same_frame d d'"
  "update_user_group i gu d = (d', Inr g) \<Longrightarrow> same_frame d d'"
  "delete_user_group i d = (d', Inr x) \<Longrightarrow> same_frame d d'"
  "assign_members i us d = (d', Inr x) \<Longrightarrow> same_frame d d'"
  by (auto simp: create_user_group_def update_user_group_def delete_user_group_def assign_members_def same_frame_def Let_def
      split: if_splits sum.splits option.splits)

lemma assign_frame: "assign a i xs d = (d', Inr x) \<Longrightarrow> same_frame d d'"
  by (cases a) (auto simp: assign_def same_frame_def split: if_splits sum.splits)

lemma perform_frame: "perform env fromiso q u d = (d', Inr x) \<Longrightarrow> same_frame d d'"
  by (cases q) (auto simp: done_with_Inr dest: role_handlers_frame account_handlers_frame key_handlers_frame group_handlers_frame assign_frame)

lemma dispatch_same_frame: "same_frame d (fst (dispatch env h d))"
  by (rule dispatch_cases [of env h d]) (simp_all add: same_frame_def mark_used_def)

lemma access_request_frame: "same_frame d (fst (access_request env fromiso q d))"
proof (rule access_request_cases [of env fromiso q d])
  fix u x assume "perform env fromiso (snd q) u (fst (dispatch env (fst q) d)) = (fst (access_request env fromiso q d), Inr x)"
  from perform_frame [OF this] show ?thesis using dispatch_same_frame [of d env "fst q"] by (simp add: same_frame_def)
qed (simp add: dispatch_same_frame)

section \<open>Invariant\<close>

lemma escalation_ok: "access_ok (d\<lparr>ax_escalation_roles := e\<rparr>) = access_ok d"
proof -
  have "assigned a (d\<lparr>ax_escalation_roles := e\<rparr>) = assigned a d" for a by (cases a) simp_all
  then show ?thesis by (simp add: access_ok_def)
qed

lemma create_rule_ok:
  assumes "rules_ok s" and "create_rule uuid c s = (s', Inr r)"
  shows "rules_ok s'"
proof -
  have "ruc_scope_type c \<in> set VALID_SCOPE_TYPES" "ruc_name c \<notin> ru_name ` set (rl_rules s)" "uuid \<notin> ru_id ` set (rl_rules s)"
      "ru_id r = uuid" "ru_name r = ruc_name c" "ru_scope_type r = ruc_scope_type c"
      "s' = s\<lparr>rl_rules := rl_rules s @ [r], rl_access := put_escalation uuid (ruc_escalation_role_id c) s\<rparr>"
    using assms(2) by (auto simp: create_rule_def sql_insert_def sql_get_None_iff Let_def split: if_splits)
  then show ?thesis using assms(1) by (simp add: rules_ok_def put_escalation_def escalation_ok keys_unique_def)
qed

lemma update_rule_ok:
  assumes "rules_ok s" and "update_rule i u s = (s', Inr r)"
  shows "rules_ok s'"
proof -
  obtain r0 where g: "sql_get ru_id i (rl_rules s) = Some r0" using assms(2) by (auto simp: update_rule_def split: option.splits)
  from sql_get_SomeD [OF g] have r0: "r0 \<in> set (rl_rules s)" "ru_id r0 = i" by simp_all
  have u: "ru_id r = i" "rl_rules s' = save_row ru_id r (rl_rules s)" "rl_approvals s' = rl_approvals s"
      "ru_name r = set_or (ruu_name u) (ru_name r0)" "ru_scope_type r = set_or (ruu_scope_type u) (ru_scope_type r0)"
      "\<forall>n. ruu_name u = Some n \<longrightarrow> (\<forall>q \<in> set (rl_rules s). ru_name q = n \<longrightarrow> ru_id q = i)"
      "\<forall>t. ruu_scope_type u = Some t \<longrightarrow> t \<in> set VALID_SCOPE_TYPES"
      "rl_access s' = (case ruu_escalation_role_id u of None \<Rightarrow> rl_access s | Some e \<Rightarrow> put_escalation i (Some e) s)"
    using assms(2) g r0(2) by (auto simp: update_rule_def Let_def split: if_splits option.splits)
  have ok: "keys_unique ru_id (rl_rules s)" "keys_unique ru_name (rl_rules s)" using assms(1) by (simp_all add: rules_ok_def)
  have "ru_name h \<noteq> ru_name r" if "h \<in> set (rl_rules s)" "ru_id h \<noteq> ru_id r" for h
  proof (cases "ruu_name u")
    case None
    then have "ru_name r = ru_name r0" using u(4) by simp
    then show ?thesis using that ok(2) r0 u(1) by (auto simp: keys_unique_def distinct_map dest: inj_onD)
  next
    case (Some n)
    then show ?thesis using that u by auto
  qed
  then have "keys_unique ru_name (rl_rules s')"
    unfolding u(2) save_row_def by (intro replace_row_unique ok ballI impI) auto
  moreover have "ru_scope_type r \<in> set VALID_SCOPE_TYPES"
    using u(5,7) r0(1) assms(1) by (cases "ruu_scope_type u") (auto simp: rules_ok_def)
  moreover have "fst ` set (ax_escalation_roles (rl_access s')) = fst ` set (ax_escalation_roles (rl_access s))"
    using u(8) r0 assms(1) by (auto simp: put_escalation_def rules_ok_def split: option.splits)
  moreover have "ru_id ` set (save_row ru_id r (rl_rules s)) = ru_id ` set (rl_rules s)"
    by (metis save_row_keys list.set_map)
  moreover have "access_ok (rl_access s')"
    using u(8) assms(1) by (auto simp: put_escalation_def rules_ok_def escalation_ok split: option.splits)
  ultimately show ?thesis using assms(1) u(2,3) set_save_row_subset [of ru_id r "rl_rules s"] by (auto simp: rules_ok_def)
qed

lemma delete_rule_ok:
  assumes "rules_ok s" and "delete_rule i s = (s', Inr x)"
  shows "rules_ok s'"
proof -
  have s': "rl_rules s' = filter (\<lambda>q. ru_id q \<noteq> i) (rl_rules s)"
      "rl_access s' = (rl_access s)\<lparr>ax_escalation_roles := dict_del i (ax_escalation_roles (rl_access s))\<rparr>"
      "rl_approvals s' = map (\<lambda>a. if ap_rule_id a = Some i then a\<lparr>ap_rule_id := None\<rparr> else a) (rl_approvals s)"
    using assms(2) by (auto simp: delete_rule_def split: option.splits)
  have "fst ` set (dict_del i e) = fst ` set e - {i}" for e :: "(string \<times> string option) list" by (force simp: dict_del_def)
  moreover have "approvals_inv (rl_approvals s')"
    using assms(1) unfolding s'(3) by (intro approvals_inv_map) (auto simp: rules_ok_def approvals_inv_def approval_ok_def four_eyes_def)
  ultimately show ?thesis using assms(1) by (auto simp: rules_ok_def s' escalation_ok keys_unique_def distinct_map_filter)
qed

lemma perform_rule_ok: "rules_ok s \<Longrightarrow> perform_rule q s = (s', Inr x) \<Longrightarrow> rules_ok s'"
  by (cases q) (auto simp: map_prod_def map_sum_def get_rule_def split: prod.splits sum.splits option.splits
      dest: create_rule_ok update_rule_ok delete_rule_ok)

lemma rules_ok_access: "rules_ok s \<Longrightarrow> same_frame (rl_access s) d \<Longrightarrow> access_ok d \<Longrightarrow> rules_ok (s\<lparr>rl_access := d\<rparr>)"
  by (simp add: rules_ok_def same_frame_def) (metis list.set_map)

lemma rule_request_cases:
  obtains "fst (rule_request env h q s) = s\<lparr>rl_access := fst (dispatch env h (rl_access s))\<rparr>"
  | x where "perform_rule q (s\<lparr>rl_access := fst (dispatch env h (rl_access s))\<rparr>) = (fst (rule_request env h q s), Inr x)"
proof -
  obtain d1 r where D: "dispatch env h (rl_access s) = (d1, r)" by force
  show ?thesis
  proof (cases r)
    case (Inr st)
    obtain s2 y where P: "perform_rule q (s\<lparr>rl_access := d1\<rparr>) = (s2, y)" by force
    show ?thesis
    proof (cases "require_permission (rule_needed q) st d1")
      case (Inr u)
      then show ?thesis using that D P \<open>r = Inr st\<close> by (cases y) (simp_all add: rule_request_def)
    qed (use that D \<open>r = Inr st\<close> in \<open>simp add: rule_request_def\<close>)
  qed (use that D in \<open>simp add: rule_request_def\<close>)
qed

lemma rule_request_ok:
  assumes "rules_ok s"
  shows "rules_ok (fst (rule_request env h q s))"
proof -
  have "rules_ok (s\<lparr>rl_access := fst (dispatch env h (rl_access s))\<rparr>)"
    using assms rules_ok_access [OF assms dispatch_same_frame] dispatch_ok by (auto simp: rules_ok_def)
  then show ?thesis using perform_rule_ok rule_request_cases [of env h q s] by metis
qed

lemma rule_route_ok:
  assumes "rules_ok s" and "rule_route env fromiso q s = Inr s'"
  shows "rules_ok s'"
proof (cases q)
  case (AccessEvent h op)
  have "access_ok (fst (access_request env fromiso (h, op) (rl_access s)))"
    using access_route_ok [of "rl_access s" env fromiso "(h, op)"] assms(1) by (simp add: rules_ok_def access_route_def)
  then show ?thesis using AccessEvent assms rules_ok_access [OF assms(1) access_request_frame] by auto
next
  case (RuleEvent h op)
  then show ?thesis using assms rule_request_ok by auto
next
  case (ApprovalEvent now r)
  then obtain as where as: "approval_route (now, r) (rl_approvals s) = Inr as" "s' = s\<lparr>rl_approvals := as\<rparr>"
    using assms(2) by (cases "approval_route (now, r) (rl_approvals s)") auto
  then show ?thesis using assms(1) approval_api.handle_inv [OF _ as(1)] by (simp add: rules_ok_def)
next
  case (EscalationEvent now)
  have "approvals_inv (process_escalations now (rl_rules s) (rl_approvals s))"
    using approval_api.handle_inv [of "rl_approvals s" "(now, EscalationJob (rl_rules s))"] assms(1) by (simp add: rules_ok_def)
  moreover have "s' = s\<lparr>rl_approvals := process_escalations now (rl_rules s) (rl_approvals s)\<rparr>" using assms(2) EscalationEvent by simp
  ultimately show ?thesis using assms(1) by (simp add: rules_ok_def)
qed

interpretation rule_api: transactional "rule_route env fromiso" rules_ok
  by unfold_locales (rule rule_route_ok)


section \<open>Who administers rules\<close>

definition no_rule_permissions :: "rule_admin \<Rightarrow> bool" where
  "no_rule_permissions s \<longleftrightarrow> (\<forall>p \<in> set (ax_permissions (rl_access s)). pe_resource p \<noteq> ''approval_rule'')"

lemma perform_rule_permissions: "perform_rule q s = (s', Inr x) \<Longrightarrow> ax_permissions (rl_access s') = ax_permissions (rl_access s)"
  by (cases q) (auto simp: create_rule_def update_rule_def delete_rule_def put_escalation_def Let_def map_prod_def
      split: if_splits sum.splits option.splits prod.splits)

lemma rule_route_permissions:
  assumes "rule_route env fromiso q s = Inr s'"
  shows "ax_permissions (rl_access s') = ax_permissions (rl_access s)"
proof (cases q)
  case (AccessEvent h op)
  then show ?thesis using assms access_request_frame [of "rl_access s" env fromiso "(h, op)"] by (auto simp: same_frame_def)
next
  case (RuleEvent h op)
  have d: "ax_permissions (fst (dispatch env h (rl_access s))) = ax_permissions (rl_access s)"
    using dispatch_same_frame by (simp add: same_frame_def)
  have "ax_permissions (rl_access (fst (rule_request env h op s))) = ax_permissions (rl_access s)"
    by (rule rule_request_cases [of env h op s]) (use d perform_rule_permissions in \<open>fastforce+\<close>)
  then show ?thesis using RuleEvent assms by auto
next
  case (ApprovalEvent now r)
  then show ?thesis using assms by (cases "approval_route (now, r) (rl_approvals s)") auto
qed (use assms in auto)

lemma PERMISSIONS_no_rules: "list_all (\<lambda>(r, _). r \<noteq> ''approval_rule'') PERMISSIONS"
  by code_simp

lemma has_rule_permission:
  assumes "no_rule_permissions s" and "has_permission (rule_needed q) u (rl_access s)"
  shows "us_role u = ''admin''"
proof -
  have "fst (rule_needed q) = ''approval_rule''" by (cases q) simp_all
  then have "(pe_resource p, pe_action p) \<noteq> rule_needed q" if "p \<in> set (ax_permissions (rl_access s))" for p
    using that assms(1) by (metis fst_conv no_rule_permissions_def)
  then show ?thesis using assms(2) by (auto simp: has_permission_def role_permissions_def split: option.splits)
qed

text \<open>On an installation with the default permissions, whatever requests were served before, an approval
  rule is listed, shown, created, changed or deleted only for an active user whose role field is
  admin. No other role can be given the right: the routes ask for the permissions approval_rule:*,
  which do not exist, and not for the seeded approval:manage.\<close>

theorem approval_rules_admin_only:
  assumes "seed_database env0 salt uuid empty_access = Inr d" and "rl_access s0 = d" and "rules_ok s0"
    and "s = serve (rule_route env fromiso) qs s0" and "snd (rule_request env h q s) = Inr x"
  shows "\<exists>st u. snd (dispatch env h (rl_access s)) = Inr (Some st) \<and> us_id u = rs_user_id st
    \<and> u \<in> set (ac_users (ax_acc (rl_access s))) \<and> us_is_active u \<and> us_role u = ''admin''"
proof -
  have "\<forall>p \<in> set (ax_permissions d). (pe_resource p, pe_action p) \<in> (\<lambda>(r, a, _). (r, a)) ` set PERMISSIONS"
    using seed_database_seeded [OF assms(1)] by (simp add: empty_access_def)
  then have "no_rule_permissions s0"
    using PERMISSIONS_no_rules assms(2) by (fastforce simp: no_rule_permissions_def list_all_iff)
  then have n: "no_rule_permissions s" unfolding assms(4)
    by (rule rule_api.serve_preserves [where P = no_rule_permissions, OF assms(3)])
      (simp add: no_rule_permissions_def rule_route_permissions)
  obtain d1 r where D: "dispatch env h (rl_access s) = (d1, r)" by force
  have f: "ax_permissions d1 = ax_permissions (rl_access s)" "ax_acc d1 = ax_acc (rl_access s)"
    using dispatch_frame [of env h "rl_access s"] D by simp_all
  obtain st u where st: "r = Inr st" and u: "require_permission (rule_needed q) st d1 = Inr u"
    using assms(5) D by (auto simp: rule_request_def split: sum.splits)
  have "no_rule_permissions (s\<lparr>rl_access := d1\<rparr>)" using n f by (simp add: no_rule_permissions_def)
  then have "us_role u = ''admin''"
    using has_rule_permission [of "s\<lparr>rl_access := d1\<rparr>" q u] u by (auto simp: require_permission_def ebind_Inr_iff split: if_splits)
  then show ?thesis using u D st f
    by (auto simp: require_permission_def get_current_user_from_state_def ebind_Inr_iff split: if_splits option.splits dest!: sql_get_SomeD)
qed

section \<open>Rules and running requests\<close>

text \<open>A request for approval is judged by the rule as it was when the request was made: no sequence of
  requests to the rule routes changes the number of approvers, the votes, the status or the
  deadlines of any approval; only the reference to a deleted rule is reset.\<close>

theorem rules_do_not_touch_votes:
  assumes "\<forall>q \<in> set qs. \<exists>h op. q = RuleEvent h op" and "rules_ok s"
  shows "map (\<lambda>a. a\<lparr>ap_rule_id := None\<rparr>) (rl_approvals (serve (rule_route env fromiso) qs s))
    = map (\<lambda>a. a\<lparr>ap_rule_id := None\<rparr>) (rl_approvals s)"
proof (rule rule_api.serve_preserves [where P = "\<lambda>s'. map (\<lambda>a. a\<lparr>ap_rule_id := None\<rparr>) (rl_approvals s')
    = map (\<lambda>a. a\<lparr>ap_rule_id := None\<rparr>) (rl_approvals s)", OF assms(2) refl])
  fix q s1 s2
  assume "q \<in> set qs" and P: "map (\<lambda>a. a\<lparr>ap_rule_id := None\<rparr>) (rl_approvals s1) = map (\<lambda>a. a\<lparr>ap_rule_id := None\<rparr>) (rl_approvals s)"
    and r: "rule_route env fromiso q s1 = Inr s2"
  then obtain h op where q: "q = RuleEvent h op" using assms(1) by blast
  have keep: "map (\<lambda>a. a\<lparr>ap_rule_id := None\<rparr>) (rl_approvals t') = map (\<lambda>a. a\<lparr>ap_rule_id := None\<rparr>) (rl_approvals t)"
    if "perform_rule op t = (t', Inr x)" for t t' x
    using that by (cases op) (auto simp: create_rule_def update_rule_def delete_rule_def Let_def map_prod_def
        split: if_splits sum.splits option.splits prod.splits)
  have "map (\<lambda>a. a\<lparr>ap_rule_id := None\<rparr>) (rl_approvals (fst (rule_request env h op s1)))
      = map (\<lambda>a. a\<lparr>ap_rule_id := None\<rparr>) (rl_approvals s1)"
    by (rule rule_request_cases [of env h op s1]) (use keep in \<open>fastforce+\<close>)
  then show "map (\<lambda>a. a\<lparr>ap_rule_id := None\<rparr>) (rl_approvals s2) = map (\<lambda>a. a\<lparr>ap_rule_id := None\<rparr>) (rl_approvals s)"
    using P r q by simp
qed

text \<open>The routes accept a rule that wants no approvers, and a request made under such a rule is approved
  by the first vote, also by a rejection.\<close>

theorem rejection_approves:
  assumes "snd (create_rule uuid c s) = Inr rule" and "ruc_required_approvers c \<le> 0"
    and "create_approval_request now i rule op ri rn tt ti ds ad md as = Inr as'"
    and "t \<le> now + hours (ruc_escalation_timeout_hours c)" and "u \<noteq> ri" and "un \<noteq> rn"
  shows "\<exists>a as''. fst (cast_vote t i u un ''reject'' cm e as') = as'' \<and> sql_get ap_id i as'' = Some a \<and> ap_status a = ''approved''"
proof -
  have r: "ru_required_approvers rule = ruc_required_approvers c" "ru_escalation_timeout_hours rule = ruc_escalation_timeout_hours c"
    using assms(1) by (auto simp: create_rule_def Let_def split: if_splits sum.splits)
  obtain a where a: "as' = as @ [a]" "ap_id a = i" "i \<notin> ap_id ` set as" "ap_status a = ''pending''" "ap_votes a = []"
      "ap_required_approvers a = ruc_required_approvers c" "ap_expires_at a = now + hours (ruc_escalation_timeout_hours c)"
      "ap_requester_id a = Some ri" "ap_requester_name a = rn"
    using assms(3) r by (auto simp: create_approval_request_def sql_insert_def Let_def split: if_splits)
  have g: "sql_get ap_id i as' = Some a" using a(1-3) by (simp add: sql_get_append sql_get_None_iff)
  let ?a = "a\<lparr>ap_votes := [\<lparr>v_user_id = Some u, v_user_name = un, v_vote = ''reject'', v_comment = cm, v_is_escalation_vote = e\<rparr>],
    ap_status := ''approved'', ap_resolved_at := Some t\<rparr>"
  have "fst (cast_vote t i u un ''reject'' cm e as') = put_approval ?a as'"
    using g a assms(2,4-6) by (simp add: cast_vote_def tally_def count_votes_def Let_def)
  moreover have "sql_get ap_id i (put_approval ?a as') = Some ?a"
    using g a(2) sql_get_save_row [of ap_id i ?a as'] by (simp add: put_approval_def save_row_def)
  moreover have "ap_status ?a = ''approved''" by simp
  ultimately show ?thesis by blast
qed


text \<open>The seeded installation with one rule and a pending request made under it.\<close>

definition demo_rule :: approval_rule where
  "demo_rule = \<lparr>ru_id = ''r1'', ru_name = ''wipes'', ru_scope_type = ''global'', ru_scope_id = None, ru_operations = Some [''node.*''],
     ru_required_approvers = 2, ru_escalation_timeout_hours = 24, ru_is_active = True, ru_priority = 5\<rparr>"

definition demo_rules :: rule_admin where
  "demo_rules = \<lparr>rl_access = seeded_access\<lparr>ax_escalation_roles := [(''r1'', None)]\<rparr>, rl_rules = [demo_rule],
     rl_approvals = projr (create_approval_request 1 ''a1'' demo_rule ''node.wipe'' ''u1'' ''ann'' ''node'' ''n1'' ''wipe n1'' None None [])\<rparr>"

definition demo_http :: http where
  "demo_http = \<lparr>ht_now = 1, ht_path = ''/api/v1/approval-rules'', ht_header = Some ''Bearer u-admin'', ht_client_ip = ''ip''\<rparr>"

text \<open>One evaluation of the seeding gives what the witnesses need of it.\<close>

lemma seeded_facts:
  "case seed_database demo_env ''s'' demo_uuid empty_access of Inl _ \<Rightarrow> False | Inr d \<Rightarrow>
     ax_group_device_groups d = [] \<and> ax_group_tags d = [] \<and> ax_group_nodes d = [] \<and> distinct (ax_group_roles d)
     \<and> users_ok (ax_acc d) \<and> keys_unique ro_id (ax_roles d) \<and> keys_unique ro_name (ax_roles d) \<and> distinct (ax_role_permissions d)
     \<and> ax_api_keys d = [] \<and> ac_members (ax_acc d) = [] \<and> ax_escalation_roles d = []
     \<and> keys_unique ug_id (ac_user_groups (ax_acc d)) \<and> keys_unique ug_name (ac_user_groups (ax_acc d))
     \<and> snd (rule_request demo_env demo_http ListRules \<lparr>rl_access = d, rl_rules = [], rl_approvals = []\<rparr>) = Inr []"
  by code_simp

lemmas seeded_simps = seeded_facts [unfolded seeded_access_eq sum.case]

lemma seeded_access_ok: "access_ok seeded_access"
proof -
  have "distinct (assigned a seeded_access)" for a using seeded_simps by (cases a) simp_all
  then show ?thesis using seeded_simps by (simp add: access_ok_def keys_unique_def)
qed

lemma demo_rules_ok: "rules_ok demo_rules"
proof -
  have "approvals_inv (rl_approvals demo_rules)"
    by (simp add: demo_rules_def demo_rule_def create_approval_request_def sql_insert_def Let_def approvals_inv_def approval_ok_def
        four_eyes_def STATUSES_def keys_unique_def MAX_ESCALATIONS_def)
  moreover have "access_ok (rl_access demo_rules)" by (simp add: demo_rules_def escalation_ok seeded_access_ok)
  ultimately show ?thesis by (simp add: rules_ok_def) (simp add: demo_rules_def demo_rule_def keys_unique_def VALID_SCOPE_TYPES_def)
qed

lemma new_rules_ok: "rules_ok \<lparr>rl_access = seeded_access, rl_rules = [], rl_approvals = []\<rparr>"
  using seeded_simps by (simp add: rules_ok_def seeded_access_ok keys_unique_def approvals_inv_def)

theorem approval_rules_admin_only_witness:
  "\<exists>st u. snd (dispatch demo_env demo_http seeded_access) = Inr (Some st) \<and> us_id u = rs_user_id st
    \<and> u \<in> set (ac_users (ax_acc seeded_access)) \<and> us_is_active u \<and> us_role u = ''admin''"
proof -
  let ?s = "\<lparr>rl_access = seeded_access, rl_rules = [], rl_approvals = []\<rparr>"
  show ?thesis
    using approval_rules_admin_only [OF seeded_access_eq _ new_rules_ok, where qs = "[]" and env = demo_env and h = demo_http and q = ListRules and s = ?s]
      seeded_simps by simp
qed

theorem rules_do_not_touch_votes_witness:
  "map (\<lambda>a. a\<lparr>ap_rule_id := None\<rparr>) (rl_approvals (serve (rule_route demo_env (\<lambda>_. None)) [RuleEvent demo_http (DeleteRule ''r1'')] demo_rules))
    = map (\<lambda>a. a\<lparr>ap_rule_id := None\<rparr>) (rl_approvals demo_rules)"
  by (rule rules_do_not_touch_votes) (simp_all add: demo_rules_ok)

definition free_rule :: rule_create where
  "free_rule = \<lparr>ruc_name = ''free'', ruc_scope_type = ''global'', ruc_scope_id = None, ruc_operations = [''node.*''],
     ruc_required_approvers = 0, ruc_escalation_timeout_hours = 24, ruc_escalation_role_id = None, ruc_is_active = True, ruc_priority = 5\<rparr>"

theorem rejection_approves_witness:
  "\<exists>rule as' a as''. snd (create_rule ''r2'' free_rule demo_rules) = Inr rule
     \<and> create_approval_request 1 ''a2'' rule ''node.wipe'' ''u1'' ''ann'' ''node'' ''n1'' ''wipe n1'' None None [] = Inr as'
     \<and> fst (cast_vote 5 ''a2'' ''u2'' ''bob'' ''reject'' None False as') = as'' \<and> sql_get ap_id ''a2'' as'' = Some a
     \<and> ap_status a = ''approved''"
proof -
  obtain rule where r: "snd (create_rule ''r2'' free_rule demo_rules) = Inr rule"
    by (auto simp: create_rule_def free_rule_def VALID_SCOPE_TYPES_def demo_rules_def demo_rule_def sql_get_def sql_insert_def Let_def)
  obtain as' where a: "create_approval_request 1 ''a2'' rule ''node.wipe'' ''u1'' ''ann'' ''node'' ''n1'' ''wipe n1'' None None [] = Inr as'"
    by (simp add: create_approval_request_def sql_insert_def Let_def)
  show ?thesis using rejection_approves [OF r _ a, of 5 "''u2''" "''bob''" None False] r a by (simp add: free_rule_def)
qed

end
