(* ===== verification/Storage.thy ===== *)
theory Storage
  imports ContentCache Wire
begin

text \<open>
  The storage backends, src/src/core/storage.py: the NFS service on a mounted share, the read-only
  HTTP service, the S3 service, and the iSCSI service, which offers no files.

  A share is an association list from paths to folders and contents, without symbolic links: no
  operation makes one. Below the mount point there is also a local directory, which the operations
  reach while the share is not mounted. Whether a mount command succeeds is a parameter of each
  operation; so are the replies of HTTP and S3 servers, which may depend on all S3 requests made
  before, and the table of MIME types. Times of modification are left out.
\<close>

section \<open>Files of a share\<close>

datatype item = Folder | Content string

type_synonym tree = "(path \<times> item) list"

datatype store_error = FileNotFound | BadValue | OsFailure

record file_info =
  fi_name :: string
  fi_path :: string
  fi_type :: string
  fi_size :: "int option"
  fi_mime_type :: "string option"
  fi_item_count :: "nat option"

definition directory_info :: "string \<Rightarrow> string \<Rightarrow> nat option \<Rightarrow> file_info" where
  "directory_info name path item_count =
     \<lparr>fi_name = name, fi_path = path, fi_type = ''directory'', fi_size = None, fi_mime_type = None, fi_item_count = item_count\<rparr>"

definition content_info :: "(string \<Rightarrow> string option) \<Rightarrow> string \<Rightarrow> string \<Rightarrow> int option \<Rightarrow> file_info" where
  "content_info guess_type name path sz =
     \<lparr>fi_name = name, fi_path = path, fi_type = ''file'', fi_size = sz, fi_mime_type = guess_type name, fi_item_count = None\<rparr>"

text \<open>\<open>sorted(files, key=lambda f: (f.type != "directory", f.name.lower()))\<close>\<close>

definition listed_before :: "file_info \<Rightarrow> file_info \<Rightarrow> bool" where
  "listed_before f g =
     (if (fi_type f = ''directory'') = (fi_type g = ''directory'') then str_le (lower (fi_name f)) (lower (fi_name g))
      else fi_type f = ''directory'')"

definition within :: "path \<Rightarrow> path \<Rightarrow> bool" where
  "within p q \<longleftrightarrow> take (length p) q = p"

definition children :: "path \<Rightarrow> tree \<Rightarrow> tree" where
  "children p t = filter (\<lambda>(q, i). q \<noteq> [] \<and> butlast q = p) t"

definition remove_tree :: "path \<Rightarrow> tree \<Rightarrow> tree" where
  "remove_tree p t = filter (\<lambda>(q, i). \<not> within p q) t"

definition rename_tree :: "path \<Rightarrow> path \<Rightarrow> tree \<Rightarrow> tree" where
  "rename_tree src dst t = map (\<lambda>(q, i). (if within src q then dst @ drop (length src) q else q, i)) t"

text \<open>\<open>mkdir(parents=True)\<close> and \<open>os.makedirs\<close>, from the root downwards.\<close>

fun make_folders :: "path \<Rightarrow> path \<Rightarrow> tree \<Rightarrow> store_error + tree" where
  "make_folders pre [] t = Inr t"
| "make_folders pre (c # cs) t =
     (case map_of t (pre @ [c]) of
        None \<Rightarrow> make_folders (pre @ [c]) cs (dict_put (pre @ [c]) Folder t)
      | Some Folder \<Rightarrow> make_folders (pre @ [c]) cs t
      | Some (Content _) \<Rightarrow> Inl OsFailure)"

fun read_chunks :: "nat \<Rightarrow> string \<Rightarrow> string list" where
  "read_chunks n s = (if n = 0 \<or> s = [] then [] else take n s # read_chunks n (drop n s))"

declare read_chunks.simps [simp del]

section \<open>NFS\<close>

record nfs =
  nf_mounted :: bool
  nf_share :: tree
  nf_local :: "tree option"

type_synonym 'a nfs_run = "nfs \<times> (store_error + 'a)"

definition mount_point :: "string \<Rightarrow> path" where
  "mount_point backend_id = [''tmp'', ''pureboot'', ''nfs'', backend_id]"

definition nfs_tree :: "nfs \<Rightarrow> tree" where
  "nfs_tree n = (if nf_mounted n then nf_share n else case nf_local n of None \<Rightarrow> [] | Some t \<Rightarrow> t)"

definition put_tree :: "tree \<Rightarrow> nfs \<Rightarrow> nfs" where
  "put_tree t n = (if nf_mounted n then n\<lparr>nf_share := t\<rparr> else n\<lparr>nf_local := Some t\<rparr>)"

text \<open>What is found at a path; the mount point itself is a directory, if it exists.\<close>

definition nfs_item :: "nfs \<Rightarrow> path \<Rightarrow> item option" where
  "nfs_item n p =
     (if p = [] then (if nf_mounted n \<or> nf_local n \<noteq> None then Some Folder else None) else map_of (nfs_tree n) p)"

definition nfs_mount :: "bool \<Rightarrow> nfs \<Rightarrow> nfs \<times> bool" where
  "nfs_mount works n =
     (if nf_mounted n then (n, True)
      else let n = n\<lparr>nf_local := Some (case nf_local n of None \<Rightarrow> [] | Some t \<Rightarrow> t)\<rparr> in
        if works then (n\<lparr>nf_mounted := True\<rparr>, True) else (n, False))"

definition nfs_unmount :: "bool \<Rightarrow> nfs \<Rightarrow> nfs" where
  "nfs_unmount works n = (if nf_mounted n \<and> works then n\<lparr>nf_mounted := False\<rparr> else n)"

text \<open>The statistics: the file count, or nothing while the share cannot be mounted.\<close>

definition nfs_get_stats :: "bool \<Rightarrow> nfs \<Rightarrow> nfs \<times> nat option" where
  "nfs_get_stats works n =
     (case (if nf_mounted n then (n, True) else nfs_mount works n) of
        (n, False) \<Rightarrow> (n, None)
      | (n, True) \<Rightarrow> (n, Some (length (filter (\<lambda>(q, i). i \<noteq> Folder) (nfs_tree n)))))"

text \<open>\<open>if not os.path.ismount(...): await self.mount()\<close>: the result of the mount is not looked at.\<close>

definition ensure_mounted :: "bool \<Rightarrow> nfs \<Rightarrow> nfs" where
  "ensure_mounted works n = (if nf_mounted n then n else fst (nfs_mount works n))"

definition parts :: "string \<Rightarrow> path" where
  "parts s = filter (\<lambda>c. c \<noteq> [] \<and> c \<noteq> ''.'') (split_on (CHR ''/'') s)"

text \<open>The result is the path relative to the mount point.\<close>

definition validate_path :: "path \<Rightarrow> string \<Rightarrow> store_error + path" where
  "validate_path base path =
     (if contains ''..'' path then Inl BadValue
      else let clean_path = lstrip_slash path in
        if within base (resolve base clean_path) then Inr (parts clean_path) else Inl BadValue)"

definition item_info :: "(string \<Rightarrow> string option) \<Rightarrow> tree \<Rightarrow> path \<times> item \<Rightarrow> file_info" where
  "item_info guess_type t e = (case e of
     (q, Folder) \<Rightarrow> directory_info (last q) (path_str q) (Some (length (children q t)))
   | (q, Content s) \<Rightarrow> content_info guess_type (last q) (path_str q) (Some (int (length s))))"

definition nfs_list_files :: "(string \<Rightarrow> string option) \<Rightarrow> path \<Rightarrow> bool \<Rightarrow> string \<Rightarrow> nfs \<Rightarrow> file_info list nfs_run" where
  "nfs_list_files guess_type base works path n0 =
     (let n = ensure_mounted works n0 in
      (n, ebind (validate_path base path) (\<lambda>target.
        case nfs_item n target of
          None \<Rightarrow> Inl FileNotFound
        | Some (Content _) \<Rightarrow> Inl BadValue
        | Some Folder \<Rightarrow> Inr (order_by listed_before (map (item_info guess_type (nfs_tree n)) (children target (nfs_tree n)))))))"

definition nfs_download_file ::
    "(string \<Rightarrow> string option) \<Rightarrow> path \<Rightarrow> bool \<Rightarrow> string \<Rightarrow> nfs \<Rightarrow> (string list \<times> string \<times> int) nfs_run" where
  "nfs_download_file guess_type base works path n0 =
     (let n = ensure_mounted works n0 in
      (n, ebind (validate_path base path) (\<lambda>target.
        case nfs_item n target of
          None \<Rightarrow> Inl FileNotFound
        | Some Folder \<Rightarrow> Inl BadValue
        | Some (Content s) \<Rightarrow>
            Inr (read_chunks 8192 s, set_or (guess_type (last target)) ''application/octet-stream'', int (length s)))))"

definition nfs_upload_file ::
    "(string \<Rightarrow> string option) \<Rightarrow> path \<Rightarrow> bool \<Rightarrow> string \<Rightarrow> string \<Rightarrow> string list \<Rightarrow> nfs \<Rightarrow> file_info nfs_run" where
  "nfs_upload_file guess_type base works path filename content n0 =
     (let n = ensure_mounted works n0 in
      case validate_path base path of
        Inl e \<Rightarrow> (n, Inl e)
      | Inr target_dir \<Rightarrow>
          if nfs_item n target_dir = None then (n, Inl FileNotFound)
          else if CHR ''/'' \<in> set filename \<or> contains ''..'' filename then (n, Inl BadValue)
          else let target_file = target_dir @ parts filename in
            if nfs_item n target_dir \<noteq> Some Folder \<or> nfs_item n target_file = Some Folder then (n, Inl OsFailure)
            else (put_tree (dict_put target_file (Content (concat content)) (nfs_tree n)) n,
                  Inr (content_info guess_type filename (path_str target_file) (Some (int (length (concat content)))))))"

fun nfs_delete_each :: "path \<Rightarrow> string list \<Rightarrow> nat \<Rightarrow> nfs \<Rightarrow> nat nfs_run" where
  "nfs_delete_each base [] deleted n = (n, Inr deleted)"
| "nfs_delete_each base (path # paths) deleted n =
     (case validate_path base path of
        Inl e \<Rightarrow> (n, Inl e)
      | Inr target \<Rightarrow>
          (case nfs_item n target of
             None \<Rightarrow> nfs_delete_each base paths deleted n
           | Some i \<Rightarrow>
               if target = [] then
                 (if nf_mounted n then (n\<lparr>nf_share := []\<rparr>, Inl OsFailure)
                  else nfs_delete_each base paths (Suc deleted) (n\<lparr>nf_local := None\<rparr>))
               else nfs_delete_each base paths (Suc deleted) (put_tree (remove_tree target (nfs_tree n)) n)))"

definition nfs_delete_files :: "path \<Rightarrow> bool \<Rightarrow> string list \<Rightarrow> nfs \<Rightarrow> nat nfs_run" where
  "nfs_delete_files base works paths n = nfs_delete_each base paths 0 (ensure_mounted works n)"

definition nfs_create_folder :: "path \<Rightarrow> bool \<Rightarrow> string \<Rightarrow> nfs \<Rightarrow> file_info nfs_run" where
  "nfs_create_folder base works path n0 =
     (let n = ensure_mounted works n0 in
      case validate_path base path of
        Inl e \<Rightarrow> (n, Inl e)
      | Inr target \<Rightarrow>
          if nfs_item n target \<noteq> None then (n, Inl BadValue)
          else case make_folders [] target (nfs_tree n) of
            Inl e \<Rightarrow> (n, Inl e)
          | Inr t \<Rightarrow> (put_tree t n, Inr (directory_info (last target) path (Some 0))))"

text \<open>
  \<open>shutil.move\<close>: a rename; where that fails because the parent of the destination is missing, a
  directory is copied with its new parents and a file is not.
\<close>

definition file_above :: "path \<Rightarrow> tree \<Rightarrow> bool" where
  "file_above p t = list_ex (\<lambda>k. case map_of t (take k p) of Some (Content s) \<Rightarrow> True | _ \<Rightarrow> False) [1..<length p]"

definition move_tree :: "path \<Rightarrow> path \<Rightarrow> nfs \<Rightarrow> store_error + tree" where
  "move_tree src dst n =
     (let t = nfs_tree n in
      if nfs_item n src = Some Folder \<and> within src dst then Inl OsFailure
      else if nfs_item n (butlast dst) = Some Folder then Inr (rename_tree src dst t)
      else if nfs_item n src = Some Folder then ebind (make_folders [] (butlast dst) t) (\<lambda>t. Inr (rename_tree src dst t))
      else if file_above dst t then Inl OsFailure else Inl FileNotFound)"

definition nfs_move_file :: "(string \<Rightarrow> string option) \<Rightarrow> path \<Rightarrow> bool \<Rightarrow> string \<Rightarrow> string \<Rightarrow> nfs \<Rightarrow> file_info nfs_run" where
  "nfs_move_file guess_type base works source destination n0 =
     (let n = ensure_mounted works n0 in
      case ebind (validate_path base source) (\<lambda>src. ebind (validate_path base destination) (\<lambda>dst.
             if nfs_item n src = None then Inl FileNotFound
             else if nfs_item n dst \<noteq> None then Inl BadValue
             else ebind (move_tree src dst n) (\<lambda>t. Inr (dst, t)))) of
        Inl e \<Rightarrow> (n, Inl e)
      | Inr (dst, t) \<Rightarrow>
          (put_tree t n,
           Inr (case map_of t dst of
                  Some (Content s) \<Rightarrow> content_info guess_type (last dst) destination (Some (int (length s)))
                | _ \<Rightarrow> directory_info (last dst) destination (Some (length (children dst t))))))"

section \<open>HTTP\<close>

datatype http_reply = Reply int "string option" "int option" "string list" | ReplyError

definition http_download_file :: "(string \<Rightarrow> http_reply) \<Rightarrow> string \<Rightarrow> string \<Rightarrow> store_error + string list \<times> string \<times> int" where
  "http_download_file get base_url path =
     (if contains ''..'' path then Inl BadValue
      else case get (base_url @ path) of
        ReplyError \<Rightarrow> Inl BadValue
      | Reply status content_type content_length chunks \<Rightarrow>
          if status = 404 then Inl FileNotFound
          else if status \<ge> 400 then Inl BadValue
          else Inr (chunks, set_or content_type ''application/octet-stream'', set_or content_length 0))"

text \<open>
  The pattern \<open><a\s+href="([^"]+)"[^>]*>([^<]+)</a>\<close>, without case: each part ends where the next one
  must begin, so there is one way to match at a place.
\<close>

definition after_prefix :: "string \<Rightarrow> string \<Rightarrow> string option" where
  "after_prefix p s = (if startswith (lower s) p then Some (drop (length p) s) else None)"

definition until :: "char \<Rightarrow> string \<Rightarrow> string \<times> string" where
  "until c s = (takeWhile (\<lambda>x. x \<noteq> c) s, dropWhile (\<lambda>x. x \<noteq> c) s)"

definition match_link :: "string \<Rightarrow> ((string \<times> string) \<times> string) option" where
  "match_link s =
     Option.bind (after_prefix ''<a'' s) (\<lambda>s1.
       if s1 = [] \<or> \<not> is_space (hd s1) then None
       else Option.bind (after_prefix ''href='' (dropWhile is_space s1)) (\<lambda>s2.
         if s2 = [] \<or> hd s2 \<noteq> CHR 0x22 then None
         else let (href, s4) = until (CHR 0x22) (tl s2) in
           if href = [] \<or> s4 = [] then None
           else let (skipped, s5) = until (CHR ''>'') (tl s4) in
             if s5 = [] then None
             else let (name, s6) = until (CHR ''<'') (tl s5) in
               if name = [] then None
               else map_option (Pair (href, name)) (after_prefix ''</a>'' s6)))"

text \<open>\<open>re.finditer\<close>: after a match the search goes on behind it, or at the next place.\<close>

function find_all :: "(string \<Rightarrow> ('a \<times> string) option) \<Rightarrow> string \<Rightarrow> 'a list" where
  "find_all f s =
     (if s = [] then []
      else case f s of
        None \<Rightarrow> find_all f (tl s)
      | Some (x, rest) \<Rightarrow> x # find_all f (if length rest < length s then rest else tl s))"
  by pat_completeness auto
termination by (relation "measure (\<lambda>(f, s). length s)") auto

declare find_all.simps [simp del]

text \<open>\<open>s.rstrip("/")\<close>\<close>

definition rstrip_slash :: "string \<Rightarrow> string" where
  "rstrip_slash s = rev (dropWhile (\<lambda>c. c = CHR ''/'') (rev s))"

definition link_info :: "(string \<Rightarrow> string option) \<Rightarrow> string \<Rightarrow> string \<times> string \<Rightarrow> file_info option" where
  "link_info guess_type base_path link = (case link of (href, raw) \<Rightarrow>
     let name = strip raw in
     if name \<in> set [''../'', ''..'', ''Parent Directory'', ''Name'', []] then None
     else if startswith href ''?'' \<or> startswith href ''/'' then None
     else let clean_name = rstrip_slash name;
              file_path = (if base_path = ''/'' then ''/'' @ clean_name else rstrip_slash base_path @ ''/'' @ clean_name)
       in Some (if endswith href ''/'' then directory_info clean_name file_path None
                else content_info guess_type clean_name file_path None))"

definition parse_directory_listing :: "(string \<Rightarrow> string option) \<Rightarrow> string \<Rightarrow> string \<Rightarrow> file_info list" where
  "parse_directory_listing guess_type html base_path =
     order_by listed_before (List.map_filter (link_info guess_type base_path) (find_all match_link html))"

definition http_list_files :: "(string \<Rightarrow> string option) \<Rightarrow> (string \<Rightarrow> http_reply) \<Rightarrow> string \<Rightarrow> string \<Rightarrow> store_error + file_info list" where
  "http_list_files guess_type get base_url path =
     (if contains ''..'' path then Inl BadValue
      else let url = base_url @ path; url = (if endswith url ''/'' then url else url @ ''/'') in
        case get url of
          ReplyError \<Rightarrow> Inl BadValue
        | Reply status content_type content_length chunks \<Rightarrow>
            if status = 404 then Inl FileNotFound
            else if status \<ge> 400 then Inl BadValue
            else Inr (parse_directory_listing guess_type (concat chunks) path))"

definition http_test_connection :: "(string \<Rightarrow> http_reply) \<Rightarrow> string \<Rightarrow> bool" where
  "http_test_connection head base_url =
     (case head base_url of Reply status ct cl chunks \<Rightarrow> status < 400 | ReplyError \<Rightarrow> False)"

section \<open>S3\<close>

text \<open>The requests to the object store, with the URL of the object; \<open>Copy\<close> names its source in a header.\<close>

datatype s3_call = S3Get string | S3Put string string | S3Copy string string | S3Delete string

text \<open>The store answers a request by what it was asked before (the log, the latest request last).\<close>

type_synonym s3_server = "s3_call list \<Rightarrow> s3_call \<Rightarrow> http_reply"

definition s3_refused :: "http_reply \<Rightarrow> bool" where
  "s3_refused r = (case r of ReplyError \<Rightarrow> True | Reply status ct cl chunks \<Rightarrow> status \<ge> 400)"

definition s3_url :: "string \<Rightarrow> string \<Rightarrow> string \<Rightarrow> string" where
  "s3_url endpoint bucket key = endpoint @ ''/'' @ bucket @ ''/'' @ key"

type_synonym 'a s3_run = "s3_call list \<times> (store_error + 'a)"

definition s3_download_file :: "s3_server \<Rightarrow> string \<Rightarrow> string \<Rightarrow> string \<Rightarrow> s3_call list \<Rightarrow> (string list \<times> string \<times> int) s3_run" where
  "s3_download_file server endpoint bucket path log =
     (if contains ''..'' path then (log, Inl BadValue)
      else let call = S3Get (s3_url endpoint bucket (lstrip_slash path)) in
        (log @ [call],
         case server log call of
           ReplyError \<Rightarrow> Inl BadValue
         | Reply status content_type content_length chunks \<Rightarrow>
             if status = 404 then Inl FileNotFound
             else if status \<ge> 400 then Inl BadValue
             else Inr (chunks, set_or content_type ''application/octet-stream'', set_or content_length 0)))"

definition s3_upload_file ::
    "(string \<Rightarrow> string option) \<Rightarrow> s3_server \<Rightarrow> string \<Rightarrow> string \<Rightarrow> string \<Rightarrow> string \<Rightarrow> string list \<Rightarrow> s3_call list \<Rightarrow> file_info s3_run" where
  "s3_upload_file guess_type server endpoint bucket path filename content log =
     (if contains ''..'' path \<or> contains ''..'' filename then (log, Inl BadValue)
      else let base = rstrip_slash (lstrip_slash path);
               key = (if base \<noteq> [] then base @ ''/'' @ filename else filename);
               data = concat content; call = S3Put (s3_url endpoint bucket key) data in
        (log @ [call],
         if s3_refused (server log call) then Inl BadValue
         else Inr (content_info guess_type filename (''/'' @ key) (Some (int (length data))))))"

fun s3_delete_files :: "s3_server \<Rightarrow> string \<Rightarrow> string \<Rightarrow> string list \<Rightarrow> s3_call list \<Rightarrow> s3_call list \<times> nat" where
  "s3_delete_files server endpoint bucket [] log = (log, 0)"
| "s3_delete_files server endpoint bucket (path # paths) log =
     (if contains ''..'' path then s3_delete_files server endpoint bucket paths log
      else let call = S3Delete (s3_url endpoint bucket (lstrip_slash path));
               (log', deleted) = s3_delete_files server endpoint bucket paths (log @ [call])
           in (log', if s3_refused (server log call) then deleted else Suc deleted))"

definition s3_create_folder :: "s3_server \<Rightarrow> string \<Rightarrow> string \<Rightarrow> string \<Rightarrow> s3_call list \<Rightarrow> file_info s3_run" where
  "s3_create_folder server endpoint bucket path log =
     (if contains ''..'' path then (log, Inl BadValue)
      else let key = rstrip_slash (lstrip_slash path) @ ''/''; call = S3Put (s3_url endpoint bucket key) [] in
        (log @ [call],
         if s3_refused (server log call) then Inl BadValue
         else Inr (directory_info (last (split_on (CHR ''/'') (rstrip_slash path))) path (Some 0))))"

definition s3_move_file ::
    "(string \<Rightarrow> string option) \<Rightarrow> s3_server \<Rightarrow> string \<Rightarrow> string \<Rightarrow> string \<Rightarrow> string \<Rightarrow> s3_call list \<Rightarrow> file_info s3_run" where
  "s3_move_file guess_type server endpoint bucket source destination log =
     (if contains ''..'' source \<or> contains ''..'' destination then (log, Inl BadValue)
      else let src_key = lstrip_slash source; dst_key = lstrip_slash destination;
               copy = S3Copy (s3_url endpoint bucket dst_key) (''/'' @ bucket @ ''/'' @ src_key);
               delete = S3Delete (s3_url endpoint bucket src_key) in
        if s3_refused (server log copy) then (log @ [copy], Inl BadValue)
        else (log @ [copy, delete],
              if server (log @ [copy]) delete = ReplyError then Inl BadValue
              else Inr (content_info guess_type (last (split_on (CHR ''/'') (rstrip_slash destination))) destination None)))"

text \<open>
  The listing: a non-greedy \<open>.*?\<close> tries the later places in order.
\<close>

fun first_suffix :: "(string \<Rightarrow> 'a option) \<Rightarrow> string \<Rightarrow> 'a option" where
  "first_suffix f [] = f []"
| "first_suffix f (c # s) = (case f (c # s) of Some x \<Rightarrow> Some x | None \<Rightarrow> first_suffix f s)"

definition expect :: "string \<Rightarrow> string \<Rightarrow> string option" where
  "expect p s = (if startswith s p then Some (drop (length p) s) else None)"

definition tagged :: "string \<Rightarrow> string \<Rightarrow> string \<Rightarrow> (string \<times> string) option" where
  "tagged opening closing s =
     Option.bind (expect opening s) (\<lambda>s. let (inner, s) = until (CHR ''<'') s in
       if inner = [] then None else map_option (Pair inner) (expect closing s))"

definition match_prefix :: "string \<Rightarrow> (string \<times> string) option" where
  "match_prefix s = tagged ''<CommonPrefixes><Prefix>'' ''</Prefix></CommonPrefixes>'' s"

definition match_contents :: "string \<Rightarrow> ((string \<times> string) \<times> string) option" where
  "match_contents s =
     Option.bind (expect ''<Contents>'' s) (\<lambda>s.
       first_suffix (\<lambda>s. Option.bind (tagged ''<Key>'' ''</Key>'' s) (\<lambda>(key, s).
         first_suffix (\<lambda>s. Option.bind (tagged ''<Size>'' ''</Size>'' s) (\<lambda>(sz, s).
           first_suffix (\<lambda>s. map_option (Pair (key, sz)) (expect ''</Contents>'' s)) s)) s)) s)"

definition prefix_info :: "string \<Rightarrow> file_info option" where
  "prefix_info prefix =
     (let name = last (split_on (CHR ''/'') (rstrip_slash prefix)) in
      if name = [] then None else Some (directory_info name (''/'' @ rstrip_slash prefix) None))"

fun contents_infos :: "(string \<Rightarrow> string option) \<Rightarrow> (string \<times> string) list \<Rightarrow> store_error + file_info list" where
  "contents_infos guess_type [] = Inr []"
| "contents_infos guess_type ((key, sz) # ks) =
     (case parse_int (strip sz) of
        Inl _ \<Rightarrow> Inl BadValue
      | Inr n \<Rightarrow>
          ebind (contents_infos guess_type ks) (\<lambda>fs.
            Inr (if endswith key ''/'' then fs
                 else content_info guess_type (last (split_on (CHR ''/'') key)) (''/'' @ key) (Some n) # fs)))"

definition parse_s3_listing :: "(string \<Rightarrow> string option) \<Rightarrow> string \<Rightarrow> store_error + file_info list" where
  "parse_s3_listing guess_type xml =
     ebind (contents_infos guess_type (find_all match_contents xml)) (\<lambda>files.
       Inr (order_by listed_before (List.map_filter prefix_info (find_all match_prefix xml) @ files)))"

definition s3_list_files ::
    "(string \<Rightarrow> string option) \<Rightarrow> s3_server \<Rightarrow> string \<Rightarrow> string \<Rightarrow> string \<Rightarrow> s3_call list \<Rightarrow> file_info list s3_run" where
  "s3_list_files guess_type server endpoint bucket path log =
     (if contains ''..'' path then (log, Inl BadValue)
      else let prefix = lstrip_slash path;
               prefix = (if prefix \<noteq> [] \<and> \<not> endswith prefix ''/'' then prefix @ ''/'' else prefix);
               prefix = (if prefix = ''/'' then [] else prefix);
               call = S3Get (endpoint @ ''/'' @ bucket @ ''?list-type=2&prefix='' @ prefix @ ''&delimiter=/'') in
        (log @ [call],
         case server log call of
           ReplyError \<Rightarrow> Inl BadValue
         | Reply status ct cl chunks \<Rightarrow>
             if status \<ge> 400 then Inl BadValue else parse_s3_listing guess_type (concat chunks)))"


section \<open>Well-formed shares\<close>

text \<open>Paths are unique and have proper components, and what lies above an entry is a folder.\<close>

definition share_ok :: "tree \<Rightarrow> bool" where
  "share_ok t \<longleftrightarrow> distinct (map fst t)
     \<and> (\<forall>(q, i) \<in> set t. clean q \<and> q \<noteq> [] \<and> (butlast q \<noteq> [] \<longrightarrow> map_of t (butlast q) = Some Folder))"

definition nfs_ok :: "nfs \<Rightarrow> bool" where
  "nfs_ok n \<longleftrightarrow> share_ok (nf_share n) \<and> (case nf_local n of None \<Rightarrow> True | Some t \<Rightarrow> share_ok t)"

lemma share_okD:
  assumes "share_ok t" and "map_of t q = Some i"
  shows "clean q" and "q \<noteq> []" and "butlast q \<noteq> [] \<Longrightarrow> map_of t (butlast q) = Some Folder"
  using assms map_of_SomeD [OF assms(2)] by (auto simp: share_ok_def)

lemma share_okI:
  assumes "distinct (map fst t)"
    and "\<And>q i. map_of t q = Some i \<Longrightarrow> clean q \<and> q \<noteq> [] \<and> (butlast q \<noteq> [] \<longrightarrow> map_of t (butlast q) = Some Folder)"
  shows "share_ok t"
  using assms by (auto simp: share_ok_def)

lemma ancestor_folder:
  assumes "share_ok t" and "map_of t (p @ r) = Some i" and "p \<noteq> []" and "r \<noteq> []"
  shows "map_of t p = Some Folder"
  using assms(2,4)
proof (induction r arbitrary: i rule: rev_induct)
  case (snoc c r)
  have "map_of t (p @ r) = Some Folder" using share_okD(3) [OF assms(1) snoc.prems(1)] assms(3) by (simp add: butlast_append)
  then show ?case using snoc.IH by (cases "r = []") auto
qed simp

lemma within_iff: "within p q \<longleftrightarrow> (\<exists>r. q = p @ r)"
  by (auto simp: within_def) (metis append_take_drop_id)

lemma within_length: "within p q \<Longrightarrow> length p \<le> length q"
  by (auto simp: within_iff)

lemma map_of_remove_tree: "map_of (remove_tree p t) q = (if within p q then None else map_of t q)"
  by (induction t) (auto simp: remove_tree_def)

lemma nfs_tree_ok: "nfs_ok n \<Longrightarrow> share_ok (nfs_tree n)"
  by (auto simp: nfs_ok_def nfs_tree_def share_ok_def split: option.splits)

lemma put_tree_ok: "nfs_ok n \<Longrightarrow> share_ok t \<Longrightarrow> nfs_ok (put_tree t n)"
  by (simp add: nfs_ok_def put_tree_def)

lemma nfs_tree_put_tree [simp]: "nfs_tree (put_tree t n) = t"
  by (simp add: nfs_tree_def put_tree_def)

lemma nf_mounted_put_tree [simp]: "nf_mounted (put_tree t n) = nf_mounted n"
  by (simp add: put_tree_def)

lemma ensure_mounted_ok: "nfs_ok n \<Longrightarrow> nfs_ok (ensure_mounted w n)"
  by (auto simp: nfs_ok_def ensure_mounted_def nfs_mount_def Let_def share_ok_def split: option.splits)

lemma nfs_root: "nfs_item (ensure_mounted w n) [] = Some Folder"
  by (simp add: nfs_item_def ensure_mounted_def nfs_mount_def Let_def)

lemma ensure_mounted_idem: "nfs_item n [] = Some Folder \<Longrightarrow> nf_mounted n \<or> \<not> w \<Longrightarrow> ensure_mounted w n = n"
  by (auto simp: nfs_item_def ensure_mounted_def nfs_mount_def Let_def split: if_splits)

section \<open>Paths stay below the mount point\<close>

lemma fold_no_dots:
  "''..'' \<notin> set cs \<Longrightarrow> fold (\<lambda>c acc. if c = ''..'' then butlast acc else acc @ [c]) cs (b :: path) = b @ cs"
  by (induction cs arbitrary: b) auto

lemma no_dots_parts: "\<not> contains ''..'' s \<Longrightarrow> ''..'' \<notin> set (split_on (CHR ''/'') s)"
  using split_on_substring contains_iff by metis

lemma resolve_parts: "\<not> contains ''..'' s \<Longrightarrow> resolve base s = base @ parts s"
  unfolding resolve_def parts_def by (rule fold_no_dots) (use no_dots_parts in auto)

lemma contains_lstrip: "contains p (lstrip_slash s) \<Longrightarrow> contains p s"
proof -
  have "s = takeWhile (\<lambda>c. c = CHR ''/'') s @ lstrip_slash s" by (simp add: lstrip_slash_def)
  then show "contains p (lstrip_slash s) \<Longrightarrow> contains p s" unfolding contains_iff by (metis append.assoc)
qed

lemma clean_parts: "\<not> contains ''..'' s \<Longrightarrow> clean (parts s)"
  using no_dots_parts split_on_no_sep by (fastforce simp: parts_def list_all_iff component_def)

lemma validate_path_iff: "validate_path base path = Inr p \<longleftrightarrow> \<not> contains ''..'' path \<and> p = parts (lstrip_slash path)"
proof (cases "contains ''..'' path")
  case False
  then have "\<not> contains ''..'' (lstrip_slash path)" using contains_lstrip by blast
  then show ?thesis using False by (auto simp: validate_path_def within_def Let_def resolve_parts)
qed (simp add: validate_path_def)

lemma validate_path_clean: "validate_path base path = Inr p \<Longrightarrow> clean p"
  using clean_parts contains_lstrip by (auto simp: validate_path_iff)

lemma parts_component: "component f \<Longrightarrow> parts f = [f]"
  by (auto simp: parts_def component_def split_on_single)

lemma parts_filename:
  assumes "CHR ''/'' \<notin> set f" and "\<not> contains ''..'' f"
  shows "parts f = [] \<or> parts f = [f] \<and> component f"
proof -
  have "f \<noteq> ''..''" using assms(2) by (auto simp: startswith_def)
  then show ?thesis using assms(1) by (auto simp: parts_def split_on_single component_def)
qed

section \<open>The operations keep shares well formed\<close>

lemma share_ok_put:
  assumes "share_ok t" and "clean q" and "q \<noteq> []" and "butlast q \<noteq> [] \<Longrightarrow> map_of t (butlast q) = Some Folder"
    and "i = Folder \<or> map_of t q \<noteq> Some Folder"
  shows "share_ok (dict_put q i t)"
proof (rule share_okI)
  show "distinct (map fst (dict_put q i t))" using assms(1) by (simp add: share_ok_def)
  fix p j assume j: "map_of (dict_put q i t) p = Some j"
  have ne: "butlast q \<noteq> q" using assms(3) by (metis append_butlast_last_id append_self_conv not_Cons_self2)
  show "clean p \<and> p \<noteq> [] \<and> (butlast p \<noteq> [] \<longrightarrow> map_of (dict_put q i t) (butlast p) = Some Folder)"
  proof (cases "p = q")
    case True
    then show ?thesis using assms ne by auto
  next
    case False
    then have "map_of t p = Some j" using j by simp
    from share_okD [OF assms(1) this] show ?thesis using assms(5) by auto
  qed
qed

lemma make_folders_ok:
  assumes "make_folders pre cs t = Inr t'" and "share_ok t" and "clean (pre @ cs)" and "pre \<noteq> [] \<Longrightarrow> map_of t pre = Some Folder"
  shows "share_ok t' \<and> (\<forall>q. map_of t' q = map_of t q \<or> map_of t q = None \<and> map_of t' q = Some Folder \<and> within q (pre @ cs))
    \<and> (pre @ cs \<noteq> [] \<longrightarrow> map_of t' (pre @ cs) = Some Folder)"
  using assms
proof (induction pre cs t arbitrary: t' rule: make_folders.induct)
  case (2 pre c cs t)
  show ?case
  proof (cases "map_of t (pre @ [c])")
    case None
    let ?t = "dict_put (pre @ [c]) Folder t"
    have ok: "share_ok ?t" by (rule share_ok_put) (use "2.prems" in auto)
    have "make_folders (pre @ [c]) cs ?t = Inr t'" using "2.prems"(1) None by simp
    from "2.IH"(1) [OF None this ok] "2.prems"(3) have
      t': "share_ok t'" "\<And>q. map_of t' q = map_of ?t q \<or> map_of ?t q = None \<and> map_of t' q = Some Folder \<and> within q (pre @ c # cs)"
        "map_of t' (pre @ c # cs) = Some Folder" by auto
    have "within (pre @ [c]) (pre @ c # cs)" by (simp add: within_def)
    then have "map_of t' q = map_of t q \<or> map_of t q = None \<and> map_of t' q = Some Folder \<and> within q (pre @ c # cs)" for q
      using t'(2) [of q] None by (cases "q = pre @ [c]") auto
    then show ?thesis using t' by blast
  next
    case (Some i)
    then have F: "i = Folder" using "2.prems"(1) by (cases i) auto
    have "make_folders (pre @ [c]) cs t = Inr t'" using "2.prems"(1) Some F by simp
    from "2.IH"(2) [OF Some F this "2.prems"(2)] "2.prems"(3) Some F show ?thesis by simp
  qed
qed auto

lemma remove_tree_ok: "share_ok t \<Longrightarrow> p \<noteq> [] \<Longrightarrow> share_ok (remove_tree p t)"
proof (rule share_okI)
  assume t: "share_ok t" and p: "p \<noteq> []"
  show "distinct (map fst (remove_tree p t))" using t by (auto simp: share_ok_def remove_tree_def distinct_map_filter)
  fix q i assume "map_of (remove_tree p t) q = Some i"
  then have q: "map_of t q = Some i" "\<not> within p q" by (simp_all add: map_of_remove_tree split: if_splits)
  have "\<not> within p (butlast q)"
    using q(2) share_okD(2) [OF t q(1)] unfolding within_iff by (metis append_assoc append_butlast_last_id)
  then show "clean q \<and> q \<noteq> [] \<and> (butlast q \<noteq> [] \<longrightarrow> map_of (remove_tree p t) (butlast q) = Some Folder)"
    using share_okD [OF t q(1)] by (simp add: map_of_remove_tree)
qed

text \<open>What a rename makes of a path, and that it is one to one on the tree when the destination is free.\<close>

definition moved :: "path \<Rightarrow> path \<Rightarrow> path \<Rightarrow> path" where
  "moved src dst q = (if within src q then dst @ drop (length src) q else q)"

lemma moved_simps: "moved src dst (src @ r) = dst @ r" "\<not> within src q \<Longrightarrow> moved src dst q = q"
  by (auto simp: moved_def within_def)

lemma rename_tree_moved: "rename_tree src dst t = map (map_prod (moved src dst) id) t"
  by (auto simp: rename_tree_def moved_def)

definition free :: "path \<Rightarrow> tree \<Rightarrow> bool" where
  "free dst t \<longleftrightarrow> (\<forall>(q, i) \<in> set t. \<not> within dst q)"

lemma absent_free:
  assumes "share_ok t" and "map_of t dst = None" and "dst \<noteq> []"
  shows "free dst t"
proof -
  have "\<not> within dst q" if "(q, i) \<in> set t" for q i
  proof
    assume "within dst q"
    then obtain r where r: "q = dst @ r" unfolding within_iff by blast
    have "map_of t q = Some i" using that assms(1) by (simp add: share_ok_def)
    then show False using assms ancestor_folder [OF assms(1), of dst r i] r by (cases "r = []") auto
  qed
  then show ?thesis by (auto simp: free_def)
qed

lemma moved_inj:
  assumes "free dst t"
  shows "inj_on (moved src dst) (fst ` set t)"
proof (rule inj_onI)
  fix p q assume p: "p \<in> fst ` set t" and q: "q \<in> fst ` set t" and e: "moved src dst p = moved src dst q"
  have n: "\<not> within dst p" "\<not> within dst q" using p q assms by (auto simp: free_def)
  show "p = q"
  proof (cases "within src p")
    case True
    then obtain r where r: "p = src @ r" unfolding within_iff by blast
    show ?thesis
    proof (cases "within src q")
      case True
      then show ?thesis using e r unfolding within_iff by (auto simp: moved_simps)
    next
      case False
      then have "q = dst @ r" using e r by (simp add: moved_simps)
      then show ?thesis using n(2) by (simp add: within_iff)
    qed
  next
    case False
    show ?thesis
    proof (cases "within src q")
      case True
      then obtain r where "q = src @ r" unfolding within_iff by blast
      then have "p = dst @ r" using e False by (simp add: moved_simps)
      then show ?thesis using n(1) by (simp add: within_iff)
    qed (use e False in \<open>simp add: moved_simps\<close>)
  qed
qed

lemma map_of_map_keys:
  assumes "inj_on f (insert q (fst ` set t))"
  shows "map_of (map (map_prod f id) t) (f q) = map_of t q"
  using assms
proof (induction t)
  case (Cons e t)
  have "inj_on f (insert q (fst ` set t))" using Cons.prems by (rule inj_on_subset) auto
  moreover have "f (fst e) = f q \<longleftrightarrow> fst e = q" using inj_onD [OF Cons.prems, of "fst e" q] by auto
  ultimately show ?case using Cons.IH by (cases e) auto
qed simp

text \<open>The tree after a move: the source is gone, the destination has what the source had, the rest stays.\<close>

lemma map_of_rename:
  assumes "free dst t"
  shows "map_of (rename_tree src dst t) q =
    (if within dst q then map_of t (src @ drop (length dst) q) else if within src q then None else map_of t q)"
proof -
  let ?m = "map_of (rename_tree src dst t)"
  have inj: "inj_on (moved src dst) (insert p (fst ` set t))" if "\<not> within dst p" for p
    using moved_inj [of dst "(p, Folder) # t" src] assms that by (simp add: free_def)
  have keys: "fst ` set (rename_tree src dst t) = moved src dst ` fst ` set t" by (force simp: rename_tree_moved)
  show ?thesis
  proof (cases "within dst q")
    case True
    then obtain r where r: "q = dst @ r" unfolding within_iff by blast
    show ?thesis
    proof (cases "within dst (src @ r)")
      case False
      then show ?thesis using map_of_map_keys [OF inj [OF False]] r by (simp add: rename_tree_moved moved_simps within_iff)
    next
      case inside: True
      then have none: "map_of t (src @ r) = None" using assms by (force simp: free_def map_of_eq_None_iff)
      have "q \<notin> fst ` set (rename_tree src dst t)"
      proof
        assume "q \<in> fst ` set (rename_tree src dst t)"
        then obtain p where p: "p \<in> fst ` set t" "q = moved src dst p" unfolding keys by blast
        show False
        proof (cases "within src p")
          case True
          then have "p = src @ r" using p(2) r unfolding within_iff by (auto simp: moved_simps)
          then show False using none p(1) by (simp add: map_of_eq_None_iff)
        next
          case False
          then have "q \<in> fst ` set t" using p by (simp add: moved_simps)
          then show False using assms \<open>within dst q\<close> by (auto simp: free_def)
        qed
      qed
      then have "?m q = None" by (simp add: map_of_eq_None_iff)
      then show ?thesis using none r by (simp add: within_iff)
    qed
  next
    case False
    show ?thesis
    proof (cases "within src q")
      case True
      have "q \<noteq> moved src dst p" for p using False True by (auto simp: moved_def within_iff split: if_splits)
      then have "q \<notin> fst ` set (rename_tree src dst t)" unfolding keys by blast
      then show ?thesis using False True by (simp add: map_of_eq_None_iff)
    next
      case n: False
      then show ?thesis using map_of_map_keys [OF inj [OF False]] False by (simp add: rename_tree_moved moved_simps)
    qed
  qed
qed

lemma rename_tree_ok:
  assumes "share_ok t" and "free dst t" and "clean dst" and "dst \<noteq> []" and "src \<noteq> []" and "\<not> within src dst"
    and "butlast dst \<noteq> [] \<Longrightarrow> map_of t (butlast dst) = Some Folder"
  shows "share_ok (rename_tree src dst t)"
proof (rule share_okI)
  show "distinct (map fst (rename_tree src dst t))"
    using assms(1) moved_inj [OF assms(2), of src] by (simp add: rename_tree_moved share_ok_def distinct_map inj_on_def)
  fix q i assume q: "map_of (rename_tree src dst t) q = Some i"
  note m = map_of_rename [OF assms(2), of src]
  have src_bl: "\<not> within src (butlast p)" if "\<not> within src p" "p \<noteq> []" for p
    using that unfolding within_iff by (metis append_assoc append_butlast_last_id)
  have dst_bl: "\<not> within dst (butlast p)" if "\<not> within dst p" "p \<noteq> []" for p
    using that unfolding within_iff by (metis append_assoc append_butlast_last_id)
  show "clean q \<and> q \<noteq> [] \<and> (butlast q \<noteq> [] \<longrightarrow> map_of (rename_tree src dst t) (butlast q) = Some Folder)"
  proof (cases "within dst q")
    case True
    then obtain r where r: "q = dst @ r" unfolding within_iff by blast
    have g: "map_of t (src @ r) = Some i" using q r by (simp add: m within_iff)
    note d = share_okD [OF assms(1) g]
    show ?thesis
    proof (cases "r = []")
      case True
      have "butlast dst \<noteq> [] \<longrightarrow> map_of (rename_tree src dst t) (butlast dst) = Some Folder"
      proof
        assume ne: "butlast dst \<noteq> []"
        have "length (butlast dst) < length dst" using assms(4) by simp
        then have "\<not> within dst (butlast dst)" using within_length [of dst "butlast dst"] by linarith
        then show "map_of (rename_tree src dst t) (butlast dst) = Some Folder"
          using assms(7) [OF ne] src_bl [OF assms(6,4)] by (simp add: m)
      qed
      then show ?thesis using True r assms(3,4) by simp
    next
      case False
      then have "butlast q = dst @ butlast r" "butlast (src @ r) = src @ butlast r" using r by (simp_all add: butlast_append)
      then show ?thesis using d r assms(3-5) by (auto simp: m within_iff)
    qed
  next
    case False
    then have g: "map_of t q = Some i" "\<not> within src q" using q by (simp_all add: m split: if_splits)
    note d = share_okD [OF assms(1) g(1)]
    show ?thesis using d src_bl [OF g(2) d(2)] dst_bl [OF False d(2)] by (simp add: m)
  qed
qed


text \<open>An upload changes nothing or writes one file into an existing folder.\<close>

lemma upload_cases:
  assumes "nfs_upload_file g base w path f content n = (n', r)"
  obtains e where "n' = ensure_mounted w n" and "r = Inl e"
  | d where "validate_path base path = Inr d" and "component f" and "nfs_item (ensure_mounted w n) d = Some Folder"
      and "nfs_item (ensure_mounted w n) (d @ [f]) \<noteq> Some Folder"
      and "n' = put_tree (dict_put (d @ [f]) (Content (concat content)) (nfs_tree (ensure_mounted w n))) (ensure_mounted w n)"
      and "r = Inr (content_info g f (path_str (d @ [f])) (Some (int (length (concat content)))))"
proof (cases "validate_path base path")
  case (Inl e)
  then show ?thesis using that(1) assms by (auto simp: nfs_upload_file_def)
next
  case (Inr d)
  let ?n = "ensure_mounted w n"
  show ?thesis
  proof (cases "nfs_item ?n d = None \<or> CHR ''/'' \<in> set f \<or> contains ''..'' f \<or> nfs_item ?n d \<noteq> Some Folder \<or> nfs_item ?n (d @ parts f) = Some Folder")
    case True
    then have "\<exists>e. nfs_upload_file g base w path f content n = (?n, Inl e)" using Inr by (auto simp: nfs_upload_file_def Let_def)
    then show ?thesis using that(1) assms by fastforce
  next
    case False
    then have "parts f = [f] \<and> component f" using parts_filename [of f] by auto
    then show ?thesis using that(2) [OF Inr] assms Inr False by (simp add: nfs_upload_file_def Let_def)
  qed
qed

lemma upload_ok:
  assumes "nfs_ok n" and "nfs_upload_file g base w path f content n = (n', r)"
  shows "nfs_ok n'"
proof -
  let ?n = "ensure_mounted w n"
  have ok: "nfs_ok ?n" by (rule ensure_mounted_ok [OF assms(1)])
  show ?thesis
  proof (rule upload_cases [OF assms(2)])
    fix d assume d: "validate_path base path = Inr d" "component f" "nfs_item ?n d = Some Folder" "nfs_item ?n (d @ [f]) \<noteq> Some Folder"
      and n': "n' = put_tree (dict_put (d @ [f]) (Content (concat content)) (nfs_tree ?n)) ?n"
    have "share_ok (dict_put (d @ [f]) (Content (concat content)) (nfs_tree ?n))"
      using nfs_tree_ok [OF ok] validate_path_clean [OF d(1)] d(2-4)
      by (intro share_ok_put) (simp_all add: nfs_item_def split: if_splits)
    then show ?thesis using n' put_tree_ok [OF ok] by simp
  qed (use ok in simp)
qed

lemma delete_each_ok: "nfs_ok n \<Longrightarrow> nfs_delete_each base paths k n = (n', r) \<Longrightarrow> nfs_ok n'"
proof (induction paths arbitrary: k n)
  case (Cons path paths)
  show ?case
  proof (cases "validate_path base path")
    case (Inr p)
    show ?thesis
    proof (cases "nfs_item n p")
      case (Some i)
      show ?thesis
      proof (cases "p = []")
        case True
        have "nfs_ok (n\<lparr>nf_share := []\<rparr>)" "nfs_ok (n\<lparr>nf_local := None\<rparr>)"
          using Cons.prems(1) by (simp_all add: nfs_ok_def) (simp add: share_ok_def)
        then show ?thesis using Cons.IH [of "n\<lparr>nf_local := None\<rparr>" "Suc k"] Cons.prems(2) Inr Some True
          by (cases "nf_mounted n") auto
      next
        case False
        have "nfs_ok (put_tree (remove_tree p (nfs_tree n)) n)"
          by (intro put_tree_ok remove_tree_ok nfs_tree_ok Cons.prems(1) False)
        then show ?thesis using Cons.IH [of "put_tree (remove_tree p (nfs_tree n)) n"] Cons.prems(2) Inr Some False by simp
      qed
    qed (use Cons Inr in auto)
  qed (use Cons in auto)
qed simp

lemma create_folder_ok:
  assumes "nfs_ok n" and "nfs_create_folder base w path n = (n', r)"
  shows "nfs_ok n'"
proof -
  have ok: "nfs_ok (ensure_mounted w n)" by (rule ensure_mounted_ok [OF assms(1)])
  have "nfs_ok (put_tree t (ensure_mounted w n))"
    if "validate_path base path = Inr p" "make_folders [] p (nfs_tree (ensure_mounted w n)) = Inr t" for p t
    using make_folders_ok [OF that(2) nfs_tree_ok [OF ok]] validate_path_clean [OF that(1)] put_tree_ok [OF ok] by simp
  then show ?thesis using assms(2) ok by (auto simp: nfs_create_folder_def Let_def split: sum.splits if_splits)
qed

text \<open>What a successful move does, in the two ways \<open>shutil.move\<close> does it.\<close>

lemma move_tree_InrD:
  assumes "nfs_ok n" and "nfs_item n [] = Some Folder" and "nfs_item n src \<noteq> None" and "nfs_item n dst = None" and "clean dst"
    and "move_tree src dst n = Inr t"
  obtains t0 where "share_ok t0" and "t = rename_tree src dst t0" and "free dst t0" and "src \<noteq> []" and "dst \<noteq> []" and "\<not> within src dst"
    and "\<And>q. map_of t0 q = map_of (nfs_tree n) q \<or> map_of (nfs_tree n) q = None \<and> map_of t0 q = Some Folder \<and> within q (butlast dst)"
    and "butlast dst \<noteq> [] \<Longrightarrow> map_of t0 (butlast dst) = Some Folder"
proof -
  have ok: "share_ok (nfs_tree n)" by (rule nfs_tree_ok [OF assms(1)])
  have ne: "dst \<noteq> []" using assms(2,4) by auto
  have nd: "map_of (nfs_tree n) dst = None" using assms(4) ne by (simp add: nfs_item_def)
  have src: "src \<noteq> []" using assms(2,6) by (auto simp: move_tree_def Let_def within_def)
  have into: "\<not> within src dst"
  proof (cases "nfs_item n src = Some Folder")
    case True
    then show ?thesis using assms(6) by (auto simp: move_tree_def Let_def split: if_splits)
  next
    case False
    then obtain s where s: "map_of (nfs_tree n) src = Some (Content s)" using assms(3) src
      by (auto simp: nfs_item_def) (metis item.exhaust)
    show ?thesis
    proof
      assume "within src dst"
      then obtain r where r: "dst = src @ r" unfolding within_iff by blast
      then have "r \<noteq> []" using s nd by auto
      then have bl: "butlast dst = src @ butlast r" using r by (simp add: butlast_append)
      have "nfs_item n (butlast dst) = Some Folder"
        using assms(6) False by (auto simp: move_tree_def Let_def split: if_splits)
      then have "map_of (nfs_tree n) (src @ butlast r) = Some Folder" using bl src by (simp add: nfs_item_def)
      then show False using ancestor_folder [OF ok, of src "butlast r" Folder] src s by (cases "butlast r = []") auto
    qed
  qed
  have short: "length (butlast dst) < length dst" using ne by simp
  consider "nfs_item n (butlast dst) = Some Folder" "t = rename_tree src dst (nfs_tree n)"
    | t0 where "make_folders [] (butlast dst) (nfs_tree n) = Inr t0" "t = rename_tree src dst t0"
    using assms(6) by (auto simp: move_tree_def Let_def ebind_Inr_iff split: if_splits)
  then show ?thesis
  proof cases
    case 1
    then show ?thesis by (intro that [OF ok _ absent_free [OF ok nd ne] src ne into]) (auto simp: nfs_item_def)
  next
    case 2
    have c: "clean (butlast dst)" by (rule clean_butlast [OF assms(5)])
    from make_folders_ok [OF 2(1) ok] c have t0: "share_ok t0"
        "\<And>q. map_of t0 q = map_of (nfs_tree n) q \<or> map_of (nfs_tree n) q = None \<and> map_of t0 q = Some Folder \<and> within q (butlast dst)"
        "butlast dst \<noteq> [] \<Longrightarrow> map_of t0 (butlast dst) = Some Folder" by auto
    have "\<not> within dst (butlast dst)" using short within_length [of dst "butlast dst"] by linarith
    then have "map_of t0 dst = None" using t0(2) [of dst] nd by auto
    from that [OF t0(1) 2(2) absent_free [OF t0(1) this ne] src ne into t0(2,3)] show ?thesis .
  qed
qed

lemma move_ok:
  assumes "nfs_ok n" and "nfs_move_file g base w source destination n = (n', r)"
  shows "nfs_ok n'"
proof -
  let ?n = "ensure_mounted w n"
  have ok: "nfs_ok ?n" by (rule ensure_mounted_ok [OF assms(1)])
  have "nfs_ok (put_tree t ?n)"
    if v: "validate_path base destination = Inr dst" and m: "nfs_item ?n src \<noteq> None" "nfs_item ?n dst = None" "move_tree src dst ?n = Inr t" for src dst t
  proof -
    from move_tree_InrD [OF ok nfs_root m(1,2) validate_path_clean [OF v] m(3)] obtain t0 where
      "share_ok t0" "t = rename_tree src dst t0" "free dst t0" "src \<noteq> []" "dst \<noteq> []" "\<not> within src dst"
      "butlast dst \<noteq> [] \<Longrightarrow> map_of t0 (butlast dst) = Some Folder" by metis
    then show ?thesis using rename_tree_ok [of t0 dst src] validate_path_clean [OF v] put_tree_ok [OF ok] by simp
  qed
  then show ?thesis using assms(2) ok
    by (auto simp: nfs_move_file_def Let_def ebind_Inr_iff split: sum.splits if_splits)
qed


section \<open>Texts of paths\<close>

lemma split_on_append_all: "split_on sep (a @ sep # b) = split_on sep a @ split_on sep b"
proof (induction a)
  case (Cons c a)
  then show ?case by (cases "split_on sep a") auto
qed simp

lemma parts_append: "parts (a @ CHR ''/'' # b) = parts a @ parts b"
  by (simp add: parts_def split_on_append_all)

lemma parts_Nil [simp]: "parts [] = []"
  by (simp add: parts_def)

lemma parts_lstrip [simp]: "parts (lstrip_slash s) = parts s"
proof (induction s)
  case (Cons c s)
  have "parts (CHR ''/'' # s) = parts s" using parts_append [of "[]" s] by simp
  then show ?case using Cons by (simp add: lstrip_slash_def)
qed (simp add: lstrip_slash_def)

lemma parts_rstrip [simp]: "parts (rstrip_slash s) = parts s"
proof (induction s rule: rev_induct)
  case (snoc c s)
  have "parts (s @ [CHR ''/'']) = parts s" using parts_append [of s "[]"] by simp
  then show ?case using snoc by (simp add: rstrip_slash_def)
qed (simp add: rstrip_slash_def)

lemma contains_slash: "contains ''..'' (a @ CHR ''/'' # b) \<longleftrightarrow> contains ''..'' a \<or> contains ''..'' b"
proof (induction a)
  case (Cons c a)
  then show ?case by (cases a) (auto simp: startswith_def)
qed (simp add: startswith_def)

lemma contains_rstrip: "contains p (rstrip_slash s) \<Longrightarrow> contains p s"
proof -
  have "rev s = takeWhile (\<lambda>c. c = CHR ''/'') (rev s) @ dropWhile (\<lambda>c. c = CHR ''/'') (rev s)" by simp
  then have "s = rstrip_slash s @ rev (takeWhile (\<lambda>c. c = CHR ''/'') (rev s))" unfolding rstrip_slash_def by (metis rev_append rev_rev_ident)
  then show "contains p (rstrip_slash s) \<Longrightarrow> contains p s" unfolding contains_iff by (metis append.assoc)
qed

lemma validate_joined:
  assumes "validate_path base path = Inr d" and "component f" and "\<not> contains ''..'' f"
  shows "validate_path base (rstrip_slash path @ ''/'' @ f) = Inr (d @ [f])"
  using assms contains_rstrip [of "''..''" path] by (auto simp: validate_path_iff contains_slash parts_append parts_component)

lemma validate_slash: "validate_path base (CHR ''/'' # s) = validate_path base s"
  by (simp add: validate_path_def lstrip_slash_def startswith_def)

lemma concat_read_chunks: "n > 0 \<Longrightarrow> concat (read_chunks n s) = s"
proof (induction n s rule: read_chunks.induct)
  case (1 n s)
  then show ?case by (subst read_chunks.simps) auto
qed

section \<open>What the operations do\<close>

lemma upload_writes:
  assumes "nfs_upload_file g base w path f content n = (n', Inr info)"
  shows "\<exists>d. validate_path base path = Inr d \<and> component f \<and> map_of (nfs_tree n') (d @ [f]) = Some (Content (concat content))
    \<and> (\<forall>q. q \<noteq> d @ [f] \<longrightarrow> map_of (nfs_tree n') q = map_of (nfs_tree (ensure_mounted w n)) q)
    \<and> nf_mounted n' = nf_mounted (ensure_mounted w n) \<and> nfs_item n' [] = Some Folder"
proof (rule upload_cases [OF assms])
  fix d assume "validate_path base path = Inr d" "component f"
    "n' = put_tree (dict_put (d @ [f]) (Content (concat content)) (nfs_tree (ensure_mounted w n))) (ensure_mounted w n)"
  moreover have "nfs_item (put_tree t m) [] = Some Folder" for t m by (simp add: nfs_item_def put_tree_def)
  ultimately show ?thesis by (intro exI [of _ d]) simp
qed simp

lemma upload_filename: "nfs_upload_file g base w path f content n = (n', Inr info) \<Longrightarrow> \<not> contains ''..'' f"
  by (auto simp: nfs_upload_file_def Let_def split: sum.splits if_splits)

lemma download_reads:
  assumes "validate_path base path = Inr p" and "p \<noteq> []" and "map_of (nfs_tree (ensure_mounted w n)) p = Some (Content s)"
  shows "nfs_download_file g base w path n
    = (ensure_mounted w n, Inr (read_chunks 8192 s, set_or (g (last p)) ''application/octet-stream'', int (length s)))"
  using assms by (simp add: nfs_download_file_def nfs_item_def)

text \<open>An uploaded file is what a download of it delivers, in pieces of 8192 bytes and with its size, and no
  other file of the share has changed, as long as the share stays mounted or unmounted in between.\<close>

theorem upload_download:
  assumes "nfs_upload_file g base w path f content n = (n', Inr info)" and "nf_mounted n' \<or> \<not> w'"
  shows "\<exists>chunks mime. nfs_download_file g base w' (rstrip_slash path @ ''/'' @ f) n' = (n', Inr (chunks, mime, int (length (concat content))))
      \<and> concat chunks = concat content
      \<and> (\<forall>p. validate_path base path \<noteq> Inr (butlast p) \<or> last p \<noteq> f \<longrightarrow> p \<noteq> [] \<longrightarrow> map_of (nfs_tree n') p = map_of (nfs_tree (ensure_mounted w n)) p)"
proof -
  from upload_writes [OF assms(1)] obtain d where d: "validate_path base path = Inr d" "component f"
      "map_of (nfs_tree n') (d @ [f]) = Some (Content (concat content))"
      "\<forall>q. q \<noteq> d @ [f] \<longrightarrow> map_of (nfs_tree n') q = map_of (nfs_tree (ensure_mounted w n)) q" "nfs_item n' [] = Some Folder" by blast
  have m: "ensure_mounted w' n' = n'" by (rule ensure_mounted_idem [OF d(5) assms(2)])
  have v: "validate_path base (rstrip_slash path @ ''/'' @ f) = Inr (d @ [f])"
    by (rule validate_joined [OF d(1,2) upload_filename [OF assms(1)]])
  have "nfs_download_file g base w' (rstrip_slash path @ ''/'' @ f) n'
      = (n', Inr (read_chunks 8192 (concat content), set_or (g f) ''application/octet-stream'', int (length (concat content))))"
    using download_reads [OF v, of w' n' "concat content" g] d(3) m by simp
  moreover have "concat (read_chunks 8192 (concat content)) = concat content" by (simp add: concat_read_chunks)
  moreover have "map_of (nfs_tree n') p = map_of (nfs_tree (ensure_mounted w n)) p"
    if "validate_path base path \<noteq> Inr (butlast p) \<or> last p \<noteq> f" for p
    using d(4) that d(1) by (metis butlast_snoc last_snoc)
  ultimately show ?thesis by blast
qed

text \<open>
  A successful move takes a file or a whole folder to a free place: below the destination lies what lay
  below the source, the source is gone, and every other path keeps what it had, or was missing and
  is now one of the folders above the destination.
\<close>

lemma nfs_move_moves:
  assumes "nfs_ok n" and "nfs_move_file g base w source destination n = (n', Inr info)"
    and "validate_path base source = Inr src" and "validate_path base destination = Inr dst"
  shows "map_of (nfs_tree n') (dst @ r) = map_of (nfs_tree (ensure_mounted w n)) (src @ r)" and "map_of (nfs_tree n') (src @ r) = None"
    and "\<not> within dst q \<Longrightarrow> \<not> within src q \<Longrightarrow> map_of (nfs_tree n') q = map_of (nfs_tree (ensure_mounted w n)) q
      \<or> map_of (nfs_tree (ensure_mounted w n)) q = None \<and> map_of (nfs_tree n') q = Some Folder \<and> within q (butlast dst)"
proof -
  let ?n = "ensure_mounted w n"
  obtain t where m: "nfs_item ?n src \<noteq> None" "nfs_item ?n dst = None" "move_tree src dst ?n = Inr t" and n': "nfs_tree n' = t"
    using assms(2-4) by (auto simp: nfs_move_file_def Let_def ebind_Inr_iff ebind_Inl_iff split: sum.splits if_splits)
  from move_tree_InrD [OF ensure_mounted_ok [OF assms(1)] nfs_root m(1,2) validate_path_clean [OF assms(4)] m(3)] obtain t0 where
    t: "share_ok t0" "t = rename_tree src dst t0" "free dst t0" "src \<noteq> []" "dst \<noteq> []" "\<not> within src dst"
      "\<And>q. map_of t0 q = map_of (nfs_tree ?n) q \<or> map_of (nfs_tree ?n) q = None \<and> map_of t0 q = Some Folder \<and> within q (butlast dst)" by metis
  have "\<not> within (src @ r) (butlast dst)" for r
    using t(6) unfolding within_iff by (metis append_assoc append_butlast_last_id t(5))
  then have s0: "map_of t0 (src @ r) = map_of (nfs_tree ?n) (src @ r)" for r using t(7) [of "src @ r"] by blast
  show "map_of (nfs_tree n') (dst @ r) = map_of (nfs_tree ?n) (src @ r)"
    using s0 by (simp add: n' t(2) map_of_rename [OF t(3)] within_iff)
  have "\<not> within dst (src @ r)"
  proof
    assume "within dst (src @ r)"
    then obtain e where "src @ r = dst @ e" unfolding within_iff by blast
    then have "within dst src" using t(6) unfolding within_iff by (auto simp: append_eq_append_conv2)
    moreover obtain i where "map_of t0 src = Some i" using m(1) t(4) s0 [of "[]"] by (auto simp: nfs_item_def)
    ultimately show False using t(3) map_of_SomeD [of t0 src i] by (auto simp: free_def)
  qed
  then show "map_of (nfs_tree n') (src @ r) = None" by (simp add: n' t(2) map_of_rename [OF t(3)] within_iff)
  assume "\<not> within dst q" "\<not> within src q"
  then show "map_of (nfs_tree n') q = map_of (nfs_tree ?n) q
      \<or> map_of (nfs_tree ?n) q = None \<and> map_of (nfs_tree n') q = Some Folder \<and> within q (butlast dst)"
    using t(7) [of q] by (simp add: n' t(2) map_of_rename [OF t(3)])
qed

lemma item_root_put: "nfs_item (put_tree t n) [] = Some Folder"
  by (simp add: nfs_item_def put_tree_def)

lemma nfs_move_root: "nfs_move_file g base w source destination n = (n', Inr info) \<Longrightarrow> nfs_item n' [] = Some Folder"
  by (auto simp: nfs_move_file_def Let_def item_root_put split: sum.splits)

text \<open>A request to delete the path / (or one made of slashes and dots only) of a mounted share empties the
  whole share and is answered with an error.\<close>

theorem delete_root_wipes:
  assumes "nf_mounted n" and "\<not> contains ''..'' path" and "parts path = []"
  shows "\<exists>n'. nfs_delete_files base w (path # paths) n = (n', Inl OsFailure) \<and> nf_share n' = []"
proof -
  have "validate_path base path = Inr []" using assms(2,3) by (simp add: validate_path_iff)
  then show ?thesis using assms(1) by (simp add: nfs_delete_files_def ensure_mounted_def nfs_item_def)
qed

text \<open>The outcome of the mount is not looked at: an upload while the share cannot be mounted succeeds, but
  the file is in the local directory, and once the share is mounted a download does not find it.\<close>

theorem upload_without_mount:
  assumes "nfs_upload_file g base False path f content n = (n', Inr info)" and "\<not> nf_mounted n"
    and "validate_path base path = Inr d" and "map_of (nf_share n) (d @ [f]) = None"
  shows "nf_share n' = nf_share n"
    and "\<exists>n''. nfs_download_file g base True (rstrip_slash path @ ''/'' @ f) n' = (n'', Inl FileNotFound)"
proof -
  have m: "\<not> nf_mounted (ensure_mounted False n)" "nf_share (ensure_mounted False n) = nf_share n"
    using assms(2) by (simp_all add: ensure_mounted_def nfs_mount_def Let_def)
  have n': "\<not> nf_mounted n' \<and> nf_share n' = nf_share n \<and> component f"
    by (rule upload_cases [OF assms(1)]) (use m in \<open>simp_all add: put_tree_def\<close>)
  then show "nf_share n' = nf_share n" by blast
  have v: "validate_path base (rstrip_slash path @ ''/'' @ f) = Inr (d @ [f])"
    using validate_joined [OF assms(3)] n' upload_filename [OF assms(1)] by blast
  have "nfs_item (ensure_mounted True n') (d @ [f]) = None"
    using n' assms(4) by (simp add: nfs_item_def nfs_tree_def ensure_mounted_def nfs_mount_def Let_def)
  then show "\<exists>n''. nfs_download_file g base True (rstrip_slash path @ ''/'' @ f) n' = (n'', Inl FileNotFound)"
    using v by (simp add: nfs_download_file_def)
qed


definition demo_nfs :: nfs where
  "demo_nfs = \<lparr>nf_mounted = True, nf_share = [([''boot''], Folder), ([''boot'', ''linux''], Content ''kernel'')], nf_local = Some []\<rparr>"

lemma demo_nfs_ok: "nfs_ok demo_nfs"
  by (simp add: nfs_ok_def demo_nfs_def share_ok_def component_def)

abbreviation demo_base :: path where
  "demo_base \<equiv> [''tmp'', ''pureboot'', ''nfs'', ''b'']"

theorem upload_download_witness:
  "\<exists>chunks mime. nfs_download_file (\<lambda>_. None) demo_base True (rstrip_slash ''/boot/'' @ ''/'' @ ''initrd'')
      (fst (nfs_upload_file (\<lambda>_. None) demo_base True ''/boot/'' ''initrd'' [''ab'', ''c''] demo_nfs))
      = (fst (nfs_upload_file (\<lambda>_. None) demo_base True ''/boot/'' ''initrd'' [''ab'', ''c''] demo_nfs), Inr (chunks, mime, 3)) \<and> concat chunks = ''abc''"
proof -
  have r: "isl (snd (nfs_upload_file (\<lambda>_. None) demo_base True ''/boot/'' ''initrd'' [''ab'', ''c''] demo_nfs)) = False
      \<and> nf_mounted (fst (nfs_upload_file (\<lambda>_. None) demo_base True ''/boot/'' ''initrd'' [''ab'', ''c''] demo_nfs))" by code_simp
  obtain n' info where u: "nfs_upload_file (\<lambda>_. None) demo_base True ''/boot/'' ''initrd'' [''ab'', ''c''] demo_nfs = (n', Inr info)"
    using r by (metis isl_def prod.collapse sum.exhaust_sel)
  from upload_download [OF u, of True] show ?thesis using r u by auto
qed

theorem delete_root_wipes_witness:
  "\<exists>n'. nfs_delete_files demo_base True [''/'', ''/boot''] demo_nfs = (n', Inl OsFailure) \<and> nf_share n' = []"
  by (rule delete_root_wipes) (simp_all add: demo_nfs_def startswith_def parts_def)

theorem upload_without_mount_witness:
  "\<exists>n''. nfs_download_file (\<lambda>_. None) demo_base True (rstrip_slash ''/'' @ ''/'' @ ''initrd'')
      (fst (nfs_upload_file (\<lambda>_. None) demo_base False ''/'' ''initrd'' [''abc''] (demo_nfs\<lparr>nf_mounted := False\<rparr>))) = (n'', Inl FileNotFound)"
proof -
  have r: "isl (snd (nfs_upload_file (\<lambda>_. None) demo_base False ''/'' ''initrd'' [''abc''] (demo_nfs\<lparr>nf_mounted := False\<rparr>))) = False" by code_simp
  obtain n' info where u: "nfs_upload_file (\<lambda>_. None) demo_base False ''/'' ''initrd'' [''abc''] (demo_nfs\<lparr>nf_mounted := False\<rparr>) = (n', Inr info)"
    using r by (metis isl_def prod.collapse sum.exhaust_sel)
  have v: "validate_path demo_base ''/'' = Inr []" by code_simp
  show ?thesis unfolding u fst_conv by (rule upload_without_mount(2) [OF u _ v]) (simp_all add: demo_nfs_def)
qed

end
