(* ===== verification/Throttler.thy ===== *)
theory Throttler
  imports Prelude Complex_Main
begin

text \<open>
  The bandwidth throttler, src/src/core/bandwidth_throttler.py: active transfers with a priority,
  the share of the bandwidth a transfer gets per interval, and the stream wrapper
  \<open>throttled_iterator\<close>. Floats are exact rationals here.

  The stream awaits the throttler and sleeps; meanwhile other tasks may change it. They are the
  parameter \<open>others\<close>: what they make of the throttler at the k-th await. The loop is a partial
  function, since it waits without end while nothing is allowed.
\<close>

section \<open>Transfers\<close>

definition MIN_BANDWIDTH_MBPS :: int where "MIN_BANDWIDTH_MBPS = 1"
definition MIN_BANDWIDTH_BYTES_PER_SEC :: int where "MIN_BANDWIDTH_BYTES_PER_SEC = MIN_BANDWIDTH_MBPS * 125000"

record transfer =
  tr_file_path :: string
  tr_total_bytes :: int
  tr_bytes_transferred :: int
  tr_priority :: rat

definition progress :: "transfer \<Rightarrow> rat" where
  "progress t = (if tr_total_bytes t \<le> 0 then 0 else min 1 (of_int (tr_bytes_transferred t) / of_int (tr_total_bytes t)))"

definition remaining_bytes :: "transfer \<Rightarrow> int" where
  "remaining_bytes t = max 0 (tr_total_bytes t - tr_bytes_transferred t)"

definition small_file :: int where "small_file = 10 * 1024 * 1024"

definition calculate_priority :: "transfer \<Rightarrow> rat" where
  "calculate_priority t =
     1 + (if tr_total_bytes t < small_file then 1 - of_int (tr_total_bytes t) / of_int small_file else 0)
       + (if progress t > 8 / 10 then (progress t - 8 / 10) / (2 / 10) else 0)"

record throttler =
  th_bytes_per_sec :: int
  th_transfers :: "(string \<times> transfer) list"

definition init_throttler :: "int \<Rightarrow> throttler" where
  "init_throttler total_bandwidth_mbps = \<lparr>th_bytes_per_sec = total_bandwidth_mbps * 125000, th_transfers = []\<rparr>"

definition total_bandwidth_mbps :: "throttler \<Rightarrow> int" where
  "total_bandwidth_mbps th = th_bytes_per_sec th div 125000"

definition configure_throttler :: "int \<Rightarrow> throttler option \<Rightarrow> throttler" where
  "configure_throttler mbps th =
     (case th of None \<Rightarrow> init_throttler mbps | Some th \<Rightarrow> th\<lparr>th_bytes_per_sec := mbps * 125000\<rparr>)"

definition register_transfer :: "string \<Rightarrow> string \<Rightarrow> int \<Rightarrow> throttler \<Rightarrow> throttler" where
  "register_transfer tid file_path total_bytes th =
     (let t = \<lparr>tr_file_path = file_path, tr_total_bytes = total_bytes, tr_bytes_transferred = 0, tr_priority = 1\<rparr>;
          t = t\<lparr>tr_priority := calculate_priority t\<rparr>
      in th\<lparr>th_transfers := dict_put tid t (th_transfers th)\<rparr>)"

definition unregister_transfer :: "string \<Rightarrow> throttler \<Rightarrow> throttler" where
  "unregister_transfer tid th = th\<lparr>th_transfers := dict_del tid (th_transfers th)\<rparr>"

definition update_progress :: "string \<Rightarrow> int \<Rightarrow> throttler \<Rightarrow> throttler" where
  "update_progress tid bytes_sent th =
     (case map_of (th_transfers th) tid of
        None \<Rightarrow> th
      | Some t \<Rightarrow>
          let t = t\<lparr>tr_bytes_transferred := tr_bytes_transferred t + bytes_sent\<rparr>;
              t = t\<lparr>tr_priority := calculate_priority t\<rparr>
          in th\<lparr>th_transfers := dict_put tid t (th_transfers th)\<rparr>)"

text \<open>\<open>int()\<close> truncates towards zero.\<close>

definition trunc :: "rat \<Rightarrow> int" where
  "trunc x = (if x \<ge> 0 then \<lfloor>x\<rfloor> else \<lceil>x\<rceil>)"

definition total_priority :: "throttler \<Rightarrow> rat" where
  "total_priority th = sum_list (map (\<lambda>(i, t). tr_priority t) (th_transfers th))"

definition get_allowed_bytes :: "string \<Rightarrow> rat \<Rightarrow> throttler \<Rightarrow> int" where
  "get_allowed_bytes tid interval th =
     (case map_of (th_transfers th) tid of
        None \<Rightarrow> 0
      | Some t \<Rightarrow>
          let priority_share = tr_priority t / total_priority th;
              allowed = trunc (of_int (th_bytes_per_sec th) * interval * priority_share);
              min_allowed = trunc (of_int MIN_BANDWIDTH_BYTES_PER_SEC * interval)
          in min (max allowed min_allowed) (remaining_bytes t))"

section \<open>The stream\<close>

text \<open>
  The two loops over the buffer: \<open>while len(buffer) >= limit\<close>, with the chunk size as the limit
  between the chunks and 1 at the end.
\<close>

partial_function (option) drain ::
    "(nat \<Rightarrow> throttler \<Rightarrow> throttler) \<Rightarrow> string \<Rightarrow> nat \<Rightarrow> nat \<Rightarrow> nat \<Rightarrow> string \<Rightarrow> throttler
       \<Rightarrow> (nat \<times> string \<times> string list \<times> throttler) option" where
  "drain others tid chunk_size limit k buffer th =
     (if length buffer < limit then Some (k, buffer, [], th)
      else if get_allowed_bytes tid (1 / 10) (others k th) \<le> 0
      then drain others tid chunk_size limit (Suc k) buffer (others k th)
      else Option.bind
        (drain others tid chunk_size limit (Suc (Suc k))
           (drop (min (length buffer) (min (nat (get_allowed_bytes tid (1 / 10) (others k th))) chunk_size)) buffer)
           (update_progress tid (int (min (length buffer) (min (nat (get_allowed_bytes tid (1 / 10) (others k th))) chunk_size)))
              (others (Suc k) (others k th))))
        (\<lambda>(k', rest, out, th'). Some (k', rest,
           take (min (length buffer) (min (nat (get_allowed_bytes tid (1 / 10) (others k th))) chunk_size)) buffer # out, th')))"

fun feed ::
    "(nat \<Rightarrow> throttler \<Rightarrow> throttler) \<Rightarrow> string \<Rightarrow> nat \<Rightarrow> string list \<Rightarrow> nat \<Rightarrow> string \<Rightarrow> throttler
       \<Rightarrow> (nat \<times> string \<times> string list \<times> throttler) option" where
  "feed others tid chunk_size [] k buffer th = drain others tid chunk_size 1 k buffer th"
| "feed others tid chunk_size (c # cs) k buffer th =
     Option.bind (drain others tid chunk_size chunk_size k (buffer @ c) th) (\<lambda>(k, buffer, out, th).
     Option.bind (feed others tid chunk_size cs k buffer th) (\<lambda>(k, buffer, out', th). Some (k, buffer, out @ out', th)))"

text \<open>The result is the list of pieces yielded and the throttler, with the transfer unregistered.\<close>

definition throttled_iterator ::
    "(nat \<Rightarrow> throttler \<Rightarrow> throttler) \<Rightarrow> string \<Rightarrow> nat \<Rightarrow> string list \<Rightarrow> throttler \<Rightarrow> (string list \<times> throttler) option" where
  "throttled_iterator others tid chunk_size chunks th =
     Option.bind (feed others tid chunk_size chunks 0 [] th) (\<lambda>(k, buffer, out, th). Some (out, unregister_transfer tid th))"

section \<open>Priorities\<close>

definition transfers_ok :: "throttler \<Rightarrow> bool" where
  "transfers_ok th \<longleftrightarrow> distinct (map fst (th_transfers th))
     \<and> (\<forall>(i, t) \<in> set (th_transfers th). tr_priority t = calculate_priority t)"

lemma priority_ge_1: "calculate_priority t \<ge> 1"
proof -
  have "tr_total_bytes t < small_file \<Longrightarrow> 1 - of_int (tr_total_bytes t) / (of_int small_file :: rat) \<ge> 0"
    by (simp add: small_file_def)
  moreover have "progress t > 8 / 10 \<Longrightarrow> (progress t - 8 / 10) / (2 / 10) \<ge> 0" by simp
  ultimately show ?thesis by (simp add: calculate_priority_def)
qed

lemma priority_le_3:
  assumes "tr_total_bytes t \<ge> 0"
  shows "calculate_priority t \<le> 3"
proof -
  have "progress t \<le> 1" by (simp add: progress_def)
  then show ?thesis using assms by (simp add: calculate_priority_def small_file_def)
qed

lemma set_dict_put_subset: "set (dict_put k v d) \<subseteq> insert (k, v) (set d)"
  by (induction d) (auto split: if_splits)

lemma transfers_ok_put:
  assumes "transfers_ok th" and "tr_priority t = calculate_priority t"
  shows "transfers_ok (th\<lparr>th_transfers := dict_put tid t (th_transfers th)\<rparr>)"
  using assms set_dict_put_subset [of tid t "th_transfers th"] by (fastforce simp: transfers_ok_def)

lemma calculate_priority_update [simp]: "calculate_priority (t\<lparr>tr_priority := p\<rparr>) = calculate_priority t"
  by (simp add: calculate_priority_def progress_def)

lemma register_ok: "transfers_ok th \<Longrightarrow> transfers_ok (register_transfer tid p n th)"
  unfolding register_transfer_def Let_def by (rule transfers_ok_put) (simp_all add: calculate_priority_def progress_def)

lemma unregister_ok: "transfers_ok th \<Longrightarrow> transfers_ok (unregister_transfer tid th)"
  using distinct_dict_del [of "th_transfers th" tid] by (auto simp: transfers_ok_def unregister_transfer_def dict_del_def)

lemma update_progress_ok:
  assumes "transfers_ok th"
  shows "transfers_ok (update_progress tid n th)"
proof (cases "map_of (th_transfers th) tid")
  case (Some t)
  then show ?thesis unfolding update_progress_def Let_def by (simp add: transfers_ok_put [OF assms])
qed (simp add: update_progress_def assms)

lemma priority_pos: "transfers_ok th \<Longrightarrow> (i, t) \<in> set (th_transfers th) \<Longrightarrow> tr_priority t \<ge> 1"
  using priority_ge_1 by (auto simp: transfers_ok_def)

lemma total_priority_pos:
  assumes "transfers_ok th" and "th_transfers th \<noteq> []"
  shows "total_priority th > 0"
proof -
  have "sum_list (map (\<lambda>(i, t). tr_priority t) ts) \<ge> of_nat (length ts)" if "\<forall>(i, t) \<in> set ts. tr_priority t \<ge> 1" for ts :: "(string \<times> transfer) list"
    using that by (induction ts) auto
  moreover have "\<forall>(i, t) \<in> set (th_transfers th). tr_priority t \<ge> 1" using priority_pos [OF assms(1)] by blast
  ultimately have "total_priority th \<ge> of_nat (length (th_transfers th))" by (simp add: total_priority_def)
  then show ?thesis using assms(2) by (metis length_greater_0_conv of_nat_0_less_iff order_less_le_trans)
qed

section \<open>Allowances\<close>

lemma allowed_le_remaining: "map_of (th_transfers th) tid = Some t \<Longrightarrow> get_allowed_bytes tid x th \<le> remaining_bytes t"
  by (simp add: get_allowed_bytes_def Let_def)

lemma min_allowed: "trunc (of_int MIN_BANDWIDTH_BYTES_PER_SEC * (1 / 10)) = 12500"
  by (simp add: trunc_def MIN_BANDWIDTH_BYTES_PER_SEC_def MIN_BANDWIDTH_MBPS_def)

lemma allowed_floor:
  "map_of (th_transfers th) tid = Some t \<Longrightarrow> get_allowed_bytes tid (1 / 10) th \<ge> min 12500 (remaining_bytes t)"
  by (simp only: get_allowed_bytes_def Let_def option.simps min_allowed)

text \<open>The share of one transfer, before the rounding.\<close>

definition share :: "rat \<Rightarrow> throttler \<Rightarrow> transfer \<Rightarrow> rat" where
  "share x th t = of_int (th_bytes_per_sec th) * x * (tr_priority t / total_priority th)"

lemma trunc_le: "y \<ge> 0 \<Longrightarrow> of_int (trunc y) \<le> y"
  by (simp add: trunc_def)

lemma allowed_le_share:
  assumes "transfers_ok th" and "(tid, t) \<in> set (th_transfers th)" and "th_bytes_per_sec th \<ge> 0" and "x \<ge> 0"
  shows "of_int (get_allowed_bytes tid x th) \<le> share x th t + of_int MIN_BANDWIDTH_BYTES_PER_SEC * x"
proof -
  have m: "map_of (th_transfers th) tid = Some t" using assms(1,2) by (simp add: transfers_ok_def)
  have tp: "total_priority th > 0" using total_priority_pos [OF assms(1)] assms(2) by (cases "th_transfers th") auto
  have pp: "tr_priority t \<ge> 1" by (rule priority_pos [OF assms(1,2)])
  have a: "share x th t \<ge> 0" using assms(3,4) tp pp by (simp add: share_def)
  have b: "of_int MIN_BANDWIDTH_BYTES_PER_SEC * x \<ge> 0" using assms(4) by (simp add: MIN_BANDWIDTH_BYTES_PER_SEC_def MIN_BANDWIDTH_MBPS_def)
  have "of_int (get_allowed_bytes tid x th) \<le> (of_int (max (trunc (share x th t)) (trunc (of_int MIN_BANDWIDTH_BYTES_PER_SEC * x))) :: rat)"
    using m by (simp add: get_allowed_bytes_def Let_def share_def)
  also have "\<dots> \<le> max (share x th t) (of_int MIN_BANDWIDTH_BYTES_PER_SEC * x)"
    using trunc_le [OF a] trunc_le [OF b] by (auto simp: max_def)
  also have "\<dots> \<le> share x th t + of_int MIN_BANDWIDTH_BYTES_PER_SEC * x" using a b by (simp add: max_def)
  finally show ?thesis .
qed

lemma shares_add_up:
  assumes "transfers_ok th" and "th_transfers th \<noteq> []"
  shows "sum_list (map (\<lambda>(i, t). share x th t) (th_transfers th)) = of_int (th_bytes_per_sec th) * x"
proof -
  have "sum_list (map (\<lambda>(i, t). share x th t) ts) = of_int (th_bytes_per_sec th) * x * (sum_list (map (\<lambda>(i, t). tr_priority t) ts) / total_priority th)"
    for ts :: "(string \<times> transfer) list"
    by (induction ts) (auto simp: share_def algebra_simps add_divide_distrib)
  then show ?thesis using total_priority_pos [OF assms] by (simp add: total_priority_def)
qed

text \<open>
  C34: In every interval the allowances of all transfers together are at most the configured
  bandwidth, plus the minimum floor of 1 Mbps per active transfer.
\<close>

theorem bandwidth_shared:
  assumes "transfers_ok th" and "th_bytes_per_sec th \<ge> 0" and "x \<ge> 0"
  shows "of_int (sum_list (map (\<lambda>(i, t). get_allowed_bytes i x th) (th_transfers th)))
    \<le> of_int (th_bytes_per_sec th) * x + of_nat (length (th_transfers th)) * (of_int MIN_BANDWIDTH_BYTES_PER_SEC * x)"
proof (cases "th_transfers th = []")
  case True
  then show ?thesis using assms(2,3) by simp
next
  case False
  have "of_int (sum_list (map (\<lambda>(i, t). get_allowed_bytes i x th) ts))
      \<le> sum_list (map (\<lambda>(i, t). share x th t) ts) + of_nat (length ts) * (of_int MIN_BANDWIDTH_BYTES_PER_SEC * x)"
    if "set ts \<subseteq> set (th_transfers th)" for ts
    using that
  proof (induction ts)
    case (Cons e ts)
    obtain i t where e: "e = (i, t)" by (cases e)
    have "of_int (get_allowed_bytes i x th) \<le> share x th t + of_int MIN_BANDWIDTH_BYTES_PER_SEC * x"
      using allowed_le_share [OF assms(1) _ assms(2,3)] Cons.prems e by auto
    then show ?case using Cons e by (simp add: distrib_right)
  qed simp
  from this [OF subset_refl] show ?thesis using shares_add_up [OF assms(1) False, of x] by simp
qed

section \<open>Delivery\<close>

text \<open>The other tasks leave the entry of this transfer alone.\<close>

definition others_keep :: "(nat \<Rightarrow> throttler \<Rightarrow> throttler) \<Rightarrow> string \<Rightarrow> bool" where
  "others_keep others tid \<longleftrightarrow> (\<forall>k th. map_of (th_transfers (others k th)) tid = map_of (th_transfers th) tid)"

lemma others_keepD: "others_keep others tid \<Longrightarrow> map_of (th_transfers (others k th)) tid = map_of (th_transfers th) tid"
  by (simp add: others_keep_def)

lemma update_progress_entry:
  assumes "map_of (th_transfers th) tid = Some t"
  shows "\<exists>t'. map_of (th_transfers (update_progress tid n th)) tid = Some t'
    \<and> tr_total_bytes t' = tr_total_bytes t \<and> tr_bytes_transferred t' = tr_bytes_transferred t + n"
  using assms by (simp add: update_progress_def Let_def)

text \<open>What a run of the loop has done when it ends.\<close>

definition drained :: "string \<Rightarrow> nat \<Rightarrow> nat \<Rightarrow> string \<Rightarrow> transfer \<Rightarrow> nat \<times> string \<times> string list \<times> throttler \<Rightarrow> bool" where
  "drained tid chunk_size limit buffer t r = (case r of (k', rest, out, th') \<Rightarrow>
     concat out @ rest = buffer \<and> length rest < limit \<and> (\<forall>p \<in> set out. length p \<le> chunk_size)
     \<and> (\<exists>t'. map_of (th_transfers th') tid = Some t' \<and> tr_total_bytes t' = tr_total_bytes t
          \<and> tr_bytes_transferred t' = tr_bytes_transferred t + int (length (concat out))
          \<and> tr_bytes_transferred t' \<le> tr_total_bytes t'))"

definition send_size :: "string \<Rightarrow> nat \<Rightarrow> string \<Rightarrow> throttler \<Rightarrow> nat" where
  "send_size tid chunk_size buffer th = min (length buffer) (min (nat (get_allowed_bytes tid (1 / 10) th)) chunk_size)"

lemma drained_step:
  assumes "map_of (th_transfers th) tid = Some t" and "map_of (th_transfers th2) tid = Some t"
      and n: "n = send_size tid chunk_size buffer th"
      and t2: "tr_total_bytes t2 = tr_total_bytes t" "tr_bytes_transferred t2 = tr_bytes_transferred t + int n"
      and d: "drained tid chunk_size limit (drop n buffer) t2 (k', rest, out, th')"
  shows "drained tid chunk_size limit buffer t (k', rest, take n buffer # out, th')"
proof -
  have c: "concat out @ rest = drop n buffer" using d by (simp add: drained_def)
  have "n \<le> length buffer" and "n \<le> chunk_size" by (simp_all add: n send_size_def)
  moreover have "(take n buffer @ concat out) @ rest = buffer" using c by simp
  ultimately show ?thesis using d t2 by (auto simp: drained_def)
qed

lemma send_le_remaining:
  assumes "map_of (th_transfers th) tid = Some t" and "tr_bytes_transferred t \<le> tr_total_bytes t"
  shows "tr_bytes_transferred t + int (send_size tid chunk_size buffer th) \<le> tr_total_bytes t"
  using allowed_le_remaining [OF assms(1), of "1 / 10"] assms(2) by (simp add: send_size_def remaining_bytes_def)

lemma drain_sound_all:
  assumes "drain others tid chunk_size limit k buffer th = Some r"
  shows "\<forall>t. others_keep others tid \<longrightarrow> map_of (th_transfers th) tid = Some t
    \<longrightarrow> tr_bytes_transferred t \<le> tr_total_bytes t \<longrightarrow> drained tid chunk_size limit buffer t r"
proof (rule drain.raw_induct [of "\<lambda>others tid chunk_size limit k buffer th r.
    \<forall>t. others_keep others tid \<longrightarrow> map_of (th_transfers th) tid = Some t
      \<longrightarrow> tr_bytes_transferred t \<le> tr_total_bytes t \<longrightarrow> drained tid chunk_size limit buffer t r", OF _ assms], intro allI impI)
  fix rec :: "(nat \<Rightarrow> throttler \<Rightarrow> throttler) \<Rightarrow> string \<Rightarrow> nat \<Rightarrow> nat \<Rightarrow> nat \<Rightarrow> string \<Rightarrow> throttler
       \<Rightarrow> (nat \<times> string \<times> string list \<times> throttler) option"
  fix others :: "nat \<Rightarrow> throttler \<Rightarrow> throttler" and tid buffer :: string and chunk_size limit k th r t
  let ?n = "send_size tid chunk_size buffer (others k th)"
  assume IH: "\<And>others tid chunk_size limit k buffer th r. rec others tid chunk_size limit k buffer th = Some r \<Longrightarrow>
      \<forall>t. others_keep others tid \<longrightarrow> map_of (th_transfers th) tid = Some t
        \<longrightarrow> tr_bytes_transferred t \<le> tr_total_bytes t \<longrightarrow> drained tid chunk_size limit buffer t r"
    and run: "(if length buffer < limit then Some (k, buffer, [], th)
      else if get_allowed_bytes tid (1 / 10) (others k th) \<le> 0
      then rec others tid chunk_size limit (Suc k) buffer (others k th)
      else Option.bind
        (rec others tid chunk_size limit (Suc (Suc k))
           (drop (min (length buffer) (min (nat (get_allowed_bytes tid (1 / 10) (others k th))) chunk_size)) buffer)
           (update_progress tid (int (min (length buffer) (min (nat (get_allowed_bytes tid (1 / 10) (others k th))) chunk_size)))
              (others (Suc k) (others k th))))
        (\<lambda>(k', rest, out, th'). Some (k', rest,
           take (min (length buffer) (min (nat (get_allowed_bytes tid (1 / 10) (others k th))) chunk_size)) buffer # out, th'))) = Some r"
    and keep: "others_keep others tid" and t: "map_of (th_transfers th) tid = Some t"
    and le: "tr_bytes_transferred t \<le> tr_total_bytes t"
  note keeps = others_keepD [OF keep]
  consider (short) "length buffer < limit" | (wait) "\<not> length buffer < limit" "get_allowed_bytes tid (1 / 10) (others k th) \<le> 0"
    | (send) "\<not> length buffer < limit" "\<not> get_allowed_bytes tid (1 / 10) (others k th) \<le> 0" by blast
  then show "drained tid chunk_size limit buffer t r"
  proof cases
    case short
    then show ?thesis using run t le by (auto simp: drained_def)
  next
    case wait
    then have "rec others tid chunk_size limit (Suc k) buffer (others k th) = Some r" using run by simp
    from IH [OF this] show ?thesis using keep t le keeps by simp
  next
    case send
    obtain k' rest out th' where r: "r = (k', rest, take ?n buffer # out, th')"
        and rr: "rec others tid chunk_size limit (Suc (Suc k)) (drop ?n buffer)
          (update_progress tid (int ?n) (others (Suc k) (others k th))) = Some (k', rest, out, th')"
      using run send by (auto simp: send_size_def bind_eq_Some_conv)
    have e: "map_of (th_transfers (others k th)) tid = Some t" "map_of (th_transfers (others (Suc k) (others k th))) tid = Some t"
      using t keeps by simp_all
    obtain t2 where t2: "map_of (th_transfers (update_progress tid (int ?n) (others (Suc k) (others k th)))) tid = Some t2"
        "tr_total_bytes t2 = tr_total_bytes t" "tr_bytes_transferred t2 = tr_bytes_transferred t + int ?n"
      using update_progress_entry [OF e(2)] by blast
    have "drained tid chunk_size limit (drop ?n buffer) t2 (k', rest, out, th')"
      using IH [OF rr] keep t2 send_le_remaining [OF e(1) le, of chunk_size buffer] by simp
    then show ?thesis using drained_step [OF e refl t2(2,3)] r by simp
  qed
qed

lemmas drain_sound = drain_sound_all [rule_format]

text \<open>With enough bytes announced the loop ends.\<close>

lemma send_pos:
  assumes "map_of (th_transfers th) tid = Some t" and "buffer \<noteq> []" and "chunk_size \<ge> 1"
      and "tr_bytes_transferred t + int (length buffer) \<le> tr_total_bytes t"
  shows "get_allowed_bytes tid (1 / 10) th > 0" and "send_size tid chunk_size buffer th > 0"
proof -
  have "int (length buffer) > 0" using assms(2) by simp
  then have "tr_bytes_transferred t < tr_total_bytes t" using assms(4) by linarith
  then have "remaining_bytes t > 0" by (simp add: remaining_bytes_def)
  then show "get_allowed_bytes tid (1 / 10) th > 0" using allowed_floor [OF assms(1)] by linarith
  then show "send_size tid chunk_size buffer th > 0" using assms(2,3) by (simp add: send_size_def)
qed

lemma drain_returns:
  assumes "others_keep others tid" and "map_of (th_transfers th) tid = Some t" and "chunk_size \<ge> 1" and "limit \<ge> 1"
      and "tr_bytes_transferred t + int (length buffer) \<le> tr_total_bytes t"
  shows "\<exists>r. drain others tid chunk_size limit k buffer th = Some r"
  using assms(2,5)
proof (induction buffer arbitrary: k th t rule: length_induct)
  case (1 buffer)
  show ?case
  proof (cases "length buffer < limit")
    case True
    then show ?thesis by (simp add: drain.simps)
  next
    case False
    let ?n = "send_size tid chunk_size buffer (others k th)"
    have ne: "buffer \<noteq> []" using False assms(4) by auto
    have e: "map_of (th_transfers (others k th)) tid = Some t" "map_of (th_transfers (others (Suc k) (others k th))) tid = Some t"
      using 1(2) others_keepD [OF assms(1)] by simp_all
    note pos = send_pos [OF e(1) ne assms(3) 1(3)]
    obtain t2 where t2: "map_of (th_transfers (update_progress tid (int ?n) (others (Suc k) (others k th)))) tid = Some t2"
        "tr_total_bytes t2 = tr_total_bytes t" "tr_bytes_transferred t2 = tr_bytes_transferred t + int ?n"
      using update_progress_entry [OF e(2)] by blast
    have n: "?n \<le> length buffer" by (simp add: send_size_def)
    then have lt: "length (drop ?n buffer) < length buffer" using pos(2) ne by simp
    have "tr_bytes_transferred t2 + int (length (drop ?n buffer)) \<le> tr_total_bytes t2" using 1(3) t2 n by simp
    then obtain r where "drain others tid chunk_size limit (Suc (Suc k)) (drop ?n buffer)
        (update_progress tid (int ?n) (others (Suc k) (others k th))) = Some r"
      using 1(1) lt t2(1) by blast
    then show ?thesis using False pos(1) by (subst drain.simps) (cases r, simp add: send_size_def)
  qed
qed

lemma drained_content: "drained tid chunk_size limit buffer t (k', rest, out, th') \<Longrightarrow> concat out @ rest = buffer"
  by (simp add: drained_def)

lemma drained_length:
  "drained tid chunk_size limit buffer t (k', rest, out, th') \<Longrightarrow> length (concat out) + length rest = length buffer"
  using drained_content length_append by metis

lemma feed_sound:
  assumes "feed others tid chunk_size chunks k buffer th = Some r" and "others_keep others tid"
      and "map_of (th_transfers th) tid = Some t" and "tr_bytes_transferred t \<le> tr_total_bytes t"
  shows "drained tid chunk_size 1 (buffer @ concat chunks) t r"
  using assms
proof (induction chunks arbitrary: k buffer th t r)
  case Nil
  then show ?case using drain_sound by simp
next
  case (Cons c cs)
  obtain k1 rest out th1 r2 where d: "drain others tid chunk_size chunk_size k (buffer @ c) th = Some (k1, rest, out, th1)"
      and f: "feed others tid chunk_size cs k1 rest th1 = Some r2" and r: "r = (case r2 of (k, b, out', th) \<Rightarrow> (k, b, out @ out', th))"
    using Cons.prems(1) by (auto simp: bind_eq_Some_conv)
  have d': "drained tid chunk_size chunk_size (buffer @ c) t (k1, rest, out, th1)"
    by (rule drain_sound [OF d Cons.prems(2-4)])
  then obtain t1 where t1: "map_of (th_transfers th1) tid = Some t1" "tr_total_bytes t1 = tr_total_bytes t"
      "tr_bytes_transferred t1 = tr_bytes_transferred t + int (length (concat out))" "tr_bytes_transferred t1 \<le> tr_total_bytes t1"
    by (auto simp: drained_def)
  have f': "drained tid chunk_size 1 (rest @ concat cs) t1 r2" by (rule Cons.IH [OF f Cons.prems(2) t1(1,4)])
  obtain k2 rest2 out2 th2 where r2: "r2 = (k2, rest2, out2, th2)" by (cases r2)
  have "concat (out @ out2) @ rest2 = concat out @ rest @ concat cs" using drained_content f' r2 by fastforce
  also have "\<dots> = buffer @ concat (c # cs)" using drained_content [OF d'] by (metis append_assoc concat.simps(2))
  finally show ?case using d' f' t1 r r2 drained_length [OF d'] by (auto simp: drained_def)
qed

lemma feed_returns:
  assumes "others_keep others tid" and "map_of (th_transfers th) tid = Some t" and "chunk_size \<ge> 1"
      and "tr_bytes_transferred t + int (length (buffer @ concat chunks)) \<le> tr_total_bytes t"
  shows "\<exists>r. feed others tid chunk_size chunks k buffer th = Some r"
  using assms(2,4)
proof (induction chunks arbitrary: k buffer th t)
  case Nil
  then show ?case using drain_returns [OF assms(1) Nil.prems(1) assms(3)] by simp
next
  case (Cons c cs)
  have len: "tr_bytes_transferred t + int (length (buffer @ c)) \<le> tr_total_bytes t" using Cons.prems(2) by simp
  obtain k1 rest out th1 where d: "drain others tid chunk_size chunk_size k (buffer @ c) th = Some (k1, rest, out, th1)"
    using drain_returns [OF assms(1) Cons.prems(1) assms(3,3) len] by (metis prod_cases4)
  have "tr_bytes_transferred t \<le> tr_total_bytes t" using len by simp
  then have d': "drained tid chunk_size chunk_size (buffer @ c) t (k1, rest, out, th1)"
    by (rule drain_sound [OF d assms(1) Cons.prems(1)])
  then obtain t1 where t1: "map_of (th_transfers th1) tid = Some t1" "tr_total_bytes t1 = tr_total_bytes t"
      "tr_bytes_transferred t1 = tr_bytes_transferred t + int (length (concat out))"
    by (auto simp: drained_def)
  have "length (concat out) + length rest = length (buffer @ c)" by (rule drained_length [OF d'])
  then have "tr_bytes_transferred t1 + int (length (rest @ concat cs)) \<le> tr_total_bytes t1" using Cons.prems(2) t1 by simp
  from Cons.IH [OF t1(1) this, of k1] show ?case using d by auto
qed

text \<open>
  Bandwidth throttling changes neither content nor order. For a registered transfer whose entry no
  other task touches, the stream ends if and only if the content is no longer than the bytes still
  announced for it, whatever the other transfers and the configured bandwidth are. It has then
  yielded exactly the content, in pieces of at most the chunk size, and the transfer is unregistered.
\<close>

theorem throttled_delivery:
  assumes "others_keep others tid" and "map_of (th_transfers th) tid = Some t" and "chunk_size \<ge> 1"
      and "tr_bytes_transferred t \<le> tr_total_bytes t"
  shows "(\<exists>r. throttled_iterator others tid chunk_size chunks th = Some r)
      \<longleftrightarrow> int (length (concat chunks)) \<le> tr_total_bytes t - tr_bytes_transferred t"
    and "throttled_iterator others tid chunk_size chunks th = Some (out, th')
      \<Longrightarrow> concat out = concat chunks \<and> (\<forall>p \<in> set out. length p \<le> chunk_size) \<and> map_of (th_transfers th') tid = None"
proof -
  have sound: "drained tid chunk_size 1 (concat chunks) t r" if "feed others tid chunk_size chunks 0 [] th = Some r" for r
    using feed_sound [OF that assms(1,2,4)] by simp
  then have "int (length (concat chunks)) \<le> tr_total_bytes t - tr_bytes_transferred t"
    if "feed others tid chunk_size chunks 0 [] th = Some r" for r
    using that by (fastforce simp: drained_def)
  moreover have "\<exists>r. feed others tid chunk_size chunks 0 [] th = Some r"
    if "int (length (concat chunks)) \<le> tr_total_bytes t - tr_bytes_transferred t"
    using feed_returns [OF assms(1-3), of "[]" chunks 0] that by simp
  ultimately show "(\<exists>r. throttled_iterator others tid chunk_size chunks th = Some r)
      \<longleftrightarrow> int (length (concat chunks)) \<le> tr_total_bytes t - tr_bytes_transferred t"
    by (fastforce simp: throttled_iterator_def bind_eq_Some_conv)
  assume "throttled_iterator others tid chunk_size chunks th = Some (out, th')"
  then show "concat out = concat chunks \<and> (\<forall>p \<in> set out. length p \<le> chunk_size) \<and> map_of (th_transfers th') tid = None"
    using sound by (fastforce simp: throttled_iterator_def bind_eq_Some_conv drained_def unregister_transfer_def)
qed

theorem throttled_delivery_witness:
  "(\<exists>r. throttled_iterator (\<lambda>k. register_transfer ''b'' ''/x'' 7) ''a'' 2 [''ke'', ''rnel''] (register_transfer ''a'' ''/vmlinuz'' 6 (init_throttler 1000)) = Some r)
   \<and> \<not> (\<exists>r. throttled_iterator (\<lambda>k. register_transfer ''b'' ''/x'' 7) ''a'' 2 [''ke'', ''rnel''] (register_transfer ''a'' ''/vmlinuz'' 0 (init_throttler 1000)) = Some r)"
proof -
  let ?o = "\<lambda>k. register_transfer ''b'' ''/x'' 7" and ?th = "\<lambda>n. register_transfer ''a'' ''/vmlinuz'' n (init_throttler 1000)"
  have k: "others_keep ?o ''a''" by (simp add: others_keep_def register_transfer_def Let_def)
  have m: "\<exists>t. map_of (th_transfers (?th n)) ''a'' = Some t \<and> tr_bytes_transferred t = 0 \<and> tr_total_bytes t = n" for n
    by (simp add: register_transfer_def Let_def)
  obtain t where t: "map_of (th_transfers (?th 6)) ''a'' = Some t" "tr_bytes_transferred t = 0" "tr_total_bytes t = 6" using m by blast
  obtain u where u: "map_of (th_transfers (?th 0)) ''a'' = Some u" "tr_bytes_transferred u = 0" "tr_total_bytes u = 0" using m by blast
  show ?thesis
    using throttled_delivery(1) [OF k t(1), of 2 "[''ke'', ''rnel'']"] throttled_delivery(1) [OF k u(1), of 2 "[''ke'', ''rnel'']"] t u by simp
qed

theorem bandwidth_shared_witness:
  "of_int (sum_list (map (\<lambda>(i, t). get_allowed_bytes i 1 (register_transfer ''a'' ''/vmlinuz'' 6 (init_throttler 1000)))
      (th_transfers (register_transfer ''a'' ''/vmlinuz'' 6 (init_throttler 1000)))))
    \<le> of_int (th_bytes_per_sec (register_transfer ''a'' ''/vmlinuz'' 6 (init_throttler 1000))) * (1 :: rat)
      + of_nat (length (th_transfers (register_transfer ''a'' ''/vmlinuz'' 6 (init_throttler 1000)))) * (of_int MIN_BANDWIDTH_BYTES_PER_SEC * 1)"
  by (rule bandwidth_shared, rule register_ok) (simp_all add: transfers_ok_def init_throttler_def register_transfer_def Let_def)

end
