(* ===== verification/FileRoutes.thy ===== *)
theory FileRoutes
  imports Storage Throttler Session
begin

text \<open>
  The routes over the storage backends: their administration (src/src/api/routes/storage.py), the file
  browser with its checksums (src/src/api/routes/files.py), the system settings
  (src/src/core/system_settings.py and the settings of src/src/api/routes/system.py) and the boot
  files (src/src/api/routes/boot_files.py), which are delivered through the throttler.

  A handler that raises is rolled back in the database only; files and requests to other servers
  stay. The configuration of a backend is given by its known fields; that a field has the right
  type is left to the validation library. The digest of a content, the probe of an NFS server and
  the replies of HTTP and S3 servers are parameters.
\<close>

section \<open>State\<close>

datatype backend_config =
    NfsConfig string string "string option"
  | HttpConfig string string "string option" "string option"
  | S3Config string string
  | IscsiTargetConfig string

record backend =
  be_id :: string
  be_name :: string
  be_type :: string
  be_status :: string
  be_config :: backend_config
  be_used_bytes :: int
  be_total_bytes :: "int option"
  be_file_count :: nat
  be_mount_point :: "path option"

record checksum =
  ck_backend_id :: string
  ck_file_path :: string
  ck_checksum_sha256 :: string
  ck_size_bytes :: int

definition ck_key :: "checksum \<Rightarrow> string \<times> string" where
  "ck_key c = (ck_backend_id c, ck_file_path c)"

record store =
  fs_backends :: "backend list"
  fs_checksums :: "checksum list"
  fs_settings :: "(string \<times> string option) list"
  fs_nfs :: "(string \<times> nfs) list"
  fs_s3_log :: "s3_call list"
  fs_throttler :: throttler

record outside =
  ou_guess_type :: "string \<Rightarrow> string option"
  ou_sha256 :: "string \<Rightarrow> string"
  ou_http :: "string \<Rightarrow> http_reply"
  ou_head :: "string \<Rightarrow> http_reply"
  ou_s3 :: s3_server
  ou_showmount :: "string \<Rightarrow> string option"
  ou_disk_usage :: "nfs \<Rightarrow> int \<times> int"

type_synonym 'a in_store = "store \<times> (api_error + 'a)"

text \<open>The session of a handler that raised.\<close>

definition rolled_back :: "store \<Rightarrow> store \<Rightarrow> store" where
  "rolled_back s s' = s'\<lparr>fs_backends := fs_backends s, fs_checksums := fs_checksums s, fs_settings := fs_settings s\<rparr>"

section \<open>Services\<close>

definition nfs_of :: "string \<Rightarrow> store \<Rightarrow> nfs" where
  "nfs_of i s = (case map_of (fs_nfs s) i of None \<Rightarrow> \<lparr>nf_mounted = False, nf_share = [], nf_local = None\<rparr> | Some n \<Rightarrow> n)"

definition on_nfs :: "string \<Rightarrow> nfs \<times> 'a \<Rightarrow> store \<Rightarrow> store \<times> 'a" where
  "on_nfs i r s = (s\<lparr>fs_nfs := dict_put i (fst r) (fs_nfs s)\<rparr>, snd r)"

definition on_s3 :: "s3_call list \<times> 'a \<Rightarrow> store \<Rightarrow> store \<times> 'a" where
  "on_s3 r s = (s\<lparr>fs_s3_log := fst r\<rparr>, snd r)"

definition supports_write :: "backend \<Rightarrow> bool" where
  "supports_write b \<longleftrightarrow> be_type b \<in> {''nfs'', ''s3''}"

text \<open>The methods of the service that \<open>get_backend_service\<close> makes for a backend.\<close>

definition service_list :: "outside \<Rightarrow> bool \<Rightarrow> backend \<Rightarrow> string \<Rightarrow> store \<Rightarrow> store \<times> (store_error + file_info list)" where
  "service_list out works b path s = (case be_config b of
     NfsConfig server export opts \<Rightarrow>
       on_nfs (be_id b) (nfs_list_files (ou_guess_type out) (mount_point (be_id b)) works path (nfs_of (be_id b) s)) s
   | HttpConfig base_url auth user pw \<Rightarrow> (s, http_list_files (ou_guess_type out) (ou_http out) base_url path)
   | S3Config endpoint bucket \<Rightarrow> on_s3 (s3_list_files (ou_guess_type out) (ou_s3 out) endpoint bucket path (fs_s3_log s)) s
   | IscsiTargetConfig target \<Rightarrow> (s, Inl BadValue))"

definition service_download :: "outside \<Rightarrow> bool \<Rightarrow> backend \<Rightarrow> string \<Rightarrow> store \<Rightarrow> store \<times> (store_error + string list \<times> string \<times> int)" where
  "service_download out works b path s = (case be_config b of
     NfsConfig server export opts \<Rightarrow>
       on_nfs (be_id b) (nfs_download_file (ou_guess_type out) (mount_point (be_id b)) works path (nfs_of (be_id b) s)) s
   | HttpConfig base_url auth user pw \<Rightarrow> (s, http_download_file (ou_http out) base_url path)
   | S3Config endpoint bucket \<Rightarrow> on_s3 (s3_download_file (ou_s3 out) endpoint bucket path (fs_s3_log s)) s
   | IscsiTargetConfig target \<Rightarrow> (s, Inl BadValue))"

definition service_upload ::
    "outside \<Rightarrow> bool \<Rightarrow> backend \<Rightarrow> string \<Rightarrow> string \<Rightarrow> string list \<Rightarrow> store \<Rightarrow> store \<times> (store_error + file_info)" where
  "service_upload out works b path filename content s = (case be_config b of
     NfsConfig server export opts \<Rightarrow>
       on_nfs (be_id b) (nfs_upload_file (ou_guess_type out) (mount_point (be_id b)) works path filename content (nfs_of (be_id b) s)) s
   | S3Config endpoint bucket \<Rightarrow>
       on_s3 (s3_upload_file (ou_guess_type out) (ou_s3 out) endpoint bucket path filename content (fs_s3_log s)) s
   | _ \<Rightarrow> (s, Inl BadValue))"

definition service_delete :: "outside \<Rightarrow> bool \<Rightarrow> backend \<Rightarrow> string list \<Rightarrow> store \<Rightarrow> store \<times> (store_error + nat)" where
  "service_delete out works b paths s = (case be_config b of
     NfsConfig server export opts \<Rightarrow>
       on_nfs (be_id b) (nfs_delete_files (mount_point (be_id b)) works paths (nfs_of (be_id b) s)) s
   | S3Config endpoint bucket \<Rightarrow> on_s3 (map_prod id Inr (s3_delete_files (ou_s3 out) endpoint bucket paths (fs_s3_log s))) s
   | _ \<Rightarrow> (s, Inl BadValue))"

definition service_create_folder :: "outside \<Rightarrow> bool \<Rightarrow> backend \<Rightarrow> string \<Rightarrow> store \<Rightarrow> store \<times> (store_error + file_info)" where
  "service_create_folder out works b path s = (case be_config b of
     NfsConfig server export opts \<Rightarrow>
       on_nfs (be_id b) (nfs_create_folder (mount_point (be_id b)) works path (nfs_of (be_id b) s)) s
   | S3Config endpoint bucket \<Rightarrow> on_s3 (s3_create_folder (ou_s3 out) endpoint bucket path (fs_s3_log s)) s
   | _ \<Rightarrow> (s, Inl BadValue))"

definition service_move :: "outside \<Rightarrow> bool \<Rightarrow> backend \<Rightarrow> string \<Rightarrow> string \<Rightarrow> store \<Rightarrow> store \<times> (store_error + file_info)" where
  "service_move out works b source destination s = (case be_config b of
     NfsConfig server export opts \<Rightarrow>
       on_nfs (be_id b) (nfs_move_file (ou_guess_type out) (mount_point (be_id b)) works source destination (nfs_of (be_id b) s)) s
   | S3Config endpoint bucket \<Rightarrow> on_s3 (s3_move_file (ou_guess_type out) (ou_s3 out) endpoint bucket source destination (fs_s3_log s)) s
   | _ \<Rightarrow> (s, Inl BadValue))"

definition test_connection :: "outside \<Rightarrow> backend \<Rightarrow> bool" where
  "test_connection out b = (case be_config b of
     NfsConfig server export opts \<Rightarrow> (case ou_showmount out server of None \<Rightarrow> False | Some exports \<Rightarrow> contains export exports)
   | HttpConfig base_url auth user pw \<Rightarrow> http_test_connection (ou_head out) base_url
   | S3Config endpoint bucket \<Rightarrow> http_test_connection (ou_head out) (endpoint @ ''/'' @ bucket @ ''?list-type=2&max-keys=1'')
   | IscsiTargetConfig target \<Rightarrow> False)"

section \<open>Administration of backends\<close>

record config_data =
  cd_server :: "string option"
  cd_export_path :: "string option"
  cd_mount_options :: "string option"
  cd_base_url :: "string option"
  cd_auth_method :: "string option"
  cd_username :: "string option"
  cd_password :: "string option"
  cd_endpoint :: "string option"
  cd_bucket :: "string option"
  cd_access_key_id :: "string option"
  cd_target :: "string option"

definition validate_nfs :: "config_data \<Rightarrow> backend_config option" where
  "validate_nfs c = (case (cd_server c, cd_export_path c) of
     (Some server, Some export) \<Rightarrow>
       if server = [] \<or> length server > 255 \<or> \<not> startswith export ''/'' then None
       else Some (NfsConfig server export (Some (set_or (cd_mount_options c) ''vers=4.1'')))
   | _ \<Rightarrow> None)"

definition validate_http :: "config_data \<Rightarrow> backend_config option" where
  "validate_http c = (case cd_base_url c of
     None \<Rightarrow> None
   | Some url \<Rightarrow>
       if \<not> (startswith url ''http://'' \<or> startswith url ''https://'') then None
       else if set_or (cd_auth_method c) ''none'' \<notin> {''none'', ''basic'', ''bearer''} then None
       else Some (HttpConfig (rstrip_slash url) (set_or (cd_auth_method c) ''none'') (cd_username c) (cd_password c)))"

definition validate_config :: "string \<Rightarrow> config_data \<Rightarrow> api_error + backend_config" where
  "validate_config backend_type c =
     (case (if backend_type = ''nfs'' then validate_nfs c
            else if backend_type = ''http'' then validate_http c
            else if backend_type = ''s3'' then
              (case (cd_endpoint c, cd_bucket c, cd_access_key_id c) of (Some e, Some b, Some k) \<Rightarrow> Some (S3Config e b) | _ \<Rightarrow> None)
            else if backend_type = ''iscsi'' then map_option IscsiTargetConfig (cd_target c)
            else None) of
        None \<Rightarrow> Inl (Status 400)
      | Some config \<Rightarrow> Inr config)"

definition create_backend :: "string \<Rightarrow> string \<Rightarrow> string \<Rightarrow> config_data \<Rightarrow> store \<Rightarrow> unit in_store" where
  "create_backend uuid name backend_type config s =
     (if name = [] \<or> length name > 100 \<or> backend_type \<notin> {''nfs'', ''iscsi'', ''s3'', ''http''} then (s, Inl (Status 422))
      else if sql_get be_name name (fs_backends s) \<noteq> None then (s, Inl (Status 409))
      else case validate_config backend_type config of
        Inl e \<Rightarrow> (s, Inl e)
      | Inr validated \<Rightarrow>
          (case sql_insert be_id \<lparr>be_id = uuid, be_name = name, be_type = backend_type, be_status = ''offline'', be_config = validated,
                  be_used_bytes = 0, be_total_bytes = None, be_file_count = 0, be_mount_point = None\<rparr> (fs_backends s) of
             Inl _ \<Rightarrow> (s, Inl ConstraintFailed)
           | Inr bs \<Rightarrow> (s\<lparr>fs_backends := bs\<rparr>, Inr ())))"

definition update_backend :: "string \<Rightarrow> string option \<Rightarrow> config_data option \<Rightarrow> store \<Rightarrow> unit in_store" where
  "update_backend backend_id name config s =
     (case sql_get be_id backend_id (fs_backends s) of
        None \<Rightarrow> (s, Inl (Status 404))
      | Some b \<Rightarrow>
          let rename = truthy name \<and> name \<noteq> Some (be_name b) in
          if rename \<and> sql_get be_name (the name) (fs_backends s) \<noteq> None then (s, Inl (Status 409))
          else let b = (if rename then b\<lparr>be_name := the name\<rparr> else b) in
            case (case config of None \<Rightarrow> Inr (be_config b) | Some c \<Rightarrow> validate_config (be_type b) c) of
              Inl e \<Rightarrow> (s, Inl e)
            | Inr validated \<Rightarrow> (s\<lparr>fs_backends := save_row be_id (b\<lparr>be_config := validated\<rparr>) (fs_backends s)\<rparr>, Inr ()))"

definition delete_backend :: "bool \<Rightarrow> string \<Rightarrow> store \<Rightarrow> unit in_store" where
  "delete_backend works backend_id s =
     (case sql_get be_id backend_id (fs_backends s) of
        None \<Rightarrow> (s, Inl (Status 404))
      | Some b \<Rightarrow>
          let s = (if be_type b = ''nfs'' \<and> be_mount_point b \<noteq> None
                   then fst (on_nfs backend_id (nfs_unmount works (nfs_of backend_id s), ()) s) else s)
          in (s\<lparr>fs_backends := filter (\<lambda>x. be_id x \<noteq> backend_id) (fs_backends s)\<rparr>, Inr ()))"

definition test_backend :: "outside \<Rightarrow> bool \<Rightarrow> string \<Rightarrow> store \<Rightarrow> bool in_store" where
  "test_backend out works backend_id s =
     (case sql_get be_id backend_id (fs_backends s) of
        None \<Rightarrow> (s, Inl (Status 404))
      | Some b \<Rightarrow>
          let success = test_connection out b;
              b = b\<lparr>be_status := (if success then ''online'' else ''error'')\<rparr>;
              (b, s) =
                (if success \<and> be_type b = ''nfs'' then
                   (case nfs_mount works (nfs_of backend_id s) of
                      (n, False) \<Rightarrow> (b, fst (on_nfs backend_id (n, ()) s))
                    | (n, True) \<Rightarrow>
                        (b\<lparr>be_mount_point := Some (mount_point backend_id), be_used_bytes := fst (ou_disk_usage out n),
                           be_total_bytes := Some (snd (ou_disk_usage out n)),
                           be_file_count := set_or (snd (nfs_get_stats works n)) 0\<rparr>, fst (on_nfs backend_id (n, ()) s)))
                 else (b, s))
          in (s\<lparr>fs_backends := save_row be_id b (fs_backends s)\<rparr>, Inr success))"

section \<open>File browser\<close>

definition caught :: "store_error \<Rightarrow> api_error" where
  "caught e = (case e of FileNotFound \<Rightarrow> Status 404 | BadValue \<Rightarrow> Status 400 | OsFailure \<Rightarrow> Crash ''OSError'')"

definition with_backend :: "string \<Rightarrow> store \<Rightarrow> (backend \<Rightarrow> 'a in_store) \<Rightarrow> 'a in_store" where
  "with_backend backend_id s f =
     (case sql_get be_id backend_id (fs_backends s) of None \<Rightarrow> (s, Inl (Status 404)) | Some b \<Rightarrow> f b)"

definition list_files_route :: "outside \<Rightarrow> bool \<Rightarrow> string \<Rightarrow> string \<Rightarrow> store \<Rightarrow> file_info list in_store" where
  "list_files_route out works backend_id path s =
     with_backend backend_id s (\<lambda>b. map_prod id (map_sum caught id) (service_list out works b path s))"

definition download_route :: "outside \<Rightarrow> bool \<Rightarrow> string \<Rightarrow> string \<Rightarrow> store \<Rightarrow> (string list \<times> string \<times> int) in_store" where
  "download_route out works backend_id path s =
     with_backend backend_id s (\<lambda>b. map_prod id (map_sum caught id) (service_download out works b path s))"

text \<open>The key under which the checksum of an upload is stored.\<close>

definition checksum_path :: "string \<Rightarrow> string \<Rightarrow> string" where
  "checksum_path path filename =
     (let file_path = rstrip_slash path @ ''/'' @ filename in if startswith file_path ''/'' then file_path else ''/'' @ file_path)"

definition put_checksum :: "checksum \<Rightarrow> checksum list \<Rightarrow> checksum list" where
  "put_checksum row rows =
     (if sql_get ck_key (ck_key row) rows \<noteq> None then save_row ck_key row rows else rows @ [row])"

definition upload_route :: "outside \<Rightarrow> bool \<Rightarrow> string \<Rightarrow> string \<Rightarrow> string \<Rightarrow> string \<Rightarrow> string option \<Rightarrow> store \<Rightarrow> file_info in_store" where
  "upload_route out works backend_id path filename content expected_checksum s =
     with_backend backend_id s (\<lambda>b.
       if \<not> supports_write b then (s, Inl (Status 400))
       else let computed = ou_sha256 out content in
         if truthy expected_checksum \<and> computed \<noteq> lower (the expected_checksum) then (s, Inl (Status 422))
         else case service_upload out works b path filename (read_chunks 8192 content) s of
           (s', Inl e) \<Rightarrow> (s', Inl (caught e))
         | (s', Inr info) \<Rightarrow>
             (s'\<lparr>fs_checksums := put_checksum
                 \<lparr>ck_backend_id = backend_id, ck_file_path = checksum_path path filename,
                  ck_checksum_sha256 = computed, ck_size_bytes = int (length content)\<rparr> (fs_checksums s')\<rparr>, Inr info))"

text \<open>The paths of these bodies start with a slash and have no two dots.\<close>

definition valid_body_path :: "string \<Rightarrow> bool" where
  "valid_body_path v \<longleftrightarrow> startswith v ''/'' \<and> \<not> contains ''..'' v"

definition delete_route :: "outside \<Rightarrow> bool \<Rightarrow> string \<Rightarrow> string list \<Rightarrow> store \<Rightarrow> nat in_store" where
  "delete_route out works backend_id paths s =
     (if \<not> list_all valid_body_path paths then (s, Inl (Status 422))
      else with_backend backend_id s (\<lambda>b.
        if \<not> supports_write b then (s, Inl (Status 400))
        else map_prod id (map_sum caught id) (service_delete out works b paths s)))"

definition create_folder_route :: "outside \<Rightarrow> bool \<Rightarrow> string \<Rightarrow> string \<Rightarrow> store \<Rightarrow> file_info in_store" where
  "create_folder_route out works backend_id path s =
     (if \<not> valid_body_path path then (s, Inl (Status 422))
      else let path = (if rstrip_slash path = [] then ''/'' else rstrip_slash path) in
        with_backend backend_id s (\<lambda>b.
          if \<not> supports_write b then (s, Inl (Status 400))
          else map_prod id (map_sum caught id) (service_create_folder out works b path s)))"

definition move_route :: "outside \<Rightarrow> bool \<Rightarrow> string \<Rightarrow> string \<Rightarrow> string \<Rightarrow> store \<Rightarrow> file_info in_store" where
  "move_route out works backend_id source destination s =
     (if \<not> (valid_body_path source \<and> valid_body_path destination) then (s, Inl (Status 422))
      else with_backend backend_id s (\<lambda>b.
        if \<not> supports_write b then (s, Inl (Status 400))
        else map_prod id (map_sum caught id) (service_move out works b source destination s)))"

section \<open>Settings\<close>

definition get_setting :: "string \<Rightarrow> store \<Rightarrow> string option" where
  "get_setting key s = (case map_of (fs_settings s) key of None \<Rightarrow> None | Some v \<Rightarrow> v)"

definition set_setting :: "string \<Rightarrow> string option \<Rightarrow> store \<Rightarrow> store" where
  "set_setting key v s = s\<lparr>fs_settings := dict_put key v (fs_settings s)\<rparr>"

definition SETTING_DEFAULT_BOOT_BACKEND_ID :: string where
  "SETTING_DEFAULT_BOOT_BACKEND_ID = ''default_boot_backend_id''"

definition SETTING_FILE_SERVING_BANDWIDTH_MBPS :: string where
  "SETTING_FILE_SERVING_BANDWIDTH_MBPS = ''file_serving_bandwidth_mbps''"

definition DEFAULT_BANDWIDTH_MBPS :: int where
  "DEFAULT_BANDWIDTH_MBPS = 1000"

definition get_file_serving_bandwidth_mbps :: "store \<Rightarrow> int" where
  "get_file_serving_bandwidth_mbps s =
     (case get_setting SETTING_FILE_SERVING_BANDWIDTH_MBPS s of
        None \<Rightarrow> DEFAULT_BANDWIDTH_MBPS
      | Some v \<Rightarrow> (case parse_int (strip v) of Inl _ \<Rightarrow> DEFAULT_BANDWIDTH_MBPS | Inr n \<Rightarrow> n))"

text \<open>A field that was not sent is \<open>None\<close>; the backend may be sent as null.\<close>

definition update_system_settings :: "string option option \<Rightarrow> int option \<Rightarrow> store \<Rightarrow> (string option \<times> int) in_store" where
  "update_system_settings backend bandwidth s =
     (if (case bandwidth of None \<Rightarrow> False | Some n \<Rightarrow> n < 1 \<or> n > 100000) then (s, Inl (Status 422))
      else if (case backend of Some (Some i) \<Rightarrow> sql_get be_id i (fs_backends s) = None | _ \<Rightarrow> False) then (s, Inl (Status 404))
      else let s = (case backend of None \<Rightarrow> s | Some i \<Rightarrow> set_setting SETTING_DEFAULT_BOOT_BACKEND_ID i s);
               s = (case bandwidth of None \<Rightarrow> s | Some n \<Rightarrow> set_setting SETTING_FILE_SERVING_BANDWIDTH_MBPS (Some (show_nat (nat n))) s)
           in (s, Inr (get_setting SETTING_DEFAULT_BOOT_BACKEND_ID s, get_file_serving_bandwidth_mbps s)))"

section \<open>Boot files\<close>

definition get_default_backend :: "store \<Rightarrow> api_error + backend" where
  "get_default_backend s =
     (case get_setting SETTING_DEFAULT_BOOT_BACKEND_ID s of
        None \<Rightarrow> Inl (Status 503)
      | Some i \<Rightarrow>
          if i = [] then Inl (Status 503)
          else case sql_get be_id i (fs_backends s) of None \<Rightarrow> Inl (Status 503) | Some b \<Rightarrow> Inr b)"

definition get_file_checksum :: "string \<Rightarrow> string \<Rightarrow> store \<Rightarrow> string option" where
  "get_file_checksum backend_id file_path s =
     map_option ck_checksum_sha256 (sql_get ck_key (backend_id, file_path) (fs_checksums s))"

text \<open>A streaming response: its headers, the stream it wraps and the transfer it was registered as.\<close>

record boot_response =
  br_chunks :: "string list"
  br_mime_type :: string
  br_content_length :: "int option"
  br_checksum :: "string option"
  br_transfer_id :: string

definition serve_boot_file :: "outside \<Rightarrow> bool \<Rightarrow> string \<Rightarrow> string \<Rightarrow> store \<Rightarrow> boot_response in_store" where
  "serve_boot_file out works time path s =
     (let file_path = ''/'' @ lstrip_slash path in
      case get_default_backend s of
        Inl e \<Rightarrow> (s, Inl e)
      | Inr b \<Rightarrow>
          (case service_download out works b file_path s of
             (s', Inl e) \<Rightarrow> (s', Inl (caught e))
           | (s', Inr (chunks, mime_type, sz)) \<Rightarrow>
               let checksum = get_file_checksum (be_id b) file_path s';
                   transfer_id = ''boot-'' @ file_path @ ''-'' @ time
               in (s'\<lparr>fs_throttler := register_transfer transfer_id file_path sz (fs_throttler s')\<rparr>,
                   Inr \<lparr>br_chunks = chunks, br_mime_type = mime_type, br_content_length = (if sz > 0 then Some sz else None),
                        br_checksum = (if truthy checksum then checksum else None), br_transfer_id = transfer_id\<rparr>)))"

text \<open>The body of a response is sent through \<open>throttled_iterator\<close> with its default chunk size.\<close>

definition send_body :: "(nat \<Rightarrow> throttler \<Rightarrow> throttler) \<Rightarrow> boot_response \<Rightarrow> store \<Rightarrow> (string list \<times> throttler) option" where
  "send_body others r s = throttled_iterator others (br_transfer_id r) 8192 (br_chunks r) (fs_throttler s)"

section \<open>Requests\<close>

datatype store_op =
    CreateBackend string string string config_data
  | UpdateBackend string "string option" "config_data option"
  | DeleteBackend string
  | TestBackend string
  | ListFiles string string
  | DownloadFile string string
  | UploadFile string string string string "string option"
  | DeleteFiles string "string list"
  | CreateFolder string string
  | MoveFile string string string
  | UpdateSettings "string option option" "int option"
  | ServeBootFile string string

definition finished :: "'a in_store \<Rightarrow> unit in_store" where
  "finished r = map_prod id (map_sum id (\<lambda>_. ())) r"

fun perform_store :: "outside \<Rightarrow> bool \<Rightarrow> store_op \<Rightarrow> store \<Rightarrow> unit in_store" where
  "perform_store out works (CreateBackend uuid n t c) s = create_backend uuid n t c s"
| "perform_store out works (UpdateBackend i n c) s = update_backend i n c s"
| "perform_store out works (DeleteBackend i) s = delete_backend works i s"
| "perform_store out works (TestBackend i) s = finished (test_backend out works i s)"
| "perform_store out works (ListFiles i p) s = finished (list_files_route out works i p s)"
| "perform_store out works (DownloadFile i p) s = finished (download_route out works i p s)"
| "perform_store out works (UploadFile i p f c e) s = finished (upload_route out works i p f c e s)"
| "perform_store out works (DeleteFiles i ps) s = finished (delete_route out works i ps s)"
| "perform_store out works (CreateFolder i p) s = finished (create_folder_route out works i p s)"
| "perform_store out works (MoveFile i a b) s = finished (move_route out works i a b s)"
| "perform_store out works (UpdateSettings b w) s = finished (update_system_settings b w s)"
| "perform_store out works (ServeBootFile t p) s = finished (serve_boot_file out works t p s)"

definition store_route :: "outside \<Rightarrow> bool \<times> store_op \<Rightarrow> store \<Rightarrow> api_error + store" where
  "store_route out q s =
     (case perform_store out (fst q) (snd q) s of (s', Inl e) \<Rightarrow> Inr (rolled_back s s') | (s', Inr _) \<Rightarrow> Inr s')"


section \<open>Invariant\<close>

fun config_fits :: "backend_config \<Rightarrow> string \<Rightarrow> bool" where
  "config_fits (NfsConfig server export opts) t \<longleftrightarrow> t = ''nfs''"
| "config_fits (HttpConfig url auth user pw) t \<longleftrightarrow> t = ''http''"
| "config_fits (S3Config e b) t \<longleftrightarrow> t = ''s3''"
| "config_fits (IscsiTargetConfig target) t \<longleftrightarrow> t = ''iscsi''"

definition shares_ok :: "store \<Rightarrow> bool" where
  "shares_ok s \<longleftrightarrow> (\<forall>n \<in> snd ` set (fs_nfs s). nfs_ok n)"

definition tables_ok :: "store \<Rightarrow> bool" where
  "tables_ok s \<longleftrightarrow> keys_unique be_id (fs_backends s) \<and> keys_unique be_name (fs_backends s)
     \<and> (\<forall>b \<in> set (fs_backends s). config_fits (be_config b) (be_type b)) \<and> keys_unique ck_key (fs_checksums s)"

definition store_ok :: "store \<Rightarrow> bool" where
  "store_ok s \<longleftrightarrow> tables_ok s \<and> shares_ok s \<and> transfers_ok (fs_throttler s)"

lemma validate_config_fits: "validate_config t c = Inr k \<Longrightarrow> config_fits k t"
  by (auto simp: validate_config_def validate_nfs_def validate_http_def split: if_splits option.splits)

lemma nfs_of_ok: "shares_ok s \<Longrightarrow> nfs_ok (nfs_of i s)"
proof (cases "map_of (fs_nfs s) i")
  case (Some n)
  then show "shares_ok s \<Longrightarrow> nfs_ok (nfs_of i s)" using map_of_SomeD [OF Some] by (force simp: nfs_of_def shares_ok_def)
qed (simp add: nfs_of_def nfs_ok_def share_ok_def)

lemma on_nfs_ok: "shares_ok s \<Longrightarrow> nfs_ok (fst r) \<Longrightarrow> shares_ok (fst (on_nfs i r s))"
  using set_dict_put_subset [of i "fst r" "fs_nfs s"] by (fastforce simp: shares_ok_def on_nfs_def)

lemma nfs_of_on_nfs [simp]: "nfs_of i (s\<lparr>fs_nfs := dict_put i n (fs_nfs s)\<rparr>) = n"
  by (simp add: nfs_of_def)

text \<open>The services change shares and the S3 log only.\<close>

definition only_files :: "store \<Rightarrow> store \<Rightarrow> bool" where
  "only_files s s' \<longleftrightarrow> fs_backends s' = fs_backends s \<and> fs_checksums s' = fs_checksums s \<and> fs_settings s' = fs_settings s
     \<and> fs_throttler s' = fs_throttler s \<and> (shares_ok s \<longrightarrow> shares_ok s')"

lemma only_files_refl [simp]: "only_files s s"
  by (simp add: only_files_def)

lemma only_files_on_nfs: "(shares_ok s \<Longrightarrow> nfs_ok (fst r)) \<Longrightarrow> only_files s (fst (on_nfs i r s))"
  using on_nfs_ok [of s r i] by (simp add: only_files_def) (simp add: on_nfs_def)

lemma only_files_on_s3 [simp]: "only_files s (fst (on_s3 r s))"
  by (simp add: only_files_def on_s3_def shares_ok_def)

lemma only_files_ok: "only_files s s' \<Longrightarrow> store_ok s \<Longrightarrow> store_ok s'"
  by (simp add: only_files_def store_ok_def tables_ok_def)

lemma read_ops_ok:
  "nfs_ok n \<Longrightarrow> nfs_ok (fst (nfs_list_files g base w p n))" "nfs_ok n \<Longrightarrow> nfs_ok (fst (nfs_download_file g base w p n))"
  by (simp_all add: nfs_list_files_def nfs_download_file_def Let_def ensure_mounted_ok)

lemma write_ops_ok:
  assumes "nfs_ok n"
  shows "nfs_ok (fst (nfs_upload_file g base w p f c n))" "nfs_ok (fst (nfs_delete_files base w ps n))"
    "nfs_ok (fst (nfs_create_folder base w p n))" "nfs_ok (fst (nfs_move_file g base w a b n))"
  using upload_ok [OF assms] delete_each_ok [OF ensure_mounted_ok [OF assms]] create_folder_ok [OF assms] move_ok [OF assms]
  by (simp_all add: nfs_delete_files_def) (metis prod.collapse)+

lemma services_only_files:
  "only_files s (fst (service_list out w b p s))" "only_files s (fst (service_download out w b p s))"
  "only_files s (fst (service_upload out w b p f c s))" "only_files s (fst (service_delete out w b ps s))"
  "only_files s (fst (service_create_folder out w b p s))" "only_files s (fst (service_move out w b p q s))"
  unfolding service_list_def service_download_def service_upload_def service_delete_def service_create_folder_def service_move_def
  by (cases "be_config b"; auto intro!: only_files_on_nfs read_ops_ok write_ops_ok nfs_of_ok)+

lemma with_backend_only_files:
  "(\<And>b. only_files s (fst (f b))) \<Longrightarrow> only_files s (fst (with_backend i s f))"
  by (simp add: with_backend_def split: option.splits)

lemma routes_only_files:
  "only_files s (fst (list_files_route out w i p s))" "only_files s (fst (download_route out w i p s))"
  "only_files s (fst (delete_route out w i ps s))" "only_files s (fst (create_folder_route out w i p s))"
  "only_files s (fst (move_route out w i p q s))"
  unfolding list_files_route_def download_route_def delete_route_def create_folder_route_def move_route_def Let_def
  by (auto intro!: with_backend_only_files simp: services_only_files)

lemma finished_fst [simp]: "fst (finished r) = fst r"
  by (simp add: finished_def)

lemma upload_route_result:
  assumes "upload_route out w i p f c e s = (s', r)"
  obtains "only_files s s'" and "\<exists>e. r = Inl e"
  | b s1 info where "sql_get be_id i (fs_backends s) = Some b" and "supports_write b"
      and "service_upload out w b p f (read_chunks 8192 c) s = (s1, Inr info)" and "r = Inr info"
      and "s' = s1\<lparr>fs_checksums := put_checksum \<lparr>ck_backend_id = i, ck_file_path = checksum_path p f, ck_checksum_sha256 = ou_sha256 out c,
             ck_size_bytes = int (length c)\<rparr> (fs_checksums s1)\<rparr>"
proof (cases "sql_get be_id i (fs_backends s)")
  case None
  then show ?thesis using that(1) assms by (auto simp: upload_route_def with_backend_def)
next
  case (Some b)
  show ?thesis
  proof (cases "\<not> supports_write b \<or> truthy e \<and> ou_sha256 out c \<noteq> lower (the e)")
    case True
    then have "fst (upload_route out w i p f c e s) = s \<and> isl (snd (upload_route out w i p f c e s))"
      using Some by (auto simp: upload_route_def with_backend_def Let_def)
    then show ?thesis using that(1) assms by (auto simp: isl_def)
  next
    case ok: False
    obtain s1 q where q: "service_upload out w b p f (read_chunks 8192 c) s = (s1, q)" by force
    show ?thesis
    proof (cases q)
      case (Inl e')
      then show ?thesis using that(1) assms Some ok q services_only_files(3) [of s out w b p f "read_chunks 8192 c"]
        by (auto simp: upload_route_def with_backend_def Let_def)
    next
      case (Inr info)
      then have "upload_route out w i p f c e s = (s1\<lparr>fs_checksums := put_checksum \<lparr>ck_backend_id = i, ck_file_path = checksum_path p f,
             ck_checksum_sha256 = ou_sha256 out c, ck_size_bytes = int (length c)\<rparr> (fs_checksums s1)\<rparr>, Inr info)"
        using Some ok q by (simp add: upload_route_def with_backend_def Let_def)
      with assms have "s' = s1\<lparr>fs_checksums := put_checksum \<lparr>ck_backend_id = i, ck_file_path = checksum_path p f,
             ck_checksum_sha256 = ou_sha256 out c, ck_size_bytes = int (length c)\<rparr> (fs_checksums s1)\<rparr>" and "r = Inr info" by simp_all
      then show ?thesis using that(2) [OF Some] ok q Inr by blast
    qed
  qed
qed


lemma upload_route_ok:
  assumes "store_ok s" and "upload_route out w i p f c e s = (s', r)"
  shows "store_ok s'"
proof (rule upload_route_result [OF assms(2)])
  fix b s1 info assume u: "service_upload out w b p f (read_chunks 8192 c) s = (s1, Inr info)"
    and s': "s' = s1\<lparr>fs_checksums := put_checksum \<lparr>ck_backend_id = i, ck_file_path = checksum_path p f, ck_checksum_sha256 = ou_sha256 out c,
             ck_size_bytes = int (length c)\<rparr> (fs_checksums s1)\<rparr>"
  have "store_ok s1" using only_files_ok [OF services_only_files(3) assms(1)] u by (metis fst_conv)
  moreover have "keys_unique ck_key (put_checksum row ks)" if "keys_unique ck_key ks" for ks row
    using that by (simp add: put_checksum_def) (simp add: keys_unique_def sql_get_None_iff)
  ultimately show ?thesis by (simp add: s' store_ok_def tables_ok_def shares_ok_def Let_def)
qed (use assms(1) only_files_ok in blast)

lemma create_backend_ok:
  assumes "store_ok s" and "create_backend uuid n t c s = (s', r)"
  shows "store_ok s'"
proof (cases "s' = s")
  case False
  then obtain k where k: "validate_config t c = Inr k" "n \<notin> be_name ` set (fs_backends s)" "uuid \<notin> be_id ` set (fs_backends s)"
      "s' = s\<lparr>fs_backends := fs_backends s @ [\<lparr>be_id = uuid, be_name = n, be_type = t, be_status = ''offline'', be_config = k,
                  be_used_bytes = 0, be_total_bytes = None, be_file_count = 0, be_mount_point = None\<rparr>]\<rparr>"
    using assms(2) by (auto simp: create_backend_def sql_insert_def sql_get_None_iff split: if_splits sum.splits)
  then show ?thesis using assms(1) validate_config_fits [OF k(1)] by (simp add: store_ok_def tables_ok_def shares_ok_def keys_unique_def)
qed (use assms(1) in simp)

lemma save_backend_ok:
  assumes "store_ok s" and "b \<in> set (fs_backends s)" and "be_id b' = be_id b" and "config_fits (be_config b') (be_type b')"
    and "be_name b' = be_name b \<or> be_name b' \<notin> be_name ` set (fs_backends s)"
  shows "store_ok (s\<lparr>fs_backends := save_row be_id b' (fs_backends s)\<rparr>)"
proof -
  have u: "keys_unique be_id (fs_backends s)" "keys_unique be_name (fs_backends s)" using assms(1) by (simp_all add: store_ok_def tables_ok_def)
  have "be_name h \<noteq> be_name b'" if "h \<in> set (fs_backends s)" "be_id h \<noteq> be_id b'" for h
  proof
    assume "be_name h = be_name b'"
    then have "be_name h = be_name b" using assms(5) that(1) by (metis image_eqI)
    then have "h = b" using u(2) that(1) assms(2) by (auto simp: keys_unique_def distinct_map dest: inj_onD)
    then show False using that(2) assms(3) by simp
  qed
  then have "keys_unique be_name (save_row be_id b' (fs_backends s))"
    unfolding save_row_def by (intro replace_row_unique u ballI impI) auto
  then show ?thesis using assms(1,4) set_save_row_subset [of be_id b' "fs_backends s"] by (auto simp: store_ok_def tables_ok_def shares_ok_def)
qed

lemma update_backend_ok:
  assumes "store_ok s" and "update_backend i n c s = (s', r)"
  shows "store_ok s'"
proof (cases "sql_get be_id i (fs_backends s)")
  case (Some b)
  from sql_get_SomeD [OF Some] have b: "b \<in> set (fs_backends s)" by simp
  let ?r = "truthy n \<and> n \<noteq> Some (be_name b)" and ?b = "if truthy n \<and> n \<noteq> Some (be_name b) then b\<lparr>be_name := the n\<rparr> else b"
  have fit: "config_fits (be_config b) (be_type b)" using assms(1) b by (simp add: store_ok_def tables_ok_def)
  show ?thesis
  proof (cases "s' = s")
    case False
    then obtain k where k: "?r \<Longrightarrow> the n \<notin> be_name ` set (fs_backends s)"
        "(case c of None \<Rightarrow> Inr (be_config b) | Some c \<Rightarrow> validate_config (be_type b) c) = Inr k"
        "s' = s\<lparr>fs_backends := save_row be_id (?b\<lparr>be_config := k\<rparr>) (fs_backends s)\<rparr>"
      using assms(2) Some by (auto simp: update_backend_def Let_def sql_get_None_iff split: if_splits sum.splits option.splits)
    have "config_fits k (be_type b)" using k(2) fit validate_config_fits by (auto split: option.splits)
    then show ?thesis unfolding k(3) by (intro save_backend_ok [OF assms(1) b]) (use k(1) in auto)
  qed (use assms(1) in simp)
qed (use assms in \<open>simp add: update_backend_def\<close>)

lemma unmount_ok: "nfs_ok n \<Longrightarrow> nfs_ok (nfs_unmount w n)"
  by (simp add: nfs_unmount_def nfs_ok_def)

lemma mount_ok: "nfs_ok n \<Longrightarrow> nfs_mount w n = (n', r) \<Longrightarrow> nfs_ok n'"
  by (auto simp: nfs_mount_def nfs_ok_def Let_def share_ok_def split: if_splits option.splits)

lemma delete_backend_ok:
  assumes "store_ok s" and "delete_backend w i s = (s', r)"
  shows "store_ok s'"
proof (cases "sql_get be_id i (fs_backends s)")
  case (Some b)
  have "store_ok (t\<lparr>fs_backends := filter (\<lambda>x. be_id x \<noteq> i) (fs_backends t)\<rparr>)" if "store_ok t" for t
    using that by (auto simp: store_ok_def tables_ok_def shares_ok_def keys_unique_def distinct_map_filter)
  moreover have "store_ok (fst (on_nfs i (nfs_unmount w (nfs_of i s), ()) s))"
    by (rule only_files_ok [OF only_files_on_nfs assms(1)]) (simp add: unmount_ok nfs_of_ok)
  ultimately show ?thesis using assms Some by (auto simp: delete_backend_def Let_def split: if_splits)
qed (use assms in \<open>simp add: delete_backend_def\<close>)

lemma test_backend_ok:
  assumes "store_ok s" and "test_backend out w i s = (s', r)"
  shows "store_ok s'"
proof (cases "sql_get be_id i (fs_backends s)")
  case (Some b)
  from sql_get_SomeD [OF Some] have b: "b \<in> set (fs_backends s)" by simp
  have fit: "config_fits (be_config b) (be_type b)" using assms(1) b by (simp add: store_ok_def tables_ok_def)
  obtain b' t where t: "s' = t\<lparr>fs_backends := save_row be_id b' (fs_backends t)\<rparr>"
      "be_id b' = be_id b" "be_name b' = be_name b" "be_config b' = be_config b" "be_type b' = be_type b"
      "t = s \<or> (\<exists>n x. nfs_mount w (nfs_of i s) = (n, x) \<and> t = fst (on_nfs i (n, ()) s))"
    using assms(2) Some by (auto simp: test_backend_def Let_def split: if_splits prod.splits bool.splits)
  have "only_files s t" using t(6) by (auto intro!: only_files_on_nfs intro: mount_ok nfs_of_ok)
  then have "store_ok t" "fs_backends t = fs_backends s" using only_files_ok assms(1) by (auto simp: only_files_def)
  then show ?thesis unfolding t(1) by (intro save_backend_ok) (use t(2-5) b fit in auto)
qed (use assms in \<open>simp add: test_backend_def\<close>)

lemma settings_ok: "store_ok s \<Longrightarrow> store_ok (fst (update_system_settings b w s))"
  by (auto simp: update_system_settings_def set_setting_def store_ok_def tables_ok_def shares_ok_def Let_def split: option.splits)

lemma serve_ok:
  assumes "store_ok s"
  shows "store_ok (fst (serve_boot_file out w t p s))"
proof -
  have "store_ok (fst (service_download out w b q s))" for b q by (rule only_files_ok [OF services_only_files(2) assms])
  moreover have "store_ok (s'\<lparr>fs_throttler := register_transfer x y z (fs_throttler s')\<rparr>)" if "store_ok s'" for s' x y z
    using that register_ok by (simp add: store_ok_def tables_ok_def shares_ok_def)
  ultimately show ?thesis using assms
    by (auto simp: serve_boot_file_def Let_def split: sum.splits prod.splits) (metis fst_conv)+
qed

lemma perform_store_ok:
  assumes "store_ok s"
  shows "store_ok (fst (perform_store out w q s))"
  by (cases q) (use assms in \<open>auto simp: settings_ok serve_ok intro: only_files_ok [OF routes_only_files(1)] only_files_ok [OF routes_only_files(2)]
    only_files_ok [OF routes_only_files(3)] only_files_ok [OF routes_only_files(4)] only_files_ok [OF routes_only_files(5)]
    create_backend_ok update_backend_ok delete_backend_ok test_backend_ok upload_route_ok prod.collapse [symmetric]\<close>)

lemma rolled_back_ok: "store_ok s \<Longrightarrow> store_ok s' \<Longrightarrow> store_ok (rolled_back s s')"
  by (simp add: rolled_back_def store_ok_def tables_ok_def shares_ok_def)

lemma store_route_ok: "store_ok s \<Longrightarrow> store_route out q s = Inr s' \<Longrightarrow> store_ok s'"
  using perform_store_ok [of s out "fst q" "snd q"]
  by (auto simp: store_route_def rolled_back_ok split: prod.splits sum.splits)

interpretation store_api: transactional "store_route out" store_ok
  by unfold_locales (rule store_route_ok)


section \<open>Uploads and their checksums\<close>

lemma sql_get_put_checksum: "sql_get ck_key (ck_key row) (put_checksum row rows) = Some row"
proof (cases "sql_get ck_key (ck_key row) rows")
  case None
  then show ?thesis by (simp add: put_checksum_def sql_get_append sql_get_None_iff)
qed (simp add: put_checksum_def sql_get_save_row)

lemma service_upload_nfs:
  assumes "service_upload out w b p f c s = (s1, Inr info)" and "be_config b = NfsConfig server export opts"
  shows "\<exists>n'. nfs_upload_file (ou_guess_type out) (mount_point (be_id b)) w p f c (nfs_of (be_id b) s) = (n', Inr info)
    \<and> s1 = s\<lparr>fs_nfs := dict_put (be_id b) n' (fs_nfs s)\<rparr>"
proof -
  obtain n' q where "nfs_upload_file (ou_guess_type out) (mount_point (be_id b)) w p f c (nfs_of (be_id b) s) = (n', q)" by force
  then show ?thesis using assms by (auto simp: service_upload_def on_nfs_def)
qed

lemma service_download_nfs:
  assumes "be_config b = NfsConfig server export opts" and "nf_mounted (nfs_of (be_id b) s) \<or> \<not> w" and "nfs_item (nfs_of (be_id b) s) [] = Some Folder"
    and "validate_path (mount_point (be_id b)) path = Inr p" and "p \<noteq> []" and "map_of (nfs_tree (nfs_of (be_id b) s)) p = Some (Content c)"
  shows "\<exists>mime. service_download out w b path s
    = (s\<lparr>fs_nfs := dict_put (be_id b) (nfs_of (be_id b) s) (fs_nfs s)\<rparr>, Inr (read_chunks 8192 c, mime, int (length c)))"
  using download_reads [OF assms(4,5), of w "nfs_of (be_id b) s" c "ou_guess_type out"] ensure_mounted_idem [OF assms(3,2)] assms(1,6)
  by (simp add: service_download_def on_nfs_def)

lemma validate_checksum_path: "validate_path base (checksum_path p f) = validate_path base (rstrip_slash p @ ''/'' @ f)"
  by (simp add: checksum_path_def Let_def validate_slash)

text \<open>The response for a file that is found on the default NFS backend.\<close>

lemma serve_boot_file_found:
  assumes "get_default_backend s = Inr b" and "be_config b = NfsConfig server export opts"
    and "nf_mounted (nfs_of (be_id b) s) \<or> \<not> w" and "nfs_item (nfs_of (be_id b) s) [] = Some Folder"
    and "validate_path (mount_point (be_id b)) (''/'' @ lstrip_slash path) = Inr p" and "p \<noteq> []"
    and "map_of (nfs_tree (nfs_of (be_id b) s)) p = Some (Content c)"
  shows "\<exists>r s'. serve_boot_file out w time path s = (s', Inr r) \<and> br_chunks r = read_chunks 8192 c
    \<and> br_checksum r = (let k = get_file_checksum (be_id b) (''/'' @ lstrip_slash path) s in if truthy k then k else None)
    \<and> fs_throttler s' = register_transfer (br_transfer_id r) (''/'' @ lstrip_slash path) (int (length c)) (fs_throttler s)"
proof -
  from service_download_nfs [OF assms(2-7)] obtain mime where
    "service_download out w b (''/'' @ lstrip_slash path) s
      = (s\<lparr>fs_nfs := dict_put (be_id b) (nfs_of (be_id b) s) (fs_nfs s)\<rparr>, Inr (read_chunks 8192 c, mime, int (length c)))" by blast
  then show ?thesis using assms(1) by (simp add: serve_boot_file_def get_file_checksum_def Let_def)
qed

text \<open>C32: A file uploaded to the default boot backend is what the boot endpoint then delivers under its path, with
  the digest of this content as its ETag, if the path is written with one leading slash.\<close>

theorem uploaded_boot_file:
  assumes "upload_route out w i p f c e s = (s', Inr info)" and "get_default_backend s' = Inr b" and "be_id b = i"
    and "be_config b = NfsConfig server export opts" and "store_ok s" and "nf_mounted (nfs_of i s') \<or> \<not> w'"
    and "''/'' @ lstrip_slash path = checksum_path p f" and "ou_sha256 out c \<noteq> []"
  shows "\<exists>r s''. serve_boot_file out w' time path s' = (s'', Inr r) \<and> concat (br_chunks r) = c \<and> br_checksum r = Some (ou_sha256 out c)"
proof (rule upload_route_result [OF assms(1)])
  fix b0 s1 info'
  assume g: "sql_get be_id i (fs_backends s) = Some b0" and u: "service_upload out w b0 p f (read_chunks 8192 c) s = (s1, Inr info')"
    and s': "s' = s1\<lparr>fs_checksums := put_checksum \<lparr>ck_backend_id = i, ck_file_path = checksum_path p f, ck_checksum_sha256 = ou_sha256 out c,
             ck_size_bytes = int (length c)\<rparr> (fs_checksums s1)\<rparr>"
  have "fs_backends s' = fs_backends s" using services_only_files(3) [of s out w b0 p f "read_chunks 8192 c"] u s' by (simp add: only_files_def)
  then have "sql_get be_id i (fs_backends s) = Some b"
    using assms(2,3) sql_get_SomeD by (fastforce simp: get_default_backend_def split: option.splits if_splits)
  then have b: "b0 = b" using g by simp
  from service_upload_nfs [OF u] assms(3,4) b obtain n' where
    n': "nfs_upload_file (ou_guess_type out) (mount_point i) w p f (read_chunks 8192 c) (nfs_of i s) = (n', Inr info')"
      "s1 = s\<lparr>fs_nfs := dict_put i n' (fs_nfs s)\<rparr>" by blast
  from upload_writes [OF n'(1)] obtain d where d: "validate_path (mount_point i) p = Inr d" "component f"
      "map_of (nfs_tree n') (d @ [f]) = Some (Content (concat (read_chunks 8192 c)))" "nfs_item n' [] = Some Folder" by blast
  have now: "nfs_of i s' = n'" by (simp add: s' n'(2) nfs_of_def)
  have v: "validate_path (mount_point i) (''/'' @ lstrip_slash path) = Inr (d @ [f])"
    unfolding assms(7) validate_checksum_path by (rule validate_joined [OF d(1,2) upload_filename [OF n'(1)]])
  have "get_file_checksum i (''/'' @ lstrip_slash path) s' = Some (ou_sha256 out c)"
    using sql_get_put_checksum [of "\<lparr>ck_backend_id = i, ck_file_path = checksum_path p f, ck_checksum_sha256 = ou_sha256 out c,
        ck_size_bytes = int (length c)\<rparr>" "fs_checksums s1"]
    unfolding get_file_checksum_def assms(7) by (simp add: s' ck_key_def)
  then show ?thesis
    using serve_boot_file_found [OF assms(2,4), of w' path "d @ [f]" c out time] assms(3,6,8) now d(3,4) v by (auto simp: concat_read_chunks)
qed (use assms(1) in auto)

lemma default_backend_frame: "get_default_backend (s\<lparr>fs_nfs := x\<rparr>) = get_default_backend s"
  by (simp add: get_default_backend_def get_setting_def cong: option.case_cong if_cong)

text \<open>Checksums do not follow files: after a successful move of a file to a path for which a checksum is stored,
  the boot endpoint delivers the moved file under this path with the checksum stored before.\<close>

theorem moved_file_keeps_old_checksum:
  assumes "store_ok s" and "move_route out w i source destination s = (s', Inr info)"
    and "validate_path (mount_point i) source = Inr src" and "validate_path (mount_point i) destination = Inr dst"
    and "get_default_backend s = Inr b" and "be_id b = i" and "be_config b = NfsConfig server export opts"
    and "map_of (nfs_tree (ensure_mounted w (nfs_of i s))) src = Some (Content c)" and "''/'' @ lstrip_slash path = destination"
    and "get_file_checksum i destination s = Some k" and "k \<noteq> []" and "nf_mounted (nfs_of i s') \<or> \<not> w'"
  shows "\<exists>r s''. serve_boot_file out w' time path s' = (s'', Inr r) \<and> concat (br_chunks r) = c \<and> br_checksum r = Some k"
proof -
  have "sql_get be_id i (fs_backends s) = Some b"
    using assms(5,6) sql_get_SomeD by (fastforce simp: get_default_backend_def split: option.splits if_splits)
  then obtain n' info' where m: "nfs_move_file (ou_guess_type out) (mount_point i) w source destination (nfs_of i s) = (n', Inr info')"
      "s' = s\<lparr>fs_nfs := dict_put i n' (fs_nfs s)\<rparr>"
    using assms(2,6,7)
    by (cases "nfs_move_file (ou_guess_type out) (mount_point i) w source destination (nfs_of i s)")
      (auto simp: move_route_def with_backend_def service_move_def on_nfs_def map_sum_def split: if_splits sum.splits)
  have ok: "nfs_ok (nfs_of i s)" using assms(1) by (simp add: store_ok_def nfs_of_ok)
  have at: "map_of (nfs_tree n') dst = Some (Content c)"
    using nfs_move_moves [OF ok m(1) assms(3,4), of "[]"] assms(8) by simp
  have now: "nfs_of i s' = n'" by (simp add: m(2))
  have "nfs_item n' [] = Some Folder" by (rule nfs_move_root [OF m(1)])
  moreover have "dst \<noteq> []" using share_okD(2) [OF nfs_tree_ok [OF move_ok [OF ok m(1)]] at] .
  moreover have "get_default_backend s' = Inr b" unfolding m(2) using assms(5) by (simp add: default_backend_frame)
  moreover have "get_file_checksum i destination s' = Some k" using assms(10) by (simp add: m(2) get_file_checksum_def)
  ultimately show ?thesis
    using serve_boot_file_found [of s' b server export opts w' path dst c out time] assms(4,6,7,9,11,12) now at by (auto simp: concat_read_chunks)
qed


section \<open>Delivery\<close>

lemma registered_entry:
  "\<exists>t. map_of (th_transfers (register_transfer tid p n th)) tid = Some t \<and> tr_total_bytes t = n \<and> tr_bytes_transferred t = 0"
  by (simp add: register_transfer_def Let_def)


text \<open>A boot file from an HTTP backend whose server does not announce a length is never delivered to the end: it
  is registered with zero bytes, and the response waits for an allowance for ever.\<close>

theorem unannounced_length_hangs:
  assumes "get_default_backend s = Inr b" and "be_config b = HttpConfig url auth user pw"
    and "serve_boot_file out w time path s = (s', Inr r)" and "ou_http out (url @ ''/'' @ lstrip_slash path) = Reply status ct None chunks"
    and "concat chunks \<noteq> []" and "others_keep others (br_transfer_id r)"
  shows "send_body others r s' = None"
proof -
  have d: "\<not> contains ''..'' (''/'' @ lstrip_slash path)" "status \<noteq> 404" "\<not> status \<ge> 400"
    using assms(1-4) by (auto simp: serve_boot_file_def service_download_def http_download_file_def Let_def split: if_splits)
  then have "service_download out w b (''/'' @ lstrip_slash path) s = (s, Inr (chunks, set_or ct ''application/octet-stream'', 0))"
    using assms(2,4) by (simp add: service_download_def http_download_file_def)
  then have r: "br_chunks r = chunks" "fs_throttler s' = register_transfer (br_transfer_id r) (''/'' @ lstrip_slash path) 0 (fs_throttler s)"
    using assms(1,3) by (auto simp: serve_boot_file_def Let_def)
  obtain t where t: "map_of (th_transfers (fs_throttler s')) (br_transfer_id r) = Some t" "tr_total_bytes t = 0" "tr_bytes_transferred t = 0"
    using registered_entry r(2) by metis
  have "\<not> (\<exists>x. throttled_iterator others (br_transfer_id r) 8192 (br_chunks r) (fs_throttler s') = Some x)"
    using throttled_delivery(1) [OF assms(6) t(1), of 8192 "br_chunks r"] t(2,3) assms(5) r(1) by simp
  then show ?thesis by (cases "throttled_iterator others (br_transfer_id r) 8192 (br_chunks r) (fs_throttler s')") (auto simp: send_body_def)
qed

lemma upload_route_throttler: "fs_throttler (fst (upload_route out w i p f c e s)) = fs_throttler s"
proof (rule upload_route_result [of out w i p f c e s "fst (upload_route out w i p f c e s)" "snd (upload_route out w i p f c e s)"])
  fix b s1 info assume "service_upload out w b p f (read_chunks 8192 c) s = (s1, Inr info)"
  then have "fs_throttler s1 = fs_throttler s"
    using services_only_files(3) [of s out w b p f "read_chunks 8192 c"] by (simp add: only_files_def)
  moreover assume "fst (upload_route out w i p f c e s) = s1\<lparr>fs_checksums := put_checksum \<lparr>ck_backend_id = i, ck_file_path = checksum_path p f,
     ck_checksum_sha256 = ou_sha256 out c, ck_size_bytes = int (length c)\<rparr> (fs_checksums s1)\<rparr>"
  ultimately show ?thesis by simp
qed (simp_all add: only_files_def)

lemma serve_boot_file_bandwidth: "th_bytes_per_sec (fs_throttler (fst (serve_boot_file out w x p s))) = th_bytes_per_sec (fs_throttler s)"
proof -
  have "fs_throttler (fst (service_download out w b y s)) = fs_throttler s" for b y
    using services_only_files(2) by (simp add: only_files_def)
  then show ?thesis
    by (auto simp: serve_boot_file_def register_transfer_def Let_def split: sum.splits prod.splits) (metis fst_conv)+
qed

lemma create_backend_throttler: "fs_throttler (fst (create_backend u n ty c s)) = fs_throttler s"
  by (simp add: create_backend_def split: option.split sum.split)

lemma update_backend_throttler: "fs_throttler (fst (update_backend i m d s)) = fs_throttler s"
proof (cases "sql_get be_id i (fs_backends s)")
  case (Some b)
  then show ?thesis by (cases d) (simp_all add: update_backend_def Let_def split: sum.split)
qed (simp add: update_backend_def)

lemma delete_backend_throttler: "fs_throttler (fst (delete_backend w i s)) = fs_throttler s"
  by (simp add: delete_backend_def on_nfs_def Let_def split: option.split)

lemma test_backend_throttler: "fs_throttler (fst (test_backend out w i s)) = fs_throttler s"
proof (cases "sql_get be_id i (fs_backends s)")
  case (Some b)
  obtain n x where "nfs_mount w (nfs_of i s) = (n, x)" by force
  then show ?thesis using Some by (cases x) (simp_all add: test_backend_def on_nfs_def Let_def)
qed (simp add: test_backend_def)

lemma settings_throttler: "fs_throttler (fst (update_system_settings b w s)) = fs_throttler s"
  by (simp add: update_system_settings_def set_setting_def Let_def split: option.split)

lemmas admin_throttler = create_backend_throttler update_backend_throttler delete_backend_throttler test_backend_throttler settings_throttler

lemma perform_store_bandwidth: "th_bytes_per_sec (fs_throttler (fst (perform_store out w q s))) = th_bytes_per_sec (fs_throttler s)"
proof -
  have only: "th_bytes_per_sec (fs_throttler x) = th_bytes_per_sec (fs_throttler s)" if "only_files s x" for x
    using that by (simp add: only_files_def)
  note routes = only [OF routes_only_files(1)] only [OF routes_only_files(2)] only [OF routes_only_files(3)]
    only [OF routes_only_files(4)] only [OF routes_only_files(5)]
  show ?thesis by (cases q) (simp_all add: routes upload_route_throttler serve_boot_file_bandwidth admin_throttler)
qed

text \<open>The bandwidth of the throttler stays what it was created with, whatever is set through the system
  settings: no request changes it.\<close>

theorem bandwidth_setting_ignored:
  assumes "store_ok s"
  shows "th_bytes_per_sec (fs_throttler (serve (store_route out) qs s)) = th_bytes_per_sec (fs_throttler s)"
proof (rule store_api.serve_preserves [where P = "\<lambda>x. th_bytes_per_sec (fs_throttler x) = th_bytes_per_sec (fs_throttler s)", OF assms refl])
  fix q t t' assume "th_bytes_per_sec (fs_throttler t) = th_bytes_per_sec (fs_throttler s)" and "store_route out q t = Inr t'"
  then show "th_bytes_per_sec (fs_throttler t') = th_bytes_per_sec (fs_throttler s)"
    using perform_store_bandwidth [of out "fst q" "snd q" t]
    by (cases "perform_store out (fst q) (snd q) t") (auto simp: store_route_def rolled_back_def split: sum.splits)
qed

section \<open>Witnesses\<close>

definition demo_outside :: outside where
  "demo_outside = \<lparr>ou_guess_type = (\<lambda>_. None), ou_sha256 = (\<lambda>s. ''#'' @ s), ou_http = (\<lambda>_. Reply 200 None None [''data'']),
     ou_head = (\<lambda>_. ReplyError), ou_s3 = (\<lambda>log c. ReplyError), ou_showmount = (\<lambda>_. None), ou_disk_usage = (\<lambda>_. (0, 0))\<rparr>"

definition demo_backend :: backend where
  "demo_backend = \<lparr>be_id = ''b'', be_name = ''nas'', be_type = ''nfs'', be_status = ''online'', be_config = NfsConfig ''nas'' ''/pxe'' None,
     be_used_bytes = 0, be_total_bytes = None, be_file_count = 0, be_mount_point = None\<rparr>"

definition demo_store :: store where
  "demo_store = \<lparr>fs_backends = [demo_backend], fs_checksums = [\<lparr>ck_backend_id = ''b'', ck_file_path = ''/initrd'', ck_checksum_sha256 = ''#old'', ck_size_bytes = 3\<rparr>],
     fs_settings = [(''default_boot_backend_id'', Some ''b'')], fs_nfs = [(''b'', demo_nfs)], fs_s3_log = [], fs_throttler = init_throttler 1000\<rparr>"

lemma demo_store_ok: "store_ok demo_store"
  by (simp add: store_ok_def tables_ok_def shares_ok_def demo_store_def demo_backend_def demo_nfs_ok keys_unique_def transfers_ok_def init_throttler_def)

lemma demo_default: "get_default_backend demo_store = Inr demo_backend"
  by (simp add: get_default_backend_def get_setting_def SETTING_DEFAULT_BOOT_BACKEND_ID_def demo_store_def demo_backend_def sql_get_def)

lemma one_chunk: "read_chunks 8192 ''new'' = [''new'']"
  by (simp add: read_chunks.simps)

theorem uploaded_boot_file_witness:
  "\<exists>r s''. serve_boot_file demo_outside True ''1'' ''boot/linux'' (fst (upload_route demo_outside True ''b'' ''/boot'' ''linux'' ''new'' None demo_store)) = (s'', Inr r)
    \<and> concat (br_chunks r) = ''new'' \<and> br_checksum r = Some ''#new''"
proof -
  let ?u = "upload_route demo_outside True ''b'' ''/boot'' ''linux'' ''new'' None demo_store"
  have f: "isl (snd ?u) = False \<and> nf_mounted (nfs_of ''b'' (fst ?u)) \<and> get_default_backend (fst ?u) = Inr demo_backend
      \<and> CHR ''/'' # lstrip_slash ''boot/linux'' = checksum_path ''/boot'' ''linux''"
    unfolding upload_route_def one_chunk by code_simp
  obtain s' info where u: "?u = (s', Inr info)" using f by (metis isl_def prod.collapse sum.exhaust_sel)
  show ?thesis
    using uploaded_boot_file [OF u, where b = demo_backend and w' = True and path = "''boot/linux''" and time = "''1''"] f u demo_store_ok
    by (simp add: demo_backend_def demo_outside_def)
qed

theorem moved_file_keeps_old_checksum_witness:
  "\<exists>r s''. serve_boot_file demo_outside True ''1'' ''initrd'' (fst (move_route demo_outside True ''b'' ''/boot/linux'' ''/initrd'' demo_store)) = (s'', Inr r)
    \<and> concat (br_chunks r) = ''kernel'' \<and> br_checksum r = Some ''#old''"
proof -
  let ?u = "move_route demo_outside True ''b'' ''/boot/linux'' ''/initrd'' demo_store"
  have f: "isl (snd ?u) = False \<and> nf_mounted (nfs_of ''b'' (fst ?u)) \<and> get_file_checksum ''b'' ''/initrd'' demo_store = Some ''#old''
      \<and> map_of (nfs_tree (ensure_mounted True (nfs_of ''b'' demo_store))) [''boot'', ''linux''] = Some (Content ''kernel'')
      \<and> validate_path (mount_point ''b'') ''/boot/linux'' = Inr [''boot'', ''linux''] \<and> validate_path (mount_point ''b'') ''/initrd'' = Inr [''initrd'']
      \<and> CHR ''/'' # lstrip_slash ''initrd'' = ''/initrd''" by code_simp
  obtain s' info where u: "?u = (s', Inr info)" using f by (metis isl_def prod.collapse sum.exhaust_sel)
  show ?thesis
    using moved_file_keeps_old_checksum [OF demo_store_ok u _ _ demo_default, where src = "[''boot'', ''linux'']" and dst = "[''initrd'']" and c = "''kernel''"
        and k = "''#old''" and w' = True and path = "''initrd''" and time = "''1''"] f u
    by (simp add: demo_backend_def)
qed


definition http_store :: store where
  "http_store = demo_store\<lparr>fs_backends := [demo_backend\<lparr>be_type := ''http'', be_config := HttpConfig ''http://m'' ''none'' None None\<rparr>]\<rparr>"

theorem unannounced_length_hangs_witness:
  "\<exists>r s'. serve_boot_file demo_outside True ''1'' ''linux'' http_store = (s', Inr r) \<and> send_body (\<lambda>k th. th) r s' = None"
proof -
  have "isl (snd (serve_boot_file demo_outside True ''1'' ''linux'' http_store)) = False" by code_simp
  then obtain s' r where u: "serve_boot_file demo_outside True ''1'' ''linux'' http_store = (s', Inr r)"
    by (metis isl_def prod.collapse sum.exhaust_sel)
  have "send_body (\<lambda>k th. th) r s' = None"
    by (rule unannounced_length_hangs [OF _ _ u, where url = "''http://m''" and auth = "''none''" and user = None and pw = None
          and b = "demo_backend\<lparr>be_type := ''http'', be_config := HttpConfig ''http://m'' ''none'' None None\<rparr>" and status = 200 and ct = None
          and chunks = "[''data'']"])
      (simp_all add: get_default_backend_def get_setting_def SETTING_DEFAULT_BOOT_BACKEND_ID_def http_store_def demo_store_def demo_backend_def
        sql_get_def demo_outside_def others_keep_def)
  then show ?thesis using u by blast
qed

theorem bandwidth_setting_ignored_witness:
  "th_bytes_per_sec (fs_throttler (serve (store_route demo_outside) [(True, UpdateSettings None (Some 10))] demo_store)) = 125000000"
  using bandwidth_setting_ignored [OF demo_store_ok, of demo_outside "[(True, UpdateSettings None (Some 10))]"]
  by (simp add: demo_store_def init_throttler_def)

end
