(* ===== verification/Luns.thy ===== *)
theory Luns
  imports FileRoutes Lifecycle
begin

text \<open>
  iSCSI LUNs: the service over targetcli (src/src/core/iscsi.py) and the routes with their background
  tasks (src/src/api/routes/luns.py), beside the routes over the backends the LUNs lie on.

  What the host does with a command is a parameter: a function of the commands before it. Commands
  stay when a handler raises. The drawn characters of a CHAP password, the token of its encryption
  and Fernet itself are parameters too. A background task runs as one step, after the request that
  started it and in any order with others: while it runs no route changes its LUN. The tasks are
  kept in memory, so that a restart of the controller forgets them.
\<close>

section \<open>Names\<close>

definition is_alnum :: "char \<Rightarrow> bool" where
  "is_alnum c \<longleftrightarrow> (let v = (of_char c :: nat) in 48 \<le> v \<and> v \<le> 57 \<or> 65 \<le> v \<and> v \<le> 90 \<or> 97 \<le> v \<and> v \<le> 122)"

definition validate_safe_name :: "string \<Rightarrow> bool" where
  "validate_safe_name name \<longleftrightarrow>
     (if name = [] \<or> length name > 100 then False
      else let s = strip_newline name in
        s \<noteq> [] \<and> is_alnum (hd s) \<and> is_alnum (last s) \<and> list_all (\<lambda>c. is_alnum c \<or> c = CHR ''-'') s)"

text \<open>The validator of both request bodies; \<open>None\<close> is a rejected name.\<close>

definition validate_lun_name :: "string \<Rightarrow> string option" where
  "validate_lun_name v =
     (if length v < 2 then None
      else if \<not> list_all (\<lambda>c. is_alnum c \<or> c = CHR ''-'') v then None
      else if startswith v ''-'' \<or> endswith v ''-'' then None
      else Some (lower v))"

definition generate_iqn :: "string \<Rightarrow> string" where
  "generate_iqn name = ''iqn.2026-01.local.pureboot:'' @ name"

definition generate_initiator_iqn :: "string \<Rightarrow> string" where
  "generate_initiator_iqn mac_address =
     ''iqn.2026-01.local.pureboot:node:'' @ lower (filter (\<lambda>c. c \<noteq> CHR '':'') mac_address)"

definition chap_alphabet :: string where
  "chap_alphabet = ''abcdefghijklmnopqrstuvwxyzABCDEFGHIJKLMNOPQRSTUVWXYZ0123456789''"

definition generate_chap_password :: "(nat \<Rightarrow> nat) \<Rightarrow> string" where
  "generate_chap_password draw = map (\<lambda>i. chap_alphabet ! (draw i mod length chap_alphabet)) [0..<16]"

section \<open>The service\<close>

datatype command =
    Targetcli string
  | Lvcreate int string string
  | Lvremove string
  | Makedirs string
  | RemoveFile string

text \<open>A command exits with a code and its two outputs, runs into the timeout, or cannot be started.\<close>

datatype cmd_outcome = Exited int string string | TimedOut | Raised string

record lun_env =
  le_host :: "command list \<Rightarrow> command \<Rightarrow> cmd_outcome"
  le_encrypt :: "string \<Rightarrow> string \<Rightarrow> string"
  le_decrypt :: "string \<Rightarrow> string option"

record lun_service =
  sv_target_name :: string
  sv_portal_ip :: string
  sv_portal_port :: string
  sv_backingstore_type :: string
  sv_backingstore_path :: string

text \<open>The text fields of a stored configuration.\<close>

fun config_dict :: "backend_config \<Rightarrow> (string \<times> string) list" where
  "config_dict (NfsConfig server export opts) =
     [(''server'', server), (''export_path'', export)] @ (case opts of None \<Rightarrow> [] | Some m \<Rightarrow> [(''mount_options'', m)])"
| "config_dict (HttpConfig url auth user pw) = [(''base_url'', url), (''auth_method'', auth)]"
| "config_dict (S3Config endpoint bucket) = [(''endpoint'', endpoint), (''bucket'', bucket)]"
| "config_dict (IscsiTargetConfig target) = [(''target'', target)]"

definition iscsi_lun_service :: "backend_config \<Rightarrow> lun_service" where
  "iscsi_lun_service config =
     (let get = (\<lambda>k d. set_or (map_of (config_dict config) k) d) in
      \<lparr>sv_target_name = get ''target_name'' ''iqn.2026-01.local.pureboot:target1'', sv_portal_ip = get ''portal_ip'' ''0.0.0.0'',
       sv_portal_port = get ''portal_port'' ''3260'', sv_backingstore_type = get ''backingstore_type'' ''file'',
       sv_backingstore_path = get ''backingstore_path'' ''/var/lib/pureboot/luns''\<rparr>)"

type_synonym 'a on_host = "command list \<times> 'a"

definition run_targetcli :: "lun_env \<Rightarrow> string \<Rightarrow> command list \<Rightarrow> (bool \<times> string) on_host" where
  "run_targetcli env args hist =
     (hist @ [Targetcli args],
      case le_host env hist (Targetcli args) of
        Exited code out err \<Rightarrow>
          if code \<noteq> 0 then (False, if strip err \<noteq> [] then strip err else strip out) else (True, strip out)
      | TimedOut \<Rightarrow> (False, ''Command timed out'')
      | Raised e \<Rightarrow> (False, e))"

text \<open>An exception that leaves the method is the left value.\<close>

definition create_backingstore :: "lun_env \<Rightarrow> lun_service \<Rightarrow> string \<Rightarrow> int \<Rightarrow> command list \<Rightarrow> (string + bool \<times> string) on_host" where
  "create_backingstore env sv name size_gb hist =
     (if \<not> validate_safe_name name then (hist, Inr (False, ''Invalid name: '' @ name))
      else if sv_backingstore_type sv = ''file'' then
        (let path = sv_backingstore_path sv; hist' = hist @ [Makedirs path] in
         case le_host env hist (Makedirs path) of
           Raised e \<Rightarrow> (hist', Inl e)
         | _ \<Rightarrow> map_prod id Inr (run_targetcli env
             (''/backstores/fileio create '' @ name @ '' '' @ path @ ''/'' @ name @ ''.img '' @ show_int size_gb @ ''G sparse=true'') hist'))
      else if sv_backingstore_type sv = ''block'' then
        (let vg_name = sv_backingstore_path sv; hist' = hist @ [Lvcreate size_gb name vg_name] in
         case le_host env hist (Lvcreate size_gb name vg_name) of
           Raised e \<Rightarrow> (hist', Inl e)
         | TimedOut \<Rightarrow> (hist', Inr (False, ''LV creation timed out''))
         | Exited code out err \<Rightarrow>
             if code \<noteq> 0 then (hist', Inr (False, strip err))
             else map_prod id Inr (run_targetcli env (''/backstores/block create '' @ name @ '' /dev/'' @ vg_name @ ''/'' @ name) hist'))
      else (hist, Inr (False, ''Unknown backingstore type: '' @ sv_backingstore_type sv)))"

definition delete_backingstore :: "lun_env \<Rightarrow> lun_service \<Rightarrow> string \<Rightarrow> command list \<Rightarrow> (string + bool \<times> string) on_host" where
  "delete_backingstore env sv name hist =
     (if \<not> validate_safe_name name then (hist, Inr (False, ''Invalid name: '' @ name))
      else if sv_backingstore_type sv = ''file'' then
        (case run_targetcli env (''/backstores/fileio delete '' @ name) hist of
           (hist, (False, msg)) \<Rightarrow> (hist, Inr (False, msg))
         | (hist, (True, msg)) \<Rightarrow> (hist @ [RemoveFile (sv_backingstore_path sv @ ''/'' @ name @ ''.img'')], Inr (True, msg)))
      else if sv_backingstore_type sv = ''block'' then
        (case run_targetcli env (''/backstores/block delete '' @ name) hist of
           (hist, (False, msg)) \<Rightarrow> (hist, Inr (False, msg))
         | (hist, (True, msg)) \<Rightarrow>
             let lv = ''/dev/'' @ sv_backingstore_path sv @ ''/'' @ name in
             (hist @ [Lvremove lv], case le_host env hist (Lvremove lv) of Raised e \<Rightarrow> Inl e | _ \<Rightarrow> Inr (True, msg)))
      else (hist, Inr (False, ''Unknown backingstore type: '' @ sv_backingstore_type sv)))"

definition tpg1 :: "lun_service \<Rightarrow> string" where
  "tpg1 sv = ''/iscsi/'' @ sv_target_name sv @ ''/tpg1''"

definition service_create_lun :: "lun_env \<Rightarrow> lun_service \<Rightarrow> string \<Rightarrow> int \<Rightarrow> command list \<Rightarrow> (bool \<times> string) on_host" where
  "service_create_lun env sv name lun_number hist =
     (if \<not> validate_safe_name name then (hist, (False, ''Invalid name: '' @ name))
      else run_targetcli env (tpg1 sv @ ''/luns create /backstores/''
             @ (if sv_backingstore_type sv = ''file'' then ''fileio'' else ''block'') @ ''/'' @ name @ '' lun='' @ show_int lun_number) hist)"

definition service_delete_lun :: "lun_env \<Rightarrow> lun_service \<Rightarrow> int \<Rightarrow> command list \<Rightarrow> (bool \<times> string) on_host" where
  "service_delete_lun env sv lun_number = run_targetcli env (tpg1 sv @ ''/luns delete lun'' @ show_int lun_number)"

definition create_acl :: "lun_env \<Rightarrow> lun_service \<Rightarrow> string \<Rightarrow> command list \<Rightarrow> (bool \<times> string) on_host" where
  "create_acl env sv initiator_iqn = run_targetcli env (tpg1 sv @ ''/acls create '' @ initiator_iqn)"

definition delete_acl :: "lun_env \<Rightarrow> lun_service \<Rightarrow> string \<Rightarrow> command list \<Rightarrow> (bool \<times> string) on_host" where
  "delete_acl env sv initiator_iqn = run_targetcli env (tpg1 sv @ ''/acls delete '' @ initiator_iqn)"

definition set_chap :: "lun_env \<Rightarrow> lun_service \<Rightarrow> string \<Rightarrow> string \<Rightarrow> string \<Rightarrow> command list \<Rightarrow> (bool \<times> string) on_host" where
  "set_chap env sv initiator_iqn username password =
     run_targetcli env (tpg1 sv @ ''/acls/'' @ initiator_iqn @ '' set auth userid='' @ username @ '' password='' @ password)"

definition save_config :: "lun_env \<Rightarrow> command list \<Rightarrow> (bool \<times> string) on_host" where
  "save_config env = run_targetcli env ''saveconfig''"

definition ensure_target_exists :: "lun_env \<Rightarrow> lun_service \<Rightarrow> command list \<Rightarrow> (bool \<times> string) on_host" where
  "ensure_target_exists env sv hist =
     (let (hist, (success, output)) = run_targetcli env ''/iscsi ls'' hist in
      if contains (sv_target_name sv) output then (hist, (True, ''Target exists''))
      else let (hist, (success, msg)) = run_targetcli env (''/iscsi create '' @ sv_target_name sv) hist in
        if \<not> success then (hist, (False, msg))
        else
          let hist = fst (run_targetcli env (tpg1 sv @ ''/portals create '' @ sv_portal_ip sv @ '' '' @ sv_portal_port sv) hist);
              hist = fst (run_targetcli env (tpg1 sv @ '' set attribute authentication=0'') hist);
              hist = fst (run_targetcli env (tpg1 sv @ '' set attribute generate_node_acls=0'') hist)
          in save_config env hist)"

section \<open>State\<close>

record lun =
  l_id :: string
  l_name :: string
  l_size_gb :: int
  l_backend_id :: string
  l_iqn :: string
  l_lun_number :: int
  l_purpose :: string
  l_status :: string
  l_error_message :: "string option"
  l_assigned_node_id :: "string option"
  l_chap_enabled :: bool
  l_chap_username :: "string option"
  l_chap_password_encrypted :: "string option"

datatype lun_task = CreateTask string | DeleteTask string

record lun_state =
  ls_luns :: "lun list"
  ls_store :: store
  ls_nodes :: "node list"
  ls_log :: "command list"
  ls_tasks :: "lun_task list"

type_synonym 'a in_luns = "lun_state \<times> (api_error + 'a)"

definition put_lun :: "lun \<Rightarrow> lun_state \<Rightarrow> lun_state" where
  "put_lun l s = s\<lparr>ls_luns := save_row l_id l (ls_luns s)\<rparr>"

definition lun_backend :: "lun \<Rightarrow> lun_state \<Rightarrow> backend option" where
  "lun_backend l s = sql_get be_id (l_backend_id l) (fs_backends (ls_store s))"

definition failed_lun :: "string \<Rightarrow> lun \<Rightarrow> lun" where
  "failed_lun msg l = l\<lparr>l_status := ''error'', l_error_message := Some msg\<rparr>"

section \<open>Background tasks\<close>

text \<open>The body of the try block: the commands and the status and message it ends with, or the exception.\<close>

definition provision :: "lun_env \<Rightarrow> lun_service \<Rightarrow> lun \<Rightarrow> command list \<Rightarrow> (string + lun) on_host" where
  "provision env sv l hist =
     (let (hist, (success, msg)) = ensure_target_exists env sv hist in
      if \<not> success then (hist, Inr (failed_lun (''Failed to ensure target: '' @ msg) l))
      else case create_backingstore env sv (l_name l) (l_size_gb l) hist of
        (hist, Inl e) \<Rightarrow> (hist, Inl e)
      | (hist, Inr (False, msg)) \<Rightarrow> (hist, Inr (failed_lun (''Failed to create backingstore: '' @ msg) l))
      | (hist, Inr (True, _)) \<Rightarrow>
          let (hist, (success, msg)) = service_create_lun env sv (l_name l) (l_lun_number l) hist in
          if \<not> success then
            (case delete_backingstore env sv (l_name l) hist of
               (hist, Inl e) \<Rightarrow> (hist, Inl e)
             | (hist, Inr _) \<Rightarrow> (hist, Inr (failed_lun (''Failed to create LUN: '' @ msg) l)))
          else (fst (save_config env hist), Inr (l\<lparr>l_status := ''ready'', l_error_message := None\<rparr>)))"

definition create_lun_background :: "lun_env \<Rightarrow> string \<Rightarrow> lun_state \<Rightarrow> lun_state" where
  "create_lun_background env lun_id s =
     (case sql_get l_id lun_id (ls_luns s) of
        None \<Rightarrow> s
      | Some l \<Rightarrow>
          (case lun_backend l s of
             None \<Rightarrow> put_lun (failed_lun ''Backend not found'' l) s
           | Some b \<Rightarrow>
               (case provision env (iscsi_lun_service (be_config b)) l (ls_log s) of
                  (hist, Inl e) \<Rightarrow> put_lun (failed_lun e l) (s\<lparr>ls_log := hist\<rparr>)
                | (hist, Inr l') \<Rightarrow> put_lun l' (s\<lparr>ls_log := hist\<rparr>))))"

definition delete_lun_background :: "lun_env \<Rightarrow> string \<Rightarrow> lun_state \<Rightarrow> lun_state" where
  "delete_lun_background env lun_id s =
     (case sql_get l_id lun_id (ls_luns s) of
        None \<Rightarrow> s
      | Some l \<Rightarrow>
          let gone = filter (\<lambda>x. l_id x \<noteq> lun_id) (ls_luns s) in
          (case lun_backend l s of
             None \<Rightarrow> s\<lparr>ls_luns := gone\<rparr>
           | Some b \<Rightarrow>
               let sv = iscsi_lun_service (be_config b);
                   hist = fst (service_delete_lun env sv (l_lun_number l) (ls_log s))
               in case delete_backingstore env sv (l_name l) hist of
                    (hist, Inl e) \<Rightarrow> put_lun (failed_lun (''Delete failed: '' @ e) l) (s\<lparr>ls_log := hist\<rparr>)
                  | (hist, Inr _) \<Rightarrow> s\<lparr>ls_luns := gone, ls_log := fst (save_config env hist)\<rparr>))"

fun run_task :: "lun_env \<Rightarrow> lun_task \<Rightarrow> lun_state \<Rightarrow> lun_state" where
  "run_task env (CreateTask i) s = create_lun_background env i (s\<lparr>ls_tasks := remove1 (CreateTask i) (ls_tasks s)\<rparr>)"
| "run_task env (DeleteTask i) s = delete_lun_background env i (s\<lparr>ls_tasks := remove1 (DeleteTask i) (ls_tasks s)\<rparr>)"

section \<open>Routes\<close>

record lun_response =
  lr_lun :: lun
  lr_backend_name :: string
  lr_assigned_node_name :: "string option"

text \<open>
  The two relationships of a LUN are loaded on first access. In an asynchronous session that only
  works for an object the handler has fetched before; any other access raises \<open>MissingGreenlet\<close>. The
  first two arguments are the fetched backend and node. The password is not part of the answer.
\<close>

definition from_lun :: "backend option \<Rightarrow> node option \<Rightarrow> lun \<Rightarrow> api_error + lun_response" where
  "from_lun backend node l =
     (if map_option be_id backend \<noteq> Some (l_backend_id l) then Inl (Crash ''MissingGreenlet'')
      else case l_assigned_node_id l of
        None \<Rightarrow> Inr \<lparr>lr_lun = l\<lparr>l_chap_password_encrypted := None\<rparr>, lr_backend_name = be_name (the backend), lr_assigned_node_name = None\<rparr>
      | Some i \<Rightarrow>
          if map_option n_id node \<noteq> Some i then Inl (Crash ''MissingGreenlet'')
          else Inr \<lparr>lr_lun = l\<lparr>l_chap_password_encrypted := None\<rparr>, lr_backend_name = be_name (the backend),
                    lr_assigned_node_name = n_hostname (the node)\<rparr>)"

fun all_responses :: "lun list \<Rightarrow> api_error + lun_response list" where
  "all_responses [] = Inr []"
| "all_responses (l # ls) = ebind (from_lun None None l) (\<lambda>r. ebind (all_responses ls) (\<lambda>rs. Inr (r # rs)))"

definition list_luns :: "string option \<Rightarrow> string option \<Rightarrow> string option \<Rightarrow> lun_state \<Rightarrow> lun_response list in_luns" where
  "list_luns backend_id status purpose s =
     (s, all_responses (filter (\<lambda>l. (truthy backend_id \<longrightarrow> Some (l_backend_id l) = backend_id)
        \<and> (truthy status \<longrightarrow> Some (l_status l) = status) \<and> (truthy purpose \<longrightarrow> Some (l_purpose l) = purpose)) (ls_luns s)))"

definition get_lun :: "string \<Rightarrow> lun_state \<Rightarrow> lun_response in_luns" where
  "get_lun lun_id s =
     (case sql_get l_id lun_id (ls_luns s) of None \<Rightarrow> (s, Inl (Status 404)) | Some l \<Rightarrow> (s, from_lun None None l))"

record lun_create =
  lc_name :: string
  lc_size_gb :: int
  lc_backend_id :: string
  lc_purpose :: string
  lc_chap_enabled :: bool

text \<open>\<open>scalar_one_or_none()\<close> over the LUNs of a backend, the highest number first.\<close>

definition next_lun_number :: "string \<Rightarrow> lun list \<Rightarrow> api_error + int" where
  "next_lun_number backend_id ls =
     (case filter (\<lambda>l. l_backend_id l = backend_id) ls of
        [] \<Rightarrow> Inr 0
      | [last_lun] \<Rightarrow> Inr (l_lun_number last_lun + 1)
      | _ \<Rightarrow> Inl (Crash ''MultipleResultsFound''))"

definition insert_lun :: "lun \<Rightarrow> lun list \<Rightarrow> api_error + lun list" where
  "insert_lun l ls =
     (if l_id l \<in> l_id ` set ls \<or> l_name l \<in> l_name ` set ls \<or> l_iqn l \<in> l_iqn ` set ls then Inl ConstraintFailed
      else Inr (ls @ [l]))"

definition create_lun :: "lun_env \<Rightarrow> string \<Rightarrow> (nat \<Rightarrow> nat) \<Rightarrow> string \<Rightarrow> lun_create \<Rightarrow> lun_state \<Rightarrow> lun_response in_luns" where
  "create_lun env uuid draw token body s =
     (case validate_lun_name (lc_name body) of
        None \<Rightarrow> (s, Inl (Status 422))
      | Some name \<Rightarrow>
          if lc_size_gb body < 1 \<or> lc_size_gb body > 10000
             \<or> lc_purpose body \<notin> {''boot_from_san'', ''install_source'', ''auto_provision''} then (s, Inl (Status 422))
          else case sql_get be_id (lc_backend_id body) (fs_backends (ls_store s)) of
            None \<Rightarrow> (s, Inl (Status 404))
          | Some b \<Rightarrow>
              if be_type b \<noteq> ''iscsi'' then (s, Inl (Status 400))
              else if sql_get l_name name (ls_luns s) \<noteq> None then (s, Inl (Status 400))
              else case next_lun_number (lc_backend_id body) (ls_luns s) of
                Inl e \<Rightarrow> (s, Inl e)
              | Inr n \<Rightarrow>
                  let chap = lc_chap_enabled body;
                      l = \<lparr>l_id = uuid, l_name = name, l_size_gb = lc_size_gb body, l_backend_id = lc_backend_id body,
                           l_iqn = generate_iqn name, l_lun_number = n, l_purpose = lc_purpose body, l_status = ''creating'',
                           l_error_message = None, l_assigned_node_id = None, l_chap_enabled = chap,
                           l_chap_username = (if chap then Some name else None),
                           l_chap_password_encrypted =
                             (if chap then Some (le_encrypt env token (generate_chap_password draw)) else None)\<rparr>
                  in case insert_lun l (ls_luns s) of
                       Inl e \<Rightarrow> (s, Inl e)
                     | Inr ls \<Rightarrow> (s\<lparr>ls_luns := ls, ls_tasks := ls_tasks s @ [CreateTask uuid]\<rparr>, from_lun (Some b) None l))"

text \<open>A field that was not sent is \<open>None\<close>. Both changes are committed before the answer is made.\<close>

definition with_name :: "string option \<Rightarrow> lun \<Rightarrow> lun" where
  "with_name name l = (case name of None \<Rightarrow> l | Some v \<Rightarrow> l\<lparr>l_name := v, l_iqn := generate_iqn v\<rparr>)"

definition with_chap :: "lun_env \<Rightarrow> (nat \<Rightarrow> nat) \<Rightarrow> string \<Rightarrow> bool option \<Rightarrow> lun \<Rightarrow> lun" where
  "with_chap env draw token chap_enabled l =
     (case chap_enabled of
        None \<Rightarrow> l
      | Some c \<Rightarrow>
          if c \<and> \<not> truthy (l_chap_username l)
          then l\<lparr>l_chap_enabled := c, l_chap_username := Some (l_name l),
                 l_chap_password_encrypted := Some (le_encrypt env token (generate_chap_password draw))\<rparr>
          else l\<lparr>l_chap_enabled := c\<rparr>)"

definition update_lun ::
    "lun_env \<Rightarrow> (nat \<Rightarrow> nat) \<Rightarrow> string \<Rightarrow> string \<Rightarrow> string option \<Rightarrow> bool option \<Rightarrow> lun_state \<Rightarrow> lun_response in_luns" where
  "update_lun env draw token lun_id name chap_enabled s =
     (case (case name of None \<Rightarrow> Some None | Some v \<Rightarrow> map_option Some (validate_lun_name v)) of
        None \<Rightarrow> (s, Inl (Status 422))
      | Some name \<Rightarrow>
          (case sql_get l_id lun_id (ls_luns s) of
             None \<Rightarrow> (s, Inl (Status 404))
           | Some l \<Rightarrow>
               if l_status l \<notin> {''ready'', ''active''} then (s, Inl (Status 400))
               else if \<exists>h \<in> set (ls_luns s). Some (l_name h) = name \<and> l_id h \<noteq> lun_id then (s, Inl (Status 400))
               else
                 let l = with_chap env draw token chap_enabled (with_name name l)
                 in if \<exists>h \<in> set (ls_luns s). l_iqn h = l_iqn l \<and> l_id h \<noteq> lun_id then (s, Inl ConstraintFailed)
                    else (put_lun l s, from_lun None None l)))"

definition delete_lun :: "string \<Rightarrow> lun_state \<Rightarrow> unit in_luns" where
  "delete_lun lun_id s =
     (case sql_get l_id lun_id (ls_luns s) of
        None \<Rightarrow> (s, Inl (Status 404))
      | Some l \<Rightarrow>
          if l_status l = ''creating'' then (s, Inl (Status 400))
          else if l_status l = ''deleting'' then (s, Inl (Status 400))
          else if truthy (l_assigned_node_id l) then (s, Inl (Status 400))
          else let s = put_lun (l\<lparr>l_status := ''deleting''\<rparr>) s
               in (s\<lparr>ls_tasks := ls_tasks s @ [DeleteTask lun_id]\<rparr>, Inr ()))"

text \<open>The access list entry of a node, with the CHAP credentials of the LUN.\<close>

definition grant_access :: "lun_env \<Rightarrow> lun_service \<Rightarrow> string \<Rightarrow> lun \<Rightarrow> command list \<Rightarrow> (api_error + unit) on_host" where
  "grant_access env sv iqn l hist =
     (let (hist, (success, msg)) = create_acl env sv iqn hist in
      if \<not> success then (hist, Inl (Status 500))
      else if l_chap_enabled l \<and> truthy (l_chap_username l) \<and> truthy (l_chap_password_encrypted l) then
        (case le_decrypt env (the (l_chap_password_encrypted l)) of
           None \<Rightarrow> (hist, Inl (Crash ''InvalidToken''))
         | Some password \<Rightarrow>
             let (hist, (success, msg)) = set_chap env sv iqn (the (l_chap_username l)) password hist in
             if \<not> success then (fst (delete_acl env sv iqn hist), Inl (Status 500))
             else (fst (save_config env hist), Inr ()))
      else (fst (save_config env hist), Inr ()))"

definition assign_lun :: "lun_env \<Rightarrow> string \<Rightarrow> string \<Rightarrow> lun_state \<Rightarrow> lun_response in_luns" where
  "assign_lun env lun_id node_id s =
     (case sql_get l_id lun_id (ls_luns s) of
        None \<Rightarrow> (s, Inl (Status 404))
      | Some l \<Rightarrow>
          if l_status l \<notin> {''ready'', ''active''} then (s, Inl (Status 400))
          else if truthy (l_assigned_node_id l) then (s, Inl (Status 400))
          else case sql_get n_id node_id (ls_nodes s) of
            None \<Rightarrow> (s, Inl (Status 404))
          | Some node \<Rightarrow>
              (case lun_backend l s of
                 None \<Rightarrow> (s, Inl (Status 500))
               | Some b \<Rightarrow>
                   (case grant_access env (iscsi_lun_service (be_config b)) (generate_initiator_iqn (n_mac_address node)) l (ls_log s) of
                      (hist, Inl e) \<Rightarrow> (s\<lparr>ls_log := hist\<rparr>, Inl e)
                    | (hist, Inr _) \<Rightarrow>
                        let l = l\<lparr>l_assigned_node_id := Some node_id, l_status := ''active''\<rparr>
                        in (put_lun l (s\<lparr>ls_log := hist\<rparr>), from_lun (Some b) (Some node) l))))"

definition unassign_lun :: "lun_env \<Rightarrow> string \<Rightarrow> lun_state \<Rightarrow> lun_response in_luns" where
  "unassign_lun env lun_id s =
     (case sql_get l_id lun_id (ls_luns s) of
        None \<Rightarrow> (s, Inl (Status 404))
      | Some l \<Rightarrow>
          if \<not> truthy (l_assigned_node_id l) then (s, Inl (Status 400))
          else
            let l' = l\<lparr>l_assigned_node_id := None, l_status := ''ready''\<rparr> in
            case sql_get n_id (the (l_assigned_node_id l)) (ls_nodes s) of
              None \<Rightarrow> (put_lun l' s, from_lun None None l')
            | Some node \<Rightarrow>
                (case lun_backend l s of
                   None \<Rightarrow> (put_lun l' s, from_lun None (Some node) l')
                 | Some b \<Rightarrow>
                     let sv = iscsi_lun_service (be_config b);
                         hist = fst (delete_acl env sv (generate_initiator_iqn (n_mac_address node)) (ls_log s));
                         hist = fst (save_config env hist)
                     in (put_lun l' (s\<lparr>ls_log := hist\<rparr>), from_lun (Some b) (Some node) l')))"

section \<open>Steps\<close>

datatype lun_op =
    ListLuns "string option" "string option" "string option"
  | GetLun string
  | CreateLun string "nat \<Rightarrow> nat" string lun_create
  | UpdateLun "nat \<Rightarrow> nat" string string "string option" "bool option"
  | DeleteLun string
  | AssignLun string string
  | UnassignLun string
  | OverStore outside bool store_op

fun perform_lun :: "lun_env \<Rightarrow> lun_op \<Rightarrow> lun_state \<Rightarrow> lun_state" where
  "perform_lun env (ListLuns b t p) s = fst (list_luns b t p s)"
| "perform_lun env (GetLun i) s = fst (get_lun i s)"
| "perform_lun env (CreateLun u d t body) s = fst (create_lun env u d t body s)"
| "perform_lun env (UpdateLun d t i n c) s = fst (update_lun env d t i n c s)"
| "perform_lun env (DeleteLun i) s = fst (delete_lun i s)"
| "perform_lun env (AssignLun i n) s = fst (assign_lun env i n s)"
| "perform_lun env (UnassignLun i) s = fst (unassign_lun env i s)"
| "perform_lun env (OverStore out w q) s = s\<lparr>ls_store := get_db (store_route out) (w, q) (ls_store s)\<rparr>"

text \<open>A request, a background task that runs, or a restart of the controller.\<close>

inductive lun_step :: "lun_env \<Rightarrow> lun_state \<Rightarrow> lun_state \<Rightarrow> bool" for env where
  request: "lun_step env s (perform_lun env q s)"
| background: "t \<in> set (ls_tasks s) \<Longrightarrow> lun_step env s (run_task env t s)"
| restart: "lun_step env s (s\<lparr>ls_tasks := []\<rparr>)"

section \<open>Invariant\<close>

definition LUN_STATUSES :: "string list" where
  "LUN_STATUSES = [''creating'', ''ready'', ''active'', ''error'', ''deleting'']"

definition lun_ok :: "lun \<Rightarrow> bool" where
  "lun_ok l \<longleftrightarrow> l_iqn l = generate_iqn (l_name l) \<and> l_status l \<in> set LUN_STATUSES
     \<and> (l_status l = ''active'' \<longleftrightarrow> l_assigned_node_id l \<noteq> None) \<and> l_assigned_node_id l \<noteq> Some []"

definition slots :: "lun list \<Rightarrow> (string \<times> int) list" where
  "slots ls = map (\<lambda>l. (l_backend_id l, l_lun_number l)) ls"

definition slots_ok :: "(string \<times> int) list \<Rightarrow> bool" where
  "slots_ok ps \<longleftrightarrow> distinct ps \<and> (\<forall>b. length (filter (\<lambda>p. fst p = b) ps) \<le> 2)"

fun task_id :: "lun_task \<Rightarrow> string" where
  "task_id (CreateTask i) = i"
| "task_id (DeleteTask i) = i"

fun task_status :: "lun_task \<Rightarrow> string" where
  "task_status (CreateTask i) = ''creating''"
| "task_status (DeleteTask i) = ''deleting''"

definition task_ok :: "lun list \<Rightarrow> lun_task \<Rightarrow> bool" where
  "task_ok ls t \<longleftrightarrow> (\<exists>l. sql_get l_id (task_id t) ls = Some l \<and> l_status l = task_status t)"

definition luns_ok :: "lun list \<Rightarrow> bool" where
  "luns_ok ls \<longleftrightarrow> keys_unique l_id ls \<and> keys_unique l_name ls \<and> (\<forall>l \<in> set ls. lun_ok l) \<and> slots_ok (slots ls)"

definition lun_inv :: "lun_state \<Rightarrow> bool" where
  "lun_inv s \<longleftrightarrow> luns_ok (ls_luns s) \<and> distinct (ls_tasks s) \<and> (\<forall>t \<in> set (ls_tasks s). task_ok (ls_luns s) t)
     \<and> (\<forall>n \<in> set (ls_nodes s). n_id n \<noteq> [])"

text \<open>What no route changes.\<close>

definition same_slot :: "lun \<Rightarrow> lun \<Rightarrow> bool" where
  "same_slot l l' \<longleftrightarrow> l_id l' = l_id l \<and> l_backend_id l' = l_backend_id l \<and> l_lun_number l' = l_lun_number l"

lemma slots_save_row:
  assumes "keys_unique l_id ls" and "l \<in> set ls" and "same_slot l l'"
  shows "slots (save_row l_id l' ls) = slots ls"
  using assms unfolding slots_def save_row_def same_slot_def keys_unique_def
  by (auto simp: distinct_map dest: inj_onD)

lemma luns_ok_save:
  assumes "luns_ok ls" and "sql_get l_id i ls = Some l" and "same_slot l l'" and "lun_ok l'"
    and "\<And>h. h \<in> set ls \<Longrightarrow> l_id h \<noteq> l_id l' \<Longrightarrow> l_name h \<noteq> l_name l'"
  shows "luns_ok (save_row l_id l' ls)"
proof -
  have l: "l \<in> set ls" using assms(2) by (auto dest: sql_get_SomeD)
  have "keys_unique l_name (save_row l_id l' ls)"
    using assms(1,5) unfolding save_row_def by (intro replace_row_unique) (auto simp: luns_ok_def)
  moreover have "slots_ok (slots (save_row l_id l' ls))"
    using assms(1) slots_save_row [OF _ l assms(3)] by (simp add: luns_ok_def)
  ultimately show ?thesis
    using assms(1,4) set_save_row_subset [of l_id l' ls] by (auto simp: luns_ok_def)
qed

lemma luns_ok_filter: "luns_ok ls \<Longrightarrow> luns_ok (filter p ls)"
proof -
  assume a: "luns_ok ls"
  have "distinct (slots (filter p ls))" using a by (simp add: luns_ok_def slots_ok_def slots_def distinct_map_filter)
  moreover have le: "length (filter (\<lambda>q. fst q = b) (slots (filter p ls))) \<le> length (filter (\<lambda>q. fst q = b) (slots ls))" for b
    by (induction ls) (auto simp: slots_def)
  have "length (filter (\<lambda>q. fst q = b) (slots (filter p ls))) \<le> 2" for b
    by (rule order_trans [OF le]) (use a in \<open>simp add: luns_ok_def slots_ok_def\<close>)
  ultimately show ?thesis using a by (auto simp: luns_ok_def slots_ok_def keys_unique_filter)
qed

lemma luns_ok_name: "luns_ok ls \<Longrightarrow> sql_get l_id i ls = Some l \<Longrightarrow> h \<in> set ls \<Longrightarrow> l_id h \<noteq> l_id l \<Longrightarrow> l_name h \<noteq> l_name l"
  by (auto simp: luns_ok_def keys_unique_def distinct_map dest!: sql_get_SomeD dest: inj_onD)

lemma lun_inv_get: "lun_inv s \<Longrightarrow> sql_get l_id i (ls_luns s) = Some l \<Longrightarrow> lun_ok l \<and> l_id l = i"
  by (auto simp: lun_inv_def luns_ok_def dest!: sql_get_SomeD)

lemma task_ok_put: "task_ok ls t \<Longrightarrow> task_id t \<noteq> l_id l' \<or> l_status l' = task_status t \<Longrightarrow> task_ok (save_row l_id l' ls) t"
  by (auto simp: task_ok_def tab_simps)

lemma lun_inv_put:
  assumes "lun_inv s" and "sql_get l_id i (ls_luns s) = Some l" and "same_slot l l'" and "lun_ok l'"
    and "\<And>h. h \<in> set (ls_luns s) \<Longrightarrow> l_id h \<noteq> i \<Longrightarrow> l_name h \<noteq> l_name l'"
    and "\<And>t. t \<in> set (ls_tasks s) \<Longrightarrow> task_id t \<noteq> i \<or> l_status l' = task_status t"
  shows "lun_inv (put_lun l' s)"
proof -
  have i: "l_id l' = i" using assms(2,3) by (auto simp: same_slot_def dest: sql_get_SomeD)
  have "luns_ok (save_row l_id l' (ls_luns s))"
    using assms by (intro luns_ok_save [of _ i l]) (auto simp: lun_inv_def i)
  then show ?thesis using assms(1,6) by (auto simp: lun_inv_def put_lun_def i intro!: task_ok_put)
qed

lemma no_task: "lun_inv s \<Longrightarrow> sql_get l_id i (ls_luns s) = Some l \<Longrightarrow> l_status l \<notin> {''creating'', ''deleting''} \<Longrightarrow>
    t \<in> set (ls_tasks s) \<Longrightarrow> task_id t \<noteq> i"
  by (cases t) (auto simp: lun_inv_def task_ok_def)

lemma lun_inv_hist [simp]: "lun_inv (s\<lparr>ls_log := h\<rparr>) = lun_inv s"
  by (simp add: lun_inv_def)

lemma lun_inv_store [simp]: "lun_inv (s\<lparr>ls_store := h\<rparr>) = lun_inv s"
  by (simp add: lun_inv_def)

section \<open>Every step keeps the invariant\<close>

lemma filter_slots: "filter (\<lambda>p. fst p = b) (slots ls) = slots (filter (\<lambda>l. l_backend_id l = b) ls)"
  by (induction ls) (simp_all add: slots_def)

lemma next_slot_ok:
  assumes "slots_ok (slots ls)" and "next_lun_number b ls = Inr n"
  shows "slots_ok (slots ls @ [(b, n)])"
proof -
  define fs where "fs = filter (\<lambda>l. l_backend_id l = b) ls"
  have "(b, n) \<notin> set (slots fs) \<and> length fs \<le> 1"
    using assms(2) unfolding next_lun_number_def fs_def [symmetric] by (auto simp: slots_def split: list.splits)
  moreover have "(b, n) \<in> set (slots ls) \<longleftrightarrow> (b, n) \<in> set (slots fs)"
    by (auto simp: slots_def fs_def)
  ultimately show ?thesis
    using assms(1) by (auto simp: slots_ok_def filter_slots fs_def [symmetric]) (simp add: slots_def fs_def)
qed

lemma create_lun_cases:
  obtains "fst (create_lun env u d t body s) = s" and "\<exists>e. snd (create_lun env u d t body s) = Inl e"
  | l b where "fst (create_lun env u d t body s) = s\<lparr>ls_luns := ls_luns s @ [l], ls_tasks := ls_tasks s @ [CreateTask u]\<rparr>"
      and "snd (create_lun env u d t body s) = from_lun (Some b) None l" and "insert_lun l (ls_luns s) = Inr (ls_luns s @ [l])"
      and "next_lun_number (l_backend_id l) (ls_luns s) = Inr (l_lun_number l)"
      and "sql_get be_id (l_backend_id l) (fs_backends (ls_store s)) = Some b" and "be_type b = ''iscsi''"
      and "validate_lun_name (lc_name body) = Some (l_name l)" and "l_size_gb l = lc_size_gb body" and "l_backend_id l = lc_backend_id body"
      and "l_id l = u" and "l_status l = ''creating''" and "l_assigned_node_id l = None" and "l_iqn l = generate_iqn (l_name l)"
proof (cases "create_lun env u d t body s = (s, snd (create_lun env u d t body s)) \<and> isl (snd (create_lun env u d t body s))")
  case True
  then show ?thesis using that(1) by (metis fst_conv isl_def)
next
  case False
  then show ?thesis
    by (auto simp: create_lun_def insert_lun_def Let_def split: option.splits sum.splits if_splits intro!: that(2))
qed

lemma create_lun_inv:
  assumes "lun_inv s"
  shows "lun_inv (fst (create_lun env u d t body s))"
proof (cases rule: create_lun_cases [of env u d t body s])
  case (2 l b)
  have ok: "luns_ok (ls_luns s)" and ts: "\<And>x. x \<in> set (ls_tasks s) \<Longrightarrow> task_ok (ls_luns s) x" using assms by (auto simp: lun_inv_def)
  have fresh: "l_id l \<notin> l_id ` set (ls_luns s)" "l_name l \<notin> l_name ` set (ls_luns s)"
    using 2 by (auto simp: insert_lun_def split: if_splits)
  have "slots_ok (slots (ls_luns s @ [l]))"
    using next_slot_ok [of "ls_luns s"] ok 2 by (simp add: luns_ok_def) (simp add: slots_def)
  moreover have "lun_ok l" using 2 by (simp add: lun_ok_def LUN_STATUSES_def)
  ultimately have "luns_ok (ls_luns s @ [l])" using ok fresh by (auto simp: luns_ok_def keys_unique_def)
  moreover have "task_ok (ls_luns s @ [l]) x" if "x \<in> set (ls_tasks s)" for x
    using ts [OF that] by (auto simp: task_ok_def sql_get_def find_append)
  moreover have "task_ok (ls_luns s @ [l]) (CreateTask u)" using fresh 2 by (simp add: task_ok_def tab_simps)
  moreover have "CreateTask u \<notin> set (ls_tasks s)"
    using ts [of "CreateTask u"] fresh(1) 2(10) by (auto simp: task_ok_def sql_get_None_iff [symmetric])
  ultimately show ?thesis using assms 2 by (auto simp: lun_inv_def)
qed (use assms in simp)

lemma with_simps [simp]:
  "l_id (with_name n l) = l_id l" "l_backend_id (with_name n l) = l_backend_id l" "l_lun_number (with_name n l) = l_lun_number l"
  "l_status (with_name n l) = l_status l" "l_assigned_node_id (with_name n l) = l_assigned_node_id l"
  "l_id (with_chap env d t c l) = l_id l" "l_backend_id (with_chap env d t c l) = l_backend_id l" "l_iqn (with_chap env d t c l) = l_iqn l"
  "l_lun_number (with_chap env d t c l) = l_lun_number l" "l_status (with_chap env d t c l) = l_status l"
  "l_assigned_node_id (with_chap env d t c l) = l_assigned_node_id l" "l_name (with_chap env d t c l) = l_name l"
  by (simp_all add: with_name_def with_chap_def split: option.splits)

lemma update_lun_cases:
  obtains "fst (update_lun env d t i n c s) = s" and "\<exists>e. snd (update_lun env d t i n c s) = Inl e"
  | l name where "sql_get l_id i (ls_luns s) = Some l" and "l_status l \<in> {''ready'', ''active''}"
      and "\<forall>h \<in> set (ls_luns s). Some (l_name h) = name \<longrightarrow> l_id h = i"
      and "update_lun env d t i n c s = (put_lun (with_chap env d t c (with_name name l)) s, from_lun None None (with_chap env d t c (with_name name l)))"
proof (cases "update_lun env d t i n c s = (s, snd (update_lun env d t i n c s)) \<and> isl (snd (update_lun env d t i n c s))")
  case True
  then show ?thesis using that(1) by (metis fst_conv isl_def)
next
  case False
  then obtain name l where n: "(case n of None \<Rightarrow> Some None | Some v \<Rightarrow> map_option Some (validate_lun_name v)) = Some name"
    and l: "sql_get l_id i (ls_luns s) = Some l"
    by (auto simp: update_lun_def split: option.splits)
  show ?thesis using False that(2) [OF l, of name] by (auto simp: update_lun_def n l Let_def split: if_splits)
qed

lemma update_lun_inv:
  assumes "lun_inv s"
  shows "lun_inv (fst (update_lun env d t i n c s))"
proof (cases rule: update_lun_cases [of env d t i n c s])
  case (2 l name)
  have ok: "lun_ok l" "l_id l = i" using lun_inv_get [OF assms 2(1)] by auto
  let ?l = "with_chap env d t c (with_name name l)"
  have nm: "l_name ?l = set_or name (l_name l)" by (simp add: with_name_def split: option.splits)
  have "l_name h \<noteq> l_name ?l" if "h \<in> set (ls_luns s)" "l_id h \<noteq> i" for h
    using 2(3) luns_ok_name [OF _ 2(1) that(1)] assms that ok unfolding nm by (cases name) (auto simp: lun_inv_def)
  moreover have "lun_ok ?l" using ok(1) by (cases name) (auto simp: lun_ok_def with_name_def)
  moreover have "task_id x \<noteq> i" if "x \<in> set (ls_tasks s)" for x using no_task [OF assms 2(1) _ that] 2(2) by auto
  ultimately have "lun_inv (put_lun ?l s)"
    by (intro lun_inv_put [OF assms 2(1)]) (simp_all add: same_slot_def)
  then show ?thesis using 2(4) by simp
qed (use assms in simp)

lemma delete_lun_cases:
  obtains "fst (delete_lun i s) = s"
  | l where "sql_get l_id i (ls_luns s) = Some l" and "l_status l \<notin> {''creating'', ''deleting''}" and "\<not> truthy (l_assigned_node_id l)"
      and "fst (delete_lun i s) = (put_lun (l\<lparr>l_status := ''deleting''\<rparr>) s)\<lparr>ls_tasks := ls_tasks s @ [DeleteTask i]\<rparr>"
proof (cases "fst (delete_lun i s) = s")
  case False
  then show ?thesis using that(2) by (auto simp: delete_lun_def Let_def put_lun_def split: option.splits if_splits)
qed (use that(1) in simp)

lemma delete_lun_inv:
  assumes "lun_inv s"
  shows "lun_inv (fst (delete_lun i s))"
proof (cases rule: delete_lun_cases [of i s])
  case (2 l)
  note l = 2(1) and st = 2(2) and a = 2(3) and r = 2(4)
  have ok: "lun_ok l" "l_id l = i" using lun_inv_get [OF assms l] by auto
  have "lun_ok (l\<lparr>l_status := ''deleting''\<rparr>)"
    using ok(1) a by (cases "l_assigned_node_id l") (auto simp: lun_ok_def LUN_STATUSES_def)
  then have "lun_inv (put_lun (l\<lparr>l_status := ''deleting''\<rparr>) s)"
    using no_task [OF assms l st] luns_ok_name [OF _ l] assms ok
    by (intro lun_inv_put [OF assms l]) (auto simp: same_slot_def lun_inv_def)
  moreover have "task_ok (save_row l_id (l\<lparr>l_status := ''deleting''\<rparr>) (ls_luns s)) (DeleteTask i)"
    using l ok(2) by (simp add: task_ok_def tab_simps)
  moreover have "DeleteTask i \<notin> set (ls_tasks s)" using no_task [OF assms l st] by force
  ultimately show ?thesis unfolding r by (auto simp: lun_inv_def put_lun_def)
qed (use assms in simp)

text \<open>Assigning and unassigning change the owner of a LUN with its status.\<close>

lemma owner_inv:
  assumes "lun_inv s" and "sql_get l_id i (ls_luns s) = Some l" and "l_status l \<notin> {''creating'', ''deleting''}"
    and "owner \<noteq> Some []" and "st = (if owner = None then ''ready'' else ''active'')"
  shows "lun_inv (put_lun (l\<lparr>l_assigned_node_id := owner, l_status := st\<rparr>) s)"
proof -
  have ok: "lun_ok l" "l_id l = i" using lun_inv_get [OF assms(1,2)] by auto
  then have "lun_ok (l\<lparr>l_assigned_node_id := owner, l_status := st\<rparr>)" using assms(4,5) by (auto simp: lun_ok_def LUN_STATUSES_def)
  then show ?thesis using no_task [OF assms(1-3)] luns_ok_name [OF _ assms(2)] assms(1) ok
    by (intro lun_inv_put [OF assms(1,2)]) (auto simp: same_slot_def lun_inv_def)
qed

lemma assign_lun_cases:
  obtains h where "fst (assign_lun env i n s) = s\<lparr>ls_log := h\<rparr>" and "\<exists>e. snd (assign_lun env i n s) = Inl e"
  | l node b h where "sql_get l_id i (ls_luns s) = Some l" and "l_status l \<in> {''ready'', ''active''}" and "\<not> truthy (l_assigned_node_id l)"
      and "sql_get n_id n (ls_nodes s) = Some node" and "lun_backend l s = Some b"
      and "grant_access env (iscsi_lun_service (be_config b)) (generate_initiator_iqn (n_mac_address node)) l (ls_log s) = (h, Inr ())"
      and "assign_lun env i n s = (put_lun (l\<lparr>l_assigned_node_id := Some n, l_status := ''active''\<rparr>) (s\<lparr>ls_log := h\<rparr>),
             from_lun (Some b) (Some node) (l\<lparr>l_assigned_node_id := Some n, l_status := ''active''\<rparr>))"
proof (cases "sql_get l_id i (ls_luns s)")
  case None
  then show ?thesis using that(1) [of "ls_log s"] by (simp add: assign_lun_def)
next
  case l: (Some l)
  show ?thesis
  proof (cases "l_status l \<notin> {''ready'', ''active''} \<or> truthy (l_assigned_node_id l) \<or> sql_get n_id n (ls_nodes s) = None \<or> lun_backend l s = None")
    case True
    then show ?thesis using that(1) [of "ls_log s"] l by (auto simp: assign_lun_def split: option.splits)
  next
    case False
    then obtain node b where nb: "sql_get n_id n (ls_nodes s) = Some node" "lun_backend l s = Some b" by auto
    obtain h r where g: "grant_access env (iscsi_lun_service (be_config b)) (generate_initiator_iqn (n_mac_address node)) l (ls_log s) = (h, r)"
      by force
    show ?thesis
    proof (cases r)
      case (Inl e)
      then have "assign_lun env i n s = (s\<lparr>ls_log := h\<rparr>, Inl e)" using l nb g False by (auto simp: assign_lun_def)
      then show ?thesis using that(1) [of h] by simp
    next
      case (Inr u)
      then have "assign_lun env i n s = (put_lun (l\<lparr>l_assigned_node_id := Some n, l_status := ''active''\<rparr>) (s\<lparr>ls_log := h\<rparr>),
             from_lun (Some b) (Some node) (l\<lparr>l_assigned_node_id := Some n, l_status := ''active''\<rparr>))"
        using l nb g False by (auto simp: assign_lun_def Let_def)
      then show ?thesis using that(2) [OF l _ _ nb, of h] g False Inr by simp
    qed
  qed
qed

lemma assign_lun_inv:
  assumes "lun_inv s"
  shows "lun_inv (fst (assign_lun env i n s))"
proof (cases rule: assign_lun_cases [of env i n s])
  case (2 l node b h)
  have "n \<noteq> []" using 2(4) assms by (auto simp: lun_inv_def dest!: sql_get_SomeD)
  then show ?thesis unfolding 2(7) fst_conv using assms 2(1,2) by (intro owner_inv [of _ i]) auto
qed (use assms in simp)

lemma unassign_lun_cases:
  obtains "fst (unassign_lun env i s) = s" and "\<exists>e. snd (unassign_lun env i s) = Inl e"
  | l h where "sql_get l_id i (ls_luns s) = Some l" and "truthy (l_assigned_node_id l)"
      and "fst (unassign_lun env i s) = put_lun (l\<lparr>l_assigned_node_id := None, l_status := ''ready''\<rparr>) (s\<lparr>ls_log := h\<rparr>)"
proof (cases "\<exists>l. sql_get l_id i (ls_luns s) = Some l \<and> truthy (l_assigned_node_id l)")
  case True
  then obtain l where l: "sql_get l_id i (ls_luns s) = Some l" "truthy (l_assigned_node_id l)" by blast
  show ?thesis
  proof (cases "sql_get n_id (the (l_assigned_node_id l)) (ls_nodes s) = None \<or> lun_backend l s = None")
    case True
    then show ?thesis using that(2) [OF l, of "ls_log s"] l by (auto simp: unassign_lun_def Let_def split: option.splits)
  next
    case False
    then show ?thesis using that(2) [OF l] l by (auto simp: unassign_lun_def Let_def)
  qed
qed (use that(1) in \<open>auto simp: unassign_lun_def split: option.splits\<close>)

lemma unassign_lun_inv:
  assumes "lun_inv s"
  shows "lun_inv (fst (unassign_lun env i s))"
proof (cases rule: unassign_lun_cases [of env i s])
  case (2 l h)
  have "l_status l = ''active''" using lun_inv_get [OF assms 2(1)] 2(2) by (cases "l_assigned_node_id l") (auto simp: lun_ok_def)
  then show ?thesis unfolding 2(3) using assms 2(1) by (intro owner_inv [of _ i]) auto
qed (use assms in simp)


text \<open>The tasks.\<close>

lemma provision_result:
  assumes "provision env sv l h = (h', Inr l')"
  shows "(\<exists>m. l' = failed_lun m l) \<or> l' = l\<lparr>l_status := ''ready'', l_error_message := None\<rparr>"
proof -
  obtain h1 ok1 m1 where e: "ensure_target_exists env sv h = (h1, (ok1, m1))" by (metis prod.collapse)
  obtain h2 r2 where b: "create_backingstore env sv (l_name l) (l_size_gb l) h1 = (h2, r2)" by force
  obtain h3 ok3 m3 where c: "service_create_lun env sv (l_name l) (l_lun_number l) h2 = (h3, (ok3, m3))" by (metis prod.collapse)
  obtain h4 r4 where d: "delete_backingstore env sv (l_name l) h3 = (h4, r4)" by force
  show ?thesis
    using assms by (auto simp: provision_def e b c d split: if_splits sum.splits bool.splits)
qed

lemma remaining_tasks:
  assumes "lun_inv s" and "t \<in> set (ls_tasks s)" and "x \<in> set (remove1 t (ls_tasks s))"
  shows "task_id x \<noteq> task_id t"
proof -
  have x: "x \<in> set (ls_tasks s)" "x \<noteq> t" using assms by (auto simp: lun_inv_def dest: notin_set_remove1)
  then have "task_ok (ls_luns s) x" "task_ok (ls_luns s) t" using assms by (auto simp: lun_inv_def)
  then show ?thesis using x(2) by (cases x; cases t) (auto simp: task_ok_def)
qed

lemma drop_task_inv: "lun_inv s \<Longrightarrow> lun_inv (s\<lparr>ls_tasks := remove1 t (ls_tasks s)\<rparr>)"
  by (auto simp: lun_inv_def dest: notin_set_remove1)

lemma finished_task_inv:
  assumes "lun_inv s" and "t \<in> set (ls_tasks s)" and l: "sql_get l_id (task_id t) (ls_luns s) = Some l"
    and "l' = failed_lun m l \<or> l' = l\<lparr>l_status := ''ready'', l_error_message := None\<rparr>"
  shows "lun_inv (put_lun l' (s\<lparr>ls_tasks := remove1 t (ls_tasks s), ls_log := h\<rparr>))"
proof -
  have ok: "lun_ok l" "l_id l = task_id t" using lun_inv_get [OF assms(1) l] by auto
  have "l_status l = task_status t" using assms(1,2) l by (auto simp: lun_inv_def task_ok_def)
  then have "l_status l \<noteq> ''active''" by (cases t) auto
  then have "lun_ok l'" using ok(1) assms(4) by (auto simp: lun_ok_def LUN_STATUSES_def failed_lun_def)
  moreover have "same_slot l l'" "l_name l' = l_name l" using assms(4) by (auto simp: same_slot_def failed_lun_def)
  ultimately show ?thesis
    using drop_task_inv [OF assms(1), of t] remaining_tasks [OF assms(1,2)] luns_ok_name [OF _ l] assms(1) l ok(2)
    by (intro lun_inv_put [of _ "task_id t" l]) (auto simp: lun_inv_def)
qed

lemma get_filter_other: "i \<noteq> j \<Longrightarrow> sql_get key i (filter (\<lambda>x. key x \<noteq> j) rs) = sql_get key i rs"
  by (induction rs) (auto simp: sql_get_def)

lemma removed_lun_inv:
  assumes "lun_inv s" and "t \<in> set (ls_tasks s)"
  shows "lun_inv (s\<lparr>ls_tasks := remove1 t (ls_tasks s), ls_luns := filter (\<lambda>x. l_id x \<noteq> task_id t) (ls_luns s), ls_log := h\<rparr>)"
proof -
  have "task_ok (filter (\<lambda>x. l_id x \<noteq> task_id t) (ls_luns s)) x" if x: "x \<in> set (remove1 t (ls_tasks s))" for x
  proof -
    have "task_ok (ls_luns s) x" using assms(1) notin_set_remove1 [of x "ls_tasks s" t] x by (auto simp: lun_inv_def)
    then show ?thesis using remaining_tasks [OF assms x] by (simp add: task_ok_def get_filter_other)
  qed
  then show ?thesis using drop_task_inv [OF assms(1), of t] by (auto simp: lun_inv_def luns_ok_filter)
qed

lemma create_background_cases:
  assumes "sql_get l_id i (ls_luns s) = Some l"
  obtains h l' m where "create_lun_background env i s = put_lun l' (s\<lparr>ls_log := h\<rparr>)"
    and "l' = failed_lun m l \<or> l' = l\<lparr>l_status := ''ready'', l_error_message := None\<rparr>"
proof (cases "lun_backend l s")
  case None
  then show ?thesis using that [of "failed_lun ''Backend not found'' l" "ls_log s" "''Backend not found''"] assms by (simp add: create_lun_background_def)
next
  case (Some b)
  obtain h r where p: "provision env (iscsi_lun_service (be_config b)) l (ls_log s) = (h, r)" by force
  show ?thesis
  proof (cases r)
    case (Inl e)
    then show ?thesis using that [of "failed_lun e l" h e] assms Some p by (simp add: create_lun_background_def)
  next
    case (Inr l')
    then obtain m where "l' = failed_lun m l \<or> l' = l\<lparr>l_status := ''ready'', l_error_message := None\<rparr>"
      using provision_result p by blast
    then show ?thesis using that [of l' h m] assms Some p Inr by (simp add: create_lun_background_def)
  qed
qed

lemma delete_background_cases:
  assumes "sql_get l_id i (ls_luns s) = Some l"
  obtains h where "delete_lun_background env i s = s\<lparr>ls_luns := filter (\<lambda>x. l_id x \<noteq> i) (ls_luns s), ls_log := h\<rparr>"
  | h m where "delete_lun_background env i s = put_lun (failed_lun m l) (s\<lparr>ls_log := h\<rparr>)"
proof (cases "lun_backend l s")
  case None
  then show ?thesis using that(1) [of "ls_log s"] assms by (simp add: delete_lun_background_def)
next
  case (Some b)
  obtain h r where p: "delete_backingstore env (iscsi_lun_service (be_config b)) (l_name l)
      (fst (service_delete_lun env (iscsi_lun_service (be_config b)) (l_lun_number l) (ls_log s))) = (h, r)" by force
  show ?thesis
  proof (cases r)
    case (Inl e)
    then show ?thesis using that(2) assms Some p by (auto simp: delete_lun_background_def Let_def)
  next
    case (Inr u)
    then show ?thesis using that(1) assms Some p by (simp add: delete_lun_background_def Let_def)
  qed
qed

lemma run_task_inv:
  assumes "lun_inv s" and t: "t \<in> set (ls_tasks s)"
  shows "lun_inv (run_task env t s)"
proof -
  obtain l where l: "sql_get l_id (task_id t) (ls_luns s) = Some l" using assms by (auto simp: lun_inv_def task_ok_def)
  let ?s = "s\<lparr>ls_tasks := remove1 t (ls_tasks s)\<rparr>"
  have l': "sql_get l_id (task_id t) (ls_luns ?s) = Some l" using l by simp
  show ?thesis
  proof (cases t)
    case (CreateTask i)
    obtain h l2 m where r: "create_lun_background env (task_id t) ?s = put_lun l2 (?s\<lparr>ls_log := h\<rparr>)"
        "l2 = failed_lun m l \<or> l2 = l\<lparr>l_status := ''ready'', l_error_message := None\<rparr>"
      by (rule create_background_cases [OF l', of env])
    then show ?thesis using finished_task_inv [OF assms l r(2), of h] CreateTask by simp
  next
    case (DeleteTask i)
    have e: "run_task env t s = delete_lun_background env (task_id t) ?s" using DeleteTask by simp
    show ?thesis unfolding e
    proof (cases rule: delete_background_cases [OF l', of env])
      case (1 h)
      then show "lun_inv (delete_lun_background env (task_id t) ?s)" using removed_lun_inv [OF assms, of h] by simp
    next
      case (2 h m)
      then show "lun_inv (delete_lun_background env (task_id t) ?s)"
        using finished_task_inv [OF assms l, of "failed_lun m l" m h] by simp
    qed
  qed
qed

lemma lun_step_inv: "lun_step env s s' \<Longrightarrow> lun_inv s \<Longrightarrow> lun_inv s'"
proof (induction rule: lun_step.induct)
  case (request s q)
  then show ?case
    by (cases q) (simp_all add: list_luns_def get_lun_def create_lun_inv update_lun_inv delete_lun_inv assign_lun_inv unassign_lun_inv
        split: option.splits)
next
  case (background t s)
  then show ?case using run_task_inv by blast
next
  case (restart s)
  then show ?case by (simp add: lun_inv_def)
qed

lemma lun_steps_inv: "(lun_step env)\<^sup>*\<^sup>* s s' \<Longrightarrow> lun_inv s \<Longrightarrow> lun_inv s'"
  by (induction rule: rtranclp_induct) (auto intro: lun_step_inv)

section \<open>Properties\<close>

text \<open>
  C36: After any requests, background tasks and restarts from a controller without LUNs: a LUN is active exactly
  if it has an owner, names and numbers identify it, and a backend never holds more than two LUNs.
\<close>

theorem lun_lifecycle_sound:
  assumes "ls_luns s = []" and "ls_tasks s = []" and "\<forall>n \<in> set (ls_nodes s). n_id n \<noteq> []" and "(lun_step env)\<^sup>*\<^sup>* s s'"
  shows "keys_unique l_name (ls_luns s')
    \<and> distinct (map l_lun_number (filter (\<lambda>l. l_backend_id l = b) (ls_luns s')))
    \<and> length (filter (\<lambda>l. l_backend_id l = b) (ls_luns s')) \<le> 2
    \<and> (\<forall>l \<in> set (ls_luns s'). l_status l = ''active'' \<longleftrightarrow> l_assigned_node_id l \<noteq> None)"
proof -
  have "lun_inv s" using assms(1-3) by (simp add: lun_inv_def luns_ok_def keys_unique_def slots_ok_def slots_def)
  from lun_steps_inv [OF assms(4) this] have ok: "luns_ok (ls_luns s')" by (simp add: lun_inv_def)
  have "distinct (slots (filter (\<lambda>l. l_backend_id l = b) (ls_luns s')))"
    using luns_ok_filter [OF ok] by (simp add: luns_ok_def slots_ok_def)
  moreover have "slots (filter (\<lambda>l. l_backend_id l = b) (ls_luns s')) = map (Pair b) (map l_lun_number (filter (\<lambda>l. l_backend_id l = b) (ls_luns s')))"
    by (simp add: slots_def)
  ultimately have "distinct (map l_lun_number (filter (\<lambda>l. l_backend_id l = b) (ls_luns s')))" by (metis distinct_map)
  moreover have "length (slots (filter (\<lambda>l. l_backend_id l = b) (ls_luns s'))) \<le> 2"
    using ok by (simp add: luns_ok_def slots_ok_def filter_slots [symmetric])
  ultimately show ?thesis using ok by (auto simp: luns_ok_def lun_ok_def slots_def)
qed

text \<open>The third LUN of a backend: the query for the last one finds two rows and raises.\<close>

theorem third_lun_impossible:
  assumes "validate_lun_name (lc_name body) = Some name" and "1 \<le> lc_size_gb body" and "lc_size_gb body \<le> 10000"
    and "lc_purpose body = ''boot_from_san''" and "sql_get be_id (lc_backend_id body) (fs_backends (ls_store s)) = Some b"
    and "be_type b = ''iscsi''" and "sql_get l_name name (ls_luns s) = None"
    and "2 \<le> length (filter (\<lambda>l. l_backend_id l = lc_backend_id body) (ls_luns s))"
  shows "create_lun env u d t body s = (s, Inl (Crash ''MultipleResultsFound''))"
proof -
  have "next_lun_number (lc_backend_id body) (ls_luns s) = Inl (Crash ''MultipleResultsFound'')"
    using assms(8) by (auto simp: next_lun_number_def split: list.splits)
  then show ?thesis using assms(1-7) by (simp add: create_lun_def)
qed

text \<open>A host where every command succeeds.\<close>

definition healthy_host :: "lun_env \<Rightarrow> bool" where
  "healthy_host env \<longleftrightarrow> (\<forall>h c. \<exists>out err. le_host env h c = Exited 0 out err)"

lemma healthy_run:
  assumes "healthy_host env"
  shows "\<exists>m. run_targetcli env a h = (h @ [Targetcli a], (True, m))"
proof -
  obtain out err where "le_host env h (Targetcli a) = Exited 0 out err" using assms unfolding healthy_host_def by blast
  then show ?thesis by (simp add: run_targetcli_def)
qed

lemma is_alnum_lower: "is_alnum c \<Longrightarrow> is_alnum (lower_char c)"
  by (auto simp: is_alnum_def lower_char_def Let_def)

lemma lower_char_alnum: "c = CHR ''-'' \<or> is_alnum c \<Longrightarrow> lower_char c = CHR ''-'' \<or> is_alnum (lower_char c)"
  using is_alnum_lower lower_char_dash by auto

lemma valid_name_safe:
  assumes "validate_lun_name v = Some n" and "length v \<le> 100"
  shows "validate_safe_name n"
proof -
  have v: "2 \<le> length v" "list_all (\<lambda>c. is_alnum c \<or> c = CHR ''-'') v" "\<not> startswith v ''-''" "\<not> endswith v ''-''" "n = lower v"
    using assms(1) by (auto simp: validate_lun_name_def split: if_splits)
  have ne: "v \<noteq> []" using v(1) by auto
  have all: "list_all (\<lambda>c. is_alnum c \<or> c = CHR ''-'') n"
    using v(2) lower_char_alnum by (auto simp: v(5) lower_def list_all_iff)
  have ends: "hd v \<noteq> CHR ''-''" using v(3) ne by (cases v) (simp_all add: startswith_def)
  moreover have "last v \<noteq> CHR ''-''" using v(4) ne by (cases v rule: rev_cases) (simp_all add: endswith_def)
  moreover have "hd v \<in> set v" "last v \<in> set v" using ne by auto
  ultimately have "is_alnum (hd v)" "is_alnum (last v)" using v(2) by (auto simp: list_all_iff)
  then have e: "is_alnum (hd n)" "is_alnum (last n)" using ne by (simp_all add: v(5) lower_def hd_map last_map is_alnum_lower)
  then have "strip_newline n = n" by (auto simp: strip_newline_def is_alnum_def)
  then show ?thesis using all e ne assms(2) v(5) by (simp add: validate_safe_name_def Let_def lower_def)
qed

lemma run_targetcli_fst [simp]: "fst (run_targetcli env a h) = h @ [Targetcli a]"
  by (simp add: run_targetcli_def)

lemma ensure_target_healthy:
  assumes "healthy_host env"
  shows "\<exists>h' m. ensure_target_exists env sv h = (h @ h', (True, m))"
proof -
  have ok: "fst (snd (run_targetcli env a h))" for a h using healthy_run [OF assms, of a h] by auto
  have "fst (snd (ensure_target_exists env sv h))"
    by (simp add: ensure_target_exists_def save_config_def Let_def split_beta ok)
  moreover have "\<exists>h'. fst (ensure_target_exists env sv h) = h @ h'"
    by (simp add: ensure_target_exists_def save_config_def Let_def split_beta)
  ultimately show ?thesis by (metis (full_types) prod.collapse)
qed

text \<open>No configuration the backend routes store has the fields the service reads.\<close>

lemma service_defaults [simp]:
  "iscsi_lun_service (IscsiTargetConfig target) =
     \<lparr>sv_target_name = ''iqn.2026-01.local.pureboot:target1'', sv_portal_ip = ''0.0.0.0'', sv_portal_port = ''3260'',
      sv_backingstore_type = ''file'', sv_backingstore_path = ''/var/lib/pureboot/luns''\<rparr>"
  by (simp add: iscsi_lun_service_def)

definition lun_commands :: "lun \<Rightarrow> command list" where
  "lun_commands l =
     [Makedirs ''/var/lib/pureboot/luns'',
      Targetcli (''/backstores/fileio create '' @ l_name l @ '' /var/lib/pureboot/luns/'' @ l_name l @ ''.img '' @ show_int (l_size_gb l) @ ''G sparse=true''),
      Targetcli (''/iscsi/iqn.2026-01.local.pureboot:target1/tpg1/luns create /backstores/fileio/'' @ l_name l @ '' lun='' @ show_int (l_lun_number l)),
      Targetcli ''saveconfig'']"

lemma provision_healthy:
  assumes "healthy_host env" and "validate_safe_name (l_name l)"
  shows "\<exists>h'. provision env (iscsi_lun_service (IscsiTargetConfig target)) l h = (h @ h' @ lun_commands l, Inr (l\<lparr>l_status := ''ready'', l_error_message := None\<rparr>))"
proof -
  let ?sv = "iscsi_lun_service (IscsiTargetConfig target)"
  obtain h1 m1 where e: "ensure_target_exists env ?sv h = (h @ h1, (True, m1))" using ensure_target_healthy [OF assms(1)] by blast
  obtain out err where mk: "le_host env (h @ h1) (Makedirs ''/var/lib/pureboot/luns'') = Exited 0 out err" using assms(1) unfolding healthy_host_def by blast
  obtain m2 where b: "create_backingstore env ?sv (l_name l) (l_size_gb l) (h @ h1) = (h @ h1 @ take 2 (lun_commands l), Inr (True, m2))"
    using assms(2) mk healthy_run [OF assms(1), of "''/backstores/fileio create '' @ l_name l @ '' /var/lib/pureboot/luns/'' @ l_name l @ ''.img ''
        @ show_int (l_size_gb l) @ ''G sparse=true''" "h @ h1 @ [Makedirs ''/var/lib/pureboot/luns'']"]
    by (auto simp: create_backingstore_def Let_def lun_commands_def)
  obtain m3 where c: "service_create_lun env ?sv (l_name l) (l_lun_number l) (h @ h1 @ take 2 (lun_commands l)) = (h @ h1 @ take 3 (lun_commands l), (True, m3))"
    using assms(2) healthy_run [OF assms(1), of "''/iscsi/iqn.2026-01.local.pureboot:target1/tpg1/luns create /backstores/fileio/'' @ l_name l
        @ '' lun='' @ show_int (l_lun_number l)" "h @ h1 @ take 2 (lun_commands l)"]
    by (auto simp: service_create_lun_def tpg1_def lun_commands_def)
  have "fst (save_config env (h @ h1 @ take 3 (lun_commands l))) = h @ h1 @ lun_commands l"
    by (simp add: save_config_def run_targetcli_def lun_commands_def)
  then show ?thesis unfolding provision_def e by (simp add: b c del: service_defaults)
qed

text \<open>C37: On a host where every command succeeds a created LUN becomes ready, and its commands were given.\<close>

theorem lun_provisioned:
  assumes "lun_inv s" and "store_ok (ls_store s)" and "healthy_host env" and "create_lun env u d t body s = (s1, Inr r)" and "length (lc_name body) \<le> 100"
  shows "\<exists>l h. sql_get l_id u (ls_luns (run_task env (CreateTask u) s1)) = Some l \<and> l_status l = ''ready'' \<and> l_name l = lower (lc_name body)
           \<and> ls_log (run_task env (CreateTask u) s1) = ls_log s @ h @ lun_commands l"
proof (cases rule: create_lun_cases [of env u d t body s])
  case (2 l b)
  then have s1: "s1 = s\<lparr>ls_luns := ls_luns s @ [l], ls_tasks := ls_tasks s @ [CreateTask u]\<rparr>" using assms(4) by simp
  have get: "sql_get l_id u (ls_luns s @ [l]) = Some l" using 2(3,10) by (auto simp: insert_lun_def tab_simps split: if_splits)
  have "b \<in> set (fs_backends (ls_store s))" using 2(5) by (auto dest: sql_get_SomeD)
  then have "config_fits (be_config b) ''iscsi''" using assms(2) 2(6) by (auto simp: store_ok_def tables_ok_def)
  then obtain target where cfg: "be_config b = IscsiTargetConfig target" by (cases "be_config b") auto
  obtain h where p: "provision env (iscsi_lun_service (IscsiTargetConfig target)) l (ls_log s) =
      (ls_log s @ h @ lun_commands l, Inr (l\<lparr>l_status := ''ready'', l_error_message := None\<rparr>))"
    using provision_healthy [OF assms(3) valid_name_safe [OF 2(7) assms(5)]] by blast
  have be: "lun_backend l (s1\<lparr>ls_tasks := ts\<rparr>) = Some b" for ts using 2(5) by (simp add: lun_backend_def s1)
  have "run_task env (CreateTask u) s1 = put_lun (l\<lparr>l_status := ''ready'', l_error_message := None\<rparr>)
      (s1\<lparr>ls_tasks := remove1 (CreateTask u) (ls_tasks s1), ls_log := ls_log s @ h @ lun_commands l\<rparr>)"
    using get be p cfg by (simp add: create_lun_background_def s1 del: service_defaults)
  moreover have "l_name l = lower (lc_name body)" using 2(7) by (auto simp: validate_lun_name_def split: if_splits)
  ultimately show ?thesis using get 2(10)
    by (auto simp: put_lun_def tab_simps s1 lun_commands_def)
qed (use assms(4) in auto)

text \<open>A LUN in creation without a task.\<close>

definition stranded :: "string \<Rightarrow> lun \<Rightarrow> lun_state \<Rightarrow> bool" where
  "stranded i l s \<longleftrightarrow> lun_inv s \<and> sql_get l_id i (ls_luns s) = Some l \<and> l_status l = ''creating'' \<and> CreateTask i \<notin> set (ls_tasks s)"

lemma put_lun_other [simp]: "l_id l' \<noteq> i \<Longrightarrow> sql_get l_id i (ls_luns (put_lun l' s)) = sql_get l_id i (ls_luns s)"
  by (auto simp: put_lun_def tab_simps)

lemma put_lun_tasks [simp]: "ls_tasks (put_lun l' s) = ls_tasks s"
  by (simp add: put_lun_def)

text \<open>A step keeps the row if it leaves the rows of other statuses alone and starts no creation of it.\<close>

lemma stranded_request:
  assumes "stranded i l s"
  shows "sql_get l_id i (ls_luns (perform_lun env q s)) = Some l \<and> CreateTask i \<notin> set (ls_tasks (perform_lun env q s))"
proof -
  have s: "lun_inv s" "sql_get l_id i (ls_luns s) = Some l" "l_status l = ''creating''" "CreateTask i \<notin> set (ls_tasks s)"
    using assms by (auto simp: stranded_def)
  have other: "l_id k = j \<and> j \<noteq> i" if "sql_get l_id j (ls_luns s) = Some k" "l_status k \<noteq> ''creating''" for j k
    using that s lun_inv_get [OF s(1) that(1)] by auto
  show ?thesis
  proof (cases q)
    case (CreateLun u d t body)
    show ?thesis
    proof (cases rule: create_lun_cases [of env u d t body s])
      case (2 k b)
      have "u \<noteq> i" using 2(3,10) s(2) by (auto simp: insert_lun_def sql_get_None_iff [symmetric] split: if_splits)
      moreover have "sql_get l_id i (ls_luns s @ [k]) = Some l" using s(2) by (simp add: sql_get_def find_append)
      ultimately show ?thesis using CreateLun 2(1) s by simp
    qed (use CreateLun s in simp)
  next
    case (UpdateLun d t j n c)
    show ?thesis
    proof (cases rule: update_lun_cases [of env d t j n c s])
      case (2 k name)
      then have "l_id (with_chap env d t c (with_name name k)) \<noteq> i" using other [OF 2(1)] by auto
      then show ?thesis using UpdateLun 2(4) s by simp
    qed (use UpdateLun s in simp)
  next
    case (DeleteLun j)
    show ?thesis
    proof (cases rule: delete_lun_cases [of j s])
      case (2 k)
      then have "l_id (k\<lparr>l_status := ''deleting''\<rparr>) \<noteq> i" using other [OF 2(1)] by auto
      then show ?thesis using DeleteLun 2(4) s by simp
    qed (use DeleteLun s in simp)
  next
    case (AssignLun j n)
    show ?thesis
    proof (cases rule: assign_lun_cases [of env j n s])
      case (2 k node b h)
      then have "l_id k \<noteq> i" using other [OF 2(1)] by auto
      then show ?thesis using AssignLun 2(7) s by simp
    qed (use AssignLun s in simp)
  next
    case (UnassignLun j)
    show ?thesis
    proof (cases rule: unassign_lun_cases [of env j s])
      case (2 k h)
      have "l_status k = ''active''" using lun_inv_get [OF s(1) 2(1)] 2(2) by (cases "l_assigned_node_id k") (auto simp: lun_ok_def)
      then have "l_id k \<noteq> i" using other [OF 2(1)] by auto
      then show ?thesis using UnassignLun 2(3) s by simp
    qed (use UnassignLun s in simp)
  qed (use s in \<open>simp_all add: list_luns_def get_lun_def split: option.splits\<close>)
qed

lemma stranded_task:
  assumes "stranded i l s" and t: "t \<in> set (ls_tasks s)"
  shows "sql_get l_id i (ls_luns (run_task env t s)) = Some l \<and> set (ls_tasks (run_task env t s)) \<subseteq> set (ls_tasks s)"
proof -
  have s: "lun_inv s" "sql_get l_id i (ls_luns s) = Some l" "l_status l = ''creating''" "CreateTask i \<notin> set (ls_tasks s)"
    using assms by (auto simp: stranded_def)
  obtain k where k: "sql_get l_id (task_id t) (ls_luns s) = Some k" "l_status k = task_status t"
    using s(1) t by (auto simp: lun_inv_def task_ok_def)
  have ne: "task_id t \<noteq> i" using k s t by (cases t) auto
  then have kid: "l_id k \<noteq> i" using lun_inv_get [OF s(1) k(1)] by auto
  let ?s = "s\<lparr>ls_tasks := remove1 t (ls_tasks s)\<rparr>"
  have k': "sql_get l_id (task_id t) (ls_luns ?s) = Some k" using k by simp
  have sub: "set (remove1 t (ls_tasks s)) \<subseteq> set (ls_tasks s)" by (rule set_remove1_subset)
  show ?thesis
  proof (cases t)
    case (CreateTask j)
    obtain h l2 m where r: "create_lun_background env (task_id t) ?s = put_lun l2 (?s\<lparr>ls_log := h\<rparr>)"
        "l2 = failed_lun m k \<or> l2 = k\<lparr>l_status := ''ready'', l_error_message := None\<rparr>"
      by (rule create_background_cases [OF k', of env])
    then have "l_id l2 \<noteq> i" using kid by (auto simp: failed_lun_def)
    then show ?thesis using r(1) CreateTask s(2) sub by simp
  next
    case (DeleteTask j)
    have e: "run_task env t s = delete_lun_background env (task_id t) ?s" using DeleteTask by simp
    show ?thesis
    proof (cases rule: delete_background_cases [OF k', of env])
      case (1 h)
      then show ?thesis unfolding e using ne s(2) sub by (simp add: get_filter_other)
    next
      case (2 h m)
      then show ?thesis unfolding e using kid s(2) sub by (simp add: failed_lun_def)
    qed
  qed
qed

lemma stranded_step:
  assumes "lun_step env s s'" and "stranded i l s"
  shows "stranded i l s'"
  using assms(1)
proof cases
  case (request q)
  then show ?thesis using stranded_request [OF assms(2), of env q] lun_step_inv [OF assms(1)] assms(2) by (simp add: stranded_def)
next
  case (background t)
  then show ?thesis using stranded_task [OF assms(2), of t env] lun_step_inv [OF assms(1)] assms(2) by (auto simp: stranded_def)
next
  case restart
  then show ?thesis using lun_step_inv [OF assms(1)] assms(2) by (simp add: stranded_def)
qed

text \<open>
  A restart forgets the tasks. A LUN whose creation was forgotten keeps its row for ever: no route
  changes, deletes or assigns it.
\<close>

theorem restart_strands_lun:
  assumes "lun_inv s" and "sql_get l_id i (ls_luns s) = Some l" and "l_status l = ''creating''"
    and "(lun_step env)\<^sup>*\<^sup>* (s\<lparr>ls_tasks := []\<rparr>) s'"
  shows "sql_get l_id i (ls_luns s') = Some l"
proof -
  have "stranded i l (s\<lparr>ls_tasks := []\<rparr>)" using assms(1-3) by (simp add: stranded_def) (simp add: lun_inv_def)
  with assms(4) have "stranded i l s'" by (induction rule: rtranclp_induct) (auto intro: stranded_step)
  then show ?thesis by (simp add: stranded_def)
qed

text \<open>The access list entry belongs to the node: unassigning one LUN takes the other one of the node away too.\<close>

theorem unassign_revokes_both:
  assumes "sql_get l_id i (ls_luns s) = Some l" and "sql_get l_id j (ls_luns s) = Some k" and "i \<noteq> j"
    and "l_backend_id k = l_backend_id l" and "l_assigned_node_id l = Some n" and "l_assigned_node_id k = Some n" and "n \<noteq> []"
    and "sql_get n_id n (ls_nodes s) = Some node" and "lun_backend l s = Some b"
    and "sv = iscsi_lun_service (be_config b)" and "iqn = generate_initiator_iqn (n_mac_address node)"
  shows "sql_get l_id j (ls_luns (fst (unassign_lun env i s))) = Some k
    \<and> ls_log (fst (unassign_lun env i s)) = ls_log s @ [Targetcli (tpg1 sv @ ''/acls delete '' @ iqn), Targetcli ''saveconfig'']
    \<and> Targetcli (tpg1 sv @ ''/acls create '' @ iqn) \<in> set (fst (grant_access env sv iqn k h))"
proof -
  have id: "l_id l = i" using assms(1) by (auto dest: sql_get_SomeD)
  have "sql_get l_id j (ls_luns (fst (unassign_lun env i s))) = Some k"
    using assms(1-3,5,7-9) id by (simp add: unassign_lun_def Let_def)
  moreover have "ls_log (fst (unassign_lun env i s)) = ls_log s @ [Targetcli (tpg1 sv @ ''/acls delete '' @ iqn), Targetcli ''saveconfig'']"
    using assms(1,5,7-11) by (simp add: unassign_lun_def Let_def put_lun_def delete_acl_def save_config_def)
  moreover have "Targetcli (tpg1 sv @ ''/acls create '' @ iqn) \<in> set (fst (grant_access env sv iqn k h))"
    by (auto simp: grant_access_def create_acl_def set_chap_def save_config_def delete_acl_def Let_def split_beta split: option.splits)
  ultimately show ?thesis by blast
qed

text \<open>Whatever targetcli answers, the deletion of a LUN on a file backing store ends with its row removed.\<close>

lemma deletion_forgets_lun:
  assumes "sql_get l_id i (ls_luns s) = Some l" and "lun_backend l s = Some b" and "be_config b = IscsiTargetConfig target"
  shows "sql_get l_id i (ls_luns (run_task env (DeleteTask i) s)) = None"
proof -
  have "\<exists>h' r. delete_backingstore env (iscsi_lun_service (be_config b)) nm h = (h', Inr r)" for nm h
    unfolding assms(3) by (auto simp: delete_backingstore_def split: prod.splits bool.splits)
  then obtain h' r where "delete_backingstore env (iscsi_lun_service (be_config b)) (l_name l)
      (fst (service_delete_lun env (iscsi_lun_service (be_config b)) (l_lun_number l) (ls_log s))) = (h', Inr r)" by blast
  then have "ls_luns (run_task env (DeleteTask i) s) = filter (\<lambda>x. l_id x \<noteq> i) (ls_luns s)"
    using assms(1,2) by (simp add: delete_lun_background_def lun_backend_def Let_def del: service_defaults)
  then show ?thesis by (auto simp: sql_get_None_iff)
qed

text \<open>Reading a LUN back never works: its backend is not loaded in the session of these handlers.\<close>

lemma luns_unreadable:
  "ls_luns s \<noteq> [] \<Longrightarrow> snd (list_luns None None None s) = Inl (Crash ''MissingGreenlet'')"
  "sql_get l_id i (ls_luns s) = Some l \<Longrightarrow> snd (get_lun i s) = Inl (Crash ''MissingGreenlet'')"
  by (cases "ls_luns s") (simp_all add: list_luns_def get_lun_def from_lun_def)

section \<open>Examples\<close>

definition demo_lun_env :: lun_env where
  "demo_lun_env = \<lparr>le_host = (\<lambda>h c. Exited 0 [] []), le_encrypt = (\<lambda>t p. t @ p), le_decrypt = (\<lambda>e. Some e)\<rparr>"

definition san_store :: store where
  "san_store = demo_store\<lparr>fs_backends := [demo_backend\<lparr>be_type := ''iscsi'', be_config := IscsiTargetConfig ''iqn.x''\<rparr>]\<rparr>"

definition demo_luns :: lun_state where
  "demo_luns = \<lparr>ls_luns = [], ls_store = san_store, ls_nodes = [new_node ''n'' ''aa:bb''], ls_log = [], ls_tasks = []\<rparr>"

definition demo_lun_body :: lun_create where
  "demo_lun_body = \<lparr>lc_name = ''Disk-1'', lc_size_gb = 20, lc_backend_id = ''b'', lc_purpose = ''boot_from_san'', lc_chap_enabled = False\<rparr>"

definition demo_created :: lun_state where
  "demo_created = fst (create_lun demo_lun_env ''u'' id ''t'' demo_lun_body demo_luns)"

lemma demo_luns_inv: "lun_inv demo_luns" "store_ok (ls_store demo_luns)"
  using demo_store_ok by (simp_all add: demo_luns_def san_store_def lun_inv_def luns_ok_def keys_unique_def slots_ok_def slots_def new_node_def
      store_ok_def tables_ok_def shares_ok_def)

lemma demo_created_facts:
  "map l_name (ls_luns demo_created) = [''disk-1'']" "ls_tasks demo_created = [CreateTask ''u'']"
  "map_option l_status (sql_get l_id ''u'' (ls_luns demo_created)) = Some ''creating''"
  by code_simp+

lemma demo_created_steps: "(lun_step demo_lun_env)\<^sup>*\<^sup>* demo_luns demo_created"
  using lun_step.request [of demo_lun_env demo_luns "CreateLun ''u'' id ''t'' demo_lun_body"] by (auto simp: demo_created_def)

theorem lun_lifecycle_sound_witness:
  "length (ls_luns demo_created) = 1 \<and> keys_unique l_name (ls_luns demo_created)
    \<and> length (filter (\<lambda>l. l_backend_id l = ''b'') (ls_luns demo_created)) \<le> 2"
  using lun_lifecycle_sound [OF _ _ _ demo_created_steps, of "''b''"] demo_created_facts(1)
  by (auto simp: demo_luns_def new_node_def dest: arg_cong [of _ _ length])

theorem lun_provisioned_witness:
  "\<exists>l. sql_get l_id ''u'' (ls_luns (run_task demo_lun_env (CreateTask ''u'') demo_created)) = Some l \<and> l_status l = ''ready'' \<and> l_name l = ''disk-1''"
proof -
  have "isl (snd (create_lun demo_lun_env ''u'' id ''t'' demo_lun_body demo_luns)) = False" by code_simp
  then obtain r where r: "create_lun demo_lun_env ''u'' id ''t'' demo_lun_body demo_luns = (demo_created, Inr r)"
    unfolding demo_created_def by (metis isl_def prod.collapse sum.exhaust)
  have "healthy_host demo_lun_env" by (simp add: healthy_host_def demo_lun_env_def)
  moreover have "length (lc_name demo_lun_body) \<le> 100" "lower (lc_name demo_lun_body) = ''disk-1''" by code_simp+
  ultimately show ?thesis using lun_provisioned [OF demo_luns_inv _ r] by auto
qed

theorem restart_strands_lun_witness:
  "\<exists>l. sql_get l_id ''u'' (ls_luns (fst (delete_lun ''u'' (demo_created\<lparr>ls_tasks := []\<rparr>)))) = Some l \<and> l_status l = ''creating''"
proof -
  obtain l where l: "sql_get l_id ''u'' (ls_luns demo_created) = Some l" "l_status l = ''creating''" using demo_created_facts(3) by auto
  have "lun_inv demo_created" using lun_steps_inv [OF demo_created_steps demo_luns_inv(1)] .
  from restart_strands_lun [OF this l, of demo_lun_env]
  show ?thesis using lun_step.request [of demo_lun_env "demo_created\<lparr>ls_tasks := []\<rparr>" "DeleteLun ''u''"] l(2) by auto
qed

theorem third_lun_impossible_witness:
  "snd (create_lun demo_lun_env ''w'' id ''t'' (demo_lun_body\<lparr>lc_name := ''c3''\<rparr>)
     (fst (create_lun demo_lun_env ''v'' id ''t'' (demo_lun_body\<lparr>lc_name := ''b2''\<rparr>) demo_created))) = Inl (Crash ''MultipleResultsFound'')"
proof -
  let ?s = "fst (create_lun demo_lun_env ''v'' id ''t'' (demo_lun_body\<lparr>lc_name := ''b2''\<rparr>) demo_created)"
  have f: "validate_lun_name ''c3'' = Some ''c3'' \<and> sql_get l_name ''c3'' (ls_luns ?s) = None
      \<and> length (filter (\<lambda>l. l_backend_id l = ''b'') (ls_luns ?s)) = 2
      \<and> map_option be_type (sql_get be_id ''b'' (fs_backends (ls_store ?s))) = Some ''iscsi''" by code_simp
  then obtain b where "sql_get be_id ''b'' (fs_backends (ls_store ?s)) = Some b" "be_type b = ''iscsi''" by auto
  then show ?thesis
    using f third_lun_impossible [of "demo_lun_body\<lparr>lc_name := ''c3''\<rparr>" "''c3''" ?s b demo_lun_env "''w''" id "''t''"]
    by (simp add: demo_lun_body_def)
qed

definition shared_luns :: lun_state where
  "shared_luns = fst (assign_lun demo_lun_env ''v'' ''n'' (fst (assign_lun demo_lun_env ''u'' ''n'' (run_task demo_lun_env (CreateTask ''v'')
     (run_task demo_lun_env (CreateTask ''u'') (fst (create_lun demo_lun_env ''v'' id ''t'' (demo_lun_body\<lparr>lc_name := ''b2''\<rparr>) demo_created)))))))"

theorem unassign_revokes_both_witness:
  "map_option l_status (sql_get l_id ''v'' (ls_luns (fst (unassign_lun demo_lun_env ''u'' shared_luns)))) = Some ''active''
    \<and> last (butlast (ls_log (fst (unassign_lun demo_lun_env ''u'' shared_luns)))) =
        Targetcli ''/iscsi/iqn.2026-01.local.pureboot:target1/tpg1/acls delete iqn.2026-01.local.pureboot:node:aabb''"
proof -
  have f: "map_option (\<lambda>l. (l_backend_id l, l_assigned_node_id l, l_status l)) (sql_get l_id ''u'' (ls_luns shared_luns)) = Some (''b'', Some ''n'', ''active'')
      \<and> map_option (\<lambda>l. (l_backend_id l, l_assigned_node_id l, l_status l)) (sql_get l_id ''v'' (ls_luns shared_luns)) = Some (''b'', Some ''n'', ''active'')
      \<and> map_option n_mac_address (sql_get n_id ''n'' (ls_nodes shared_luns)) = Some ''aa:bb''
      \<and> map_option (\<lambda>b. tpg1 (iscsi_lun_service (be_config b))) (sql_get be_id ''b'' (fs_backends (ls_store shared_luns)))
          = Some ''/iscsi/iqn.2026-01.local.pureboot:target1/tpg1''
      \<and> generate_initiator_iqn ''aa:bb'' = ''iqn.2026-01.local.pureboot:node:aabb''" by code_simp
  then obtain l k node b where "sql_get l_id ''u'' (ls_luns shared_luns) = Some l" "sql_get l_id ''v'' (ls_luns shared_luns) = Some k"
    "l_backend_id k = l_backend_id l" "l_assigned_node_id l = Some ''n''" "l_assigned_node_id k = Some ''n''"
    "sql_get n_id ''n'' (ls_nodes shared_luns) = Some node" "lun_backend l shared_luns = Some b" "l_status k = ''active''"
    "n_mac_address node = ''aa:bb''" "tpg1 (iscsi_lun_service (be_config b)) = ''/iscsi/iqn.2026-01.local.pureboot:target1/tpg1''"
    by (auto simp: lun_backend_def)
  then show ?thesis
    using unassign_revokes_both [of "''u''" shared_luns l "''v''" k "''n''" node b _ _ demo_lun_env] f by (simp add: butlast_append)
qed

end
