(* ===== verification/SyncJobs.thy ===== *)
theory SyncJobs
  imports FileRoutes
begin

text \<open>
  Synchronisation jobs: their routes (src/src/api/routes/sync_jobs.py), the scheduler around APScheduler
  (src/src/core/scheduler.py), the service that runs rsync (src/src/core/sync.py) and the registration of
  jobs at start-up (src/src/main.py).

  A run of a job has two steps: it gets a place of the semaphore and starts rsync, and rsync ends
  with the lines it has printed, its exit code and the files it has written. Requests, triggers
  and restarts of the controller may come in between. APScheduler's choice of the next time of a
  trigger and of an id for a job without one are arguments. Progress messages to browsers are left
  out, and so are the times of creation and update of a job.
\<close>

section \<open>Scheduler\<close>

datatype trigger = Hourly | Daily int int | Weekly "int option" int int | Monthly "int option" int int

record sched =
  sc_id :: string
  sc_arg :: "string option"
  sc_trigger :: trigger

text \<open>\<open>hour, minute = map(int, schedule_time.split(":"))\<close>\<close>

definition parse_time :: "string option \<Rightarrow> api_error + int \<times> int" where
  "parse_time schedule_time =
     (if \<not> truthy schedule_time then Inr (0, 0)
      else case split_on (CHR '':'') (the schedule_time) of
        [h, m] \<Rightarrow> (case (parse_int h, parse_int m) of (Inr hour, Inr minute) \<Rightarrow> Inr (hour, minute) | _ \<Rightarrow> Inl (Crash ''ValueError''))
      | _ \<Rightarrow> Inl (Crash ''ValueError''))"

text \<open>A cron field that is \<open>None\<close> matches always; a value out of its range is refused.\<close>

definition cron_field :: "int \<Rightarrow> int \<Rightarrow> int option \<Rightarrow> bool" where
  "cron_field lo hi v = (case v of None \<Rightarrow> True | Some n \<Rightarrow> lo \<le> n \<and> n \<le> hi)"

definition build_trigger :: "string \<Rightarrow> int option \<Rightarrow> string option \<Rightarrow> api_error + trigger option" where
  "build_trigger schedule schedule_day schedule_time =
     ebind (parse_time schedule_time) (\<lambda>(hour, minute).
       let time_ok = (0 \<le> hour \<and> hour \<le> 23 \<and> 0 \<le> minute \<and> minute \<le> 59) in
       if schedule = ''hourly'' then Inr (Some Hourly)
       else if schedule = ''daily'' then (if time_ok then Inr (Some (Daily hour minute)) else Inl (Crash ''ValueError''))
       else if schedule = ''weekly'' then
         (if time_ok \<and> cron_field 0 6 schedule_day then Inr (Some (Weekly schedule_day hour minute)) else Inl (Crash ''ValueError''))
       else if schedule = ''monthly'' then
         (if time_ok \<and> cron_field 1 31 schedule_day then Inr (Some (Monthly schedule_day hour minute)) else Inl (Crash ''ValueError''))
       else Inr None)"

definition remove_sched :: "string option \<Rightarrow> sched list \<Rightarrow> sched list" where
  "remove_sched job_id sch = filter (\<lambda>e. Some (sc_id e) \<noteq> job_id) sch"

text \<open>
  An entry without an id gets a drawn one. The result is the time of the next run; the old entry is
  removed before anything can be refused.
\<close>

definition schedule_job ::
    "(trigger \<Rightarrow> datetime) \<Rightarrow> string \<Rightarrow> string option \<Rightarrow> string \<Rightarrow> int option \<Rightarrow> string option \<Rightarrow> sched list
     \<Rightarrow> sched list \<times> (api_error + datetime option)" where
  "schedule_job next_time drawn job_id schedule schedule_day schedule_time sch =
     (let sch = remove_sched job_id sch in
      if schedule = ''manual'' then (sch, Inr None)
      else case build_trigger schedule schedule_day schedule_time of
        Inl e \<Rightarrow> (sch, Inl e)
      | Inr None \<Rightarrow> (sch, Inr None)
      | Inr (Some tr) \<Rightarrow>
          let i = set_or job_id drawn
          in (filter (\<lambda>e. sc_id e \<noteq> i) sch @ [\<lparr>sc_id = i, sc_arg = job_id, sc_trigger = tr\<rparr>], Inr (Some (next_time tr))))"

definition get_next_run_time :: "(trigger \<Rightarrow> datetime) \<Rightarrow> string \<Rightarrow> sched list \<Rightarrow> datetime option" where
  "get_next_run_time next_time job_id sch = map_option (\<lambda>e. next_time (sc_trigger e)) (sql_get sc_id job_id sch)"

section \<open>State\<close>

record sync_job =
  j_id :: string
  j_name :: string
  j_source_url :: string
  j_destination_backend_id :: string
  j_destination_path :: string
  j_include_pattern :: "string option"
  j_exclude_pattern :: "string option"
  j_schedule :: string
  j_schedule_day :: "int option"
  j_schedule_time :: "string option"
  j_verify_checksums :: bool
  j_delete_removed :: bool
  j_keep_versions :: int
  j_status :: string
  j_last_run_at :: "datetime option"
  j_last_error :: "string option"
  j_next_run_at :: "datetime option"

record sync_run =
  r_id :: string
  r_job_id :: string
  r_started_at :: datetime
  r_completed_at :: "datetime option"
  r_status :: string
  r_files_synced :: int
  r_bytes_transferred :: int
  r_current_file :: "string option"
  r_progress_percent :: int
  r_error :: "string option"

text \<open>
  In memory are the entries of the scheduler, the times of the last manual runs (in microseconds of
  the event loop), the runs that wait for the semaphore, the runs that hold it, and the processes
  by job. A run keeps the row of its job as it was when it was started, and the name of its version.
\<close>

record sync_world =
  sy_jobs :: "sync_job list"
  sy_runs :: "sync_run list"
  sy_store :: store
  sy_sched :: "sched list"
  sy_manual :: "(string \<times> int) list"
  sy_waiting :: "(sync_job \<times> string) list"
  sy_active :: "(sync_job \<times> string \<times> string) list"
  sy_procs :: "(string \<times> string) list"

type_synonym 'a in_sync = "sync_world \<times> (api_error + 'a)"

definition put_job :: "sync_job \<Rightarrow> sync_world \<Rightarrow> sync_world" where
  "put_job j s = s\<lparr>sy_jobs := save_row j_id j (sy_jobs s)\<rparr>"

definition put_run :: "sync_run \<Rightarrow> sync_world \<Rightarrow> sync_world" where
  "put_run r s = s\<lparr>sy_runs := save_row r_id r (sy_runs s)\<rparr>"

definition job_backend :: "sync_job \<Rightarrow> sync_world \<Rightarrow> backend option" where
  "job_backend j s = sql_get be_id (j_destination_backend_id j) (fs_backends (sy_store s))"

section \<open>Request bodies\<close>

record job_create =
  jc_name :: string
  jc_source_url :: string
  jc_destination_backend_id :: string
  jc_destination_path :: string
  jc_include_pattern :: "string option"
  jc_exclude_pattern :: "string option"
  jc_schedule :: string
  jc_schedule_day :: "int option"
  jc_schedule_time :: "string option"
  jc_verify_checksums :: bool
  jc_delete_removed :: bool
  jc_keep_versions :: int

record job_update =
  ju_name :: "string option"
  ju_source_url :: "string option"
  ju_destination_path :: "string option"
  ju_include_pattern :: "string option"
  ju_exclude_pattern :: "string option"
  ju_schedule :: "string option"
  ju_schedule_day :: "int option"
  ju_schedule_time :: "string option"
  ju_verify_checksums :: "bool option"
  ju_delete_removed :: "bool option"
  ju_keep_versions :: "int option"

definition SCHEDULES :: "string list" where
  "SCHEDULES = [''manual'', ''hourly'', ''daily'', ''weekly'', ''monthly'']"

definition ascii_alnum :: "char \<Rightarrow> bool" where
  "ascii_alnum c \<longleftrightarrow> (let v = (of_char c :: nat) in 48 \<le> v \<and> v \<le> 57 \<or> 65 \<le> v \<and> v \<le> 90 \<or> 97 \<le> v \<and> v \<le> 122)"

definition valid_job_name :: "string \<Rightarrow> bool" where
  "valid_job_name n \<longleftrightarrow> 3 \<le> length n \<and> length n \<le> 100 \<and> ascii_alnum (hd n) \<and> ascii_alnum (last n)
     \<and> list_all (\<lambda>c. ascii_alnum c \<or> c = CHR ''-'') n"

text \<open>The pattern \<open>^([01]\d|2[0-3]):[0-5]\d$\<close>.\<close>

definition valid_time :: "string \<Rightarrow> bool" where
  "valid_time v \<longleftrightarrow> (case v of
     [a, b, c, d, e] \<Rightarrow> (case (digit_val a, digit_val b, digit_val d, digit_val e) of
       (Some h1, Some h2, Some m1, Some m2) \<Rightarrow> (h1 < 2 \<or> h1 = 2 \<and> h2 \<le> 3) \<and> c = CHR '':'' \<and> m1 \<le> 5
     | _ \<Rightarrow> False)
   | _ \<Rightarrow> False)"

definition strip_slashes :: "string \<Rightarrow> string" where
  "strip_slashes v = rstrip_slash (lstrip_slash v)"

definition opt_all :: "('a \<Rightarrow> bool) \<Rightarrow> 'a option \<Rightarrow> bool" where
  "opt_all p x = (case x of None \<Rightarrow> True | Some y \<Rightarrow> p y)"

definition valid_create :: "job_create \<Rightarrow> bool" where
  "valid_create b \<longleftrightarrow>
     valid_job_name (jc_name b) \<and> length (jc_destination_path b) \<le> 500 \<and> \<not> contains ''..'' (jc_destination_path b)
     \<and> opt_all (\<lambda>p. length p \<le> 500) (jc_include_pattern b) \<and> opt_all (\<lambda>p. length p \<le> 500) (jc_exclude_pattern b)
     \<and> jc_schedule b \<in> set SCHEDULES \<and> opt_all valid_time (jc_schedule_time b) \<and> 0 \<le> jc_keep_versions b \<and> jc_keep_versions b \<le> 10
     \<and> (jc_schedule b = ''weekly'' \<longrightarrow> opt_all (\<lambda>d. 0 \<le> d \<and> d \<le> 6) (jc_schedule_day b))
     \<and> (jc_schedule b = ''monthly'' \<longrightarrow> opt_all (\<lambda>d. 1 \<le> d \<and> d \<le> 31) (jc_schedule_day b))
     \<and> (jc_schedule b \<in> {''daily'', ''weekly'', ''monthly''} \<longrightarrow> truthy (jc_schedule_time b))
     \<and> (jc_schedule b \<in> {''weekly'', ''monthly''} \<longrightarrow> jc_schedule_day b \<noteq> None)"

definition valid_update :: "job_update \<Rightarrow> bool" where
  "valid_update b \<longleftrightarrow>
     opt_all valid_job_name (ju_name b) \<and> opt_all (\<lambda>p. length p \<le> 500 \<and> \<not> contains ''..'' p) (ju_destination_path b)
     \<and> opt_all (\<lambda>v. v \<in> set SCHEDULES) (ju_schedule b) \<and> opt_all valid_time (ju_schedule_time b)
     \<and> opt_all (\<lambda>n. 0 \<le> n \<and> n \<le> 10) (ju_keep_versions b)"

section \<open>Routes\<close>

text \<open>The answer to the reading routes: the row with the name of its backend.\<close>

definition from_job :: "sync_world \<Rightarrow> sync_job \<Rightarrow> sync_job \<times> string" where
  "from_job s j = (j, case job_backend j s of None \<Rightarrow> ''Unknown'' | Some b \<Rightarrow> be_name b)"

definition list_sync_jobs :: "string option \<Rightarrow> string option \<Rightarrow> sync_world \<Rightarrow> ((sync_job \<times> string) list \<times> nat) in_sync" where
  "list_sync_jobs status backend_id s =
     (let jobs = filter (\<lambda>j. (truthy status \<longrightarrow> Some (j_status j) = status)
                  \<and> (truthy backend_id \<longrightarrow> Some (j_destination_backend_id j) = backend_id)) (sy_jobs s)
      in (s, Inr (map (from_job s) jobs, length jobs)))"

definition get_sync_job :: "string \<Rightarrow> sync_world \<Rightarrow> (sync_job \<times> string) in_sync" where
  "get_sync_job job_id s =
     (case sql_get j_id job_id (sy_jobs s) of None \<Rightarrow> (s, Inl (Status 404)) | Some j \<Rightarrow> (s, Inr (from_job s j)))"

definition job_of_create :: "string \<Rightarrow> job_create \<Rightarrow> sync_job" where
  "job_of_create uuid b =
     \<lparr>j_id = uuid, j_name = jc_name b, j_source_url = jc_source_url b, j_destination_backend_id = jc_destination_backend_id b,
      j_destination_path = strip_slashes (jc_destination_path b), j_include_pattern = jc_include_pattern b,
      j_exclude_pattern = jc_exclude_pattern b, j_schedule = jc_schedule b, j_schedule_day = jc_schedule_day b,
      j_schedule_time = jc_schedule_time b, j_verify_checksums = jc_verify_checksums b,
      j_delete_removed = jc_delete_removed b, j_keep_versions = jc_keep_versions b, j_status = ''idle'',
      j_last_run_at = None, j_last_error = None, j_next_run_at = None\<rparr>"

text \<open>The id of a row is set when the row is written, so that it is still \<open>None\<close> when the job is scheduled.\<close>

definition create_sync_job :: "(trigger \<Rightarrow> datetime) \<Rightarrow> string \<Rightarrow> string \<Rightarrow> job_create \<Rightarrow> sync_world \<Rightarrow> (sync_job \<times> string) in_sync" where
  "create_sync_job next_time drawn uuid b s =
     (if \<not> valid_create b then (s, Inl (Status 422))
      else if sql_get j_name (jc_name b) (sy_jobs s) \<noteq> None then (s, Inl (Status 409))
      else if sql_get be_id (jc_destination_backend_id b) (fs_backends (sy_store s)) = None then (s, Inl (Status 400))
      else
        let j = job_of_create uuid b;
            (sch, r) = (if jc_schedule b \<noteq> ''manual''
                        then schedule_job next_time drawn None (jc_schedule b) (jc_schedule_day b) (jc_schedule_time b) (sy_sched s)
                        else (sy_sched s, Inr None));
            s = s\<lparr>sy_sched := sch\<rparr>
        in case r of
             Inl e \<Rightarrow> (s, Inl e)
           | Inr next_run \<Rightarrow>
               let j = j\<lparr>j_next_run_at := next_run\<rparr> in
               (case sql_insert j_id j (sy_jobs s) of
                  Inl _ \<Rightarrow> (s, Inl ConstraintFailed)
                | Inr js \<Rightarrow> (s\<lparr>sy_jobs := js\<rparr>, Inr (from_job s j))))"

definition updated_fields :: "job_update \<Rightarrow> sync_job \<Rightarrow> sync_job" where
  "updated_fields b j =
     j\<lparr>j_name := (if truthy (ju_name b) then the (ju_name b) else j_name j),
       j_source_url := set_or (ju_source_url b) (j_source_url j),
       j_destination_path := set_or (map_option strip_slashes (ju_destination_path b)) (j_destination_path j),
       j_include_pattern := (case ju_include_pattern b of None \<Rightarrow> j_include_pattern j | Some v \<Rightarrow> Some v),
       j_exclude_pattern := (case ju_exclude_pattern b of None \<Rightarrow> j_exclude_pattern j | Some v \<Rightarrow> Some v),
       j_verify_checksums := set_or (ju_verify_checksums b) (j_verify_checksums j),
       j_delete_removed := set_or (ju_delete_removed b) (j_delete_removed j),
       j_keep_versions := set_or (ju_keep_versions b) (j_keep_versions j),
       j_schedule := set_or (ju_schedule b) (j_schedule j),
       j_schedule_day := (case ju_schedule_day b of None \<Rightarrow> j_schedule_day j | Some v \<Rightarrow> Some v),
       j_schedule_time := (case ju_schedule_time b of None \<Rightarrow> j_schedule_time j | Some v \<Rightarrow> Some v)\<rparr>"

definition update_sync_job :: "(trigger \<Rightarrow> datetime) \<Rightarrow> string \<Rightarrow> job_update \<Rightarrow> sync_world \<Rightarrow> (sync_job \<times> string) in_sync" where
  "update_sync_job next_time job_id b s =
     (if \<not> valid_update b then (s, Inl (Status 422))
      else case sql_get j_id job_id (sy_jobs s) of
        None \<Rightarrow> (s, Inl (Status 404))
      | Some j \<Rightarrow>
          if j_status j = ''running'' then (s, Inl (Status 400))
          else if truthy (ju_name b) \<and> ju_name b \<noteq> Some (j_name j) \<and> sql_get j_name (the (ju_name b)) (sy_jobs s) \<noteq> None
          then (s, Inl (Status 409))
          else
            let j = updated_fields b j;
                schedule_changed = (ju_schedule b \<noteq> None \<or> ju_schedule_day b \<noteq> None \<or> ju_schedule_time b \<noteq> None)
            in if \<not> schedule_changed then (put_job j s, Inr (from_job s j))
               else if j_schedule j = ''manual'' then
                 (let j = j\<lparr>j_next_run_at := None\<rparr>
                  in (put_job j (s\<lparr>sy_sched := remove_sched (Some job_id) (sy_sched s)\<rparr>), Inr (from_job s j)))
               else (case schedule_job next_time job_id (Some job_id) (j_schedule j) (j_schedule_day j) (j_schedule_time j) (sy_sched s) of
                  (sch, Inl e) \<Rightarrow> (s\<lparr>sy_sched := sch\<rparr>, Inl e)
                | (sch, Inr next_run) \<Rightarrow>
                    let j = j\<lparr>j_next_run_at := next_run\<rparr> in (put_job j (s\<lparr>sy_sched := sch\<rparr>), Inr (from_job s j))))"

text \<open>A process that is terminated has ended when the call returns.\<close>

definition cancel_sync :: "string \<Rightarrow> sync_world \<Rightarrow> sync_world \<times> bool" where
  "cancel_sync job_id s =
     (case map_of (sy_procs s) job_id of
        None \<Rightarrow> (s, False)
      | Some run \<Rightarrow> (s\<lparr>sy_procs := dict_del job_id (sy_procs s)\<rparr>, True))"

definition delete_sync_job :: "string \<Rightarrow> sync_world \<Rightarrow> unit in_sync" where
  "delete_sync_job job_id s =
     (case sql_get j_id job_id (sy_jobs s) of
        None \<Rightarrow> (s, Inl (Status 404))
      | Some j \<Rightarrow>
          let s = (if j_status j = ''running'' then fst (cancel_sync job_id s) else s)
          in (s\<lparr>sy_sched := remove_sched (Some job_id) (sy_sched s), sy_jobs := filter (\<lambda>x. j_id x \<noteq> job_id) (sy_jobs s),
                sy_runs := filter (\<lambda>r. r_job_id r \<noteq> job_id) (sy_runs s)\<rparr>, Inr ()))"

definition new_run :: "string \<Rightarrow> string \<Rightarrow> datetime \<Rightarrow> sync_run" where
  "new_run uuid job_id now =
     \<lparr>r_id = uuid, r_job_id = job_id, r_started_at = now, r_completed_at = None, r_status = ''running'', r_files_synced = 0,
      r_bytes_transferred = 0, r_current_file = None, r_progress_percent = 0, r_error = None\<rparr>"

definition start_run :: "string \<Rightarrow> datetime \<Rightarrow> sync_job \<Rightarrow> sync_world \<Rightarrow> sync_run in_sync" where
  "start_run uuid now j s =
     (let run = new_run uuid (j_id j) now; j = j\<lparr>j_status := ''running''\<rparr> in
      case sql_insert r_id run (sy_runs s) of
        Inl _ \<Rightarrow> (s, Inl ConstraintFailed)
      | Inr rs \<Rightarrow> (put_job j (s\<lparr>sy_runs := rs, sy_waiting := sy_waiting s @ [(j, uuid)]\<rparr>), Inr run))"

definition run_sync_job :: "int \<Rightarrow> string \<Rightarrow> datetime \<Rightarrow> string \<Rightarrow> sync_world \<Rightarrow> sync_run in_sync" where
  "run_sync_job loop_time uuid now job_id s =
     (if loop_time - set_or (map_of (sy_manual s) job_id) 0 < seconds 60 then (s, Inl (Status 429))
      else let s = s\<lparr>sy_manual := dict_put job_id loop_time (sy_manual s)\<rparr> in
        case sql_get j_id job_id (sy_jobs s) of
          None \<Rightarrow> (s, Inl (Status 404))
        | Some j \<Rightarrow>
            if j_status j = ''running'' then (s, Inl (Status 400))
            else case job_backend j s of
              None \<Rightarrow> (s, Inl (Status 400))
            | Some b \<Rightarrow> if be_status b \<noteq> ''online'' then (s, Inl (Status 400)) else start_run uuid now j s)"

definition cancel_sync_job :: "string \<Rightarrow> sync_world \<Rightarrow> bool in_sync" where
  "cancel_sync_job job_id s =
     (case sql_get j_id job_id (sy_jobs s) of
        None \<Rightarrow> (s, Inl (Status 404))
      | Some j \<Rightarrow>
          if j_status j \<noteq> ''running'' then (s, Inl (Status 400))
          else let (s, cancelled) = cancel_sync job_id s
               in (if cancelled then put_job (j\<lparr>j_status := ''idle''\<rparr>) s else s, Inr cancelled))"

definition get_sync_job_history :: "string \<Rightarrow> int \<Rightarrow> int \<Rightarrow> sync_world \<Rightarrow> (sync_run list \<times> nat) in_sync" where
  "get_sync_job_history job_id limit offset s =
     (if limit < 1 \<or> limit > 100 \<or> offset < 0 then (s, Inl (Status 422))
      else if sql_get j_id job_id (sy_jobs s) = None then (s, Inl (Status 404))
      else let runs = filter (\<lambda>r. r_job_id r = job_id) (sy_runs s)
           in (s, Inr (take (nat limit) (drop (nat offset) (sort_key (\<lambda>r. - r_started_at r) runs)), length runs)))"

text \<open>The callback of the scheduler, with the argument of the entry.\<close>

definition scheduled_job_callback :: "(trigger \<Rightarrow> datetime) \<Rightarrow> string \<Rightarrow> datetime \<Rightarrow> string option \<Rightarrow> sync_world \<Rightarrow> sync_world" where
  "scheduled_job_callback next_time uuid now arg s =
     (case arg of
        None \<Rightarrow> s
      | Some job_id \<Rightarrow>
          (case sql_get j_id job_id (sy_jobs s) of
             None \<Rightarrow> s
           | Some j \<Rightarrow>
               if j_status j = ''running'' then s
               else if (case job_backend j s of None \<Rightarrow> True | Some b \<Rightarrow> be_status b \<noteq> ''online'')
               then put_job (j\<lparr>j_status := ''failed'', j_last_error := Some ''Backend not online''\<rparr>) s
               else (case start_run uuid now
                            (case get_next_run_time next_time job_id (sy_sched s) of None \<Rightarrow> j | Some t \<Rightarrow> j\<lparr>j_next_run_at := Some t\<rparr>) s of
                       (s', _) \<Rightarrow> s')))"

section \<open>Progress of rsync\<close>

text \<open>
  The pattern \<open>([\d,]+)\s+(\d+)%\s+([\d.]+\w+/s)\<close>. Each part ends where the next one must begin, but for the
  last one, in which digits may belong to the number or to the unit.
\<close>

definition is_digit_char :: "char \<Rightarrow> bool" where
  "is_digit_char c \<longleftrightarrow> digit_val c \<noteq> None"

definition match_rate :: "string \<Rightarrow> bool" where
  "match_rate s =
     (let u = takeWhile (\<lambda>c. ascii_alnum c \<or> c = CHR ''_'' \<or> c = CHR ''.'') s in
      startswith (drop (length u) s) ''/s''
      \<and> list_ex (\<lambda>k. list_all (\<lambda>c. is_digit_char c \<or> c = CHR ''.'') (take k u) \<and> list_all (\<lambda>c. c \<noteq> CHR ''.'') (drop k u)) [1..<length u])"

definition match_progress :: "string \<Rightarrow> (string \<times> string) option" where
  "match_progress s =
     (let bytes = takeWhile (\<lambda>c. is_digit_char c \<or> c = CHR '','') s; s1 = drop (length bytes) s;
          sp = takeWhile is_space s1; s2 = drop (length sp) s1;
          percent = takeWhile is_digit_char s2; s3 = drop (length percent) s2
      in if bytes = [] \<or> sp = [] \<or> percent = [] \<or> \<not> startswith s3 ''%'' then None
         else let s4 = drop 1 s3 in
           if s4 = [] \<or> \<not> is_space (hd s4) \<or> \<not> match_rate (dropWhile is_space s4) then None else Some (bytes, percent))"

fun search_progress :: "string \<Rightarrow> (string \<times> string) option" where
  "search_progress [] = None"
| "search_progress (c # cs) = (case match_progress (c # cs) of None \<Rightarrow> search_progress cs | Some m \<Rightarrow> Some m)"

text \<open>The counts of files and bytes after the lines that rsync has printed.\<close>

fun read_output :: "string list \<Rightarrow> int \<times> int \<Rightarrow> string + int \<times> int" where
  "read_output [] c = Inr c"
| "read_output (line # lines) (files_synced, bytes_transferred) =
     (let line_str = strip line in
      if line_str = [] then read_output lines (files_synced, bytes_transferred)
      else case search_progress line_str of
        Some (bytes, percent) \<Rightarrow>
          let bytes_str = filter (\<lambda>c. c \<noteq> CHR '','') bytes in
          if bytes_str = [] then Inl ''invalid literal for int() with base 10''
          else read_output lines (files_synced, int (set_or (read_digits 0 bytes_str) 0))
      | None \<Rightarrow>
          if \<not> startswith line_str '' '' \<and> CHR ''/'' \<in> set line_str then read_output lines (files_synced + 1, bytes_transferred)
          else read_output lines (files_synced, bytes_transferred))"

definition build_rsync_command :: "sync_job \<Rightarrow> string \<Rightarrow> string list" where
  "build_rsync_command job dest_path =
     [''rsync'', ''-avz'', ''--progress'', ''--info=progress2'']
     @ (if truthy (j_include_pattern job) then [''--include'', the (j_include_pattern job)] else [])
     @ (if truthy (j_exclude_pattern job) then [''--exclude'', the (j_exclude_pattern job)] else [])
     @ (if j_verify_checksums job then [''--checksum''] else [])
     @ (if j_delete_removed job then [''--delete''] else [])
     @ [j_source_url job, dest_path @ ''/'']"

section \<open>Runs\<close>

definition MAX_CONCURRENT_SYNCS :: nat where
  "MAX_CONCURRENT_SYNCS = 3"

text \<open>The branch that catches every exception.\<close>

definition sync_raised :: "datetime \<Rightarrow> string \<Rightarrow> sync_job \<Rightarrow> string \<Rightarrow> sync_world \<Rightarrow> sync_world" where
  "sync_raised now msg job run_id s =
     (let s = (case sql_get r_id run_id (sy_runs s) of
                 None \<Rightarrow> s
               | Some r \<Rightarrow> put_run (r\<lparr>r_completed_at := Some now, r_status := ''failed'', r_error := Some msg\<rparr>) s)
      in case sql_get j_id (j_id job) (sy_jobs s) of
           None \<Rightarrow> s
         | Some j \<Rightarrow> put_job (j\<lparr>j_status := ''failed'', j_last_run_at := Some now, j_last_error := Some msg\<rparr>) s)"

definition version_path :: "sync_job \<Rightarrow> string \<Rightarrow> path" where
  "version_path job timestamp = parts (j_destination_path job) @ [timestamp]"

text \<open>
  The first waiting run gets a place of the semaphore. Its directory is made; that rsync can be
  started is an argument, the error otherwise.
\<close>

definition begin_sync :: "string \<Rightarrow> string option \<Rightarrow> datetime \<Rightarrow> sync_world \<Rightarrow> sync_world" where
  "begin_sync timestamp start_error now s =
     (case sy_waiting s of
        [] \<Rightarrow> s
      | (job, run_id) # waiting \<Rightarrow>
          if length (sy_active s) \<ge> MAX_CONCURRENT_SYNCS then s
          else let s = s\<lparr>sy_waiting := waiting\<rparr> in
            case job_backend job s of
              None \<Rightarrow> sync_raised now ''Backend not mounted or not found'' job run_id s
            | Some b \<Rightarrow>
                if be_mount_point b = None then sync_raised now ''Backend not mounted or not found'' job run_id s
                else let n = nfs_of (be_id b) (sy_store s) in
                  (case make_folders [] (version_path job timestamp) (nfs_tree n) of
                     Inl e \<Rightarrow> sync_raised now ''FileExistsError'' job run_id s
                   | Inr t \<Rightarrow>
                       let s = s\<lparr>sy_store := fst (on_nfs (be_id b) (put_tree t n, ()) (sy_store s))\<rparr> in
                       (case start_error of
                          Some e \<Rightarrow> sync_raised now e job run_id s
                        | None \<Rightarrow> s\<lparr>sy_active := sy_active s @ [(job, run_id, timestamp)], sy_procs := dict_put (j_id job) run_id (sy_procs s)\<rparr>)))"

text \<open>The directories below the destination, the greatest name first.\<close>

definition version_dirs :: "path \<Rightarrow> tree \<Rightarrow> path list" where
  "version_dirs base t =
     order_by (\<lambda>p q. str_le (last q) (last p)) (map fst (filter (\<lambda>(q, i). i = Folder) (children base t)))"

definition prune_versions :: "path \<Rightarrow> int \<Rightarrow> tree \<Rightarrow> tree" where
  "prune_versions base keep_versions t =
     (if keep_versions \<le> 0 then t else fold remove_tree (drop (nat keep_versions) (version_dirs base t)) t)"

definition cleanup_old_runs :: "string \<Rightarrow> datetime \<Rightarrow> sync_world \<Rightarrow> sync_world" where
  "cleanup_old_runs job_id now s =
     s\<lparr>sy_runs := filter (\<lambda>r. \<not> (r_job_id r = job_id \<and> r_started_at r < now - hours (24 * 30))) (sy_runs s)\<rparr>"

definition report_run :: "int \<Rightarrow> int \<Rightarrow> int \<Rightarrow> datetime \<Rightarrow> sync_job \<Rightarrow> string \<Rightarrow> sync_world \<Rightarrow> string + sync_world" where
  "report_run code files_synced bytes_transferred now job run_id s =
     (let success = (code = 0) in
      case (sql_get r_id run_id (sy_runs s), sql_get j_id (j_id job) (sy_jobs s)) of
        (Some r, Some j) \<Rightarrow>
          let err = ''rsync exited with code '' @ show_int code;
              r = r\<lparr>r_completed_at := Some now, r_status := (if success then ''success'' else ''failed''), r_files_synced := files_synced,
                    r_bytes_transferred := bytes_transferred, r_progress_percent := (if success then 100 else r_progress_percent r),
                    r_error := (if success then r_error r else Some err)\<rparr>;
              j = j\<lparr>j_status := (if success then ''synced'' else ''failed''), j_last_run_at := Some now,
                    j_last_error := (if success then j_last_error j else Some err)\<rparr>
          in Inr (put_job j (put_run r s))
      | _ \<Rightarrow> Inl ''No row was found when one was required'')"

text \<open>
  rsync of an active run has ended: it has written files below the version's directory, printed lines
  and left an exit code. The place of the semaphore is free again.
\<close>

definition write_files :: "path \<Rightarrow> (path \<times> item) list \<Rightarrow> tree \<Rightarrow> tree" where
  "write_files dest files t = fold (\<lambda>(p, i) t. if p = [] then t else dict_put (dest @ p) i t) files t"

definition on_destination :: "sync_job \<Rightarrow> (tree \<Rightarrow> tree) \<Rightarrow> sync_world \<Rightarrow> sync_world" where
  "on_destination job f s =
     (let i = j_destination_backend_id job; n = nfs_of i (sy_store s)
      in s\<lparr>sy_store := fst (on_nfs i (put_tree (f (nfs_tree n)) n, ()) (sy_store s))\<rparr>)"

definition end_sync :: "sync_job \<Rightarrow> string \<Rightarrow> string \<Rightarrow> (path \<times> item) list \<Rightarrow> string list \<Rightarrow> int \<Rightarrow> datetime \<Rightarrow> sync_world \<Rightarrow> sync_world" where
  "end_sync job run_id timestamp files lines code now s =
     (let s = s\<lparr>sy_active := remove1 (job, run_id, timestamp) (sy_active s)\<rparr>;
          s = on_destination job (write_files (version_path job timestamp) files) s
      in case read_output lines (0, 0) of
           Inl e \<Rightarrow> sync_raised now e job run_id s
         | Inr (files_synced, bytes_transferred) \<Rightarrow>
             let s = s\<lparr>sy_procs := dict_del (j_id job) (sy_procs s)\<rparr> in
             (case report_run code files_synced bytes_transferred now job run_id s of
                Inl e \<Rightarrow> sync_raised now e job run_id s
              | Inr s \<Rightarrow>
                  let s = (if code = 0 then on_destination job (prune_versions (parts (j_destination_path job)) (j_keep_versions job)) s else s)
                  in cleanup_old_runs (j_id job) now s))"

section \<open>Start-up\<close>

fun register_jobs :: "(trigger \<Rightarrow> datetime) \<Rightarrow> sync_job list \<Rightarrow> sched list \<Rightarrow> api_error + sched list \<times> sync_job list" where
  "register_jobs next_time [] sch = Inr (sch, [])"
| "register_jobs next_time (j # js) sch =
     (if j_schedule j = ''manual'' then ebind (register_jobs next_time js sch) (\<lambda>(sch, js). Inr (sch, j # js))
      else case schedule_job next_time (j_id j) (Some (j_id j)) (j_schedule j) (j_schedule_day j) (j_schedule_time j) sch of
        (sch, Inl e) \<Rightarrow> Inl e
      | (sch, Inr next_run) \<Rightarrow>
          let j' = (if next_run = None then j else j\<lparr>j_next_run_at := next_run\<rparr>)
          in ebind (register_jobs next_time js sch) (\<lambda>(sch, js). Inr (sch, j' # js)))"

text \<open>A restart forgets what is in memory. \<open>None\<close>: the start-up raises and the controller does not come up.\<close>

definition restart_controller :: "(trigger \<Rightarrow> datetime) \<Rightarrow> sync_world \<Rightarrow> sync_world option" where
  "restart_controller next_time s =
     (case register_jobs next_time (sy_jobs s) [] of
        Inl e \<Rightarrow> None
      | Inr (sch, js) \<Rightarrow> Some (s\<lparr>sy_jobs := js, sy_sched := sch, sy_manual := [], sy_waiting := [], sy_active := [], sy_procs := []\<rparr>))"

section \<open>Events\<close>

datatype sync_event =
    ListSyncJobs "string option" "string option"
  | GetSyncJob string
  | CreateSyncJob string string job_create
  | UpdateSyncJob string job_update
  | DeleteSyncJob string
  | RunSyncJob int string datetime string
  | CancelSyncJob string
  | SyncJobHistory string int int
  | StoreRequest outside bool store_op
  | TriggerFires string datetime sched
  | BeginSync string "string option" datetime
  | EndSync sync_job string string "(path \<times> item) list" "string list" int datetime
  | Restart

text \<open>Triggers that are not registered and runs that are not active have no effect.\<close>

fun on_event :: "(trigger \<Rightarrow> datetime) \<Rightarrow> sync_event \<Rightarrow> sync_world \<Rightarrow> sync_world" where
  "on_event nt (ListSyncJobs st b) s = fst (list_sync_jobs st b s)"
| "on_event nt (GetSyncJob i) s = fst (get_sync_job i s)"
| "on_event nt (CreateSyncJob d u b) s = fst (create_sync_job nt d u b s)"
| "on_event nt (UpdateSyncJob i b) s = fst (update_sync_job nt i b s)"
| "on_event nt (DeleteSyncJob i) s = fst (delete_sync_job i s)"
| "on_event nt (RunSyncJob lt u now i) s = fst (run_sync_job lt u now i s)"
| "on_event nt (CancelSyncJob i) s = fst (cancel_sync_job i s)"
| "on_event nt (SyncJobHistory i l off) s = fst (get_sync_job_history i l off s)"
| "on_event nt (StoreRequest out w q) s = s\<lparr>sy_store := get_db (store_route out) (w, q) (sy_store s)\<rparr>"
| "on_event nt (TriggerFires u now e) s = (if e \<in> set (sy_sched s) then scheduled_job_callback nt u now (sc_arg e) s else s)"
| "on_event nt (BeginSync ts err now) s = begin_sync ts err now s"
| "on_event nt (EndSync j r ts files ls c now) s = (if (j, r, ts) \<in> set (sy_active s) then end_sync j r ts files ls c now s else s)"
| "on_event nt Restart s = (case restart_controller nt s of None \<Rightarrow> s | Some s' \<Rightarrow> s')"

definition sync_events :: "(trigger \<Rightarrow> datetime) \<Rightarrow> sync_event list \<Rightarrow> sync_world \<Rightarrow> sync_world" where
  "sync_events nt evs s = fold (on_event nt) evs s"

section \<open>Invariant\<close>

definition JOB_STATUSES :: "string list" where
  "JOB_STATUSES = [''idle'', ''running'', ''synced'', ''failed'']"

definition trigger_ok :: "sync_job \<Rightarrow> bool" where
  "trigger_ok j \<longleftrightarrow> j_schedule j \<in> set SCHEDULES
     \<and> (j_schedule j = ''manual'' \<or> \<not> isl (build_trigger (j_schedule j) (j_schedule_day j) (j_schedule_time j)))"

definition job_ok :: "sync_job \<Rightarrow> bool" where
  "job_ok j \<longleftrightarrow> j_status j \<in> set JOB_STATUSES \<and> trigger_ok j"

definition sched_ok :: "string set \<Rightarrow> sched list \<Rightarrow> bool" where
  "sched_ok ids sch \<longleftrightarrow> (\<forall>e \<in> set sch. \<forall>i. sc_arg e = Some i \<longrightarrow> i \<in> ids \<and> sc_id e = i)"

definition sync_inv :: "sync_world \<Rightarrow> bool" where
  "sync_inv s \<longleftrightarrow> keys_unique j_id (sy_jobs s) \<and> keys_unique j_name (sy_jobs s) \<and> (\<forall>j \<in> set (sy_jobs s). job_ok j)
     \<and> length (sy_active s) \<le> MAX_CONCURRENT_SYNCS \<and> sched_ok (j_id ` set (sy_jobs s)) (sy_sched s)"

lemma sync_inv_frame:
  "sync_inv s \<Longrightarrow> sy_jobs s' = sy_jobs s \<Longrightarrow> length (sy_active s') \<le> length (sy_active s) \<Longrightarrow> sy_sched s' = sy_sched s \<Longrightarrow> sync_inv s'"
  by (simp add: sync_inv_def)

lemma sync_inv_get: "sync_inv s \<Longrightarrow> sql_get j_id i (sy_jobs s) = Some j \<Longrightarrow> job_ok j \<and> j_id j = i"
  by (auto simp: sync_inv_def dest!: sql_get_SomeD)

lemma sched_ok_remove [simp]: "sched_ok ids sch \<Longrightarrow> sched_ok ids (remove_sched i sch)"
  by (auto simp: sched_ok_def remove_sched_def)

lemma sched_ok_schedule:
  assumes "sched_ok ids sch" and "\<And>i. job_id = Some i \<Longrightarrow> i \<in> ids"
  shows "sched_ok ids (fst (schedule_job nt d job_id sc day tm sch))"
  using assms unfolding schedule_job_def Let_def
  by (auto simp: sched_ok_def remove_sched_def split: sum.splits option.splits)

lemma image_save_row: "sql_get key i rs \<noteq> None \<Longrightarrow> key r = i \<Longrightarrow> key ` set (save_row key r rs) = key ` set rs"
  by (metis save_row_keys set_map)

lemma put_job_inv:
  assumes "sync_inv s" and "sql_get j_id i (sy_jobs s) = Some j" and "j_id j' = i" and "job_ok j'"
    and "j_name j' = j_name j \<or> j_name j' \<notin> j_name ` set (sy_jobs s)"
  shows "sync_inv (put_job j' s)"
proof -
  have j: "j \<in> set (sy_jobs s)" "j_id j = i" using assms(2) by (auto dest: sql_get_SomeD)
  have "j_name h \<noteq> j_name j'" if "h \<in> set (sy_jobs s)" "j_id h \<noteq> j_id j'" for h
    using assms(1,3,5) j that by (auto simp: sync_inv_def keys_unique_def distinct_map dest: inj_onD) (metis imageI)
  then have "keys_unique j_name (save_row j_id j' (sy_jobs s))"
    using assms(1) unfolding save_row_def by (intro replace_row_unique) (auto simp: sync_inv_def)
  then show ?thesis
    using assms set_save_row_subset [of j_id j' "sy_jobs s"] image_save_row [of j_id i "sy_jobs s" j']
    by (auto simp: sync_inv_def put_job_def)
qed

lemma put_job_run_simps [simp]:
  "sy_active (put_job j s) = sy_active s" "sy_waiting (put_job j s) = sy_waiting s" "sy_sched (put_job j s) = sy_sched s"
  "sy_runs (put_job j s) = sy_runs s" "sy_procs (put_job j s) = sy_procs s" "sy_store (put_job j s) = sy_store s"
  "sy_active (put_run r s) = sy_active s" "sy_waiting (put_run r s) = sy_waiting s" "sy_sched (put_run r s) = sy_sched s"
  "sy_jobs (put_run r s) = sy_jobs s" "sy_procs (put_run r s) = sy_procs s" "sy_store (put_run r s) = sy_store s"
  by (simp_all add: put_job_def put_run_def)

lemma put_run_inv [simp]: "sync_inv (put_run r s) = sync_inv s"
  by (simp add: sync_inv_def)

text \<open>A validated time is understood.\<close>

lemma read_digits_two:
  assumes "digit_val a = Some x" and "digit_val b = Some y"
  shows "parse_int [a, b] = Inr (int (10 * x + y))"
proof -
  have "a \<noteq> CHR ''-''" "a \<noteq> CHR ''+''" using assms(1) by (auto simp: digit_val_def)
  then show ?thesis using assms by (simp add: parse_int_def)
qed

lemma digit_val_less: "digit_val a = Some x \<Longrightarrow> x < 10"
  by (auto simp: digit_val_def Let_def split: if_splits)

lemma valid_time_parse:
  assumes "valid_time v"
  shows "\<exists>h m. parse_time (Some v) = Inr (h, m) \<and> 0 \<le> h \<and> h \<le> 23 \<and> 0 \<le> m \<and> m \<le> 59"
proof -
  obtain a b d e h1 h2 m1 m2 where v: "v = [a, b, CHR '':'', d, e]"
    and x: "digit_val a = Some h1" "digit_val b = Some h2" "digit_val d = Some m1" "digit_val e = Some m2"
    and r: "h1 < 2 \<or> h1 = 2 \<and> h2 \<le> 3" "m1 \<le> 5"
    using assms by (auto simp: valid_time_def split: list.splits option.splits)
  have c: "a \<noteq> CHR '':''" "b \<noteq> CHR '':''" "d \<noteq> CHR '':''" "e \<noteq> CHR '':''" using x by (auto simp: digit_val_def)
  have lt: "h2 < 10" "m2 < 10" using digit_val_less x by auto
  have "parse_time (Some v) = Inr (int (10 * h1 + h2), int (10 * m1 + m2))"
    using c by (simp add: parse_time_def v read_digits_two [OF x(1,2)] read_digits_two [OF x(3,4)])
  moreover have "10 * h1 + h2 \<le> 23" "10 * m1 + m2 \<le> 59" using r lt by auto
  ultimately show ?thesis by (metis nat_int_comparison(3) of_nat_0_le_iff of_nat_numeral)
qed

lemma create_trigger_ok:
  assumes "valid_create b"
  shows "jc_schedule b = ''manual'' \<or> \<not> isl (build_trigger (jc_schedule b) (jc_schedule_day b) (jc_schedule_time b))"
proof -
  obtain h m where p: "parse_time (jc_schedule_time b) = Inr (h, m)" "0 \<le> h" "h \<le> 23" "0 \<le> m" "m \<le> 59"
  proof (cases "truthy (jc_schedule_time b)")
    case False
    then show ?thesis using that [of 0 0] by (simp add: parse_time_def)
  next
    case True
    then obtain v where "jc_schedule_time b = Some v" by (cases "jc_schedule_time b") auto
    then show ?thesis using that valid_time_parse [of v] assms by (auto simp: valid_create_def opt_all_def)
  qed
  moreover have "jc_schedule b = ''weekly'' \<Longrightarrow> cron_field 0 6 (jc_schedule_day b)" "jc_schedule b = ''monthly'' \<Longrightarrow> cron_field 1 31 (jc_schedule_day b)"
    using assms by (auto simp: valid_create_def opt_all_def cron_field_def split: option.splits)
  moreover have "jc_schedule b \<in> set SCHEDULES" using assms by (simp add: valid_create_def)
  ultimately show ?thesis by (auto simp: build_trigger_def Let_def SCHEDULES_def)
qed

section \<open>Every event keeps the invariant\<close>

lemma create_sync_job_cases:
  obtains sch where "fst (create_sync_job nt d u b s) = s\<lparr>sy_sched := sch\<rparr>" and "\<exists>e. snd (create_sync_job nt d u b s) = Inl e"
      and "sch = sy_sched s \<or> sch = fst (schedule_job nt d None (jc_schedule b) (jc_schedule_day b) (jc_schedule_time b) (sy_sched s))"
  | j sch where "valid_create b" and "fst (create_sync_job nt d u b s) = s\<lparr>sy_sched := sch, sy_jobs := sy_jobs s @ [j]\<rparr>"
      and "\<exists>r. snd (create_sync_job nt d u b s) = Inr r" and "jc_name b \<notin> j_name ` set (sy_jobs s)" and "u \<notin> j_id ` set (sy_jobs s)"
      and "j_id j = u" and "j_name j = jc_name b" and "j_status j = ''idle''" and "j_schedule j = jc_schedule b"
      and "j_schedule_day j = jc_schedule_day b" and "j_schedule_time j = jc_schedule_time b"
      and "sch = (if jc_schedule b = ''manual'' then sy_sched s
                  else fst (schedule_job nt d None (jc_schedule b) (jc_schedule_day b) (jc_schedule_time b) (sy_sched s)))"
proof -
  define r where "r = (if jc_schedule b \<noteq> ''manual''
      then schedule_job nt d None (jc_schedule b) (jc_schedule_day b) (jc_schedule_time b) (sy_sched s) else (sy_sched s, Inr None))"
  obtain sch q where q: "r = (sch, q)" by force
  have sch: "sch = (if jc_schedule b = ''manual'' then sy_sched s
                  else fst (schedule_job nt d None (jc_schedule b) (jc_schedule_day b) (jc_schedule_time b) (sy_sched s)))"
    using q by (auto simp: r_def split: if_splits)
  show ?thesis
  proof (cases "\<not> valid_create b \<or> sql_get j_name (jc_name b) (sy_jobs s) \<noteq> None
      \<or> sql_get be_id (jc_destination_backend_id b) (fs_backends (sy_store s)) = None")
    case True
    then have "fst (create_sync_job nt d u b s) = s \<and> (\<exists>e. snd (create_sync_job nt d u b s) = Inl e)"
      by (auto simp: create_sync_job_def)
    then show ?thesis using that(1) [of "sy_sched s"] by simp
  next
    case False
    note ok = this
    show ?thesis
    proof (cases "isl q \<or> u \<in> j_id ` set (sy_jobs s)")
      case True
      then have "fst (create_sync_job nt d u b s) = s\<lparr>sy_sched := sch\<rparr> \<and> (\<exists>e. snd (create_sync_job nt d u b s) = Inl e)"
        using ok q unfolding create_sync_job_def r_def [symmetric] by (auto simp: Let_def sql_insert_def job_of_create_def split: sum.splits)
      then show ?thesis using that(1) [of sch] sch by (auto split: if_splits)
    next
      case False
      then obtain nr where nr: "q = Inr nr" by (cases q) auto
      have "jc_name b \<notin> j_name ` set (sy_jobs s)" using ok by (simp add: sql_get_None_iff)
      moreover have "create_sync_job nt d u b s = (s\<lparr>sy_sched := sch, sy_jobs := sy_jobs s @ [(job_of_create u b)\<lparr>j_next_run_at := nr\<rparr>]\<rparr>,
          Inr (from_job (s\<lparr>sy_sched := sch\<rparr>) ((job_of_create u b)\<lparr>j_next_run_at := nr\<rparr>)))"
        using False ok q nr unfolding create_sync_job_def r_def [symmetric] by (auto simp: Let_def sql_insert_def job_of_create_def)
      ultimately show ?thesis
        using that(2) [of "(job_of_create u b)\<lparr>j_next_run_at := nr\<rparr>" sch] sch False ok by (simp add: job_of_create_def)
    qed
  qed
qed

lemma create_sync_job_inv:
  assumes "sync_inv s"
  shows "sync_inv (fst (create_sync_job nt d u b s))"
proof (cases rule: create_sync_job_cases [of nt d u b s])
  case (1 sch)
  then have "sched_ok (j_id ` set (sy_jobs s)) sch"
    using assms sched_ok_schedule [of "j_id ` set (sy_jobs s)" "sy_sched s" None] by (auto simp: sync_inv_def)
  then show ?thesis using assms 1(1) by (simp add: sync_inv_def)
next
  case (2 j sch)
  then have "sched_ok (j_id ` set (sy_jobs s)) sch"
    using assms sched_ok_schedule [of "j_id ` set (sy_jobs s)" "sy_sched s" None] by (auto simp: sync_inv_def)
  then have "sched_ok (j_id ` set (sy_jobs s @ [j])) sch" by (auto simp: sched_ok_def)
  moreover have "job_ok j" using create_trigger_ok [OF 2(1)] 2 by (simp add: job_ok_def trigger_ok_def JOB_STATUSES_def) (simp add: valid_create_def)
  moreover have "keys_unique j_id (sy_jobs s @ [j])" "keys_unique j_name (sy_jobs s @ [j])"
    using assms 2(4-7) by (auto simp: sync_inv_def keys_unique_def)
  ultimately show ?thesis unfolding 2(2) using assms by (auto simp: sync_inv_def)
qed

lemma updated_simps [simp]: "j_id (updated_fields b j) = j_id j" "j_status (updated_fields b j) = j_status j"
  by (simp_all add: updated_fields_def)

lemma schedule_job_Inr: "schedule_job nt d i sc day tm sch = (sch', Inr r) \<Longrightarrow> sc = ''manual'' \<or> \<not> isl (build_trigger sc day tm)"
  by (auto simp: schedule_job_def Let_def split: if_splits sum.splits)

lemma update_sync_job_cases:
  obtains sch where "fst (update_sync_job nt i b s) = s\<lparr>sy_sched := sch\<rparr>"
      and "sch = sy_sched s \<or> (\<exists>sc day tm. sch = fst (schedule_job nt i (Some i) sc day tm (sy_sched s)) \<and> i \<in> j_id ` set (sy_jobs s))"
  | j j' sch where "sql_get j_id i (sy_jobs s) = Some j" and "j_status j \<noteq> ''running''"
      and "fst (update_sync_job nt i b s) = put_job j' (s\<lparr>sy_sched := sch\<rparr>)"
      and "j_id j' = j_id j" and "j_status j' = j_status j" and "trigger_ok j \<Longrightarrow> trigger_ok j'"
      and "j_name j' = j_name j \<or> j_name j' \<notin> j_name ` set (sy_jobs s)"
      and "sch = sy_sched s \<or> sch = remove_sched (Some i) (sy_sched s) \<or> (\<exists>sc day tm. sch = fst (schedule_job nt i (Some i) sc day tm (sy_sched s)))"
proof -
  show ?thesis
  proof (cases "fst (update_sync_job nt i b s) = s")
    case True
    then show ?thesis using that(1) [of "sy_sched s"] by simp
  next
    case False
    then obtain j where j: "sql_get j_id i (sy_jobs s) = Some j" and st: "j_status j \<noteq> ''running''" and v: "valid_update b"
      and nm: "\<not> (truthy (ju_name b) \<and> ju_name b \<noteq> Some (j_name j) \<and> sql_get j_name (the (ju_name b)) (sy_jobs s) \<noteq> None)"
      unfolding update_sync_job_def by (auto split: option.splits if_splits)
    let ?j = "updated_fields b j"
    have name: "j_name ?j = j_name j \<or> j_name ?j \<notin> j_name ` set (sy_jobs s)"
      using nm by (auto simp: updated_fields_def sql_get_None_iff)
    have i: "i \<in> j_id ` set (sy_jobs s)" using j by (auto dest: sql_get_SomeD)
    have sc: "trigger_ok j \<Longrightarrow> j_schedule ?j \<in> set SCHEDULES"
      using v by (cases "ju_schedule b") (auto simp: trigger_ok_def updated_fields_def valid_update_def opt_all_def)
    show ?thesis
    proof (cases "ju_schedule b = None \<and> ju_schedule_day b = None \<and> ju_schedule_time b = None")
      case True
      then have "fst (update_sync_job nt i b s) = put_job ?j (s\<lparr>sy_sched := sy_sched s\<rparr>)"
        using j st nm v by (auto simp: update_sync_job_def Let_def)
      moreover have "trigger_ok j \<Longrightarrow> trigger_ok ?j" using True by (simp add: trigger_ok_def updated_fields_def)
      ultimately show ?thesis using that(2) [OF j st, of ?j "sy_sched s"] name by simp
    next
      case changed: False
      show ?thesis
      proof (cases "j_schedule ?j = ''manual''")
        case True
        then have "fst (update_sync_job nt i b s) = put_job (?j\<lparr>j_next_run_at := None\<rparr>) (s\<lparr>sy_sched := remove_sched (Some i) (sy_sched s)\<rparr>)"
          using j st nm v changed by (auto simp: update_sync_job_def Let_def)
        then show ?thesis using that(2) [OF j st, of "?j\<lparr>j_next_run_at := None\<rparr>"] name True by (simp add: trigger_ok_def SCHEDULES_def)
      next
        case False
        obtain sch r where r: "schedule_job nt i (Some i) (j_schedule ?j) (j_schedule_day ?j) (j_schedule_time ?j) (sy_sched s) = (sch, r)" by force
        then have sch: "sch = fst (schedule_job nt i (Some i) (j_schedule ?j) (j_schedule_day ?j) (j_schedule_time ?j) (sy_sched s))" by simp
        show ?thesis
        proof (cases r)
          case (Inl e)
          then have "fst (update_sync_job nt i b s) = s\<lparr>sy_sched := sch\<rparr>"
            using j st nm v changed False r by (auto simp: update_sync_job_def Let_def)
          then show ?thesis using that(1) [of sch] sch i by blast
        next
          case (Inr nr)
          then have "fst (update_sync_job nt i b s) = put_job (?j\<lparr>j_next_run_at := nr\<rparr>) (s\<lparr>sy_sched := sch\<rparr>)"
            using j st nm v changed False r by (auto simp: update_sync_job_def Let_def)
          moreover have "trigger_ok j \<Longrightarrow> trigger_ok (?j\<lparr>j_next_run_at := nr\<rparr>)"
            using schedule_job_Inr [of nt i "Some i"] r Inr sc by (auto simp: trigger_ok_def)
          ultimately show ?thesis using that(2) [OF j st, of "?j\<lparr>j_next_run_at := nr\<rparr>" sch] name sch by auto
        qed
      qed
    qed
  qed
qed

lemma put_sched_inv: "sync_inv s \<Longrightarrow> sched_ok (j_id ` set (sy_jobs s)) sch \<Longrightarrow> sync_inv (s\<lparr>sy_sched := sch\<rparr>)"
  by (simp add: sync_inv_def)

lemma update_sync_job_inv:
  assumes "sync_inv s"
  shows "sync_inv (fst (update_sync_job nt i b s))"
proof (cases rule: update_sync_job_cases [of nt i b s])
  case (1 sch)
  then have "sched_ok (j_id ` set (sy_jobs s)) sch"
    using assms sched_ok_schedule [of "j_id ` set (sy_jobs s)" "sy_sched s" "Some i"] by (auto simp: sync_inv_def)
  then show ?thesis using put_sched_inv [OF assms] 1(1) by simp
next
  case (2 j j' sch)
  have i: "i \<in> j_id ` set (sy_jobs s)" "j_id j = i" "job_ok j" using 2(1) sync_inv_get [OF assms 2(1)] by (auto dest: sql_get_SomeD)
  have "sched_ok (j_id ` set (sy_jobs s)) sch"
    using 2(8) i(1) assms sched_ok_schedule [of "j_id ` set (sy_jobs s)" "sy_sched s" "Some i"] by (auto simp: sync_inv_def)
  then have "sync_inv (s\<lparr>sy_sched := sch\<rparr>)" using put_sched_inv [OF assms] by simp
  moreover have "job_ok j'" using 2(5,6) i(3) by (simp add: job_ok_def)
  ultimately show ?thesis unfolding 2(3) using 2(1,4,7) i(2) by (intro put_job_inv [of _ i j]) auto
qed


lemma cancel_sync_frame:
  "sy_jobs (fst (cancel_sync i s)) = sy_jobs s" "sy_active (fst (cancel_sync i s)) = sy_active s"
  "sy_waiting (fst (cancel_sync i s)) = sy_waiting s" "sy_sched (fst (cancel_sync i s)) = sy_sched s"
  by (simp_all add: cancel_sync_def split: option.splits)

lemma delete_sync_job_inv:
  assumes "sync_inv s"
  shows "sync_inv (fst (delete_sync_job i s))"
proof (cases "sql_get j_id i (sy_jobs s)")
  case (Some j)
  have "sched_ok (j_id ` {x \<in> set (sy_jobs s). j_id x \<noteq> i}) (remove_sched (Some i) (sy_sched s))"
    using assms by (fastforce simp: sync_inv_def sched_ok_def remove_sched_def)
  then show ?thesis using assms Some
    by (auto simp: delete_sync_job_def Let_def sync_inv_def cancel_sync_frame keys_unique_filter)
qed (use assms in \<open>simp add: delete_sync_job_def\<close>)

lemma start_run_inv:
  assumes "sync_inv s" and "sql_get j_id i (sy_jobs s) = Some j" and "j0 = j \<or> (\<exists>t. j0 = j\<lparr>j_next_run_at := t\<rparr>)"
  shows "sync_inv (fst (start_run u now j0 s))"
proof (cases "sql_insert r_id (new_run u (j_id j0) now) (sy_runs s)")
  case (Inr rs)
  have j: "job_ok j" "j_id j = i" using sync_inv_get [OF assms(1,2)] by auto
  have "sync_inv (s\<lparr>sy_runs := rs, sy_waiting := sy_waiting s @ [(j0\<lparr>j_status := ''running''\<rparr>, u)]\<rparr>)"
    by (rule sync_inv_frame [OF assms(1)]) simp_all
  then show ?thesis using assms(2,3) j Inr
    by (auto simp: start_run_def Let_def job_ok_def trigger_ok_def JOB_STATUSES_def intro!: put_job_inv [of _ i j])
qed (use assms in \<open>simp add: start_run_def Let_def\<close>)

lemma run_sync_job_cases:
  obtains m where "fst (run_sync_job lt u now i s) = s\<lparr>sy_manual := m\<rparr>"
  | j m where "sql_get j_id i (sy_jobs s) = Some j" and "j_status j \<noteq> ''running''"
      and "fst (run_sync_job lt u now i s) = fst (start_run u now j (s\<lparr>sy_manual := m\<rparr>))"
proof (cases "lt - set_or (map_of (sy_manual s) i) 0 < seconds 60")
  case True
  then show ?thesis using that(1) [of "sy_manual s"] by (simp add: run_sync_job_def)
next
  case False
  let ?s = "s\<lparr>sy_manual := dict_put i lt (sy_manual s)\<rparr>"
  show ?thesis
  proof (cases "fst (run_sync_job lt u now i s) = ?s")
    case True
    then show ?thesis by (rule that(1))
  next
    case changed: False
    then obtain j where "sql_get j_id i (sy_jobs s) = Some j" "j_status j \<noteq> ''running''"
        "fst (run_sync_job lt u now i s) = fst (start_run u now j ?s)"
      using False by (auto simp: run_sync_job_def Let_def split: option.splits if_splits)
    then show ?thesis by (rule that(2))
  qed
qed

lemma run_sync_job_inv:
  assumes "sync_inv s"
  shows "sync_inv (fst (run_sync_job lt u now i s))"
proof (cases rule: run_sync_job_cases [of lt u now i s])
  case (1 m)
  then show ?thesis using sync_inv_frame [OF assms] by simp
next
  case (2 j m)
  have "sync_inv (s\<lparr>sy_manual := m\<rparr>)" by (rule sync_inv_frame [OF assms]) simp_all
  then show ?thesis unfolding 2(3) using 2(1) by (intro start_run_inv [of _ i j]) auto
qed

lemma cancel_sync_job_cases:
  obtains "fst (cancel_sync_job i s) = s"
  | j r where "sql_get j_id i (sy_jobs s) = Some j" and "map_of (sy_procs s) i = Some r"
      and "fst (cancel_sync_job i s) = put_job (j\<lparr>j_status := ''idle''\<rparr>) (s\<lparr>sy_procs := dict_del i (sy_procs s)\<rparr>)"
proof (cases "fst (cancel_sync_job i s) = s")
  case False
  then obtain j r where "sql_get j_id i (sy_jobs s) = Some j" "map_of (sy_procs s) i = Some r"
      "fst (cancel_sync_job i s) = put_job (j\<lparr>j_status := ''idle''\<rparr>) (s\<lparr>sy_procs := dict_del i (sy_procs s)\<rparr>)"
    by (auto simp: cancel_sync_job_def cancel_sync_def split: option.splits if_splits)
  then show ?thesis by (rule that(2))
qed (rule that(1))

lemma cancel_sync_job_inv:
  assumes "sync_inv s"
  shows "sync_inv (fst (cancel_sync_job i s))"
proof (cases rule: cancel_sync_job_cases [of i s])
  case (2 j r)
  have j: "job_ok j" "j_id j = i" using sync_inv_get [OF assms 2(1)] by auto
  have "sync_inv (s\<lparr>sy_procs := dict_del i (sy_procs s)\<rparr>)" by (rule sync_inv_frame [OF assms]) simp_all
  then show ?thesis unfolding 2(3) using 2(1) j
    by (intro put_job_inv [of _ i j]) (auto simp: job_ok_def trigger_ok_def JOB_STATUSES_def)
qed (use assms in simp)

lemma callback_cases:
  obtains "scheduled_job_callback nt u now arg s = s"
  | i j where "arg = Some i" and "sql_get j_id i (sy_jobs s) = Some j" and "j_status j \<noteq> ''running''"
      and "scheduled_job_callback nt u now arg s = put_job (j\<lparr>j_status := ''failed'', j_last_error := Some ''Backend not online''\<rparr>) s"
  | i j j0 where "arg = Some i" and "sql_get j_id i (sy_jobs s) = Some j" and "j_status j \<noteq> ''running''"
      and "j0 = j \<or> (\<exists>t. j0 = j\<lparr>j_next_run_at := t\<rparr>)" and "scheduled_job_callback nt u now arg s = fst (start_run u now j0 s)"
proof (cases "\<exists>i j. arg = Some i \<and> sql_get j_id i (sy_jobs s) = Some j \<and> j_status j \<noteq> ''running''")
  case True
  then obtain i j where i: "arg = Some i" "sql_get j_id i (sy_jobs s) = Some j" "j_status j \<noteq> ''running''" by blast
  show ?thesis
  proof (cases "case job_backend j s of None \<Rightarrow> True | Some b \<Rightarrow> be_status b \<noteq> ''online''")
    case True
    then show ?thesis using that(2) [OF i] i by (simp add: scheduled_job_callback_def)
  next
    case False
    let ?j = "case get_next_run_time nt i (sy_sched s) of None \<Rightarrow> j | Some t \<Rightarrow> j\<lparr>j_next_run_at := Some t\<rparr>"
    have "scheduled_job_callback nt u now arg s = fst (start_run u now ?j s)"
      using i False by (simp add: scheduled_job_callback_def split_beta)
    moreover have "?j = j \<or> (\<exists>t. ?j = j\<lparr>j_next_run_at := t\<rparr>)" by (auto split: option.splits)
    ultimately show ?thesis using that(3) [OF i] by blast
  qed
next
  case False
  then show ?thesis using that(1) by (auto simp: scheduled_job_callback_def split: option.splits)
qed

lemma callback_inv:
  assumes "sync_inv s"
  shows "sync_inv (scheduled_job_callback nt u now arg s)"
proof (cases rule: callback_cases [of nt u now arg s])
  case (2 i j)
  have j: "job_ok j" "j_id j = i" using sync_inv_get [OF assms 2(2)] by auto
  then show ?thesis unfolding 2(4) using assms 2(2)
    by (intro put_job_inv [of _ i j]) (auto simp: job_ok_def trigger_ok_def JOB_STATUSES_def)
next
  case (3 i j j0)
  then show ?thesis using start_run_inv [OF assms 3(2,4)] by simp
qed (use assms in simp)

text \<open>Reporting a run changes the status of its job and the run's row.\<close>

definition reported :: "sync_job \<Rightarrow> sync_world \<Rightarrow> sync_world \<Rightarrow> bool" where
  "reported job s s' \<longleftrightarrow> sy_active s' = sy_active s \<and> sy_waiting s' = sy_waiting s \<and> sy_sched s' = sy_sched s
     \<and> (sy_jobs s' = sy_jobs s \<or> (\<exists>j st la err. sql_get j_id (j_id job) (sy_jobs s) = Some j \<and> st \<in> {''synced'', ''failed''}
          \<and> sy_jobs s' = save_row j_id (j\<lparr>j_status := st, j_last_run_at := la, j_last_error := err\<rparr>) (sy_jobs s)))"

lemma reported_inv:
  assumes "sync_inv s" and "reported job s s'"
  shows "sync_inv s'"
proof (cases "sy_jobs s' = sy_jobs s")
  case True
  then show ?thesis using assms by (intro sync_inv_frame [OF assms(1)]) (simp_all add: reported_def)
next
  case False
  then obtain j st la err where j: "sql_get j_id (j_id job) (sy_jobs s) = Some j" "st \<in> {''synced'', ''failed''}"
      "sy_jobs s' = save_row j_id (j\<lparr>j_status := st, j_last_run_at := la, j_last_error := err\<rparr>) (sy_jobs s)"
    using assms(2) by (auto simp: reported_def)
  have "sync_inv (put_job (j\<lparr>j_status := st, j_last_run_at := la, j_last_error := err\<rparr>) s)"
    using sync_inv_get [OF assms(1) j(1)] j
    by (intro put_job_inv [OF assms(1) j(1)]) (auto simp: job_ok_def trigger_ok_def JOB_STATUSES_def)
  then show ?thesis using assms(2) j(3) by (simp add: sync_inv_def put_job_def reported_def)
qed

lemma sync_raised_reported: "reported job s (sync_raised now msg job run s)"
  by (auto simp: sync_raised_def Let_def reported_def put_job_def put_run_def split: option.splits)

lemma sync_raised_inv: "sync_inv s \<Longrightarrow> sync_inv (sync_raised now msg job run s)"
  by (rule reported_inv [OF _ sync_raised_reported])

lemma begin_sync_cases:
  obtains "begin_sync ts err now s = s"
  | job run w st msg where "sy_waiting s = (job, run) # w" and "begin_sync ts err now s = sync_raised now msg job run (s\<lparr>sy_waiting := w, sy_store := st\<rparr>)"
  | job run w st where "sy_waiting s = (job, run) # w" and "length (sy_active s) < MAX_CONCURRENT_SYNCS"
      and "begin_sync ts err now s =
             s\<lparr>sy_waiting := w, sy_store := st, sy_active := sy_active s @ [(job, run, ts)], sy_procs := dict_put (j_id job) run (sy_procs s)\<rparr>"
proof (cases "sy_waiting s = [] \<or> length (sy_active s) \<ge> MAX_CONCURRENT_SYNCS")
  case True
  then show ?thesis using that(1) by (auto simp: begin_sync_def split: list.splits)
next
  case False
  then obtain job run w where w: "sy_waiting s = (job, run) # w" and l: "length (sy_active s) < MAX_CONCURRENT_SYNCS"
    by (cases "sy_waiting s") auto
  let ?s = "s\<lparr>sy_waiting := w\<rparr>"
  have same: "?s = s\<lparr>sy_waiting := w, sy_store := sy_store s\<rparr>" by simp
  show ?thesis
  proof (cases "\<exists>b. job_backend job ?s = Some b \<and> be_mount_point b \<noteq> None")
    case False
    then have "begin_sync ts err now s = sync_raised now ''Backend not mounted or not found'' job run (s\<lparr>sy_waiting := w, sy_store := sy_store s\<rparr>)"
      using w l by (auto simp: begin_sync_def Let_def split: option.splits)
    then show ?thesis by (rule that(2) [OF w])
  next
    case True
    then obtain b where b: "job_backend job ?s = Some b" "be_mount_point b \<noteq> None" by blast
    show ?thesis
    proof (cases "make_folders [] (version_path job ts) (nfs_tree (nfs_of (be_id b) (sy_store s)))")
      case (Inl e)
      then have "begin_sync ts err now s = sync_raised now ''FileExistsError'' job run (s\<lparr>sy_waiting := w, sy_store := sy_store s\<rparr>)"
        using w l b by (auto simp: begin_sync_def Let_def)
      then show ?thesis by (rule that(2) [OF w])
    next
      case (Inr t)
      then show ?thesis
        using that(2) [OF w, where st = "fst (on_nfs (be_id b) (put_tree t (nfs_of (be_id b) (sy_store s)), ()) (sy_store s))"]
          that(3) [OF w l, where st = "fst (on_nfs (be_id b) (put_tree t (nfs_of (be_id b) (sy_store s)), ()) (sy_store s))"] w l b
        by (cases err) (auto simp: begin_sync_def Let_def)
    qed
  qed
qed

lemma begin_sync_inv:
  assumes "sync_inv s"
  shows "sync_inv (begin_sync ts err now s)"
proof (cases rule: begin_sync_cases [of ts err now s])
  case (2 job run w st msg)
  have "sync_inv (s\<lparr>sy_waiting := w, sy_store := st\<rparr>)" by (rule sync_inv_frame [OF assms]) simp_all
  then show ?thesis unfolding 2(2) by (rule sync_raised_inv)
next
  case (3 job run w st)
  then show ?thesis using assms by (simp add: sync_inv_def)
qed (use assms in simp)


lemma on_destination_frame [simp]:
  "sy_jobs (on_destination job f s) = sy_jobs s" "sy_active (on_destination job f s) = sy_active s"
  "sy_waiting (on_destination job f s) = sy_waiting s" "sy_sched (on_destination job f s) = sy_sched s"
  "sy_runs (on_destination job f s) = sy_runs s" "sy_procs (on_destination job f s) = sy_procs s"
  by (simp_all add: on_destination_def Let_def)

lemma report_run_reported:
  assumes "report_run code fs bt now job run s = Inr s'"
  shows "reported job s s'"
proof -
  obtain r j where r: "sql_get r_id run (sy_runs s) = Some r" and j: "sql_get j_id (j_id job) (sy_jobs s) = Some j"
    using assms by (cases "sql_get r_id run (sy_runs s)"; cases "sql_get j_id (j_id job) (sy_jobs s)") (simp_all add: report_run_def)
  define err where "err = (if code = 0 then j_last_error j else Some (''rsync exited with code '' @ show_int code))"
  have "sy_jobs s' = save_row j_id (j\<lparr>j_status := (if code = 0 then ''synced'' else ''failed''), j_last_run_at := Some now, j_last_error := err\<rparr>) (sy_jobs s)
      \<and> sy_active s' = sy_active s \<and> sy_waiting s' = sy_waiting s \<and> sy_sched s' = sy_sched s"
    using assms r j by (auto simp: report_run_def Let_def put_job_def put_run_def err_def)
  then show ?thesis unfolding reported_def using j
    by (intro conjI disjI2 exI [of _ j] exI [of _ "if code = 0 then ''synced'' else ''failed''"] exI [of _ "Some now"] exI [of _ err]) simp_all
qed

lemma reported_cong: "reported job s s' \<Longrightarrow> sy_jobs s2 = sy_jobs s' \<Longrightarrow> sy_active s2 = sy_active s' \<Longrightarrow> sy_waiting s2 = sy_waiting s'
    \<Longrightarrow> sy_sched s2 = sy_sched s' \<Longrightarrow> reported job s s2"
  by (simp add: reported_def)

lemma end_sync_reported:
  "\<exists>s1. sy_jobs s1 = sy_jobs s \<and> sy_active s1 = remove1 (job, run, ts) (sy_active s) \<and> sy_waiting s1 = sy_waiting s \<and> sy_sched s1 = sy_sched s
     \<and> reported job s1 (end_sync job run ts files ls code now s)"
proof -
  let ?s = "on_destination job (write_files (version_path job ts) files) (s\<lparr>sy_active := remove1 (job, run, ts) (sy_active s)\<rparr>)"
  let ?p = "?s\<lparr>sy_procs := dict_del (j_id job) (sy_procs ?s)\<rparr>"
  show ?thesis
  proof (cases "read_output ls (0, 0)")
    case (Inl e)
    then show ?thesis using sync_raised_reported [of job ?s now e run] by (intro exI [of _ ?s]) (simp add: end_sync_def Let_def)
  next
    case (Inr c)
    obtain fs bt where c: "c = (fs, bt)" by force
    show ?thesis
    proof (cases "report_run code fs bt now job run ?p")
      case (Inl e)
      then show ?thesis using sync_raised_reported [of job ?p now e run] Inr c
        by (intro exI [of _ ?p]) (simp add: end_sync_def Let_def)
    next
      case r: (Inr s')
      have "reported job ?p (end_sync job run ts files ls code now s)"
        by (rule reported_cong [OF report_run_reported [OF r]]) (use Inr c r in \<open>simp_all add: end_sync_def Let_def cleanup_old_runs_def\<close>)
      then show ?thesis by (intro exI [of _ ?p]) simp
    qed
  qed
qed

lemma end_sync_inv:
  assumes "sync_inv s"
  shows "sync_inv (end_sync job run ts files ls code now s)"
proof -
  obtain s1 where s1: "sy_jobs s1 = sy_jobs s" "sy_active s1 = remove1 (job, run, ts) (sy_active s)" "sy_sched s1 = sy_sched s"
      "reported job s1 (end_sync job run ts files ls code now s)"
    using end_sync_reported [of s job run ts files ls code now] by blast
  have "sync_inv s1" using s1 by (intro sync_inv_frame [OF assms]) (simp_all add: length_remove1)
  then show ?thesis using s1(4) by (rule reported_inv)
qed

text \<open>Under the invariant the start-up succeeds and registers every job that is not manual.\<close>

lemma schedule_job_ok:
  assumes "trigger_ok j" and "j_schedule j \<noteq> ''manual''"
  shows "\<exists>sch' r. schedule_job nt (j_id j) (Some (j_id j)) (j_schedule j) (j_schedule_day j) (j_schedule_time j) sch = (sch', Inr r)"
  using assms unfolding trigger_ok_def schedule_job_def Let_def
  by (auto split: sum.splits option.splits)

definition same_but_next :: "sync_job list \<Rightarrow> sync_job list \<Rightarrow> bool" where
  "same_but_next js js' \<longleftrightarrow> list_all2 (\<lambda>j j'. \<exists>t. j' = j\<lparr>j_next_run_at := t\<rparr>) js js'"

lemma same_but_next_same: "\<exists>t. j = j\<lparr>j_next_run_at := t\<rparr>" for j :: sync_job
  by (rule exI [of _ "j_next_run_at j"]) simp

lemma register_jobs_ok:
  assumes "\<forall>j \<in> set js. trigger_ok j" and "sched_ok ids sch" and "j_id ` set js \<subseteq> ids"
  shows "\<exists>sch' js'. register_jobs nt js sch = Inr (sch', js') \<and> sched_ok ids sch' \<and> same_but_next js js'"
  using assms
proof (induction js arbitrary: sch)
  case (Cons j js)
  show ?case
  proof (cases "j_schedule j = ''manual''")
    case True
    obtain sch' js' where "register_jobs nt js sch = Inr (sch', js')" "sched_ok ids sch'" "same_but_next js js'"
      using Cons.IH [of sch] Cons.prems by auto
    then show ?thesis using True same_but_next_same [of j] by (simp add: same_but_next_def)
  next
    case False
    obtain sch1 r where r: "schedule_job nt (j_id j) (Some (j_id j)) (j_schedule j) (j_schedule_day j) (j_schedule_time j) sch = (sch1, Inr r)"
      using schedule_job_ok [of j nt sch] False Cons.prems(1) by auto
    have "sched_ok ids (fst (schedule_job nt (j_id j) (Some (j_id j)) (j_schedule j) (j_schedule_day j) (j_schedule_time j) sch))"
      by (rule sched_ok_schedule) (use Cons.prems in auto)
    then have "sched_ok ids sch1" by (simp add: r)
    then obtain sch' js' where js: "register_jobs nt js sch1 = Inr (sch', js')" "sched_ok ids sch'" "same_but_next js js'"
      using Cons.IH [of sch1] Cons.prems by auto
    let ?j = "if r = None then j else j\<lparr>j_next_run_at := r\<rparr>"
    have "register_jobs nt (j # js) sch = Inr (sch', ?j # js')" using False r js(1) by (simp add: Let_def)
    moreover have "same_but_next (j # js) (?j # js')" using js(3) same_but_next_same [of j] by (auto simp: same_but_next_def)
    ultimately show ?thesis using js(2) by blast
  qed
qed (simp add: same_but_next_def)

lemma job_ok_next [simp]: "job_ok (j\<lparr>j_next_run_at := t\<rparr>) = job_ok j"
  by (simp add: job_ok_def trigger_ok_def)

lemma same_but_next_keys:
  assumes "same_but_next js js'"
  shows "map j_id js' = map j_id js \<and> map j_name js' = map j_name js \<and> map job_ok js' = map job_ok js"
  using assms unfolding same_but_next_def
proof (induction rule: list_all2_induct)
  case (Cons j js j' js')
  then obtain t where "j' = j\<lparr>j_next_run_at := t\<rparr>" by blast
  with Cons show ?case by simp
qed simp

lemma same_but_next_ok: "same_but_next js js' \<Longrightarrow> \<forall>j \<in> set js. job_ok j \<Longrightarrow> \<forall>j \<in> set js'. job_ok j"
  using same_but_next_keys [of js js'] by (metis (full_types) list.set_map image_iff)

lemma restart_ok:
  assumes "sync_inv s"
  shows "\<exists>s'. restart_controller nt s = Some s' \<and> sync_inv s' \<and> same_but_next (sy_jobs s) (sy_jobs s')
    \<and> sy_waiting s' = [] \<and> sy_active s' = [] \<and> sy_procs s' = []"
proof -
  obtain sch js where r: "register_jobs nt (sy_jobs s) [] = Inr (sch, js)" "sched_ok (j_id ` set (sy_jobs s)) sch" "same_but_next (sy_jobs s) js"
    using register_jobs_ok [of "sy_jobs s" "j_id ` set (sy_jobs s)" "[]" nt] assms by (auto simp: sync_inv_def job_ok_def sched_ok_def)
  have "j_id ` set js = j_id ` set (sy_jobs s)" using same_but_next_keys [OF r(3)] by (metis list.set_map)
  then show ?thesis using r same_but_next_keys [OF r(3)] same_but_next_ok [OF r(3)] assms
    by (simp add: restart_controller_def sync_inv_def keys_unique_def MAX_CONCURRENT_SYNCS_def)
qed

lemma on_event_inv:
  assumes "sync_inv s"
  shows "sync_inv (on_event nt ev s)"
proof (cases ev)
  case (StoreRequest out w q)
  then show ?thesis using sync_inv_frame [OF assms] by simp
next
  case Restart
  then show ?thesis using restart_ok [OF assms, of nt] by auto
qed (use assms in \<open>simp_all add: create_sync_job_inv update_sync_job_inv delete_sync_job_inv run_sync_job_inv cancel_sync_job_inv
      callback_inv begin_sync_inv end_sync_inv list_sync_jobs_def get_sync_job_def get_sync_job_history_def Let_def split: option.splits\<close>)

lemma sync_events_inv: "sync_inv s \<Longrightarrow> sync_inv (sync_events nt evs s)"
  unfolding sync_events_def by (induction evs arbitrary: s) (simp_all add: on_event_inv)

section \<open>Properties\<close>

lemma trigger_built:
  assumes "trigger_ok j" and "j_schedule j \<noteq> ''manual''"
  obtains tr where "build_trigger (j_schedule j) (j_schedule_day j) (j_schedule_time j) = Inr (Some tr)"
  using assms unfolding trigger_ok_def SCHEDULES_def
  by (cases "parse_time (j_schedule_time j)") (auto simp: build_trigger_def Let_def split: if_splits)

lemma register_jobs_entries:
  assumes "register_jobs nt js sch = Inr (sch', js')" and "\<forall>j \<in> set js. trigger_ok j" and "distinct (map j_id js)"
  shows "(\<forall>e \<in> set sch. sc_id e \<notin> j_id ` set js \<longrightarrow> e \<in> set sch')
    \<and> (\<forall>j \<in> set js. j_schedule j \<noteq> ''manual'' \<longrightarrow> (\<exists>e \<in> set sch'. sc_arg e = Some (j_id j)))"
  using assms
proof (induction js arbitrary: sch js')
  case (Cons j js)
  show ?case
  proof (cases "j_schedule j = ''manual''")
    case True
    then obtain js1 where "register_jobs nt js sch = Inr (sch', js1)" using Cons.prems(1) by (auto simp: ebind_Inr_iff)
    then show ?thesis using Cons.IH [of sch js1] Cons.prems True by auto
  next
    case False
    obtain tr where tr: "build_trigger (j_schedule j) (j_schedule_day j) (j_schedule_time j) = Inr (Some tr)"
      using trigger_built [of j] Cons.prems(2) False by auto
    let ?e = "\<lparr>sc_id = j_id j, sc_arg = Some (j_id j), sc_trigger = tr\<rparr>"
    let ?sch = "filter (\<lambda>e. sc_id e \<noteq> j_id j) (remove_sched (Some (j_id j)) sch) @ [?e]"
    have "schedule_job nt (j_id j) (Some (j_id j)) (j_schedule j) (j_schedule_day j) (j_schedule_time j) sch = (?sch, Inr (Some (nt tr)))"
      using False tr by (simp add: schedule_job_def Let_def)
    then obtain js1 where js1: "register_jobs nt js ?sch = Inr (sch', js1)" using Cons.prems(1) False by (auto simp: ebind_Inr_iff Let_def)
    have ih: "\<forall>e \<in> set ?sch. sc_id e \<notin> j_id ` set js \<longrightarrow> e \<in> set sch'"
        "\<forall>j \<in> set js. j_schedule j \<noteq> ''manual'' \<longrightarrow> (\<exists>e \<in> set sch'. sc_arg e = Some (j_id j))"
      using Cons.IH [OF js1] Cons.prems by auto
    have "?e \<in> set sch'" using ih(1) Cons.prems(3) by auto
    then have "\<exists>e \<in> set sch'. sc_arg e = Some (j_id j)" by force
    moreover have "\<forall>e \<in> set sch. sc_id e \<notin> j_id ` set (j # js) \<longrightarrow> e \<in> set sch'" using ih(1) by (auto simp: remove_sched_def)
    ultimately show ?thesis using ih(2) by auto
  qed
qed simp

text \<open>
  C38: After any events from a controller without jobs: at most three runs hold rsync, names are unique, and
  a restart of the controller succeeds and registers every job that is not manual.
\<close>

theorem sync_jobs_sound:
  assumes "sy_jobs s = []" and "sy_active s = []" and "sy_sched s = []" and "s' = sync_events nt evs s"
  shows "length (sy_active s') \<le> 3 \<and> keys_unique j_name (sy_jobs s')
    \<and> (\<exists>s''. restart_controller nt s' = Some s''
         \<and> (\<forall>j \<in> set (sy_jobs s'). j_schedule j \<noteq> ''manual'' \<longrightarrow> (\<exists>e \<in> set (sy_sched s''). sc_arg e = Some (j_id j))))"
proof -
  have "sync_inv s" using assms(1-3) by (simp add: sync_inv_def keys_unique_def sched_ok_def)
  then have inv: "sync_inv s'" unfolding assms(4) by (rule sync_events_inv)
  obtain s'' where s'': "restart_controller nt s' = Some s''" using restart_ok [OF inv] by blast
  then obtain js where js: "register_jobs nt (sy_jobs s') [] = Inr (sy_sched s'', js)"
    by (auto simp: restart_controller_def split: sum.splits)
  have "\<forall>j \<in> set (sy_jobs s'). trigger_ok j" "distinct (map j_id (sy_jobs s'))"
    using inv by (simp_all add: sync_inv_def job_ok_def keys_unique_def)
  then have "\<forall>j \<in> set (sy_jobs s'). j_schedule j \<noteq> ''manual'' \<longrightarrow> (\<exists>e \<in> set (sy_sched s''). sc_arg e = Some (j_id j))"
    using register_jobs_entries [OF js] by blast
  then show ?thesis using inv s'' by (auto simp: sync_inv_def MAX_CONCURRENT_SYNCS_def)
qed

text \<open>C40: A new job is scheduled under no id: none of the triggers of the scheduler is its own.\<close>

theorem new_job_not_scheduled:
  assumes "sync_inv s" and "create_sync_job nt d u b s = (s', Inr r)"
  shows "(\<forall>e \<in> set (sy_sched s'). sc_arg e \<noteq> Some u)
    \<and> sql_get j_id u (sy_jobs (sync_events nt (map (\<lambda>(v, now, e). TriggerFires v now e) fires) s')) = sql_get j_id u (sy_jobs s')"
proof -
  have sch: "\<forall>e \<in> set (sy_sched s'). sc_arg e \<noteq> Some u"
  proof (cases rule: create_sync_job_cases [of nt d u b s])
    case (2 j sch)
    have "sched_ok (j_id ` set (sy_jobs s)) sch"
      using 2(12) assms(1) sched_ok_schedule [of "j_id ` set (sy_jobs s)" "sy_sched s" None] by (auto simp: sync_inv_def)
    moreover have "sy_sched s' = sch" using 2(2) assms(2) by simp
    ultimately show ?thesis using 2(5) by (auto simp: sched_ok_def)
  qed (use assms(2) in auto)
  have start: "sql_get j_id u (sy_jobs (fst (start_run v now j0 t))) = sql_get j_id u (sy_jobs t) \<and> sy_sched (fst (start_run v now j0 t)) = sy_sched t"
    if "j_id j0 \<noteq> u" for v now j0 t
    using that by (auto simp: start_run_def Let_def put_job_def tab_simps split: sum.splits)
  have fire: "sql_get j_id u (sy_jobs (on_event nt (TriggerFires v now e) t)) = sql_get j_id u (sy_jobs t)
      \<and> sy_sched (on_event nt (TriggerFires v now e) t) = sy_sched t" if t: "\<forall>e \<in> set (sy_sched t). sc_arg e \<noteq> Some u" for v now e t
  proof (cases "e \<in> set (sy_sched t)")
    case True
    show ?thesis
    proof (cases rule: callback_cases [of nt v now "sc_arg e" t])
      case (2 i j)
      then have "j_id j \<noteq> u" using t True by (auto dest: sql_get_SomeD)
      then show ?thesis using 2(4) True by (auto simp: put_job_def tab_simps)
    next
      case (3 i j j0)
      then have "j_id j0 \<noteq> u" using t True by (auto dest: sql_get_SomeD)
      then show ?thesis using 3(5) True start by simp
    qed (use True in simp)
  qed simp
  have "sql_get j_id u (sy_jobs (sync_events nt (map (\<lambda>(v, now, e). TriggerFires v now e) fires) t)) = sql_get j_id u (sy_jobs t)"
    if "\<forall>e \<in> set (sy_sched t). sc_arg e \<noteq> Some u" for t
    using that
  proof (induction fires arbitrary: t)
    case (Cons f fires)
    obtain v now e where f: "f = (v, now, e)" by (cases f)
    show ?case using Cons fire [of t v now e] by (simp add: f sync_events_def del: on_event.simps)
  qed (simp add: sync_events_def)
  then show ?thesis using sch by blast
qed

text \<open>An update that is refused by the scheduler has removed the trigger of the job, whose row stays scheduled.\<close>

lemma refused_update_unschedules:
  assumes "sql_get j_id i (sy_jobs s) = Some j" and "j_status j \<noteq> ''running''" and "valid_update b"
    and "ju_name b = None" and "ju_schedule_day b \<noteq> None" and "j_schedule (updated_fields b j) \<noteq> ''manual''"
    and "build_trigger (j_schedule (updated_fields b j)) (j_schedule_day (updated_fields b j)) (j_schedule_time (updated_fields b j)) = Inl e"
  shows "update_sync_job nt i b s = (s\<lparr>sy_sched := remove_sched (Some i) (sy_sched s)\<rparr>, Inl e)"
  using assms by (auto simp: update_sync_job_def Let_def schedule_job_def)

text \<open>A job without a run: neither waiting, nor active, nor with a process.\<close>

definition orphaned :: "string \<Rightarrow> sync_world \<Rightarrow> bool" where
  "orphaned i s \<longleftrightarrow> sync_inv s \<and> map_option j_status (sql_get j_id i (sy_jobs s)) = Some ''running''
     \<and> (\<forall>w \<in> set (sy_waiting s). j_id (fst w) \<noteq> i) \<and> (\<forall>a \<in> set (sy_active s). j_id (fst a) \<noteq> i) \<and> map_of (sy_procs s) i = None"

lemma put_job_other: "j_id j \<noteq> i \<Longrightarrow> sql_get j_id i (sy_jobs (put_job j s)) = sql_get j_id i (sy_jobs s)"
  by (auto simp: put_job_def tab_simps)

lemma orphaned_cong:
  "orphaned i s \<Longrightarrow> sync_inv s' \<Longrightarrow> sql_get j_id i (sy_jobs s') = sql_get j_id i (sy_jobs s) \<Longrightarrow> set (sy_waiting s') \<subseteq> set (sy_waiting s)
    \<Longrightarrow> set (sy_active s') \<subseteq> set (sy_active s) \<Longrightarrow> map_of (sy_procs s') i = map_of (sy_procs s) i \<Longrightarrow> orphaned i s'"
  by (auto simp: orphaned_def)

lemma start_run_orphaned:
  assumes "orphaned i s" and "j_id j \<noteq> i" and "sync_inv (fst (start_run u now j s))"
  shows "orphaned i (fst (start_run u now j s))"
proof (cases "sql_insert r_id (new_run u (j_id j) now) (sy_runs s)")
  case (Inr rs)
  let ?t = "s\<lparr>sy_runs := rs, sy_waiting := sy_waiting s @ [(j\<lparr>j_status := ''running''\<rparr>, u)]\<rparr>"
  have r: "fst (start_run u now j s) = put_job (j\<lparr>j_status := ''running''\<rparr>) ?t" using Inr by (simp add: start_run_def Let_def)
  have "sql_get j_id i (sy_jobs (put_job (j\<lparr>j_status := ''running''\<rparr>) ?t)) = sql_get j_id i (sy_jobs s)"
    using assms(2) put_job_other [of "j\<lparr>j_status := ''running''\<rparr>" i ?t] by simp
  then show ?thesis using assms unfolding r by (auto simp: orphaned_def)
qed (use assms in \<open>simp add: start_run_def Let_def\<close>)

lemma running_other:
  assumes "orphaned i s" and "sql_get j_id k (sy_jobs s) = Some j" and "j_status j \<noteq> ''running''"
  shows "j_id j \<noteq> i"
  using assms sql_get_SomeD [OF assms(2)] by (auto simp: orphaned_def)

lemma reported_orphaned:
  assumes "orphaned i s" and "reported job s s'" and "j_id job \<noteq> i" and "map_of (sy_procs s') i = None" and "sync_inv s'"
  shows "orphaned i s'"
proof -
  have "sql_get j_id i (sy_jobs s') = sql_get j_id i (sy_jobs s)"
    using assms(2,3) by (auto simp: reported_def tab_simps dest!: sql_get_SomeD)
  then show ?thesis using assms by (auto simp: orphaned_def reported_def)
qed

lemma end_sync_procs: "map_of (sy_procs s) i = None \<Longrightarrow> map_of (sy_procs (end_sync job run ts files ls code now s)) i = None"
proof -
  assume a: "map_of (sy_procs s) i = None"
  have r: "sy_procs (sync_raised now msg job run t) = sy_procs t" for msg t
    by (simp add: sync_raised_def Let_def split: option.splits)
  have p: "report_run c fs bt now job run t = Inr t' \<Longrightarrow> sy_procs t' = sy_procs t" for c fs bt t t'
    by (auto simp: report_run_def Let_def split: option.splits)
  show ?thesis using a by (auto simp: end_sync_def Let_def r cleanup_old_runs_def dest: p split: sum.splits)
qed

lemma orphaned_store: "orphaned i s \<Longrightarrow> sync_inv (s\<lparr>sy_store := st\<rparr>) \<Longrightarrow> orphaned i (s\<lparr>sy_store := st\<rparr>)"
  by (simp add: orphaned_def)

lemma same_but_next_status:
  assumes "same_but_next js js'"
  shows "map_option j_status (sql_get j_id i js') = map_option j_status (sql_get j_id i js)"
  using assms unfolding same_but_next_def
proof (induction rule: list_all2_induct)
  case (Cons j js j' js')
  then obtain t where "j' = j\<lparr>j_next_run_at := t\<rparr>" by blast
  with Cons show ?case by (simp add: sql_get_def)
qed simp

lemma on_event_orphaned:
  assumes "orphaned i s" and "ev \<noteq> DeleteSyncJob i"
  shows "orphaned i (on_event nt ev s)"
proof -
  have s: "sync_inv s" "map_option j_status (sql_get j_id i (sy_jobs s)) = Some ''running''" "map_of (sy_procs s) i = None"
    using assms(1) by (auto simp: orphaned_def)
  have inv: "sync_inv (on_event nt ev s)" using s(1) by (rule on_event_inv)
  show ?thesis
  proof (cases ev)
    case (CreateSyncJob d u b)
    show ?thesis
    proof (cases rule: create_sync_job_cases [of nt d u b s])
      case (1 sch)
      then show ?thesis using CreateSyncJob inv by (intro orphaned_cong [OF assms(1)]) simp_all
    next
      case (2 j sch)
      then show ?thesis using CreateSyncJob inv s(2) by (intro orphaned_cong [OF assms(1)]) (auto simp: sql_get_def find_append)
    qed
  next
    case (UpdateSyncJob k b)
    show ?thesis
    proof (cases rule: update_sync_job_cases [of nt k b s])
      case (1 sch)
      then show ?thesis using UpdateSyncJob inv by (intro orphaned_cong [OF assms(1)]) simp_all
    next
      case (2 j j' sch)
      have "j_id j' \<noteq> i" using running_other [OF assms(1) 2(1,2)] 2(4) by simp
      then show ?thesis using UpdateSyncJob inv 2(3) by (intro orphaned_cong [OF assms(1)]) (simp_all add: put_job_other)
    qed
  next
    case (DeleteSyncJob k)
    then have k: "k \<noteq> i" using assms(2) by auto
    have "sql_get j_id i (filter (\<lambda>x. j_id x \<noteq> k) js) = sql_get j_id i js" for js
      using k by (induction js) (auto simp: sql_get_def)
    then show ?thesis using DeleteSyncJob inv k
      by (intro orphaned_cong [OF assms(1)]) (auto simp: delete_sync_job_def Let_def cancel_sync_def split: option.splits)
  next
    case (RunSyncJob lt u now k)
    show ?thesis
    proof (cases rule: run_sync_job_cases [of lt u now k s])
      case (1 m)
      then show ?thesis using RunSyncJob inv by (intro orphaned_cong [OF assms(1)]) simp_all
    next
      case (2 j m)
      have t: "orphaned i (s\<lparr>sy_manual := m\<rparr>)" by (rule orphaned_cong [OF assms(1)]) (use sync_inv_frame [OF s(1)] in simp_all)
      show ?thesis using start_run_orphaned [OF t running_other [OF assms(1) 2(1,2)], of u now] inv RunSyncJob 2(3) by simp
    qed
  next
    case (CancelSyncJob k)
    show ?thesis
    proof (cases rule: cancel_sync_job_cases [of k s])
      case (2 j r)
      have "j_id j = k" "k \<noteq> i" using 2(1,2) s(3) by (auto dest: sql_get_SomeD)
      then show ?thesis using CancelSyncJob inv 2(3) by (intro orphaned_cong [OF assms(1)]) (simp_all add: put_job_other)
    qed (use CancelSyncJob assms(1) in simp)
  next
    case (TriggerFires u now e)
    show ?thesis
    proof (cases "e \<in> set (sy_sched s)")
      case True
      show ?thesis
      proof (cases rule: callback_cases [of nt u now "sc_arg e" s])
        case (2 k j)
        have "j_id j \<noteq> i" using running_other [OF assms(1) 2(2,3)] .
        then show ?thesis using TriggerFires True inv 2(4) by (intro orphaned_cong [OF assms(1)]) (simp_all add: put_job_other)
      next
        case (3 k j j0)
        have "j_id j0 \<noteq> i" using running_other [OF assms(1) 3(2,3)] 3(4) by auto
        then show ?thesis using start_run_orphaned [OF assms(1), of j0 u now] inv TriggerFires True 3(5) by simp
      qed (use TriggerFires True assms(1) in simp)
    qed (use TriggerFires assms(1) in simp)
  next
    case (BeginSync ts err now)
    show ?thesis
    proof (cases rule: begin_sync_cases [of ts err now s])
      case (2 job run w st msg)
      have w: "j_id job \<noteq> i" using 2(1) assms(1) by (auto simp: orphaned_def)
      have t: "orphaned i (s\<lparr>sy_waiting := w, sy_store := st\<rparr>)"
        by (rule orphaned_cong [OF assms(1)]) (use sync_inv_frame [OF s(1)] 2(1) in auto)
      have "sy_procs (sync_raised now msg job run t) = sy_procs t" for t
        by (simp add: sync_raised_def Let_def split: option.splits)
      then show ?thesis using reported_orphaned [OF t sync_raised_reported w] inv BeginSync 2(2) s(3) by simp
    next
      case (3 job run w st)
      then show ?thesis using assms(1) inv BeginSync by (auto simp: orphaned_def)
    qed (use BeginSync assms(1) in simp)
  next
    case (EndSync job run ts files ls code now)
    show ?thesis
    proof (cases "(job, run, ts) \<in> set (sy_active s)")
      case True
      then have a: "j_id job \<noteq> i" using assms(1) by (auto simp: orphaned_def)
      obtain s1 where s1: "sy_jobs s1 = sy_jobs s" "sy_active s1 = remove1 (job, run, ts) (sy_active s)" "sy_waiting s1 = sy_waiting s"
          "sy_sched s1 = sy_sched s" "reported job s1 (end_sync job run ts files ls code now s)"
        using end_sync_reported [of s job run ts files ls code now] by blast
      let ?t = "s1\<lparr>sy_procs := sy_procs s\<rparr>"
      have "sync_inv ?t" by (rule sync_inv_frame [OF s(1)]) (use s1 in \<open>simp_all add: length_remove1\<close>)
      then have t: "orphaned i ?t" using s1 by (intro orphaned_cong [OF assms(1)]) (auto dest: set_remove1_subset [THEN subsetD])
      have "reported job ?t (end_sync job run ts files ls code now s)" using s1(5) by (simp add: reported_def)
      then show ?thesis using reported_orphaned [OF t _ a] end_sync_procs [OF s(3)] inv EndSync True by simp
    qed (use EndSync assms(1) in simp)
  next
    case Restart
    obtain s' where s': "restart_controller nt s = Some s'" "sync_inv s'" "same_but_next (sy_jobs s) (sy_jobs s')"
        "sy_waiting s' = []" "sy_active s' = []" "sy_procs s' = []" using restart_ok [OF s(1), of nt] by blast
    then show ?thesis using Restart s(2) same_but_next_status [OF s'(3), of i] by (simp add: orphaned_def)
  next
    case (StoreRequest out w q)
    then show ?thesis using orphaned_store [OF assms(1)] inv by simp
  qed (use assms(1) in \<open>simp_all add: list_sync_jobs_def get_sync_job_def get_sync_job_history_def Let_def split: option.splits\<close>)
qed

lemma sync_events_orphaned: "orphaned i s \<Longrightarrow> DeleteSyncJob i \<notin> set evs \<Longrightarrow> orphaned i (sync_events nt evs s)"
proof (induction evs arbitrary: s)
  case (Cons ev evs)
  have "orphaned i (on_event nt ev s)" using Cons.prems by (intro on_event_orphaned) auto
  then show ?case using Cons by (simp add: sync_events_def)
qed (simp add: sync_events_def)

text \<open>
  A job that was running when the controller restarted stays in this status, without any run, whatever
  happens next, until it is deleted.
\<close>

theorem restart_strands_job:
  assumes "sync_inv s" and "sql_get j_id i (sy_jobs s) = Some j" and "j_status j = ''running''" and "DeleteSyncJob i \<notin> set evs"
    and "s' = sync_events nt evs (on_event nt Restart s)"
  shows "map_option j_status (sql_get j_id i (sy_jobs s')) = Some ''running'' \<and> (\<forall>w \<in> set (sy_waiting s'). j_id (fst w) \<noteq> i)
    \<and> (\<forall>a \<in> set (sy_active s'). j_id (fst a) \<noteq> i)"
proof -
  obtain t where t: "restart_controller nt s = Some t" "sync_inv t" "same_but_next (sy_jobs s) (sy_jobs t)"
      "sy_waiting t = []" "sy_active t = []" "sy_procs t = []" using restart_ok [OF assms(1), of nt] by blast
  then have "orphaned i (on_event nt Restart s)"
    using same_but_next_status [OF t(3), of i] assms(2,3) by (simp add: orphaned_def)
  then have "orphaned i s'" unfolding assms(5) using assms(4) by (rule sync_events_orphaned)
  then show ?thesis by (simp add: orphaned_def)
qed

section \<open>Versions\<close>
















text \<open>A cancelled job is idle only until its run notices that rsync was terminated.\<close>

lemma cancelled_job_fails:
  assumes "sql_get j_id i (sy_jobs s) = Some j" and "j_status j = ''running''" and "map_of (sy_procs s) i = Some run" and "j_id job = i"
    and "sql_get r_id run (sy_runs s) \<noteq> None" and "read_output ls (0, 0) = Inr c" and "code \<noteq> 0" and "s' = fst (cancel_sync_job i s)"
  shows "map_option j_status (sql_get j_id i (sy_jobs s')) = Some ''idle''
    \<and> map_option j_status (sql_get j_id i (sy_jobs (end_sync job run ts files ls code now s'))) = Some ''failed''"
proof -
  have ji: "j_id j = i" using assms(1) by (auto dest: sql_get_SomeD)
  have s': "s' = put_job (j\<lparr>j_status := ''idle''\<rparr>) (s\<lparr>sy_procs := dict_del i (sy_procs s)\<rparr>)"
    using assms(1-3,8) by (simp add: cancel_sync_job_def cancel_sync_def)
  then have idle: "sql_get j_id i (sy_jobs s') = Some (j\<lparr>j_status := ''idle''\<rparr>)" using assms(1) ji by (simp add: put_job_def tab_simps)
  obtain r where r: "sql_get r_id run (sy_runs s') = Some r" using assms(5) s' by auto
  obtain fs bt where c: "c = (fs, bt)" by force
  have "map_option j_status (sql_get j_id i (sy_jobs (end_sync job run ts files ls code now s'))) = Some ''failed''"
    using idle r c assms(4,6,7) ji
    by (simp add: end_sync_def Let_def report_run_def cleanup_old_runs_def) (simp add: put_job_def tab_simps put_run_def)
  then show ?thesis using idle by simp
qed

section \<open>Examples\<close>

definition mirror_store :: store where
  "mirror_store = demo_store\<lparr>fs_backends := [demo_backend\<lparr>be_mount_point := Some [''mnt'']\<rparr>],
     fs_nfs := [(''b'', \<lparr>nf_mounted = True, nf_share = [([''iso''], Folder), ([''iso'', ''latest''], Folder)], nf_local = Some []\<rparr>)]\<rparr>"

definition demo_sync :: sync_world where
  "demo_sync = \<lparr>sy_jobs = [], sy_runs = [], sy_store = mirror_store, sy_sched = [], sy_manual = [], sy_waiting = [], sy_active = [], sy_procs = []\<rparr>"

definition demo_job :: job_create where
  "demo_job = \<lparr>jc_name = ''mirror'', jc_source_url = ''http://m/iso'', jc_destination_backend_id = ''b'', jc_destination_path = ''/iso/'',
     jc_include_pattern = None, jc_exclude_pattern = None, jc_schedule = ''daily'', jc_schedule_day = None, jc_schedule_time = Some ''03:30'',
     jc_verify_checksums = True, jc_delete_removed = False, jc_keep_versions = 1\<rparr>"

definition demo_next :: "trigger \<Rightarrow> datetime" where
  "demo_next tr = (case tr of Daily h m \<Rightarrow> seconds (h * 3600 + m * 60) | _ \<Rightarrow> 0)"

definition demo_running :: sync_world where
  "demo_running = sync_events demo_next [CreateSyncJob ''d'' ''j'' demo_job, RunSyncJob (seconds 100) ''r'' 5 ''j''] demo_sync"


lemma demo_sync_inv: "sync_inv demo_sync" "sync_inv demo_running"
proof -
  show i: "sync_inv demo_sync" by (simp add: demo_sync_def sync_inv_def keys_unique_def sched_ok_def)
  show "sync_inv demo_running" unfolding demo_running_def using i by (rule sync_events_inv)
qed

theorem sync_jobs_sound_witness:
  "map j_status (sy_jobs demo_running) = [''running''] \<and> length (sy_active demo_running) \<le> 3 \<and> (\<exists>s''. restart_controller demo_next demo_running = Some s'')"
proof -
  have "map j_status (sy_jobs demo_running) = [''running'']" by code_simp
  then show ?thesis using sync_jobs_sound [OF _ _ _ demo_running_def] by (auto simp: demo_sync_def)
qed

theorem new_job_not_scheduled_witness:
  "\<exists>s' r. create_sync_job demo_next ''d'' ''j'' demo_job demo_sync = (s', Inr r) \<and> map sc_id (sy_sched s') = [''d''] \<and> map sc_arg (sy_sched s') \<noteq> [Some ''j'']"
proof -
  have f: "isl (snd (create_sync_job demo_next ''d'' ''j'' demo_job demo_sync)) = False
      \<and> map sc_id (sy_sched (fst (create_sync_job demo_next ''d'' ''j'' demo_job demo_sync))) = [''d'']" by code_simp
  then obtain s' r where c: "create_sync_job demo_next ''d'' ''j'' demo_job demo_sync = (s', Inr r)"
    by (metis isl_def prod.collapse sum.exhaust)
  then show ?thesis using new_job_not_scheduled [OF demo_sync_inv(1) c] f by auto
qed

theorem restart_strands_job_witness:
  "map_option j_status (sql_get j_id ''j'' (sy_jobs (sync_events demo_next [CancelSyncJob ''j'', RunSyncJob (seconds 900) ''q'' 7 ''j'']
     (on_event demo_next Restart demo_running)))) = Some ''running''"
proof -
  have "map_option j_status (sql_get j_id ''j'' (sy_jobs demo_running)) = Some ''running''" by code_simp
  then obtain j where j: "sql_get j_id ''j'' (sy_jobs demo_running) = Some j" "j_status j = ''running''" by auto
  show ?thesis
    using restart_strands_job [OF demo_sync_inv(2) j, of "[CancelSyncJob ''j'', RunSyncJob (seconds 900) ''q'' 7 ''j'']" _ demo_next] by simp
qed


end
