(* ===== verification/Spec2Isabelle.thy ===== *)
theory Spec2Isabelle
  imports NodeRoutes Approvals Connectivity Conflicts QueueProcessor Tftp TftpPaths Dhcp BootPi Clone Sites Templates Access AgentBoot CacheSync ApprovalRules FileRoutes Luns SyncJobs
begin

text \<open>
  \<^bold>\<open>PureBoot.\<close> PureBoot provisions machines over the network. A \<^emph>\<open>controller\<close> (FastAPI over SQLite,
  src/src/main.py) keeps the nodes and their life cycle, tells booting machines what to do, serves
  boot files and is administered by users with roles and approvals. A \<^emph>\<open>site agent\<close>
  (src/src/agent/) stands between a remote site and the controller: it caches node states and
  files, forwards requests, queues writes while the controller is unreachable and replays them
  later. The \<^emph>\<open>PXE servers\<close> (src/src/pxe/) answer DHCP and TFTP.

  This library models these parts as HOL functions on explicit states and proves what makes them
  correct, or shows exactly where they are not. Python is translated as it stands: a class or row
  is a record, a dict an association list, an unbounded int an \<open>int\<close>, bytes on the wire are 8-bit
  words, a float an exact rational (with a rounding parameter in \<open>Health\<close>), a raised exception the
  left value of a sum, and a datetime the number of microseconds since the epoch.

  \<^bold>\<open>The request boundary.\<close> \<open>Session\<close> models \<open>get_db\<close> of src/src/db/database.py: a handler that
  returns is committed, one that raises is rolled back. Its locale \<open>transactional\<close> is the contract of
  a set of handlers with an invariant; \<open>serve_inv\<close> and \<open>serve_preserves\<close> carry a property from one
  handler to any sequence of requests. It is interpreted on the dispatcher of every group of
  routes (\<open>node_api\<close>, \<open>admin_api\<close>, \<open>disk_api\<close>, \<open>clone_api\<close>, \<open>boot_api\<close>, \<open>pi_api\<close>, \<open>approval_api\<close>, \<open>tree_api\<close>,
  \<open>template_api\<close>, \<open>account_api\<close>, \<open>access_api\<close>, \<open>rule_api\<close>, \<open>store_api\<close>). \<open>Prelude\<close> holds what all theories share: SQL tables
  as lists of rows with unique keys (the locale \<open>keyed_store\<close> is the contract of a keyed table,
  interpreted on the node cache and the queue), dicts, strings and errors; \<open>Tables\<close> adds what the
  administrative handlers share.

  \<^bold>\<open>Nodes.\<close>
  \<^item> \<open>Lifecycle\<close>: the state machine, transitions with their audit row and the retry counter
    (src/src/core/state_machine.py, state_service.py, event_service.py).
  \<^item> \<open>NodeRoutes\<close>, \<open>NodeAdmin\<close>, \<open>Inventory\<close>: the handlers of src/src/api/routes/nodes.py. After any
    requests the audit rows of a node lead step by step to its state, the retry counter stays in
    its bounds, and the tag table implements a relation.
  \<^item> \<open>Health\<close>: the health check and its alerts (src/src/core/health_service.py).
  \<^item> \<open>Disks\<close>, \<open>ResizePlan\<close>, \<open>Clone\<close>: disk reports, the queue of partition operations (a refinement of a
    first-in first-out queue), resize plans that fit, and clone sessions
    (src/src/api/routes/disks.py, clone.py).
  \<^item> \<open>Workflows\<close>, \<open>BootScripts\<close>, \<open>Boot\<close>: workflow files stay in their directory; a machine is told to
    load something from the network only when its node is pending
    (src/src/core/workflow_service.py, src/src/api/routes/boot.py).

  \<^bold>\<open>PXE servers.\<close> \<open>Wire\<close>, \<open>Tftp\<close>, \<open>Paths\<close>, \<open>TftpPaths\<close>, \<open>Dhcp\<close>, \<open>PiManager\<close>, \<open>BootPi\<close>: packets and their round
  trips, a completed transfer delivers the file, which names a request may reach, the offer of
  the proxy DHCP server, and the directories of Raspberry Pi boards (src/src/pxe/).

  \<^bold>\<open>Site agent.\<close>
  \<^item> \<open>StateCache\<close>, \<open>SyncQueue\<close>, \<open>Connectivity\<close>, \<open>Proxy\<close>, \<open>QueueProcessor\<close>, \<open>Conflicts\<close>: the queue refines a
    first-in first-out sequence, the processor returns and loses nothing against an unreachable
    controller, the monitor and the conflict check are characterised exactly.
  \<^item> \<open>ContentCache\<close>, \<open>CacheSync\<close>: the file cache and its synchronisation. A lock that its own task
    holds makes an operation wait for ever; such a run has the value \<open>None\<close>. Storing into a full
    cache and every synchronisation by hand are such runs.
  \<^item> \<open>AgentBoot\<close>: offline scripts only start from the local disk; the file service reaches files
    outside of its cache.

  \<^bold>\<open>Administration.\<close>
  \<^item> \<open>Approvals\<close>, \<open>ApprovalRules\<close>: the four-eye principle, final decisions, escalation, and the rules
    (src/src/services/approvals.py, src/src/api/routes/approvals.py, approval_rules.py).
  \<^item> \<open>DeviceGroups\<close>, \<open>Sites\<close>: the group tree with its materialised paths, sites and agents
    (src/src/api/routes/groups.py, sites.py, agents.py).
  \<^item> \<open>Render\<close>, \<open>Templates\<close>: includes, variables and versions of templates
    (src/src/core/template_renderer.py, variable_resolver.py, src/src/api/routes/templates.py).
  \<^item> \<open>Accounts\<close>, \<open>Access\<close>: login, tokens, users, API keys, the middleware, permissions, roles, service
    accounts and user groups (src/src/api/routes/auth.py, users.py, roles.py, service_accounts.py,
    user_groups.py, src/src/api/middleware/auth.py, src/src/api/dependencies/auth.py).
  \<^item> \<open>Seeds\<close>: the permissions, roles, groups and the administrator written at start-up; seeding twice changes
    nothing (src/src/db/seed.py).
  \<^item> \<open>Storage\<close>, \<open>FileRoutes\<close>, \<open>Throttler\<close>: the services of the NFS, HTTP, S3 and iSCSI backends, the file browser
    with its checksums, boot files, settings, and the throttler that delivers boot files
    (src/src/core/storage.py, bandwidth_throttler.py, system_settings.py, src/src/api/routes/storage.py, files.py,
    boot_files.py). An uploaded boot file is delivered as it was written.
  \<^item> \<open>Luns\<close>: iSCSI LUNs with their background tasks as a step relation (src/src/core/iscsi.py,
    src/src/api/routes/luns.py): a LUN is active exactly if it has an owner; a restart strands LUNs in creation.
  \<^item> \<open>SyncJobs\<close>: synchronisation jobs, their scheduler, the runs of rsync and the registration at start-up
    (src/src/core/sync.py, scheduler.py, src/src/api/routes/sync_jobs.py, main.py): at most three runs at a time,
    which versions a run leaves, and why a new job is not scheduled.

  \<^bold>\<open>Parameters.\<close> What is not under src/ is an argument: bcrypt, SHA-256, PyJWT and directory servers
  (\<open>Accounts.env\<close>), Fernet and the commands of the host (\<open>Luns.lun_env\<close>), the certificate library, the replies of remote servers (\<open>Proxy.world\<close>,
  \<open>CacheSync.central\<close>), the readers of workflow files, and what each wait of a TFTP transfer sees.
  Clock readings, drawn ids and salts are arguments of the handlers. Where a theorem needs a law of
  such a parameter it is a named hypothesis (\<open>bcrypt_law\<close>, \<open>float_rounding\<close>), with a witness.

  \<^bold>\<open>Loops.\<close> Recursion over data is structural. Loops that may not end are \<open>partial_function (option)\<close>:
  the walk from a group to its ancestors (it ends under the tree invariant), the loop of the queue
  processor (it ends while online), and the throttled stream (it ends exactly if the announced
  size is large enough). Includes of templates are bounded by the depth 10 of the code.

  \<^bold>\<open>Not modelled.\<close> The rest of start-up, settings and command lines (src/src/main.py, src/src/agent/main.py,
  src/src/config/): they only connect the parts. Wrappers of external programs and services and staging:
  src/src/core/nfs_manager.py, src/src/services/staging.py, src/src/pxe/ipxe_builder.py, src/src/api/routes/hypervisors.py, the LDAP protocol.
  Concurrent requests are served one after the other. The notes of the manifest say what each modelled part
  leaves out.
\<close>

end
